(* ===== verification/Js_Prelude.thy ===== *)
theory Js_Prelude
  imports Main "HOL-Library.Char_ord" "HOL-Library.List_Lexorder"
begin

text \<open>
  Shared vocabulary of the development: what the components use of JavaScript.

  A JavaScript string is a \<^typ>\<open>string\<close>, one \<^typ>\<open>char\<close> per UTF-16 code unit;
  code units above 255 are not represented.  A number that the code only ever
  compares with \<open>Number.isSafeInteger\<close> is an \<^typ>\<open>int\<close> or a \<^typ>\<open>nat\<close>.  A
  \<open>Map\<close> or a \<open>Set\<close>, whose iteration order is the insertion order, is an
  association list or a list in that order, with the operations below.
\<close>

named_theorems js_simps \<comment> \<open>characteristic equations of the JavaScript operations\<close>
named_theorems inv_intros \<comment> \<open>preservation lemmas, one per operation\<close>

subsection \<open>Numbers and strings\<close>

definition max_safe :: int where
  "max_safe = 9007199254740991"

definition safe_int :: "int \<Rightarrow> bool" where
  "safe_int n \<longleftrightarrow> - max_safe \<le> n \<and> n \<le> max_safe"

definition lower_hex_char :: "char \<Rightarrow> bool" where
  "lower_hex_char c \<longleftrightarrow>
     (CHR ''0'' \<le> c \<and> c \<le> CHR ''9'') \<or> (CHR ''a'' \<le> c \<and> c \<le> CHR ''f'')"

text \<open>The regular expression \<open>^[a-f0-9]{n}$\<close>.\<close>

definition hex_string :: "string \<Rightarrow> nat \<Rightarrow> bool" where
  "hex_string v n \<longleftrightarrow> length v = n \<and> list_all lower_hex_char v"

text \<open>The length of the UTF-8 encoding: two bytes for a code unit of 128 to 255.\<close>

definition utf8_length :: "string \<Rightarrow> nat" where
  "utf8_length s = (\<Sum>c\<leftarrow>s. if of_char c < (128 :: nat) then 1 else 2)"

subsection \<open>Insertion-ordered maps\<close>

text \<open>\<open>Map.prototype.set\<close> keeps the position of a key that is present.\<close>

fun jset :: "'k \<Rightarrow> 'v \<Rightarrow> ('k \<times> 'v) list \<Rightarrow> ('k \<times> 'v) list" where
  "jset k v [] = [(k, v)]"
| "jset k v ((k', v') # m) = (if k' = k then (k, v) # m else (k', v') # jset k v m)"

definition jget :: "('k \<times> 'v) list \<Rightarrow> 'k \<Rightarrow> 'v option" where
  "jget m k = map_of m k"

definition jhas :: "('k \<times> 'v) list \<Rightarrow> 'k \<Rightarrow> bool" where
  "jhas m k \<longleftrightarrow> jget m k \<noteq> None"

definition jdel :: "'k \<Rightarrow> ('k \<times> 'v) list \<Rightarrow> ('k \<times> 'v) list" where
  "jdel k m = filter (\<lambda>e. fst e \<noteq> k) m"

text \<open>\<open>m.delete(m.keys().next().value)\<close>: drop the oldest entry.\<close>

definition jdel_oldest :: "('k \<times> 'v) list \<Rightarrow> ('k \<times> 'v) list" where
  "jdel_oldest m = (case m of [] \<Rightarrow> [] | e # m' \<Rightarrow> jdel (fst e) m)"

abbreviation jkeys :: "('k \<times> 'v) list \<Rightarrow> 'k list" where
  "jkeys m \<equiv> map fst m"

definition jwf :: "('k \<times> 'v) list \<Rightarrow> bool" where
  "jwf m \<longleftrightarrow> distinct (jkeys m)"

text \<open>\<open>[...new Set(xs)]\<close>: the first occurrence of each element, in order.\<close>

fun juniq :: "'a list \<Rightarrow> 'a list" where
  "juniq [] = []"
| "juniq (x # xs) = x # filter (\<lambda>y. y \<noteq> x) (juniq xs)"

subsection \<open>Laws\<close>

lemma utf8_length_le: "utf8_length s \<le> 2 * length s"
  by (induction s) (auto simp: utf8_length_def)

lemma jget_Nil [simp, js_simps]: "jget [] k = None"
  by (simp add: jget_def)

lemma jget_Cons [js_simps]: "jget ((k', v) # m) k = (if k' = k then Some v else jget m k)"
  by (simp add: jget_def)

lemma jget_jset [simp, js_simps]: "jget (jset k v m) k' = (if k' = k then Some v else jget m k')"
  by (induction k v m rule: jset.induct) (auto simp: jget_Cons)

lemma jget_jdel [simp, js_simps]: "jget (jdel k m) k' = (if k' = k then None else jget m k')"
  by (induction m) (auto simp: jget_Cons jdel_def)

lemma jhas_iff: "jhas m k \<longleftrightarrow> k \<in> set (jkeys m)"
  by (induction m) (auto simp: jhas_def jget_Cons)

lemma jhas_jset [simp, js_simps]: "jhas (jset k v m) k' \<longleftrightarrow> k' = k \<or> jhas m k'"
  by (simp add: jhas_def)

lemma jhas_jdel [simp, js_simps]: "jhas (jdel k m) k' \<longleftrightarrow> k' \<noteq> k \<and> jhas m k'"
  by (simp add: jhas_def)

lemma jkeys_jset: "set (jkeys (jset k v m)) = insert k (set (jkeys m))"
  by (induction k v m rule: jset.induct) auto

lemma jwf_Nil [simp, inv_intros]: "jwf []"
  by (simp add: jwf_def)

lemma jwf_jset [simp, inv_intros]: "jwf m \<Longrightarrow> jwf (jset k v m)"
  unfolding jwf_def by (induction k v m rule: jset.induct) (auto simp: jkeys_jset simp del: set_map)

lemma jwf_filter [simp, inv_intros]: "jwf m \<Longrightarrow> jwf (filter P m)"
  by (simp add: jwf_def distinct_map_filter)

lemma jwf_jdel [simp, inv_intros]: "jwf m \<Longrightarrow> jwf (jdel k m)"
  by (simp add: jdel_def)

lemma jwf_jdel_oldest [simp, inv_intros]: "jwf m \<Longrightarrow> jwf (jdel_oldest m)"
  by (auto simp: jdel_oldest_def split: list.splits)

lemma length_jset: "length (jset k v m) = (if jhas m k then length m else Suc (length m))"
  by (induction k v m rule: jset.induct) (auto simp: jhas_def jget_Cons)

lemma length_jset_le: "length (jset k v m) \<le> Suc (length m)"
  by (simp add: length_jset)

lemma length_jdel_le [simp]: "length (jdel k m) \<le> length m"
  by (simp add: jdel_def)

lemma length_jdel_oldest: "m \<noteq> [] \<Longrightarrow> length (jdel_oldest m) < length m"
  by (cases m) (auto simp: jdel_oldest_def jdel_def less_Suc_eq_le)

lemma jdel_oldest_tl: "jwf m \<Longrightarrow> jdel_oldest m = tl m"
proof (cases m)
  case (Cons e m')
  assume "jwf m"
  with Cons have "fst e \<notin> set (jkeys m')" by (simp add: jwf_def)
  then have "\<forall>x \<in> set m'. fst x \<noteq> fst e"
    by (metis image_eqI list.set_map)
  then have "filter (\<lambda>x. fst x \<noteq> fst e) m' = m'"
    by (simp add: filter_id_conv)
  with Cons show ?thesis by (simp add: jdel_oldest_def jdel_def)
qed (simp add: jdel_oldest_def)

lemma set_jset: "jwf m \<Longrightarrow> set (jset k v m) = insert (k, v) {e \<in> set m. fst e \<noteq> k}"
proof (induction k v m rule: jset.induct)
  case (2 k v k' v' m)
  then have "jwf m" and "k' \<notin> fst ` set m" by (auto simp: jwf_def)
  then show ?case using 2 by auto
qed simp

lemma set_jset_subset: "set (jset k v m) \<subseteq> insert (k, v) (set m)"
  by (induction k v m rule: jset.induct) auto

lemma set_jdel_subset: "set (jdel k m) \<subseteq> set m"
  by (auto simp: jdel_def)

lemma jget_in: "jget m k = Some v \<Longrightarrow> (k, v) \<in> set m"
  unfolding jget_def by (rule map_of_SomeD)

lemma jget_unique: "jwf m \<Longrightarrow> (k, v) \<in> set m \<Longrightarrow> jget m k = Some v"
  unfolding jget_def jwf_def by (rule map_of_is_SomeI)

lemma set_juniq [simp]: "set (juniq xs) = set xs"
  by (induction xs) auto

lemma distinct_juniq [simp]: "distinct (juniq xs)"
  by (induction xs) auto

lemma length_juniq_le: "length (juniq xs) \<le> length xs"
  by (induction xs) (auto intro: order_trans [OF length_filter_le])

text \<open>Lists updated at the first element that satisfies a predicate, as \<open>find\<close> and \<open>indexOf\<close> do.\<close>

fun update_first :: "('a \<Rightarrow> bool) \<Rightarrow> ('a \<Rightarrow> 'a) \<Rightarrow> 'a list \<Rightarrow> 'a list" where
  "update_first p f [] = []"
| "update_first p f (x # xs) = (if p x then f x # xs else x # update_first p f xs)"

lemma length_update_first [simp]: "length (update_first p f xs) = length xs"
  by (induction xs) auto

lemma map_update_first: "(\<And>x. p x \<Longrightarrow> g (f x) = g x) \<Longrightarrow> map g (update_first p f xs) = map g xs"
  by (induction xs) auto

lemma set_update_first_subset: "set (update_first p f xs) \<subseteq> set xs \<union> f ` {x \<in> set xs. p x}"
  by (induction xs) auto

lemma find_update_first:
  "(\<And>x. p x \<Longrightarrow> p (f x)) \<Longrightarrow> find p (update_first p f xs) = map_option f (find p xs)"
  by (induction xs) auto

lemma length_filter_strict:
  assumes "\<And>x. x \<in> set xs \<Longrightarrow> P x \<Longrightarrow> Q x" and "y \<in> set xs" and "Q y" and "\<not> P y"
  shows "length (filter P xs) < length (filter Q xs)"
proof -
  have "filter P xs = filter P (filter Q xs)"
    using assms(1) by (auto intro: filter_cong)
  moreover have "length (filter P (filter Q xs)) < length (filter Q xs)"
    using assms by (intro length_filter_less [of y]) simp_all
  ultimately show ?thesis by simp
qed

lemma update_first_same: "find p xs = Some x \<Longrightarrow> update_first p (\<lambda>_. x) xs = xs"
  by (induction xs) (auto split: if_splits)

end
