(* ===== verification/Json.thy ===== *)
theory Json
  imports Js_Prelude
begin

text \<open>
  JavaScript values as JSON carries them, \<open>JSON.stringify\<close> and \<open>JSON.parse\<close>.

  A number is \<open>JInt n\<close> when it is an integer and \<open>JDec m k\<close> for the decimal
  \<open>m / 10^k\<close> otherwise.  The value of a literal is exact: the rounding of a literal to a
  double is not represented, which cannot turn an integer that is not safe into a safe one.  An
  object's members are in insertion order; a repeated key keeps the first
  position and the last value.  An escape \<open>\uXXXX\<close> above 255 reads as
  the code unit 255, which stands for every code unit that a string here cannot hold.

  The parser takes fuel; \<open>json_parse\<close> supplies twice the length of the text,
  and \<open>json_roundtrip\<close> shows that this is enough to read back every printed value.
\<close>

datatype js =
    JUndefined
  | JNull
  | JBool bool
  | JInt int
  | JDec int nat
  | JStr string
  | JArr "js list"
  | JObj "(string \<times> js) list"

subsection \<open>Reading members and types\<close>

text \<open>\<open>value.name\<close> on an object: a missing member is \<open>undefined\<close>.\<close>

fun member :: "js \<Rightarrow> string \<Rightarrow> js" where
  "member (JObj m) k = (case jget m k of None \<Rightarrow> JUndefined | Some v \<Rightarrow> v)"
| "member _ k = JUndefined"

text \<open>\<open>!value || typeof value !== "object" || Array.isArray(value)\<close> is the negation.\<close>

fun plain_object :: "js \<Rightarrow> bool" where
  "plain_object (JObj m) = True"
| "plain_object _ = False"

fun safe_integer :: "js \<Rightarrow> bool" where
  "safe_integer (JInt n) = safe_int n"
| "safe_integer _ = False"

text \<open>\<open>a === b\<close> for values of separate parses: two objects are never the same object.\<close>

fun strict_eq :: "js \<Rightarrow> js \<Rightarrow> bool" where
  "strict_eq (JArr vs) b = False"
| "strict_eq (JObj m) b = False"
| "strict_eq a b = (a = b)"

text \<open>Truthiness, \<open>typeof value === "object"\<close> of a truthy value, and \<open>array[i]\<close>.\<close>

fun truthy :: "js \<Rightarrow> bool" where
  "truthy JUndefined = False"
| "truthy JNull = False"
| "truthy (JBool b) = b"
| "truthy (JInt n) = (n \<noteq> 0)"
| "truthy (JStr s) = (s \<noteq> [])"
| "truthy v = True"

fun object_or_array :: "js \<Rightarrow> bool" where
  "object_or_array (JObj m) = True"
| "object_or_array (JArr vs) = True"
| "object_or_array _ = False"

fun elems :: "js \<Rightarrow> js list" where
  "elems (JArr vs) = vs"
| "elems _ = []"

fun is_array :: "js \<Rightarrow> bool" where
  "is_array (JArr vs) = True"
| "is_array _ = False"

definition at_index :: "js list \<Rightarrow> nat \<Rightarrow> js" where
  "at_index vs i = (if i < length vs then vs ! i else JUndefined)"

fun int_of :: "js \<Rightarrow> int" where
  "int_of (JInt n) = n"
| "int_of _ = 0"

fun is_int :: "js \<Rightarrow> bool" where
  "is_int (JInt n) = True"
| "is_int _ = False"

fun is_string :: "js \<Rightarrow> bool" where
  "is_string (JStr s) = True"
| "is_string _ = False"

subsection \<open>Printing\<close>

definition digit_char :: "nat \<Rightarrow> char" where
  "digit_char d = char_of (48 + d)"

fun nat_text :: "nat \<Rightarrow> string" where
  "nat_text n = (if n < 10 then [digit_char n] else nat_text (n div 10) @ [digit_char (n mod 10)])"

declare nat_text.simps [simp del]

definition int_text :: "int \<Rightarrow> string" where
  "int_text i = (if i < 0 then CHR ''-'' # nat_text (nat (- i)) else nat_text (nat i))"

definition dec_text :: "int \<Rightarrow> nat \<Rightarrow> string" where
  "dec_text m k =
     (let ds = nat_text (nat \<bar>m\<bar>);
          ps = replicate (Suc k - length ds) (CHR ''0'') @ ds;
          n = length ps - k
      in (if m < 0 then ''-'' else '''') @ take n ps @ ''.'' @ drop n ps)"

definition hex_digit_char :: "nat \<Rightarrow> char" where
  "hex_digit_char d = (if d < 10 then char_of (48 + d) else char_of (87 + d))"

definition control_char :: "char \<Rightarrow> bool" where
  "control_char c \<longleftrightarrow> of_char c < (32 :: nat)"

definition escape_char :: "char \<Rightarrow> string" where
  "escape_char c =
     (if c = CHR 0x22 then [CHR 0x5C, CHR 0x22]
      else if c = CHR 0x5C then [CHR 0x5C, CHR 0x5C]
      else if c = CHR 0x08 then [CHR 0x5C, CHR ''b'']
      else if c = CHR 0x0C then [CHR 0x5C, CHR ''f'']
      else if c = CHR 0x0A then [CHR 0x5C, CHR ''n'']
      else if c = CHR 0x0D then [CHR 0x5C, CHR ''r'']
      else if c = CHR 0x09 then [CHR 0x5C, CHR ''t'']
      else if control_char c then
        [CHR 0x5C, CHR ''u'', CHR ''0'', CHR ''0'',
         hex_digit_char (of_char c div 16), hex_digit_char (of_char c mod 16)]
      else [c])"

definition string_text :: "string \<Rightarrow> string" where
  "string_text s = CHR 0x22 # concat (map escape_char s) @ [CHR 0x22]"

fun commas :: "string list \<Rightarrow> string" where
  "commas [] = []"
| "commas [x] = x"
| "commas (x # y # xs) = x @ '','' @ commas (y # xs)"

text \<open>
  \<open>JSON.stringify\<close> of a value that is not \<open>undefined\<close>: \<open>undefined\<close> prints as
  \<open>null\<close> in an array and its member is left out of an object.
\<close>

fun json_text :: "js \<Rightarrow> string" where
  "json_text JUndefined = ''null''"
| "json_text JNull = ''null''"
| "json_text (JBool b) = (if b then ''true'' else ''false'')"
| "json_text (JInt i) = int_text i"
| "json_text (JDec m k) = dec_text m k"
| "json_text (JStr s) = string_text s"
| "json_text (JArr vs) = ''['' @ commas (map json_text vs) @ '']''"
| "json_text (JObj m) =
     ''{'' @ commas (map (\<lambda>(k, v). string_text k @ '':'' @ json_text v)
                       (filter (\<lambda>(k, v). v \<noteq> JUndefined) m)) @ ''}''"

text \<open>\<open>String(value)\<close>, as \<open>RegExp.prototype.test\<close> applies it to its argument.\<close>

fun js_string :: "js \<Rightarrow> string" where
  "js_string JUndefined = ''undefined''"
| "js_string (JStr s) = s"
| "js_string (JArr vs) =
     commas (map (\<lambda>v. case v of JUndefined \<Rightarrow> [] | JNull \<Rightarrow> [] | _ \<Rightarrow> js_string v) vs)"
| "js_string (JObj m) = ''[object Object]''"
| "js_string v = json_text v"

subsection \<open>Parsing\<close>

definition ws_char :: "char \<Rightarrow> bool" where
  "ws_char c \<longleftrightarrow> c = CHR 0x20 \<or> c = CHR 0x09 \<or> c = CHR 0x0A \<or> c = CHR 0x0D"

definition skip_ws :: "string \<Rightarrow> string" where
  "skip_ws s = dropWhile ws_char s"

definition digit :: "char \<Rightarrow> bool" where
  "digit c \<longleftrightarrow> CHR ''0'' \<le> c \<and> c \<le> CHR ''9''"

definition digit_value :: "char \<Rightarrow> nat" where
  "digit_value c = of_char c - 48"

definition digits_value :: "string \<Rightarrow> nat" where
  "digits_value ds = foldl (\<lambda>n c. 10 * n + digit_value c) 0 ds"

definition hex_value :: "char \<Rightarrow> nat option" where
  "hex_value c =
     (let n = of_char c :: nat
      in if 48 \<le> n \<and> n \<le> 57 then Some (n - 48)
         else if 97 \<le> n \<and> n \<le> 102 then Some (n - 87)
         else if 65 \<le> n \<and> n \<le> 70 then Some (n - 55)
         else None)"

definition code_unit :: "char \<Rightarrow> char \<Rightarrow> char \<Rightarrow> char \<Rightarrow> char option" where
  "code_unit a b c d =
     (case (hex_value a, hex_value b, hex_value c, hex_value d) of
        (Some p, Some q, Some r, Some s) \<Rightarrow>
          (let n = ((p * 16 + q) * 16 + r) * 16 + s
           in Some (if n < 256 then char_of n else CHR 0xFF))
      | _ \<Rightarrow> None)"

definition unescape_char :: "char \<Rightarrow> char option" where
  "unescape_char c =
     (if c = CHR 0x22 \<or> c = CHR 0x5C \<or> c = CHR 0x2F then Some c
      else if c = CHR ''b'' then Some (CHR 0x08)
      else if c = CHR ''f'' then Some (CHR 0x0C)
      else if c = CHR ''n'' then Some (CHR 0x0A)
      else if c = CHR ''r'' then Some (CHR 0x0D)
      else if c = CHR ''t'' then Some (CHR 0x09)
      else None)"

text \<open>The characters of a string after its opening quote.\<close>

fun parse_chars :: "string \<Rightarrow> (string \<times> string) option" where
  "parse_chars [] = None"
| "parse_chars (c # cs) =
     (if c = CHR 0x22 then Some ([], cs)
      else if c = CHR 0x5C then
        (case cs of
           [] \<Rightarrow> None
         | d # ds \<Rightarrow>
             if d = CHR ''u'' then
               (case ds of
                  h1 # h2 # h3 # h4 # rest \<Rightarrow>
                    (case code_unit h1 h2 h3 h4 of
                       None \<Rightarrow> None
                     | Some x \<Rightarrow> map_option (apfst (Cons x)) (parse_chars rest))
                | _ \<Rightarrow> None)
             else
               (case unescape_char d of
                  None \<Rightarrow> None
                | Some x \<Rightarrow> map_option (apfst (Cons x)) (parse_chars ds)))
      else if control_char c then None
      else map_option (apfst (Cons c)) (parse_chars cs))"

text \<open>The decimal \<open>m / 10^k\<close> in lowest form.\<close>

fun decimal :: "int \<Rightarrow> nat \<Rightarrow> js" where
  "decimal m 0 = JInt m"
| "decimal m (Suc k) = (if m mod 10 = 0 then decimal (m div 10) k else JDec m (Suc k))"

definition parse_fraction :: "string \<Rightarrow> (string \<times> string) option" where
  "parse_fraction s =
     (case s of
        c # cs \<Rightarrow>
          if c = CHR ''.'' then
            (if takeWhile digit cs = [] then None
             else Some (takeWhile digit cs, dropWhile digit cs))
          else Some ([], s)
      | [] \<Rightarrow> Some ([], []))"

definition parse_exponent :: "string \<Rightarrow> (int \<times> string) option" where
  "parse_exponent s =
     (case s of
        c # cs \<Rightarrow>
          if c = CHR ''e'' \<or> c = CHR ''E'' then
            (let (neg, ds) = (case cs of
                 d # ds \<Rightarrow> if d = CHR ''-'' then (True, ds)
                            else if d = CHR ''+'' then (False, ds) else (False, cs)
               | [] \<Rightarrow> (False, []))
             in if takeWhile digit ds = [] then None
                else Some ((if neg then - 1 else 1) * int (digits_value (takeWhile digit ds)),
                           dropWhile digit ds))
          else Some (0, s)
      | [] \<Rightarrow> Some (0, []))"

definition number_value :: "bool \<Rightarrow> string \<Rightarrow> string \<Rightarrow> int \<Rightarrow> js" where
  "number_value neg ds fs e =
     (let m = (if neg then - 1 else 1) * int (digits_value (ds @ fs));
          k = int (length fs) - e
      in if k \<le> 0 then JInt (m * 10 ^ nat (- k)) else decimal m (nat k))"

definition parse_number :: "string \<Rightarrow> (js \<times> string) option" where
  "parse_number s =
     (let (neg, s1) = (case s of c # cs \<Rightarrow> if c = CHR ''-'' then (True, cs) else (False, s)
                                | [] \<Rightarrow> (False, []));
          ds = takeWhile digit s1
      in if ds = [] \<or> (hd ds = CHR ''0'' \<and> length ds > 1) then None
         else (case parse_fraction (dropWhile digit s1) of
             None \<Rightarrow> None
           | Some (fs, s2) \<Rightarrow>
               (case parse_exponent s2 of
                  None \<Rightarrow> None
                | Some (e, s3) \<Rightarrow> Some (number_value neg ds fs e, s3))))"

fun strip_prefix :: "string \<Rightarrow> string \<Rightarrow> string option" where
  "strip_prefix [] s = Some s"
| "strip_prefix (p # ps) [] = None"
| "strip_prefix (p # ps) (c # cs) = (if p = c then strip_prefix ps cs else None)"

definition parse_literal :: "string \<Rightarrow> (js \<times> string) option" where
  "parse_literal s =
     (case strip_prefix ''true'' s of
        Some r \<Rightarrow> Some (JBool True, r)
      | None \<Rightarrow>
          (case strip_prefix ''false'' s of
             Some r \<Rightarrow> Some (JBool False, r)
           | None \<Rightarrow> map_option (Pair JNull) (strip_prefix ''null'' s)))"

definition object_of :: "(string \<times> js) list \<Rightarrow> (string \<times> js) list" where
  "object_of ms = foldl (\<lambda>m (k, v). jset k v m) [] ms"

fun parse_value :: "nat \<Rightarrow> string \<Rightarrow> (js \<times> string) option"
  and parse_elems :: "nat \<Rightarrow> string \<Rightarrow> (js list \<times> string) option"
  and parse_members :: "nat \<Rightarrow> string \<Rightarrow> ((string \<times> js) list \<times> string) option" where
  "parse_value 0 s = None"
| "parse_value (Suc n) s =
     (case skip_ws s of
        [] \<Rightarrow> None
      | c # cs \<Rightarrow>
          if c = CHR 0x22 then map_option (apfst JStr) (parse_chars cs)
          else if c = CHR ''['' then
            (case strip_prefix '']'' (skip_ws cs) of
               Some r \<Rightarrow> Some (JArr [], r)
             | None \<Rightarrow> map_option (apfst JArr) (parse_elems n cs))
          else if c = CHR ''{'' then
            (case strip_prefix ''}'' (skip_ws cs) of
               Some r \<Rightarrow> Some (JObj [], r)
             | None \<Rightarrow> map_option (apfst (\<lambda>ms. JObj (object_of ms))) (parse_members n cs))
          else if c = CHR ''-'' \<or> digit c then parse_number (c # cs)
          else parse_literal (c # cs))"
| "parse_elems 0 s = None"
| "parse_elems (Suc n) s =
     (case parse_value n s of
        None \<Rightarrow> None
      | Some (v, r) \<Rightarrow>
          (case skip_ws r of
             [] \<Rightarrow> None
           | c # cs \<Rightarrow>
               if c = CHR '','' then map_option (apfst (Cons v)) (parse_elems n cs)
               else if c = CHR '']'' then Some ([v], cs)
               else None))"
| "parse_members 0 s = None"
| "parse_members (Suc n) s =
     (case skip_ws s of
        [] \<Rightarrow> None
      | q # qs \<Rightarrow>
          if q \<noteq> CHR 0x22 then None
          else (case parse_chars qs of
             None \<Rightarrow> None
           | Some (k, r) \<Rightarrow>
               (case strip_prefix '':'' (skip_ws r) of
                  None \<Rightarrow> None
                | Some r1 \<Rightarrow>
                    (case parse_value n r1 of
                       None \<Rightarrow> None
                     | Some (v, r2) \<Rightarrow>
                         (case skip_ws r2 of
                            [] \<Rightarrow> None
                          | c # cs \<Rightarrow>
                              if c = CHR '','' then map_option (apfst (Cons (k, v))) (parse_members n cs)
                              else if c = CHR ''}'' then Some ([(k, v)], cs)
                              else None)))))"

text \<open>\<open>JSON.parse\<close>: \<open>None\<close> where it throws.\<close>

definition json_parse :: "string \<Rightarrow> js option" where
  "json_parse s =
     (case parse_value (2 * length s + 2) s of
        Some (v, r) \<Rightarrow> if skip_ws r = [] then Some v else None
      | None \<Rightarrow> None)"

subsection \<open>Reading back what was printed\<close>

text \<open>The values whose text determines them: no \<open>undefined\<close>, no fraction, no repeated key.\<close>

fun json_wf :: "js \<Rightarrow> bool" where
  "json_wf JUndefined = False"
| "json_wf (JDec m k) = False"
| "json_wf (JArr vs) = (\<forall>v \<in> set vs. json_wf v)"
| "json_wf (JObj m) = (jwf m \<and> (\<forall>e \<in> set m. json_wf (snd e)))"
| "json_wf _ = True"

lemma of_char_digit_char [simp]: "d < 10 \<Longrightarrow> (of_char (digit_char d) :: nat) = 48 + d"
  by (simp add: digit_char_def)

lemma digit_iff: "digit c \<longleftrightarrow> 48 \<le> (of_char c :: nat) \<and> (of_char c :: nat) \<le> 57"
  by (simp add: digit_def less_eq_char_def)

lemma digit_digit_char [simp]: "d < 10 \<Longrightarrow> digit (digit_char d)"
  by (simp add: digit_iff)

lemma digit_value_digit_char [simp]: "d < 10 \<Longrightarrow> digit_value (digit_char d) = d"
  by (simp add: digit_value_def)

lemma digits_value_append: "digits_value (xs @ [c]) = 10 * digits_value xs + digit_value c"
  by (simp add: digits_value_def)

lemma nat_text_digits: "\<forall>c \<in> set (nat_text n). digit c"
proof (induction n rule: nat_text.induct)
  case (1 n)
  then show ?case by (subst nat_text.simps) auto
qed

lemma nat_text_nonempty [simp]: "nat_text n \<noteq> []"
  by (subst nat_text.simps) simp

lemma digits_value_nat_text [simp]: "digits_value (nat_text n) = n"
proof (induction n rule: nat_text.induct)
  case (1 n)
  show ?case
  proof (cases "n < 10")
    case True
    then show ?thesis by (subst nat_text.simps) (simp add: digits_value_def)
  next
    case False
    with "1.IH" show ?thesis by (subst nat_text.simps) (simp add: digits_value_append)
  qed
qed

lemma nat_text_leading: "hd (nat_text n) = CHR ''0'' \<Longrightarrow> length (nat_text n) = 1"
proof (induction n rule: nat_text.induct)
  case (1 n)
  show ?case
  proof (cases "n < 10")
    case True
    then show ?thesis by (subst nat_text.simps) simp
  next
    case False
    then have eq: "nat_text n = nat_text (n div 10) @ [digit_char (n mod 10)]"
      by (subst nat_text.simps) simp
    with "1.prems" have "hd (nat_text (n div 10)) = CHR ''0''" by simp
    with "1.IH" False have "length (nat_text (n div 10)) = 1" by simp
    then obtain c where c: "nat_text (n div 10) = [c]"
      by (auto simp: length_Suc_conv)
    with \<open>hd (nat_text (n div 10)) = CHR ''0''\<close> have "c = CHR ''0''" by simp
    with c have "digits_value (nat_text (n div 10)) = 0"
      by (simp add: digits_value_def digit_value_def)
    with False show ?thesis by simp
  qed
qed

text \<open>A rest of input at which a number literal stops.\<close>

definition number_stop :: "string \<Rightarrow> bool" where
  "number_stop r \<longleftrightarrow> (case r of [] \<Rightarrow> True
     | c # _ \<Rightarrow> \<not> digit c \<and> c \<noteq> CHR ''.'' \<and> c \<noteq> CHR ''e'' \<and> c \<noteq> CHR ''E'')"

lemma takeWhile_nat_text:
  "number_stop r \<Longrightarrow> takeWhile digit (nat_text n @ r) = nat_text n \<and> dropWhile digit (nat_text n @ r) = r"
  using nat_text_digits [of n]
  by (cases r) (auto simp: number_stop_def takeWhile_append2 dropWhile_append2 takeWhile_eq_all_conv)

lemma parse_number_nat:
  assumes "number_stop r"
  shows "parse_number (nat_text n @ r) = Some (JInt (int n), r)"
    and "parse_number (CHR ''-'' # nat_text n @ r) = Some (JInt (- int n), r)"
proof -
  obtain c cs where n: "nat_text n = c # cs" by (cases "nat_text n") auto
  with nat_text_digits [of n] have "c \<noteq> CHR ''-''" by (auto simp: digit_def)
  moreover have "parse_fraction r = Some ([], r)" and "parse_exponent r = Some (0, r)"
    using assms by (auto simp: number_stop_def parse_fraction_def parse_exponent_def split: list.splits)
  moreover have "\<not> (hd (nat_text n) = CHR ''0'' \<and> 1 < length (nat_text n))"
    using nat_text_leading [of n] by auto
  ultimately show "parse_number (nat_text n @ r) = Some (JInt (int n), r)"
    and "parse_number (CHR ''-'' # nat_text n @ r) = Some (JInt (- int n), r)"
    using takeWhile_nat_text [OF assms, of n] digits_value_nat_text [of n] n
    by (simp_all add: parse_number_def number_value_def del: takeWhile.simps dropWhile.simps)
qed

lemma hex_value_hex_digit [simp]: "d < 16 \<Longrightarrow> hex_value (hex_digit_char d) = Some d"
  by (auto simp: hex_value_def hex_digit_char_def Let_def)

lemma parse_chars_escape:
  "parse_chars (escape_char c @ t) = map_option (apfst (Cons c)) (parse_chars t)"
proof (cases "c \<in> {CHR 0x22, CHR 0x5C, CHR 0x08, CHR 0x0C, CHR 0x0A, CHR 0x0D, CHR 0x09}")
  case True
  then show ?thesis by (auto simp: escape_char_def unescape_char_def)
next
  case False
  then show ?thesis
  proof (cases "control_char c")
    case True
    then have n: "(of_char c :: nat) < 32" by (simp add: control_char_def)
    have "hex_value (CHR ''0'') = Some 0" by (simp add: hex_value_def)
    with n have "code_unit (CHR ''0'') (CHR ''0'') (hex_digit_char (of_char c div 16))
        (hex_digit_char (of_char c mod 16)) = Some c"
      by (simp add: code_unit_def Let_def)
    with False True show ?thesis by (simp add: escape_char_def)
  qed (use False in \<open>simp add: escape_char_def\<close>)
qed

lemma parse_chars_string:
  "parse_chars (concat (map escape_char s) @ CHR 0x22 # r) = Some (s, r)"
  by (induction s) (simp_all add: parse_chars_escape)

lemma parse_string_text: "parse_value (Suc n) (string_text s @ r) = Some (JStr s, r)"
  by (simp add: string_text_def skip_ws_def ws_char_def parse_chars_string)

lemma json_text_head:
  "json_wf v \<Longrightarrow> \<exists>c cs. json_text v = c # cs \<and> \<not> ws_char c \<and> c \<noteq> CHR '']'' \<and> c \<noteq> CHR ''}''"
proof (cases v)
  case (JInt i)
  obtain c cs where n: "nat_text (nat i) = c # cs" by (cases "nat_text (nat i)") auto
  with nat_text_digits [of "nat i"] have "digit c" by simp
  then have "\<not> ws_char c \<and> c \<noteq> CHR '']'' \<and> c \<noteq> CHR ''}''" by (auto simp: ws_char_def digit_def)
  with JInt n show ?thesis by (simp add: int_text_def ws_char_def)
qed (auto simp: ws_char_def string_text_def)

lemma skip_ws_json_text [simp]: "json_wf v \<Longrightarrow> skip_ws (json_text v @ r) = json_text v @ r"
  using json_text_head [of v] by (auto simp: skip_ws_def)

definition reads_back :: "js \<Rightarrow> bool" where
  "reads_back v \<longleftrightarrow> (\<forall>n r. number_stop r \<longrightarrow> 2 * length (json_text v) < n \<longrightarrow>
     parse_value n (json_text v @ r) = Some (v, r))"

lemma number_stop_sep [simp]:
  "number_stop (CHR '','' # r)" "number_stop (CHR '']'' # r)" "number_stop (CHR ''}'' # r)" "number_stop []"
  by (simp_all add: number_stop_def digit_def)

lemma commas_Cons: "xs \<noteq> [] \<Longrightarrow> commas (x # xs) = x @ '','' @ commas xs"
  by (cases xs) simp_all

lemma skip_ws_stop [simp]:
  "skip_ws (CHR '','' # r) = CHR '','' # r" "skip_ws (CHR '']'' # r) = CHR '']'' # r"
  "skip_ws (CHR ''}'' # r) = CHR ''}'' # r" "skip_ws (CHR '':'' # r) = CHR '':'' # r"
  "skip_ws (CHR 0x22 # r) = CHR 0x22 # r"
  by (simp_all add: skip_ws_def ws_char_def)

lemma parse_elems_text:
  assumes "vs \<noteq> []" and "\<forall>v \<in> set vs. reads_back v \<and> json_wf v"
    and "2 * length (commas (map json_text vs)) + 1 < n"
  shows "parse_elems n (commas (map json_text vs) @ CHR '']'' # r) = Some (vs, r)"
  using assms
proof (induction vs arbitrary: n)
  case (Cons v vs)
  then obtain m where n: "n = Suc m" by (cases n) auto
  have v: "reads_back v" using Cons.prems by simp
  show ?case
  proof (cases "vs = []")
    case True
    with Cons.prems n have "parse_value m (json_text v @ CHR '']'' # r) = Some (v, CHR '']'' # r)"
      by (simp add: reads_back_def)
    with True n show ?thesis by simp
  next
    case False
    then have len: "length (commas (map json_text (v # vs))) =
        length (json_text v) + 1 + length (commas (map json_text vs))"
      by (simp add: commas_Cons)
    have "parse_value m (json_text v @ CHR '','' # commas (map json_text vs) @ CHR '']'' # r) =
        Some (v, CHR '','' # commas (map json_text vs) @ CHR '']'' # r)"
      using v Cons.prems(3) n len by (simp add: reads_back_def)
    moreover have "parse_elems m (commas (map json_text vs) @ CHR '']'' # r) = Some (vs, r)"
      using Cons.IH [of m] Cons.prems False n len by simp
    ultimately show ?thesis using n False by (simp add: commas_Cons)
  qed
qed simp

abbreviation member_text :: "string \<times> js \<Rightarrow> string" where
  "member_text e \<equiv> string_text (fst e) @ '':'' @ json_text (snd e)"

lemma parse_members_text:
  assumes "ms \<noteq> []" and "\<forall>e \<in> set ms. reads_back (snd e) \<and> json_wf (snd e)"
    and "2 * length (commas (map member_text ms)) + 1 < n"
  shows "parse_members n (commas (map member_text ms) @ CHR ''}'' # r) = Some (ms, r)"
  using assms
proof (induction ms arbitrary: n)
  case (Cons e ms)
  then obtain m where n: "n = Suc m" by (cases n) auto
  obtain k v where e: "e = (k, v)" by force
  have v: "reads_back v" using Cons.prems e by simp
  show ?case
  proof (cases "ms = []")
    case True
    with Cons.prems n e have "parse_value m (json_text v @ CHR ''}'' # r) = Some (v, CHR ''}'' # r)"
      by (simp add: reads_back_def)
    with True n e show ?thesis by (simp add: string_text_def parse_chars_string)
  next
    case False
    then have len: "length (commas (map member_text (e # ms))) =
        length (member_text e) + 1 + length (commas (map member_text ms))"
      by (simp add: commas_Cons)
    have "parse_value m (json_text v @ CHR '','' # commas (map member_text ms) @ CHR ''}'' # r) =
        Some (v, CHR '','' # commas (map member_text ms) @ CHR ''}'' # r)"
      using v Cons.prems(3) n len e by (simp add: reads_back_def)
    moreover have "parse_members m (commas (map member_text ms) @ CHR ''}'' # r) = Some (ms, r)"
      using Cons.IH [of m] Cons.prems False n len by simp
    ultimately show ?thesis using n False e by (simp add: commas_Cons string_text_def parse_chars_string)
  qed
qed simp

lemma jset_fresh: "\<not> jhas m k \<Longrightarrow> jset k v m = m @ [(k, v)]"
  by (induction k v m rule: jset.induct) (auto simp: jhas_iff)

lemma object_of_jwf: "jwf m \<Longrightarrow> object_of m = m"
proof (induction m rule: rev_induct)
  case (snoc e m)
  then have "jwf m" and "\<not> jhas m (fst e)" by (auto simp: jwf_def jhas_iff)
  with snoc.IH show ?case by (simp add: object_of_def jset_fresh split_beta)
qed (simp add: object_of_def)

lemma reads_backI:
  assumes "\<And>m r. number_stop r \<Longrightarrow> 2 * length (json_text v) \<le> m \<Longrightarrow>
    parse_value (Suc m) (json_text v @ r) = Some (v, r)"
  shows "reads_back v"
  unfolding reads_back_def using assms by (metis Suc_le_D Suc_le_mono less_eq_Suc_le)

lemma reads_back_wf: "json_wf v \<Longrightarrow> reads_back v"
proof (induction v)
  case JNull
  show ?case by (rule reads_backI) (simp add: skip_ws_def ws_char_def parse_literal_def digit_def)
next
  case (JBool b)
  show ?case by (rule reads_backI) (simp add: skip_ws_def ws_char_def parse_literal_def digit_def)
next
  case (JInt i)
  show ?case
  proof (rule reads_backI)
    fix m :: nat and r :: string
    assume r: "number_stop r"
    obtain c cs where c: "nat_text (nat i) = c # cs" by (cases "nat_text (nat i)") auto
    with nat_text_digits [of "nat i"] have d: "digit c" by simp
    then have "\<not> ws_char c" and "c \<noteq> CHR 0x22" and "c \<noteq> CHR ''[''" and "c \<noteq> CHR ''{''"
      by (auto simp: ws_char_def digit_def)
    then show "parse_value (Suc m) (json_text (JInt i) @ r) = Some (JInt i, r)"
      using parse_number_nat [OF r, of "nat i"] parse_number_nat [OF r, of "nat (- i)"] c d
      by (auto simp: int_text_def skip_ws_def ws_char_def)
  qed
next
  case (JStr s)
  show ?case by (rule reads_backI) (simp add: parse_string_text del: parse_value.simps)
next
  case (JArr vs)
  show ?case
  proof (rule reads_backI)
    fix m :: nat and r :: string
    assume n: "2 * length (json_text (JArr vs)) \<le> m"
    show "parse_value (Suc m) (json_text (JArr vs) @ r) = Some (JArr vs, r)"
    proof (cases "vs = []")
      case True
      then show ?thesis by (simp add: skip_ws_def ws_char_def)
    next
      case False
      have "\<forall>v \<in> set vs. reads_back v \<and> json_wf v" using JArr by simp
      with False n have "parse_elems m (commas (map json_text vs) @ CHR '']'' # r) = Some (vs, r)"
        by (intro parse_elems_text) simp_all
      moreover have "strip_prefix '']'' (skip_ws (commas (map json_text vs) @ CHR '']'' # r)) = None"
        using False JArr.prems json_text_head [of "hd vs"]
        by (cases vs; cases "tl vs") (auto simp: skip_ws_def)
      ultimately show ?thesis by (simp add: skip_ws_def ws_char_def)
    qed
  qed
next
  case (JObj ms)
  have ne: "filter (\<lambda>(k, v). v \<noteq> JUndefined) ms = ms"
    using JObj.prems by (fastforce simp: filter_id_conv)
  have printed: "json_text (JObj ms) = ''{'' @ commas (map member_text ms) @ ''}''"
    unfolding json_text.simps ne by (simp add: case_prod_unfold)
  show ?case
  proof (rule reads_backI)
    fix m :: nat and r :: string
    assume n: "2 * length (json_text (JObj ms)) \<le> m"
    show "parse_value (Suc m) (json_text (JObj ms) @ r) = Some (JObj ms, r)"
    proof (cases "ms = []")
      case True
      then show ?thesis by (simp add: skip_ws_def ws_char_def)
    next
      case False
      have "\<forall>e \<in> set ms. reads_back (snd e) \<and> json_wf (snd e)"
        using JObj by (fastforce intro: JObj.IH simp: snds.simps)
      with False n printed have "parse_members m (commas (map member_text ms) @ CHR ''}'' # r) = Some (ms, r)"
        by (intro parse_members_text) simp_all
      moreover have "strip_prefix ''}'' (skip_ws (commas (map member_text ms) @ CHR ''}'' # r)) = None"
        using False by (cases ms; cases "tl ms") (auto simp: skip_ws_def string_text_def ws_char_def)
      ultimately show ?thesis
        using printed JObj.prems by (simp add: skip_ws_def ws_char_def object_of_jwf del: json_text.simps)
    qed
  qed
qed simp_all

text \<open>\<open>JSON.parse(JSON.stringify(v))\<close> is \<open>v\<close>.\<close>

lemma json_roundtrip:
  assumes "json_wf v"
  shows "json_parse (json_text v) = Some v"
proof -
  have "parse_value (2 * length (json_text v) + 2) (json_text v @ []) = Some (v, [])"
    using reads_back_wf [OF assms] unfolding reads_back_def
    by (elim allE [where x = "2 * length (json_text v) + 2"] allE [where x = "[]"]) simp
  then show ?thesis by (simp add: json_parse_def skip_ws_def)
qed

lemma json_text_inject: "json_wf v \<Longrightarrow> json_wf w \<Longrightarrow> json_text v = json_text w \<Longrightarrow> v = w"
  by (metis json_roundtrip option.inject)

end
