(* ===== verification/Account_Ledger.thy ===== *)
theory Account_Ledger
  imports Json Complex_Main
begin

text \<open>
  The account upload ledger, \<open>src/account-upload-budget.mjs\<close>: the durable state, the
  closure's own state, and one definition per inner function and per operation.

  A function of the source that can throw and that reads the clocks is an
  \<open>'a act\<close>: it takes the closure state \<open>world\<close> and returns the value or the error
  together with the closure state.  As in the code, what an operation wrote to the closure
  (the highest wall reading, the expiry table, the consumed clock readings and
  random bytes) stays written when the operation throws; only the ledger is a copy.

  Records stand for values whose shape the type system already fixes, so the
  checks of \<open>validate\<close> on member types and member counts, and on the constant
  \<open>v\<close>, are not repeated.  Wall times and byte counts are \<^typ>\<open>int\<close>;
  \<open>performance.now()\<close> readings are \<^typ>\<open>rat\<close>, without the rounding of doubles.
  \<open>crypto\<close> is a parameter: \<open>hmac\<close> of a key and a text, and the readings of \<open>randomBytes\<close>.
\<close>

subsection \<open>State\<close>

record account =
  a_id :: string
  a_limit :: int
  a_spent :: int
  a_revision :: int
  a_generation :: int

text \<open>A row of \<open>accounts\<close>: an account, or \<open>{ id, aliasTo }\<close> left behind by a link.\<close>

datatype account_row = Live account | AliasTo string string

fun row_id :: "account_row \<Rightarrow> string" where
  "row_id (Live a) = a_id a"
| "row_id (AliasTo i t) = i"

record identity_row =
  i_id :: string
  i_method :: string
  i_account :: string

record grant_row =
  g_token :: string
  g_account :: string
  g_page :: string
  g_methods :: "string list"
  g_website :: "string option"
  g_epoch :: int
  g_expires :: int
  g_delegation :: int
  g_revoked :: bool
  g_renewal :: "(string \<times> string) option"

record operation_row =
  o_grant :: string
  o_id :: string
  o_bytes :: int
  o_accepted :: bool

record ledger =
  l_secret :: string
  l_last_wall :: int
  l_accounts :: "account_row list"
  l_identities :: "identity_row list"
  l_grants :: "grant_row list"
  l_operations :: "operation_row list"

record expiry =
  e_grant :: rat
  e_delegation :: rat

record config =
  default_limit :: int
  grant_ttl :: int
  delegation_ttl :: int
  account_capacity :: nat
  identity_capacity :: nat
  grant_capacity :: nat
  operation_capacity :: nat
  mutation_capacity :: nat
  hmac :: "string \<Rightarrow> string \<Rightarrow> string"

text \<open>
  The closure: the readings that \<open>now()\<close>, \<open>monotonicNow()\<close> and \<open>randomBytes(n)\<close> will
  give, how many of each were taken, \<open>highestWall\<close> and \<open>expiries\<close>.
\<close>

record world =
  wall_at :: "nat \<Rightarrow> int"
  mono_at :: "nat \<Rightarrow> rat"
  random_at :: "nat \<Rightarrow> nat \<Rightarrow> string"
  wall_reads :: nat
  mono_reads :: nat
  random_reads :: nat
  highest_wall :: int
  expiries :: "(string \<times> expiry) list"

subsection \<open>Errors and effects\<close>

text \<open>\<open>AccountBudgetError(code, status)\<close>, or the \<open>TypeError\<close> of reading a member of \<open>undefined\<close>.\<close>

datatype budget_error = AccountBudgetError string nat | TypeError

type_synonym 'a act = "world \<Rightarrow> (budget_error + 'a) \<times> world"

definition ret :: "'a \<Rightarrow> 'a act" where
  "ret x w = (Inr x, w)"

definition throw :: "budget_error \<Rightarrow> 'a act" where
  "throw e w = (Inl e, w)"

definition bnd :: "'a act \<Rightarrow> ('a \<Rightarrow> 'b act) \<Rightarrow> 'b act" where
  "bnd m f w = (case m w of (Inl e, w') \<Rightarrow> (Inl e, w') | (Inr x, w') \<Rightarrow> f x w')"

definition lift :: "budget_error + 'a \<Rightarrow> 'a act" where
  "lift r w = (r, w)"

definition refuse :: "string \<Rightarrow> nat \<Rightarrow> 'a act" where
  "refuse code status = throw (AccountBudgetError code status)"

definition refuse_if :: "bool \<Rightarrow> string \<Rightarrow> nat \<Rightarrow> unit act" where
  "refuse_if b code status = (if b then refuse code status else ret ())"

definition state_invalid :: budget_error where
  "state_invalid = AccountBudgetError ''account-state-invalid'' 503"

text \<open>\<open>xs.map(f)\<close> and \<open>xs.filter(p)\<close> for a callback with effects, left to right.\<close>

fun map_act :: "('a \<Rightarrow> 'b act) \<Rightarrow> 'a list \<Rightarrow> 'b list act" where
  "map_act f [] = ret []"
| "map_act f (x # xs) = bnd (f x) (\<lambda>y. bnd (map_act f xs) (\<lambda>ys. ret (y # ys)))"

fun filter_act :: "('a \<Rightarrow> bool act) \<Rightarrow> 'a list \<Rightarrow> 'a list act" where
  "filter_act p [] = ret []"
| "filter_act p (x # xs) =
     bnd (p x) (\<lambda>b. bnd (filter_act p xs) (\<lambda>ys. ret (if b then x # ys else ys)))"

subsection \<open>Clocks and randomness\<close>

definition time :: "int act" where
  "time w =
     (let tm = wall_at w (wall_reads w);
          w1 = w\<lparr>wall_reads := Suc (wall_reads w)\<rparr>
      in if \<not> safe_int tm \<or> tm < highest_wall w
         then (Inl (AccountBudgetError ''account-clock-unavailable'' 503), w1)
         else (Inr tm, w1\<lparr>highest_wall := tm\<rparr>))"

definition monotonic_now :: "rat act" where
  "monotonic_now w = (Inr (mono_at w (mono_reads w)), w\<lparr>mono_reads := Suc (mono_reads w)\<rparr>)"

definition random_hex :: "nat \<Rightarrow> string act" where
  "random_hex n w = (Inr (random_at w (random_reads w) n), w\<lparr>random_reads := Suc (random_reads w)\<rparr>)"

definition set_expiry :: "string \<Rightarrow> expiry \<Rightarrow> unit act" where
  "set_expiry token e w = (Inr (), w\<lparr>expiries := jset token e (expiries w)\<rparr>)"

definition get_expiry :: "string \<Rightarrow> expiry option act" where
  "get_expiry token w = (Inr (jget (expiries w) token), w)"

definition keep_expiries :: "string list \<Rightarrow> unit act" where
  "keep_expiries live w = (Inr (), w\<lparr>expiries := filter (\<lambda>e. fst e \<in> set live) (expiries w)\<rparr>)"

subsection \<open>Value checks\<close>

definition hex :: "string \<Rightarrow> nat \<Rightarrow> bool" where
  "hex value len = hex_string value len"

definition amount :: "int \<Rightarrow> bool" where
  "amount value \<longleftrightarrow> safe_int value \<and> value \<ge> 0 \<and> value \<le> 1000000000000"

definition methods_valid :: "string list \<Rightarrow> bool" where
  "methods_valid value \<longleftrightarrow>
     value = [''nostr''] \<or> value = [''website''] \<or> value = [''nostr'', ''website'']"

definition method_known :: "string \<Rightarrow> bool" where
  "method_known m \<longleftrightarrow> m = ''nostr'' \<or> m = ''website''"

text \<open>The construction check of \<open>createAccountUploadBudget\<close>, without the state path.\<close>

definition options_valid :: "config \<Rightarrow> bool" where
  "options_valid c \<longleftrightarrow> amount (default_limit c)
     \<and> safe_int (grant_ttl c) \<and> 30 \<le> grant_ttl c \<and> grant_ttl c \<le> 300
     \<and> safe_int (delegation_ttl c) \<and> grant_ttl c \<le> delegation_ttl c \<and> delegation_ttl c \<le> 86400
     \<and> (\<forall>n \<in> set [account_capacity c, identity_capacity c, grant_capacity c,
                    operation_capacity c, mutation_capacity c]. safe_int (int n) \<and> 1 \<le> n)
     \<and> account_capacity c \<le> 4096 \<and> identity_capacity c \<le> 8192 \<and> grant_capacity c \<le> 8192
     \<and> operation_capacity c \<le> 32768 \<and> mutation_capacity c \<le> 256"

subsection \<open>Alias resolution\<close>

definition find_row :: "account_row list \<Rightarrow> string \<Rightarrow> account_row option" where
  "find_row rows i = find (\<lambda>r. row_id r = i) rows"

text \<open>\<open>accountLookup\<close>: an index that keeps the first entry of each id.\<close>

definition account_index :: "account_row list \<Rightarrow> (string \<times> account_row) list" where
  "account_index rows =
     foldl (\<lambda>ix r. if jhas ix (row_id r) then ix else jset (row_id r) r ix) [] rows"

definition account_lookup :: "account_row list \<Rightarrow> string \<Rightarrow> account_row option" where
  "account_lookup rows i = jget (account_index rows) i"

lemma find_row_SomeD: "find_row rows i = Some r \<Longrightarrow> r \<in> set rows \<and> row_id r = i"
  unfolding find_row_def by (induction rows) (auto split: if_splits)

text \<open>The loop of \<open>canonical\<close>, with the set of visited ids; the walk ends at an account.\<close>

function canonical_from :: "account_row list \<Rightarrow> string list \<Rightarrow> string \<Rightarrow> budget_error + account" where
  "canonical_from rows visited i =
     (if i \<in> set visited then Inl state_invalid
      else (case find_row rows i of
              None \<Rightarrow> Inl state_invalid
            | Some (Live a) \<Rightarrow> Inr a
            | Some (AliasTo i' t) \<Rightarrow> canonical_from rows (i # visited) t))"
  by pat_completeness auto

termination
proof (relation "measure (\<lambda>(rows, visited, i). length (filter (\<lambda>r. row_id r \<notin> set visited) rows))")
  fix rows visited i r i' t
  assume new: "i \<notin> set visited" and "find_row rows i = Some r"
  then have r: "r \<in> set rows" "row_id r = i" by (auto dest: find_row_SomeD)
  then have "length (filter (\<lambda>r. row_id r \<notin> set (i # visited)) rows)
      < length (filter (\<lambda>r. row_id r \<notin> set visited) rows)"
    using new by (intro length_filter_strict [of _ _ _ r]) simp_all
  then show "((rows, i # visited, t), rows, visited, i)
      \<in> measure (\<lambda>(rows, visited, i). length (filter (\<lambda>r. row_id r \<notin> set visited) rows))"
    by simp
qed simp

declare canonical_from.simps [simp del]

definition canonical :: "ledger \<Rightarrow> string \<Rightarrow> budget_error + account" where
  "canonical data i = canonical_from (l_accounts data) [] i"

text \<open>Whether a resolved account is \<open>a\<close>; an id that does not resolve refuses.\<close>

definition resolves_to :: "ledger \<Rightarrow> account \<Rightarrow> string \<Rightarrow> budget_error + bool" where
  "resolves_to data a i = (case canonical data i of Inl e \<Rightarrow> Inl e | Inr b \<Rightarrow> Inr (a_id b = a_id a))"

subsection \<open>\<open>validate\<close>\<close>

definition account_row_valid :: "account_row list \<Rightarrow> account_row \<Rightarrow> bool" where
  "account_row_valid rows r \<longleftrightarrow> hex (row_id r) 32
     \<and> (case r of
          AliasTo i t \<Rightarrow> hex t 32
        | Live a \<Rightarrow> amount (a_limit a) \<and> safe_int (a_spent a) \<and> 0 \<le> a_spent a
            \<and> safe_int (a_revision a) \<and> 1 \<le> a_revision a
            \<and> safe_int (a_generation a) \<and> 1 \<le> a_generation a)
     \<and> \<not> isl (canonical_from rows [] (row_id r))"

definition identity_row_valid :: "account_row list \<Rightarrow> identity_row \<Rightarrow> bool" where
  "identity_row_valid rows i \<longleftrightarrow>
     hex (i_id i) 64 \<and> method_known (i_method i) \<and> account_lookup rows (i_account i) \<noteq> None"

definition grant_row_valid :: "account_row list \<Rightarrow> grant_row \<Rightarrow> bool" where
  "grant_row_valid rows g \<longleftrightarrow> hex (g_token g) 64 \<and> hex (g_page g) 64 \<and> methods_valid (g_methods g)
     \<and> account_lookup rows (g_account g) \<noteq> None
     \<and> safe_int (g_epoch g) \<and> safe_int (g_expires g) \<and> safe_int (g_delegation g)
     \<and> g_expires g \<le> g_delegation g
     \<and> (case g_website g of None \<Rightarrow> True | Some w \<Rightarrow> hex w 64)
     \<and> (case g_renewal g of None \<Rightarrow> True | Some (oid, t) \<Rightarrow> hex oid 32 \<and> hex t 64)"

definition operation_key :: "operation_row \<Rightarrow> string" where
  "operation_key o1 = o_grant o1 @ '':'' @ o_id o1"

definition operation_row_valid :: "string list \<Rightarrow> operation_row \<Rightarrow> bool" where
  "operation_row_valid tokens o1 \<longleftrightarrow>
     o_grant o1 \<in> set tokens \<and> hex (o_id o1) 32 \<and> amount (o_bytes o1) \<and> 1 \<le> o_bytes o1"

text \<open>All that \<open>validate\<close> checks after the clock; every failure is \<open>account-state-invalid\<close>.\<close>

definition ledger_valid :: "config \<Rightarrow> ledger \<Rightarrow> bool" where
  "ledger_valid c data \<longleftrightarrow>
     length (l_accounts data) \<le> account_capacity c \<and> length (l_identities data) \<le> identity_capacity c
     \<and> length (l_grants data) \<le> grant_capacity c \<and> length (l_operations data) \<le> operation_capacity c
     \<and> distinct (map row_id (l_accounts data)) \<and> distinct (map i_id (l_identities data))
     \<and> distinct (map g_token (l_grants data))
     \<and> (\<forall>r \<in> set (l_accounts data). account_row_valid (l_accounts data) r)
     \<and> (\<forall>i \<in> set (l_identities data). identity_row_valid (l_accounts data) i)
     \<and> (\<forall>g \<in> set (l_grants data). grant_row_valid (l_accounts data) g)
     \<and> distinct (map operation_key (l_operations data))
     \<and> (\<forall>o1 \<in> set (l_operations data). operation_row_valid (map g_token (l_grants data)) o1)"

definition header_valid :: "ledger \<Rightarrow> bool" where
  "header_valid data \<longleftrightarrow> hex (l_secret data) 64 \<and> safe_int (l_last_wall data) \<and> 0 \<le> l_last_wall data"

definition validate :: "config \<Rightarrow> ledger \<Rightarrow> unit act" where
  "validate c data =
     (if \<not> header_valid data then throw state_invalid
      else bnd time (\<lambda>tm.
        if tm < l_last_wall data \<or> \<not> ledger_valid c data then throw state_invalid else ret ()))"

subsection \<open>Identities, pruning, snapshots\<close>

record identity =
  id_method :: string
  id_issuer :: string
  id_subject :: string

definition identity_id :: "config \<Rightarrow> ledger \<Rightarrow> identity \<Rightarrow> budget_error + string" where
  "identity_id c data v =
     (if \<not> method_known (id_method v)
         \<or> id_issuer v = [] \<or> length (id_issuer v) > 128
         \<or> id_subject v = [] \<or> utf8_length (id_subject v) > 512
      then Inl (AccountBudgetError ''account-identity-unavailable'' 403)
      else Inr (hmac c (l_secret data)
        (json_text (JArr [JInt 1, JStr (id_method v), JStr (id_issuer v), JStr (id_subject v)]))))"

definition prune :: "ledger \<Rightarrow> ledger act" where
  "prune data =
     bnd (filter_act (\<lambda>g. bnd time (\<lambda>tm. ret (g_expires g + 30000 > tm))) (l_grants data)) (\<lambda>grants.
       (let live = map g_token grants;
            operations = filter (\<lambda>o1. o_grant o1 \<in> set live) (l_operations data)
        in bnd (keep_expiries live) (\<lambda>_.
             ret (data\<lparr>l_grants := grants, l_operations := operations\<rparr>))))"

record snapshot_view =
  s_limit :: int
  s_spent :: int
  s_remaining :: int
  s_revision :: int
  s_generation :: int
  s_methods :: "string list"

definition remaining :: "account \<Rightarrow> int" where
  "remaining a = max 0 (a_limit a - a_spent a)"

fun linked_methods :: "ledger \<Rightarrow> account \<Rightarrow> identity_row list \<Rightarrow> budget_error + string list" where
  "linked_methods data a [] = Inr []"
| "linked_methods data a (i # is) =
     (case resolves_to data a (i_account i) of
        Inl e \<Rightarrow> Inl e
      | Inr b \<Rightarrow>
          (case linked_methods data a is of
             Inl e \<Rightarrow> Inl e
           | Inr ms \<Rightarrow> Inr (if b then i_method i # ms else ms)))"

definition snapshot :: "ledger \<Rightarrow> account \<Rightarrow> budget_error + snapshot_view" where
  "snapshot data a =
     (case linked_methods data a (l_identities data) of
        Inl e \<Rightarrow> Inl e
      | Inr ms \<Rightarrow> Inr \<lparr>s_limit = a_limit a, s_spent = a_spent a, s_remaining = remaining a,
          s_revision = a_revision a, s_generation = a_generation a, s_methods = sort (juniq ms)\<rparr>)"

subsection \<open>Grants\<close>

definition find_grant :: "ledger \<Rightarrow> string \<Rightarrow> grant_row option" where
  "find_grant data token = find (\<lambda>g. g_token g = token) (l_grants data)"

definition grant_unavailable :: budget_error where
  "grant_unavailable = AccountBudgetError ''account-grant-unavailable'' 403"

definition grant :: "ledger \<Rightarrow> string \<Rightarrow> (grant_row \<times> account) act" where
  "grant data token =
     bnd (get_expiry token) (\<lambda>expiry. bnd monotonic_now (\<lambda>mono.
       (case find_grant data token of
          None \<Rightarrow> throw grant_unavailable
        | Some value \<Rightarrow>
            if g_revoked value then throw grant_unavailable
            else bnd time (\<lambda>t1. if g_expires value \<le> t1 then throw grant_unavailable
            else bnd time (\<lambda>t2. if g_delegation value \<le> t2 then throw grant_unavailable
            else (case expiry of
               None \<Rightarrow> throw grant_unavailable
             | Some e \<Rightarrow>
                 if mono \<ge> e_grant e \<or> mono \<ge> e_delegation e then throw grant_unavailable
                 else bnd (lift (canonical data (g_account value))) (\<lambda>a.
                   if a_revision a \<noteq> g_epoch value then throw grant_unavailable
                   else ret (value, a))))))))"

record grant_view =
  gv_grant :: string
  gv_expires :: int
  gv_delegation :: int
  gv_epoch :: int
  gv_fresh_consent :: bool
  gv_snapshot :: snapshot_view

definition grant_response :: "ledger \<Rightarrow> grant_row \<Rightarrow> bool \<Rightarrow> budget_error + grant_view" where
  "grant_response data value fresh =
     (case canonical data (g_account value) of
        Inl e \<Rightarrow> Inl e
      | Inr a \<Rightarrow>
          (case snapshot data a of
             Inl e \<Rightarrow> Inl e
           | Inr sn \<Rightarrow> Inr \<lparr>gv_grant = g_token value, gv_expires = g_expires value,
               gv_delegation = g_delegation value, gv_epoch = g_epoch value,
               gv_fresh_consent = fresh, gv_snapshot = sn\<rparr>))"

text \<open>
  \<open>issue\<close>: the row and the ledger with the row pushed.  \<open>prior\<close> is the token of the
  grant being renewed, whose monotonic delegation deadline is carried over.
\<close>

definition issue :: "config \<Rightarrow> ledger \<Rightarrow> account \<Rightarrow> string \<Rightarrow> string list \<Rightarrow> int \<Rightarrow> string option
    \<Rightarrow> string option \<Rightarrow> (grant_row \<times> ledger) act" where
  "issue c data a page methods delegation website prior =
     bnd (refuse_if (length (l_grants data) \<ge> grant_capacity c) ''account-grant-capacity'' 429) (\<lambda>_.
     bnd (random_hex 32) (\<lambda>token.
     bnd time (\<lambda>tm.
       (let value = \<lparr>g_token = token, g_account = a_id a, g_page = page, g_methods = methods,
              g_website = website, g_epoch = a_revision a,
              g_expires = min (tm + grant_ttl c * 1000) delegation, g_delegation = delegation,
              g_revoked = False, g_renewal = None\<rparr>
        in bnd monotonic_now (\<lambda>mono.
           bnd time (\<lambda>at2.
           bnd (case prior of
                  None \<Rightarrow> bnd time (\<lambda>at3. ret (mono + of_int (max 0 (delegation - at3))))
                | Some p \<Rightarrow> bnd (get_expiry p) (\<lambda>e. case e of
                    None \<Rightarrow> throw TypeError | Some e' \<Rightarrow> ret (e_delegation e'))) (\<lambda>del.
           bnd (set_expiry token \<lparr>e_grant = mono + of_int (max 0 (g_expires value - at2)),
                                  e_delegation = del\<rparr>) (\<lambda>_.
           ret (value, data\<lparr>l_grants := l_grants data @ [value]\<rparr>)))))))))"

end
