(* ===== verification/Account_Operations.thy ===== *)
theory Account_Operations
  imports Account_Ledger
begin

text \<open>
  The operations of the account ledger (the object \<open>createAccountUploadBudget\<close> returns)
  and the transaction loop that runs them, \<open>src/account-upload-budget.mjs\<close>.
\<close>

subsection \<open>\<open>authorize\<close>\<close>

record authorisation =
  au_page :: string
  au_methods :: "string list"
  au_delegation :: int
  au_expires :: int
  au_settings :: "(int \<times> bool) option"
  au_link :: bool

definition put_account :: "account \<Rightarrow> ledger \<Rightarrow> ledger" where
  "put_account a data =
     data\<lparr>l_accounts := update_first (\<lambda>r. row_id r = a_id a) (\<lambda>_. Live a) (l_accounts data)\<rparr>"

definition put_alias :: "string \<Rightarrow> string \<Rightarrow> ledger \<Rightarrow> ledger" where
  "put_alias i t data =
     data\<lparr>l_accounts := update_first (\<lambda>r. row_id r = i) (\<lambda>_. AliasTo i t) (l_accounts data)\<rparr>"

text \<open>The identity's record, with a new account when it has none.\<close>

definition record_for :: "config \<Rightarrow> ledger \<Rightarrow> identity \<Rightarrow> (identity_row \<times> ledger) act" where
  "record_for c data v =
     bnd (lift (identity_id c data v)) (\<lambda>iid.
       (case find (\<lambda>r. i_id r = iid) (l_identities data) of
          Some r \<Rightarrow> ret (r, data)
        | None \<Rightarrow>
            bnd (refuse_if (length (l_identities data) \<ge> identity_capacity c
                            \<or> length (l_accounts data) \<ge> account_capacity c) ''account-capacity'' 429) (\<lambda>_.
            bnd (random_hex 16) (\<lambda>aid.
              (let a = \<lparr>a_id = aid, a_limit = default_limit c, a_spent = 0, a_revision = 1, a_generation = 1\<rparr>;
                   r = \<lparr>i_id = iid, i_method = id_method v, i_account = aid\<rparr>
               in ret (r, data\<lparr>l_accounts := l_accounts data @ [Live a],
                               l_identities := l_identities data @ [r]\<rparr>))))))"

fun records_for :: "config \<Rightarrow> ledger \<Rightarrow> identity list \<Rightarrow> (identity_row list \<times> ledger) act" where
  "records_for c data [] = ret ([], data)"
| "records_for c data (v # vs) =
     bnd (record_for c data v) (\<lambda>(r, data1).
     bnd (records_for c data1 vs) (\<lambda>(rs, data2). ret (r # rs, data2)))"

text \<open>The link of two identities: one account takes the other's spending, the other becomes an alias.\<close>

definition merge_accounts :: "account \<Rightarrow> account \<Rightarrow> account" where
  "merge_accounts a other =
     a\<lparr>a_spent := a_spent a + a_spent other, a_limit := min (a_limit a) (a_limit other),
       a_revision := max (a_revision a) (a_revision other) + 1,
       a_generation := max (a_generation a) (a_generation other) + 1\<rparr>"

definition link_accounts :: "ledger \<Rightarrow> account \<Rightarrow> identity_row \<Rightarrow> budget_error + account \<times> ledger" where
  "link_accounts data a r =
     (case canonical data (i_account r) of
        Inl e \<Rightarrow> Inl e
      | Inr other \<Rightarrow>
          if a_id other \<noteq> a_id a then
            (if \<not> safe_int (a_spent a + a_spent other)
             then Inl (AccountBudgetError ''account-spend-overflow'' 409)
             else (let a1 = merge_accounts a other
                   in Inr (a1, put_alias (a_id other) (a_id a) (put_account a1 data))))
          else (let a1 = a\<lparr>a_revision := a_revision a + 1\<rparr> in Inr (a1, put_account a1 data)))"

definition apply_settings :: "(int \<times> bool) option \<Rightarrow> account \<Rightarrow> account" where
  "apply_settings settings a =
     (case settings of
        None \<Rightarrow> a
      | Some (limit, reset) \<Rightarrow>
          (let a1 = a\<lparr>a_limit := limit\<rparr>;
               a2 = (if reset then a1\<lparr>a_spent := 0, a_generation := a_generation a1 + 1\<rparr> else a1)
           in a2\<lparr>a_revision := a_revision a2 + 1\<rparr>))"

text \<open>\<open>for (const g of data.grants) if (p(g)) g.revoked = true\<close>\<close>

fun revoke_rows :: "(grant_row \<Rightarrow> budget_error + bool) \<Rightarrow> grant_row list \<Rightarrow> budget_error + grant_row list" where
  "revoke_rows p [] = Inr []"
| "revoke_rows p (g # gs) =
     (case p g of
        Inl e \<Rightarrow> Inl e
      | Inr b \<Rightarrow>
          (case revoke_rows p gs of
             Inl e \<Rightarrow> Inl e
           | Inr gs' \<Rightarrow> Inr ((if b then g\<lparr>g_revoked := True\<rparr> else g) # gs')))"

definition revoke_grants_of :: "ledger \<Rightarrow> account \<Rightarrow> budget_error + ledger" where
  "revoke_grants_of data a =
     (case revoke_rows (\<lambda>g. resolves_to data a (g_account g)) (l_grants data) of
        Inl e \<Rightarrow> Inl e
      | Inr gs \<Rightarrow> Inr (data\<lparr>l_grants := gs\<rparr>))"

definition authorisation_invalid :: budget_error where
  "authorisation_invalid = AccountBudgetError ''account-authorisation-invalid'' 400"

text \<open>The first check of \<open>authorize\<close>, with the clock read where the code reads it.\<close>

definition check_authorisation :: "config \<Rightarrow> identity list \<Rightarrow> authorisation \<Rightarrow> unit act" where
  "check_authorisation c identities q =
     (if \<not> hex (au_page q) 64 \<or> \<not> methods_valid (au_methods q)
         \<or> map id_method identities \<noteq> au_methods q \<or> \<not> safe_int (au_delegation q)
      then throw authorisation_invalid
      else bnd time (\<lambda>t1. if au_delegation q \<le> t1 then throw authorisation_invalid
      else bnd time (\<lambda>t2.
        if au_delegation q > t2 + delegation_ttl c * 1000 \<or> \<not> safe_int (au_expires q)
        then throw authorisation_invalid
      else bnd time (\<lambda>t3.
        if au_expires q \<le> t3 \<or> au_link q \<noteq> (length identities = 2)
           \<or> (case au_settings q of None \<Rightarrow> False | Some (limit, reset) \<Rightarrow> \<not> amount limit)
        then throw authorisation_invalid else ret ()))))"

text \<open>The settings of the account, and the revocation that a link or new settings bring.\<close>

definition settle_account :: "authorisation \<Rightarrow> account \<Rightarrow> ledger \<Rightarrow> budget_error + account \<times> ledger" where
  "settle_account q a data =
     (let a1 = apply_settings (au_settings q) a; data1 = put_account a1 data
      in if au_link q \<or> au_settings q \<noteq> None
         then map_sum (\<lambda>e. e) (Pair a1) (revoke_grants_of data1 a1) else Inr (a1, data1))"

definition authorize :: "config \<Rightarrow> identity list \<Rightarrow> authorisation \<Rightarrow> ledger \<Rightarrow> (grant_view \<times> ledger) act" where
  "authorize c identities q data =
     bnd (check_authorisation c identities q) (\<lambda>_.
     bnd (records_for c data identities) (\<lambda>(records, data1).
     bnd (lift (canonical data1 (i_account (hd records)))) (\<lambda>a.
     bnd (lift (if au_link q then link_accounts data1 a (records ! 1) else Inr (a, data1))) (\<lambda>(a1, data2).
     bnd (lift (settle_account q a1 data2)) (\<lambda>(a2, data3).
     bnd (issue c data3 a2 (au_page q) (au_methods q) (au_delegation q)
            (map_option i_id (find (\<lambda>r. i_method r = ''website'') records)) None) (\<lambda>(issued, data4).
     bnd (lift (grant_response data4 issued True)) (\<lambda>view. ret (view, data4))))))))"

subsection \<open>\<open>inspectGrant\<close>, \<open>reserve\<close>, \<open>renew\<close>, \<open>revokeGrant\<close>\<close>

record grant_inspection =
  gi_page :: string
  gi_methods :: "string list"
  gi_website :: "string option"
  gi_expires :: int
  gi_delegation :: int
  gi_epoch :: int
  gi_snapshot :: snapshot_view

definition inspect_grant :: "string \<Rightarrow> ledger \<Rightarrow> (grant_inspection \<times> ledger) act" where
  "inspect_grant token data =
     bnd (grant data token) (\<lambda>(value, a).
     bnd (lift (snapshot data a)) (\<lambda>sn.
     ret (\<lparr>gi_page = g_page value, gi_methods = g_methods value, gi_website = g_website value,
           gi_expires = g_expires value, gi_delegation = g_delegation value,
           gi_epoch = g_epoch value, gi_snapshot = sn\<rparr>, data)))"

record reservation =
  rv_accepted :: bool
  rv_duplicate :: bool
  rv_reserved :: int
  rv_exhausted :: bool
  rv_snapshot :: snapshot_view

definition find_operation :: "ledger \<Rightarrow> string \<Rightarrow> string \<Rightarrow> operation_row option" where
  "find_operation data token oid = find (\<lambda>o1. o_grant o1 = token \<and> o_id o1 = oid) (l_operations data)"

definition reserve :: "config \<Rightarrow> string \<Rightarrow> string \<Rightarrow> int \<Rightarrow> ledger \<Rightarrow> (reservation \<times> ledger) act" where
  "reserve c token oid bytes data =
     bnd (grant data token) (\<lambda>(value, a).
     bnd (refuse_if (\<not> hex oid 32 \<or> \<not> amount bytes \<or> bytes < 1) ''account-reservation-invalid'' 400) (\<lambda>_.
       (let previous = find_operation data token oid
        in bnd (refuse_if (case previous of None \<Rightarrow> False | Some p \<Rightarrow> o_bytes p \<noteq> bytes)
                 ''account-operation-conflict'' 409) (\<lambda>_.
           bnd (refuse_if (previous = None \<and> length (l_operations data) \<ge> operation_capacity c)
                 ''account-operation-capacity'' 429) (\<lambda>_.
             (let decision = (case previous of
                    Some p \<Rightarrow> p
                  | None \<Rightarrow> \<lparr>o_grant = token, o_id = oid, o_bytes = bytes, o_accepted = (bytes \<le> remaining a)\<rparr>);
                  a1 = (if previous = None \<and> o_accepted decision then a\<lparr>a_spent := a_spent a + bytes\<rparr> else a);
                  data1 = (if previous = None
                           then (put_account a1 data)\<lparr>l_operations := l_operations data @ [decision]\<rparr>
                           else data)
              in bnd (lift (snapshot data1 a1)) (\<lambda>sn.
                 ret (\<lparr>rv_accepted = o_accepted decision, rv_duplicate = (previous \<noteq> None),
                       rv_reserved = (if o_accepted decision then bytes else 0),
                       rv_exhausted = (\<not> o_accepted decision), rv_snapshot = sn\<rparr>, data1))))))))"

definition set_renewal :: "string \<Rightarrow> string \<times> string \<Rightarrow> ledger \<Rightarrow> ledger" where
  "set_renewal token ren data =
     data\<lparr>l_grants := update_first (\<lambda>g. g_token g = token) (\<lambda>g. g\<lparr>g_renewal := Some ren\<rparr>) (l_grants data)\<rparr>"

definition renew :: "config \<Rightarrow> string \<Rightarrow> string \<Rightarrow> string option \<Rightarrow> ledger \<Rightarrow> (grant_view \<times> ledger) act" where
  "renew c token oid website data =
     bnd (grant data token) (\<lambda>(value, a).
     bnd (refuse_if (\<not> hex oid 32 \<or> g_website value \<noteq> website) ''account-renewal-invalid'' 403) (\<lambda>_.
       (case g_renewal value of
          Some (prior_oid, next_token) \<Rightarrow>
            bnd (refuse_if (prior_oid \<noteq> oid) ''account-renewal-conflict'' 409) (\<lambda>_.
            bnd (grant data next_token) (\<lambda>(next1, _).
            bnd (lift (grant_response data next1 False)) (\<lambda>view. ret (view, data))))
        | None \<Rightarrow>
            bnd (issue c data a (g_page value) (g_methods value) (g_delegation value)
                   (g_website value) (Some (g_token value))) (\<lambda>(next1, data1).
              (let data2 = set_renewal token (oid, g_token next1) data1
               in bnd (lift (grant_response data2 next1 False)) (\<lambda>view. ret (view, data2)))))))"

definition revoke_grant :: "string \<Rightarrow> ledger \<Rightarrow> (unit \<times> ledger) act" where
  "revoke_grant token data =
     bnd (grant data token) (\<lambda>(value, a).
     bnd (lift (revoke_rows (\<lambda>g. case resolves_to data a (g_account g) of
              Inl e \<Rightarrow> Inl e
            | Inr b \<Rightarrow> Inr (b \<and> g_page g = g_page value \<and> g_delegation g = g_delegation value))
            (l_grants data))) (\<lambda>gs.
     ret ((), data\<lparr>l_grants := gs\<rparr>)))"

end
