(* ===== verification/Account_Transactions.thy ===== *)
theory Account_Transactions
  imports Account_Operations
begin

text \<open>
  \<open>transact\<close>, \<open>drain\<close>, \<open>close\<close> and the opening of the ledger,
  \<open>src/account-upload-budget.mjs\<close>.  Operations run one at a time, in arrival order, each
  on its own copy of the ledger; the operations that queued while a write was in flight form a
  batch that shares the next durable write.  The steps of the loop are functions;
  \<open>budget_step\<close> lets submissions and cancellations arrive between any two of them, as
  the \<open>await\<close>s of \<open>drain\<close> do.
\<close>

datatype request =
    Authorize "identity list" authorisation
  | InspectGrant string
  | Reserve string string int
  | Renew string string "string option"
  | RevokeGrant string

datatype response =
    Granted grant_view
  | Inspected grant_inspection
  | Reserved reservation
  | Revoked

type_synonym outcome = "budget_error + response"

definition wrap :: "('a \<Rightarrow> response) \<Rightarrow> ('a \<times> ledger) act \<Rightarrow> (response \<times> ledger) act" where
  "wrap f m = bnd m (\<lambda>(x, data). ret (f x, data))"

fun operation :: "config \<Rightarrow> request \<Rightarrow> ledger \<Rightarrow> (response \<times> ledger) act" where
  "operation c (Authorize identities q) data = wrap Granted (authorize c identities q data)"
| "operation c (InspectGrant token) data = wrap Inspected (inspect_grant token data)"
| "operation c (Reserve token oid bytes) data = wrap Reserved (reserve c token oid bytes data)"
| "operation c (Renew token oid website) data = wrap Granted (renew c token oid website data)"
| "operation c (RevokeGrant token) data = wrap (\<lambda>_. Revoked) (revoke_grant token data)"

text \<open>The \<open>write\<close> option: only \<open>inspectGrant\<close> passes \<open>false\<close>.\<close>

fun writes_state :: "request \<Rightarrow> bool" where
  "writes_state (InspectGrant _) = False"
| "writes_state _ = True"

definition cancelled :: budget_error where
  "cancelled = AccountBudgetError ''account-operation-cancelled'' 503"

text \<open>One turn of the loop over the batch: the outcome and the next \<open>working\<close>.\<close>

definition apply_entry :: "config \<Rightarrow> bool \<Rightarrow> bool \<Rightarrow> request \<Rightarrow> ledger \<Rightarrow> (response \<times> ledger) act" where
  "apply_entry c broken aborted q working =
     (if broken \<or> aborted then throw cancelled
      else bnd time (\<lambda>tm.
        if tm < l_last_wall working then throw (AccountBudgetError ''account-clock-unavailable'' 503)
      else bnd (if writes_state q then prune working else ret working) (\<lambda>candidate.
           bnd (operation c q candidate) (\<lambda>(result, candidate1).
             if aborted then throw cancelled
             else if writes_state q then
               bnd time (\<lambda>at2.
                 (let candidate2 = candidate1\<lparr>l_last_wall := at2\<rparr>
                  in bnd (validate c candidate2) (\<lambda>_. ret (result, candidate2))))
             else ret (result, working)))))"

subsection \<open>The loop's state\<close>

record entry =
  en_id :: nat
  en_request :: request

record batch =
  b_entries :: "entry list"
  b_working :: ledger
  b_writes :: bool
  b_held :: "(nat \<times> outcome) list"

record budget =
  bu_state :: ledger
  bu_world :: world
  bu_broken :: bool
  bu_stopping :: bool
  bu_pending :: nat
  bu_waiting :: "entry list"
  bu_batch :: "batch option"
  bu_aborted :: "nat list"
  bu_settled :: "(nat \<times> outcome) list"

text \<open>Settling a queued promise also runs its \<open>finally\<close>, which lowers \<open>pending\<close>.\<close>

definition settle :: "(nat \<times> outcome) list \<Rightarrow> budget \<Rightarrow> budget" where
  "settle os s = s\<lparr>bu_settled := bu_settled s @ os, bu_pending := bu_pending s - length os\<rparr>"

definition transact :: "config \<Rightarrow> entry \<Rightarrow> budget \<Rightarrow> budget" where
  "transact c e s =
     (if bu_stopping s \<or> bu_broken s then
        s\<lparr>bu_settled := bu_settled s @ [(en_id e, Inl (AccountBudgetError ''account-budget-unavailable'' 503))]\<rparr>
      else if bu_pending s \<ge> mutation_capacity c then
        s\<lparr>bu_settled := bu_settled s @ [(en_id e, Inl (AccountBudgetError ''account-budget-queue-capacity'' 503))]\<rparr>
      else s\<lparr>bu_pending := bu_pending s + 1, bu_waiting := bu_waiting s @ [e]\<rparr>)"

text \<open>\<open>const batch = waiting.splice(0)\<close>\<close>

definition begin_batch :: "budget \<Rightarrow> budget" where
  "begin_batch s =
     s\<lparr>bu_waiting := [],
       bu_batch := Some \<lparr>b_entries = bu_waiting s, b_working = bu_state s, b_writes = False, b_held = []\<rparr>\<rparr>"

definition apply_next :: "config \<Rightarrow> entry \<Rightarrow> entry list \<Rightarrow> batch \<Rightarrow> budget \<Rightarrow> budget" where
  "apply_next c e es b s =
     (case apply_entry c (bu_broken s) (en_id e \<in> set (bu_aborted s)) (en_request e) (b_working b) (bu_world s) of
        (Inl err, w) \<Rightarrow>
          (let s1 = s\<lparr>bu_world := w\<rparr>
           in if b_writes b
              then s1\<lparr>bu_batch := Some (b\<lparr>b_entries := es, b_held := b_held b @ [(en_id e, Inl err)]\<rparr>)\<rparr>
              else settle [(en_id e, Inl err)] (s1\<lparr>bu_batch := Some (b\<lparr>b_entries := es\<rparr>)\<rparr>))
      | (Inr (result, working), w) \<Rightarrow>
          (let s1 = s\<lparr>bu_world := w\<rparr>;
               writes = b_writes b \<or> writes_state (en_request e);
               b1 = b\<lparr>b_entries := es, b_working := working, b_writes := writes\<rparr>
           in if writes
              then s1\<lparr>bu_batch := Some (b1\<lparr>b_held := b_held b @ [(en_id e, Inr result)]\<rparr>)\<rparr>
              else settle [(en_id e, Inr result)] (s1\<lparr>bu_batch := Some b1\<rparr>)))"

definition persistence_unavailable :: budget_error where
  "persistence_unavailable = AccountBudgetError ''account-persistence-unavailable'' 503"

text \<open>The end of a batch; \<open>stored\<close> says whether \<open>store.write\<close> fulfilled.\<close>

definition finish_batch :: "bool \<Rightarrow> batch \<Rightarrow> budget \<Rightarrow> budget" where
  "finish_batch stored b s =
     (if \<not> b_writes b then s\<lparr>bu_batch := None\<rparr>
      else if stored then settle (b_held b) (s\<lparr>bu_batch := None, bu_state := b_working b\<rparr>)
      else settle (map (\<lambda>h. (fst h, Inl persistence_unavailable)) (b_held b))
             (s\<lparr>bu_batch := None, bu_broken := True\<rparr>))"

text \<open>\<open>close()\<close>: refuse new work, and when idle persist the highest wall reading.\<close>

definition begin_close :: "budget \<Rightarrow> budget" where
  "begin_close s = s\<lparr>bu_stopping := True\<rparr>"

definition finish_close :: "bool \<Rightarrow> budget \<Rightarrow> budget" where
  "finish_close stored s =
     (let w = bu_world s;
          s1 = (if \<not> bu_broken s \<and> highest_wall w > l_last_wall (bu_state s) \<and> stored
                then s\<lparr>bu_state := (bu_state s)\<lparr>l_last_wall := highest_wall w\<rparr>\<rparr> else s)
      in s1\<lparr>bu_world := w\<lparr>expiries := []\<rparr>\<rparr>)"

inductive budget_step :: "config \<Rightarrow> budget \<Rightarrow> budget \<Rightarrow> bool" for c where
  submit: "budget_step c s (transact c e s)"
| abort: "budget_step c s (s\<lparr>bu_aborted := i # bu_aborted s\<rparr>)"
| start: "bu_batch s = None \<Longrightarrow> bu_waiting s \<noteq> [] \<Longrightarrow> budget_step c s (begin_batch s)"
| turn: "bu_batch s = Some b \<Longrightarrow> b_entries b = e # es \<Longrightarrow> budget_step c s (apply_next c e es b s)"
| finish: "bu_batch s = Some b \<Longrightarrow> b_entries b = [] \<Longrightarrow> budget_step c s (finish_batch stored b s)"
| stop: "budget_step c s (begin_close s)"
| closed: "bu_stopping s \<Longrightarrow> bu_batch s = None \<Longrightarrow> bu_waiting s = [] \<Longrightarrow>
    budget_step c s (finish_close stored s)"

inductive_cases budget_stepE: "budget_step c s t"

subsection \<open>Opening the ledger\<close>

text \<open>\<open>readyPromise\<close>: \<open>stored\<close> is what \<open>store.read()\<close> gave.\<close>

definition restore_expiries :: "config \<Rightarrow> ledger \<Rightarrow> int \<Rightarrow> rat \<Rightarrow> (string \<times> expiry) list \<Rightarrow> (string \<times> expiry) list" where
  "restore_expiries c data tm m =
     fold (\<lambda>g. jset (g_token g)
       \<lparr>e_grant = m + of_int (min (grant_ttl c * 1000) (max 0 (g_expires g - tm))),
        e_delegation = m + of_int (min (delegation_ttl c * 1000) (max 0 (g_delegation g - tm)))\<rparr>)
       (l_grants data)"

definition set_expiries :: "((string \<times> expiry) list \<Rightarrow> (string \<times> expiry) list) \<Rightarrow> unit act" where
  "set_expiries f w = (Inr (), w\<lparr>expiries := f (expiries w)\<rparr>)"

definition raise_wall :: "int \<Rightarrow> unit act" where
  "raise_wall tm w = (Inr (), w\<lparr>highest_wall := max (highest_wall w) tm\<rparr>)"

definition open_ledger :: "config \<Rightarrow> ledger option \<Rightarrow> ledger act" where
  "open_ledger c stored =
     bnd (case stored of
            Some data \<Rightarrow> ret data
          | None \<Rightarrow> bnd (random_hex 32) (\<lambda>secret. bnd time (\<lambda>tm.
              ret \<lparr>l_secret = secret, l_last_wall = tm, l_accounts = [], l_identities = [],
                   l_grants = [], l_operations = []\<rparr>))) (\<lambda>data.
     bnd (raise_wall (l_last_wall data)) (\<lambda>_.
     bnd (validate c data) (\<lambda>_.
     bnd time (\<lambda>tm.
     bnd monotonic_now (\<lambda>m.
     bnd (set_expiries (restore_expiries c data tm m)) (\<lambda>_. ret data))))))"

definition opened :: "ledger \<Rightarrow> world \<Rightarrow> budget" where
  "opened data w =
     \<lparr>bu_state = data, bu_world = w, bu_broken = False, bu_stopping = False, bu_pending = 0,
      bu_waiting = [], bu_batch = None, bu_aborted = [], bu_settled = []\<rparr>"

text \<open>The closure before \<open>readyPromise\<close> runs.\<close>

definition fresh_world :: "world \<Rightarrow> bool" where
  "fresh_world w \<longleftrightarrow> highest_wall w = 0 \<and> expiries w = []"

text \<open>The states the loop can reach from a ledger that opened.\<close>

inductive budget_reachable :: "config \<Rightarrow> budget \<Rightarrow> bool" for c where
  opens: "fresh_world w0 \<Longrightarrow> open_ledger c stored w0 = (Inr data, w) \<Longrightarrow> budget_reachable c (opened data w)"
| steps: "budget_reachable c s \<Longrightarrow> budget_step c s t \<Longrightarrow> budget_reachable c t"

end
