(* ===== verification/Account_Proofs.thy ===== *)
theory Account_Proofs
  imports Account_Transactions
begin

text \<open>The lemmas of the account ledger: effects, alias resolution, one effect lemma per operation.\<close>

subsection \<open>Effects that return\<close>

named_theorems act_simps \<comment> \<open>when an effect returns a value\<close>

lemma bnd_Inr [act_simps]:
  "bnd m f w = (Inr y, w2) \<longleftrightarrow> (\<exists>x w1. m w = (Inr x, w1) \<and> f x w1 = (Inr y, w2))"
  by (auto simp: bnd_def split: prod.splits sum.splits)

lemma bndE:
  assumes "bnd m f w = (Inr y, w2)"
  obtains x w1 where "m w = (Inr x, w1)" and "f x w1 = (Inr y, w2)"
  using assms by (auto simp: bnd_Inr)

lemma ret_Inr [act_simps]: "ret x w = (Inr y, w') \<longleftrightarrow> y = x \<and> w' = w"
  by (auto simp: ret_def)

lemma throw_Inr [act_simps]: "throw e w = (Inr y, w') \<longleftrightarrow> False"
  by (simp add: throw_def)

lemma refuse_Inr [act_simps]: "refuse code st w = (Inr y, w') \<longleftrightarrow> False"
  by (simp add: refuse_def throw_def)

lemma lift_Inr [act_simps]: "lift r w = (Inr y, w') \<longleftrightarrow> r = Inr y \<and> w' = w"
  by (auto simp: lift_def)

lemma refuse_if_Inr [act_simps]: "refuse_if b code st w = (Inr u, w') \<longleftrightarrow> \<not> b \<and> w' = w"
  by (auto simp: refuse_if_def refuse_def throw_def ret_def)

lemma if_act_Inr [act_simps]:
  "(if b then m else m') w = (Inr y, w') \<longleftrightarrow> (if b then m w = (Inr y, w') else m' w = (Inr y, w'))"
  by simp

lemma case_option_act_Inr [act_simps]:
  "(case x of None \<Rightarrow> m | Some z \<Rightarrow> f z) w = (Inr y, w') \<longleftrightarrow>
     (x = None \<and> m w = (Inr y, w')) \<or> (\<exists>z. x = Some z \<and> f z w = (Inr y, w'))"
  by (cases x) auto

lemma case_prod_act_Inr [act_simps]: "(case p of (a, b) \<Rightarrow> f a b) w = r \<longleftrightarrow> f (fst p) (snd p) w = r"
  by (cases p) simp

lemma time_Inr [act_simps]:
  "time w = (Inr tm, w') \<longleftrightarrow> tm = wall_at w (wall_reads w) \<and> safe_int tm \<and> highest_wall w \<le> tm
     \<and> w' = w\<lparr>wall_reads := Suc (wall_reads w), highest_wall := tm\<rparr>"
  by (auto simp: time_def Let_def)

subsection \<open>The index and the alias walk\<close>

lemma find_append: "find p (xs @ ys) = (case find p xs of None \<Rightarrow> find p ys | Some x \<Rightarrow> Some x)"
  by (induction xs) auto

lemma account_index_append:
  "jget (account_index (rows @ [r])) i =
     (case jget (account_index rows) i of None \<Rightarrow> (if row_id r = i then Some r else None) | Some x \<Rightarrow> Some x)"
  by (auto simp: account_index_def jhas_def split: option.splits)

lemma account_lookup_find: "account_lookup rows i = find_row rows i"
  by (induction rows rule: rev_induct)
     (auto simp: account_lookup_def find_row_def account_index_append find_append account_index_def [of "[]"]
           split: option.splits)

lemma canonical_from_rules:
  "i \<in> set visited \<Longrightarrow> canonical_from rows visited i = Inl state_invalid"
  "i \<notin> set visited \<Longrightarrow> find_row rows i = None \<Longrightarrow> canonical_from rows visited i = Inl state_invalid"
  "i \<notin> set visited \<Longrightarrow> find_row rows i = Some (Live a) \<Longrightarrow> canonical_from rows visited i = Inr a"
  "i \<notin> set visited \<Longrightarrow> find_row rows i = Some (AliasTo j t) \<Longrightarrow>
     canonical_from rows visited i = canonical_from rows (i # visited) t"
  by (simp_all add: canonical_from.simps [of rows visited i])

lemma canonical_from_cases [case_names visited missing live aliased]:
  assumes "i \<in> set visited \<Longrightarrow> P"
    and "i \<notin> set visited \<Longrightarrow> find_row rows i = None \<Longrightarrow> P"
    and "\<And>a. i \<notin> set visited \<Longrightarrow> find_row rows i = Some (Live a) \<Longrightarrow> a_id a = i \<Longrightarrow> P"
    and "\<And>t. i \<notin> set visited \<Longrightarrow> find_row rows i = Some (AliasTo i t) \<Longrightarrow> P"
  shows P
proof (cases "find_row rows i")
  case (Some r)
  then have "row_id r = i" by (auto dest: find_row_SomeD)
  with Some assms show P by (cases r) auto
qed (use assms in auto)

lemma canonical_from_live:
  "canonical_from rows visited i = Inr a \<Longrightarrow> find_row rows (a_id a) = Some (Live a)"
proof (induction rows visited i rule: canonical_from.induct)
  case (1 rows visited i)
  then show ?case
    by (cases rule: canonical_from_cases [where i = i and visited = visited and rows = rows]) (simp_all add: canonical_from_rules)
qed

lemma canonical_live: "canonical data i = Inr a \<Longrightarrow> find_row (l_accounts data) (a_id a) = Some (Live a)"
  by (simp add: canonical_def canonical_from_live)

lemma canonical_idem: "canonical data i = Inr a \<Longrightarrow> canonical data (a_id a) = Inr a"
  by (frule canonical_live) (simp add: canonical_def canonical_from.simps [of _ "[]"])

text \<open>Rows that agree in id and kind with the old ones resolve alike.\<close>

definition upd_account :: "account \<Rightarrow> account \<Rightarrow> account" where
  "upd_account a1 b = (if a_id b = a_id a1 then a1 else b)"

lemma find_row_put:
  assumes "find_row rows (a_id a1) = Some (Live a0)"
  shows "find_row (update_first (\<lambda>r. row_id r = a_id a1) (\<lambda>_. Live a1) rows) i =
    (if i = a_id a1 then Some (Live a1) else find_row rows i)"
  using assms unfolding find_row_def by (induction rows) (auto split: if_splits)

lemma canonical_from_put:
  assumes "find_row rows (a_id a1) = Some (Live a0)"
  shows "canonical_from (update_first (\<lambda>r. row_id r = a_id a1) (\<lambda>_. Live a1) rows) visited i =
    map_sum (\<lambda>e. e) (upd_account a1) (canonical_from rows visited i)"
  using assms
proof (induction rows visited i rule: canonical_from.induct)
  case (1 rows visited i)
  show ?case
  proof (cases rule: canonical_from_cases [where i = i and visited = visited and rows = rows])
    case visited
    then show ?thesis by (simp add: canonical_from_rules)
  next
    case missing
    with "1.prems" have "i \<noteq> a_id a1" by auto
    with missing "1.prems" show ?thesis by (simp add: canonical_from_rules find_row_put)
  next
    case (live b)
    with "1.prems" show ?thesis
      by (cases "i = a_id a1") (simp_all add: canonical_from_rules find_row_put upd_account_def)
  next
    case (aliased t)
    with "1.prems" have "i \<noteq> a_id a1" by auto
    with aliased "1.prems" "1.IH" [OF aliased refl] show ?thesis
      by (simp add: canonical_from_rules find_row_put)
  qed
qed

lemma canonical_put_account:
  assumes "find_row (l_accounts data) (a_id a1) = Some (Live a0)"
  shows "canonical (put_account a1 data) i = map_sum (\<lambda>e. e) (upd_account a1) (canonical data i)"
  using canonical_from_put [OF assms] by (simp add: canonical_def put_account_def)

subsection \<open>Total spending\<close>

fun row_spent :: "account_row \<Rightarrow> int" where
  "row_spent (Live a) = a_spent a"
| "row_spent (AliasTo i t) = 0"

definition total_spent :: "ledger \<Rightarrow> int" where
  "total_spent data = sum_list (map row_spent (l_accounts data))"

lemma sum_update_first:
  "find p xs = Some x \<Longrightarrow> sum_list (map g (update_first p (\<lambda>_. y) xs)) = sum_list (map g xs) - g x + (g y :: int)"
  by (induction xs) (auto split: if_splits)

lemma total_spent_put_account:
  "find_row (l_accounts data) (a_id a1) = Some (Live a0) \<Longrightarrow>
     total_spent (put_account a1 data) = total_spent data - a_spent a0 + a_spent a1"
  by (simp add: total_spent_def put_account_def find_row_def sum_update_first)

lemma total_spent_put_alias:
  "find_row (l_accounts data) i = Some r \<Longrightarrow>
     total_spent (put_alias i t data) = total_spent data - row_spent r"
  by (simp add: total_spent_def put_alias_def find_row_def sum_update_first)

subsection \<open>\<open>grant\<close> and \<open>issue\<close>\<close>

lemma grant_Inr:
  assumes "grant data token w = (Inr (value, a), w')"
  shows "find_grant data token = Some value" and "\<not> g_revoked value"
    and "canonical data (g_account value) = Inr a" and "a_revision a = g_epoch value"
    and "find_row (l_accounts data) (a_id a) = Some (Live a)"
    and "\<exists>e. jget (expiries w) token = Some e"
    and "expiries w' = expiries w"
  using assms canonical_live [of data "g_account value" a]
  by (auto simp: grant_def act_simps get_expiry_def monotonic_now_def split: if_splits)

lemma grant_refuses:
  assumes "find_grant data token = None \<or> (\<exists>g. find_grant data token = Some g \<and> g_revoked g)"
  shows "\<exists>w'. grant data token w = (Inl grant_unavailable, w')"
  using assms by (auto simp: grant_def bnd_def get_expiry_def monotonic_now_def throw_def)

lemma issue_Inr:
  assumes "issue c data a page methods delegation website prior w = (Inr (value, data'), w')"
  shows "data' = data\<lparr>l_grants := l_grants data @ [value]\<rparr>"
    and "g_account value = a_id a" and "g_page value = page" and "g_methods value = methods"
    and "g_website value = website" and "g_epoch value = a_revision a"
    and "g_delegation value = delegation" and "g_expires value \<le> delegation"
    and "\<not> g_revoked value" and "g_renewal value = None"
    and "length (l_grants data) < grant_capacity c"
  using assms by (auto simp: issue_def act_simps Let_def random_hex_def)

lemma find_grant_SomeD: "find_grant data token = Some g \<Longrightarrow> g \<in> set (l_grants data) \<and> g_token g = token"
  unfolding find_grant_def by (metis (mono_tags, lifting) find_Some_iff nth_mem)

lemma grant_response_Inr:
  assumes "grant_response data value fresh = Inr v"
  shows "gv_grant v = g_token value" and "gv_epoch v = g_epoch value" and "gv_expires v = g_expires value"
    and "gv_delegation v = g_delegation value" and "gv_fresh_consent v = fresh"
    and "\<exists>a. canonical data (g_account value) = Inr a \<and> snapshot data a = Inr (gv_snapshot v)"
  using assms by (auto simp: grant_response_def split: sum.splits)

lemma snapshot_Inr:
  assumes "snapshot data a = Inr sn"
  shows "s_limit sn = a_limit a" and "s_spent sn = a_spent a" and "s_remaining sn = max 0 (a_limit a - a_spent a)"
    and "s_revision sn = a_revision a" and "s_generation sn = a_generation a"
  using assms by (auto simp: snapshot_def remaining_def split: sum.splits)

subsection \<open>\<open>reserve\<close>\<close>

text \<open>What a successful reservation did, on both branches.\<close>

definition reserved :: "config \<Rightarrow> string \<Rightarrow> string \<Rightarrow> int \<Rightarrow> ledger \<Rightarrow> reservation \<Rightarrow> ledger \<Rightarrow> bool" where
  "reserved c token oid bytes data rv data' \<longleftrightarrow>
     (\<exists>value a. find_grant data token = Some value \<and> \<not> g_revoked value
        \<and> canonical data (g_account value) = Inr a \<and> a_revision a = g_epoch value
        \<and> hex oid 32 \<and> 1 \<le> bytes
        \<and> (case find_operation data token oid of
             Some p \<Rightarrow> o_bytes p = bytes \<and> data' = data \<and> rv_duplicate rv \<and> rv_accepted rv = o_accepted p
           | None \<Rightarrow> \<not> rv_duplicate rv \<and> rv_accepted rv = (bytes \<le> remaining a)
               \<and> length (l_operations data) < operation_capacity c
               \<and> data' = (put_account (if rv_accepted rv then a\<lparr>a_spent := a_spent a + bytes\<rparr> else a) data)
                   \<lparr>l_operations := l_operations data @ [\<lparr>o_grant = token, o_id = oid, o_bytes = bytes,
                      o_accepted = rv_accepted rv\<rparr>]\<rparr>)
        \<and> rv_reserved rv = (if rv_accepted rv then bytes else 0)
        \<and> rv_exhausted rv = (\<not> rv_accepted rv))"

lemma reserve_Inr:
  assumes "reserve c token oid bytes data w = (Inr (rv, data'), w')"
  shows "reserved c token oid bytes data rv data'"
proof -
  obtain v a w1 where g: "grant data token w = (Inr (v, a), w1)"
    using assms by (auto simp: reserve_def act_simps)
  note facts = grant_Inr(1-4) [OF g]
  show ?thesis
  proof (cases "find_operation data token oid")
    case None
    then show ?thesis
      using assms g facts unfolding reserved_def
      by (auto simp: reserve_def act_simps Let_def amount_def)
  next
    case (Some p)
    then show ?thesis
      using assms g facts unfolding reserved_def
      by (auto simp: reserve_def act_simps Let_def amount_def)
  qed
qed

lemma put_account_same: "find_row (l_accounts data) (a_id a) = Some (Live a) \<Longrightarrow> put_account a data = data"
  by (simp add: put_account_def find_row_def update_first_same)

text \<open>The account of a grant after a reservation, and every other account.\<close>

lemma find_row_put_account:
  "find_row (l_accounts data) (a_id a1) = Some (Live a0) \<Longrightarrow>
     find_row (l_accounts (put_account a1 data)) i = (if i = a_id a1 then Some (Live a1) else find_row (l_accounts data) i)"
  by (simp add: put_account_def find_row_put)

lemma put_account_frame [simp]:
  "l_identities (put_account a data) = l_identities data" "l_grants (put_account a data) = l_grants data"
  "l_operations (put_account a data) = l_operations data" "l_secret (put_account a data) = l_secret data"
  "l_last_wall (put_account a data) = l_last_wall data"
  by (simp_all add: put_account_def)

lemma canonical_update_frame [simp]:
  "canonical (data\<lparr>l_operations := os\<rparr>) i = canonical data i"
  "canonical (data\<lparr>l_grants := gs\<rparr>) i = canonical data i"
  "canonical (data\<lparr>l_identities := is\<rparr>) i = canonical data i"
  "canonical (data\<lparr>l_last_wall := t\<rparr>) i = canonical data i"
  by (simp_all add: canonical_def)

text \<open>
  The effect on the accounts: an accepted new reservation adds the bytes to the account that
  the grant resolves to, inside its limit; everything else leaves every account as it was.
\<close>

lemma reserved_accounts:
  assumes "reserved c token oid bytes data rv data'"
    and "find_grant data token = Some value" and "canonical data (g_account value) = Inr a"
  shows "canonical data' (g_account value) = Inr (if rv_accepted rv \<and> \<not> rv_duplicate rv
           then a\<lparr>a_spent := a_spent a + bytes\<rparr> else a)"
    and "i \<noteq> a_id a \<Longrightarrow> find_row (l_accounts data') i = find_row (l_accounts data) i"
    and "rv_accepted rv \<Longrightarrow> \<not> rv_duplicate rv \<Longrightarrow> a_spent a + bytes \<le> a_limit a"
    and "l_grants data' = l_grants data" and "l_identities data' = l_identities data"
proof -
  have live: "find_row (l_accounts data) (a_id a) = Some (Live a)"
    using assms(3) by (rule canonical_live)
  then have put: "find_row (l_accounts data) (a_id (a\<lparr>a_spent := n\<rparr>)) = Some (Live a)" for n
    by simp
  show "canonical data' (g_account value) = Inr (if rv_accepted rv \<and> \<not> rv_duplicate rv
           then a\<lparr>a_spent := a_spent a + bytes\<rparr> else a)"
    using assms live canonical_put_account [OF put]
    by (auto simp: reserved_def put_account_same upd_account_def split: option.splits)
  show "i \<noteq> a_id a \<Longrightarrow> find_row (l_accounts data') i = find_row (l_accounts data) i"
    using assms live find_row_put_account [OF put]
    by (auto simp: reserved_def put_account_same split: option.splits)
  show "rv_accepted rv \<Longrightarrow> \<not> rv_duplicate rv \<Longrightarrow> a_spent a + bytes \<le> a_limit a"
    using assms by (auto simp: reserved_def remaining_def split: option.splits)
  show "l_grants data' = l_grants data" and "l_identities data' = l_identities data"
    using assms by (auto simp: reserved_def split: option.splits)
qed

lemma reserved_total:
  assumes "reserved c token oid bytes data rv data'"
  shows "total_spent data' = total_spent data + (if rv_accepted rv \<and> \<not> rv_duplicate rv then bytes else 0)"
proof -
  obtain g a where v: "canonical data (g_account g) = Inr a" "find_grant data token = Some g"
    using assms by (auto simp: reserved_def)
  then have live: "find_row (l_accounts data) (a_id a) = Some (Live a)" by (simp add: canonical_live)
  then have put: "total_spent (put_account (a\<lparr>a_spent := n\<rparr>) data) = total_spent data - a_spent a + n" for n
    using total_spent_put_account [of data "a\<lparr>a_spent := n\<rparr>" a] by simp
  have ops: "total_spent (d\<lparr>l_operations := os\<rparr>) = total_spent d" for d os
    by (simp add: total_spent_def)
  show ?thesis
    using assms v live by (auto simp: reserved_def put ops put_account_same split: option.splits)
qed

text \<open>The decision recorded for an operation.\<close>

lemma find_operation_append:
  "find_operation (d\<lparr>l_operations := os @ [x]\<rparr>) token oid =
     (case find_operation (d\<lparr>l_operations := os\<rparr>) token oid of
        None \<Rightarrow> (if o_grant x = token \<and> o_id x = oid then Some x else None) | Some p \<Rightarrow> Some p)"
  by (simp add: find_operation_def find_append split: option.split)

lemma reserved_recorded:
  assumes "reserved c token oid bytes data rv data'"
  shows "\<exists>p. find_operation data' token oid = Some p \<and> o_bytes p = bytes \<and> o_accepted p = rv_accepted rv"
proof (cases "find_operation data token oid")
  case None
  then have "find_operation (d\<lparr>l_operations := l_operations data\<rparr>) token oid = None" for d :: ledger
    by (simp add: find_operation_def)
  with None assms show ?thesis by (auto simp: reserved_def find_operation_append)
qed (use assms in \<open>auto simp: reserved_def\<close>)

end
