(* ===== verification/Account_Linking.thy ===== *)
theory Account_Linking
  imports Account_Proofs
begin

text \<open>The lemmas of \<open>authorize\<close>, \<open>renew\<close> and \<open>revokeGrant\<close>: linking, revocation, renewal.\<close>

subsection \<open>Revoking rows\<close>

lemma revoke_rows_Inr:
  assumes "revoke_rows p gs = Inr gs'"
  shows "gs' = map (\<lambda>g. if p g = Inr True then g\<lparr>g_revoked := True\<rparr> else g) gs"
  using assms by (induction gs arbitrary: gs') (auto split: sum.splits)

lemma revoke_rows_Inr_all: "revoke_rows p gs = Inr gs' \<Longrightarrow> g \<in> set gs \<Longrightarrow> \<exists>b. p g = Inr b"
  by (induction gs arbitrary: gs') (auto split: sum.splits)

lemma map_sum_Inr_iff: "map_sum f g x = Inr y \<longleftrightarrow> (\<exists>z. x = Inr z \<and> g z = y)"
  by (cases x) auto

lemma find_map: "find p (map f xs) = map_option f (find (p \<circ> f) xs)"
  by (induction xs) auto

lemma find_grant_revoked:
  assumes "revoke_rows p (l_grants data) = Inr gs" and "find_grant data token = Some g"
  shows "find (\<lambda>g. g_token g = token) gs = Some (if p g = Inr True then g\<lparr>g_revoked := True\<rparr> else g)"
proof -
  have "(\<lambda>g. g_token g = token) \<circ> (\<lambda>g. if p g = Inr True then g\<lparr>g_revoked := True\<rparr> else g) = (\<lambda>g. g_token g = token)"
    by (simp add: fun_eq_iff)
  then show ?thesis
    using assms(2) unfolding revoke_rows_Inr [OF assms(1)] find_map find_grant_def by simp
qed

lemma revoke_grants_of_Inr:
  assumes "revoke_grants_of data a = Inr data'"
  shows "\<exists>gs. revoke_rows (\<lambda>g. resolves_to data a (g_account g)) (l_grants data) = Inr gs
           \<and> data' = data\<lparr>l_grants := gs\<rparr>"
  using assms by (auto simp: revoke_grants_of_def split: sum.splits)

subsection \<open>The records of the identities\<close>

lemma record_for_Inr:
  assumes "record_for c data v w = (Inr (r, data1), w1)"
  shows "l_grants data1 = l_grants data" and "l_operations data1 = l_operations data"
    and "total_spent data1 = total_spent data"
    and "\<exists>new. l_accounts data1 = l_accounts data @ new"
  using assms by (auto simp: record_for_def act_simps Let_def total_spent_def random_hex_def)

lemma records_for_Inr:
  assumes "records_for c data vs w = (Inr (rs, data1), w1)"
  shows "l_grants data1 = l_grants data \<and> l_operations data1 = l_operations data
    \<and> total_spent data1 = total_spent data \<and> length rs = length vs
    \<and> (\<exists>new. l_accounts data1 = l_accounts data @ new)"
  using assms
proof (induction vs arbitrary: data w rs)
  case Nil
  then show ?case by (simp add: act_simps)
next
  case (Cons v vs)
  then obtain r d w2 rs' where r: "record_for c data v w = (Inr (r, d), w2)"
    and rs: "records_for c d vs w2 = (Inr (rs', data1), w1)" and "rs = r # rs'"
    by (auto simp: act_simps)
  then show ?case
    using Cons.IH [OF rs] record_for_Inr [OF r] by auto
qed

subsection \<open>Linking\<close>

lemma find_row_alias:
  assumes "find_row rows i = Some r"
  shows "find_row (update_first (\<lambda>r. row_id r = i) (\<lambda>_. AliasTo i t) rows) j =
    (if j = i then Some (AliasTo i t) else find_row rows j)"
  using assms unfolding find_row_def by (induction rows) (auto split: if_splits)

text \<open>
  Making the account \<open>b\<close> an alias of the account \<open>a\<close> redirects exactly the ids that
  resolved to \<open>b\<close>.  The walk only collects ids of aliases, so it never meets its own trail.
\<close>

lemma canonical_from_alias:
  assumes "find_row rows i = Some (Live b)" and "find_row rows t = Some (Live a)" and "t \<noteq> i"
    and "\<forall>v \<in> set visited. \<exists>u. find_row rows v = Some (AliasTo v u)"
  shows "canonical_from (update_first (\<lambda>r. row_id r = i) (\<lambda>_. AliasTo i t) rows) visited j =
    map_sum (\<lambda>e. e) (\<lambda>x. if a_id x = i then a else x) (canonical_from rows visited j)"
  using assms
proof (induction rows visited j rule: canonical_from.induct)
  case (1 rows visited j)
  note find_alias = find_row_alias [OF "1.prems"(1), of t]
  have ids: "a_id b = i" "a_id a = t" using "1.prems" by (auto dest: find_row_SomeD)
  show ?case
  proof (cases rule: canonical_from_cases [where i = j and visited = visited and rows = rows])
    case visited
    then show ?thesis by (simp add: canonical_from_rules)
  next
    case missing
    with "1.prems" have "j \<noteq> i" by auto
    with missing show ?thesis by (simp add: canonical_from_rules find_alias)
  next
    case (live x)
    show ?thesis
    proof (cases "j = i")
      case True
      have "t \<notin> set visited" using "1.prems" by auto
      with True live "1.prems" ids show ?thesis
        by (simp add: canonical_from_rules(3,4) find_alias)
    next
      case False
      with live show ?thesis by (simp add: canonical_from_rules find_alias)
    qed
  next
    case (aliased u)
    with "1.prems" have "j \<noteq> i" by auto
    with aliased "1.prems" "1.IH" [OF aliased refl] show ?thesis
      by (simp add: canonical_from_rules(4) find_alias)
  qed
qed

lemma link_accounts_Inr:
  assumes "link_accounts data a r = Inr (a1, data1)" and "find_row (l_accounts data) (a_id a) = Some (Live a)"
  shows "a_id a1 = a_id a" and "a_revision a < a_revision a1"
    and "find_row (l_accounts data1) (a_id a1) = Some (Live a1)"
    and "total_spent data1 = total_spent data"
    and "l_grants data1 = l_grants data" and "l_operations data1 = l_operations data"
    and "canonical data1 (i_account r) = Inr a1"
proof -
  obtain b where b: "canonical data (i_account r) = Inr b"
    using assms(1) by (auto simp: link_accounts_def split: sum.splits)
  then have live_b: "find_row (l_accounts data) (a_id b) = Some (Live b)" by (rule canonical_live)
  have "a_id a1 = a_id a \<and> a_revision a < a_revision a1
    \<and> find_row (l_accounts data1) (a_id a1) = Some (Live a1)
    \<and> total_spent data1 = total_spent data
    \<and> l_grants data1 = l_grants data \<and> l_operations data1 = l_operations data
    \<and> canonical data1 (i_account r) = Inr a1"
  proof (cases "a_id b = a_id a")
    case True
    then have ba: "b = a" using live_b assms(2) by (metis account_row.inject(1) option.inject)
    define m where "m = a\<lparr>a_revision := a_revision a + 1\<rparr>"
    have m: "a_id m = a_id a" "a_spent m = a_spent a" "a_revision a < a_revision m"
      by (simp_all add: m_def)
    have eqs: "a1 = m" "data1 = put_account m data"
      using assms(1) b True by (auto simp: link_accounts_def Let_def m_def)
    have "find_row (l_accounts (put_account m data)) (a_id a) = Some (Live m)"
      using find_row_put_account [of data m a] assms(2) m by simp
    moreover have "canonical (put_account m data) (i_account r) = Inr m"
      using canonical_put_account [of data m a] assms(2) m b ba by (simp add: upd_account_def)
    moreover have "total_spent (put_account m data) = total_spent data"
      using total_spent_put_account [of data m a] assms(2) m by simp
    ultimately show ?thesis using eqs m by simp
  next
    case False
    define m where "m = merge_accounts a b"
    have m: "a_id m = a_id a" "a_spent m = a_spent a + a_spent b" "a_revision a < a_revision m"
      by (auto simp: m_def merge_accounts_def)
    have eqs: "a1 = m" "data1 = put_alias (a_id b) (a_id a) (put_account m data)"
      using assms(1) b False by (auto simp: link_accounts_def Let_def m_def split: if_splits)
    have put: "find_row (l_accounts (put_account m data)) j =
        (if j = a_id a then Some (Live m) else find_row (l_accounts data) j)" for j
      using find_row_put_account [of data m a] assms(2) m by simp
    have total: "total_spent (put_account m data) = total_spent data + a_spent b"
      using total_spent_put_account [of data m a] assms(2) m by simp
    have "canonical (put_account m data) (i_account r) = Inr b"
      using canonical_put_account [of data m a] assms(2) m b False by (simp add: upd_account_def)
    then have "canonical data1 (i_account r) = Inr m"
      using canonical_from_alias [of "l_accounts (put_account m data)" "a_id b" b "a_id a" m "[]"] put live_b False
      by (simp add: eqs canonical_def put_alias_def)
    then show ?thesis
      using eqs m put live_b total False total_spent_put_alias [of "put_account m data" "a_id b" "Live b" "a_id a"]
        find_row_alias [of "l_accounts (put_account m data)" "a_id b" "Live b" "a_id a"]
      by (simp add: put_alias_def)
  qed
  then show "a_id a1 = a_id a" and "a_revision a < a_revision a1"
    and "find_row (l_accounts data1) (a_id a1) = Some (Live a1)"
    and "total_spent data1 = total_spent data"
    and "l_grants data1 = l_grants data" and "l_operations data1 = l_operations data"
    and "canonical data1 (i_account r) = Inr a1"
    by blast+
qed

lemma apply_settings_id [simp]: "a_id (apply_settings st a) = a_id a"
  by (auto simp: apply_settings_def Let_def split: option.splits)

definition resets :: "(int \<times> bool) option \<Rightarrow> bool" where
  "resets st \<longleftrightarrow> (case st of Some (_, True) \<Rightarrow> True | _ \<Rightarrow> False)"

lemma apply_settings_spent: "a_spent (apply_settings st a) = (if resets st then 0 else a_spent a)"
  by (auto simp: apply_settings_def resets_def Let_def split: option.splits)

subsection \<open>\<open>authorize\<close>\<close>

text \<open>The account after the optional link, as the steps of \<open>authorize\<close> left it.\<close>

definition authorised_account :: "config \<Rightarrow> identity list \<Rightarrow> authorisation \<Rightarrow> ledger \<Rightarrow> account \<Rightarrow> ledger \<Rightarrow> bool" where
  "authorised_account c ids q data a data2 \<longleftrightarrow>
     find_row (l_accounts data2) (a_id a) = Some (Live a) \<and> total_spent data2 = total_spent data
     \<and> l_grants data2 = l_grants data \<and> l_operations data2 = l_operations data"

lemma authorize_linked:
  assumes "records_for c data ids w = (Inr (rs, data1), w1)"
    and "canonical data1 (i_account (hd rs)) = Inr a"
    and "(if au_link q then link_accounts data1 a (rs ! 1) else Inr (a, data1)) = Inr (a1, data2)"
  shows "authorised_account c ids q data a1 data2"
  using assms(3) link_accounts_Inr [of data1 a "rs ! 1" a1 data2] canonical_live [OF assms(2)]
    records_for_Inr [OF assms(1)]
  by (auto simp: authorised_account_def split: if_splits)

lemma authorize_Inr:
  assumes "authorize c ids q data w = (Inr (view, data'), w')"
  obtains a1 data2 gs issued where "authorised_account c ids q data a1 data2"
    and "l_accounts data' = l_accounts (put_account (apply_settings (au_settings q) a1) data2)"
    and "l_operations data' = l_operations data" and "l_grants data' = gs @ [issued]"
    and "au_link q \<or> au_settings q \<noteq> None \<Longrightarrow>
      revoke_rows (\<lambda>g. resolves_to data' (apply_settings (au_settings q) a1) (g_account g)) (l_grants data) = Inr gs"
    and "\<not> au_link q \<Longrightarrow> au_settings q = None \<Longrightarrow> gs = l_grants data"
    and "g_account issued = a_id a1" and "g_epoch issued = a_revision (apply_settings (au_settings q) a1)"
    and "\<not> g_revoked issued" and "g_expires issued \<le> g_delegation issued"
    and "g_delegation issued = au_delegation q" and "gv_grant view = g_token issued"
proof -
  have "\<exists>rs data1 a a1 data2 a2 data4 issued w1 w2 w4. records_for c data ids w1 = (Inr (rs, data1), w2)
    \<and> canonical data1 (i_account (hd rs)) = Inr a
    \<and> (if au_link q then link_accounts data1 a (rs ! 1) else Inr (a, data1)) = Inr (a1, data2)
    \<and> settle_account q a1 data2 = Inr (a2, data4)
    \<and> issue c data4 a2 (au_page q) (au_methods q) (au_delegation q)
         (map_option i_id (find (\<lambda>r. i_method r = ''website'') rs)) None w4 = (Inr (issued, data'), w')
    \<and> grant_response data' issued True = Inr view"
    using assms unfolding authorize_def
    by (simp only: bnd_Inr lift_Inr ret_Inr split_paired_Ex prod.case prod.inject) blast
  then obtain rs data1 a a1 data2 a2 data4 issued w1 w2 w4 where
    recs: "records_for c data ids w1 = (Inr (rs, data1), w2)"
    and acc: "canonical data1 (i_account (hd rs)) = Inr a"
    and lnk: "(if au_link q then link_accounts data1 a (rs ! 1) else Inr (a, data1)) = Inr (a1, data2)"
    and stl: "settle_account q a1 data2 = Inr (a2, data4)"
    and iss: "issue c data4 a2 (au_page q) (au_methods q) (au_delegation q)
         (map_option i_id (find (\<lambda>r. i_method r = ''website'') rs)) None w4 = (Inr (issued, data'), w')"
    and view: "grant_response data' issued True = Inr view"
    by blast
  have a2: "a2 = apply_settings (au_settings q) a1"
    and rev: "(if au_link q \<or> au_settings q \<noteq> None
       then revoke_grants_of (put_account a2 data2) a2 else Inr (put_account a2 data2)) = Inr data4"
    using stl by (auto simp: settle_account_def Let_def map_sum_Inr_iff split: if_splits)
  note linked = authorize_linked [OF recs acc lnk]
  define data3 where "data3 = put_account a2 data2"
  have issued: "data' = data4\<lparr>l_grants := l_grants data4 @ [issued]\<rparr>"
    using issue_Inr(1) [OF iss] .
  have same: "l_accounts data4 = l_accounts data3 \<and> l_operations data4 = l_operations data3"
    using rev by (auto simp: data3_def dest!: revoke_grants_of_Inr split: if_splits)
  then have can: "canonical data3 i = canonical data' i" for i
    by (simp add: issued canonical_def)
  then have res: "resolves_to data3 x i = resolves_to data' x i" for x i
    by (simp add: resolves_to_def)
  have gs3: "l_grants data3 = l_grants data"
    using linked by (simp add: data3_def authorised_account_def)
  show thesis
  proof (rule that [OF linked])
    show "l_accounts data' = l_accounts (put_account (apply_settings (au_settings q) a1) data2)"
      using same by (simp add: issued data3_def a2)
    show "l_operations data' = l_operations data"
      using same linked by (simp add: issued data3_def authorised_account_def)
    show "l_grants data' = l_grants data4 @ [issued]" by (simp add: issued)
    show "revoke_rows (\<lambda>g. resolves_to data' (apply_settings (au_settings q) a1) (g_account g)) (l_grants data)
        = Inr (l_grants data4)" if "au_link q \<or> au_settings q \<noteq> None"
    proof -
      have "revoke_grants_of data3 a2 = Inr data4" using that rev by (auto simp: data3_def)
      then show ?thesis using gs3 res a2 by (auto dest!: revoke_grants_of_Inr)
    qed
    show "l_grants data4 = l_grants data" if "\<not> au_link q" "au_settings q = None"
      using that rev gs3 by (auto simp: data3_def)
  qed (use issue_Inr [OF iss] grant_response_Inr [OF view] a2 in auto)
qed

lemma authorize_total_spent:
  assumes "authorize c ids q data w = (Inr (view, data'), w')" and "\<not> resets (au_settings q)"
  shows "total_spent data' = total_spent data"
  using assms(1)
proof (rule authorize_Inr)
  fix a1 data2 gs issued
  assume a: "authorised_account c ids q data a1 data2"
    and acc: "l_accounts data' = l_accounts (put_account (apply_settings (au_settings q) a1) data2)"
  have "total_spent data' = total_spent (put_account (apply_settings (au_settings q) a1) data2)"
    by (simp add: total_spent_def acc)
  also have "\<dots> = total_spent data2"
    using a assms(2) by (subst total_spent_put_account [of _ _ a1]) (simp_all add: authorised_account_def apply_settings_spent)
  finally show "total_spent data' = total_spent data"
    using a by (simp add: authorised_account_def)
qed

text \<open>The grants of the account that existed before a link or a settings change no longer work.\<close>

lemma authorize_revokes_prior:
  assumes ok: "authorize c ids q data w = (Inr (view, data'), w')" and change: "au_link q \<or> au_settings q \<noteq> None"
    and g: "find_grant data token = Some g"
    and issued: "issued \<in> set (l_grants data')" "g_token issued = gv_grant view" "g_token issued \<noteq> token"
      "canonical data' (g_account g) = canonical data' (g_account issued)"
      "\<forall>x \<in> set (l_grants data'). g_token x = gv_grant view \<longrightarrow> x = issued"
  shows "\<exists>w2. grant data' token w1 = (Inl grant_unavailable, w2)"
  using ok
proof (rule authorize_Inr)
  fix a1 data2 gs iss
  assume a: "authorised_account c ids q data a1 data2"
    and acc: "l_accounts data' = l_accounts (put_account (apply_settings (au_settings q) a1) data2)"
    and gs: "l_grants data' = gs @ [iss]"
    and rev: "au_link q \<or> au_settings q \<noteq> None \<Longrightarrow>
      revoke_rows (\<lambda>g. resolves_to data' (apply_settings (au_settings q) a1) (g_account g)) (l_grants data) = Inr gs"
    and ida: "g_account iss = a_id a1" and "gv_grant view = g_token iss"
  with gs have "iss \<in> set (l_grants data') \<and> g_token iss = gv_grant view" by simp
  with issued(5) have iss: "issued = iss" by blast
  let ?a = "apply_settings (au_settings q) a1"
  have row: "find_row (l_accounts data') (a_id a1) = Some (Live ?a)"
    using a find_row_put_account [of data2 ?a a1] by (simp add: acc authorised_account_def)
  then have "canonical data' (a_id a1) = Inr ?a"
    by (simp add: canonical_def canonical_from_rules(3))
  then have "resolves_to data' ?a (g_account g) = Inr True"
    using issued(4) iss ida by (simp add: resolves_to_def)
  then have "find_grant data' token = Some (g\<lparr>g_revoked := True\<rparr>)"
    using find_grant_revoked [OF rev [OF change] g] by (simp add: find_grant_def gs find_append)
  then show ?thesis by (intro grant_refuses) simp
qed

subsection \<open>\<open>renew\<close> and \<open>revokeGrant\<close>\<close>

lemma find_grant_append:
  "find_grant data token = Some g \<Longrightarrow> find_grant (data\<lparr>l_grants := l_grants data @ gs\<rparr>) token = Some g"
  by (simp add: find_grant_def find_append)

lemma find_grant_set_renewal:
  assumes "find_grant data token = Some g"
  shows "find_grant (set_renewal token ren data) token = Some (g\<lparr>g_renewal := Some ren\<rparr>)"
  using assms unfolding find_grant_def set_renewal_def
  by (simp add: find_update_first)

lemma renew_Inr:
  assumes "renew c token oid website data w = (Inr (view, data'), w')"
  obtains (replayed) v a next_token nxt where "find_grant data token = Some v"
      and "canonical data (g_account v) = Inr a" and "g_renewal v = Some (oid, next_token)"
      and "find_grant data next_token = Some nxt" and "data' = data" and "gv_grant view = next_token"
  | (issued) v a nxt w1 where "find_grant data token = Some v"
      and "canonical data (g_account v) = Inr a" and "g_renewal v = None" and "expiries w1 = expiries w"
      and "issue c data a (g_page v) (g_methods v) (g_delegation v) (g_website v) (Some (g_token v)) w1
             = (Inr (nxt, data\<lparr>l_grants := l_grants data @ [nxt]\<rparr>), w')"
      and "data' = set_renewal token (oid, g_token nxt) (data\<lparr>l_grants := l_grants data @ [nxt]\<rparr>)"
      and "grant_response data' nxt False = Inr view"
proof -
  obtain v a w1 where g: "grant data token w = (Inr (v, a), w1)"
    and oid: "hex oid 32" and rest: "(case g_renewal v of
          Some (prior_oid, next_token) \<Rightarrow>
            bnd (refuse_if (prior_oid \<noteq> oid) ''account-renewal-conflict'' 409) (\<lambda>_.
            bnd (grant data next_token) (\<lambda>(next1, _).
            bnd (lift (grant_response data next1 False)) (\<lambda>view. ret (view, data))))
        | None \<Rightarrow>
            bnd (issue c data a (g_page v) (g_methods v) (g_delegation v)
                   (g_website v) (Some (g_token v))) (\<lambda>(next1, data1).
              (let data2 = set_renewal token (oid, g_token next1) data1
               in bnd (lift (grant_response data2 next1 False)) (\<lambda>view. ret (view, data2))))) w1
       = (Inr (view, data'), w')"
    using assms unfolding renew_def
    by (simp only: bnd_Inr lift_Inr refuse_if_Inr split_paired_Ex prod.case prod.inject) blast
  note facts = grant_Inr [OF g]
  show thesis
  proof (cases "g_renewal v")
    case None
    have "\<exists>nxt data1 w2. issue c data a (g_page v) (g_methods v) (g_delegation v) (g_website v) (Some (g_token v)) w1
        = (Inr (nxt, data1), w2)
      \<and> grant_response (set_renewal token (oid, g_token nxt) data1) nxt False = Inr view
      \<and> data' = set_renewal token (oid, g_token nxt) data1 \<and> w' = w2"
      using rest None by (simp add: bnd_Inr lift_Inr ret_Inr Let_def)
    then obtain nxt data1 where i: "issue c data a (g_page v) (g_methods v) (g_delegation v) (g_website v)
        (Some (g_token v)) w1 = (Inr (nxt, data1), w')"
      and "grant_response (set_renewal token (oid, g_token nxt) data1) nxt False = Inr view"
      and "data' = set_renewal token (oid, g_token nxt) data1"
      by blast
    then show thesis using issued facts(1,3,7) None issue_Inr(1) [OF i] by simp
  next
    case (Some ren)
    then obtain p next_token where ren: "g_renewal v = Some (p, next_token)" by (cases ren) auto
    then have "\<exists>nxt b w2. p = oid \<and> grant data next_token w1 = (Inr (nxt, b), w2)
        \<and> grant_response data nxt False = Inr view \<and> data' = data"
      using rest by (simp add: bnd_Inr lift_Inr ret_Inr refuse_if_Inr) blast
    then obtain nxt b w2 where "p = oid" and n: "grant data next_token w1 = (Inr (nxt, b), w2)"
      and r: "grant_response data nxt False = Inr view" and "data' = data"
      by blast
    moreover have "gv_grant view = next_token"
      using grant_response_Inr(1) [OF r] find_grant_SomeD [OF grant_Inr(1) [OF n]] by simp
    ultimately show thesis using replayed facts(1,3) ren grant_Inr(1) [OF n] by blast
  qed
qed

lemma issue_expiry:
  assumes "issue c data a page methods delegation website (Some p) w = (Inr (nxt, data'), w')"
    and "jget (expiries w) p = Some e"
  shows "\<exists>e'. jget (expiries w') (g_token nxt) = Some e' \<and> e_delegation e' = e_delegation e"
  using assms by (auto simp: issue_def act_simps Let_def random_hex_def monotonic_now_def get_expiry_def
      set_expiry_def)

lemma revoke_grant_Inr:
  assumes "revoke_grant token data w = (Inr (u, data'), w')"
  obtains v a gs where "find_grant data token = Some v" and "canonical data (g_account v) = Inr a"
    and "data' = data\<lparr>l_grants := gs\<rparr>"
    and "revoke_rows (\<lambda>g. case resolves_to data a (g_account g) of
              Inl e \<Rightarrow> Inl e
            | Inr b \<Rightarrow> Inr (b \<and> g_page g = g_page v \<and> g_delegation g = g_delegation v)) (l_grants data) = Inr gs"
proof -
  have "\<exists>v a w1 gs. grant data token w = (Inr (v, a), w1) \<and> data' = data\<lparr>l_grants := gs\<rparr>
      \<and> revoke_rows (\<lambda>g. case resolves_to data a (g_account g) of
              Inl e \<Rightarrow> Inl e
            | Inr b \<Rightarrow> Inr (b \<and> g_page g = g_page v \<and> g_delegation g = g_delegation v)) (l_grants data) = Inr gs"
    using assms unfolding revoke_grant_def
    by (simp only: bnd_Inr lift_Inr ret_Inr split_paired_Ex prod.case prod.inject) blast
  then show thesis using that grant_Inr(1,3) by blast
qed

text \<open>After \<open>revokeGrant\<close>, every grant of the page's delegation on that account is refused.\<close>

lemma revoke_grant_refuses:
  assumes ok: "revoke_grant token data w = (Inr (u, data'), w')"
    and v: "find_grant data token = Some v" and g: "find_grant data other = Some g"
    and same: "canonical data (g_account g) = canonical data (g_account v)"
      "g_page g = g_page v" "g_delegation g = g_delegation v"
  shows "\<exists>w2. grant data' other w1 = (Inl grant_unavailable, w2)"
  using ok
proof (rule revoke_grant_Inr)
  fix v' a gs
  assume v': "find_grant data token = Some v'" and a: "canonical data (g_account v') = Inr a"
    and data': "data' = data\<lparr>l_grants := gs\<rparr>"
    and rows: "revoke_rows (\<lambda>g. case resolves_to data a (g_account g) of
              Inl e \<Rightarrow> Inl e
            | Inr b \<Rightarrow> Inr (b \<and> g_page g = g_page v' \<and> g_delegation g = g_delegation v')) (l_grants data) = Inr gs"
  have "v' = v" using v v' by simp
  then have "resolves_to data a (g_account g) = Inr True"
    using a same by (simp add: resolves_to_def)
  then have "find_grant data' other = Some (g\<lparr>g_revoked := True\<rparr>)"
    using find_grant_revoked [OF rows g] same \<open>v' = v\<close> by (simp add: data' find_grant_def)
  then show ?thesis by (intro grant_refuses) simp
qed

end
