(* ===== verification/Account_Loop.thy ===== *)
theory Account_Loop
  imports Account_Linking
begin

text \<open>
  The invariants of the transaction loop: the durable ledger always passes \<open>validate\<close>, a
  refused operation leaves no trace, nothing that follows an unpersisted write is settled
  before the write, and the wall clock never runs backwards.
\<close>

subsection \<open>The wall clock\<close>

text \<open>An effect moves \<open>highestWall\<close> only upwards, and to safe integers only.\<close>

definition clocked :: "'a act \<Rightarrow> bool" where
  "clocked m \<longleftrightarrow> (\<forall>w. highest_wall w \<le> highest_wall (snd (m w))
     \<and> (safe_int (highest_wall w) \<longrightarrow> safe_int (highest_wall (snd (m w)))))"

named_theorems clocked_rules

lemma clocked_basic [clocked_rules]:
  "clocked (ret x)" "clocked (throw err)" "clocked (lift r)" "clocked (refuse code st)"
  "clocked (refuse_if b code st)" "clocked monotonic_now" "clocked (random_hex n)"
  "clocked (set_expiry token e)" "clocked (get_expiry token)" "clocked (keep_expiries live)"
  by (auto simp: clocked_def ret_def throw_def lift_def refuse_def refuse_if_def monotonic_now_def
      random_hex_def set_expiry_def get_expiry_def keep_expiries_def)

lemma clocked_time [clocked_rules]: "clocked time"
  by (auto simp: clocked_def time_def Let_def)

lemma clocked_bnd [clocked_rules]:
  assumes "clocked m" and "\<And>x. clocked (f x)"
  shows "clocked (bnd m f)"
  unfolding clocked_def
proof
  fix w
  show "highest_wall w \<le> highest_wall (snd (bnd m f w))
     \<and> (safe_int (highest_wall w) \<longrightarrow> safe_int (highest_wall (snd (bnd m f w))))"
    using assms(1) assms(2) unfolding clocked_def bnd_def
    by (cases "m w"; cases "fst (m w)") (auto, metis order_trans snd_conv, metis order_trans snd_conv)
qed

lemma clocked_if [clocked_rules]: "clocked m \<Longrightarrow> clocked m' \<Longrightarrow> clocked (if b then m else m')"
  by simp

lemma clocked_option [clocked_rules]:
  "clocked m \<Longrightarrow> (\<And>x. clocked (f x)) \<Longrightarrow> clocked (case v of None \<Rightarrow> m | Some x \<Rightarrow> f x)"
  by (cases v) auto

lemma clocked_prod [clocked_rules]: "(\<And>a b. clocked (f a b)) \<Longrightarrow> clocked (case p of (a, b) \<Rightarrow> f a b)"
  by (cases p) auto

lemma clocked_filter [clocked_rules]: "(\<And>x. clocked (p x)) \<Longrightarrow> clocked (filter_act p xs)"
  by (induction xs) (auto intro!: clocked_rules)

lemma clocked_grant [clocked_rules]: "clocked (grant data token)"
  unfolding grant_def by (intro clocked_rules)

lemma clocked_issue [clocked_rules]: "clocked (issue c data a page methods delegation website prior)"
  unfolding issue_def Let_def by (intro clocked_rules)

lemma clocked_validate [clocked_rules]: "clocked (validate c data)"
  unfolding validate_def by (intro clocked_rules)

lemma clocked_prune [clocked_rules]: "clocked (prune data)"
  unfolding prune_def Let_def by (intro clocked_rules)

lemma clocked_records [clocked_rules]: "clocked (records_for c data vs)"
  by (induction vs arbitrary: data) (auto simp: record_for_def Let_def intro!: clocked_rules)

lemma clocked_operation [clocked_rules]: "clocked (operation c q data)"
  by (cases q) (auto simp: wrap_def authorize_def check_authorisation_def inspect_grant_def reserve_def
      renew_def revoke_grant_def Let_def intro!: clocked_rules)

lemma clocked_apply_entry: "clocked (apply_entry c broken aborted q working)"
  unfolding apply_entry_def Let_def by (intro clocked_rules)

subsection \<open>One entry of a batch\<close>

lemma validate_Inr:
  assumes "validate c data w = (Inr u, w')"
  shows "header_valid data" and "ledger_valid c data"
  using assms by (auto simp: validate_def act_simps split: if_splits)

definition sound_ledger :: "config \<Rightarrow> ledger \<Rightarrow> bool" where
  "sound_ledger c data \<longleftrightarrow> header_valid data \<and> ledger_valid c data"

lemma apply_entry_read:
  assumes "apply_entry c broken aborted q working w = (Inr (result, working'), w')" and "\<not> writes_state q"
  shows "working' = working"
  using assms by (auto simp: apply_entry_def act_simps split: if_splits)

lemma apply_entry_write:
  assumes "apply_entry c broken aborted q working w = (Inr (result, working'), w')" and "writes_state q"
  shows "sound_ledger c working'"
  using assms by (auto simp: apply_entry_def act_simps sound_ledger_def Let_def split: if_splits dest: validate_Inr)

lemma apply_entry_sound:
  "apply_entry c broken aborted q working w = (Inr (result, working'), w') \<Longrightarrow>
     sound_ledger c working \<Longrightarrow> sound_ledger c working'"
  using apply_entry_read apply_entry_write by blast

lemma apply_entry_runs:
  assumes "apply_entry c broken aborted q working w = (Inr r, w')"
  shows "\<not> broken \<and> \<not> aborted"
  using assms by (auto simp: apply_entry_def act_simps split: if_splits)

subsection \<open>The loop invariant\<close>

definition in_batch :: "budget \<Rightarrow> nat" where
  "in_batch s = (case bu_batch s of None \<Rightarrow> 0 | Some b \<Rightarrow> length (b_entries b) + length (b_held b))"

definition batch_inv :: "config \<Rightarrow> budget \<Rightarrow> batch \<Rightarrow> bool" where
  "batch_inv c s b \<longleftrightarrow> sound_ledger c (b_working b)
     \<and> (\<not> b_writes b \<longrightarrow> b_working b = bu_state s \<and> b_held b = [])
     \<and> (bu_broken s \<longrightarrow> \<not> b_writes b)"

definition budget_inv :: "config \<Rightarrow> budget \<Rightarrow> bool" where
  "budget_inv c s \<longleftrightarrow> sound_ledger c (bu_state s) \<and> safe_int (highest_wall (bu_world s))
     \<and> (\<forall>b. bu_batch s = Some b \<longrightarrow> batch_inv c s b)
     \<and> bu_pending s = length (bu_waiting s) + in_batch s \<and> bu_pending s \<le> mutation_capacity c"

lemma budget_inv_transact [inv_intros]: "budget_inv c s \<Longrightarrow> budget_inv c (transact c e s)"
  by (auto simp: budget_inv_def transact_def batch_inv_def in_batch_def)

lemma budget_inv_begin [inv_intros]: "budget_inv c s \<Longrightarrow> bu_batch s = None \<Longrightarrow> budget_inv c (begin_batch s)"
  by (auto simp: budget_inv_def begin_batch_def batch_inv_def in_batch_def)

lemma budget_inv_finish [inv_intros]:
  "budget_inv c s \<Longrightarrow> bu_batch s = Some b \<Longrightarrow> b_entries b = [] \<Longrightarrow> budget_inv c (finish_batch stored b s)"
  by (auto simp: budget_inv_def finish_batch_def batch_inv_def in_batch_def settle_def)

lemma apply_next_Inl:
  assumes "apply_entry c (bu_broken s) (en_id e \<in> set (bu_aborted s)) (en_request e) (b_working b) (bu_world s) = (Inl err, w)"
  shows "apply_next c e es b s =
    (if b_writes b
     then s\<lparr>bu_world := w, bu_batch := Some (b\<lparr>b_entries := es, b_held := b_held b @ [(en_id e, Inl err)]\<rparr>)\<rparr>
     else settle [(en_id e, Inl err)] (s\<lparr>bu_world := w, bu_batch := Some (b\<lparr>b_entries := es\<rparr>)\<rparr>))"
  unfolding apply_next_def assms by (simp add: Let_def)

lemma apply_next_Inr:
  assumes "apply_entry c (bu_broken s) (en_id e \<in> set (bu_aborted s)) (en_request e) (b_working b) (bu_world s)
      = (Inr (result, working), w)"
  shows "apply_next c e es b s =
    (if b_writes b \<or> writes_state (en_request e)
     then s\<lparr>bu_world := w, bu_batch := Some (b\<lparr>b_entries := es, b_working := working, b_writes := True,
              b_held := b_held b @ [(en_id e, Inr result)]\<rparr>)\<rparr>
     else settle [(en_id e, Inr result)]
       (s\<lparr>bu_world := w, bu_batch := Some (b\<lparr>b_entries := es, b_working := working, b_writes := False\<rparr>)\<rparr>))"
  unfolding apply_next_def assms by (simp add: Let_def)

lemma budget_inv_apply [inv_intros]:
  assumes inv: "budget_inv c s" and b: "bu_batch s = Some b" and e: "b_entries b = e # es"
  shows "budget_inv c (apply_next c e es b s)"
proof -
  obtain r w where app: "apply_entry c (bu_broken s) (en_id e \<in> set (bu_aborted s)) (en_request e)
      (b_working b) (bu_world s) = (r, w)" by fastforce
  have w: "safe_int (highest_wall w)"
    using inv clocked_apply_entry [of c "bu_broken s" "en_id e \<in> set (bu_aborted s)" "en_request e" "b_working b"] app
    unfolding budget_inv_def clocked_def by (metis snd_conv)
  have bi: "batch_inv c s b" using inv b by (simp add: budget_inv_def)
  show ?thesis
  proof (cases r)
    case (Inl err)
    show ?thesis
      unfolding apply_next_Inl [OF app [unfolded Inl]]
      using w bi inv b e by (auto simp: settle_def budget_inv_def batch_inv_def in_batch_def)
  next
    case (Inr p)
    then obtain result working where app': "apply_entry c (bu_broken s) (en_id e \<in> set (bu_aborted s)) (en_request e)
        (b_working b) (bu_world s) = (Inr (result, working), w)" using app by (cases p) simp
    have "sound_ledger c working" using apply_entry_sound [OF app'] bi by (simp add: batch_inv_def)
    moreover have "\<not> writes_state (en_request e) \<Longrightarrow> working = b_working b"
      using apply_entry_read [OF app'] .
    moreover have "\<not> bu_broken s" using apply_entry_runs [OF app'] by simp
    ultimately show ?thesis
      unfolding apply_next_Inr [OF app']
      using w bi inv b e by (simp add: settle_def budget_inv_def batch_inv_def in_batch_def)
  qed
qed

lemma sound_ledger_wall:
  "sound_ledger c data \<Longrightarrow> safe_int t \<Longrightarrow> l_last_wall data \<le> t \<Longrightarrow> sound_ledger c (data\<lparr>l_last_wall := t\<rparr>)"
  by (auto simp: sound_ledger_def header_valid_def ledger_valid_def)

lemma budget_inv_close [inv_intros]:
  "budget_inv c s \<Longrightarrow> bu_batch s = None \<Longrightarrow> budget_inv c (finish_close stored s)"
  by (auto simp: budget_inv_def finish_close_def Let_def in_batch_def intro!: sound_ledger_wall)

lemma budget_inv_step:
  assumes "budget_step c s t" and "budget_inv c s"
  shows "budget_inv c t"
  using assms
proof (induction rule: budget_step.induct)
  case (abort s i)
  then show ?case by (auto simp: budget_inv_def batch_inv_def in_batch_def)
next
  case (stop s)
  then show ?case by (auto simp: budget_inv_def begin_close_def batch_inv_def in_batch_def)
qed (auto intro: inv_intros)

lemma open_ledger_Inr:
  assumes "open_ledger c stored w0 = (Inr data, w)"
  shows "sound_ledger c data" and "safe_int (highest_wall w)"
  using assms by (auto simp: open_ledger_def act_simps sound_ledger_def raise_wall_def set_expiries_def
      monotonic_now_def dest: validate_Inr)

lemma budget_inv_reachable: "budget_reachable c s \<Longrightarrow> budget_inv c s"
proof (induction rule: budget_reachable.induct)
  case (opens w0 stored data w)
  then show ?case
    using open_ledger_Inr [OF opens(2)] by (simp add: budget_inv_def opened_def in_batch_def)
qed (rule budget_inv_step)

end
