(* ===== verification/Account_Claims.thy ===== *)
theory Account_Claims
  imports Account_Loop
begin

text \<open>
  What the account ledger promises: exact and idempotent charging, linking that pools spending,
  revocation and renewal that never outlive the delegation, and durable writes that precede the
  outcomes that depend on them.  Each property is applied at a concrete ledger below it.
\<close>

subsection \<open>A concrete ledger\<close>

definition ex_id :: "char \<Rightarrow> nat \<Rightarrow> string" where
  "ex_id ch n = replicate n ch"

definition ex_config :: config where
  "ex_config = \<lparr>default_limit = 1000, grant_ttl = 120, delegation_ttl = 10800, account_capacity = 8,
     identity_capacity = 8, grant_capacity = 8, operation_capacity = 8, mutation_capacity = 4,
     hmac = (\<lambda>k m. ex_id (if length m < 40 then CHR ''1'' else CHR ''2'') 64)\<rparr>"

definition ex_grant :: "char \<Rightarrow> grant_row" where
  "ex_grant ch = \<lparr>g_token = ex_id ch 64, g_account = ex_id (CHR ''a'') 32, g_page = ex_id (CHR ''9'') 64,
     g_methods = [''nostr''], g_website = None, g_epoch = 1, g_expires = 1100000, g_delegation = 1200000,
     g_revoked = False, g_renewal = None\<rparr>"

definition ex_ledger :: ledger where
  "ex_ledger = \<lparr>l_secret = ex_id (CHR ''0'') 64, l_last_wall = 900000,
     l_accounts = [Live \<lparr>a_id = ex_id (CHR ''a'') 32, a_limit = 1000, a_spent = 100, a_revision = 1, a_generation = 1\<rparr>,
                   Live \<lparr>a_id = ex_id (CHR ''b'') 32, a_limit = 500, a_spent = 50, a_revision = 3, a_generation = 1\<rparr>],
     l_identities = [\<lparr>i_id = ex_id (CHR ''1'') 64, i_method = ''nostr'', i_account = ex_id (CHR ''a'') 32\<rparr>,
                     \<lparr>i_id = ex_id (CHR ''2'') 64, i_method = ''website'', i_account = ex_id (CHR ''b'') 32\<rparr>],
     l_grants = [ex_grant (CHR ''c''), ex_grant (CHR ''d'')], l_operations = []\<rparr>"

definition ex_world :: world where
  "ex_world = \<lparr>wall_at = (\<lambda>_. 1000000), mono_at = (\<lambda>_. 5),
     random_at = (\<lambda>k n. ex_id (if k = 0 then CHR ''e'' else CHR ''f'') (2 * n)),
     wall_reads = 0, mono_reads = 0, random_reads = 0, highest_wall = 900000,
     expiries = [(ex_id (CHR ''c'') 64, \<lparr>e_grant = 50, e_delegation = 70\<rparr>),
                 (ex_id (CHR ''d'') 64, \<lparr>e_grant = 50, e_delegation = 70\<rparr>)]\<rparr>"

definition ex_link :: authorisation where
  "ex_link = \<lparr>au_page = ex_id (CHR ''9'') 64, au_methods = [''nostr'', ''website''], au_delegation = 1200000,
     au_expires = 1050000, au_settings = None, au_link = True\<rparr>"

definition ex_identities :: "identity list" where
  "ex_identities = [\<lparr>id_method = ''nostr'', id_issuer = ''n'', id_subject = ''s''\<rparr>,
     \<lparr>id_method = ''website'', id_issuer = ''https://example.org'', id_subject = ''subject''\<rparr>]"

text \<open>A call that returned, as its value and its ledger.\<close>

definition returned :: "(budget_error + 'a \<times> ledger) \<times> world \<Rightarrow> ('a \<Rightarrow> ledger \<Rightarrow> bool) \<Rightarrow> bool" where
  "returned r P \<longleftrightarrow> (case fst r of Inl e \<Rightarrow> False | Inr (x, d) \<Rightarrow> P x d)"

lemma returnedE:
  assumes "returned r P"
  obtains x d w where "r = (Inr (x, d), w)" and "P x d"
  using assms by (cases r) (auto simp: returned_def split: sum.splits)

definition after :: "(budget_error + 'a \<times> ledger) \<times> world \<Rightarrow> ledger" where
  "after r = (case fst r of Inl e \<Rightarrow> ex_ledger | Inr (x, d) \<Rightarrow> d)"

lemma after_eq [simp]: "after (Inr (x, d), w) = d"
  by (simp add: after_def)

abbreviation ex_reserve :: "int \<Rightarrow> (budget_error + reservation \<times> ledger) \<times> world" where
  "ex_reserve bytes \<equiv> reserve ex_config (ex_id (CHR ''c'') 64) (ex_id (CHR ''7'') 32) bytes ex_ledger ex_world"

subsection \<open>Charging\<close>



text \<open>
  A repeated reservation is idempotent.  Asking again for an operation that returned, at
  any later time and on any clock, either fails or gives the same decision, marked as a duplicate,
  and leaves the ledger as it is; and asking with other bytes never returns.
\<close>

theorem reserve_replay:
  assumes "reserve c token oid bytes data w = (Inr (rv, data'), w')"
    and "reserve c token oid bytes2 data' w2 = (Inr (rv2, data2), w3)"
  shows "bytes2 = bytes \<and> data2 = data' \<and> rv_duplicate rv2 \<and> rv_accepted rv2 = rv_accepted rv
    \<and> rv_reserved rv2 = rv_reserved rv"
proof -
  have r: "reserved c token oid bytes data rv data'" and r2: "reserved c token oid bytes2 data' rv2 data2"
    using assms by (auto intro: reserve_Inr)
  obtain p where "find_operation data' token oid = Some p" "o_bytes p = bytes" "o_accepted p = rv_accepted rv"
    using reserved_recorded [OF r] by blast
  moreover have "rv_reserved rv = (if rv_accepted rv then bytes else 0)" using r by (auto simp: reserved_def)
  ultimately show ?thesis using r2 by (auto simp: reserved_def)
qed

theorem reserve_replay_witness:
  "returned (reserve ex_config (ex_id (CHR ''c'') 64) (ex_id (CHR ''7'') 32) 60 (after (ex_reserve 60)) ex_world)
     (\<lambda>rv d. d = after (ex_reserve 60) \<and> rv_duplicate rv)"
proof -
  have one: "returned (ex_reserve 60) (\<lambda>_ _. True)" by code_simp
  then obtain rv d w where r: "ex_reserve 60 = (Inr (rv, d), w)" by (rule returnedE)
  have two: "returned (reserve ex_config (ex_id (CHR ''c'') 64) (ex_id (CHR ''7'') 32) 60 (after (ex_reserve 60)) ex_world)
      (\<lambda>_ _. True)" by code_simp
  then obtain rv2 d2 w2 where s: "reserve ex_config (ex_id (CHR ''c'') 64) (ex_id (CHR ''7'') 32) 60
      (after (ex_reserve 60)) ex_world = (Inr (rv2, d2), w2)" by (rule returnedE)
  have d: "after (ex_reserve 60) = d" by (simp only: r after_eq)
  show ?thesis
    using reserve_replay [OF r s [unfolded d]] by (simp only: d s [unfolded d] returned_def fst_conv sum.case prod.case)
qed

subsection \<open>Linking\<close>

lemma link_pools_canonical:
  assumes link: "link_accounts data a r = Inr (a1, data1)" and a: "find_row (l_accounts data) (a_id a) = Some (Live a)"
    and b: "canonical data (i_account r) = Inr b" and ne: "a_id b \<noteq> a_id a"
  shows "canonical data1 j = map_sum (\<lambda>e. e) (\<lambda>x. if a_id x = a_id a \<or> a_id x = a_id b then a1 else x) (canonical data j)"
proof -
  define m where "m = merge_accounts a b"
  have m: "a_id m = a_id a" by (simp add: m_def merge_accounts_def)
  have eqs: "a1 = m" "data1 = put_alias (a_id b) (a_id a) (put_account m data)"
    using link b ne by (auto simp: link_accounts_def Let_def m_def split: if_splits)
  have live_b: "find_row (l_accounts data) (a_id b) = Some (Live b)" using b by (rule canonical_live)
  have put: "find_row (l_accounts (put_account m data)) j =
      (if j = a_id a then Some (Live m) else find_row (l_accounts data) j)" for j
    using find_row_put_account [of data m a] a m by simp
  have "canonical data1 j = map_sum (\<lambda>e. e) (\<lambda>x. if a_id x = a_id b then m else x) (canonical (put_account m data) j)"
    using canonical_from_alias [of "l_accounts (put_account m data)" "a_id b" b "a_id a" m "[]" j] put live_b ne
    by (simp add: eqs canonical_def put_alias_def)
  also have "canonical (put_account m data) j = map_sum (\<lambda>e. e) (upd_account m) (canonical data j)"
    using canonical_put_account [of data m a] a m by simp
  finally show ?thesis
    using m ne by (cases "canonical data j") (auto simp: eqs upd_account_def)
qed

text \<open>
  C3: linking two identities pools their accounts.  Every id that resolved to either account, the
  aliases of earlier links included, now resolves to one account that carries the spending of both,
  the lower of the two limits, and an epoch above both epochs; every other id resolves as before.
\<close>

theorem link_pools:
  assumes "link_accounts data a r = Inr (a1, data1)" and "find_row (l_accounts data) (a_id a) = Some (Live a)"
    and "canonical data (i_account r) = Inr b" and "a_id b \<noteq> a_id a"
  shows "a_spent a1 = a_spent a + a_spent b \<and> a_limit a1 = min (a_limit a) (a_limit b)
    \<and> a_revision a < a_revision a1 \<and> a_revision b < a_revision a1 \<and> total_spent data1 = total_spent data
    \<and> (\<forall>j. canonical data1 j =
         map_sum (\<lambda>e. e) (\<lambda>x. if a_id x = a_id a \<or> a_id x = a_id b then a1 else x) (canonical data j))"
proof -
  have "a1 = merge_accounts a b"
    using assms(1,3,4) by (auto simp: link_accounts_def Let_def split: if_splits)
  then show ?thesis
    using link_pools_canonical [OF assms] link_accounts_Inr(4) [OF assms(1,2)]
    by (auto simp: merge_accounts_def)
qed

abbreviation ex_account :: account where
  "ex_account \<equiv> \<lparr>a_id = ex_id (CHR ''a'') 32, a_limit = 1000, a_spent = 100, a_revision = 1, a_generation = 1\<rparr>"

abbreviation ex_website :: identity_row where
  "ex_website \<equiv> \<lparr>i_id = ex_id (CHR ''2'') 64, i_method = ''website'', i_account = ex_id (CHR ''b'') 32\<rparr>"

theorem link_pools_witness:
  "\<exists>a1 data1. link_accounts ex_ledger ex_account ex_website = Inr (a1, data1)
     \<and> a_spent a1 = 150 \<and> a_limit a1 = 500 \<and> canonical data1 (ex_id (CHR ''b'') 32) = Inr a1"
proof -
  have "find_row (l_accounts ex_ledger) (a_id ex_account) = Some (Live ex_account)" by code_simp
  moreover have "canonical ex_ledger (i_account ex_website)
      = Inr \<lparr>a_id = ex_id (CHR ''b'') 32, a_limit = 500, a_spent = 50, a_revision = 3, a_generation = 1\<rparr>"
    by code_simp
  moreover have "\<not> isl (link_accounts ex_ledger ex_account ex_website)" by code_simp
  then obtain a1 data1 where "link_accounts ex_ledger ex_account ex_website = Inr (a1, data1)"
    by (cases "link_accounts ex_ledger ex_account ex_website") auto
  moreover have "ex_id (CHR ''b'') 32 \<noteq> ex_id (CHR ''a'') 32" by code_simp
  ultimately show ?thesis
    using link_pools [of ex_ledger ex_account ex_website a1 data1
      "\<lparr>a_id = ex_id (CHR ''b'') 32, a_limit = 500, a_spent = 50, a_revision = 3, a_generation = 1\<rparr>"] by auto
qed

text \<open>
  C4: authorisation never refunds.  However the identities are linked and whatever limit is set,
  the spending of all accounts together is the same before and after, unless the settings ask for a
  reset; and the recorded decisions, which make retries idempotent, all stay.
\<close>

theorem authorize_keeps_spending:
  assumes "authorize c ids q data w = (Inr (view, data'), w')" and "\<not> resets (au_settings q)"
  shows "total_spent data' = total_spent data \<and> l_operations data' = l_operations data"
  using authorize_total_spent [OF assms] authorize_Inr [OF assms(1)] by metis

abbreviation ex_authorize :: "(budget_error + grant_view \<times> ledger) \<times> world" where
  "ex_authorize \<equiv> authorize ex_config ex_identities ex_link ex_ledger ex_world"

theorem authorize_keeps_spending_witness:
  "returned ex_authorize (\<lambda>_ d. total_spent d = total_spent ex_ledger)"
proof -
  have "returned ex_authorize (\<lambda>_ _. True)" by code_simp
  then obtain v d w where r: "ex_authorize = (Inr (v, d), w)" by (rule returnedE)
  moreover have "\<not> resets (au_settings ex_link)" by code_simp
  ultimately show ?thesis using authorize_keeps_spending [OF r] by (simp add: returned_def)
qed

text \<open>
  C5: a link or a change of settings ends every earlier grant of the account.  A grant that
  existed before and whose account is now the account of the newly issued grant is refused from then
  on, by every operation, whatever the clocks say.
\<close>

theorem authorize_ends_prior_grants:
  assumes "authorize c ids q data w = (Inr (view, data'), w')" and "au_link q \<or> au_settings q \<noteq> None"
    and "find_grant data token = Some g" and "issued \<in> set (l_grants data')" and "g_token issued = gv_grant view"
    and "\<forall>x \<in> set (l_grants data'). g_token x = gv_grant view \<longrightarrow> x = issued" and "g_token issued \<noteq> token"
    and "canonical data' (g_account g) = canonical data' (g_account issued)"
  shows "\<exists>w2. grant data' token w1 = (Inl grant_unavailable, w2)"
  using authorize_revokes_prior [OF assms(1-5,7,8,6)] .

definition ex_issued :: grant_row where
  "ex_issued = \<lparr>g_token = ex_id (CHR ''e'') 64, g_account = ex_id (CHR ''a'') 32, g_page = ex_id (CHR ''9'') 64,
     g_methods = [''nostr'', ''website''], g_website = Some (ex_id (CHR ''2'') 64), g_epoch = 4,
     g_expires = 1120000, g_delegation = 1200000, g_revoked = False, g_renewal = None\<rparr>"

theorem authorize_ends_prior_grants_witness:
  "\<exists>v d w w2. ex_authorize = (Inr (v, d), w) \<and> grant d (ex_id (CHR ''d'') 64) ex_world = (Inl grant_unavailable, w2)"
proof -
  have "returned ex_authorize (\<lambda>v d. ex_issued \<in> set (l_grants d) \<and> g_token ex_issued = gv_grant v
      \<and> (\<forall>x \<in> set (l_grants d). g_token x = gv_grant v \<longrightarrow> x = ex_issued)
      \<and> canonical d (ex_id (CHR ''a'') 32) = canonical d (g_account ex_issued))" by code_simp
  then obtain v d w where r: "ex_authorize = (Inr (v, d), w)" and "ex_issued \<in> set (l_grants d)"
    "g_token ex_issued = gv_grant v" "\<forall>x \<in> set (l_grants d). g_token x = gv_grant v \<longrightarrow> x = ex_issued"
    "canonical d (ex_id (CHR ''a'') 32) = canonical d (g_account ex_issued)"
    by (rule returnedE) blast
  moreover have "find_grant ex_ledger (ex_id (CHR ''d'') 64) = Some (ex_grant (CHR ''d''))"
    "g_account (ex_grant (CHR ''d'')) = ex_id (CHR ''a'') 32" "g_token ex_issued \<noteq> ex_id (CHR ''d'') 64"
    "au_link ex_link \<or> au_settings ex_link \<noteq> None" by code_simp+
  ultimately show ?thesis
    using authorize_ends_prior_grants [OF r, of "ex_id (CHR ''d'') 64" "ex_grant (CHR ''d'')" ex_issued ex_world]
    by metis
qed

subsection \<open>Revocation and renewal\<close>

text \<open>
  C6: disconnecting ends the whole delegation of a page.  After \<open>revokeGrant\<close> every grant of the
  same account, page and delegation deadline, retained renewal tokens included, is refused, whatever
  the clocks say.
\<close>

theorem revoke_ends_delegation:
  assumes "revoke_grant token data w = (Inr (u, data'), w')" and "find_grant data token = Some v"
    and "find_grant data other = Some g" and "canonical data (g_account g) = canonical data (g_account v)"
    and "g_page g = g_page v" and "g_delegation g = g_delegation v"
  shows "\<exists>w2. grant data' other w1 = (Inl grant_unavailable, w2)"
  using revoke_grant_refuses [OF assms] .

theorem revoke_ends_delegation_witness:
  "\<exists>u d w w2. revoke_grant (ex_id (CHR ''c'') 64) ex_ledger ex_world = (Inr (u, d), w)
     \<and> grant d (ex_id (CHR ''d'') 64) ex_world = (Inl grant_unavailable, w2)"
proof -
  have "returned (revoke_grant (ex_id (CHR ''c'') 64) ex_ledger ex_world) (\<lambda>_ _. True)" by code_simp
  then obtain u d w where r: "revoke_grant (ex_id (CHR ''c'') 64) ex_ledger ex_world = (Inr (u, d), w)"
    by (rule returnedE)
  have c: "find_grant ex_ledger (ex_id (CHR ''c'') 64) = Some (ex_grant (CHR ''c''))"
    and d: "find_grant ex_ledger (ex_id (CHR ''d'') 64) = Some (ex_grant (CHR ''d''))" by code_simp+
  obtain w2 where "grant d (ex_id (CHR ''d'') 64) ex_world = (Inl grant_unavailable, w2)"
    using revoke_ends_delegation [OF r c d, of ex_world] by (auto simp: ex_grant_def)
  with r show ?thesis by blast
qed

text \<open>
  Renewal is idempotent.  Once a renewal returned, asking for it again with the same
  operation id, on any clock, either fails or gives the same new grant and leaves the ledger as it
  is; asking with another operation id never returns a grant.
\<close>

theorem renew_replay:
  assumes "renew c token oid website data w = (Inr (view, data'), w')"
    and "renew c token oid2 website2 data' w2 = (Inr (view2, data2), w3)"
  shows "oid2 = oid \<and> data2 = data' \<and> gv_grant view2 = gv_grant view"
proof -
  have "\<exists>v. find_grant data' token = Some v \<and> g_renewal v = Some (oid, gv_grant view)"
    using assms(1)
  proof (cases rule: renew_Inr)
    case (issued v a nxt w1)
    then show ?thesis
      using find_grant_set_renewal [OF find_grant_append [OF issued(1)]] grant_response_Inr(1) [OF issued(7)] by simp
  qed simp
  then obtain v where v: "find_grant data' token = Some v" "g_renewal v = Some (oid, gv_grant view)" by blast
  from assms(2) show ?thesis
    by (cases rule: renew_Inr) (use v in simp_all)
qed

abbreviation ex_renew :: "ledger \<Rightarrow> (budget_error + grant_view \<times> ledger) \<times> world" where
  "ex_renew data \<equiv> renew ex_config (ex_id (CHR ''c'') 64) (ex_id (CHR ''7'') 32) None data ex_world"

definition ex_renewed :: ledger where
  "ex_renewed = ex_ledger\<lparr>l_grants := [(ex_grant (CHR ''c''))\<lparr>g_renewal := Some (ex_id (CHR ''7'') 32, ex_id (CHR ''e'') 64)\<rparr>,
     ex_grant (CHR ''d''),
     (ex_grant (CHR ''e''))\<lparr>g_expires := 1120000\<rparr>]\<rparr>"

definition ex_world2 :: world where
  "ex_world2 = ex_world\<lparr>expiries := expiries ex_world @ [(ex_id (CHR ''e'') 64, \<lparr>e_grant = 60, e_delegation = 70\<rparr>)]\<rparr>"

theorem renew_replay_witness:
  "\<exists>v w v2 w2. ex_renew ex_ledger = (Inr (v, ex_renewed), w)
     \<and> renew ex_config (ex_id (CHR ''c'') 64) (ex_id (CHR ''7'') 32) None ex_renewed ex_world2 = (Inr (v2, ex_renewed), w2)
     \<and> gv_grant v2 = gv_grant v"
proof -
  have "returned (ex_renew ex_ledger) (\<lambda>_ d. d = ex_renewed)" by code_simp
  then obtain v w where r: "ex_renew ex_ledger = (Inr (v, ex_renewed), w)" by (rule returnedE) blast
  have "returned (renew ex_config (ex_id (CHR ''c'') 64) (ex_id (CHR ''7'') 32) None ex_renewed ex_world2) (\<lambda>_ _. True)"
    by code_simp
  then obtain v2 d2 w2 where
    s: "renew ex_config (ex_id (CHR ''c'') 64) (ex_id (CHR ''7'') 32) None ex_renewed ex_world2 = (Inr (v2, d2), w2)"
    by (rule returnedE)
  show ?thesis using r s renew_replay [OF r s] by blast
qed

text \<open>
  A renewal never outlives the delegation.  The new grant has the delegation deadline of the
  grant it renews on both clocks, the wall deadline in the ledger and the monotonic deadline of this
  process, and its own wall deadline is not later.
\<close>

theorem renew_keeps_deadline:
  assumes "renew c token oid website data w = (Inr (view, data'), w')" and "find_grant data token = Some v"
    and "g_renewal v = None" and "jget (expiries w) token = Some e"
  shows "gv_delegation view = g_delegation v \<and> gv_expires view \<le> g_delegation v
    \<and> (\<exists>e'. jget (expiries w') (gv_grant view) = Some e' \<and> e_delegation e' = e_delegation e)"
  using assms(1)
proof (cases rule: renew_Inr)
  case (issued v' a nxt w1)
  then have v: "v' = v" "g_token v = token" using assms(2) by (auto dest: find_grant_SomeD)
  obtain e' where "jget (expiries w') (g_token nxt) = Some e'" "e_delegation e' = e_delegation e"
    using issue_expiry [OF issued(5), of e] assms(4) issued(4) v by auto
  then show ?thesis
    using issue_Inr(7,8) [OF issued(5)] grant_response_Inr(1,3,4) [OF issued(7)] v by simp
qed (use assms(2,3) in simp)

theorem renew_keeps_deadline_witness:
  "\<exists>v d w e'. ex_renew ex_ledger = (Inr (v, d), w) \<and> gv_delegation v = 1200000
     \<and> jget (expiries w) (gv_grant v) = Some e' \<and> e_delegation e' = 70"
proof -
  have "returned (ex_renew ex_ledger) (\<lambda>_ _. True)" by code_simp
  then obtain v d w where r: "ex_renew ex_ledger = (Inr (v, d), w)" by (rule returnedE)
  have c: "find_grant ex_ledger (ex_id (CHR ''c'') 64) = Some (ex_grant (CHR ''c''))"
    and n: "g_renewal (ex_grant (CHR ''c'')) = None"
    and e: "jget (expiries ex_world) (ex_id (CHR ''c'') 64) = Some \<lparr>e_grant = 50, e_delegation = 70\<rparr>" by code_simp+
  show ?thesis using renew_keeps_deadline [OF r c n e] r by (auto simp: ex_grant_def)
qed

subsection \<open>Durability\<close>

lemma sound_ledger_live:
  assumes "sound_ledger c data"
  shows "r \<in> set (l_accounts data) \<Longrightarrow> \<exists>a. canonical data (row_id r) = Inr a"
    and "account_lookup (l_accounts data) i \<noteq> None \<Longrightarrow> \<exists>a. canonical data i = Inr a"
proof -
  show *: "r \<in> set (l_accounts data) \<Longrightarrow> \<exists>a. canonical data (row_id r) = Inr a" for r
    using assms by (cases "canonical data (row_id r)")
      (auto simp: sound_ledger_def ledger_valid_def account_row_valid_def canonical_def)
  assume "account_lookup (l_accounts data) i \<noteq> None"
  then obtain r where "r \<in> set (l_accounts data)" "row_id r = i"
    by (auto simp: account_lookup_find dest: find_row_SomeD)
  with * [of r] show "\<exists>a. canonical data i = Inr a" by simp
qed

text \<open>
  C9: whatever requests, cancellations, clock readings and store failures arrive, in any order, the
  durable ledger always passes the checks of \<open>validate\<close>, so every identity and every grant in it
  resolves to a live account; and the number of operations in flight never exceeds the capacity.
\<close>

theorem durable_ledger_sound:
  assumes "budget_reachable c s"
  shows "header_valid (bu_state s) \<and> ledger_valid c (bu_state s)
    \<and> (\<forall>i \<in> set (l_identities (bu_state s)). \<exists>a. canonical (bu_state s) (i_account i) = Inr a
         \<and> find_row (l_accounts (bu_state s)) (a_id a) = Some (Live a))
    \<and> (\<forall>g \<in> set (l_grants (bu_state s)). \<exists>a. canonical (bu_state s) (g_account g) = Inr a
         \<and> find_row (l_accounts (bu_state s)) (a_id a) = Some (Live a))
    \<and> bu_pending s \<le> mutation_capacity c \<and> length (bu_waiting s) \<le> bu_pending s"
proof -
  have inv: "budget_inv c s" using assms by (rule budget_inv_reachable)
  then have s: "sound_ledger c (bu_state s)" by (simp add: budget_inv_def)
  have "\<forall>i \<in> set (l_identities (bu_state s)). account_lookup (l_accounts (bu_state s)) (i_account i) \<noteq> None"
    "\<forall>g \<in> set (l_grants (bu_state s)). account_lookup (l_accounts (bu_state s)) (g_account g) \<noteq> None"
    using s by (auto simp: sound_ledger_def ledger_valid_def identity_row_valid_def grant_row_valid_def)
  then show ?thesis
    using s inv sound_ledger_live(2) [OF s] canonical_live by (auto simp: sound_ledger_def budget_inv_def) metis+
qed

theorem durable_ledger_sound_witness:
  "\<exists>data w. open_ledger ex_config (Some ex_ledger) (ex_world\<lparr>highest_wall := 0, expiries := []\<rparr>) = (Inr data, w)
     \<and> ledger_valid ex_config (bu_state (opened data w))"
proof -
  have "case fst (open_ledger ex_config (Some ex_ledger) (ex_world\<lparr>highest_wall := 0, expiries := []\<rparr>)) of
      Inl e \<Rightarrow> False | Inr d \<Rightarrow> True" by code_simp
  then obtain data w where o: "open_ledger ex_config (Some ex_ledger) (ex_world\<lparr>highest_wall := 0, expiries := []\<rparr>) = (Inr data, w)"
    by (cases "open_ledger ex_config (Some ex_ledger) (ex_world\<lparr>highest_wall := 0, expiries := []\<rparr>)")
      (auto split: sum.splits)
  have "budget_reachable ex_config (opened data w)"
    by (rule budget_reachable.opens [OF _ o]) (simp add: fresh_world_def)
  with o durable_ledger_sound show ?thesis by blast
qed











abbreviation ex_open :: "(budget_error + ledger) \<times> world" where
  "ex_open \<equiv> open_ledger ex_config (Some ex_ledger) (ex_world\<lparr>highest_wall := 0, expiries := []\<rparr>)"

definition ex_entry :: entry where
  "ex_entry = \<lparr>en_id = 1, en_request = RevokeGrant (ex_id (CHR ''c'') 64)\<rparr>"

definition ex_begun :: "budget \<Rightarrow> budget" where
  "ex_begun s = begin_batch (transact ex_config ex_entry s)"

definition ex_turned :: "budget \<Rightarrow> budget" where
  "ex_turned s = (let s2 = ex_begun s in apply_next ex_config ex_entry [] (the (bu_batch s2)) s2)"

lemma ex_opened: "ex_open = (Inr ex_ledger, snd ex_open)" "budget_reachable ex_config (opened ex_ledger (snd ex_open))"
proof -
  have o1: "fst ex_open = Inr ex_ledger" by code_simp
  show o: "ex_open = (Inr ex_ledger, snd ex_open)" using o1 by (simp add: prod_eq_iff)
  show "budget_reachable ex_config (opened ex_ledger (snd ex_open))"
    by (rule budget_reachable.opens [OF _ o]) (simp add: fresh_world_def)
qed

lemma ex_begun_reachable:
  assumes "budget_reachable ex_config s" and "bu_batch s = None" and "bu_waiting s = []" and "bu_pending s = 0"
    and "\<not> bu_stopping s" and "\<not> bu_broken s"
  shows "budget_reachable ex_config (ex_begun s)" "budget_step ex_config (ex_begun s) (ex_turned s)"
    "bu_batch (ex_begun s) = Some \<lparr>b_entries = [ex_entry], b_working = bu_state s, b_writes = False, b_held = []\<rparr>"
proof -
  have "budget_reachable ex_config (transact ex_config ex_entry s)"
    using assms(1) by (rule budget_reachable.steps) (rule budget_step.submit)
  then show "budget_reachable ex_config (ex_begun s)"
    unfolding ex_begun_def by (rule budget_reachable.steps) (rule budget_step.start, use assms in \<open>simp_all add: transact_def ex_config_def\<close>)
  show b: "bu_batch (ex_begun s) = Some \<lparr>b_entries = [ex_entry], b_working = bu_state s, b_writes = False, b_held = []\<rparr>"
    using assms by (simp add: ex_begun_def begin_batch_def transact_def ex_config_def)
  show "budget_step ex_config (ex_begun s) (ex_turned s)"
    unfolding ex_turned_def Let_def by (rule budget_step.turn) (simp_all add: b)
qed



lemma broken_step:
  assumes "budget_step c s t" and "budget_inv c s" and "bu_broken s"
  shows "bu_broken t \<and> bu_state t = bu_state s \<and> (\<exists>os. bu_settled t = bu_settled s @ os \<and> (\<forall>r \<in> set os. isl (snd r)))"
  using assms(1)
proof (cases rule: budget_step.cases)
  case (submit e)
  then show ?thesis using assms(3) by (auto simp: transact_def)
next
  case (turn b e es)
  have "apply_entry c (bu_broken s) (en_id e \<in> set (bu_aborted s)) (en_request e) (b_working b) (bu_world s)
      = (Inl cancelled, bu_world s)"
    using assms(3) by (simp add: apply_entry_def throw_def)
  then show ?thesis using turn assms(3) by (simp add: apply_next_Inl settle_def)
next
  case (finish b stored)
  then show ?thesis using assms(2,3) by (auto simp: budget_inv_def batch_inv_def finish_batch_def)
next
  case (closed stored)
  then show ?thesis using assms(3) by (simp add: finish_close_def Let_def)
qed (use assms in \<open>auto simp: begin_batch_def begin_close_def\<close>)

text \<open>
  A failed write is final.  Once the store failed, whatever happens next the durable ledger
  never changes again and no call ever succeeds, reads included, until the ledger is opened anew.
\<close>

theorem failed_write_is_final:
  assumes "budget_reachable c s" and "bu_broken s" and "(budget_step c)\<^sup>*\<^sup>* s t"
  shows "bu_broken t \<and> bu_state t = bu_state s
    \<and> (\<exists>os. bu_settled t = bu_settled s @ os \<and> (\<forall>r \<in> set os. isl (snd r)))"
proof -
  have "budget_reachable c t \<and> bu_broken t \<and> bu_state t = bu_state s
    \<and> (\<exists>os. bu_settled t = bu_settled s @ os \<and> (\<forall>r \<in> set os. isl (snd r)))"
    using assms(3)
  proof (induction rule: rtranclp_induct)
    case base
    then show ?case using assms by auto
  next
    case (step y z)
    then obtain os where os: "bu_settled y = bu_settled s @ os" "\<forall>r \<in> set os. isl (snd r)" by blast
    moreover obtain os' where "bu_settled z = bu_settled y @ os'" "\<forall>r \<in> set os'. isl (snd r)"
      "bu_broken z" "bu_state z = bu_state y"
      using broken_step [OF step(2)] step.IH budget_inv_reachable by blast
    ultimately have "bu_settled z = bu_settled s @ (os @ os') \<and> (\<forall>r \<in> set (os @ os'). isl (snd r))"
      by auto
    then show ?case
      using step \<open>bu_broken z\<close> \<open>bu_state z = bu_state y\<close> budget_reachable.steps by metis
  qed
  then show ?thesis by blast
qed

lemma budget_reachable_steps: "(budget_step c)\<^sup>*\<^sup>* s t \<Longrightarrow> budget_reachable c s \<Longrightarrow> budget_reachable c t"
  by (induction rule: rtranclp_induct) (auto intro: budget_reachable.steps)

definition ex_failed :: "budget \<Rightarrow> budget" where
  "ex_failed s = finish_batch False (the (bu_batch (ex_turned s))) (ex_turned s)"

lemma ex_failed_reachable:
  assumes "budget_reachable ex_config s" and "bu_batch s = None" and "bu_waiting s = []" and "bu_pending s = 0"
    and "\<not> bu_stopping s" and "\<not> bu_broken s" and "bu_batch (ex_turned s) = Some b" and "b_entries b = []"
  shows "budget_reachable ex_config (ex_failed s)"
proof -
  have "budget_reachable ex_config (ex_turned s)"
    using ex_begun_reachable(1,2) [OF assms(1-6)] by (rule budget_reachable.steps)
  then show ?thesis
    unfolding ex_failed_def using assms(7,8)
    by (rule_tac budget_reachable.steps) (auto intro: budget_step.finish)
qed

theorem failed_write_is_final_witness:
  "\<exists>s. budget_reachable ex_config s \<and> bu_broken s \<and> bu_state s = ex_ledger
     \<and> bu_state (transact ex_config ex_entry s) = ex_ledger"
proof -
  define w where "w = snd ex_open"
  define s where "s = opened ex_ledger w"
  have s: "budget_reachable ex_config s" using ex_opened(2) by (simp add: s_def w_def)
  have t: "case bu_batch (ex_turned s) of None \<Rightarrow> False | Some b \<Rightarrow> b_entries b = [] \<and> b_writes b"
    unfolding s_def w_def by code_simp
  then obtain b where b: "bu_batch (ex_turned s) = Some b" "b_entries b = []" "b_writes b"
    by (auto split: option.splits)
  have f: "budget_reachable ex_config (ex_failed s)"
    by (rule ex_failed_reachable [OF s _ _ _ _ _ b(1,2)]) (simp_all add: s_def opened_def)
  have st: "bu_state (ex_turned s) = ex_ledger" unfolding s_def w_def by code_simp
  have e: "bu_broken (ex_failed s)" "bu_state (ex_failed s) = ex_ledger"
    using b st by (simp_all add: ex_failed_def finish_batch_def settle_def)
  have "(budget_step ex_config)\<^sup>*\<^sup>* (ex_failed s) (transact ex_config ex_entry (ex_failed s))"
    by (simp add: r_into_rtranclp budget_step.submit)
  with f e failed_write_is_final [OF f e(1)] show ?thesis by metis
qed

end
