(* ===== verification/Bytes.thy ===== *)
theory Bytes
  imports Json "HOL-Library.Word"
begin

text \<open>
  Buffers: lists of 8-bit words, the UTF-8 encoding of strings, and big-endian integers.

  \<open>utf8_text\<close> is \<open>buffer.toString("utf8")\<close>.  ASCII bytes decode to themselves and never belong
  to a longer sequence; every other byte reads as the code unit 255, which stands for the
  characters that a string here cannot hold, so that the structure of a JSON text and its ASCII
  strings are exact.
\<close>

type_synonym byte = "8 word"

definition utf8_text :: "byte list \<Rightarrow> string" where
  "utf8_text bs = map (\<lambda>b. if b < 128 then char_of (unat b) else CHR 0xFF) bs"

definition utf8_char :: "char \<Rightarrow> byte list" where
  "utf8_char c = (let n = of_char c :: nat in
     if n < 128 then [word_of_nat n] else [word_of_nat (192 + n div 64), word_of_nat (128 + n mod 64)])"

definition utf8_bytes :: "string \<Rightarrow> byte list" where
  "utf8_bytes s = concat (map utf8_char s)"

definition ascii :: "char \<Rightarrow> bool" where
  "ascii c \<longleftrightarrow> of_char c < (128 :: nat)"

lemma length_utf8_char: "length (utf8_char c) = (if of_char c < (128 :: nat) then 1 else 2)"
  by (simp add: utf8_char_def Let_def)

lemma length_utf8_bytes: "length (utf8_bytes s) = utf8_length s"
  by (induction s) (simp_all add: utf8_bytes_def utf8_length_def length_utf8_char)

lemma utf8_bytes_append [simp]: "utf8_bytes (s @ t) = utf8_bytes s @ utf8_bytes t"
  by (simp add: utf8_bytes_def)

lemma utf8_text_Nil [simp]: "utf8_text [] = []" "utf8_bytes [] = []"
  by (simp_all add: utf8_text_def utf8_bytes_def)

lemma utf8_text_char: "ascii c \<Longrightarrow> utf8_text (utf8_char c) = [c]"
  by (simp add: ascii_def utf8_text_def utf8_char_def Let_def word_less_nat_alt unat_of_nat)

lemma utf8_text_bytes: "list_all ascii s \<Longrightarrow> utf8_text (utf8_bytes s) = s"
proof (induction s)
  case (Cons c s)
  have "utf8_bytes (c # s) = utf8_char c @ utf8_bytes s" by (simp add: utf8_bytes_def)
  then have "utf8_text (utf8_bytes (c # s)) = utf8_text (utf8_char c) @ utf8_text (utf8_bytes s)"
    by (simp add: utf8_text_def)
  with Cons utf8_text_char [of c] show ?case by simp
qed simp

subsection \<open>Big-endian integers\<close>

text \<open>\<open>writeUInt32BE\<close> and \<open>readUInt32BE\<close>.\<close>

definition be32 :: "nat \<Rightarrow> byte list" where
  "be32 n = [word_of_nat (n div 16777216), word_of_nat (n div 65536), word_of_nat (n div 256), word_of_nat n]"

definition read_be :: "byte list \<Rightarrow> nat" where
  "read_be bs = foldl (\<lambda>n b. 256 * n + unat b) 0 bs"

lemma length_be32 [simp]: "length (be32 n) = 4"
  by (simp add: be32_def)

lemma read_be32: "n < 4294967296 \<Longrightarrow> read_be (be32 n) = n"
proof -
  assume n: "n < 4294967296"
  define a b c where "a = n div 256" and "b = a div 256" and "c = b div 256"
  have "read_be (be32 n) = 256 * (256 * (256 * (c mod 256) + b mod 256) + a mod 256) + n mod 256"
    by (simp add: read_be_def be32_def unat_of_nat a_def b_def c_def div_mult2_eq [symmetric])
  also have "c mod 256 = c" using n by (simp add: a_def b_def c_def div_mult2_eq [symmetric])
  also have "256 * c + b mod 256 = b" by (simp add: c_def)
  also have "256 * b + a mod 256 = a" by (simp add: b_def)
  also have "256 * a + n mod 256 = n" by (simp add: a_def)
  finally show "read_be (be32 n) = n" .
qed

lemma read_be_bound: "read_be bs < 256 ^ length bs"
proof (induction bs rule: rev_induct)
  case (snoc b bs)
  have "unat b < 256" using unsigned_less [of b] by simp
  with snoc show ?case by (simp add: read_be_def)
qed (simp add: read_be_def)

subsection \<open>JSON texts are ASCII when their strings are\<close>

fun ascii_js :: "js \<Rightarrow> bool" where
  "ascii_js (JStr s) = list_all ascii s"
| "ascii_js (JArr vs) = (\<forall>v \<in> set vs. ascii_js v)"
| "ascii_js (JObj m) = (\<forall>e \<in> set m. list_all ascii (fst e) \<and> ascii_js (snd e))"
| "ascii_js _ = True"

lemma list_all_commas: "list_all p (commas xs) \<longleftrightarrow> (xs = [] \<or> (\<forall>x \<in> set xs. list_all p x) \<and> (length xs = 1 \<or> p CHR '',''))"
  by (induction xs rule: commas.induct) auto

lemma digit_ascii: "digit c \<Longrightarrow> ascii c"
  by (simp add: digit_iff ascii_def)

lemma nat_text_ascii: "list_all ascii (nat_text n)"
  using nat_text_digits [of n] by (auto simp: list_all_iff intro: digit_ascii)

lemma escape_ascii: "ascii c \<Longrightarrow> list_all ascii (escape_char c)"
  by (auto simp: escape_char_def ascii_def hex_digit_char_def control_char_def)

lemma string_text_ascii: "list_all ascii s \<Longrightarrow> list_all ascii (string_text s)"
proof -
  have "list_all ascii s \<Longrightarrow> list_all ascii (concat (map escape_char s))"
    by (induction s) (simp_all add: escape_ascii)
  then show "list_all ascii s \<Longrightarrow> list_all ascii (string_text s)"
    by (simp add: string_text_def ascii_def)
qed

lemma ascii_punctuation:
  "ascii CHR '',''" "ascii CHR '':''" "ascii CHR ''{''" "ascii CHR ''}''" "ascii CHR ''[''" "ascii CHR '']''"
  by (simp_all add: ascii_def)

lemma json_text_ascii: "ascii_js v \<Longrightarrow> list_all ascii (json_text v)"
proof (induction v)
  case (JDec m k)
  show ?case by (simp add: dec_text_def Let_def list_all_iff ascii_def) (use nat_text_ascii in \<open>auto simp: list_all_iff ascii_def dest: in_set_takeD in_set_dropD\<close>)
next
  case (JInt i)
  show ?case using nat_text_ascii by (simp add: int_text_def) (simp add: ascii_def)
next
  case (JStr s)
  then show ?case by (simp add: string_text_ascii)
next
  case (JArr vs)
  then show ?case by (auto simp: list_all_commas ascii_punctuation)
next
  case (JObj m)
  have "list_all ascii (json_text v)" if "(k, v) \<in> set m" for k v
    using JObj.IH [OF that, of v] JObj.prems that by (auto simp: snds.simps)
  moreover have "list_all ascii (string_text k)" if "(k, v) \<in> set m" for k v
    using JObj.prems that by (fastforce intro: string_text_ascii)
  ultimately show ?case by (auto simp: list_all_commas ascii_punctuation)
qed (simp_all add: ascii_def)

lemma json_bytes_roundtrip:
  "json_wf v \<Longrightarrow> ascii_js v \<Longrightarrow> json_parse (utf8_text (utf8_bytes (json_text v))) = Some v"
  by (simp add: utf8_text_bytes json_text_ascii json_roundtrip)

subsection \<open>The lengths of texts\<close>

lemma length_nat_text: "n < 10 ^ k \<Longrightarrow> 0 < k \<Longrightarrow> length (nat_text n) \<le> k"
proof (induction n arbitrary: k rule: nat_text.induct)
  case (1 n)
  show ?case
  proof (cases "n < 10")
    case True
    then show ?thesis using "1.prems" by (simp add: nat_text.simps [of n])
  next
    case False
    obtain j where k: "k = Suc j" using "1.prems"(2) by (cases k) auto
    have j: "0 < j" using False "1.prems"(1) k by (cases j) simp_all
    have "n div 10 < 10 ^ j" using "1.prems"(1) k by (intro less_mult_imp_div_less) (simp add: mult.commute)
    then have "length (nat_text (n div 10)) \<le> j" using "1.IH" [OF False] j by blast
    moreover have "length (nat_text n) = Suc (length (nat_text (n div 10)))"
      using False by (subst nat_text.simps) simp
    ultimately show ?thesis using k by simp
  qed
qed

lemma hex_ascii: "lower_hex_char c \<Longrightarrow> ascii c"
  by (auto simp: lower_hex_char_def ascii_def less_eq_char_def)

lemma hex_string_ascii: "hex_string s n \<Longrightarrow> list_all ascii s"
  by (auto simp: hex_string_def list_all_iff intro: hex_ascii)

lemma length_escape_char: "length (escape_char c) \<le> 6"
  by (simp add: escape_char_def)

lemma length_string_text: "length (string_text s) \<le> 2 + 6 * length s"
proof -
  have "length (concat (map escape_char s)) \<le> 6 * length s"
  proof (induction s)
    case (Cons c s)
    then show ?case using length_escape_char [of c] by simp
  qed simp
  then show ?thesis by (simp add: string_text_def)
qed

lemma ascii_utf8_length: "list_all ascii s \<Longrightarrow> length (utf8_bytes s) = length s"
  unfolding length_utf8_bytes utf8_length_def by (induction s) (auto simp: ascii_def)

end
