(* ===== verification/Chunked.thy ===== *)
theory Chunked
  imports Js_Prelude
begin

text \<open>
  The interface of a handler that is fed a byte stream in chunks, as the transport delivers
  it.  \<open>feed\<close> is the handler, \<open>live\<close> says that it still listens, and \<open>view\<close> is what
  matters of its state, so that a handler may keep its unparsed bytes in whatever form is cheap.
\<close>

locale chunked_decoder =
  fixes feed :: "'s \<Rightarrow> 'a list \<Rightarrow> 's" and view :: "'s \<Rightarrow> 'v" and live :: "'s \<Rightarrow> bool" and inv :: "'s \<Rightarrow> bool"
  assumes inv_feed: "inv s \<Longrightarrow> inv (feed s a)"
    and feed_view: "inv s \<Longrightarrow> inv t \<Longrightarrow> view s = view t \<Longrightarrow> view (feed s a) = view (feed t a)"
    and feed_append: "inv s \<Longrightarrow> live (feed s a) \<Longrightarrow> view (feed (feed s a) b) = view (feed s (a @ b))"
    and feed_dead: "\<not> live s \<Longrightarrow> feed s b = s"
    and live_view: "view s = view t \<Longrightarrow> live s = live t"
begin

lemma inv_feeds: "inv s \<Longrightarrow> inv (foldl feed s cs)"
  by (induction cs arbitrary: s) (simp_all add: inv_feed)

lemma dead_feeds: "\<not> live s \<Longrightarrow> foldl feed s cs = s"
  by (induction cs) (simp_all add: feed_dead)

text \<open>As long as the handler listens, it cannot tell how the stream was cut.\<close>

lemma feeds_concat:
  assumes "inv s" and "live (foldl feed s cs)"
  shows "view (feed (foldl feed s cs) c) = view (feed s (concat cs @ c))"
  using assms(2)
proof (induction cs arbitrary: c rule: rev_induct)
  case (snoc d cs)
  let ?t = "foldl feed s cs"
  have step: "live (feed ?t d)" using snoc.prems by simp
  have "live ?t"
  proof (rule ccontr)
    assume "\<not> live ?t"
    then show False using step feed_dead [of ?t d] by simp
  qed
  then have vd: "view (feed ?t d) = view (feed s (concat cs @ d))"
    and vc: "view (feed ?t (d @ c)) = view (feed s (concat cs @ d @ c))"
    by (rule snoc.IH)+
  have "view (feed (feed ?t d) c) = view (feed ?t (d @ c))"
    using inv_feeds [OF assms(1)] step by (rule feed_append)
  with vc show ?case by simp
qed simp

text \<open>Whatever the cuts, the state is that of one feed of a prefix of the stream.\<close>

lemma feeds_prefix:
  assumes "inv s" and "cs \<noteq> []" and "live s"
  obtains ds es where "cs = ds @ es" and "ds \<noteq> []" and "view (foldl feed s cs) = view (feed s (concat ds))"
    and "live (foldl feed s cs) \<Longrightarrow> es = []"
proof -
  have "\<exists>ds es. cs = ds @ es \<and> ds \<noteq> [] \<and> view (foldl feed s cs) = view (feed s (concat ds))
      \<and> (live (foldl feed s cs) \<longrightarrow> es = [])"
    using assms(2)
  proof (induction cs rule: rev_induct)
    case (snoc c cs)
    show ?case
    proof (cases "live (foldl feed s cs)")
      case True
      then have "view (foldl feed s (cs @ [c])) = view (feed s (concat (cs @ [c])))"
        using feeds_concat [OF assms(1)] by simp
      then show ?thesis by (intro exI [of _ "cs @ [c]"] exI [of _ "[]"]) simp
    next
      case False
      then have "cs \<noteq> []" and same: "foldl feed s (cs @ [c]) = foldl feed s cs"
        using assms(3) feed_dead by auto
      then obtain ds es where "cs = ds @ es" "ds \<noteq> []" "view (foldl feed s cs) = view (feed s (concat ds))"
        using snoc.IH by blast
      with same False show ?thesis by (intro exI [of _ ds] exI [of _ "es @ [c]"]) simp
    qed
  qed simp
  then show thesis using that by blast
qed

end

text \<open>A handler that, once it stopped, does not depend on what follows in the stream either.\<close>

locale prefix_decoder = chunked_decoder +
  assumes dead_append: "inv s \<Longrightarrow> live s \<Longrightarrow> \<not> live (feed s a) \<Longrightarrow> view (feed s (a @ b)) = view (feed s a)"
begin

lemma feeds_all:
  assumes "inv s" and "live s" and "cs \<noteq> []"
  shows "view (foldl feed s cs) = view (feed s (concat cs))"
proof (rule feeds_prefix [OF assms(1,3,2)])
  fix ds es
  assume split: "cs = ds @ es" and v: "view (foldl feed s cs) = view (feed s (concat ds))"
    and es: "live (foldl feed s cs) \<Longrightarrow> es = []"
  show ?thesis
  proof (cases "live (feed s (concat ds))")
    case True
    then have "es = []" using es live_view [OF v] by simp
    with split v show ?thesis by simp
  next
    case False
    with dead_append [OF assms(1,2)] split v show ?thesis by simp
  qed
qed

end

text \<open>
  A handler that must stop exactly at the end of the stream: \<open>ok\<close> says that it stopped with
  success, which it never does when something follows.
\<close>

locale exact_decoder = chunked_decoder +
  fixes ok :: "'s \<Rightarrow> bool"
  assumes exact: "inv s \<Longrightarrow> live s \<Longrightarrow> \<not> live (feed s a) \<Longrightarrow> ok (feed s (a @ b)) \<Longrightarrow> b = []"
    and ok_view: "view s = view t \<Longrightarrow> ok s = ok t"
begin

text \<open>A stream that succeeds in one piece succeeds in any pieces, with the same result.\<close>

lemma feeds_ok:
  assumes "inv s" and "live s" and "cs \<noteq> []" and "ok (feed s (concat cs))"
  shows "view (foldl feed s cs) = view (feed s (concat cs))"
proof (rule feeds_prefix [OF assms(1,3,2)])
  fix ds es
  assume split: "cs = ds @ es" and v: "view (foldl feed s cs) = view (feed s (concat ds))"
    and es: "live (foldl feed s cs) \<Longrightarrow> es = []"
  show ?thesis
  proof (cases "live (feed s (concat ds))")
    case True
    then have "es = []" using es live_view [OF v] by simp
    with split v show ?thesis by simp
  next
    case False
    have "ok (feed s (concat ds @ concat es))" using assms(4) split by simp
    then have "concat es = []" using exact [OF assms(1,2) False] by blast
    then have "concat cs = concat ds" using split by simp
    with v show ?thesis by simp
  qed
qed

end

end
