(* ===== verification/Object_Transfer.thy ===== *)
theory Object_Transfer
  imports Bytes Chunked
begin

text \<open>
  The native object transfer, \<open>src/object-transfer.mjs\<close>: the frame codec, the three readers
  of frames (\<open>decodeFrames\<close>, \<open>readFirstFrame\<close>, \<open>receiveObject\<close>) and the two sides of a
  transfer.  A thrown \<open>Error\<close> is its message.  A reader is the function its \<open>data\<close> handler
  computes on the closure's variables.  SHA-256 and the contents of \<open>Buffer.allocUnsafe\<close> are
  parameters; the resolver of the serving side is its result.
\<close>

subsection \<open>Frames\<close>

definition header_bytes :: nat where "header_bytes = 8"
definition max_frame_bytes :: nat where "max_frame_bytes = 65536"
definition default_max_object_bytes :: int where "default_max_object_bytes = 268435456"

definition frame_request :: nat where "frame_request = 1"
definition frame_meta :: nat where "frame_meta = 2"
definition frame_chunk :: nat where "frame_chunk = 3"
definition frame_eof :: nat where "frame_eof = 4"
definition frame_error :: nat where "frame_error = 5"

lemmas frame_consts = header_bytes_def max_frame_bytes_def frame_request_def frame_meta_def
  frame_chunk_def frame_eof_def frame_error_def

type_synonym frame = "nat \<times> byte list"

definition parse_json_object :: "byte list \<Rightarrow> string + js" where
  "parse_json_object payload =
     (case json_parse (utf8_text payload) of
        None \<Rightarrow> Inl ''SyntaxError''
      | Some v \<Rightarrow> if plain_object v then Inr v else Inl ''Expected a transfer object.'')"

definition request_id_char :: "char \<Rightarrow> bool" where
  "request_id_char c \<longleftrightarrow> (CHR ''a'' \<le> c \<and> c \<le> CHR ''z'') \<or> (CHR ''A'' \<le> c \<and> c \<le> CHR ''Z'')
     \<or> (CHR ''0'' \<le> c \<and> c \<le> CHR ''9'') \<or> c = CHR ''_'' \<or> c = CHR ''-''"

fun request_id_valid :: "js \<Rightarrow> bool" where
  "request_id_valid (JStr s) \<longleftrightarrow> 8 \<le> length s \<and> length s \<le> 64 \<and> list_all request_id_char s"
| "request_id_valid _ = False"

fun size_valid :: "int \<Rightarrow> js \<Rightarrow> bool" where
  "size_valid bound (JInt n) \<longleftrightarrow> safe_int n \<and> 0 \<le> n \<and> n \<le> bound"
| "size_valid bound _ = False"

definition validate_object_identity :: "js \<Rightarrow> int \<Rightarrow> string + unit" where
  "validate_object_identity v max_object_bytes =
     (if \<not> request_id_valid (member v ''requestId'') then Inl ''Invalid transfer request identifier.''
      else if \<not> hex_string (js_string (member v ''sha256'')) 64 then Inl ''Invalid transfer digest.''
      else if \<not> size_valid max_object_bytes (member v ''size'') then Inl ''Invalid transfer size.''
      else Inr ())"

definition encode_frame :: "nat \<Rightarrow> byte list \<Rightarrow> string + byte list" where
  "encode_frame type payload =
     (if type < frame_request \<or> type > frame_error then Inl ''Invalid transfer frame type.''
      else if length payload > max_frame_bytes then Inl ''Transfer frame is too large.''
      else Inr ([0x52, 0x53, 1, word_of_nat type] @ be32 (length payload) @ payload))"

text \<open>The header checks, written out alike in the three readers: the type and the payload length.\<close>

definition frame_header :: "byte list \<Rightarrow> string + nat \<times> nat" where
  "frame_header pending =
     (if pending ! 0 \<noteq> 0x52 \<or> pending ! 1 \<noteq> 0x53 \<or> pending ! 2 \<noteq> 1 then Inl ''Invalid transfer frame header.''
      else (let type = unat (pending ! 3); len = read_be (take 4 (drop 4 pending)) in
        if type < frame_request \<or> type > frame_error then Inl ''Invalid transfer frame type.''
        else if len > max_frame_bytes then Inl ''Transfer frame is too large.''
        else Inr (type, len)))"

subsection \<open>\<open>decodeFrames\<close>\<close>

record decoder =
  dc_pending :: "byte list"
  dc_frames :: "frame list"
  dc_error :: "string option"

text \<open>The inner loop: the frames it yields, and the bytes left or the error thrown.\<close>

function decode_loop :: "byte list \<Rightarrow> frame list \<times> (string + byte list)" where
  "decode_loop pending =
     (if length pending < header_bytes then ([], Inr pending)
      else (case frame_header pending of
          Inl e \<Rightarrow> ([], Inl e)
        | Inr (type, len) \<Rightarrow>
            if length pending < header_bytes + len then ([], Inr pending)
            else (let (fs, r) = decode_loop (drop (header_bytes + len) pending)
                  in ((type, take len (drop header_bytes pending)) # fs, r))))"
  by pat_completeness auto
termination by (relation "measure length") (auto simp: header_bytes_def)

declare decode_loop.simps [simp del]

definition decode_chunk :: "decoder \<Rightarrow> byte list \<Rightarrow> decoder" where
  "decode_chunk s chunk =
     (if dc_error s \<noteq> None then s
      else (case decode_loop (dc_pending s @ chunk) of
          (fs, Inl e) \<Rightarrow> s\<lparr>dc_frames := dc_frames s @ fs, dc_error := Some e\<rparr>
        | (fs, Inr p) \<Rightarrow> s\<lparr>dc_frames := dc_frames s @ fs, dc_pending := p\<rparr>))"

definition decode_end :: "decoder \<Rightarrow> decoder" where
  "decode_end s =
     (if dc_error s = None \<and> dc_pending s \<noteq> [] then s\<lparr>dc_error := Some ''Truncated transfer frame.''\<rparr> else s)"

definition decoder_start :: decoder where
  "decoder_start = \<lparr>dc_pending = [], dc_frames = [], dc_error = None\<rparr>"

text \<open>The frames that the generator yields over a whole stream, and the error it ends with.\<close>

definition decode_frames :: "byte list list \<Rightarrow> frame list \<times> string option" where
  "decode_frames chunks =
     (let s = decode_end (foldl decode_chunk decoder_start chunks) in (dc_frames s, dc_error s))"

subsection \<open>\<open>readFirstFrame\<close>\<close>

record first_reader =
  ff_pending :: "byte list"
  ff_result :: "(string + frame) option"

definition first_start :: first_reader where
  "first_start = \<lparr>ff_pending = [], ff_result = None\<rparr>"

definition first_data :: "first_reader \<Rightarrow> byte list \<Rightarrow> first_reader" where
  "first_data s chunk =
     (if ff_result s \<noteq> None then s
      else (let pending = ff_pending s @ chunk; s1 = s\<lparr>ff_pending := pending\<rparr> in
        if length pending < header_bytes then s1
        else (case frame_header pending of
            Inl e \<Rightarrow> s1\<lparr>ff_result := Some (Inl e)\<rparr>
          | Inr (type, len) \<Rightarrow>
              if length pending < header_bytes + len then s1
              else if length pending \<noteq> header_bytes + len
              then s1\<lparr>ff_result := Some (Inl ''Expected exactly one transfer request.'')\<rparr>
              else s1\<lparr>ff_result := Some (Inr (type, drop header_bytes pending))\<rparr>)))"

text \<open>\<open>onEnd\<close> and \<open>onError\<close>: the first of them settles the promise.\<close>

definition first_fail :: "string \<Rightarrow> first_reader \<Rightarrow> first_reader" where
  "first_fail e s = (if ff_result s = None then s\<lparr>ff_result := Some (Inl e)\<rparr> else s)"

definition first_end :: "first_reader \<Rightarrow> first_reader" where
  "first_end = first_fail ''Native peer closed before requesting an object.''"

subsection \<open>\<open>receiveObject\<close>\<close>

record transfer =
  t_expected :: js
  t_max :: int
  t_sha :: "byte list \<Rightarrow> string"
  t_alloc :: "nat \<Rightarrow> byte list"

datatype stream_state = Open | Ended | Destroyed

record receiver =
  rx_parts :: "byte list list"
  rx_part_bytes :: nat
  rx_needed :: nat
  rx_meta :: bool
  rx_received :: nat
  rx_chunks :: nat
  rx_object :: "byte list"
  rx_hash :: "byte list"
  rx_result :: "(string + byte list) option"
  rx_stream :: stream_state

definition receiver_start :: receiver where
  "receiver_start = \<lparr>rx_parts = [], rx_part_bytes = 0, rx_needed = header_bytes, rx_meta = False,
     rx_received = 0, rx_chunks = 0, rx_object = [], rx_hash = [], rx_result = None, rx_stream = Open\<rparr>"

definition expected_size :: "transfer \<Rightarrow> nat" where
  "expected_size t = (case member (t_expected t) ''size'' of JInt n \<Rightarrow> nat n | _ \<Rightarrow> 0)"

text \<open>\<open>Math.max(1, Math.ceil(size / MAX_FRAME_BYTES) * 4)\<close>\<close>

definition max_chunks :: "transfer \<Rightarrow> nat" where
  "max_chunks t = max 1 (((expected_size t + (max_frame_bytes - 1)) div max_frame_bytes) * 4)"

text \<open>\<open>payload.copy(object, offset)\<close>\<close>

definition copy_into :: "byte list \<Rightarrow> nat \<Rightarrow> byte list \<Rightarrow> byte list" where
  "copy_into object offset payload = take offset object @ payload @ drop (offset + length payload) object"

definition rx_on_meta :: "transfer \<Rightarrow> byte list \<Rightarrow> receiver \<Rightarrow> string + receiver" where
  "rx_on_meta t payload s =
     (if rx_meta s \<or> rx_received s \<noteq> 0 then Inl ''Unexpected transfer metadata.''
      else (case parse_json_object payload of
          Inl e \<Rightarrow> Inl e
        | Inr metadata \<Rightarrow>
            if \<not> strict_eq (member metadata ''sha256'') (member (t_expected t) ''sha256'')
               \<or> \<not> strict_eq (member metadata ''size'') (member (t_expected t) ''size'')
            then Inl ''Native peer returned unexpected object metadata.''
            else Inr (s\<lparr>rx_meta := True, rx_object := t_alloc t (expected_size t)\<rparr>)))"

definition rx_on_chunk :: "transfer \<Rightarrow> byte list \<Rightarrow> receiver \<Rightarrow> string + receiver" where
  "rx_on_chunk t payload s =
     (if \<not> rx_meta s then Inl ''Object bytes arrived before metadata.''
      else if payload = [] \<or> rx_chunks s \<ge> max_chunks t then Inl ''Native peer exceeded the object chunk budget.''
      else if rx_received s + length payload > expected_size t \<or> int (rx_received s + length payload) > t_max t
      then Inl ''Native peer exceeded the expected object size.''
      else Inr (s\<lparr>rx_chunks := rx_chunks s + 1, rx_object := copy_into (rx_object s) (rx_received s) payload,
                   rx_hash := rx_hash s @ payload, rx_received := rx_received s + length payload\<rparr>))"

definition rx_on_eof :: "transfer \<Rightarrow> byte list \<Rightarrow> byte list \<Rightarrow> receiver \<Rightarrow> string + receiver" where
  "rx_on_eof t payload rest s =
     (if payload \<noteq> [] \<or> \<not> rx_meta s \<or> rx_received s \<noteq> expected_size t
      then Inl ''Native peer ended an incomplete transfer.''
      else if rest \<noteq> [] then Inl ''Native peer sent data after the end of the transfer.''
      else if JStr (t_sha t (rx_hash s)) \<noteq> member (t_expected t) ''sha256''
      then Inl ''Native peer returned bytes with the wrong SHA-256 digest.''
      else Inr (s\<lparr>rx_result := Some (Inr (rx_object s)), rx_stream := Ended\<rparr>))"

text \<open>One frame; \<open>rest\<close> is what follows it in the buffer.\<close>

definition rx_frame :: "transfer \<Rightarrow> nat \<Rightarrow> byte list \<Rightarrow> byte list \<Rightarrow> receiver \<Rightarrow> string + receiver" where
  "rx_frame t type payload rest s =
     (if type = frame_error then Inl ''Native peer rejected the transfer.''
      else if type = frame_meta then rx_on_meta t payload s
      else if type = frame_chunk then rx_on_chunk t payload s
      else if type = frame_eof then rx_on_eof t payload rest s
      else Inl ''Unexpected transfer frame.'')"

text \<open>\<open>fail\<close>, and the handlers of \<open>error\<close>, \<open>end\<close> and \<open>close\<close>.\<close>

definition rx_fail :: "string \<Rightarrow> receiver \<Rightarrow> receiver" where
  "rx_fail e s = (if rx_result s \<noteq> None then s
     else s\<lparr>rx_result := Some (Inl e), rx_stream := Destroyed\<rparr>)"

definition rx_end :: "receiver \<Rightarrow> receiver" where
  "rx_end = rx_fail ''Native peer closed before completing the transfer.''"

definition rx_close :: "receiver \<Rightarrow> receiver" where
  "rx_close = rx_fail ''Native peer connection closed before completing the transfer.''"

definition rx_keep :: "byte list \<Rightarrow> nat \<Rightarrow> receiver \<Rightarrow> receiver" where
  "rx_keep pending needed s = s\<lparr>rx_parts := [pending], rx_part_bytes := length pending, rx_needed := needed\<rparr>"

function rx_loop :: "transfer \<Rightarrow> byte list \<Rightarrow> receiver \<Rightarrow> receiver" where
  "rx_loop t pending s =
     (if length pending < header_bytes then (if pending \<noteq> [] then rx_keep pending (rx_needed s) s else s)
      else (case frame_header pending of
          Inl e \<Rightarrow> rx_fail e s
        | Inr (type, len) \<Rightarrow>
            if length pending < header_bytes + len then rx_keep pending (header_bytes + len) s
            else (case rx_frame t type (take len (drop header_bytes pending)) (drop (header_bytes + len) pending) s of
                Inl e \<Rightarrow> rx_fail e s
              | Inr s' \<Rightarrow> if rx_result s' \<noteq> None then s' else rx_loop t (drop (header_bytes + len) pending) s')))"
  by pat_completeness auto
termination by (relation "measure (\<lambda>(t, pending, s). length pending)") (auto simp: header_bytes_def)

declare rx_loop.simps [simp del]

definition rx_data :: "transfer \<Rightarrow> receiver \<Rightarrow> byte list \<Rightarrow> receiver" where
  "rx_data t s chunk =
     (if rx_result s \<noteq> None then s
      else (let s1 = s\<lparr>rx_parts := rx_parts s @ [chunk], rx_part_bytes := rx_part_bytes s + length chunk\<rparr> in
        if rx_part_bytes s1 < rx_needed s1 then s1
        else rx_loop t (concat (rx_parts s1)) (s1\<lparr>rx_parts := [], rx_part_bytes := 0, rx_needed := header_bytes\<rparr>)))"

subsection \<open>The two sides of a transfer\<close>

text \<open>\<open>requestObject\<close>: what it writes; the outcome is that of \<open>receiveObject\<close>.\<close>

definition request_object :: "js \<Rightarrow> int \<Rightarrow> string + byte list" where
  "request_object expected max_object_bytes =
     (case validate_object_identity expected max_object_bytes of
        Inl e \<Rightarrow> Inl e
      | Inr _ \<Rightarrow> encode_frame frame_request (utf8_bytes (json_text expected)))"

definition transfer_meta :: "js \<Rightarrow> js" where
  "transfer_meta v = JObj [(''sha256'', member v ''sha256''), (''size'', member v ''size'')]"

text \<open>The chunks of \<open>for (let offset = 0; offset < bytes.length; offset += MAX_FRAME_BYTES)\<close>.\<close>

function slices :: "byte list \<Rightarrow> byte list list" where
  "slices bytes = (if bytes = [] then [] else take max_frame_bytes bytes # slices (drop max_frame_bytes bytes))"
  by pat_completeness auto
termination by (relation "measure length") (auto simp: max_frame_bytes_def)

declare slices.simps [simp del]

fun write_frames :: "frame list \<Rightarrow> string + byte list" where
  "write_frames [] = Inr []"
| "write_frames ((type, payload) # fs) =
     (case encode_frame type payload of
        Inl e \<Rightarrow> Inl e
      | Inr b \<Rightarrow> (case write_frames fs of Inl e \<Rightarrow> Inl e | Inr bs \<Rightarrow> Inr (b @ bs)))"

definition serve_request :: "js \<Rightarrow> int \<Rightarrow> frame \<Rightarrow> string + unit" where
  "serve_request authorization max_object_bytes frame =
     (if fst frame \<noteq> frame_request then Inl ''Expected exactly one transfer request.''
      else (case parse_json_object (snd frame) of
          Inl e \<Rightarrow> Inl e
        | Inr request \<Rightarrow>
            (case validate_object_identity request max_object_bytes of
               Inl e \<Rightarrow> Inl e
             | Inr _ \<Rightarrow>
                 if \<not> strict_eq (member request ''requestId'') (member authorization ''requestId'')
                    \<or> \<not> strict_eq (member request ''sha256'') (member authorization ''sha256'')
                    \<or> \<not> strict_eq (member request ''size'') (member authorization ''size'')
                 then Inl ''Transfer request does not match its Nostr authorization.''
                 else Inr ())))"

definition serve_object :: "(byte list \<Rightarrow> string) \<Rightarrow> js \<Rightarrow> string + byte list \<Rightarrow> string + byte list" where
  "serve_object sha authorization resolved =
     (case resolved of
        Inl e \<Rightarrow> Inl e
      | Inr bytes \<Rightarrow>
          if JInt (int (length bytes)) \<noteq> member authorization ''size'' \<or> JStr (sha bytes) \<noteq> member authorization ''sha256''
          then Inl ''The local object does not match its authorized identity.''
          else write_frames ((frame_meta, utf8_bytes (json_text (transfer_meta authorization)))
                 # map (Pair frame_chunk) (slices bytes) @ [(frame_eof, [])]))"

text \<open>
  \<open>serveAuthorizedObject\<close>: the bytes it writes and its outcome.  \<open>first\<close> is the result of
  \<open>readFirstFrame\<close>, which destroys the stream when it fails; \<open>writable\<close> is
  \<open>!stream.destroyed && stream.writable\<close> when a later step throws.
\<close>

definition serve_authorized :: "(byte list \<Rightarrow> string) \<Rightarrow> js \<Rightarrow> int \<Rightarrow> string + frame \<Rightarrow> string + byte list \<Rightarrow> bool
    \<Rightarrow> byte list \<times> (string + js)" where
  "serve_authorized sha authorization max_object_bytes first resolved writable =
     (case validate_object_identity authorization max_object_bytes of
        Inl e \<Rightarrow> ([], Inl e)
      | Inr _ \<Rightarrow>
          (case first of
             Inl e \<Rightarrow> ([], Inl e)
           | Inr frame \<Rightarrow>
               (case (case serve_request authorization max_object_bytes frame of
                        Inl e \<Rightarrow> Inl e | Inr _ \<Rightarrow> serve_object sha authorization resolved) of
                  Inr written \<Rightarrow> (written, Inr (transfer_meta authorization))
                | Inl e \<Rightarrow>
                    ((case encode_frame frame_error (utf8_bytes (json_text (JObj [(''code'', JStr ''TRANSFER_REJECTED'')]))) of
                        Inr b \<Rightarrow> if writable then b else []
                      | Inl _ \<Rightarrow> []), Inl e))))"

end
