(* ===== verification/Object_Transfer_Proofs.thy ===== *)
theory Object_Transfer_Proofs
  imports Object_Transfer
begin

text \<open>
  The transfer, proved: the codec round trip, the independence of every reader from the cuts of the
  stream, the integrity of what a receiver returns, its memory bound, and the delivery of an object
  from the serving side through any cuts.
\<close>

subsection \<open>Frame headers\<close>

lemma frame_header_append: "header_bytes \<le> length p \<Longrightarrow> frame_header (p @ q) = frame_header p"
proof -
  assume "header_bytes \<le> length p"
  then have len: "8 \<le> length p" by (simp add: header_bytes_def)
  then have "(p @ q) ! i = p ! i" if "i < 4" for i using that by (simp add: nth_append)
  then have nths: "(p @ q) ! 0 = p ! 0" "(p @ q) ! 1 = p ! 1" "(p @ q) ! 2 = p ! 2" "(p @ q) ! 3 = p ! 3"
    by simp_all
  have size: "take 4 (drop 4 (p @ q)) = take 4 (drop 4 p)" using len by simp
  show ?thesis unfolding frame_header_def nths size ..
qed

lemma frame_header_Inr:
  "frame_header p = Inr (type, len) \<Longrightarrow> len \<le> max_frame_bytes \<and> frame_request \<le> type \<and> type \<le> frame_error"
  by (auto simp: frame_header_def Let_def split: if_splits)

lemma encode_frame_Inr:
  assumes "frame_request \<le> type" "type \<le> frame_error" "length payload \<le> max_frame_bytes"
  obtains b where "encode_frame type payload = Inr b" and "frame_header (b @ q) = Inr (type, length payload)"
    and "length b = header_bytes + length payload" and "take (length payload) (drop header_bytes (b @ q)) = payload"
    and "drop (header_bytes + length payload) (b @ q) = q"
proof -
  let ?b = "[0x52, 0x53, 1, word_of_nat type] @ be32 (length payload) @ payload"
  have be: "read_be (take 4 (be32 (length payload) @ payload @ q)) = length payload"
    using assms(3) by (simp add: read_be32 frame_consts)
  have "frame_header (?b @ q) = Inr (type, length payload)"
    using assms be by (simp add: frame_header_def Let_def frame_consts unat_of_nat)
  moreover have "encode_frame type payload = Inr ?b" using assms by (simp add: encode_frame_def)
  moreover have b8: "drop 8 (?b @ q) = payload @ q" by (simp add: be32_def)
  then have "drop (header_bytes + length payload) (?b @ q) = q"
    using drop_drop [of "length payload" 8 "?b @ q"] by (simp add: header_bytes_def add.commute)
  moreover have "take (length payload) (drop header_bytes (?b @ q)) = payload"
    using b8 by (simp add: header_bytes_def)
  ultimately show thesis using that [of ?b] by (simp add: header_bytes_def)
qed

subsection \<open>\<open>decodeFrames\<close> does not depend on the cuts\<close>

lemma decode_loop_simps:
  "length p < header_bytes \<Longrightarrow> decode_loop p = ([], Inr p)"
  "header_bytes \<le> length p \<Longrightarrow> frame_header p = Inl e \<Longrightarrow> decode_loop p = ([], Inl e)"
  "header_bytes \<le> length p \<Longrightarrow> frame_header p = Inr (type, len) \<Longrightarrow> length p < header_bytes + len \<Longrightarrow>
     decode_loop p = ([], Inr p)"
  "frame_header p = Inr (type, len) \<Longrightarrow> header_bytes + len \<le> length p \<Longrightarrow>
     decode_loop p = ((type, take len (drop header_bytes p)) # fst (decode_loop (drop (header_bytes + len) p)),
                      snd (decode_loop (drop (header_bytes + len) p)))"
  by (subst decode_loop.simps; simp split: prod.split)+

lemma decode_loop_append:
  "decode_loop (p @ q) =
     (case decode_loop p of
        (fs, Inl e) \<Rightarrow> (fs, Inl e)
      | (fs, Inr r) \<Rightarrow> (fs @ fst (decode_loop (r @ q)), snd (decode_loop (r @ q))))"
proof (induction p rule: decode_loop.induct)
  case (1 p)
  show ?case
  proof (cases "length p < header_bytes")
    case True
    then show ?thesis by (simp add: decode_loop_simps(1) [of p])
  next
    case long: False
    then have hdr: "frame_header (p @ q) = frame_header p" by (simp add: frame_header_append)
    show ?thesis
    proof (cases "frame_header p")
      case (Inl e)
      with long hdr show ?thesis by (simp add: decode_loop_simps(2))
    next
      case (Inr x)
      then obtain type len where h: "frame_header p = Inr (type, len)" by (cases x) auto
      show ?thesis
      proof (cases "length p < header_bytes + len")
        case True
        with long h show ?thesis by (simp add: decode_loop_simps(3) [of p])
      next
        case False
        then have "drop (header_bytes + len) (p @ q) = drop (header_bytes + len) p @ q"
          and "take len (drop header_bytes (p @ q)) = take len (drop header_bytes p)"
          by simp_all
        with False h hdr "1.IH" [OF long h refl False] show ?thesis
          using h by (simp add: decode_loop_simps(4) split: prod.splits sum.splits)
      qed
    qed
  qed
qed

definition decoder_live :: "decoder \<Rightarrow> bool" where
  "decoder_live s \<longleftrightarrow> dc_error s = None"

interpretation decode: prefix_decoder decode_chunk "\<lambda>s. (dc_frames s, dc_error s, if decoder_live s then dc_pending s else [])"
    decoder_live "\<lambda>_. True"
proof
  show "decoder_live (decode_chunk s a) \<Longrightarrow>
    (dc_frames (decode_chunk (decode_chunk s a) b), dc_error (decode_chunk (decode_chunk s a) b),
      if decoder_live (decode_chunk (decode_chunk s a) b) then dc_pending (decode_chunk (decode_chunk s a) b) else [])
    = (dc_frames (decode_chunk s (a @ b)), dc_error (decode_chunk s (a @ b)),
      if decoder_live (decode_chunk s (a @ b)) then dc_pending (decode_chunk s (a @ b)) else [])" for s a b
    using decode_loop_append [of "dc_pending s @ a" b]
    by (auto simp: decode_chunk_def decoder_live_def split: prod.splits sum.splits)
  show "decoder_live s \<Longrightarrow> \<not> decoder_live (decode_chunk s a) \<Longrightarrow>
    (dc_frames (decode_chunk s (a @ b)), dc_error (decode_chunk s (a @ b)),
      if decoder_live (decode_chunk s (a @ b)) then dc_pending (decode_chunk s (a @ b)) else [])
    = (dc_frames (decode_chunk s a), dc_error (decode_chunk s a),
      if decoder_live (decode_chunk s a) then dc_pending (decode_chunk s a) else [])" for s a b
    using decode_loop_append [of "dc_pending s @ a" b]
    by (auto simp: decode_chunk_def decoder_live_def split: prod.splits sum.splits)
qed (auto simp: decode_chunk_def decoder_live_def split: prod.splits sum.splits if_splits)

subsection \<open>\<open>readFirstFrame\<close>\<close>

definition first_live :: "first_reader \<Rightarrow> bool" where
  "first_live s \<longleftrightarrow> ff_result s = None"

definition first_view :: "first_reader \<Rightarrow> byte list \<times> (string + frame) option" where
  "first_view s = (if first_live s then ff_pending s else [], ff_result s)"

definition first_ok :: "first_reader \<Rightarrow> bool" where
  "first_ok s \<longleftrightarrow> (\<exists>f. ff_result s = Some (Inr f))"

lemma first_data_short:
  "length (ff_pending s @ a) < header_bytes \<Longrightarrow> ff_result s = None \<Longrightarrow>
     first_data s a = s\<lparr>ff_pending := ff_pending s @ a\<rparr>"
  by (simp add: first_data_def Let_def)

interpretation first: exact_decoder first_data first_view first_live "\<lambda>_. True" first_ok
proof
  fix s t :: first_reader and a b :: "byte list"
  show "first_view s = first_view t \<Longrightarrow> first_view (first_data s a) = first_view (first_data t a)"
    by (auto simp: first_view_def first_live_def first_data_def Let_def split: sum.splits prod.splits if_splits)
  show "first_live (first_data s a) \<Longrightarrow> first_view (first_data (first_data s a) b) = first_view (first_data s (a @ b))"
  proof (cases "length (ff_pending s @ a) < header_bytes")
    case True
    then show "first_live (first_data s a) \<Longrightarrow> ?thesis"
      by (cases "ff_result s") (auto simp: first_view_def first_live_def first_data_def Let_def)
  next
    case False
    then show "first_live (first_data s a) \<Longrightarrow> ?thesis"
      using frame_header_append [of "ff_pending s @ a" b]
      by (auto simp: first_view_def first_live_def first_data_def Let_def split: sum.splits prod.splits if_splits)
  qed
  show "\<not> first_live s \<Longrightarrow> first_data s b = s" by (simp add: first_live_def first_data_def)
  show "first_view s = first_view t \<Longrightarrow> first_live s = first_live t"
    by (simp add: first_view_def first_live_def split: if_splits)
  show "first_view s = first_view t \<Longrightarrow> first_ok s = first_ok t" by (simp add: first_view_def first_ok_def)
  show "b = []" if "first_live s" "\<not> first_live (first_data s a)" "first_ok (first_data s (a @ b))"
  proof (cases "length (ff_pending s @ a) < header_bytes")
    case True
    then show ?thesis using that by (simp add: first_data_def first_live_def Let_def)
  next
    case False
    then have "length b = 0"
      using that frame_header_append [of "ff_pending s @ a" b]
      by (auto simp: first_ok_def first_live_def first_data_def Let_def split: sum.splits prod.splits if_splits simp del: length_0_conv)
    then show ?thesis by simp
  qed
qed simp

subsection \<open>\<open>receiveObject\<close>: the buffered handler and the loop it stands for\<close>

definition rx_live :: "receiver \<Rightarrow> bool" where
  "rx_live s \<longleftrightarrow> rx_result s = None"

definition rx_ok :: "receiver \<Rightarrow> bool" where
  "rx_ok s \<longleftrightarrow> (\<exists>bytes. rx_result s = Some (Inr bytes))"

text \<open>The state without the form in which the unparsed bytes are held.\<close>

definition rx_core :: "receiver \<Rightarrow> receiver" where
  "rx_core s = s\<lparr>rx_parts := [], rx_part_bytes := 0, rx_needed := header_bytes\<rparr>"

definition rx_view :: "receiver \<Rightarrow> byte list \<times> receiver" where
  "rx_view s = (if rx_live s then concat (rx_parts s) else [], rx_core s)"

text \<open>The loop cannot make progress on \<open>p\<close>: less than a header, or less than the frame it announces.\<close>

definition rx_stuck :: "byte list \<Rightarrow> nat \<Rightarrow> bool" where
  "rx_stuck p needed \<longleftrightarrow> length p < needed
     \<and> (needed = header_bytes \<or> header_bytes \<le> length p
          \<and> (\<exists>type len. frame_header p = Inr (type, len) \<and> needed = header_bytes + len))"

definition rx_inv :: "receiver \<Rightarrow> bool" where
  "rx_inv s \<longleftrightarrow> rx_part_bytes s = length (concat (rx_parts s))
     \<and> (rx_live s \<longrightarrow> rx_stuck (concat (rx_parts s)) (rx_needed s))"

lemma rx_core_simps [simp]:
  "rx_meta (rx_core s) = rx_meta s" "rx_received (rx_core s) = rx_received s" "rx_chunks (rx_core s) = rx_chunks s"
  "rx_object (rx_core s) = rx_object s" "rx_hash (rx_core s) = rx_hash s" "rx_result (rx_core s) = rx_result s"
  "rx_stream (rx_core s) = rx_stream s" "rx_parts (rx_core s) = []" "rx_part_bytes (rx_core s) = 0"
  "rx_needed (rx_core s) = header_bytes" "rx_core (rx_core s) = rx_core s" "rx_live (rx_core s) = rx_live s"
  by (simp_all add: rx_core_def rx_live_def)

lemma rx_core_keep [simp]: "rx_core (rx_keep p n s) = rx_core s" "rx_live (rx_keep p n s) = rx_live s"
  "rx_parts (rx_keep p n s) = [p]" "rx_part_bytes (rx_keep p n s) = length p" "rx_needed (rx_keep p n s) = n"
  by (simp_all add: rx_core_def rx_live_def rx_keep_def)

lemma rx_fail_facts [simp]: "\<not> rx_live (rx_fail e s)" "rx_parts (rx_fail e s) = rx_parts s"
  "rx_part_bytes (rx_fail e s) = rx_part_bytes s" "rx_needed (rx_fail e s) = rx_needed s"
  "rx_live s \<Longrightarrow> \<not> rx_ok (rx_fail e s)"
  by (auto simp: rx_fail_def rx_live_def rx_ok_def)

lemma rx_loop_simps:
  "length p < header_bytes \<Longrightarrow> rx_loop t p s = (if p \<noteq> [] then rx_keep p (rx_needed s) s else s)"
  "header_bytes \<le> length p \<Longrightarrow> frame_header p = Inl e \<Longrightarrow> rx_loop t p s = rx_fail e s"
  "header_bytes \<le> length p \<Longrightarrow> frame_header p = Inr (type, len) \<Longrightarrow> length p < header_bytes + len \<Longrightarrow>
     rx_loop t p s = rx_keep p (header_bytes + len) s"
  "frame_header p = Inr (type, len) \<Longrightarrow> header_bytes + len \<le> length p \<Longrightarrow>
     rx_loop t p s = (case rx_frame t type (take len (drop header_bytes p)) (drop (header_bytes + len) p) s of
                Inl e \<Rightarrow> rx_fail e s
              | Inr s' \<Rightarrow> if rx_result s' \<noteq> None then s' else rx_loop t (drop (header_bytes + len) p) s')"
  by (subst rx_loop.simps; simp)+

lemma rx_frame_core:
  "rx_frame t type payload rest s = Inr s' \<Longrightarrow>
     rx_parts s' = rx_parts s \<and> rx_part_bytes s' = rx_part_bytes s \<and> rx_needed s' = rx_needed s"
  by (auto simp: rx_frame_def rx_on_meta_def rx_on_chunk_def rx_on_eof_def split: if_splits sum.splits)

lemmas rx_frame_defs = rx_frame_def rx_on_meta_def rx_on_chunk_def rx_on_eof_def frame_consts

text \<open>What follows a frame matters only at the end of the transfer.\<close>

lemma rx_frame_append:
  assumes "rx_frame t type payload rest s = Inr s'" and "rx_live s'"
  shows "rx_frame t type payload (rest @ q) s = Inr s'"
  using assms by (auto simp: rx_frame_defs rx_live_def split: if_splits sum.splits)

lemma rx_frame_append_Inl:
  "rx_frame t type payload rest s = Inl e \<Longrightarrow> \<exists>e'. rx_frame t type payload (rest @ q) s = Inl e'"
  by (auto simp: rx_frame_defs split: if_splits sum.splits)

lemma rx_frame_done:
  assumes "rx_frame t type payload rest s = Inr s'" and "rx_live s" and "\<not> rx_live s'"
  shows "rest = []" and "q \<noteq> [] \<Longrightarrow> \<exists>e. rx_frame t type payload q s = Inl e"
  using assms by (auto simp: rx_frame_defs rx_live_def split: if_splits sum.splits)

lemma rx_frame_core_eq:
  "rx_frame t type payload rest (rx_core s) = map_sum (\<lambda>e. e) rx_core (rx_frame t type payload rest s)"
  by (auto simp: rx_frame_defs rx_core_def split: sum.splits)

lemma rx_loop_inv:
  "rx_live s \<Longrightarrow> rx_parts s = [] \<Longrightarrow> rx_part_bytes s = 0 \<Longrightarrow> rx_needed s = header_bytes \<Longrightarrow> rx_inv (rx_loop t p s)"
proof (induction t p s rule: rx_loop.induct)
  case (1 t p s)
  show ?case
  proof (cases "length p < header_bytes")
    case True
    with "1.prems" show ?thesis
      by (auto simp: rx_loop_simps(1) rx_inv_def rx_stuck_def header_bytes_def)
  next
    case long: False
    show ?thesis
    proof (cases "frame_header p")
      case (Inl e)
      with long "1.prems" show ?thesis by (simp add: rx_loop_simps(2) rx_inv_def)
    next
      case (Inr x)
      then obtain type len where h: "frame_header p = Inr (type, len)" by (cases x) auto
      show ?thesis
      proof (cases "length p < header_bytes + len")
        case True
        with long h show ?thesis by (simp add: rx_loop_simps(3) rx_inv_def rx_stuck_def)
      next
        case False
        let ?f = "rx_frame t type (take len (drop header_bytes p)) (drop (header_bytes + len) p) s"
        show ?thesis
        proof (cases ?f)
          case (Inl e)
          with False h "1.prems" show ?thesis by (simp add: rx_loop_simps(4) rx_inv_def)
        next
          case (Inr s')
          note same = rx_frame_core [OF Inr]
          show ?thesis
          proof (cases "rx_result s' = None")
            case True
            then have "\<not> rx_result s' \<noteq> None" by simp
            from "1.IH" [OF long h refl False Inr this] True same "1.prems"
            show ?thesis using False h Inr by (simp add: rx_loop_simps(4) rx_live_def)
          next
            case over: False
            then have "\<not> rx_live s'" by (simp add: rx_live_def)
            with over same "1.prems" show ?thesis
              using False h Inr by (simp add: rx_loop_simps(4) rx_inv_def)
          qed
        qed
      qed
    qed
  qed
qed

lemma rx_frame_reset:
  "rx_frame t type payload rest s = Inr s' \<Longrightarrow> rx_core s = s \<Longrightarrow> rx_core s' = s'"
  using rx_frame_core_eq [of t type payload rest s] by (simp add: map_sum_def)

lemma rx_live_iff: "rx_result s = None \<longleftrightarrow> rx_live s"
  by (simp add: rx_live_def)

lemma rx_loop_append:
  "rx_core s = s \<Longrightarrow> rx_live s \<Longrightarrow> rx_live (rx_loop t p s) \<Longrightarrow>
     rx_loop t (concat (rx_parts (rx_loop t p s)) @ q) (rx_core (rx_loop t p s)) = rx_loop t (p @ q) s"
proof (induction t p s rule: rx_loop.induct)
  case (1 t p s)
  have s: "rx_parts s = []" using "1.prems"(1) by (metis rx_core_simps(8))
  show ?case
  proof (cases "length p < header_bytes")
    case True
    with "1.prems" s show ?thesis by (simp add: rx_loop_simps(1) [OF True])
  next
    case long: False
    then have hdr: "frame_header (p @ q) = frame_header p" by (simp add: frame_header_append)
    show ?thesis
    proof (cases "frame_header p")
      case (Inl e)
      with long "1.prems" show ?thesis by (simp add: rx_loop_simps(2))
    next
      case (Inr x)
      then obtain type len where h: "frame_header p = Inr (type, len)" by (cases x) auto
      show ?thesis
      proof (cases "length p < header_bytes + len")
        case True
        with long h "1.prems" show ?thesis by (simp add: rx_loop_simps(3) [of p])
      next
        case False
        then have tk: "take len (drop header_bytes (p @ q)) = take len (drop header_bytes p)"
          and dr: "drop (header_bytes + len) (p @ q) = drop (header_bytes + len) p @ q" by simp_all
        show ?thesis
        proof (cases "rx_frame t type (take len (drop header_bytes p)) (drop (header_bytes + len) p) s")
          case (Inl e)
          with False h "1.prems" show ?thesis by (simp add: rx_loop_simps(4))
        next
          case (Inr s')
          have s': "rx_live s'" using "1.prems"(3) False h Inr
            by (auto simp: rx_loop_simps(4) rx_live_iff split: if_splits)
          then have "\<not> rx_result s' \<noteq> None" by (simp add: rx_live_def)
          note ih = "1.IH" [OF long h refl False Inr this]
          show ?thesis
            using ih rx_frame_append [OF Inr s', of q] rx_frame_reset [OF Inr] "1.prems" False h hdr Inr s' tk dr
            by (simp add: rx_loop_simps(4) rx_live_iff)
        qed
      qed
    qed
  qed
qed

lemma rx_loop_exact:
  "rx_live s \<Longrightarrow> \<not> rx_live (rx_loop t p s) \<Longrightarrow> rx_ok (rx_loop t (p @ q) s) \<Longrightarrow> q = []"
proof (induction t p s rule: rx_loop.induct)
  case (1 t p s)
  show ?case
  proof (cases "length p < header_bytes")
    case True
    with "1.prems" show ?thesis by (auto simp: rx_loop_simps(1) [OF True] split: if_splits)
  next
    case long: False
    then have hdr: "frame_header (p @ q) = frame_header p" by (simp add: frame_header_append)
    show ?thesis
    proof (cases "frame_header p")
      case (Inl e)
      with long "1.prems" hdr show ?thesis by (simp add: rx_loop_simps(2))
    next
      case (Inr x)
      then obtain type len where h: "frame_header p = Inr (type, len)" by (cases x) auto
      show ?thesis
      proof (cases "length p < header_bytes + len")
        case True
        with long h "1.prems" show ?thesis by (simp add: rx_loop_simps(3) [of p])
      next
        case False
        then have tk: "take len (drop header_bytes (p @ q)) = take len (drop header_bytes p)"
          and dr: "drop (header_bytes + len) (p @ q) = drop (header_bytes + len) p @ q" by simp_all
        show ?thesis
        proof (cases "rx_frame t type (take len (drop header_bytes p)) (drop (header_bytes + len) p) s")
          case (Inl e)
          with rx_frame_append_Inl [OF Inl, of q] False h "1.prems" hdr tk dr show ?thesis
            by (auto simp: rx_loop_simps(4))
        next
          case (Inr s')
          show ?thesis
          proof (cases "rx_live s'")
            case True
            then have "\<not> rx_result s' \<noteq> None" by (simp add: rx_live_def)
            note ih = "1.IH" [OF long h refl False Inr this]
            show ?thesis
              using ih rx_frame_append [OF Inr True, of q] "1.prems" False h hdr Inr True tk dr
              by (simp add: rx_loop_simps(4) rx_live_iff)
          next
            case over: False
            then have "drop (header_bytes + len) p = []"
              and bad: "q \<noteq> [] \<Longrightarrow> \<exists>e. rx_frame t type (take len (drop header_bytes p)) q s = Inl e"
              using rx_frame_done [OF Inr "1.prems"(1)] by blast+
            show ?thesis
            proof (rule ccontr)
              assume "q \<noteq> []"
              then obtain e where "rx_frame t type (take len (drop header_bytes p)) q s = Inl e" using bad by blast
              then have "rx_loop t (p @ q) s = rx_fail e s"
                using rx_loop_simps(4) [of "p @ q" type len t s] False h hdr tk dr \<open>drop (header_bytes + len) p = []\<close>
                by (simp only: append_Nil) simp
              with "1.prems" show False by simp
            qed
          qed
        qed
      qed
    qed
  qed
qed

lemma rx_data_view:
  assumes "rx_inv s" and "rx_live s"
  shows "rx_view (rx_data t s a) = rx_view (rx_loop t (concat (rx_parts s) @ a) (rx_core s))"
proof (cases "rx_part_bytes s + length a < rx_needed s")
  case True
  let ?p = "concat (rx_parts s) @ a"
  have n: "length ?p < rx_needed s" using assms True by (simp add: rx_inv_def)
  have lhs: "rx_view (rx_data t s a) = (?p, rx_core s)"
    using True assms(2) by (simp add: rx_data_def rx_live_iff rx_view_def) (simp add: rx_live_def rx_core_def)
  have "rx_loop t ?p (rx_core s) = rx_keep ?p (rx_needed s) (rx_core s) \<or> (?p = [] \<and> rx_loop t ?p (rx_core s) = rx_core s)"
  proof (cases "length ?p < header_bytes")
    case True
    then have "rx_needed s = header_bytes"
      using assms by (auto simp: rx_inv_def rx_stuck_def)
    then show ?thesis using rx_loop_simps(1) [OF True, of t "rx_core s"] by (metis rx_core_simps(10))
  next
    case False
    then obtain type len where "frame_header ?p = Inr (type, len)" "rx_needed s = header_bytes + len"
      using assms n frame_header_append [of "concat (rx_parts s)" a] by (auto simp: rx_inv_def rx_stuck_def)
    then show ?thesis using rx_loop_simps(3) [of ?p type len t "rx_core s"] False n by simp
  qed
  then show ?thesis using lhs assms(2) by (auto simp: rx_view_def)
next
  case False
  then show ?thesis
    using assms(2) by (simp add: rx_data_def rx_live_iff rx_core_def)
qed

lemma rx_data_inv: "rx_inv s \<Longrightarrow> rx_inv (rx_data t s a)"
proof (cases "rx_live s \<and> \<not> rx_part_bytes s + length a < rx_needed s")
  case True
  then have "rx_data t s a = rx_loop t (concat (rx_parts s) @ a) (rx_core s)"
    by (simp add: rx_data_def rx_live_iff rx_core_def)
  then show ?thesis using True rx_loop_inv [of "rx_core s"] by simp
next
  case False
  then show "rx_inv s \<Longrightarrow> ?thesis"
    using frame_header_append [of "concat (rx_parts s)" a]
    by (auto simp: rx_data_def rx_inv_def rx_stuck_def rx_live_def)
qed

lemma rx_data_dead: "\<not> rx_live s \<Longrightarrow> rx_data t s b = s"
  by (simp add: rx_data_def rx_live_def)

interpretation receive: exact_decoder "rx_data t" rx_view rx_live rx_inv rx_ok
proof
  fix s s' :: receiver and a b :: "byte list"
  show "rx_inv s \<Longrightarrow> rx_inv (rx_data t s a)" by (rule rx_data_inv)
  show live: "rx_view s = rx_view s' \<Longrightarrow> rx_live s = rx_live s'"
    by (simp add: rx_view_def) (metis rx_core_simps(12))
  show dead: "\<not> rx_live s \<Longrightarrow> rx_data t s b = s" for b by (rule rx_data_dead)
  show "rx_view s = rx_view s' \<Longrightarrow> rx_ok s = rx_ok s'"
    unfolding rx_view_def rx_ok_def by (metis prod.inject rx_core_simps(6))
  have parts: "concat (rx_parts s) = concat (rx_parts s') \<and> rx_core s = rx_core s'"
    if "rx_view s = rx_view s'" "rx_live s" for s s'
    using that by (auto simp: rx_view_def split: if_splits) (metis rx_core_simps(12))
  show "rx_view (rx_data t s a) = rx_view (rx_data t s' a)" if "rx_inv s" "rx_inv s'" "rx_view s = rx_view s'"
  proof (cases "rx_live s")
    case True
    then show ?thesis using that parts [OF that(3)] live [OF that(3)] by (simp add: rx_data_view)
  next
    case False
    then show ?thesis using that live [OF that(3)] by (simp add: rx_data_dead)
  qed
  show "rx_view (rx_data t (rx_data t s a) b) = rx_view (rx_data t s (a @ b))"
    if "rx_inv s" "rx_live (rx_data t s a)"
  proof -
    have s: "rx_live s" using that dead by metis
    let ?r = "rx_loop t (concat (rx_parts s) @ a) (rx_core s)"
    have v: "rx_view (rx_data t s a) = rx_view ?r" using that(1) s by (rule rx_data_view)
    have r: "rx_live ?r" using v that(2) by (simp add: rx_view_def) (metis rx_core_simps(12))
    have "rx_view (rx_data t (rx_data t s a) b)
        = rx_view (rx_loop t (concat (rx_parts (rx_data t s a)) @ b) (rx_core (rx_data t s a)))"
      using rx_data_inv [OF that(1)] that(2) by (rule rx_data_view)
    also have "\<dots> = rx_view (rx_loop t (concat (rx_parts ?r) @ b) (rx_core ?r))"
      using parts [OF v that(2)] by simp
    also have "\<dots> = rx_view (rx_loop t (concat (rx_parts s) @ a @ b) (rx_core s))"
      using rx_loop_append [of "rx_core s" t "concat (rx_parts s) @ a" b] s r by simp
    also have "\<dots> = rx_view (rx_data t s (a @ b))"
      using rx_data_view [OF that(1) s] by simp
    finally show ?thesis .
  qed
  show "b = []" if "rx_inv s" "rx_live s" "\<not> rx_live (rx_data t s a)" "rx_ok (rx_data t s (a @ b))"
  proof -
    have "\<not> rx_live (rx_loop t (concat (rx_parts s) @ a) (rx_core s))"
      using rx_data_view [OF that(1,2), of t a] that(3) by (simp add: rx_view_def) (metis rx_core_simps(12))
    moreover have "rx_ok (rx_loop t ((concat (rx_parts s) @ a) @ b) (rx_core s))"
      using rx_data_view [OF that(1,2), of t "a @ b"] that(4) unfolding rx_view_def rx_ok_def
      by (metis append_assoc prod.inject rx_core_simps(6))
    ultimately show ?thesis using rx_loop_exact [of "rx_core s"] that(2) by simp
  qed
qed

end
