(* ===== verification/Object_Transfer_Claims.thy ===== *)
theory Object_Transfer_Claims
  imports Object_Transfer_Proofs
begin

text \<open>
  What the object transfer promises: the codec round trip over any cuts of the stream, the
  integrity and the memory bound of a received object, and its delivery end to end.
\<close>

subsection \<open>The codec\<close>

lemma write_frames_Cons:
  assumes "write_frames ((type, payload) # fs) = Inr b"
  obtains b1 bs where "encode_frame type payload = Inr b1" and "write_frames fs = Inr bs" and "b = b1 @ bs"
    and "frame_request \<le> type" and "type \<le> frame_error" and "length payload \<le> max_frame_bytes"
  using assms by (auto simp: encode_frame_def split: sum.splits if_splits)

lemma decode_loop_write: "write_frames fs = Inr b \<Longrightarrow> decode_loop b = (fs, Inr [])"
proof (induction fs arbitrary: b)
  case Nil
  then show ?case by (simp add: decode_loop_simps(1) header_bytes_def)
next
  case (Cons f fs)
  obtain type payload where f: "f = (type, payload)" by force
  obtain b1 bs where b: "encode_frame type payload = Inr b1" "write_frames fs = Inr bs" "b = b1 @ bs"
    and v: "frame_request \<le> type" "type \<le> frame_error" "length payload \<le> max_frame_bytes"
    using write_frames_Cons Cons.prems f by blast
  obtain b' where e: "encode_frame type payload = Inr b'" "frame_header (b' @ bs) = Inr (type, length payload)"
    "length b' = header_bytes + length payload" "take (length payload) (drop header_bytes (b' @ bs)) = payload"
    "drop (header_bytes + length payload) (b' @ bs) = bs"
    using encode_frame_Inr [OF v] by metis
  then show ?case using b f Cons.IH [OF b(2)] decode_loop_simps(4) [OF e(2)] by simp
qed

lemma decode_frames_eq:
  "decode_frames cs = (let s = decode_end (decode_chunk decoder_start (concat cs)) in (dc_frames s, dc_error s))"
proof (cases "cs = []")
  case True
  then show ?thesis
    by (simp add: decode_frames_def decode_chunk_def decoder_start_def decode_loop_simps(1) header_bytes_def)
next
  case False
  have "decoder_live decoder_start" by (simp add: decoder_live_def decoder_start_def)
  from decode.feeds_all [OF _ this False] show ?thesis
    by (auto simp: decode_frames_def decode_end_def Let_def decoder_live_def split: if_splits)
qed

text \<open>
  C12: decoding undoes encoding, however the transport cuts the stream.  Whatever frames
  \<open>encodeFrame\<close> accepted, feeding their bytes to \<open>decodeFrames\<close> in pieces of any sizes, empty ones
  included, yields exactly those frames and no error.
\<close>

theorem decode_encode:
  assumes "write_frames fs = Inr b" and "concat cs = b"
  shows "decode_frames cs = (fs, None)"
  using decode_loop_write [OF assms(1)] assms(2)
  by (simp add: decode_frames_eq decode_chunk_def decoder_start_def decode_end_def)

theorem decode_encode_witness:
  "decode_frames [[82, 83, 1], [1, 0, 0, 0, 2, 7], [], [9, 82, 83, 1, 4, 0, 0, 0, 0]]
     = ([(frame_request, [7, 9]), (frame_eof, [])], None)"
  by (rule decode_encode [of _ "[82, 83, 1, 1, 0, 0, 0, 2, 7, 9, 82, 83, 1, 4, 0, 0, 0, 0]"])
     (simp_all add: encode_frame_def frame_consts be32_def)

text \<open>
  C13: \<open>decodeFrames\<close> cannot tell how a stream was cut.  On every byte stream, well formed or not,
  the frames it yields and the error it ends with are those of the stream delivered in one piece.
\<close>

theorem decode_frames_cuts: "decode_frames cs = decode_frames [concat cs]"
  by (simp add: decode_frames_eq)

subsection \<open>Integrity and memory\<close>

datatype stream_event = Data "byte list" | StreamEnd | StreamClose | StreamError string

fun rx_event :: "transfer \<Rightarrow> receiver \<Rightarrow> stream_event \<Rightarrow> receiver" where
  "rx_event t s (Data chunk) = rx_data t s chunk"
| "rx_event t s StreamEnd = rx_end s"
| "rx_event t s StreamClose = rx_close s"
| "rx_event t s (StreamError e) = rx_fail e s"

definition rx_sound :: "transfer \<Rightarrow> receiver \<Rightarrow> bool" where
  "rx_sound t s \<longleftrightarrow>
     (rx_meta s \<longrightarrow> length (rx_object s) = expected_size t \<and> take (rx_received s) (rx_object s) = rx_hash s)
     \<and> (\<not> rx_meta s \<longrightarrow> rx_hash s = [])
     \<and> rx_received s = length (rx_hash s) \<and> rx_received s \<le> expected_size t \<and> rx_chunks s \<le> max_chunks t
     \<and> (int (rx_received s) \<le> t_max t \<or> rx_received s = 0)
     \<and> (\<forall>obj. rx_result s = Some (Inr obj) \<longrightarrow>
          length obj = expected_size t \<and> JStr (t_sha t obj) = member (t_expected t) ''sha256'')"

lemma copy_into_facts:
  assumes "off + length p \<le> length obj"
  shows "length (copy_into obj off p) = length obj" and "take (off + length p) (copy_into obj off p) = take off obj @ p"
  using assms by (simp_all add: copy_into_def)

lemma rx_sound_frame:
  assumes "rx_sound t s" and "rx_frame t type payload rest s = Inr s'" and "rx_live s"
    and "\<And>n. length (t_alloc t n) = n"
  shows "rx_sound t s'"
  using assms copy_into_facts [of "rx_received s" payload "rx_object s"]
  by (auto simp: rx_frame_defs rx_sound_def rx_live_def split: if_splits sum.splits)

lemma rx_sound_fail: "rx_sound t s \<Longrightarrow> rx_sound t (rx_fail e s)"
  by (auto simp: rx_fail_def rx_sound_def)

lemma rx_sound_core: "rx_sound t (rx_core s) = rx_sound t s"
  by (simp add: rx_sound_def)

lemma rx_sound_keep: "rx_sound t (rx_keep p n s) = rx_sound t s"
  by (simp add: rx_keep_def rx_sound_def)

text \<open>Induction over the frames of a buffer, one case per way the loop can go on.\<close>

lemma rx_loop_rule [case_names short bad partial failed over further]:
  assumes short: "\<And>p s. length p < header_bytes \<Longrightarrow> P s (if p \<noteq> [] then rx_keep p (rx_needed s) s else s)"
    and bad: "\<And>p s e. frame_header p = Inl e \<Longrightarrow> P s (rx_fail e s)"
    and partial: "\<And>p s type len. frame_header p = Inr (type, len) \<Longrightarrow> P s (rx_keep p (header_bytes + len) s)"
    and failed: "\<And>s type payload rest e. rx_frame t type payload rest s = Inl e \<Longrightarrow> P s (rx_fail e s)"
    and over: "\<And>s type payload rest s'. rx_frame t type payload rest s = Inr s' \<Longrightarrow> \<not> rx_live s' \<Longrightarrow> P s s'"
    and further: "\<And>s type payload rest s'. rx_frame t type payload rest s = Inr s' \<Longrightarrow> rx_live s' \<Longrightarrow>
      P s' (rx_loop t rest s') \<Longrightarrow> P s (rx_loop t rest s')"
  shows "P s (rx_loop t p s)"
proof (induction p arbitrary: s rule: length_induct)
  case (1 p s)
  show ?case
  proof (cases "length p < header_bytes")
    case True
    then show ?thesis using short by (simp add: rx_loop_simps(1))
  next
    case long: False
    show ?thesis
    proof (cases "frame_header p")
      case (Inl e)
      with long bad show ?thesis by (simp add: rx_loop_simps(2))
    next
      case (Inr x)
      then obtain type len where h: "frame_header p = Inr (type, len)" by (cases x) auto
      show ?thesis
      proof (cases "length p < header_bytes + len")
        case True
        with long h partial [OF h] show ?thesis by (simp add: rx_loop_simps(3))
      next
        case False
        then have shorter: "length (drop (header_bytes + len) p) < length p" by (simp add: header_bytes_def)
        show ?thesis
        proof (cases "rx_frame t type (take len (drop header_bytes p)) (drop (header_bytes + len) p) s")
          case (Inl e)
          with False h failed [OF Inl] show ?thesis by (simp add: rx_loop_simps(4))
        next
          case (Inr s')
          with False h over [OF Inr] further [OF Inr] "1.IH" shorter show ?thesis
            by (cases "rx_live s'") (simp_all add: rx_loop_simps(4) rx_live_iff)
        qed
      qed
    qed
  qed
qed

lemma rx_sound_loop:
  assumes "\<And>n. length (t_alloc t n) = n" and "rx_sound t s" and "rx_live s"
  shows "rx_sound t (rx_loop t p s)"
proof -
  have "rx_sound t s \<longrightarrow> rx_live s \<longrightarrow> rx_sound t (rx_loop t p s)"
    by (rule rx_loop_rule [where P = "\<lambda>s r. rx_sound t s \<longrightarrow> rx_live s \<longrightarrow> rx_sound t r"])
       (auto simp: rx_sound_keep intro: rx_sound_fail rx_sound_frame [OF _ _ _ assms(1)])
  with assms show ?thesis by blast
qed

lemma rx_sound_data:
  assumes "rx_sound t s" and "\<And>n. length (t_alloc t n) = n"
  shows "rx_sound t (rx_data t s chunk)"
proof (cases "rx_live s \<and> \<not> rx_part_bytes s + length chunk < rx_needed s")
  case True
  then have "rx_data t s chunk = rx_loop t (concat (rx_parts s) @ chunk) (rx_core s)"
    by (simp add: rx_data_def rx_live_iff rx_core_def)
  then show ?thesis using True assms rx_sound_loop [OF assms(2), of "rx_core s"] by (simp add: rx_sound_core)
next
  case False
  then show ?thesis using assms by (auto simp: rx_data_def rx_live_iff rx_sound_def)
qed

lemma rx_inv_fail: "rx_inv s \<Longrightarrow> rx_inv (rx_fail e s)"
  by (auto simp: rx_inv_def rx_fail_def rx_live_def)

lemma rx_sound_events:
  assumes "\<And>n. length (t_alloc t n) = n"
  shows "rx_sound t (foldl (rx_event t) receiver_start es) \<and> rx_inv (foldl (rx_event t) receiver_start es)"
proof (induction es rule: rev_induct)
  case Nil
  show ?case by (simp add: rx_sound_def receiver_start_def rx_inv_def rx_stuck_def header_bytes_def)
next
  case (snoc e es)
  then show ?case
    by (cases e) (auto intro: rx_sound_data [OF _ assms] rx_data_inv rx_sound_fail rx_inv_fail simp: rx_end_def rx_close_def)
qed

lemma rx_stuck_bound: "rx_stuck p n \<Longrightarrow> length p < header_bytes + max_frame_bytes"
  by (auto simp: rx_stuck_def max_frame_bytes_def dest!: frame_header_Inr)

text \<open>
  C14: what a receiver returns is the object that was asked for, and a peer cannot make it hold
  more.  Over any sequence of chunks, ends, closes and errors, an object that is returned has the
  expected size and the expected SHA-256 digest; and while it listens, the bytes held unparsed stay
  below one frame, the bytes accepted stay within the expected size, and the chunks within their budget.
\<close>

theorem receive_sound:
  assumes "\<And>n. length (t_alloc t n) = n" and "s = foldl (rx_event t) receiver_start es"
  shows "(\<forall>obj. rx_result s = Some (Inr obj) \<longrightarrow>
            length obj = expected_size t \<and> JStr (t_sha t obj) = member (t_expected t) ''sha256'')
    \<and> (rx_result s = None \<longrightarrow> length (concat (rx_parts s)) < 65544)
    \<and> rx_received s \<le> expected_size t \<and> rx_chunks s \<le> max_chunks t"
  using rx_sound_events [OF assms(1), of es] rx_stuck_bound [of "concat (rx_parts s)" "rx_needed s"] assms(2)
  by (auto simp: rx_sound_def rx_inv_def rx_live_def frame_consts)

subsection \<open>Delivery\<close>

lemma slices_Cons: "bytes \<noteq> [] \<Longrightarrow> slices bytes = take max_frame_bytes bytes # slices (drop max_frame_bytes bytes)"
  by (subst slices.simps) simp

lemma slices_Nil [simp]: "slices [] = []"
  by (subst slices.simps) simp

lemma slices_concat: "concat (slices bytes) = bytes"
  by (induction bytes rule: slices.induct; subst slices.simps; auto)

lemma slices_bounded: "\<forall>p \<in> set (slices bytes). p \<noteq> [] \<and> length p \<le> max_frame_bytes"
  by (induction bytes rule: slices.induct; subst slices.simps; auto simp: max_frame_bytes_def)

lemma length_slices: "length (slices bytes) = (length bytes + (max_frame_bytes - 1)) div max_frame_bytes"
proof (induction bytes rule: slices.induct)
  case (1 bytes)
  show ?case
  proof (cases "bytes = []")
    case False
    have n: "0 < max_frame_bytes" "0 < length bytes" using False by (simp_all add: max_frame_bytes_def)
    have "length (slices bytes) = Suc ((length bytes - max_frame_bytes + (max_frame_bytes - 1)) div max_frame_bytes)"
      using "1.IH" [OF False] by (simp add: slices_Cons [OF False])
    also have "\<dots> = (length bytes + (max_frame_bytes - 1)) div max_frame_bytes"
    proof (cases "length bytes \<le> max_frame_bytes")
      case True
      have "(length bytes + (max_frame_bytes - 1)) div max_frame_bytes = 1"
      proof (rule div_nat_eqI)
        show "max_frame_bytes * 1 \<le> length bytes + (max_frame_bytes - 1)" using n by linarith
        have "length bytes + (max_frame_bytes - 1) < 2 * max_frame_bytes" using True n by linarith
        then show "length bytes + (max_frame_bytes - 1) < max_frame_bytes * Suc 1" by simp
      qed
      moreover have "(length bytes - max_frame_bytes + (max_frame_bytes - 1)) div max_frame_bytes = 0"
        using True by (simp add: max_frame_bytes_def)
      ultimately show ?thesis by simp
    next
      case False
      then have "length bytes + (max_frame_bytes - 1)
          = (length bytes - max_frame_bytes + (max_frame_bytes - 1)) + max_frame_bytes" by simp
      moreover have "((length bytes - max_frame_bytes + (max_frame_bytes - 1)) + max_frame_bytes) div max_frame_bytes
          = (length bytes - max_frame_bytes + (max_frame_bytes - 1)) div max_frame_bytes + 1"
        using n by (intro div_add_self2) simp
      ultimately show ?thesis by (simp only: Suc_eq_plus1)
    qed
    finally show ?thesis .
  qed (simp add: max_frame_bytes_def)
qed

lemma slices_within_budget: "length bytes = expected_size t \<Longrightarrow> length (slices bytes) \<le> max_chunks t"
  unfolding length_slices max_chunks_def by (simp add: max_def)

lemma rx_loop_frame:
  assumes "encode_frame type payload = Inr b" and "rx_frame t type payload rest s = Inr s'" and "rx_live s'"
  shows "rx_loop t (b @ rest) s = rx_loop t rest s'"
proof -
  have v: "frame_request \<le> type" "type \<le> frame_error" "length payload \<le> max_frame_bytes"
    using assms(1) by (auto simp: encode_frame_def split: if_splits)
  obtain b' where e: "encode_frame type payload = Inr b'" "frame_header (b' @ rest) = Inr (type, length payload)"
    "length b' = header_bytes + length payload" "take (length payload) (drop header_bytes (b' @ rest)) = payload"
    "drop (header_bytes + length payload) (b' @ rest) = rest"
    using encode_frame_Inr [OF v] by metis
  then show ?thesis using assms rx_loop_simps(4) [OF e(2), of t s] by (simp add: rx_live_iff)
qed

lemma rx_loop_eof:
  assumes "encode_frame frame_eof [] = Inr b" and "rx_meta s" and "rx_received s = expected_size t"
    and "JStr (t_sha t (rx_hash s)) = member (t_expected t) ''sha256''"
  shows "rx_result (rx_loop t b s) = Some (Inr (rx_object s))"
proof -
  have v: "frame_request \<le> frame_eof" "frame_eof \<le> frame_error" "length ([] :: byte list) \<le> max_frame_bytes"
    by (simp_all add: frame_consts)
  obtain b' where e: "encode_frame frame_eof [] = Inr b'" "frame_header (b' @ []) = Inr (frame_eof, length ([] :: byte list))"
    "length b' = header_bytes + length ([] :: byte list)"
    by (rule encode_frame_Inr [OF v, of "[]"]) metis
  have "rx_frame t frame_eof [] [] s = Inr (s\<lparr>rx_result := Some (Inr (rx_object s)), rx_stream := Ended\<rparr>)"
    using assms by (simp add: rx_frame_def rx_on_eof_def frame_consts)
  then show ?thesis
    using e assms(1) rx_loop_simps(4) [of b' frame_eof 0 t s] by simp
qed

lemma rx_loop_chunks:
  assumes "write_frames (map (Pair frame_chunk) ps @ [(frame_eof, [])]) = Inr b"
    and "\<forall>p \<in> set ps. p \<noteq> []" and "rx_live s" and "rx_meta s" and "length (rx_object s) = expected_size t"
    and "take (rx_received s) (rx_object s) = rx_hash s" and "rx_received s + length (concat ps) = expected_size t"
    and "rx_chunks s + length ps \<le> max_chunks t" and "int (expected_size t) \<le> t_max t"
    and "JStr (t_sha t (rx_hash s @ concat ps)) = member (t_expected t) ''sha256''"
  shows "rx_result (rx_loop t b s) = Some (Inr (rx_hash s @ concat ps))"
  using assms
proof (induction ps arbitrary: b s)
  case Nil
  then obtain b1 where "encode_frame frame_eof [] = Inr b1" "b = b1" by (auto split: sum.splits)
  with Nil show ?case using rx_loop_eof [of b s t] by simp
next
  case (Cons p ps)
  obtain b1 bs where b: "encode_frame frame_chunk p = Inr b1" "b = b1 @ bs"
    "write_frames (map (Pair frame_chunk) ps @ [(frame_eof, [])]) = Inr bs"
    using Cons.prems(1) by (auto split: sum.splits)
  define s' where "s' = s\<lparr>rx_chunks := rx_chunks s + 1, rx_object := copy_into (rx_object s) (rx_received s) p,
    rx_hash := rx_hash s @ p, rx_received := rx_received s + length p\<rparr>"
  have "rx_frame t frame_chunk p bs s = Inr s'"
    using Cons.prems by (auto simp: rx_frame_def rx_on_chunk_def frame_consts s'_def)
  moreover have live: "rx_live s'" using Cons.prems(3) by (simp add: s'_def rx_live_def)
  ultimately have "rx_loop t b s = rx_loop t bs s'" using rx_loop_frame [OF b(1)] b(2) by blast
  moreover have "rx_result (rx_loop t bs s') = Some (Inr (rx_hash s' @ concat ps))"
    by (rule Cons.IH [OF b(3)]) (use Cons.prems live copy_into_facts [of "rx_received s" p "rx_object s"] in \<open>simp_all add: s'_def\<close>)
  ultimately show ?case by (simp add: s'_def)
qed

subsection \<open>The request and the metadata\<close>

definition ex_meta :: "string \<Rightarrow> nat \<Rightarrow> js" where
  "ex_meta d n = JObj [(''sha256'', JStr d), (''size'', JInt (int n))]"

lemma meta_json:
  assumes "hex_string d 64" and "int n \<le> max_safe"
  shows "json_parse (utf8_text (utf8_bytes (json_text (ex_meta d n)))) = Some (ex_meta d n)"
    and "length (utf8_bytes (json_text (ex_meta d n))) \<le> max_frame_bytes"
proof -
  have a: "ascii_js (ex_meta d n)"
    using hex_string_ascii [OF assms(1)] by (simp add: ex_meta_def ascii_def)
  moreover have "json_wf (ex_meta d n)" by (simp add: ex_meta_def jwf_def)
  ultimately show "json_parse (utf8_text (utf8_bytes (json_text (ex_meta d n)))) = Some (ex_meta d n)"
    by (simp add: json_bytes_roundtrip)
  have "n < 10 ^ 16" using assms(2) by (simp add: max_safe_def)
  then have "length (nat_text n) \<le> 16" by (rule length_nat_text) simp
  moreover have "length (string_text d) \<le> 2 + 6 * 64" using assms(1) length_string_text [of d] by (simp add: hex_string_def)
  moreover have "length (string_text ''sha256'') \<le> 38" "length (string_text ''size'') \<le> 26"
    using length_string_text [of "''sha256''"] length_string_text [of "''size''"] by simp_all
  ultimately have "length (json_text (ex_meta d n)) \<le> 1000"
    by (simp add: ex_meta_def int_text_def)
  then show "length (utf8_bytes (json_text (ex_meta d n))) \<le> max_frame_bytes"
    using ascii_utf8_length [OF json_text_ascii [OF a]] by (simp add: max_frame_bytes_def)
qed

lemma write_chunks:
  assumes "\<forall>p \<in> set ps. length p \<le> max_frame_bytes"
  shows "\<exists>b. write_frames (map (Pair frame_chunk) ps @ [(frame_eof, [])]) = Inr b"
  using assms
proof (induction ps)
  case (Cons p ps)
  then obtain b where "write_frames (map (Pair frame_chunk) ps @ [(frame_eof, [])]) = Inr b" by auto
  with Cons.prems show ?case by (simp add: encode_frame_def frame_consts)
qed (simp add: encode_frame_def frame_consts)

lemma rx_start_facts: "rx_inv receiver_start" "rx_live receiver_start" "rx_core receiver_start = receiver_start"
  by (simp_all add: receiver_start_def rx_inv_def rx_stuck_def header_bytes_def rx_live_def rx_core_def)

text \<open>One authorised request, as both sides see it.\<close>

definition agreed :: "transfer \<Rightarrow> js \<Rightarrow> string \<Rightarrow> byte list \<Rightarrow> bool" where
  "agreed t auth d bytes \<longleftrightarrow>
     validate_object_identity auth (t_max t) = Inr () \<and> hex_string d 64
     \<and> (\<forall>v \<in> {auth, t_expected t}. member v ''sha256'' = JStr d \<and> member v ''size'' = JInt (int (length bytes)))
     \<and> int (length bytes) \<le> t_max t \<and> int (length bytes) \<le> max_safe \<and> t_sha t bytes = d
     \<and> (\<forall>n. length (t_alloc t n) = n)"

lemma serve_delivers:
  assumes "agreed t auth d bytes"
  shows "\<exists>written. serve_object (t_sha t) auth (Inr bytes) = Inr written
    \<and> rx_result (rx_data t receiver_start written) = Some (Inr bytes)"
proof -
  note a = assms [unfolded agreed_def]
  have meta: "transfer_meta auth = ex_meta d (length bytes)" using a by (simp add: transfer_meta_def ex_meta_def)
  note mj = meta_json [of d "length bytes"]
  obtain bs where bs: "write_frames (map (Pair frame_chunk) (slices bytes) @ [(frame_eof, [])]) = Inr bs"
    using write_chunks slices_bounded [of bytes] by blast
  let ?m = "utf8_bytes (json_text (ex_meta d (length bytes)))"
  obtain b1 where b1: "encode_frame frame_meta ?m = Inr b1"
    using mj(2) a by (simp add: encode_frame_def frame_consts)
  have served: "serve_object (t_sha t) auth (Inr bytes) = Inr (b1 @ bs)"
    using a b1 bs by (simp add: serve_object_def meta)
  have size: "expected_size t = length bytes" using a by (simp add: expected_size_def)
  define s1 where "s1 = receiver_start\<lparr>rx_meta := True, rx_object := t_alloc t (expected_size t)\<rparr>"
  have "parse_json_object ?m = Inr (ex_meta d (length bytes))"
    using mj(1) a by (simp add: parse_json_object_def) (simp add: ex_meta_def)
  then have "rx_frame t frame_meta ?m bs receiver_start = Inr s1"
    using a by (simp add: rx_frame_def rx_on_meta_def frame_consts receiver_start_def s1_def ex_meta_def js_simps)
  moreover have live: "rx_live s1" by (simp add: s1_def receiver_start_def rx_live_def)
  ultimately have "rx_loop t (b1 @ bs) receiver_start = rx_loop t bs s1"
    by (rule rx_loop_frame [OF b1])
  moreover have "rx_result (rx_loop t bs s1) = Some (Inr (rx_hash s1 @ concat (slices bytes)))"
    by (rule rx_loop_chunks [OF bs])
       (use a live size slices_concat slices_bounded slices_within_budget [OF size [symmetric]] in \<open>auto simp: s1_def receiver_start_def\<close>)
  ultimately have "rx_result (rx_loop t (b1 @ bs) receiver_start) = Some (Inr bytes)"
    by (simp add: s1_def receiver_start_def slices_concat)
  moreover have "rx_view (rx_data t receiver_start (b1 @ bs)) = rx_view (rx_loop t (b1 @ bs) receiver_start)"
    using rx_data_view [OF rx_start_facts(1,2), of t "b1 @ bs"] by (simp add: rx_start_facts(3)) (simp add: receiver_start_def)
  ultimately show ?thesis using served by (auto simp: rx_view_def) (metis rx_core_simps(6))
qed

text \<open>
  C15: an authorised object is delivered.  When both sides hold the same digest and size and the
  resolver returns bytes that match them, the bytes that \<open>serveAuthorizedObject\<close> writes, cut by the
  transport in any way, make \<open>receiveObject\<close> return exactly those bytes.
\<close>

theorem transfer_delivers:
  assumes "agreed t auth d bytes" and "serve_request auth (t_max t) frame = Inr ()"
  shows "\<exists>written. serve_authorized (t_sha t) auth (t_max t) (Inr frame) (Inr bytes) w = (written, Inr (transfer_meta auth))
    \<and> (\<forall>cs. concat cs = written \<longrightarrow> rx_result (foldl (rx_data t) receiver_start cs) = Some (Inr bytes))"
proof -
  obtain written where served: "serve_object (t_sha t) auth (Inr bytes) = Inr written"
    and one: "rx_result (rx_data t receiver_start written) = Some (Inr bytes)"
    using serve_delivers [OF assms(1)] by blast
  have "rx_result (foldl (rx_data t) receiver_start cs) = Some (Inr bytes)" if "concat cs = written" for cs
  proof -
    have "cs \<noteq> []" using that one by (auto simp: rx_data_def receiver_start_def header_bytes_def)
    then have "rx_view (foldl (rx_data t) receiver_start cs) = rx_view (rx_data t receiver_start (concat cs))"
      using one that by (intro receive.feeds_ok [OF rx_start_facts(1,2)]) (auto simp: rx_ok_def)
    then show ?thesis using one that unfolding rx_view_def by (metis prod.inject rx_core_simps(6))
  qed
  moreover have "validate_object_identity auth (t_max t) = Inr ()" using assms(1) by (simp add: agreed_def)
  ultimately show ?thesis using served assms(2) by (simp add: serve_authorized_def)
qed

definition ex_auth :: js where
  "ex_auth = JObj [(''requestId'', JStr ''request-01''), (''sha256'', JStr (replicate 64 CHR ''a'')), (''size'', JInt 2)]"

definition ex_transfer :: transfer where
  "ex_transfer = \<lparr>t_expected = ex_auth, t_max = 1000, t_sha = (\<lambda>_. replicate 64 CHR ''a''), t_alloc = (\<lambda>n. replicate n 0)\<rparr>"

lemma ex_auth_members [simp]:
  "member ex_auth ''requestId'' = JStr ''request-01''" "member ex_auth ''sha256'' = JStr (replicate 64 CHR ''a'')"
  "member ex_auth ''size'' = JInt 2"
  by (simp_all add: ex_auth_def js_simps)

lemma ex_auth_valid: "validate_object_identity ex_auth 1000 = Inr ()"
  unfolding validate_object_identity_def ex_auth_members by code_simp

lemma ex_auth_json: "json_parse (utf8_text (utf8_bytes (json_text ex_auth))) = Some ex_auth"
  by (rule json_bytes_roundtrip) (simp_all add: ex_auth_def jwf_def ascii_def list_all_iff)

lemma ex_agreed: "agreed ex_transfer ex_auth (replicate 64 CHR ''a'') [7, 9]"
proof -
  have "hex_string (replicate 64 CHR ''a'') 64" by code_simp
  then show ?thesis using ex_auth_valid by (simp add: agreed_def ex_transfer_def max_safe_def)
qed

lemma ex_request: "serve_request ex_auth 1000 (frame_request, utf8_bytes (json_text ex_auth)) = Inr ()"
  using ex_auth_valid ex_auth_json by (simp add: serve_request_def parse_json_object_def) (simp add: ex_auth_def)

theorem transfer_delivers_witness:
  "\<exists>written. \<forall>cs. concat cs = written \<longrightarrow> rx_result (foldl (rx_data ex_transfer) receiver_start cs) = Some (Inr [7, 9])"
  using transfer_delivers [OF ex_agreed, of "(frame_request, utf8_bytes (json_text ex_auth))" True] ex_request
  by (auto simp: ex_transfer_def)

theorem receive_sound_witness:
  "\<exists>written. rx_result (foldl (rx_event ex_transfer) receiver_start [Data written, StreamEnd]) = Some (Inr [7, 9])
     \<and> length [7, 9 :: byte] = expected_size ex_transfer"
proof -
  obtain written where one: "rx_result (rx_data ex_transfer receiver_start written) = Some (Inr [7, 9])"
    using serve_delivers [OF ex_agreed] by blast
  then have r: "rx_result (foldl (rx_event ex_transfer) receiver_start [Data written, StreamEnd]) = Some (Inr [7, 9])"
    by (simp add: rx_end_def rx_fail_def)
  have "length (t_alloc ex_transfer n) = n" for n by (simp add: ex_transfer_def)
  then have "length [7, 9 :: byte] = expected_size ex_transfer"
    using receive_sound [of ex_transfer _ "[Data written, StreamEnd]", OF _ refl] r by blast
  with r show ?thesis by blast
qed

text \<open>
  A request reaches the serving side whole.  The bytes that \<open>requestObject\<close> writes for an object
  whose JSON text is ASCII, cut by the transport in any way, are read by \<open>readFirstFrame\<close> as one frame,
  and \<open>serveAuthorizedObject\<close> accepts it exactly when the request and the authorisation name the same
  request id, digest and size.
\<close>

theorem request_reaches_server:
  assumes "request_object expected bound = Inr req" and "json_wf expected" and "ascii_js expected" and "plain_object expected"
    and "is_string (member expected ''sha256'')" and "concat cs = req"
  shows "\<exists>frame. ff_result (foldl first_data first_start cs) = Some (Inr frame)
    \<and> (serve_request auth bound frame = Inr () \<longleftrightarrow>
        (\<forall>k \<in> {''requestId'', ''sha256'', ''size''}. member auth k = member expected k))"
proof -
  let ?p = "utf8_bytes (json_text expected)"
  have valid: "validate_object_identity expected bound = Inr ()" and enc: "encode_frame frame_request ?p = Inr req"
    using assms(1) by (auto simp: request_object_def split: sum.splits)
  have v: "frame_request \<le> frame_request" "frame_request \<le> frame_error" "length ?p \<le> max_frame_bytes"
    using enc by (auto simp: encode_frame_def frame_consts split: if_splits)
  obtain b where e: "encode_frame frame_request ?p = Inr b" "frame_header (b @ []) = Inr (frame_request, length ?p)"
    "length b = header_bytes + length ?p" "take (length ?p) (drop header_bytes (b @ [])) = ?p"
    by (rule encode_frame_Inr [OF v, of "[]"]) metis
  then have req: "b = req" "drop header_bytes req = ?p" using enc by simp_all
  have one: "ff_result (first_data first_start req) = Some (Inr (frame_request, ?p))"
    using e req by (simp add: first_data_def first_start_def Let_def)
  have "cs \<noteq> []" using e(3) req(1) assms(6) by (auto simp: header_bytes_def)
  then have "first_view (foldl first_data first_start cs) = first_view (first_data first_start (concat cs))"
    using one assms(6) by (intro first.feeds_ok) (auto simp: first_ok_def first_live_def first_start_def)
  then have "ff_result (foldl first_data first_start cs) = Some (Inr (frame_request, ?p))"
    using one assms(6) by (simp add: first_view_def)
  moreover have "\<exists>i d n. member expected ''requestId'' = JStr i \<and> member expected ''sha256'' = JStr d \<and> member expected ''size'' = JInt n"
    using valid assms(5) unfolding validate_object_identity_def
    by (cases "member expected ''requestId''"; cases "member expected ''sha256''"; cases "member expected ''size''")
       (auto split: if_splits)
  ultimately show ?thesis
    using valid json_bytes_roundtrip [OF assms(2,3)] assms(4)
    by (auto simp: serve_request_def parse_json_object_def)
qed

theorem request_reaches_server_witness:
  "\<exists>req frame. request_object ex_auth 1000 = Inr req
     \<and> ff_result (foldl first_data first_start [take 5 req, drop 5 req]) = Some (Inr frame)
     \<and> serve_request ex_auth 1000 frame = Inr ()"
proof -
  have a: "ascii_js ex_auth" by (simp add: ex_auth_def ascii_def list_all_iff)
  have "length (json_text ex_auth) = 111" by code_simp
  then have "length (utf8_bytes (json_text ex_auth)) = 111" using ascii_utf8_length [OF json_text_ascii [OF a]] by simp
  then obtain req where r: "request_object ex_auth 1000 = Inr req"
    using ex_auth_valid by (simp add: request_object_def encode_frame_def frame_consts)
  then show ?thesis
    using request_reaches_server [OF r, of "[take 5 req, drop 5 req]" ex_auth] a
    by (auto simp: ex_auth_def jwf_def js_simps)
qed

end
