(* ===== verification/Peer_Link.thy ===== *)
theory Peer_Link
  imports Bytes
begin

text \<open>
  The data-channel protocol between two viewers, \<open>src/browser/peer-link.mjs\<close>.

  A \<open>link\<close> holds the fields of a \<open>PeerLink\<close>.  What a method does to the outside, sending on
  the channel, calling back, resolving a request, is appended to \<open>lk_out\<close> in order.  The
  clock is an argument.  \<open>lk_ready\<close> is \<open>channel.readyState === "open"\<close>, \<open>lk_throws\<close> says that
  \<open>channel.send\<close> throws, \<open>lk_reliable\<close> that the channel is ordered and fully reliable.  The
  asynchronous \<open>#serve\<close> is cut into steps at its \<open>await\<close>s and after each chunk; a host that
  abandons a request from its progress callback takes the \<open>abandon\<close> step right after the chunk.
\<close>

definition chunk_bytes :: nat where "chunk_bytes = 16384"
definition max_have_keys :: nat where "max_have_keys = 256"

definition close_reasons :: "string list" where
  "close_reasons = [''host'', ''host-stop'', ''admission'', ''rotation'', ''integrity'', ''request-timeout'', ''request-abort'',
     ''native-failed'', ''native-closed'', ''native-disconnected'', ''channel-close'', ''channel-error'',
     ''protocol'', ''send-error'', ''serve-error'', ''upload-queue'', ''upload-drain-timeout'']"

subsection \<open>State\<close>

record pending_request =
  p_id :: int
  p_key :: string
  p_expected :: "int option"
  p_size :: int
  p_parts :: "byte list list"
  p_chunks :: nat
  p_received :: int
  p_draining :: bool
  p_cancelled :: bool

datatype serve_phase = Queued | Asked | Sending "byte list" nat

record upload =
  u_id :: int
  u_key :: string
  u_cancelled :: bool
  u_phase :: serve_phase

record contribution =
  c_serving :: bool
  c_rendition :: "string option"
  c_at :: int

datatype link_event =
    SentText js
  | SentBinary "byte list"
  | Requested int string "int option"
  | Resolved int "byte list option" string
  | HaveChange "string list"
  | ScheduleChange
  | UploadCancelled nat
  | Closed string

record link =
  lk_max_segment :: int
  lk_max_queued :: nat
  lk_contribution :: contribution
  lk_fetching :: "(string \<times> int) list"
  lk_renditions :: "(string \<times> int) list"
  lk_announced :: "(string \<times> int) list"
  lk_have :: "string list"
  lk_pending :: "pending_request option"
  lk_next_id :: int
  lk_closed :: bool
  lk_opened_at :: int
  lk_last_served :: int
  lk_last_delivered :: int
  lk_uploads :: "upload list"
  lk_outbound :: nat
  lk_drain_timed_out :: bool
  lk_bytes_in :: int
  lk_bytes_out :: int
  lk_ready :: bool
  lk_throws :: bool
  lk_reliable :: bool
  lk_out :: "link_event list"

text \<open>\<open>Math.max(1, Math.ceil(maxSegmentBytes / CHUNK_BYTES) * 4)\<close>\<close>

definition link_max_chunks :: "link \<Rightarrow> nat" where
  "link_max_chunks s = max 1 (((nat (lk_max_segment s) + (chunk_bytes - 1)) div chunk_bytes) * 4)"

definition new_link :: "int \<Rightarrow> nat \<Rightarrow> bool \<Rightarrow> int \<Rightarrow> link" where
  "new_link max_segment max_queued reliable now =
     \<lparr>lk_max_segment = max_segment, lk_max_queued = max_queued,
      lk_contribution = \<lparr>c_serving = False, c_rendition = None, c_at = 0\<rparr>,
      lk_fetching = [], lk_renditions = [], lk_announced = [], lk_have = [], lk_pending = None, lk_next_id = 1,
      lk_closed = False, lk_opened_at = now, lk_last_served = 0, lk_last_delivered = 0, lk_uploads = [],
      lk_outbound = 0, lk_drain_timed_out = False, lk_bytes_in = 0, lk_bytes_out = 0,
      lk_ready = True, lk_throws = False, lk_reliable = reliable, lk_out = []\<rparr>"

definition busy :: "link \<Rightarrow> bool" where
  "busy s \<longleftrightarrow> lk_pending s \<noteq> None"

definition transferring :: "link \<Rightarrow> bool" where
  "transferring s \<longleftrightarrow> lk_pending s \<noteq> None \<or> lk_outbound s > 0"

definition last_useful_at :: "link \<Rightarrow> int" where
  "last_useful_at s = max (max (lk_last_delivered s) (lk_last_served s)) (lk_opened_at s)"

definition emit :: "link_event \<Rightarrow> link \<Rightarrow> link" where
  "emit e s = s\<lparr>lk_out := lk_out s @ [e]\<rparr>"

subsection \<open>\<open>finish\<close>, \<open>close\<close>, \<open>#sendText\<close>\<close>

text \<open>
  \<open>finish\<close> of the pending request.  A draining request was resolved when it was abandoned, so
  resolving it again has no effect.
\<close>

definition finish_pending :: "int \<Rightarrow> byte list option \<Rightarrow> string \<Rightarrow> link \<Rightarrow> link" where
  "finish_pending now bytes outcome s =
     (case lk_pending s of
        None \<Rightarrow> s
      | Some p \<Rightarrow>
          (let s1 = (if p_draining p then s else emit (Resolved (p_id p) bytes outcome) s);
               s2 = s1\<lparr>lk_pending := None,
                       lk_last_delivered := (if bytes \<noteq> None then now else lk_last_delivered s1)\<rparr>
           in if p_draining p \<and> \<not> lk_closed s then emit ScheduleChange s2 else s2))"

definition close_link :: "int \<Rightarrow> string \<Rightarrow> link \<Rightarrow> link" where
  "close_link now reason s =
     (if lk_closed s then s
      else (let r = (if reason \<in> set close_reasons then reason else ''host'');
                s1 = s\<lparr>lk_closed := True, lk_fetching := [], lk_renditions := [], lk_announced := []\<rparr>;
                s2 = finish_pending now None (if r = ''send-error'' then ''send-error'' else ''closed'') s1
            in emit (Closed r) (s2\<lparr>lk_ready := False\<rparr>)))"

definition send_text :: "int \<Rightarrow> js \<Rightarrow> link \<Rightarrow> bool \<times> link" where
  "send_text now message s =
     (if lk_closed s \<or> \<not> lk_ready s then (False, s)
      else if lk_throws s then (False, close_link now ''send-error'' s)
      else (True, emit (SentText message) s))"

definition tag :: "string \<Rightarrow> (string \<times> js) list \<Rightarrow> js" where
  "tag t members = JObj ((''t'', JStr t) # members)"

definition keys_js :: "string list \<Rightarrow> js" where
  "keys_js ks = JArr (map JStr ks)"

definition send_have :: "int \<Rightarrow> string list \<Rightarrow> link \<Rightarrow> link" where
  "send_have now keys s =
     snd (send_text now (tag ''have'' [(''keys'', keys_js (drop (length keys - max_have_keys) keys))]) s)"

definition send_have_change :: "int \<Rightarrow> string list \<Rightarrow> string list \<Rightarrow> link \<Rightarrow> link" where
  "send_have_change now add del s =
     (if add \<noteq> [] \<or> del \<noteq> [] then snd (send_text now (tag ''have'' [(''add'', keys_js add), (''del'', keys_js del)]) s) else s)"

definition send_contribution :: "int \<Rightarrow> bool \<Rightarrow> string option \<Rightarrow> link \<Rightarrow> link" where
  "send_contribution now serving rendition s =
     snd (send_text now (tag ''contribution'' [(''serving'', JBool serving),
       (''rendition'', case rendition of None \<Rightarrow> JNull | Some r \<Rightarrow> JStr r)]) s)"

definition send_fetching :: "int \<Rightarrow> string \<Rightarrow> int \<Rightarrow> link \<Rightarrow> link" where
  "send_fetching now key lease_ms s = snd (send_text now (tag ''fetching'' [(''k'', JStr key), (''ms'', JInt lease_ms)]) s)"

subsection \<open>Requesting\<close>

text \<open>\<open>request\<close>: an outcome at once, or the pending request and its \<open>want\<close> message.\<close>

definition request :: "int \<Rightarrow> string \<Rightarrow> int option \<Rightarrow> bool \<Rightarrow> link \<Rightarrow> link" where
  "request now key expected aborted s =
     (if lk_closed s \<or> lk_pending s \<noteq> None \<or> aborted then
        emit (Resolved 0 None (if lk_closed s then ''closed'' else if lk_pending s \<noteq> None then ''busy'' else ''abort'')) s
      else (let rid = lk_next_id s;
                p = \<lparr>p_id = rid, p_key = key, p_expected = expected, p_size = -1, p_parts = [], p_chunks = 0,
                     p_received = 0, p_draining = False, p_cancelled = False\<rparr>;
                s1 = emit (Requested rid key expected) (s\<lparr>lk_next_id := rid + 1, lk_pending := Some p\<rparr>);
                (ok, s2) = send_text now (tag ''want'' [(''id'', JInt rid), (''k'', JStr key)]) s1
            in if ok then s2
               else if (case lk_pending s2 of None \<Rightarrow> False | Some q \<Rightarrow> p_id q = rid)
               then finish_pending now None ''send-error'' s2 else s2))"

definition abandon_outcome :: "string \<Rightarrow> bool \<Rightarrow> string" where
  "abandon_outcome reason abandoned =
     (if reason \<noteq> ''request-abort'' then ''timeout'' else if abandoned then ''abandoned'' else ''abort'')"

text \<open>\<open>abandon\<close> of request \<open>rid\<close>, by its timer or its signal.\<close>

definition abandon :: "int \<Rightarrow> int \<Rightarrow> string \<Rightarrow> bool \<Rightarrow> link \<Rightarrow> link" where
  "abandon now rid reason abandoned s =
     (case lk_pending s of
        None \<Rightarrow> s
      | Some p \<Rightarrow>
          if p_id p \<noteq> rid \<or> p_draining p then s
          else if \<not> (lk_reliable s \<and> lk_ready s) then
            close_link now reason (finish_pending now None (abandon_outcome reason abandoned) s)
          else (let p1 = p\<lparr>p_draining := True, p_parts := []\<rparr>;
                    s1 = emit (Resolved rid None (abandon_outcome reason abandoned)) (s\<lparr>lk_pending := Some p1\<rparr>);
                    (ok, s2) = send_text now (tag ''cancel'' [(''id'', JInt rid)]) s1
                in s2\<lparr>lk_pending := map_option (\<lambda>q. q\<lparr>p_cancelled := ok\<rparr>) (lk_pending s2)\<rparr>))"

text \<open>The timer that \<open>abandon\<close> leaves behind.\<close>

definition drain_timeout :: "int \<Rightarrow> int \<Rightarrow> string \<Rightarrow> link \<Rightarrow> link" where
  "drain_timeout now rid reason s =
     (case lk_pending s of
        None \<Rightarrow> s
      | Some p \<Rightarrow> if p_id p = rid \<and> p_draining p then close_link now reason s else s)"

subsection \<open>Receiving\<close>

definition js_keys :: "js \<Rightarrow> string list" where
  "js_keys v = (case v of
     JArr vs \<Rightarrow> take max_have_keys (map js_string (filter (\<lambda>x. is_string x \<and> hex_string (js_string x) 64) vs))
   | _ \<Rightarrow> [])"

definition set_add :: "'a \<Rightarrow> 'a list \<Rightarrow> 'a list" where
  "set_add x xs = (if x \<in> set xs then xs else xs @ [x])"

text \<open>The loop over \<open>add\<close>, which stops when the set is full; the second list is \<open>added\<close>.\<close>

fun add_keys :: "string list \<Rightarrow> string list \<Rightarrow> string list \<Rightarrow> string list \<times> string list" where
  "add_keys [] have added = (have, added)"
| "add_keys (k # ks) have added =
     (if length have \<ge> max_have_keys then (have, added) else add_keys ks (set_add k have) (added @ [k]))"

definition on_have :: "js \<Rightarrow> link \<Rightarrow> link" where
  "on_have message s =
     (let (have1, added1) = (if is_array (member message ''keys'')
            then (let ks = juniq (js_keys (member message ''keys'')) in (ks, ks)) else (lk_have s, []));
          (have2, added2) = add_keys (js_keys (member message ''add'')) have1 added1;
          have3 = filter (\<lambda>k. k \<notin> set (js_keys (member message ''del''))) have2;
          s1 = s\<lparr>lk_have := have3\<rparr>
      in if added2 \<noteq> [] then emit (HaveChange added2) s1 else s1)"

definition on_want :: "int \<Rightarrow> js \<Rightarrow> link \<Rightarrow> link" where
  "on_want now message s =
     (if \<not> safe_integer (member message ''id'') \<or> \<not> is_string (member message ''k'')
         \<or> \<not> hex_string (js_string (member message ''k'')) 64 then s
      else if lk_outbound s \<ge> lk_max_queued s then close_link now ''upload-queue'' s
      else (case member message ''id'' of
          JInt i \<Rightarrow> s\<lparr>lk_outbound := lk_outbound s + 1,
            lk_uploads := lk_uploads s @ [\<lparr>u_id = i, u_key = js_string (member message ''k''), u_cancelled = False, u_phase = Queued\<rparr>]\<rparr>
        | _ \<Rightarrow> s))"

definition rendition_of :: "js \<Rightarrow> string option" where
  "rendition_of v = (case v of JStr r \<Rightarrow> Some r | _ \<Rightarrow> None)"

definition js_bool :: "js \<Rightarrow> bool" where
  "js_bool v \<longleftrightarrow> v = JBool True"

definition is_bool :: "js \<Rightarrow> bool" where
  "is_bool v = (case v of JBool b \<Rightarrow> True | _ \<Rightarrow> False)"

text \<open>\<open>announced\<close>: the eight renditions announced last, newest last.\<close>

definition announce :: "int \<Rightarrow> string \<Rightarrow> (string \<times> int) list \<Rightarrow> (string \<times> int) list" where
  "announce now r m =
     (let m1 = jdel r m; m2 = (if length m1 \<ge> 8 then jdel_oldest m1 else m1) in jset r now m2)"

definition note_rendition :: "int \<Rightarrow> string \<Rightarrow> (string \<times> int) list \<Rightarrow> (string \<times> int) list" where
  "note_rendition now r m =
     (let m1 = filter (\<lambda>e. \<not> snd e < now - 30000) m
      in if jhas m1 r \<or> length m1 < 8 then jset r now m1 else m1)"

definition on_contribution :: "int \<Rightarrow> js \<Rightarrow> link \<Rightarrow> link" where
  "on_contribution now message s =
     (let serving = member message ''serving''; rendition = member message ''rendition'' in
      if \<not> is_bool serving \<or> (rendition \<noteq> JNull \<and> (\<not> is_string rendition \<or> length (js_string rendition) > 2048)) then s
      else (let s1 = s\<lparr>lk_contribution := \<lparr>c_serving = js_bool serving, c_rendition = rendition_of rendition, c_at = now\<rparr>\<rparr>;
                s2 = (case rendition_of rendition of None \<Rightarrow> s1
                      | Some r \<Rightarrow> s1\<lparr>lk_announced := announce now r (lk_announced s1)\<rparr>);
                s3 = (if \<not> js_bool serving then s2\<lparr>lk_fetching := [], lk_renditions := []\<rparr>
                      else (case rendition_of rendition of None \<Rightarrow> s2
                        | Some r \<Rightarrow> s2\<lparr>lk_renditions := note_rendition now r (lk_renditions s2)\<rparr>))
            in emit ScheduleChange s3))"

definition note_fetching :: "int \<Rightarrow> string \<Rightarrow> int \<Rightarrow> bool \<Rightarrow> (string \<times> int) list \<Rightarrow> (string \<times> int) list" where
  "note_fetching now k ms serving m =
     (let f1 = filter (\<lambda>e. \<not> snd e \<le> now) m
      in if ms = 0 then jdel k f1
         else if serving \<and> (jhas f1 k \<or> length f1 < 24) then jset k (now + ms) f1 else f1)"

definition on_fetching :: "int \<Rightarrow> js \<Rightarrow> link \<Rightarrow> link" where
  "on_fetching now message s =
     (let k = member message ''k'' in
      if \<not> is_string k \<or> \<not> hex_string (js_string k) 64 then s
      else (case member message ''ms'' of
          JInt ms \<Rightarrow>
            if \<not> safe_int ms \<or> ms < 0 \<or> ms > 2000 then s
            else emit ScheduleChange
              (s\<lparr>lk_fetching := note_fetching now (js_string k) ms (c_serving (lk_contribution s)) (lk_fetching s)\<rparr>)
        | _ \<Rightarrow> s))"

definition on_cancel :: "js \<Rightarrow> link \<Rightarrow> link" where
  "on_cancel message s =
     (if \<not> safe_integer (member message ''id'') then s
      else s\<lparr>lk_uploads := map (\<lambda>u. if JInt (u_id u) = member message ''id'' then u\<lparr>u_cancelled := True\<rparr> else u) (lk_uploads s)\<rparr>)"

text \<open>A response message whose id is not the pending one: a violation only while draining.\<close>

definition foreign_response :: "int \<Rightarrow> pending_request \<Rightarrow> link \<Rightarrow> link" where
  "foreign_response now p s = (if p_draining p then close_link now ''protocol'' s else s)"

definition on_meta :: "int \<Rightarrow> js \<Rightarrow> link \<Rightarrow> link" where
  "on_meta now message s =
     (case lk_pending s of
        None \<Rightarrow> s
      | Some p \<Rightarrow>
          if member message ''id'' \<noteq> JInt (p_id p) then foreign_response now p s
          else if p_size p \<noteq> -1 then close_link now ''protocol'' s
          else if p_expected p \<noteq> None \<and> member message ''size'' \<noteq> JInt (the (p_expected p)) then close_link now ''protocol'' s
          else (case member message ''size'' of
              JInt n \<Rightarrow>
                if \<not> safe_int n \<or> n < 1 \<or> n > lk_max_segment s then close_link now ''protocol'' s
                else s\<lparr>lk_pending := Some (p\<lparr>p_size := n\<rparr>)\<rparr>
            | _ \<Rightarrow> close_link now ''protocol'' s))"

definition on_eof :: "int \<Rightarrow> js \<Rightarrow> link \<Rightarrow> link" where
  "on_eof now message s =
     (case lk_pending s of
        None \<Rightarrow> s
      | Some p \<Rightarrow>
          if member message ''id'' \<noteq> JInt (p_id p) then foreign_response now p s
          else if p_cancelled p \<and> p_size p \<ge> 0 then finish_pending now None ''none'' s
          else if p_received p \<noteq> p_size p then close_link now ''protocol'' s
          else if p_draining p then finish_pending now None ''none'' s
          else finish_pending now (Some (concat (p_parts p))) ''payload'' s)"

definition on_none :: "int \<Rightarrow> js \<Rightarrow> link \<Rightarrow> link" where
  "on_none now message s =
     (case lk_pending s of
        None \<Rightarrow> s
      | Some p \<Rightarrow>
          if member message ''id'' \<noteq> JInt (p_id p) then foreign_response now p s
          else if p_size p \<noteq> -1 then close_link now ''protocol'' s
          else finish_pending now None ''none'' s)"

definition on_binary :: "int \<Rightarrow> byte list \<Rightarrow> link \<Rightarrow> link" where
  "on_binary now chunk s =
     (case lk_pending s of
        None \<Rightarrow> s
      | Some p \<Rightarrow>
          if p_size p < 0 then close_link now ''protocol'' s
          else if chunk = [] \<or> length chunk > chunk_bytes \<or> p_chunks p \<ge> link_max_chunks s then close_link now ''protocol'' s
          else (let p1 = p\<lparr>p_chunks := p_chunks p + 1, p_received := p_received p + int (length chunk)\<rparr>;
                    s1 = s\<lparr>lk_pending := Some p1, lk_bytes_in := lk_bytes_in s + int (length chunk)\<rparr>
                in if p_received p1 > p_size p1 then close_link now ''protocol'' s1
                   else if p_draining p1 then s1
                   else s1\<lparr>lk_pending := Some (p1\<lparr>p_parts := p_parts p1 @ [chunk]\<rparr>)\<rparr>))"

definition on_text :: "int \<Rightarrow> string \<Rightarrow> link \<Rightarrow> link" where
  "on_text now data s =
     (if length data > 65536 then close_link now ''protocol'' s
      else (case json_parse data of
          None \<Rightarrow> close_link now ''protocol'' s
        | Some message \<Rightarrow>
            (let t = member message ''t'' in
             if t = JStr ''contribution'' then on_contribution now message s
             else if t = JStr ''fetching'' then on_fetching now message s
             else if t = JStr ''have'' then on_have message s
             else if t = JStr ''want'' then on_want now message s
             else if t = JStr ''cancel'' then on_cancel message s
             else if t = JStr ''meta'' then on_meta now message s
             else if t = JStr ''eof'' then on_eof now message s
             else if t = JStr ''none'' then on_none now message s
             else s)))"

datatype channel_data = Text string | Binary "byte list"

fun on_message :: "int \<Rightarrow> channel_data \<Rightarrow> link \<Rightarrow> link" where
  "on_message now (Text data) s = (if lk_closed s then s else on_text now data s)"
| "on_message now (Binary chunk) s = (if lk_closed s then s else on_binary now chunk s)"

subsection \<open>Serving\<close>

text \<open>
  The promise chain \<open>serving\<close>: only the oldest upload is being served.  \<open>serve_end\<close> is the
  \<open>finally\<close> of \<open>#onWant\<close>.
\<close>

definition set_upload :: "upload \<Rightarrow> link \<Rightarrow> link" where
  "set_upload u s = s\<lparr>lk_uploads := u # tl (lk_uploads s)\<rparr>"

definition serve_end :: "link \<Rightarrow> link" where
  "serve_end s = s\<lparr>lk_uploads := tl (lk_uploads s), lk_outbound := lk_outbound s - 1\<rparr>"

definition none_reply :: "int \<Rightarrow> int \<Rightarrow> link \<Rightarrow> link" where
  "none_reply now rid s = snd (send_text now (tag ''none'' [(''id'', JInt rid)]) s)"

text \<open>The start of \<open>#serve\<close>, up to the call of \<open>onRequest\<close>.\<close>

definition serve_begin :: "int \<Rightarrow> upload \<Rightarrow> link \<Rightarrow> link" where
  "serve_begin now u s =
     (if u_cancelled u then serve_end (none_reply now (u_id u) (emit (UploadCancelled 0) s))
      else if lk_closed s then serve_end (none_reply now (u_id u) s)
      else set_upload (u\<lparr>u_phase := Asked\<rparr>) s)"

text \<open>\<open>onRequest\<close> answered, or threw.\<close>

definition serve_answer :: "int \<Rightarrow> upload \<Rightarrow> byte list option \<Rightarrow> link \<Rightarrow> link" where
  "serve_answer now u answer s =
     (case answer of
        None \<Rightarrow> serve_end (none_reply now (u_id u) s)
      | Some bytes \<Rightarrow>
          if u_cancelled u then serve_end (none_reply now (u_id u) (emit (UploadCancelled (length bytes)) s))
          else (case send_text now (tag ''meta'' [(''id'', JInt (u_id u)), (''size'', JInt (int (length bytes)))]) s of
              (False, s1) \<Rightarrow> serve_end s1
            | (True, s1) \<Rightarrow> set_upload (u\<lparr>u_phase := Sending bytes 0\<rparr>) s1))"

definition serve_failed :: "int \<Rightarrow> link \<Rightarrow> link" where
  "serve_failed now s = serve_end (close_link now (if lk_drain_timed_out s then ''upload-drain-timeout'' else ''serve-error'') s)"

text \<open>After the loop: the account of what was sent, and \<open>eof\<close>.\<close>

definition serve_finish :: "int \<Rightarrow> upload \<Rightarrow> byte list \<Rightarrow> nat \<Rightarrow> link \<Rightarrow> link" where
  "serve_finish now u bytes sent s =
     (let s1 = s\<lparr>lk_bytes_out := lk_bytes_out s + int sent, lk_last_served := now\<rparr>;
          s2 = (if sent < length bytes then emit (UploadCancelled (length bytes - sent)) s1 else s1)
      in serve_end (snd (send_text now (tag ''eof'' [(''id'', JInt (u_id u))]) s2)))"

text \<open>One turn of the sending loop, its buffer low again.\<close>

definition serve_turn :: "int \<Rightarrow> upload \<Rightarrow> byte list \<Rightarrow> nat \<Rightarrow> link \<Rightarrow> link" where
  "serve_turn now u bytes sent s =
     (if sent < length bytes then
        (if lk_closed s then serve_end s
         else if u_cancelled u then serve_finish now u bytes sent s
         else if lk_throws s \<or> \<not> lk_ready s then serve_failed now s
         else (let stop = min (sent + chunk_bytes) (length bytes)
               in set_upload (u\<lparr>u_phase := Sending bytes stop\<rparr>)
                    (emit (SentBinary (take (stop - sent) (drop sent bytes))) s)))
      else serve_finish now u bytes sent s)"

text \<open>\<open>#drained\<close> timed out while the loop waited.\<close>

definition serve_stalled :: "int \<Rightarrow> link \<Rightarrow> link" where
  "serve_stalled now s = serve_failed now (s\<lparr>lk_drain_timed_out := True\<rparr>)"

subsection \<open>Everything that can happen to a link\<close>

inductive link_step :: "link \<Rightarrow> link \<Rightarrow> bool" where
  message: "link_step s (on_message now data s)"
| ask: "link_step s (request now key expected aborted s)"
| abandoned: "reason \<in> {''request-abort'', ''request-timeout''} \<Longrightarrow> link_step s (abandon now rid reason b s)"
| drained: "link_step s (drain_timeout now rid reason s)"
| host_close: "link_step s (close_link now reason s)"
| tell_have: "link_step s (send_have now keys s)"
| tell_change: "link_step s (send_have_change now add del s)"
| tell_contribution: "link_step s (send_contribution now serving rendition s)"
| tell_fetching: "link_step s (send_fetching now key lease s)"
| begin_serve: "lk_uploads s = u # us \<Longrightarrow> u_phase u = Queued \<Longrightarrow> link_step s (serve_begin now u s)"
| answer: "lk_uploads s = u # us \<Longrightarrow> u_phase u = Asked \<Longrightarrow> link_step s (serve_answer now u bytes s)"
| answer_failed: "lk_uploads s = u # us \<Longrightarrow> u_phase u = Asked \<Longrightarrow> link_step s (serve_failed now s)"
| turn: "lk_uploads s = u # us \<Longrightarrow> u_phase u = Sending bytes sent \<Longrightarrow> link_step s (serve_turn now u bytes sent s)"
| stalled: "lk_uploads s = u # us \<Longrightarrow> u_phase u = Sending bytes sent \<Longrightarrow> link_step s (serve_stalled now s)"
| channel_ready: "link_step s (s\<lparr>lk_ready := r\<rparr>)"
| channel_throws: "link_step s (s\<lparr>lk_throws := r\<rparr>)"

inductive link_reachable :: "link \<Rightarrow> bool" where
  opens: "link_reachable (new_link max_segment max_queued reliable now)"
| steps: "link_reachable s \<Longrightarrow> link_step s t \<Longrightarrow> link_reachable t"

end

