(* ===== verification/Peer_Link_Proofs.thy ===== *)
theory Peer_Link_Proofs
  imports Peer_Link
begin

text \<open>
  The invariants of a link under any messages of the peer and any behaviour of the host and the
  channel: bounded tables, a bounded and well-formed pending request, and requests that resolve
  once.
\<close>

subsection \<open>The tables\<close>

lemma length_jset_less: "length m < n \<or> jhas m k \<and> length m \<le> n \<Longrightarrow> length (jset k v m) \<le> n"
  by (auto simp: length_jset)

lemma announce_bound [simp, inv_intros]: "length m \<le> 8 \<Longrightarrow> length (announce now r m) \<le> 8"
proof -
  assume "length m \<le> 8"
  then have "length (jdel r m) \<le> 8" by (rule order_trans [OF length_jdel_le])
  then show ?thesis
    using length_jset_le [of r now "jdel r m"] length_jset_le [of r now "jdel_oldest (jdel r m)"]
      length_jdel_oldest [of "jdel r m"]
    by (cases "jdel r m = []") (auto simp: announce_def Let_def)
qed

lemma announce_newest: "jget (announce now r m) r = Some now"
  by (simp add: announce_def Let_def)

lemma note_rendition_bound [simp, inv_intros]: "length m \<le> 8 \<Longrightarrow> length (note_rendition now r m) \<le> 8"
proof -
  assume "length m \<le> 8"
  then have "length (filter (\<lambda>e. \<not> snd e < now - 30000) m) \<le> 8" by (rule order_trans [OF length_filter_le])
  then show ?thesis by (auto simp: note_rendition_def Let_def length_jset)
qed

lemma note_fetching_bound [simp, inv_intros]: "length m \<le> 24 \<Longrightarrow> length (note_fetching now k ms b m) \<le> 24"
proof -
  assume "length m \<le> 24"
  then have f: "length (filter (\<lambda>e. \<not> snd e \<le> now) m) \<le> 24" by (rule order_trans [OF length_filter_le])
  then have "length (jdel k (filter (\<lambda>e. \<not> snd e \<le> now) m)) \<le> 24" by (rule order_trans [OF length_jdel_le])
  with f show ?thesis by (auto simp: note_fetching_def Let_def length_jset)
qed

lemma set_add_facts: "length (set_add x xs) \<le> Suc (length xs)" "distinct xs \<Longrightarrow> distinct (set_add x xs)"
  by (auto simp: set_add_def)

lemma add_keys_bound:
  "length have1 \<le> max_have_keys \<Longrightarrow> distinct have1 \<Longrightarrow>
     length (fst (add_keys ks have1 added)) \<le> max_have_keys \<and> distinct (fst (add_keys ks have1 added))"
proof (induction ks have1 added rule: add_keys.induct)
  case (2 k ks have1 added)
  show ?case
  proof (cases "max_have_keys \<le> length have1")
    case False
    then have "length (set_add k have1) \<le> max_have_keys"
      using set_add_facts(1) [of k have1] by linarith
    with False 2 show ?thesis by (simp add: set_add_facts(2))
  qed (use 2 in simp)
qed simp

lemma js_keys_bound: "length (js_keys v) \<le> max_have_keys"
  by (auto simp: js_keys_def split: js.splits)

definition tables_inv :: "link \<Rightarrow> bool" where
  "tables_inv s \<longleftrightarrow> length (lk_have s) \<le> max_have_keys \<and> distinct (lk_have s)
     \<and> length (lk_announced s) \<le> 8 \<and> length (lk_renditions s) \<le> 8 \<and> length (lk_fetching s) \<le> 24
     \<and> lk_outbound s = length (lk_uploads s) \<and> length (lk_uploads s) \<le> lk_max_queued s"

lemma tables_emit [simp]: "tables_inv (emit e s) = tables_inv s"
  by (simp add: tables_inv_def emit_def)

lemma tables_pending [simp]: "tables_inv (s\<lparr>lk_pending := p\<rparr>) = tables_inv s"
  by (simp add: tables_inv_def)

lemma tables_finish [simp]: "tables_inv (finish_pending now b r s) = tables_inv s"
  by (simp add: tables_inv_def finish_pending_def emit_def Let_def split: option.splits)

lemma tables_close [simp, inv_intros]: "tables_inv s \<Longrightarrow> tables_inv (close_link now r s)"
proof -
  assume "tables_inv s"
  then have "tables_inv (s\<lparr>lk_closed := True, lk_fetching := [], lk_renditions := [], lk_announced := []\<rparr>)"
    by (simp add: tables_inv_def)
  then have "tables_inv ((finish_pending now b r' (s\<lparr>lk_closed := True, lk_fetching := [], lk_renditions := [],
      lk_announced := []\<rparr>))\<lparr>lk_ready := False\<rparr>)" for b r'
    unfolding tables_finish [of now b r' "s\<lparr>lk_closed := True, lk_fetching := [], lk_renditions := [], lk_announced := []\<rparr>", symmetric]
    by (simp add: tables_inv_def)
  with \<open>tables_inv s\<close> show ?thesis by (simp add: close_link_def Let_def)
qed

lemma tables_send [simp, inv_intros]: "tables_inv s \<Longrightarrow> tables_inv (snd (send_text now m s))"
  by (simp add: send_text_def)

lemma tables_have [simp, inv_intros]: "tables_inv s \<Longrightarrow> tables_inv (on_have m s)"
proof -
  assume inv: "tables_inv s"
  define h where "h = (if is_array (member m ''keys'')
            then (let ks = juniq (js_keys (member m ''keys'')) in (ks, ks)) else (lk_have s, []))"
  have "length (fst h) \<le> max_have_keys \<and> distinct (fst h)"
    using inv js_keys_bound [of "member m ''keys''"] length_juniq_le [of "js_keys (member m ''keys'')"]
    by (auto simp: h_def tables_inv_def Let_def)
  then have "length (fst (add_keys (js_keys (member m ''add'')) (fst h) (snd h))) \<le> max_have_keys
      \<and> distinct (fst (add_keys (js_keys (member m ''add'')) (fst h) (snd h)))"
    using add_keys_bound by blast
  then show ?thesis
    using inv unfolding on_have_def h_def [symmetric]
    by (auto simp: tables_inv_def Let_def emit_def split: prod.splits intro: order_trans [OF length_filter_le])
qed

lemma tables_want [simp, inv_intros]: "tables_inv s \<Longrightarrow> tables_inv (on_want now m s)"
  using tables_close [of s now "''upload-queue''"]
  by (auto simp: on_want_def tables_inv_def split: js.splits)

lemma tables_contribution [simp, inv_intros]: "tables_inv s \<Longrightarrow> tables_inv (on_contribution now m s)"
  by (auto simp: on_contribution_def tables_inv_def Let_def emit_def split: option.splits)

lemma tables_fetching [simp, inv_intros]: "tables_inv s \<Longrightarrow> tables_inv (on_fetching now m s)"
  by (auto simp: on_fetching_def tables_inv_def Let_def emit_def split: js.splits)

lemma tables_cancel [simp, inv_intros]: "tables_inv s \<Longrightarrow> tables_inv (on_cancel m s)"
  by (simp add: on_cancel_def tables_inv_def)

lemma tables_foreign [simp, inv_intros]: "tables_inv s \<Longrightarrow> tables_inv (foreign_response now p s)"
  by (simp add: foreign_response_def)

lemma tables_meta [simp, inv_intros]: "tables_inv s \<Longrightarrow> tables_inv (on_meta now m s)"
  by (simp add: on_meta_def split: option.split js.split)

lemma tables_eof [simp, inv_intros]: "tables_inv s \<Longrightarrow> tables_inv (on_eof now m s)"
  by (simp add: on_eof_def split: option.split)

lemma tables_none [simp, inv_intros]: "tables_inv s \<Longrightarrow> tables_inv (on_none now m s)"
  by (simp add: on_none_def split: option.split)

lemma tables_bytes_in [simp]: "tables_inv (s\<lparr>lk_pending := p, lk_bytes_in := n\<rparr>) = tables_inv s"
  by (simp add: tables_inv_def)

lemma tables_env [simp]: "tables_inv (s\<lparr>lk_bytes_in := n\<rparr>) = tables_inv s"
  "tables_inv (s\<lparr>lk_ready := r\<rparr>) = tables_inv s" "tables_inv (s\<lparr>lk_throws := r\<rparr>) = tables_inv s"
  by (simp_all add: tables_inv_def)

lemma tables_binary [simp, inv_intros]: "tables_inv s \<Longrightarrow> tables_inv (on_binary now chunk s)"
  by (simp add: on_binary_def Let_def split: option.split)

lemma tables_message [inv_intros]: "tables_inv s \<Longrightarrow> tables_inv (on_message now d s)"
  by (cases d) (simp_all add: on_text_def Let_def split: option.split)

lemma tables_request [inv_intros]: "tables_inv s \<Longrightarrow> tables_inv (request now key expected aborted s)"
proof -
  assume "tables_inv s"
  then have "tables_inv (s\<lparr>lk_next_id := n, lk_pending := p\<rparr>)" for n p by (simp add: tables_inv_def)
  then have "tables_inv (snd (send_text now m (emit e (s\<lparr>lk_next_id := n, lk_pending := p\<rparr>))))" for m e n p
    by (intro tables_send) simp
  with \<open>tables_inv s\<close> show ?thesis
    by (simp add: request_def Let_def split_beta)
qed

lemma tables_abandon [inv_intros]: "tables_inv s \<Longrightarrow> tables_inv (abandon now rid reason b s)"
  by (simp add: abandon_def Let_def split_beta split: option.split)

lemma tables_drain [inv_intros]: "tables_inv s \<Longrightarrow> tables_inv (drain_timeout now rid reason s)"
  by (simp add: drain_timeout_def split: option.split)

text \<open>What an upload still needs while it is being served.\<close>

lemma uploads_finish [simp]: "lk_uploads (finish_pending now b r s) = lk_uploads s"
  by (simp add: finish_pending_def emit_def Let_def split: option.split)

lemma uploads_send [simp]: "lk_uploads (close_link now r s) = lk_uploads s" "lk_uploads (emit e s) = lk_uploads s"
  "lk_uploads (snd (send_text now m s)) = lk_uploads s"
  by (simp_all add: send_text_def close_link_def emit_def Let_def)

lemma tables_serve_end [simp]: "tables_inv s \<Longrightarrow> tables_inv (serve_end s)"
  by (auto simp: serve_end_def tables_inv_def)

lemma tables_set_upload [simp]: "tables_inv s \<Longrightarrow> lk_uploads s \<noteq> [] \<Longrightarrow> tables_inv (set_upload u s)"
  by (auto simp: set_upload_def tables_inv_def)

lemma tables_none_reply [simp]: "tables_inv s \<Longrightarrow> tables_inv (none_reply now i s)"
  by (simp add: none_reply_def)

lemma tables_serve_failed [inv_intros]: "tables_inv s \<Longrightarrow> tables_inv (serve_failed now s)"
  by (simp add: serve_failed_def)

lemma tables_begin [inv_intros]: "tables_inv s \<Longrightarrow> lk_uploads s = v # us \<Longrightarrow> tables_inv (serve_begin now u s)"
  by (simp add: serve_begin_def)

lemma tables_answer [inv_intros]:
  assumes "tables_inv s" and "lk_uploads s = v # us"
  shows "tables_inv (serve_answer now u bytes s)"
proof (cases bytes)
  case None
  with assms show ?thesis by (simp add: serve_answer_def)
next
  case (Some b)
  let ?m = "tag ''meta'' [(''id'', JInt (u_id u)), (''size'', JInt (int (length b)))]"
  obtain ok s1 where m: "send_text now ?m s = (ok, s1)" by fastforce
  then have "s1 = snd (send_text now ?m s)" by simp
  then have "tables_inv s1" "lk_uploads s1 \<noteq> []" using assms by simp_all
  then show ?thesis using Some m assms(1) by (cases ok) (simp_all add: serve_answer_def)
qed

lemma tables_finish_serve [simp]: "tables_inv s \<Longrightarrow> tables_inv (serve_finish now u bytes sent s)"
proof -
  assume "tables_inv s"
  then have "tables_inv (s\<lparr>lk_bytes_out := a, lk_last_served := b\<rparr>)" for a b by (simp add: tables_inv_def)
  then show ?thesis by (simp add: serve_finish_def Let_def)
qed

lemma tables_turn [inv_intros]: "tables_inv s \<Longrightarrow> lk_uploads s = v # us \<Longrightarrow> tables_inv (serve_turn now u bytes sent s)"
  by (simp add: serve_turn_def Let_def tables_serve_failed)

lemma tables_stalled [inv_intros]: "tables_inv s \<Longrightarrow> tables_inv (serve_stalled now s)"
  unfolding serve_stalled_def by (rule tables_serve_failed) (simp add: tables_inv_def)

lemma tables_step: "link_step s t \<Longrightarrow> tables_inv s \<Longrightarrow> tables_inv t"
proof (induction rule: link_step.induct)
  case (message s now data)
  then show ?case by (rule tables_message)
next
  case (ask s now key expected aborted)
  then show ?case by (rule tables_request)
next
  case (abandoned reason s now rid b)
  from abandoned(2) show ?case by (rule tables_abandon)
next
  case (begin_serve s u us now)
  from begin_serve(3,1) show ?case by (rule tables_begin)
next
  case (answer s u us now bytes)
  from answer(3,1) show ?case by (rule tables_answer)
next
  case (turn s u us bytes sent now)
  from turn(3,1) show ?case by (rule tables_turn)
next
  case (drained s now rid reason)
  then show ?case by (rule tables_drain)
next
  case (answer_failed s u us now)
  from answer_failed(3) show ?case by (rule tables_serve_failed)
next
  case (stalled s u us bytes sent now)
  from stalled(3) show ?case by (rule tables_stalled)
qed (simp_all add: send_have_def send_have_change_def send_contribution_def send_fetching_def)

subsection \<open>The pending request and what was resolved\<close>

fun outcome_of :: "link_event \<Rightarrow> (int \<times> byte list option) list" where
  "outcome_of (Resolved i b r) = (if i = 0 then [] else [(i, b)])"
| "outcome_of _ = []"

definition resolved :: "link \<Rightarrow> (int \<times> byte list option) list" where
  "resolved s = concat (map outcome_of (lk_out s))"

definition resolved_ids :: "link \<Rightarrow> int set" where
  "resolved_ids s = fst ` set (resolved s)"

text \<open>A payload is one that request \<open>i\<close> asked for: the size it expected, at most a segment.\<close>

definition payload_ok :: "link \<Rightarrow> int \<Rightarrow> byte list \<Rightarrow> bool" where
  "payload_ok s i bytes \<longleftrightarrow> bytes \<noteq> [] \<and> int (length bytes) \<le> lk_max_segment s
     \<and> (\<exists>key expected. Requested i key expected \<in> set (lk_out s)
          \<and> (expected = None \<or> expected = Some (int (length bytes))))"

definition ids_inv :: "link \<Rightarrow> bool" where
  "ids_inv s \<longleftrightarrow> 1 \<le> lk_next_id s \<and> distinct (map fst (resolved s))
     \<and> (\<forall>i \<in> resolved_ids s. 1 \<le> i \<and> i < lk_next_id s)
     \<and> (\<forall>i b. (i, Some b) \<in> set (resolved s) \<longrightarrow> payload_ok s i b)
     \<and> (lk_closed s \<longrightarrow> lk_pending s = None)
     \<and> (\<forall>p. lk_pending s = Some p \<longrightarrow> 1 \<le> p_id p \<and> p_id p < lk_next_id s
          \<and> p_draining p = (p_id p \<in> resolved_ids s)
          \<and> Requested (p_id p) (p_key p) (p_expected p) \<in> set (lk_out s))"

definition shape_ok :: "link \<Rightarrow> pending_request \<Rightarrow> bool" where
  "shape_ok s p \<longleftrightarrow> p_chunks p \<le> link_max_chunks s
     \<and> (if p_size p = -1 then p_received p = 0
        else 1 \<le> p_size p \<and> p_size p \<le> lk_max_segment s \<and> p_received p \<le> p_size p
          \<and> (p_expected p = None \<or> p_expected p = Some (p_size p)))
     \<and> (if p_draining p then p_parts p = [] else int (length (concat (p_parts p))) = p_received p)"

definition pending_inv :: "link \<Rightarrow> bool" where
  "pending_inv s \<longleftrightarrow> ids_inv s \<and> (\<forall>p. lk_pending s = Some p \<longrightarrow> shape_ok s p)"

lemma resolved_emit: "resolved (emit e s) = resolved s @ outcome_of e"
  by (simp add: resolved_def emit_def)

lemma resolved_update [simp]:
  "resolved (s\<lparr>lk_pending := p\<rparr>) = resolved s" "resolved (s\<lparr>lk_last_delivered := t\<rparr>) = resolved s"
  "resolved (s\<lparr>lk_closed := b\<rparr>) = resolved s" "resolved (s\<lparr>lk_next_id := n\<rparr>) = resolved s"
  "resolved_ids (s\<lparr>lk_pending := p\<rparr>) = resolved_ids s" "resolved_ids (s\<lparr>lk_last_delivered := t\<rparr>) = resolved_ids s"
  "resolved_ids (s\<lparr>lk_closed := b\<rparr>) = resolved_ids s" "resolved_ids (s\<lparr>lk_next_id := n\<rparr>) = resolved_ids s"
  "payload_ok (s\<lparr>lk_pending := p\<rparr>) = payload_ok s" "payload_ok (s\<lparr>lk_last_delivered := t\<rparr>) = payload_ok s"
  "payload_ok (s\<lparr>lk_closed := b\<rparr>) = payload_ok s" "payload_ok (s\<lparr>lk_next_id := n\<rparr>) = payload_ok s"
  by (simp_all add: resolved_def resolved_ids_def payload_ok_def fun_eq_iff)

lemma emit_fields [simp]: "lk_pending (emit e s) = lk_pending s" "lk_closed (emit e s) = lk_closed s"
  "lk_next_id (emit e s) = lk_next_id s" "lk_max_segment (emit e s) = lk_max_segment s"
  "lk_ready (emit e s) = lk_ready s" "lk_throws (emit e s) = lk_throws s" "lk_out (emit e s) = lk_out s @ [e]"
  by (simp_all add: emit_def)

lemma payload_emit: "payload_ok s i b \<Longrightarrow> payload_ok (emit e s) i b"
  by (auto simp: payload_ok_def)

lemma ids_emit:
  assumes "ids_inv s" and "outcome_of e = []"
  shows "ids_inv (emit e s)"
proof -
  have "resolved (emit e s) = resolved s" "resolved_ids (emit e s) = resolved_ids s"
    using assms(2) by (simp_all add: resolved_emit resolved_ids_def)
  then show ?thesis using assms(1) payload_emit by (simp add: ids_inv_def)
qed

lemma shape_emit [simp]: "shape_ok (emit e s) p = shape_ok s p"
  by (simp add: shape_ok_def emit_def link_max_chunks_def)

lemma pending_emit [intro]: "pending_inv s \<Longrightarrow> outcome_of e = [] \<Longrightarrow> pending_inv (emit e s)"
  by (simp add: pending_inv_def ids_emit)

lemma pending_emits [intro]:
  "pending_inv s \<Longrightarrow> pending_inv (emit (UploadCancelled n) s)" "pending_inv s \<Longrightarrow> pending_inv (emit (SentBinary b) s)"
  "pending_inv s \<Longrightarrow> pending_inv (emit (SentText m) s)" "pending_inv s \<Longrightarrow> pending_inv (emit ScheduleChange s)"
  "pending_inv s \<Longrightarrow> pending_inv (emit (HaveChange ks) s)" "pending_inv s \<Longrightarrow> pending_inv (emit (Closed r) s)"
  by (simp_all add: pending_emit)

text \<open>Changes of the fields that the invariant does not read.\<close>

definition same_requests :: "link \<Rightarrow> link \<Rightarrow> bool" where
  "same_requests s t \<longleftrightarrow> lk_pending t = lk_pending s \<and> lk_closed t = lk_closed s \<and> lk_next_id t = lk_next_id s
     \<and> lk_out t = lk_out s \<and> lk_max_segment t = lk_max_segment s"

lemma same_requests_inv: "same_requests s t \<Longrightarrow> ids_inv s \<Longrightarrow> ids_inv t"
  by (simp add: same_requests_def ids_inv_def resolved_def resolved_ids_def payload_ok_def)

lemma same_requests_pending: "same_requests s t \<Longrightarrow> pending_inv s \<Longrightarrow> pending_inv t"
  using same_requests_inv by (auto simp: pending_inv_def) (auto simp: same_requests_def shape_ok_def link_max_chunks_def)

lemma ids_finish:
  assumes "ids_inv s" and "\<And>p b. lk_pending s = Some p \<Longrightarrow> \<not> p_draining p \<Longrightarrow> bytes = Some b \<Longrightarrow> payload_ok s (p_id p) b"
  shows "ids_inv (finish_pending now bytes r s) \<and> lk_pending (finish_pending now bytes r s) = None
    \<and> lk_closed (finish_pending now bytes r s) = lk_closed s"
proof (cases "lk_pending s")
  case None
  then show ?thesis using assms(1) by (simp add: finish_pending_def)
next
  case (Some p)
  define s1 where "s1 = (if p_draining p then s else emit (Resolved (p_id p) bytes r) s)"
  have i: "1 \<le> p_id p" "p_id p < lk_next_id s" "p_draining p = (p_id p \<in> resolved_ids s)"
    using assms(1) Some by (auto simp: ids_inv_def)
  have s1: "lk_next_id s1 = lk_next_id s" "lk_closed s1 = lk_closed s" "lk_max_segment s1 = lk_max_segment s"
    "set (lk_out s) \<subseteq> set (lk_out s1)" "resolved s1 = resolved s @ (if p_draining p then [] else [(p_id p, bytes)])"
    using i(1) by (auto simp: s1_def resolved_emit)
  have "payload_ok s1 j b" if "(j, Some b) \<in> set (resolved s1)" for j b
  proof -
    have "payload_ok s j b" using that assms Some s1(5) by (auto simp: ids_inv_def split: if_splits)
    then show ?thesis using s1(3,4) by (auto simp: payload_ok_def)
  qed
  moreover have "distinct (map fst (resolved s1))" "\<forall>j \<in> resolved_ids s1. 1 \<le> j \<and> j < lk_next_id s1"
    using assms(1) i s1 by (auto simp: ids_inv_def resolved_ids_def)
  ultimately have none: "ids_inv (s1\<lparr>lk_pending := None, lk_last_delivered := t\<rparr>)" for t
    using assms(1) s1(1,2) unfolding ids_inv_def by simp
  show ?thesis
    using ids_emit [OF none, of ScheduleChange] none s1(2) unfolding finish_pending_def Some
    by (simp add: s1_def [symmetric] Let_def)
qed

lemma finish_fields [simp]: "lk_pending (finish_pending now b r s) = None"
  by (simp add: finish_pending_def Let_def split: option.split)

lemma ids_close:
  assumes "ids_inv s"
  shows "ids_inv (close_link now r s) \<and> lk_pending (close_link now r s) = None \<and> lk_closed (close_link now r s)"
proof (cases "lk_closed s")
  case True
  then show ?thesis using assms by (simp add: close_link_def ids_inv_def)
next
  case False
  let ?s1 = "s\<lparr>lk_fetching := [], lk_renditions := [], lk_announced := []\<rparr>"
  let ?r = "if r \<in> set close_reasons then r else ''host''"
  let ?o = "if ?r = ''send-error'' then ''send-error'' else ''closed''"
  have e: "finish_pending now None ?o (s\<lparr>lk_closed := True, lk_fetching := [], lk_renditions := [], lk_announced := []\<rparr>)
      = (case lk_pending s of None \<Rightarrow> s\<lparr>lk_closed := True, lk_fetching := [], lk_renditions := [], lk_announced := []\<rparr>
         | Some p \<Rightarrow> (if p_draining p then s else emit (Resolved (p_id p) None ?o) s)
             \<lparr>lk_pending := None, lk_closed := True, lk_fetching := [], lk_renditions := [], lk_announced := []\<rparr>)"
    by (simp add: finish_pending_def emit_def Let_def split: option.split)
  have "ids_inv ((case lk_pending s of None \<Rightarrow> s | Some p \<Rightarrow> (if p_draining p then s else emit (Resolved (p_id p) None ?o) s))
      \<lparr>lk_pending := None, lk_closed := True\<rparr>)"
  proof (cases "lk_pending s")
    case None
    with assms show ?thesis by (simp add: ids_inv_def)
  next
    case (Some p)
    then have "ids_inv (finish_pending now None ?o s)" using ids_finish [OF assms, of None] by blast
    then show ?thesis using Some
      by (cases "p_draining p") (auto simp: finish_pending_def Let_def ids_inv_def resolved_emit payload_ok_def
          resolved_ids_def split: if_splits)
  qed
  then have "ids_inv ((finish_pending now None ?o (s\<lparr>lk_closed := True, lk_fetching := [], lk_renditions := [],
      lk_announced := []\<rparr>))\<lparr>lk_ready := False\<rparr>)"
    unfolding e by (rule same_requests_inv [rotated]) (simp add: same_requests_def split: option.split)
  then have "ids_inv (emit (Closed ?r) ((finish_pending now None ?o (s\<lparr>lk_closed := True, lk_fetching := [],
      lk_renditions := [], lk_announced := []\<rparr>))\<lparr>lk_ready := False\<rparr>))"
    by (rule ids_emit) simp
  then show ?thesis using False by (simp add: close_link_def Let_def e split: option.split)
qed

lemma pending_close [intro]: "ids_inv s \<Longrightarrow> pending_inv (close_link now r s)"
  using ids_close by (simp add: pending_inv_def)

lemma pending_ids: "pending_inv s \<Longrightarrow> ids_inv s"
  by (simp add: pending_inv_def)

lemma pending_finish [intro]:
  "ids_inv s \<Longrightarrow> (\<And>p b. lk_pending s = Some p \<Longrightarrow> \<not> p_draining p \<Longrightarrow> bytes = Some b \<Longrightarrow> payload_ok s (p_id p) b) \<Longrightarrow>
     pending_inv (finish_pending now bytes r s)"
  using ids_finish [of s bytes now r] by (simp add: pending_inv_def)

lemma pending_send [intro]: "pending_inv s \<Longrightarrow> pending_inv (snd (send_text now m s))"
  by (auto simp: send_text_def dest: pending_ids)

lemma foreign_pending [intro]: "pending_inv s \<Longrightarrow> pending_inv (foreign_response now p s)"
  by (auto simp: foreign_response_def dest: pending_ids)

lemma ids_set_pending:
  assumes "ids_inv s" and "lk_pending s = Some p" and "p_id q = p_id p" "p_draining q = p_draining p"
    "p_key q = p_key p" "p_expected q = p_expected p"
  shows "ids_inv (s\<lparr>lk_pending := Some q\<rparr>)"
  using assms by (simp add: ids_inv_def)

lemma pending_set_pending:
  assumes "pending_inv s" and "lk_pending s = Some p" and "p_id q = p_id p" "p_draining q = p_draining p"
    "p_key q = p_key p" "p_expected q = p_expected p" and "shape_ok s q"
  shows "pending_inv (s\<lparr>lk_pending := Some q\<rparr>)"
  using assms ids_set_pending [of s p q]
  by (auto simp: pending_inv_def shape_ok_def link_max_chunks_def)

lemma pending_meta [intro]: "pending_inv s \<Longrightarrow> pending_inv (on_meta now m s)"
proof (cases "lk_pending s")
  case (Some p)
  assume inv: "pending_inv s"
  then have sh: "shape_ok s p" using Some by (simp add: pending_inv_def)
  show ?thesis
  proof (cases "member m ''size''")
    case (JInt n)
    have "pending_inv (s\<lparr>lk_pending := Some (p\<lparr>p_size := n\<rparr>)\<rparr>)"
      if "p_size p = -1" "1 \<le> n" "n \<le> lk_max_segment s" "p_expected p = None \<or> p_expected p = Some n"
      using that sh by (intro pending_set_pending [OF inv Some]) (auto simp: shape_ok_def split: if_splits)
    then show ?thesis using inv Some JInt pending_close [OF pending_ids [OF inv]] foreign_pending [OF inv]
      by (cases "p_expected p") (auto simp: on_meta_def)
  qed (use inv Some pending_close [OF pending_ids [OF inv]] foreign_pending [OF inv] in \<open>auto simp: on_meta_def\<close>)
qed (simp add: on_meta_def)

lemma payload_of_pending:
  assumes "pending_inv s" and "lk_pending s = Some p" and "\<not> p_draining p" and "p_received p = p_size p"
  shows "payload_ok s (p_id p) (concat (p_parts p))"
proof -
  have sh: "shape_ok s p" using assms by (simp add: pending_inv_def)
  then have "p_size p \<noteq> -1" using assms(4) by (auto simp: shape_ok_def split: if_splits)
  then have "int (length (concat (p_parts p))) = p_size p" "1 \<le> p_size p" "p_size p \<le> lk_max_segment s"
    "p_expected p = None \<or> p_expected p = Some (p_size p)"
    using sh assms(3,4) by (auto simp: shape_ok_def)
  moreover have "Requested (p_id p) (p_key p) (p_expected p) \<in> set (lk_out s)"
    using assms(1,2) by (simp add: pending_inv_def ids_inv_def)
  moreover have "concat (p_parts p) \<noteq> []"
  proof
    assume c: "concat (p_parts p) = []"
    from calculation(1,2) show False unfolding c by simp
  qed
  ultimately show ?thesis unfolding payload_ok_def by metis
qed

lemma pending_eof [intro]: "pending_inv s \<Longrightarrow> pending_inv (on_eof now m s)"
  using pending_close [OF pending_ids] foreign_pending payload_of_pending
  by (auto simp: on_eof_def split: option.split intro!: pending_finish dest: pending_ids)

lemma pending_none [intro]: "pending_inv s \<Longrightarrow> pending_inv (on_none now m s)"
  using pending_close [OF pending_ids] foreign_pending
  by (auto simp: on_none_def split: option.split intro!: pending_finish dest: pending_ids)

lemma pending_binary [intro]: "pending_inv s \<Longrightarrow> pending_inv (on_binary now chunk s)"
proof (cases "lk_pending s")
  case (Some p)
  assume inv: "pending_inv s"
  then have sh: "shape_ok s p" using Some by (simp add: pending_inv_def)
  define p1 where "p1 = p\<lparr>p_chunks := p_chunks p + 1, p_received := p_received p + int (length chunk)\<rparr>"
  define s1 where "s1 = s\<lparr>lk_bytes_in := lk_bytes_in s + int (length chunk)\<rparr>"
  have inv1: "pending_inv s1" and Some1: "lk_pending s1 = Some p"
    using inv Some by (auto simp: s1_def intro: same_requests_pending [rotated] simp: same_requests_def)
  have upd: "s\<lparr>lk_pending := q, lk_bytes_in := lk_bytes_in s + int (length chunk)\<rparr> = s1\<lparr>lk_pending := q\<rparr>" for q
    by (simp add: s1_def)
  have ids1: "ids_inv (s1\<lparr>lk_pending := Some p1\<rparr>)"
    by (rule ids_set_pending [OF pending_ids [OF inv1] Some1]) (simp_all add: p1_def)
  have fits: "pending_inv (s1\<lparr>lk_pending := Some q\<rparr>)"
    if "\<not> p_size p < 0" "p_chunks p < link_max_chunks s" "\<not> p_received p1 > p_size p"
      "q = (if p_draining p then p1 else p1\<lparr>p_parts := p_parts p1 @ [chunk]\<rparr>)" for q
  proof (rule pending_set_pending [OF inv1 Some1])
    show "shape_ok s1 q"
      using that sh by (auto simp: shape_ok_def s1_def link_max_chunks_def p1_def split: if_splits)
  qed (use that in \<open>simp_all add: p1_def\<close>)
  have p1_simps: "p_size p1 = p_size p" "p_draining p1 = p_draining p" by (simp_all add: p1_def)
  show ?thesis
    unfolding on_binary_def Some option.case Let_def p1_def [symmetric] upd p1_simps
    using pending_close [OF pending_ids [OF inv]] pending_close [OF ids1] fits by auto
qed (simp add: on_binary_def)

lemma pending_frame:
  assumes "pending_inv s" and "same_requests s t"
  shows "pending_inv t" "pending_inv (emit (HaveChange ks) t)" "pending_inv (emit ScheduleChange t)"
  using same_requests_pending [OF assms(2,1)] by auto

lemma pending_have [intro]: "pending_inv s \<Longrightarrow> pending_inv (on_have m s)"
proof -
  assume inv: "pending_inv s"
  have "same_requests s (s\<lparr>lk_have := h\<rparr>)" for h by (simp add: same_requests_def)
  then show ?thesis using pending_frame [OF inv] by (simp add: on_have_def Let_def case_prod_beta)
qed

lemma pending_uploads: "pending_inv s \<Longrightarrow> pending_inv (s\<lparr>lk_uploads := us\<rparr>)"
  "pending_inv s \<Longrightarrow> pending_inv (s\<lparr>lk_outbound := n, lk_uploads := us\<rparr>)"
  "pending_inv s \<Longrightarrow> pending_inv (s\<lparr>lk_uploads := us, lk_outbound := n\<rparr>)"
  "pending_inv s \<Longrightarrow> pending_inv (s\<lparr>lk_ready := r\<rparr>)" "pending_inv s \<Longrightarrow> pending_inv (s\<lparr>lk_throws := r\<rparr>)"
  "pending_inv s \<Longrightarrow> pending_inv (s\<lparr>lk_drain_timed_out := r\<rparr>)"
  "pending_inv s \<Longrightarrow> pending_inv (s\<lparr>lk_bytes_out := m, lk_last_served := now\<rparr>)"
  by (erule same_requests_pending [rotated], simp add: same_requests_def)+

lemma pending_want [intro]: "pending_inv s \<Longrightarrow> pending_inv (on_want now m s)"
  using pending_close [OF pending_ids] by (simp add: on_want_def pending_uploads split: js.split)

lemma pending_cancel [intro]: "pending_inv s \<Longrightarrow> pending_inv (on_cancel m s)"
  by (simp add: on_cancel_def pending_uploads)

lemma pending_contribution [intro]: "pending_inv s \<Longrightarrow> pending_inv (on_contribution now m s)"
proof -
  assume inv: "pending_inv s"
  have "same_requests s (s\<lparr>lk_contribution := c, lk_announced := a, lk_fetching := f, lk_renditions := r\<rparr>)"
    "same_requests s (s\<lparr>lk_contribution := c, lk_announced := a, lk_renditions := r\<rparr>)"
    "same_requests s (s\<lparr>lk_contribution := c, lk_fetching := f, lk_renditions := r\<rparr>)"
    "same_requests s (s\<lparr>lk_contribution := c\<rparr>)" for c a f r
    by (simp_all add: same_requests_def)
  then show ?thesis using inv pending_frame(3) [OF inv]
    by (simp add: on_contribution_def Let_def split: option.split)
qed

lemma pending_fetching [intro]: "pending_inv s \<Longrightarrow> pending_inv (on_fetching now m s)"
proof -
  assume inv: "pending_inv s"
  have "same_requests s (s\<lparr>lk_fetching := f\<rparr>)" for f by (simp add: same_requests_def)
  then show ?thesis using inv pending_frame(3) [OF inv]
    by (simp add: on_fetching_def Let_def split: js.split)
qed

lemma pending_message: "pending_inv s \<Longrightarrow> pending_inv (on_message now d s)"
  using pending_close [OF pending_ids]
  by (cases d) (auto simp: on_text_def Let_def split: option.split)

lemma pending_request [intro]: "pending_inv s \<Longrightarrow> pending_inv (request now key expected aborted s)"
proof -
  assume inv: "pending_inv s"
  show ?thesis
  proof (cases "lk_closed s \<or> lk_pending s \<noteq> None \<or> aborted")
    case True
    then show ?thesis using inv by (auto simp: request_def)
  next
    case False
    define p where "p = \<lparr>p_id = lk_next_id s, p_key = key, p_expected = expected, p_size = -1, p_parts = [],
      p_chunks = 0, p_received = 0, p_draining = False, p_cancelled = False\<rparr>"
    define s1 where "s1 = emit (Requested (lk_next_id s) key expected) (s\<lparr>lk_next_id := lk_next_id s + 1, lk_pending := Some p\<rparr>)"
    have i: "ids_inv s" using inv by (rule pending_ids)
    have res: "resolved s1 = resolved s" "resolved_ids s1 = resolved_ids s"
      by (simp_all add: s1_def resolved_emit resolved_ids_def)
    have "payload_ok s1 j b" if "payload_ok s j b" for j b
      using that by (auto simp: s1_def payload_ok_def)
    moreover have "lk_next_id s \<notin> resolved_ids s" using i by (auto simp: ids_inv_def)
    ultimately have "ids_inv s1"
      using i False unfolding ids_inv_def res by (auto simp: s1_def p_def)
    then have inv1: "pending_inv s1" by (simp add: pending_inv_def) (simp add: s1_def p_def shape_ok_def)
    let ?m = "tag ''want'' [(''id'', JInt (lk_next_id s)), (''k'', JStr key)]"
    obtain ok s2 where m: "send_text now ?m s1 = (ok, s2)" by fastforce
    have "s2 = snd (send_text now ?m s1)" using m by simp
    then have inv2: "pending_inv s2" using inv1 by auto
    have "request now key expected aborted s = (if ok then s2
               else if (case lk_pending s2 of None \<Rightarrow> False | Some q \<Rightarrow> p_id q = lk_next_id s)
               then finish_pending now None ''send-error'' s2 else s2)"
      using False m by (simp add: request_def Let_def s1_def p_def)
    then show ?thesis using inv2 by (auto intro: pending_finish dest: pending_ids)
  qed
qed

lemma pending_abandon [intro]: "pending_inv s \<Longrightarrow> pending_inv (abandon now rid reason b s)"
proof (cases "lk_pending s")
  case (Some p)
  assume inv: "pending_inv s"
  have fin: "pending_inv (finish_pending now None o1 s)" for o1 using inv by (auto intro: pending_finish dest: pending_ids)
  show ?thesis
  proof (cases "p_id p \<noteq> rid \<or> p_draining p")
    case True
    with Some inv show ?thesis by (simp add: abandon_def)
  next
    case mine: False
    show ?thesis
    proof (cases "lk_reliable s \<and> lk_ready s")
      case False
      with Some mine show ?thesis using pending_close [OF pending_ids [OF fin]] by (simp add: abandon_def)
    next
      case True
      define p1 where "p1 = p\<lparr>p_draining := True, p_parts := []\<rparr>"
      define s1 where "s1 = emit (Resolved rid None (abandon_outcome reason b)) (s\<lparr>lk_pending := Some p1\<rparr>)"
      have i: "ids_inv s" using inv by (rule pending_ids)
      then have rid: "1 \<le> rid" "rid < lk_next_id s" "rid \<notin> resolved_ids s" "p_id p = rid" "\<not> lk_closed s"
        "Requested rid (p_key p) (p_expected p) \<in> set (lk_out s)"
        using Some mine by (auto simp: ids_inv_def)
      have res: "resolved s1 = resolved s @ [(rid, None)]" "resolved_ids s1 = insert rid (resolved_ids s)"
        using rid(1) by (auto simp: s1_def resolved_emit resolved_ids_def)
      have "payload_ok s1 j b" if "payload_ok s j b" for j b
        using that by (auto simp: s1_def payload_ok_def)
      then have "ids_inv s1"
        using i rid unfolding ids_inv_def res by (auto simp: s1_def p1_def resolved_ids_def)
      moreover have "shape_ok s1 p1"
        using inv Some mine by (auto simp: pending_inv_def shape_ok_def s1_def p1_def link_max_chunks_def split: if_splits)
      ultimately have inv1: "pending_inv s1" by (simp add: pending_inv_def) (simp add: s1_def)
      let ?m = "tag ''cancel'' [(''id'', JInt rid)]"
      obtain ok s2 where m: "send_text now ?m s1 = (ok, s2)" by fastforce
      have "s2 = snd (send_text now ?m s1)" using m by simp
      then have inv2: "pending_inv s2" using inv1 by auto
      have "pending_inv (s2\<lparr>lk_pending := map_option (\<lambda>q. q\<lparr>p_cancelled := ok\<rparr>) (lk_pending s2)\<rparr>)"
      proof (cases "lk_pending s2")
        case (Some q)
        then have "shape_ok s2 (q\<lparr>p_cancelled := ok\<rparr>)" using inv2 by (simp add: pending_inv_def shape_ok_def)
        then show ?thesis using Some pending_set_pending [OF inv2 Some, of "q\<lparr>p_cancelled := ok\<rparr>"] by simp
      next
        case None
        then show ?thesis using inv2 by (simp add: pending_inv_def ids_inv_def)
      qed
      then show ?thesis using Some mine True m by (simp add: abandon_def Let_def s1_def p1_def)
    qed
  qed
qed (simp add: abandon_def)

lemma pending_drain [intro]: "pending_inv s \<Longrightarrow> pending_inv (drain_timeout now rid reason s)"
  using pending_close [OF pending_ids] by (simp add: drain_timeout_def split: option.split)

lemma pending_serve_end [intro]: "pending_inv s \<Longrightarrow> pending_inv (serve_end s)"
  by (simp add: serve_end_def pending_uploads)

lemma pending_set_upload [intro]: "pending_inv s \<Longrightarrow> pending_inv (set_upload u s)"
  by (simp add: set_upload_def pending_uploads)

lemma pending_none_reply [intro]: "pending_inv s \<Longrightarrow> pending_inv (none_reply now i s)"
  unfolding none_reply_def by (rule pending_send)

lemma pending_serve_begin [intro]: "pending_inv s \<Longrightarrow> pending_inv (serve_begin now u s)"
  by (auto simp: serve_begin_def)

lemma pending_serve_answer [intro]: "pending_inv s \<Longrightarrow> pending_inv (serve_answer now u bytes s)"
proof (cases bytes)
  case (Some b)
  assume inv: "pending_inv s"
  let ?m = "tag ''meta'' [(''id'', JInt (u_id u)), (''size'', JInt (int (length b)))]"
  obtain ok s1 where m: "send_text now ?m s = (ok, s1)" by fastforce
  have "s1 = snd (send_text now ?m s)" using m by simp
  then have "pending_inv s1" using inv by auto
  then show ?thesis using Some m inv by (cases ok) (auto simp: serve_answer_def)
qed (auto simp: serve_answer_def)

lemma pending_serve_failed [intro]: "pending_inv s \<Longrightarrow> pending_inv (serve_failed now s)"
  using pending_close [OF pending_ids] by (auto simp: serve_failed_def)

lemma pending_serve_finish [intro]: "pending_inv s \<Longrightarrow> pending_inv (serve_finish now u bytes sent s)"
  by (auto simp: serve_finish_def Let_def intro!: pending_serve_end pending_send pending_emits(1) pending_uploads(7))

lemma pending_serve_turn [intro]: "pending_inv s \<Longrightarrow> pending_inv (serve_turn now u bytes sent s)"
  by (auto simp: serve_turn_def Let_def)

lemma pending_stalled [intro]: "pending_inv s \<Longrightarrow> pending_inv (serve_stalled now s)"
  unfolding serve_stalled_def by (rule pending_serve_failed) (rule pending_uploads)

lemma pending_step: "link_step s t \<Longrightarrow> pending_inv s \<Longrightarrow> pending_inv t"
proof (induction rule: link_step.induct)
  case (message s now data)
  then show ?case by (rule pending_message)
qed (auto simp: send_have_def send_have_change_def send_contribution_def send_fetching_def
    intro: pending_uploads(4,5) dest: pending_ids)

lemma link_reachable_inv: "link_reachable s \<Longrightarrow> tables_inv s \<and> pending_inv s"
proof (induction rule: link_reachable.induct)
  case (opens max_segment max_queued reliable now)
  show ?case
    by (simp add: new_link_def tables_inv_def pending_inv_def ids_inv_def resolved_def resolved_ids_def)
next
  case (steps s t)
  then show ?case using tables_step pending_step by blast
qed

end
