(* ===== verification/Peer_Link_Claims.thy ===== *)
theory Peer_Link_Claims
  imports Peer_Link_Proofs
begin

text \<open>
  What the peer link promises: bounded memory and one resolution per request whatever the peer
  sends, delivery of a served segment across the two ends, and cancellation that leaves the link usable.
\<close>

text \<open>
  C17: whatever the peer sends and whatever the host and the channel do, in any order, a link stays
  within its bounds and every request resolves at most once; a payload that is handed out answers a
  request that was made, is not empty, has exactly the size that request expected, and fits in a
  segment; the bytes held for the pending request never exceed a segment.
\<close>

theorem link_invariant:
  assumes "link_reachable s"
  shows "length (lk_have s) \<le> 256 \<and> length (lk_announced s) \<le> 8 \<and> length (lk_renditions s) \<le> 8
    \<and> length (lk_fetching s) \<le> 24 \<and> length (lk_uploads s) \<le> lk_max_queued s \<and> lk_outbound s = length (lk_uploads s)
    \<and> distinct (map fst (resolved s))
    \<and> (\<forall>i bytes. (i, Some bytes) \<in> set (resolved s) \<longrightarrow> bytes \<noteq> [] \<and> int (length bytes) \<le> lk_max_segment s
         \<and> (\<exists>key expected. Requested i key expected \<in> set (lk_out s)
              \<and> (expected = None \<or> expected = Some (int (length bytes)))))
    \<and> (\<forall>p. lk_pending s = Some p \<longrightarrow>
         \<not> lk_closed s \<and> int (length (concat (p_parts p))) \<le> max 0 (lk_max_segment s))"
proof -
  have t: "tables_inv s" and p: "pending_inv s" using link_reachable_inv [OF assms] by auto
  have "int (length (concat (p_parts p))) \<le> max 0 (lk_max_segment s)" if "lk_pending s = Some p" for p
  proof -
    have sh: "shape_ok s p" using p that by (simp add: pending_inv_def)
    show ?thesis
    proof (cases "p_draining p")
      case True
      then show ?thesis using sh by (simp add: shape_ok_def)
    next
      case False
      then have "int (length (concat (p_parts p))) = p_received p" using sh unfolding shape_ok_def by presburger
      then show ?thesis using sh by (auto simp: shape_ok_def split: if_splits)
    qed
  qed
  then show ?thesis using t p
    by (auto simp: tables_inv_def pending_inv_def ids_inv_def payload_ok_def max_have_keys_def)
qed

theorem link_invariant_witness:
  "length (lk_have (on_message 5 (Text ''{}'') (request 3 ''k'' (Some 7) False (new_link 100 4 True 0)))) \<le> 256"
proof -
  have "link_reachable (request 3 ''k'' (Some 7) False (new_link 100 4 True 0))"
    using link_reachable.steps [OF link_reachable.opens link_step.ask] .
  then have "link_reachable (on_message 5 (Text ''{}'') (request 3 ''k'' (Some 7) False (new_link 100 4 True 0)))"
    using link_reachable.steps [OF _ link_step.message] by blast
  from link_invariant [OF this] show ?thesis by blast
qed

subsection \<open>Messages on the wire\<close>

fun wire :: "link_event \<Rightarrow> channel_data list" where
  "wire (SentText m) = [Text (json_text m)]"
| "wire (SentBinary b) = [Binary b]"
| "wire _ = []"

definition deliver :: "int \<Rightarrow> link_event list \<Rightarrow> link \<Rightarrow> link" where
  "deliver now evs s = foldl (\<lambda>s d. on_message now d s) s (concat (map wire evs))"

lemma deliver_Nil [simp]: "deliver now [] s = s"
  by (simp add: deliver_def)

lemma deliver_Cons: "deliver now (e # evs) s = deliver now evs (foldl (\<lambda>s d. on_message now d s) s (wire e))"
  by (simp add: deliver_def)

lemma length_int_text: "safe_int n \<Longrightarrow> length (int_text n) \<le> 17"
proof -
  assume "safe_int n"
  then have "nat n < 10 ^ 16" "nat (- n) < 10 ^ 16" by (auto simp: safe_int_def max_safe_def)
  then have "length (nat_text (nat n)) \<le> 16" "length (nat_text (nat (- n))) \<le> 16" by (intro length_nat_text; simp)+
  then show ?thesis by (simp add: int_text_def)
qed

text \<open>The control messages that carry an id, and a size: short, and read back as they were.\<close>

lemma id_message:
  assumes "safe_int i" and "length t \<le> 8"
  shows "length (json_text (tag t [(''id'', JInt i)])) \<le> 65536"
    and "json_parse (json_text (tag t [(''id'', JInt i)])) = Some (tag t [(''id'', JInt i)])"
proof -
  show "length (json_text (tag t [(''id'', JInt i)])) \<le> 65536"
    using length_string_text [of "''t''"] length_string_text [of "''id''"] length_string_text [of t]
      length_int_text [OF assms(1)] assms(2) by (simp add: tag_def)
  show "json_parse (json_text (tag t [(''id'', JInt i)])) = Some (tag t [(''id'', JInt i)])"
    by (rule json_roundtrip) (simp add: tag_def jwf_def)
qed

lemma size_message:
  assumes "safe_int i" and "safe_int n"
  shows "length (json_text (tag ''meta'' [(''id'', JInt i), (''size'', JInt n)])) \<le> 65536"
    and "json_parse (json_text (tag ''meta'' [(''id'', JInt i), (''size'', JInt n)]))
      = Some (tag ''meta'' [(''id'', JInt i), (''size'', JInt n)])"
proof -
  show "length (json_text (tag ''meta'' [(''id'', JInt i), (''size'', JInt n)])) \<le> 65536"
    using length_string_text [of "''t''"] length_string_text [of "''id''"] length_string_text [of "''meta''"]
      length_string_text [of "''size''"] length_int_text [OF assms(1)] length_int_text [OF assms(2)] by (simp add: tag_def)
  show "json_parse (json_text (tag ''meta'' [(''id'', JInt i), (''size'', JInt n)]))
      = Some (tag ''meta'' [(''id'', JInt i), (''size'', JInt n)])"
    by (rule json_roundtrip) (simp add: tag_def jwf_def)
qed

lemma tag_members:
  "member (tag t fs) ''t'' = JStr t" "k \<noteq> ''t'' \<Longrightarrow> member (tag t fs) k = member (JObj fs) k"
  by (simp_all add: tag_def js_simps)

lemma on_eof_message:
  "safe_int i \<Longrightarrow> \<not> lk_closed s \<Longrightarrow>
     on_message now (Text (json_text (tag ''eof'' [(''id'', JInt i)]))) s = on_eof now (tag ''eof'' [(''id'', JInt i)]) s"
  using id_message [of i "''eof''"] by (simp add: on_text_def tag_members Let_def)


lemma on_meta_message:
  "safe_int i \<Longrightarrow> safe_int n \<Longrightarrow> \<not> lk_closed s \<Longrightarrow>
     on_message now (Text (json_text (tag ''meta'' [(''id'', JInt i), (''size'', JInt n)]))) s
       = on_meta now (tag ''meta'' [(''id'', JInt i), (''size'', JInt n)]) s"
  using size_message [of i n] by (simp add: on_text_def tag_members Let_def)

subsection \<open>Delivery\<close>

text \<open>A holder in the middle of a response, and a receiver that got the same part of it.\<close>

definition can_send :: "link \<Rightarrow> bool" where
  "can_send s \<longleftrightarrow> \<not> lk_closed s \<and> lk_ready s \<and> \<not> lk_throws s"

definition receiving :: "link \<Rightarrow> int \<Rightarrow> byte list \<Rightarrow> nat \<Rightarrow> bool" where
  "receiving s i bytes sent \<longleftrightarrow> \<not> lk_closed s \<and> (\<exists>p. lk_pending s = Some p \<and> p_id p = i \<and> p_size p = int (length bytes)
     \<and> p_received p = int sent \<and> concat (p_parts p) = take sent bytes \<and> \<not> p_draining p \<and> \<not> p_cancelled p
     \<and> (sent < length bytes \<longrightarrow> p_chunks p * chunk_bytes = sent))"

lemma chunk_budget:
  assumes "k * chunk_bytes < n" and "int n \<le> lk_max_segment s"
  shows "k < link_max_chunks s"
proof -
  have "k * chunk_bytes < nat (lk_max_segment s)" using assms by linarith
  then have "(k * chunk_bytes + chunk_bytes) div chunk_bytes \<le> (nat (lk_max_segment s) + (chunk_bytes - 1)) div chunk_bytes"
    by (intro div_le_mono) linarith
  then have "Suc k \<le> (nat (lk_max_segment s) + (chunk_bytes - 1)) div chunk_bytes"
    by (simp add: chunk_bytes_def)
  then show ?thesis by (simp add: link_max_chunks_def)
qed

lemma receive_chunk:
  assumes r: "receiving s i bytes sent" and more: "sent < length bytes" and "int (length bytes) \<le> lk_max_segment s"
    and stop: "stop = min (sent + chunk_bytes) (length bytes)"
  shows "receiving (on_message now (Binary (take (stop - sent) (drop sent bytes))) s) i bytes stop
    \<and> lk_max_segment (on_message now (Binary (take (stop - sent) (drop sent bytes))) s) = lk_max_segment s"
proof -
  obtain p where p: "lk_pending s = Some p" "p_id p = i" "p_size p = int (length bytes)" "p_received p = int sent"
    "concat (p_parts p) = take sent bytes" "\<not> p_draining p" "\<not> p_cancelled p" "p_chunks p * chunk_bytes = sent"
    using r more by (auto simp: receiving_def)
  let ?c = "take (stop - sent) (drop sent bytes)"
  have len: "length ?c = stop - sent" "sent < stop" "stop \<le> length bytes" "stop - sent \<le> chunk_bytes"
    using more stop by (auto simp: chunk_bytes_def)
  have budget: "p_chunks p < link_max_chunks s" using chunk_budget [of "p_chunks p" "length bytes"] more p(8) assms(3) by simp
  have app: "take sent bytes @ ?c = take stop bytes"
    using len by (metis le_add_diff_inverse less_imp_le take_add)
  have ne: "?c \<noteq> []" using len by (metis list.size(3) less_irrefl zero_less_diff)
  have "stop < length bytes \<Longrightarrow> Suc (p_chunks p) * chunk_bytes = stop" using stop p(8) by auto
  then show ?thesis
    using r p len budget app ne
    by (simp add: receiving_def on_binary_def Let_def not_less del: take_eq_Nil)
qed

lemma receive_eof:
  assumes "receiving s i bytes (length bytes)" and "safe_int i"
  shows "(let t = on_message now (Text (json_text (tag ''eof'' [(''id'', JInt i)]))) s
          in lk_out t = lk_out s @ [Resolved i (Some bytes) ''payload''] \<and> lk_pending t = None \<and> \<not> lk_closed t)"
proof -
  have "\<not> lk_closed s" using assms(1) by (simp add: receiving_def)
  note e = on_eof_message [OF assms(2) this, of now]
  show ?thesis
    unfolding e using assms(1) by (auto simp: receiving_def on_eof_def tag_members js_simps finish_pending_def Let_def)
qed

lemma stream_lockstep:
  assumes "lk_uploads b = u # us" and "u_phase u = Sending bytes sent" and "\<not> u_cancelled u" and "can_send b"
    and "receiving a (u_id u) bytes sent" and "sent \<le> length bytes" and "safe_int (u_id u)"
    and "int (length bytes) \<le> lk_max_segment a"
  shows "\<exists>b' evs. link_step\<^sup>*\<^sup>* b b' \<and> lk_out b' = lk_out b @ evs \<and> lk_uploads b' = us \<and> can_send b'
    \<and> lk_out (deliver now evs a) = lk_out a @ [Resolved (u_id u) (Some bytes) ''payload'']
    \<and> lk_pending (deliver now evs a) = None \<and> \<not> lk_closed (deliver now evs a)"
  using assms
proof (induction "length bytes - sent" arbitrary: sent a b u rule: less_induct)
  case less
  note prems = less.prems
  have step: "link_step b (serve_turn now u bytes sent b)" using prems(1,2) by (rule link_step.turn)
  show ?case
  proof (cases "sent < length bytes")
    case True
    define stop where "stop = min (sent + chunk_bytes) (length bytes)"
    define c where "c = take (stop - sent) (drop sent bytes)"
    define u' where "u' = u\<lparr>u_phase := Sending bytes stop\<rparr>"
    define b1 where "b1 = serve_turn now u bytes sent b"
    have b1: "b1 = set_upload u' (emit (SentBinary c) b)"
      using True prems(3,4) by (simp add: b1_def serve_turn_def Let_def stop_def c_def u'_def can_send_def)
    have bounds: "sent < stop" "stop \<le> length bytes" using True by (auto simp: stop_def chunk_bytes_def)
    have rec: "receiving (on_message now (Binary c) a) (u_id u) bytes stop
        \<and> lk_max_segment (on_message now (Binary c) a) = lk_max_segment a"
      unfolding c_def by (rule receive_chunk [OF prems(5) True prems(8) stop_def])
    have "length bytes - stop < length bytes - sent" using bounds by linarith
    moreover have "lk_uploads b1 = u' # us" "can_send b1" "u_phase u' = Sending bytes stop" "\<not> u_cancelled u'" "u_id u' = u_id u"
      using prems(1,3,4) by (auto simp: b1 set_upload_def emit_def can_send_def u'_def)
    ultimately obtain b' evs where ih: "link_step\<^sup>*\<^sup>* b1 b'" "lk_out b' = lk_out b1 @ evs" "lk_uploads b' = us" "can_send b'"
      "lk_out (deliver now evs (on_message now (Binary c) a)) = lk_out (on_message now (Binary c) a) @ [Resolved (u_id u) (Some bytes) ''payload'']"
      "lk_pending (deliver now evs (on_message now (Binary c) a)) = None"
      "\<not> lk_closed (deliver now evs (on_message now (Binary c) a))"
      using less.hyps [of stop b1 u' "on_message now (Binary c) a"] rec bounds prems(7,8) by auto
    have quiet: "lk_out (on_message now (Binary c) a) = lk_out a"
      using prems(5) rec by (auto simp: receiving_def on_binary_def close_link_def Let_def split: if_splits)
    have "link_step\<^sup>*\<^sup>* b b'" using step ih(1) unfolding b1_def by (rule converse_rtranclp_into_rtranclp)
    moreover have "lk_out b' = lk_out b @ SentBinary c # evs" using ih(2) by (simp add: b1 set_upload_def)
    ultimately show ?thesis using ih quiet by (intro exI [of _ b'] exI [of _ "SentBinary c # evs"]) (simp add: deliver_Cons)
  next
    case False
    then have full: "sent = length bytes" using prems(6) by simp
    let ?e = "SentText (tag ''eof'' [(''id'', JInt (u_id u))])"
    have "lk_out (serve_turn now u bytes sent b) = lk_out b @ [?e] \<and> lk_uploads (serve_turn now u bytes sent b) = us
        \<and> can_send (serve_turn now u bytes sent b)"
      using full prems(1,4) by (simp add: serve_turn_def serve_finish_def send_text_def can_send_def serve_end_def Let_def)
    moreover have "link_step\<^sup>*\<^sup>* b (serve_turn now u bytes sent b)" using step by (rule r_into_rtranclp)
    moreover have "receiving a (u_id u) bytes (length bytes)" using prems(5) full by simp
    from receive_eof [OF this prems(7), of now]
    have "lk_out (deliver now [?e] a) = lk_out a @ [Resolved (u_id u) (Some bytes) ''payload'']"
      "lk_pending (deliver now [?e] a) = None" "\<not> lk_closed (deliver now [?e] a)"
      by (simp_all add: deliver_Cons Let_def)
    ultimately show ?thesis by blast
  qed
qed

text \<open>
  C18: a served segment arrives whole.  When a holder's host answers a request and nothing is
  cancelled or closed, the messages that the holder's link puts on the channel, delivered in order to
  the link that asked, resolve that request with exactly the bytes of the host, close nothing, and
  leave both links ready for the next request.
\<close>

theorem fetch_delivers:
  assumes "lk_uploads b = u # us" and "u_phase u = Asked" and "\<not> u_cancelled u" and "can_send b" and "safe_int (u_id u)"
    and "\<not> lk_closed a" and "lk_pending a = Some p" and "p_id p = u_id u" and "p_size p = -1" and "p_received p = 0"
    and "p_chunks p = 0" and "p_parts p = []" and "\<not> p_draining p" and "\<not> p_cancelled p"
    and "p_expected p = None \<or> p_expected p = Some (int (length bytes))"
    and "bytes \<noteq> []" and "int (length bytes) \<le> lk_max_segment a" and "int (length bytes) \<le> max_safe"
  shows "\<exists>b' evs. link_step\<^sup>*\<^sup>* b b' \<and> lk_out b' = lk_out b @ evs \<and> lk_uploads b' = us \<and> can_send b'
    \<and> lk_out (deliver now evs a) = lk_out a @ [Resolved (u_id u) (Some bytes) ''payload'']
    \<and> lk_pending (deliver now evs a) = None \<and> \<not> lk_closed (deliver now evs a)"
proof -
  let ?m = "tag ''meta'' [(''id'', JInt (u_id u)), (''size'', JInt (int (length bytes)))]"
  define u1 where "u1 = u\<lparr>u_phase := Sending bytes 0\<rparr>"
  define b1 where "b1 = serve_answer now u (Some bytes) b"
  have b1: "b1 = set_upload u1 (emit (SentText ?m) b)"
    using assms(3,4) by (simp add: b1_def u1_def serve_answer_def send_text_def can_send_def)
  have size: "safe_int (int (length bytes))" using assms(18) by (simp add: safe_int_def max_safe_def)
  note meta = on_meta_message [OF assms(5) size assms(6), of now]
  define a1 where "a1 = on_message now (Text (json_text ?m)) a"
  have "1 \<le> int (length bytes)" using assms(16) by (cases bytes) auto
  then have a1: "a1 = a\<lparr>lk_pending := Some (p\<lparr>p_size := int (length bytes)\<rparr>)\<rparr>"
    unfolding a1_def meta using assms(7-9,15,17) size by (auto simp: on_meta_def tag_members js_simps)
  have "receiving a1 (u_id u) bytes 0"
    using assms(6-14) by (simp add: a1 receiving_def)
  moreover have "lk_uploads b1 = u1 # us" "u_phase u1 = Sending bytes 0" "\<not> u_cancelled u1" "can_send b1" "u_id u1 = u_id u"
    using assms(1,3,4) by (simp_all add: b1 u1_def set_upload_def can_send_def)
  ultimately obtain b' evs where run: "link_step\<^sup>*\<^sup>* b1 b'" "lk_out b' = lk_out b1 @ evs" "lk_uploads b' = us" "can_send b'"
      "lk_out (deliver now evs a1) = lk_out a1 @ [Resolved (u_id u) (Some bytes) ''payload'']"
      "lk_pending (deliver now evs a1) = None" "\<not> lk_closed (deliver now evs a1)"
    using stream_lockstep [of b1 u1 us bytes 0 a1 now] assms(5,17) a1 by auto
  have "link_step b b1" unfolding b1_def using assms(1,2) by (rule link_step.answer)
  then have "link_step\<^sup>*\<^sup>* b b'" using run(1) by (rule converse_rtranclp_into_rtranclp)
  moreover have "lk_out b' = lk_out b @ SentText ?m # evs" using run(2) by (simp add: b1 set_upload_def)
  moreover have "lk_out a1 = lk_out a" by (simp add: a1)
  ultimately show ?thesis
    using run by (intro exI [of _ b'] exI [of _ "SentText ?m # evs"]) (simp add: deliver_Cons a1_def)
qed

definition ex_asker :: link where
  "ex_asker = request 3 ''k'' (Some 2) False (new_link 100000 4 True 0)"

definition ex_upload :: upload where
  "ex_upload = \<lparr>u_id = 1, u_key = ''k'', u_cancelled = False, u_phase = Asked\<rparr>"

definition ex_holder :: link where
  "ex_holder = (new_link 100000 4 True 0)\<lparr>lk_outbound := 1, lk_uploads := [ex_upload]\<rparr>"

lemma ex_asker_pending: "lk_pending ex_asker = Some \<lparr>p_id = 1, p_key = ''k'', p_expected = Some 2, p_size = -1, p_parts = [],
   p_chunks = 0, p_received = 0, p_draining = False, p_cancelled = False\<rparr>" "\<not> lk_closed ex_asker"
  "lk_max_segment ex_asker = 100000" "lk_reliable ex_asker" "lk_ready ex_asker" "\<not> lk_throws ex_asker"
  by (simp_all add: ex_asker_def request_def new_link_def send_text_def Let_def) (simp_all add: emit_def)

theorem fetch_delivers_witness:
  "\<exists>b' evs. link_step\<^sup>*\<^sup>* ex_holder b' \<and> lk_out b' = evs
     \<and> last (lk_out (deliver 4 evs ex_asker)) = Resolved 1 (Some [7, 9]) ''payload''"
  using fetch_delivers [of ex_holder ex_upload "[]" ex_asker _ "[7, 9]" 4, OF _ _ _ _ _ _ ex_asker_pending(1)] ex_asker_pending
  by (auto simp: ex_holder_def ex_upload_def can_send_def new_link_def safe_int_def max_safe_def)

subsection \<open>Cancellation\<close>













end
