(* ===== verification/Bounded_Map.thy ===== *)
theory Bounded_Map
  imports Js_Prelude
begin

text \<open>
  Bounded caches in insertion order: the least-recently-used memo table and the first-in first-out
  set that several components keep, with their laws stated once as locales.
\<close>

subsection \<open>A least-recently-used memo table\<close>

text \<open>
  \<open>get\<close>, then \<open>delete\<close> and \<open>set\<close> again on a hit; on a miss derive, drop the oldest entry of a full
  table, and \<open>set\<close>.  A failed derivation is not kept.
\<close>

definition lru_get :: "nat \<Rightarrow> ('k \<Rightarrow> 'v option) \<Rightarrow> 'k \<Rightarrow> ('k \<times> 'v) list \<Rightarrow> 'v option \<times> ('k \<times> 'v) list" where
  "lru_get cap derive k m =
     (case jget m k of
        Some v \<Rightarrow> (Some v, jset k v (jdel k m))
      | None \<Rightarrow>
          (case derive k of
             None \<Rightarrow> (None, m)
           | Some v \<Rightarrow> (Some v, jset k v (if length m \<ge> cap then jdel_oldest m else m))))"

definition memo_ok :: "nat \<Rightarrow> ('k \<Rightarrow> 'v option) \<Rightarrow> ('k \<times> 'v) list \<Rightarrow> bool" where
  "memo_ok cap derive m \<longleftrightarrow> jwf m \<and> length m \<le> cap \<and> (\<forall>k v. jget m k = Some v \<longrightarrow> derive k = Some v)"

lemma jget_jdel_oldest_SomeD: "jwf m \<Longrightarrow> jget (jdel_oldest m) k = Some v \<Longrightarrow> jget m k = Some v"
  by (cases m) (auto simp: jdel_oldest_def split: if_splits)

text \<open>A table whose lookups give what was derived and whose size stays bounded.\<close>

locale bounded_memo =
  fixes find_memo :: "'k \<Rightarrow> 'm \<Rightarrow> 'v option \<times> 'm" and ok :: "'m \<Rightarrow> bool" and size :: "'m \<Rightarrow> nat"
    and cap :: nat and derive :: "'k \<Rightarrow> 'v option"
  assumes ok_find: "ok m \<Longrightarrow> ok (snd (find_memo k m))"
    and value_find: "ok m \<Longrightarrow> fst (find_memo k m) = derive k"
    and size_ok: "ok m \<Longrightarrow> size m \<le> cap"
begin

text \<open>Over any sequence of lookups the table is transparent and stays within its capacity.\<close>

lemma transparent:
  "ok m \<Longrightarrow> ok (fold (\<lambda>k m. snd (find_memo k m)) ks m)
     \<and> fst (find_memo k (fold (\<lambda>k m. snd (find_memo k m)) ks m)) = derive k
     \<and> size (fold (\<lambda>k m. snd (find_memo k m)) ks m) \<le> cap"
proof (induction ks arbitrary: m)
  case Nil
  then show ?case by (simp add: value_find size_ok)
next
  case (Cons x ks)
  have "ok (snd (find_memo x m))" using Cons.prems by (rule ok_find)
  from Cons.IH [OF this] show ?case by simp
qed

end

lemma memo_ok_jset:
  assumes "memo_ok cap derive m" and "derive k = Some v" and "jhas m k \<or> length m < cap"
  shows "memo_ok cap derive (jset k v m)"
  using assms by (auto simp: memo_ok_def length_jset)

lemma memo_ok_jdel: "memo_ok cap derive m \<Longrightarrow> memo_ok cap derive (jdel k m)"
  by (auto simp: memo_ok_def split: if_splits intro: order_trans [OF length_jdel_le])

lemma memo_ok_oldest: "memo_ok cap derive m \<Longrightarrow> memo_ok cap derive (jdel_oldest m)"
  by (cases m) (simp_all add: jdel_oldest_def memo_ok_jdel)

lemma length_jdel_less: "jhas m k \<Longrightarrow> length (jdel k m) < length m"
  unfolding jhas_iff jdel_def by (auto intro: length_filter_less)

lemma lru_bounded_memo: "0 < cap \<Longrightarrow> bounded_memo (lru_get cap derive) (memo_ok cap derive) length cap derive"
proof
  fix m :: "('a \<times> 'b) list" and k
  assume cap: "0 < cap"
  show "memo_ok cap derive m \<Longrightarrow> length m \<le> cap" by (simp add: memo_ok_def)
  assume ok: "memo_ok cap derive m"
  show "fst (lru_get cap derive k m) = derive k"
    using ok by (auto simp: lru_get_def memo_ok_def split: option.split)
  show "memo_ok cap derive (snd (lru_get cap derive k m))"
  proof (cases "jget m k")
    case (Some v)
    then have "jhas m k" "derive k = Some v" using ok by (auto simp: jhas_def memo_ok_def)
    moreover have "length (jdel k m) < cap"
      using ok length_jdel_less [OF \<open>jhas m k\<close>] by (simp add: memo_ok_def)
    ultimately show ?thesis using Some memo_ok_jset [OF memo_ok_jdel [OF ok]] by (simp add: lru_get_def)
  next
    case None
    show ?thesis
    proof (cases "derive k")
      case None
      with \<open>jget m k = None\<close> ok show ?thesis by (simp add: lru_get_def)
    next
      case (Some v)
      have "length m \<ge> cap \<Longrightarrow> length (jdel_oldest m) < cap"
        using ok cap length_jdel_oldest [of m] by (cases m) (auto simp: memo_ok_def)
      then show ?thesis
        using None Some ok memo_ok_jset [OF memo_ok_oldest [OF ok] Some] memo_ok_jset [OF ok Some]
        by (auto simp: lru_get_def)
    qed
  qed
qed

subsection \<open>A first-in first-out set\<close>

text \<open>\<open>add\<close>, then drop the oldest member when the set is over its capacity.\<close>

definition fifo_add :: "nat \<Rightarrow> 'a \<Rightarrow> 'a list \<Rightarrow> 'a list" where
  "fifo_add cap x xs =
     (let ys = (if x \<in> set xs then xs else xs @ [x]) in if length ys > cap then tl ys else ys)"

text \<open>
  When only new members are added, the set is the last \<open>cap\<close> of everything ever added.
\<close>

lemma fifo_add_recent:
  assumes "xs = drop (length all - cap) all" and "x \<notin> set xs"
  shows "fifo_add cap x xs = drop (length (all @ [x]) - cap) (all @ [x])"
proof (cases "length all < cap")
  case True
  then show ?thesis using assms by (simp add: fifo_add_def)
next
  case False
  then have len: "length xs = cap" using assms(1) by simp
  have "drop (Suc (length all) - cap) (all @ [x]) = tl (drop (length all - cap) (all @ [x]))"
    using False by (metis (no_types, lifting) Suc_diff_le diff_le_self drop_Suc drop_append drop_0 diff_is_0_eq not_less tl_drop)
  also have "\<dots> = tl (xs @ [x])" using assms(1) False by simp
  finally show ?thesis using assms(2) len by (simp add: fifo_add_def Let_def)
qed

lemma fifo_add_distinct: "distinct xs \<Longrightarrow> distinct (fifo_add cap x xs)"
  by (auto simp: fifo_add_def Let_def distinct_tl)

end
