(* ===== verification/Relay_Session.thy ===== *)
theory Relay_Session
  imports Bytes Bounded_Map
begin

text \<open>
  The relay pool and the signed session over it, \<open>src/relay-session.mjs\<close>.

  nostr-tools is a parameter, the record \<open>nostr\<close>: filter matching, signature checks, the NIP-44
  conversation key, encryption, and the finishing of an event.  Events and frames are parsed JSON
  values.  What the pool does to the outside is appended to \<open>pl_out\<close>, and a session's dispatches to
  \<open>ss_out\<close>.  Sockets are numbers; the clock is an argument, in seconds.  \<open>None\<close> is a throw.
\<close>

record nostr =
  match_filter :: "js \<Rightarrow> js \<Rightarrow> bool option"
  verify_event :: "js \<Rightarrow> bool"
  conversation_key :: "string \<Rightarrow> string \<Rightarrow> string option"
  nip44_encrypt :: "string \<Rightarrow> string \<Rightarrow> string"
  nip44_decrypt :: "string \<Rightarrow> string \<Rightarrow> string option"
  finalize_event :: "js \<Rightarrow> string \<Rightarrow> js"
  public_key :: "string \<Rightarrow> string"

definition relayswarm_version :: int where "relayswarm_version = 3"
definition kind_presence :: int where "kind_presence = 24170"
definition kind_signal :: int where "kind_signal = 24171"
definition swarm_tag :: string where "swarm_tag = ''x''"
definition max_relay_frame_bytes :: nat where "max_relay_frame_bytes = 1048576"
definition max_presence_bytes :: nat where "max_presence_bytes = 16384"
definition max_signal_ciphertext_bytes :: nat where "max_signal_ciphertext_bytes = 65536"
definition max_signal_plaintext_bytes :: nat where "max_signal_plaintext_bytes = 8192"
definition max_ticket_bytes :: nat where "max_ticket_bytes = 2048"
definition future_tolerance_seconds :: int where "future_tolerance_seconds = 30"
definition clock_sample_capacity :: nat where "clock_sample_capacity = 64"
definition conversation_key_capacity :: nat where "conversation_key_capacity = 256"

subsection \<open>Helpers\<close>

definition byte_length :: "js \<Rightarrow> nat" where
  "byte_length v = utf8_length (js_string v)"

definition event_tag_values :: "js \<Rightarrow> string \<Rightarrow> string list" where
  "event_tag_values event name =
     map (\<lambda>tag. js_string (elems tag ! 1))
       (filter (\<lambda>tag. length (elems tag) \<ge> 2 \<and> elems tag ! 0 = JStr name \<and> is_string (elems tag ! 1))
         (elems (member event ''tags'')))"

definition saturating :: "int \<Rightarrow> int" where
  "saturating v = min max_safe v"

definition unique_tag :: "js \<Rightarrow> string \<Rightarrow> string option" where
  "unique_tag event name = (case event_tag_values event name of [v] \<Rightarrow> Some v | _ \<Rightarrow> None)"

definition parse_object :: "string \<Rightarrow> js option" where
  "parse_object s = (case json_parse s of None \<Rightarrow> None | Some v \<Rightarrow> if plain_object v then Some v else None)"

definition token_char :: "char \<Rightarrow> bool" where
  "token_char c \<longleftrightarrow> (CHR ''a'' \<le> c \<and> c \<le> CHR ''z'') \<or> (CHR ''0'' \<le> c \<and> c \<le> CHR ''9'')"

fun valid_token :: "js \<Rightarrow> bool" where
  "valid_token (JStr s) =
     (case s of [] \<Rightarrow> False | c # cs \<Rightarrow> token_char c \<and> length cs \<le> 31 \<and> list_all (\<lambda>d. token_char d \<or> d = CHR ''-'') cs)"
| "valid_token _ = False"

definition request_char :: "char \<Rightarrow> bool" where
  "request_char c \<longleftrightarrow> (CHR ''a'' \<le> c \<and> c \<le> CHR ''z'') \<or> (CHR ''A'' \<le> c \<and> c \<le> CHR ''Z'')
     \<or> (CHR ''0'' \<le> c \<and> c \<le> CHR ''9'') \<or> c = CHR ''_'' \<or> c = CHR ''-''"

fun valid_request_id :: "js \<Rightarrow> bool" where
  "valid_request_id (JStr s) \<longleftrightarrow> 8 \<le> length s \<and> length s \<le> 64 \<and> list_all request_char s"
| "valid_request_id _ = False"

fun valid_object_framing :: "js \<Rightarrow> bool" where
  "valid_object_framing (JInt n) \<longleftrightarrow> 1 \<le> n \<and> n \<le> 15"
| "valid_object_framing _ = False"

fun valid_ticket :: "js \<Rightarrow> bool" where
  "valid_ticket (JStr t) \<longleftrightarrow> t \<noteq> [] \<and> utf8_length t \<le> max_ticket_bytes"
| "valid_ticket _ = False"

definition hex64_test :: "js \<Rightarrow> bool" where
  "hex64_test v = hex_string (js_string v) 64"

definition lower_char :: "char \<Rightarrow> char" where
  "lower_char c = (if CHR ''A'' \<le> c \<and> c \<le> CHR ''Z'' then char_of (of_char c + 32 :: nat) else c)"

fun contains :: "string \<Rightarrow> string \<Rightarrow> bool" where
  "contains p [] = (p = [])"
| "contains p (c # cs) = (take (length p) (c # cs) = p \<or> contains p cs)"

text \<open>\<open>/created_at|timestamp|future|too (old|far|new)/i\<close>\<close>

definition timestamp_refusal :: "string \<Rightarrow> bool" where
  "timestamp_refusal s = list_ex (\<lambda>p. contains p (map lower_char s))
     [''created_at'', ''timestamp'', ''future'', ''too old'', ''too far'', ''too new'']"

subsection \<open>\<open>RelayPool\<close>\<close>

datatype pool_event =
    Dial nat string
  | SocketClosed nat
  | SentFrame nat js
  | Delivered js
  | RejectNotice js string
  | Replay nat

record pool =
  pl_urls :: "string list"
  pl_reconnect :: bool
  pl_reconnect_max :: int
  pl_first_ready :: bool
  pl_connecting :: bool
  pl_initial_failed :: "string list"
  pl_sockets :: "(nat \<times> string) list"
  pl_dialling :: "(nat \<times> string \<times> nat) list"
  pl_retries :: "(string \<times> nat) list"
  pl_next_socket :: nat
  pl_subscriptions :: "(string \<times> js) list"
  pl_seen :: "string list"
  pl_connected :: bool
  pl_closed :: bool
  pl_published :: int
  pl_rejected :: int
  pl_rejected_timestamp :: int
  pl_since_dropped :: int
  pl_out :: "pool_event list"

definition pool_emit :: "pool_event list \<Rightarrow> pool \<Rightarrow> pool" where
  "pool_emit es s = s\<lparr>pl_out := pl_out s @ es\<rparr>"

definition new_pool :: "string list \<Rightarrow> bool \<Rightarrow> int \<Rightarrow> bool \<Rightarrow> pool" where
  "new_pool urls reconnect reconnect_max first_ready =
     \<lparr>pl_urls = juniq urls, pl_reconnect = reconnect, pl_reconnect_max = reconnect_max,
      pl_first_ready = first_ready, pl_connecting = False, pl_initial_failed = [], pl_sockets = [],
      pl_dialling = [], pl_retries = [], pl_next_socket = 0, pl_subscriptions = [], pl_seen = [],
      pl_connected = False, pl_closed = False, pl_published = 0, pl_rejected = 0,
      pl_rejected_timestamp = 0, pl_since_dropped = 0, pl_out = []\<rparr>"

text \<open>\<open>#connectOne\<close>: the new socket is pending; \<open>attempt\<close> is that of the redial it came from.\<close>

definition connect_one :: "string \<Rightarrow> nat \<Rightarrow> pool \<Rightarrow> pool" where
  "connect_one url attempt s =
     pool_emit [Dial (pl_next_socket s) url]
       (s\<lparr>pl_next_socket := Suc (pl_next_socket s), pl_dialling := pl_dialling s @ [(pl_next_socket s, url, attempt)]\<rparr>)"

text \<open>\<open>connect\<close>: nothing while one is under way or when a socket is open.\<close>

definition pool_connect :: "pool \<Rightarrow> pool" where
  "pool_connect s =
     (if pl_closed s \<or> (pl_connected s \<and> pl_sockets s \<noteq> []) \<or> pl_connecting s then s
      else fold (\<lambda>url. connect_one url 0) (pl_urls s) (s\<lparr>pl_connected := True, pl_connecting := True\<rparr>))"

definition redial :: "string \<Rightarrow> nat \<Rightarrow> pool \<Rightarrow> pool" where
  "redial url attempt s = (if pl_closed s then s else s\<lparr>pl_retries := pl_retries s @ [(url, attempt)]\<rparr>)"

text \<open>
  \<open>Promise.allSettled\<close> of the initial dials: a reconnecting pool then redials those that failed,
  any other pool's \<open>connect\<close> is over.
\<close>

definition settle_initial :: "pool \<Rightarrow> pool" where
  "settle_initial s =
     (if \<exists>d \<in> set (pl_dialling s). snd (snd d) = 0 then s
      else if pl_reconnect s then fold (\<lambda>url. redial url 1) (pl_initial_failed s) (s\<lparr>pl_initial_failed := []\<rparr>)
      else s\<lparr>pl_connecting := False\<rparr>)"

text \<open>The delay of \<open>#redial\<close>, in milliseconds, for a draw \<open>r\<close> of \<open>Math.random()\<close> in thousandths.\<close>

definition redial_delay :: "pool \<Rightarrow> nat \<Rightarrow> int \<Rightarrow> int" where
  "redial_delay s attempt r = min (pl_reconnect_max s) (1000 * 2 ^ min attempt 5) * (500 + r div 2) div 1000"

text \<open>The retry timer fired.\<close>

definition redial_fires :: "string \<times> nat \<Rightarrow> pool \<Rightarrow> pool" where
  "redial_fires t s =
     (let s1 = s\<lparr>pl_retries := remove1 t (pl_retries s)\<rparr>
      in if \<not> pl_connected s1 then s1 else connect_one (fst t) (snd t) s1)"

text \<open>The \<open>open\<close> event of socket \<open>i\<close>; \<open>Replay\<close> stands for the \<open>relayOpenHandlers\<close>.\<close>

definition socket_open :: "nat \<Rightarrow> pool \<Rightarrow> pool" where
  "socket_open i s =
     (case map_of (pl_dialling s) i of
        None \<Rightarrow> pool_emit [SocketClosed i] s
      | Some (url, attempt) \<Rightarrow>
          if pl_closed s then pool_emit [SocketClosed i] s
          else settle_initial
                 (pool_emit (map (\<lambda>(sub, flt). SentFrame i (JArr [JStr ''REQ'', JStr sub, flt])) (pl_subscriptions s) @ [Replay i])
                   (s\<lparr>pl_sockets := pl_sockets s @ [(i, url)], pl_dialling := filter (\<lambda>d. fst d \<noteq> i) (pl_dialling s),
                      pl_connecting := (pl_connecting s \<and> \<not> pl_reconnect s \<and> \<not> pl_first_ready s)\<rparr>)))"

text \<open>A dial that failed: by an error, its timeout, or a close before it opened.\<close>

definition socket_failed :: "nat \<Rightarrow> pool \<Rightarrow> pool" where
  "socket_failed i s =
     (case map_of (pl_dialling s) i of
        None \<Rightarrow> s
      | Some (url, attempt) \<Rightarrow>
          (let s1 = pool_emit [SocketClosed i] (s\<lparr>pl_dialling := filter (\<lambda>d. fst d \<noteq> i) (pl_dialling s)\<rparr>)
           in if attempt = 0 then settle_initial (s1\<lparr>pl_initial_failed := pl_initial_failed s1 @ [url]\<rparr>)
              else if pl_connected s1 \<and> url \<notin> snd ` set (pl_sockets s1) then redial url (attempt + 1) s1 else s1))"

definition socket_closed :: "nat \<Rightarrow> pool \<Rightarrow> pool" where
  "socket_closed i s =
     (case map_of (pl_sockets s) i of
        None \<Rightarrow> socket_failed i s
      | Some url \<Rightarrow>
          (let s1 = s\<lparr>pl_sockets := filter (\<lambda>x. fst x \<noteq> i) (pl_sockets s)\<rparr>
           in if pl_reconnect s \<and> pl_connected s then redial url 1 s1 else s1))"

definition on_refusal :: "js list \<Rightarrow> pool \<Rightarrow> pool" where
  "on_refusal frame s =
     (let message = (if truthy (at_index frame 3) then js_string (at_index frame 3) else [])
      in pool_emit [RejectNotice (at_index frame 1) message]
           (s\<lparr>pl_rejected := pl_rejected s + 1,
              pl_rejected_timestamp := (if timestamp_refusal message then min max_safe (pl_rejected_timestamp s + 1)
                 else pl_rejected_timestamp s)\<rparr>))"

definition since_drop :: "nostr \<Rightarrow> js option \<Rightarrow> js \<Rightarrow> bool" where
  "since_drop n found event \<longleftrightarrow>
     (case found of
        None \<Rightarrow> False
      | Some (JObj f) \<Rightarrow> match_filter n (JObj f) event = Some False \<and> truthy (member (JObj f) ''since'')
          \<and> safe_integer (member event ''created_at'')
          \<and> int_of (member event ''created_at'') < int_of (member (JObj f) ''since'')
          \<and> match_filter n (JObj (jset ''since'' JUndefined f)) event = Some True
      | Some _ \<Rightarrow> False)"

definition on_event_frame :: "nostr \<Rightarrow> js list \<Rightarrow> pool \<Rightarrow> pool" where
  "on_event_frame n frame s =
     (let event = at_index frame 2;
          found = (if is_string (at_index frame 1) then jget (pl_subscriptions s) (js_string (at_index frame 1)) else None);
          s1 = (if since_drop n found event then s\<lparr>pl_since_dropped := min max_safe (pl_since_dropped s + 1)\<rparr> else s);
          event_id = js_string (member event ''id'')
      in if found = None \<or> match_filter n (the found) event \<noteq> Some True \<or> \<not> is_string (member event ''id'')
            \<or> event_id \<in> set (pl_seen s1) \<or> \<not> verify_event n event then s1
         else pool_emit [Delivered event] (s1\<lparr>pl_seen := fifo_add 10000 event_id (pl_seen s1)\<rparr>))"

definition pool_message :: "nostr \<Rightarrow> string \<Rightarrow> pool \<Rightarrow> pool" where
  "pool_message n data s =
     (if pl_closed s \<or> utf8_length data > max_relay_frame_bytes then s
      else (case json_parse data of
          Some (JArr frame) \<Rightarrow>
            if at_index frame 0 = JStr ''OK'' \<and> at_index frame 2 = JBool False then on_refusal frame s
            else if at_index frame 0 \<noteq> JStr ''EVENT'' \<or> \<not> object_or_array (at_index frame 2) then s
            else on_event_frame n frame s
        | _ \<Rightarrow> s))"

text \<open>\<open>subscribe\<close>: the error, or the state; \<open>sub\<close> is the fresh \<open>randomHex(8)\<close>.\<close>

definition subscribe :: "string \<Rightarrow> js \<Rightarrow> pool \<Rightarrow> string + pool" where
  "subscribe sub flt s =
     (if \<not> pl_connected s \<or> pl_sockets s = [] then Inl ''RelayPool is not connected.''
      else if length (pl_subscriptions s) \<ge> 32 then Inl ''Relay subscription capacity reached.''
      else Inr (pool_emit (map (\<lambda>x. SentFrame (fst x) (JArr [JStr ''REQ'', JStr sub, flt])) (pl_sockets s))
             (s\<lparr>pl_subscriptions := jset sub flt (pl_subscriptions s)\<rparr>)))"

definition unsubscribe :: "string \<Rightarrow> pool \<Rightarrow> pool" where
  "unsubscribe sub s =
     (if \<not> jhas (pl_subscriptions s) sub then s
      else pool_emit (map (\<lambda>x. SentFrame (fst x) (JArr [JStr ''CLOSE'', JStr sub])) (pl_sockets s))
             (s\<lparr>pl_subscriptions := jdel sub (pl_subscriptions s)\<rparr>))"

definition publish :: "js \<Rightarrow> pool \<Rightarrow> string + pool" where
  "publish event s =
     (if \<not> pl_connected s \<or> pl_sockets s = [] then Inl ''RelayPool has no connected relay.''
      else Inr (pool_emit (map (\<lambda>x. SentFrame (fst x) (JArr [JStr ''EVENT'', event])) (pl_sockets s))
             (s\<lparr>pl_published := pl_published s + 1\<rparr>)))"

text \<open>\<open>publish\<close> as \<open>onRelayOpen\<close> hands it out: only to the socket that opened.\<close>

definition publish_to :: "nat \<Rightarrow> js \<Rightarrow> pool \<Rightarrow> pool" where
  "publish_to i event s =
     (if pl_closed s \<or> i \<notin> fst ` set (pl_sockets s) then s
      else pool_emit [SentFrame i (JArr [JStr ''EVENT'', event])] (s\<lparr>pl_published := pl_published s + 1\<rparr>))"

definition pool_close :: "pool \<Rightarrow> pool" where
  "pool_close s =
     pool_emit (map (\<lambda>d. SocketClosed (fst d)) (pl_dialling s) @ map (\<lambda>x. SocketClosed (fst x)) (pl_sockets s))
       (s\<lparr>pl_closed := True, pl_connected := False, pl_connecting := False, pl_initial_failed := [], pl_retries := [], pl_subscriptions := [], pl_dialling := [],
          pl_sockets := [], pl_seen := []\<rparr>)"

inductive pool_step :: "nostr \<Rightarrow> pool \<Rightarrow> pool \<Rightarrow> bool" for n where
  connecting: "pool_step n s (pool_connect s)"
| opened: "pool_step n s (socket_open i s)"
| failed: "pool_step n s (socket_failed i s)"
| gone: "pool_step n s (socket_closed i s)"
| retried: "t \<in> set (pl_retries s) \<Longrightarrow> pool_step n s (redial_fires t s)"
| received: "pool_step n s (pool_message n data s)"
| subscribed: "subscribe sub flt s = Inr t \<Longrightarrow> pool_step n s t"
| unsubscribed: "pool_step n s (unsubscribe sub s)"
| published: "publish event s = Inr t \<Longrightarrow> pool_step n s t"
| replayed: "pool_step n s (publish_to i event s)"

inductive_cases pool_stepE: "pool_step n s t"

subsection \<open>\<open>RelaySwarmSession\<close>\<close>

record clock_counts =
  ck_ahead :: int
  ck_stale :: int
  ck_max_ahead :: int
  ck_ages :: "int list"

datatype session_event = Presence string js js | Signal string js js

record session =
  ss_swarm :: string
  ss_secret :: string
  ss_pubkey :: string
  ss_max_age :: int
  ss_keys :: "(string \<times> string) list"
  ss_key_owner :: "string option"
  ss_last_presence :: "js option"
  ss_started :: bool
  ss_subscription_ids :: "string list"
  ss_clock :: clock_counts
  ss_out :: "session_event list"

definition new_session :: "nostr \<Rightarrow> string \<Rightarrow> string \<Rightarrow> int \<Rightarrow> session option" where
  "new_session n swarm secret max_age =
     (if length swarm < 8 \<or> length swarm > 128 then None
      else Some \<lparr>ss_swarm = swarm, ss_secret = secret, ss_pubkey = public_key n secret, ss_max_age = max_age,
        ss_keys = [], ss_key_owner = None, ss_last_presence = None, ss_started = False, ss_subscription_ids = [],
        ss_clock = \<lparr>ck_ahead = 0, ck_stale = 0, ck_max_ahead = 0, ck_ages = []\<rparr>, ss_out = []\<rparr>)"

record clock_view =
  cv_ahead :: int
  cv_stale :: int
  cv_max_ahead :: int
  cv_samples :: nat
  cv_median :: "int option"

definition clock_diagnostics :: "session \<Rightarrow> clock_view" where
  "clock_diagnostics s =
     (let ages = sort (ck_ages (ss_clock s))
      in \<lparr>cv_ahead = ck_ahead (ss_clock s), cv_stale = ck_stale (ss_clock s), cv_max_ahead = ck_max_ahead (ss_clock s),
          cv_samples = length ages, cv_median = (if ages = [] then None else Some (ages ! (length ages div 2)))\<rparr>)"

text \<open>The two filters that \<open>start\<close> subscribes with.\<close>

definition presence_filter :: "int \<Rightarrow> session \<Rightarrow> js" where
  "presence_filter now s = JObj [(''#'' @ swarm_tag, JArr [JStr (ss_swarm s)]), (''since'', JInt (now - ss_max_age s)),
     (''kinds'', JArr [JInt kind_presence])]"

definition signal_filter :: "int \<Rightarrow> session \<Rightarrow> js" where
  "signal_filter now s = JObj [(''#'' @ swarm_tag, JArr [JStr (ss_swarm s)]), (''since'', JInt (now - 2)),
     (''kinds'', JArr [JInt kind_signal]), (''#p'', JArr [JStr (ss_pubkey s)])]"

text \<open>The handler that \<open>start\<close> registers with \<open>onRelayOpen\<close>: what it publishes to the new relay.\<close>

definition relay_opened :: "int \<Rightarrow> session \<Rightarrow> js option \<times> session" where
  "relay_opened now s =
     (case ss_last_presence s of
        None \<Rightarrow> (None, s)
      | Some e \<Rightarrow>
          if \<not> ss_started s then (None, s)
          else (let age = now - int_of (member e ''created_at'')
                in if age < - future_tolerance_seconds \<or> age > ss_max_age s then (None, s\<lparr>ss_last_presence := None\<rparr>)
                   else (Some e, s)))"

definition conversation_key_of :: "nostr \<Rightarrow> string \<Rightarrow> session \<Rightarrow> string option \<times> session" where
  "conversation_key_of n pubkey s =
     (let keys = (if ss_key_owner s = Some (ss_secret s) then ss_keys s else []);
          (key, keys1) = lru_get conversation_key_capacity (conversation_key n (ss_secret s)) pubkey keys
      in (key, s\<lparr>ss_keys := keys1, ss_key_owner := Some (ss_secret s)\<rparr>))"

text \<open>One entry of the transport list, as \<open>#receivePresence\<close> normalises it; \<open>None\<close> where it throws.\<close>

definition transport_in :: "js \<Rightarrow> js option" where
  "transport_in t =
     (if \<not> object_or_array t \<or> \<not> valid_token (member t ''type'') \<or> \<not> hex64_test (member t ''publicKey'') then None
      else Some (JObj ([(''type'', member t ''type''), (''publicKey'', member t ''publicKey'')]
             @ (if valid_object_framing (member t ''obj'') then [(''obj'', member t ''obj'')] else []))))"

fun map_option_list :: "('a \<Rightarrow> 'b option) \<Rightarrow> 'a list \<Rightarrow> 'b list option" where
  "map_option_list f [] = Some []"
| "map_option_list f (x # xs) =
     (case f x of None \<Rightarrow> None | Some y \<Rightarrow> map_option (Cons y) (map_option_list f xs))"

definition set_member :: "string \<Rightarrow> js \<Rightarrow> js \<Rightarrow> js" where
  "set_member k v obj = (case obj of JObj m \<Rightarrow> JObj (jset k v m) | _ \<Rightarrow> obj)"

text \<open>The payload that \<open>#receivePresence\<close> dispatches, when it dispatches one.\<close>

definition presence_payload :: "js \<Rightarrow> js option" where
  "presence_payload event =
     (if byte_length (member event ''content'') > max_presence_bytes \<or> event_tag_values event ''p'' \<noteq> [] then None
      else (case parse_object (js_string (member event ''content'')) of
          None \<Rightarrow> None
        | Some payload \<Rightarrow>
            if member payload ''v'' \<noteq> JInt relayswarm_version \<or> \<not> valid_token (member payload ''role'')
               \<or> \<not> is_array (member payload ''transports'') \<or> length (elems (member payload ''transports'')) > 8
               \<or> \<not> is_array (member payload ''have'') \<or> length (elems (member payload ''have'')) > 32
               \<or> \<not> list_all hex64_test (elems (member payload ''have'')) then None
            else (case map_option_list transport_in (elems (member payload ''transports'')) of
                None \<Rightarrow> None
              | Some transports \<Rightarrow>
                  Some (set_member ''ticket'' (if valid_ticket (member payload ''ticket'') then member payload ''ticket'' else JNull)
                    (set_member ''open'' (case member payload ''open'' of JBool b \<Rightarrow> JBool b | _ \<Rightarrow> JNull)
                      (set_member ''transports'' (JArr transports) payload))))))"

definition signal_valid :: "js \<Rightarrow> bool" where
  "signal_valid payload \<longleftrightarrow> member payload ''v'' = JInt relayswarm_version \<and> valid_token (member payload ''type'')
     \<and> valid_token (member payload ''transport'') \<and> valid_request_id (member payload ''requestId'')
     \<and> plain_object (member payload ''payload'')"

definition push_age :: "int \<Rightarrow> int list \<Rightarrow> int list" where
  "push_age age ages = (if length ages \<ge> clock_sample_capacity then tl ages else ages) @ [age]"

definition receive_signal :: "nostr \<Rightarrow> int \<Rightarrow> js \<Rightarrow> session \<Rightarrow> session" where
  "receive_signal n now event s =
     (if byte_length (member event ''content'') > max_signal_ciphertext_bytes
         \<or> unique_tag event ''p'' \<noteq> Some (ss_pubkey s) then s
      else (let (key, s1) = conversation_key_of n (js_string (member event ''pubkey'')) s in
        (case key of
           None \<Rightarrow> s1
         | Some k \<Rightarrow>
             (case nip44_decrypt n (js_string (member event ''content'')) k of
                None \<Rightarrow> s1
              | Some plaintext \<Rightarrow>
                  if utf8_length plaintext > max_signal_plaintext_bytes then s1
                  else (case parse_object plaintext of
                      None \<Rightarrow> s1
                    | Some payload \<Rightarrow>
                        if \<not> signal_valid payload then s1
                        else s1\<lparr>ss_clock := (ss_clock s1)\<lparr>ck_ages :=
                                  push_age (now - int_of (member event ''created_at'')) (ck_ages (ss_clock s1))\<rparr>,
                                ss_out := ss_out s1 @ [Signal (js_string (member event ''pubkey'')) event payload]\<rparr>)))))"

definition receive :: "nostr \<Rightarrow> int \<Rightarrow> js \<Rightarrow> session \<Rightarrow> session" where
  "receive n now event s =
     (let presence = (member event ''kind'' = JInt kind_presence) in
      if member event ''pubkey'' = JStr (ss_pubkey s) \<or> (\<not> presence \<and> member event ''kind'' \<noteq> JInt kind_signal) then s
      else if \<not> safe_integer (member event ''created_at'') \<or> unique_tag event swarm_tag \<noteq> Some (ss_swarm s) then s
      else (let age = now - int_of (member event ''created_at''); c = ss_clock s in
        if age < - future_tolerance_seconds then
          s\<lparr>ss_clock := c\<lparr>ck_ahead := saturating (ck_ahead c + 1), ck_max_ahead := max (ck_max_ahead c) (saturating (- age))\<rparr>\<rparr>
        else if age > ss_max_age s then s\<lparr>ss_clock := c\<lparr>ck_stale := saturating (ck_stale c + 1)\<rparr>\<rparr>
        else if presence then
          (case presence_payload event of
             None \<Rightarrow> s
           | Some payload \<Rightarrow> s\<lparr>ss_out := ss_out s @ [Presence (js_string (member event ''pubkey'')) event payload]\<rparr>)
        else receive_signal n now event s))"

subsection \<open>Announcing and signalling\<close>

record presence_args =
  pa_role :: js
  pa_transports :: "js list"
  pa_have :: "js list"
  pa_open :: "bool option"
  pa_ticket :: "js option"

definition transport_out :: "js \<Rightarrow> js option" where
  "transport_out t =
     (if \<not> object_or_array t \<or> \<not> valid_token (member t ''type'') \<or> \<not> hex64_test (member t ''publicKey'')
         \<or> (member t ''obj'' \<noteq> JUndefined \<and> \<not> valid_object_framing (member t ''obj'')) then None
      else Some (JObj ([(''type'', member t ''type''), (''publicKey'', member t ''publicKey'')]
             @ (if member t ''obj'' = JUndefined then [] else [(''obj'', member t ''obj'')]))))"

definition presence_content :: "presence_args \<Rightarrow> js list \<Rightarrow> js" where
  "presence_content a transports =
     JObj ([(''v'', JInt relayswarm_version), (''role'', pa_role a), (''transports'', JArr transports), (''have'', JArr (juniq (pa_have a)))]
       @ (case pa_open a of None \<Rightarrow> [] | Some b \<Rightarrow> [(''open'', JBool b)])
       @ (case pa_ticket a of None \<Rightarrow> [] | Some t \<Rightarrow> [(''ticket'', t)]))"

definition event_template :: "int \<Rightarrow> int \<Rightarrow> (string \<times> string) list \<Rightarrow> string \<Rightarrow> js" where
  "event_template kind now tags content =
     JObj [(''kind'', JInt kind), (''created_at'', JInt now),
           (''tags'', JArr (map (\<lambda>(k, v). JArr [JStr k, JStr v]) tags)), (''content'', JStr content)]"

text \<open>
  \<open>announcePresence\<close> over the pool it publishes to: the event, which it keeps for relays that open
  later, or \<open>None\<close> where it throws, which leaves everything as it was.
\<close>

definition announce_presence :: "nostr \<Rightarrow> int \<Rightarrow> presence_args \<Rightarrow> session \<times> pool \<Rightarrow> js option \<times> session \<times> pool" where
  "announce_presence n now a = (\<lambda>(s, p).
     if (case pa_ticket a of None \<Rightarrow> False | Some t \<Rightarrow> \<not> valid_ticket t) \<or> \<not> valid_token (pa_role a)
         \<or> length (pa_transports a) > 8 \<or> length (pa_have a) > 32 \<or> \<not> list_all hex64_test (pa_have a) then (None, s, p)
     else (case map_option_list transport_out (pa_transports a) of
         None \<Rightarrow> (None, s, p)
       | Some transports \<Rightarrow>
           (let content = json_text (presence_content a transports) in
            if utf8_length content > max_presence_bytes then (None, s, p)
            else (let event = finalize_event n (event_template kind_presence now [(swarm_tag, ss_swarm s)] content) (ss_secret s)
                  in case publish event p of
                       Inl _ \<Rightarrow> (None, s, p)
                     | Inr p1 \<Rightarrow> (Some event, s\<lparr>ss_last_presence := Some event\<rparr>, p1)))))"

record signal_args =
  sa_type :: js
  sa_transport :: js
  sa_request_id :: js
  sa_payload :: js

definition signal_plaintext :: "signal_args \<Rightarrow> js" where
  "signal_plaintext a = JObj [(''v'', JInt relayswarm_version), (''type'', sa_type a), (''transport'', sa_transport a),
     (''requestId'', sa_request_id a), (''payload'', sa_payload a)]"

text \<open>\<open>sendSignal\<close>: the event that it publishes; the key cache is touched even when it throws later.\<close>

definition send_signal :: "nostr \<Rightarrow> int \<Rightarrow> string \<Rightarrow> signal_args \<Rightarrow> session \<times> pool \<Rightarrow> js option \<times> session \<times> pool" where
  "send_signal n now to_pubkey a = (\<lambda>(s, p).
     if \<not> hex_string to_pubkey 64 \<or> \<not> valid_token (sa_type a) \<or> \<not> valid_token (sa_transport a)
         \<or> \<not> valid_request_id (sa_request_id a) \<or> \<not> plain_object (sa_payload a)
         \<or> utf8_length (json_text (signal_plaintext a)) > max_signal_plaintext_bytes then (None, s, p)
     else (let (key, s1) = conversation_key_of n to_pubkey s in
       (case key of
          None \<Rightarrow> (None, s1, p)
        | Some k \<Rightarrow>
            (let event = finalize_event n (event_template kind_signal now [(swarm_tag, ss_swarm s), (''p'', to_pubkey)]
                   (nip44_encrypt n (json_text (signal_plaintext a)) k)) (ss_secret s)
             in case publish event p of Inl _ \<Rightarrow> (None, s1, p) | Inr p1 \<Rightarrow> (Some event, s1, p1)))))"

subsection \<open>Starting and closing\<close>

text \<open>
  \<open>start\<close>, with the two fresh subscription ids: both subscriptions, or, when one throws, neither and
  the error.
\<close>

definition session_start :: "int \<Rightarrow> string \<Rightarrow> string \<Rightarrow> session \<times> pool \<Rightarrow> string option \<times> session \<times> pool" where
  "session_start now sub1 sub2 = (\<lambda>(s, p).
     if ss_started s then (None, s, p)
     else (let failed = s\<lparr>ss_subscription_ids := [], ss_started := False, ss_last_presence := None\<rparr> in
       (case subscribe sub1 (presence_filter now s) p of
          Inl e \<Rightarrow> (Some e, failed, fold unsubscribe (ss_subscription_ids s) p)
        | Inr p1 \<Rightarrow>
            (case subscribe sub2 (signal_filter now s) p1 of
               Inl e \<Rightarrow> (Some e, failed, fold unsubscribe (ss_subscription_ids s @ [sub1]) p1)
             | Inr p2 \<Rightarrow> (None, s\<lparr>ss_started := True, ss_subscription_ids := ss_subscription_ids s @ [sub1, sub2]\<rparr>, p2)))))"

definition session_close :: "session \<times> pool \<Rightarrow> session \<times> pool" where
  "session_close = (\<lambda>(s, p).
     (s\<lparr>ss_last_presence := None, ss_keys := [], ss_key_owner := None, ss_started := False, ss_subscription_ids := []\<rparr>,
      fold unsubscribe (ss_subscription_ids s) p))"

end
