(* ===== verification/Relay_Session_Claims.thy ===== *)
theory Relay_Session_Claims
  imports Relay_Session
begin

text \<open>
  What the relay pool and the session promise: no event twice, bounded state under adversarial
  relays, validated dispatches, and signals and presence that arrive as they were sent.
\<close>

subsection \<open>The pool delivers each event once\<close>

fun delivered_id :: "pool_event \<Rightarrow> string list" where
  "delivered_id (Delivered e) = [js_string (member e ''id'')]"
| "delivered_id _ = []"

definition delivered_ids :: "pool \<Rightarrow> string list" where
  "delivered_ids s = concat (map delivered_id (pl_out s))"

text \<open>No two equal elements at most \<open>w\<close> places apart.\<close>

definition spaced :: "nat \<Rightarrow> 'a list \<Rightarrow> bool" where
  "spaced w xs \<longleftrightarrow> (\<forall>j < length xs. xs ! j \<notin> set (drop (j - w) (take j xs)))"

lemma spaced_snoc: "spaced w xs \<Longrightarrow> x \<notin> set (drop (length xs - w) xs) \<Longrightarrow> spaced w (xs @ [x])"
  unfolding spaced_def by (auto simp: nth_append less_Suc_eq)

definition pool_inv :: "nostr \<Rightarrow> pool \<Rightarrow> bool" where
  "pool_inv n s \<longleftrightarrow>
     (\<not> pl_closed s \<longrightarrow> pl_seen s = drop (length (delivered_ids s) - 10000) (delivered_ids s))
     \<and> spaced 10000 (delivered_ids s) \<and> length (pl_subscriptions s) \<le> 32
     \<and> (\<forall>e. Delivered e \<in> set (pl_out s) \<longrightarrow> verify_event n e \<and> is_string (member e ''id''))"

definition quiet_events :: "pool_event list \<Rightarrow> bool" where
  "quiet_events es \<longleftrightarrow> (\<forall>e \<in> set es. case e of Delivered x \<Rightarrow> False | _ \<Rightarrow> True)"

lemma quiet_delivered: "quiet_events es \<Longrightarrow> concat (map delivered_id es) = []"
  unfolding quiet_events_def by (induction es) (auto split: pool_event.splits)

text \<open>A step that delivers nothing and leaves the memory of deliveries alone.\<close>

definition quiet_step :: "pool \<Rightarrow> pool \<Rightarrow> bool" where
  "quiet_step s t \<longleftrightarrow> (\<exists>es. pl_out t = pl_out s @ es \<and> quiet_events es) \<and> pl_seen t = pl_seen s
     \<and> pl_closed t = pl_closed s \<and> length (pl_subscriptions t) \<le> max 32 (length (pl_subscriptions s))"

lemma quiet_step_inv: "quiet_step s t \<Longrightarrow> pool_inv n s \<Longrightarrow> pool_inv n t"
proof -
  assume q: "quiet_step s t" and inv: "pool_inv n s"
  then obtain es where es: "pl_out t = pl_out s @ es" "quiet_events es" by (auto simp: quiet_step_def)
  then have "delivered_ids t = delivered_ids s" by (simp add: delivered_ids_def quiet_delivered)
  moreover have "Delivered e \<in> set (pl_out s)" if "Delivered e \<in> set (pl_out t)" for e
    using that es by (auto simp: quiet_events_def)
  ultimately show ?thesis using q inv by (auto simp: pool_inv_def quiet_step_def)
qed

lemma quiet_refl [simp]: "quiet_step s s"
  by (auto simp: quiet_step_def quiet_events_def intro: exI [of _ "[]"])

lemma quiet_trans: "quiet_step s t \<Longrightarrow> quiet_step t u \<Longrightarrow> quiet_step s u"
  unfolding quiet_step_def by (auto simp: quiet_events_def)

lemma quiet_emit: "quiet_events es \<Longrightarrow> quiet_step s (pool_emit es s)"
  by (auto simp: quiet_step_def pool_emit_def)

lemma quiet_fold: "(\<And>x s. quiet_step s (f x s)) \<Longrightarrow> quiet_step s (fold f xs s)"
  by (induction xs arbitrary: s) (auto intro: quiet_trans)

lemma quiet_fields: "pl_out t = pl_out s \<Longrightarrow> pl_seen t = pl_seen s \<Longrightarrow> pl_closed t = pl_closed s \<Longrightarrow>
    pl_subscriptions t = pl_subscriptions s \<Longrightarrow> quiet_step s t"
  by (auto simp: quiet_step_def quiet_events_def intro: exI [of _ "[]"])

lemma quiet_connect_one: "quiet_step s (connect_one url k s)"
  unfolding connect_one_def by (rule quiet_trans [OF quiet_fields quiet_emit]) (simp_all add: quiet_events_def)

lemma quiet_redial: "quiet_step s (redial url k s)"
  by (auto simp: redial_def intro: quiet_fields)

lemma quiet_settle: "quiet_step s (settle_initial s)"
proof -
  have "quiet_step s (s\<lparr>pl_initial_failed := []\<rparr>)" by (rule quiet_fields) simp_all
  then have "quiet_step s (fold (\<lambda>url. redial url 1) us (s\<lparr>pl_initial_failed := []\<rparr>))" for us
    by (rule quiet_trans) (rule quiet_fold, rule quiet_redial)
  then show ?thesis by (auto simp: settle_initial_def intro: quiet_fields)
qed

lemma quiet_open: "quiet_step s (socket_open i s)"
proof (cases "map_of (pl_dialling s) i")
  case None
  then show ?thesis by (simp add: socket_open_def quiet_emit quiet_events_def)
next
  case (Some d)
  have "quiet_step s (pool_emit (map (\<lambda>(sub, flt). SentFrame i (JArr [JStr ''REQ'', JStr sub, flt])) (pl_subscriptions s) @ [Replay i])
      (s\<lparr>pl_sockets := so, pl_dialling := di, pl_connecting := b\<rparr>))" for so di b
    by (rule quiet_trans [OF quiet_fields quiet_emit]) (auto simp: quiet_events_def)
  then show ?thesis using Some
    by (auto simp: socket_open_def quiet_events_def split: prod.split intro: quiet_emit quiet_trans [OF _ quiet_settle])
qed

lemma quiet_failed: "quiet_step s (socket_failed i s)"
proof (cases "map_of (pl_dialling s) i")
  case (Some d)
  define s1 where "s1 = pool_emit [SocketClosed i] (s\<lparr>pl_dialling := filter (\<lambda>d. fst d \<noteq> i) (pl_dialling s)\<rparr>)"
  have q: "quiet_step s s1"
    unfolding s1_def by (rule quiet_trans [OF quiet_fields quiet_emit]) (simp_all add: quiet_events_def)
  have "quiet_step s1 (s1\<lparr>pl_initial_failed := us\<rparr>)" for us by (rule quiet_fields) simp_all
  then have "quiet_step s (settle_initial (s1\<lparr>pl_initial_failed := us\<rparr>))" for us
    using q quiet_settle quiet_trans by blast
  then show ?thesis using Some q quiet_trans [OF q quiet_redial]
    by (auto simp: socket_failed_def s1_def [symmetric] Let_def split: prod.split)
qed (simp add: socket_failed_def)

lemma quiet_closed: "quiet_step s (socket_closed i s)"
proof (cases "map_of (pl_sockets s) i")
  case None
  then show ?thesis by (simp add: socket_closed_def quiet_failed)
next
  case (Some url)
  have "quiet_step s (s\<lparr>pl_sockets := so\<rparr>)" for so by (rule quiet_fields) simp_all
  then show ?thesis using Some quiet_trans [OF _ quiet_redial] by (simp add: socket_closed_def Let_def)
qed

lemma on_event_inv: "pool_inv n s \<Longrightarrow> \<not> pl_closed s \<Longrightarrow> pool_inv n (on_event_frame n frame s)"
proof -
  assume inv: "pool_inv n s" and open_pool: "\<not> pl_closed s"
  define event where "event = at_index frame 2"
  define found where "found = (if is_string (at_index frame 1) then jget (pl_subscriptions s) (js_string (at_index frame 1)) else None)"
  define s1 where "s1 = (if since_drop n found event then s\<lparr>pl_since_dropped := min max_safe (pl_since_dropped s + 1)\<rparr> else s)"
  have "quiet_step s s1" by (auto simp: s1_def intro: quiet_fields)
  then have inv1: "pool_inv n s1" and open1: "\<not> pl_closed s1"
    using inv quiet_step_inv open_pool by (auto simp: s1_def)
  let ?i = "js_string (member event ''id'')"
  define t where "t = pool_emit [Delivered event] (s1\<lparr>pl_seen := fifo_add 10000 ?i (pl_seen s1)\<rparr>)"
  have eq: "on_event_frame n frame s = (if found = None \<or> match_filter n (the found) event \<noteq> Some True
      \<or> \<not> is_string (member event ''id'') \<or> ?i \<in> set (pl_seen s1) \<or> \<not> verify_event n event then s1 else t)"
    unfolding on_event_frame_def Let_def t_def s1_def found_def event_def by (rule refl)
  show ?thesis
  proof (cases "found = None \<or> match_filter n (the found) event \<noteq> Some True \<or> \<not> is_string (member event ''id'')
            \<or> ?i \<in> set (pl_seen s1) \<or> \<not> verify_event n event")
    case True
    then show ?thesis using inv1 unfolding eq by simp
  next
    case False
    have ids: "delivered_ids t = delivered_ids s1 @ [?i]"
      by (simp add: t_def delivered_ids_def pool_emit_def)
    have seen: "pl_seen s1 = drop (length (delivered_ids s1) - 10000) (delivered_ids s1)"
      using inv1 open1 by (simp add: pool_inv_def)
    have "?i \<notin> set (pl_seen s1)" using False by simp
    then have "pl_seen t = drop (length (delivered_ids t) - 10000) (delivered_ids t)"
      unfolding ids using fifo_add_recent [OF seen, of ?i] by (simp add: t_def pool_emit_def)
    moreover have "spaced 10000 (delivered_ids t)"
      unfolding ids using inv1 seen \<open>?i \<notin> set (pl_seen s1)\<close> by (intro spaced_snoc) (simp_all add: pool_inv_def)
    ultimately have "pool_inv n t"
      using inv1 False by (auto simp: pool_inv_def t_def pool_emit_def)
    then show ?thesis using False unfolding eq by auto
  qed
qed

lemma quiet_refusal: "quiet_step s (on_refusal frame s)"
  unfolding on_refusal_def Let_def by (rule quiet_trans [OF quiet_fields quiet_emit]) (simp_all add: quiet_events_def)

lemma message_inv: "pool_inv n s \<Longrightarrow> pool_inv n (pool_message n data s)"
  using on_event_inv [of n s] quiet_step_inv [OF quiet_refusal]
  by (auto simp: pool_message_def split: option.split js.split)

lemma pool_step_inv: "pool_step n s t \<Longrightarrow> pool_inv n s \<Longrightarrow> pool_inv n t"
proof (induction rule: pool_step.induct)
  case (connecting s)
  have "quiet_step s (s\<lparr>pl_connected := True, pl_connecting := True\<rparr>)" by (rule quiet_fields) simp_all
  then have "quiet_step s (pool_connect s)"
    unfolding pool_connect_def by (auto intro: quiet_trans quiet_fold quiet_connect_one)
  with connecting show ?case by (rule quiet_step_inv [rotated])
next
  case (retried r s)
  have "quiet_step s (s\<lparr>pl_retries := rs\<rparr>)" for rs by (rule quiet_fields) simp_all
  then have "quiet_step s (redial_fires r s)"
    unfolding redial_fires_def Let_def by (auto intro: quiet_trans quiet_connect_one)
  with retried(2) show ?case by (rule quiet_step_inv [rotated])
next
  case (received s data)
  then show ?case by (rule message_inv)
next
  case (subscribed sub flt s t)
  have "quiet_step s t"
    using subscribed(1) length_jset_le [of sub flt "pl_subscriptions s"]
    by (auto simp: subscribe_def quiet_step_def pool_emit_def quiet_events_def split: if_splits)
  with subscribed(2) show ?case by (rule quiet_step_inv [rotated])
next
  case (unsubscribed s sub)
  have "quiet_step s (unsubscribe sub s)"
    by (auto simp: unsubscribe_def quiet_step_def pool_emit_def quiet_events_def
        intro: exI [of _ "[]"] order_trans [OF length_jdel_le])
  with unsubscribed show ?case by (rule quiet_step_inv [rotated])
next
  case (published event s t)
  have "quiet_step s t"
    using published(1) by (auto simp: publish_def quiet_step_def pool_emit_def quiet_events_def split: if_splits)
  with published(2) show ?case by (rule quiet_step_inv [rotated])
next
  case (replayed s i event)
  have "quiet_step s (publish_to i event s)"
    by (auto simp: publish_to_def quiet_step_def pool_emit_def quiet_events_def intro: exI [of _ "[]"])
  with replayed show ?case by (rule quiet_step_inv [rotated])
qed (auto intro: quiet_step_inv quiet_open quiet_failed quiet_closed)

text \<open>
  C20: relays cannot replay or forge. Over any sequence of connections, failures, subscriptions and
  frames from any relays, every event handed to the handlers carried a valid signature, and no event
  id is delivered again within the next ten thousand deliveries; the memory of delivered ids and the
  subscriptions stay bounded.
\<close>

theorem pool_delivers_once:
  assumes "(pool_step n)\<^sup>*\<^sup>* (new_pool urls reconnect reconnect_max first_ready) s"
  shows "(\<forall>e. Delivered e \<in> set (pl_out s) \<longrightarrow> verify_event n e)
    \<and> (\<forall>i j. i < j \<longrightarrow> j < length (delivered_ids s) \<longrightarrow> j - i \<le> 10000 \<longrightarrow> delivered_ids s ! i \<noteq> delivered_ids s ! j)
    \<and> (\<not> pl_closed s \<longrightarrow> length (pl_seen s) \<le> 10000) \<and> length (pl_subscriptions s) \<le> 32"
proof -
  have "pool_inv n s"
    using assms
  proof (induction rule: rtranclp_induct)
    case base
    show ?case by (simp add: pool_inv_def new_pool_def delivered_ids_def spaced_def)
  next
    case (step t u)
    then show ?case using pool_step_inv by blast
  qed
  moreover have "delivered_ids s ! i \<noteq> delivered_ids s ! j"
    if sp: "spaced 10000 (delivered_ids s)" and ij: "i < j" "j < length (delivered_ids s)" "j - i \<le> 10000" for i j
  proof -
    have "delivered_ids s ! i \<in> set (drop (j - 10000) (take j (delivered_ids s)))"
      using ij by (auto simp: in_set_conv_nth intro!: exI [of _ "i - (j - 10000)"])
    then show ?thesis using sp ij(2) by (auto simp: spaced_def)
  qed
  ultimately show ?thesis by (auto simp: pool_inv_def)
qed

definition ex_nostr :: nostr where
  "ex_nostr = \<lparr>match_filter = (\<lambda>f e. Some True), verify_event = (\<lambda>e. True),
     conversation_key = (\<lambda>a b. Some ''k''), nip44_encrypt = (\<lambda>p k. p), nip44_decrypt = (\<lambda>p k. Some p),
     finalize_event = (\<lambda>t sk. set_member ''pubkey'' (JStr (replicate 64 (hd sk))) t), public_key = (\<lambda>sk. replicate 64 (hd sk))\<rparr>"

definition ex_pool :: pool where
  "ex_pool = socket_open 0 (pool_connect (new_pool [''wss://r''] True 30000 False))"

definition ex_frame :: string where
  "ex_frame = json_text (JArr [JStr ''EVENT'', JStr ''ab'', JObj [(''id'', JStr ''e1'')]])"

lemma ex_frame_read: "json_parse ex_frame = Some (JArr [JStr ''EVENT'', JStr ''ab'', JObj [(''id'', JStr ''e1'')]])"
  unfolding ex_frame_def by (rule json_roundtrip) code_simp

lemma ex_frame_fits: "utf8_length ex_frame \<le> max_relay_frame_bytes"
proof -
  have "utf8_length ex_frame = 26" by code_simp
  then show ?thesis by (simp add: max_relay_frame_bytes_def)
qed

lemma ex_message:
  "pool_message ex_nostr ex_frame s =
     (if pl_closed s then s else on_event_frame ex_nostr [JStr ''EVENT'', JStr ''ab'', JObj [(''id'', JStr ''e1'')]] s)"
  using ex_frame_fits unfolding pool_message_def ex_frame_read by (simp add: at_index_def)

lemma ex_deliver:
  assumes "pl_subscriptions s = [(''ab'', JObj [])]"
  shows "on_event_frame ex_nostr [JStr ''EVENT'', JStr ''ab'', JObj [(''id'', JStr ''e1'')]] s =
    (if ''e1'' \<in> set (pl_seen s) then s
     else s\<lparr>pl_seen := fifo_add 10000 ''e1'' (pl_seen s), pl_out := pl_out s @ [Delivered (JObj [(''id'', JStr ''e1'')])]\<rparr>)"
proof -
  have "member (JObj [(''id'', JStr ''e1'')]) ''id'' = JStr ''e1''" and "jget [(''ab'', JObj [])] ''ab'' = Some (JObj [])"
    by code_simp+
  then show ?thesis
    using assms by (simp add: on_event_frame_def Let_def at_index_def since_drop_def ex_nostr_def pool_emit_def del: member.simps)
qed

definition ex_subscribed :: pool where
  "ex_subscribed = (case subscribe ''ab'' (JObj []) ex_pool of Inr t \<Rightarrow> t | Inl e \<Rightarrow> ex_pool)"

theorem pool_delivers_once_witness:
  "\<exists>s. (pool_step ex_nostr)\<^sup>*\<^sup>* (new_pool [''wss://r''] True 30000 False) s
     \<and> delivered_ids s = [''e1''] \<and> length (pl_seen s) \<le> 10000"
proof -
  let ?s = "pool_message ex_nostr ex_frame (pool_message ex_nostr ex_frame ex_subscribed)"
  have sub: "subscribe ''ab'' (JObj []) ex_pool = Inr ex_subscribed"
    by (simp add: ex_subscribed_def ex_pool_def subscribe_def socket_open_def pool_connect_def new_pool_def
        connect_one_def pool_emit_def settle_initial_def)
  have "(pool_step ex_nostr)\<^sup>*\<^sup>* (new_pool [''wss://r''] True 30000 False) (pool_connect (new_pool [''wss://r''] True 30000 False))"
    by (simp add: r_into_rtranclp pool_step.connecting)
  then have "(pool_step ex_nostr)\<^sup>*\<^sup>* (new_pool [''wss://r''] True 30000 False) ex_pool"
    unfolding ex_pool_def by (rule rtranclp.rtrancl_into_rtrancl) (rule pool_step.opened)
  then have "(pool_step ex_nostr)\<^sup>*\<^sup>* (new_pool [''wss://r''] True 30000 False) ex_subscribed"
    by (rule rtranclp.rtrancl_into_rtrancl) (rule pool_step.subscribed [OF sub])
  then have "(pool_step ex_nostr)\<^sup>*\<^sup>* (new_pool [''wss://r''] True 30000 False) (pool_message ex_nostr ex_frame ex_subscribed)"
    by (rule rtranclp.rtrancl_into_rtrancl) (rule pool_step.received)
  then have r: "(pool_step ex_nostr)\<^sup>*\<^sup>* (new_pool [''wss://r''] True 30000 False) ?s"
    by (rule rtranclp.rtrancl_into_rtrancl) (rule pool_step.received)
  have "pl_subscriptions ex_subscribed = [(''ab'', JObj [])]" "pl_seen ex_subscribed = []" "\<not> pl_closed ex_subscribed"
    "delivered_ids ex_subscribed = []"
    by code_simp+
  then have "delivered_ids ?s = [''e1''] \<and> \<not> pl_closed ?s"
    by (simp add: ex_message ex_deliver delivered_ids_def fifo_add_def jget_def)
  then show ?thesis using pool_delivers_once [OF r] r by blast
qed

subsection \<open>What a session dispatches\<close>

interpretation conversation: bounded_memo "lru_get conversation_key_capacity (conversation_key n sk)"
    "memo_ok conversation_key_capacity (conversation_key n sk)" length conversation_key_capacity "conversation_key n sk"
  by (rule lru_bounded_memo) (simp add: conversation_key_capacity_def)

definition session_inv :: "nostr \<Rightarrow> session \<Rightarrow> bool" where
  "session_inv n s \<longleftrightarrow>
     (ss_key_owner s = Some (ss_secret s) \<longrightarrow> memo_ok conversation_key_capacity (conversation_key n (ss_secret s)) (ss_keys s))
     \<and> length (ck_ages (ss_clock s)) \<le> 64
     \<and> 0 \<le> ck_ahead (ss_clock s) \<and> ck_ahead (ss_clock s) \<le> max_safe
     \<and> 0 \<le> ck_stale (ss_clock s) \<and> ck_stale (ss_clock s) \<le> max_safe"

lemma conversation_key_facts:
  assumes "session_inv n s"
  shows "fst (conversation_key_of n pk s) = conversation_key n (ss_secret s) pk"
    and "session_inv n (snd (conversation_key_of n pk s))"
    and "snd (conversation_key_of n pk s) = s\<lparr>ss_keys := ss_keys (snd (conversation_key_of n pk s)), ss_key_owner := Some (ss_secret s)\<rparr>"
proof -
  define keys where "keys = (if ss_key_owner s = Some (ss_secret s) then ss_keys s else [])"
  have ok: "memo_ok conversation_key_capacity (conversation_key n (ss_secret s)) keys"
    using assms by (auto simp: session_inv_def keys_def memo_ok_def)
  show "fst (conversation_key_of n pk s) = conversation_key n (ss_secret s) pk"
    using conversation.value_find [OF ok] by (simp add: conversation_key_of_def keys_def split_beta)
  show "session_inv n (snd (conversation_key_of n pk s))"
    using conversation.ok_find [OF ok, of pk] assms
    by (simp add: conversation_key_of_def keys_def split_beta session_inv_def Let_def)
  show "snd (conversation_key_of n pk s) = s\<lparr>ss_keys := ss_keys (snd (conversation_key_of n pk s)), ss_key_owner := Some (ss_secret s)\<rparr>"
    by (simp add: conversation_key_of_def split_beta Let_def)
qed

lemma length_push_age: "length ages \<le> 64 \<Longrightarrow> length (push_age x ages) \<le> 64"
  by (auto simp: push_age_def clock_sample_capacity_def)

lemma receive_signal_cases:
  assumes "session_inv n s"
  shows "session_inv n (receive_signal n now event s)
    \<and> (ss_out (receive_signal n now event s) = ss_out s
       \<or> (\<exists>payload. ss_out (receive_signal n now event s) = ss_out s @ [Signal (js_string (member event ''pubkey'')) event payload]
            \<and> signal_valid payload \<and> unique_tag event ''p'' = Some (ss_pubkey s)))"
proof -
  obtain key s1 where k: "conversation_key_of n (js_string (member event ''pubkey'')) s = (key, s1)" by fastforce
  have s1: "session_inv n s1" "ss_out s1 = ss_out s"
    using conversation_key_facts(2,3) [OF assms, of "js_string (member event ''pubkey'')"] k by (auto dest: arg_cong [where f = ss_out])
  have push: "session_inv n (s1\<lparr>ss_clock := (ss_clock s1)\<lparr>ck_ages := push_age x (ck_ages (ss_clock s1))\<rparr>, ss_out := o1\<rparr>)" for x o1
    using s1(1) length_push_age by (simp add: session_inv_def)
  show ?thesis
    using assms s1 push by (auto simp: receive_signal_def k split: option.split)
qed

text \<open>
  C21: only valid, fresh, addressed events reach the host. Whatever event a relay gives it, a session
  dispatches at most one value, from another key than its own, of its own swarm, created no more than
  thirty seconds ahead and no longer ago than the window; a signal names this session as its only
  recipient and its envelope is valid, a presence is a normalised one; and the clock samples, the
  counters and the table of conversation keys stay bounded.
\<close>

theorem receive_dispatches_valid:
  assumes "session_inv n s"
  shows "session_inv n (receive n now event s)
    \<and> (ss_out (receive n now event s) = ss_out s
       \<or> (\<exists>d. ss_out (receive n now event s) = ss_out s @ [d]
            \<and> member event ''pubkey'' \<noteq> JStr (ss_pubkey s) \<and> unique_tag event swarm_tag = Some (ss_swarm s)
            \<and> - 30 \<le> now - int_of (member event ''created_at'') \<and> now - int_of (member event ''created_at'') \<le> ss_max_age s
            \<and> (case d of
                 Presence from e payload \<Rightarrow> from = js_string (member event ''pubkey'') \<and> e = event \<and> presence_payload event = Some payload
               | Signal from e payload \<Rightarrow> from = js_string (member event ''pubkey'') \<and> e = event \<and> signal_valid payload
                   \<and> unique_tag event ''p'' = Some (ss_pubkey s))))"
proof -
  have clock: "session_inv n (s\<lparr>ss_clock := (ss_clock s)\<lparr>ck_ahead := saturating (ck_ahead (ss_clock s) + 1), ck_max_ahead := m\<rparr>\<rparr>)"
    "session_inv n (s\<lparr>ss_clock := (ss_clock s)\<lparr>ck_stale := saturating (ck_stale (ss_clock s) + 1)\<rparr>\<rparr>)" for m
    using assms by (auto simp: session_inv_def saturating_def max_safe_def)
  have out: "session_inv n (s\<lparr>ss_out := o1\<rparr>)" for o1 using assms by (simp add: session_inv_def)
  show ?thesis
    using assms clock out receive_signal_cases [OF assms, of now event]
    by (auto simp: receive_def Let_def future_tolerance_seconds_def split: option.split)
qed

definition ex_session :: "string \<Rightarrow> session" where
  "ex_session sk = (case new_session ex_nostr ''swarm-one'' sk 120 of Some s \<Rightarrow> s | None \<Rightarrow> undefined)"

lemma ex_session_eq: "new_session ex_nostr ''swarm-one'' sk 120 = Some (ex_session sk)"
  by (simp add: ex_session_def new_session_def)

text \<open>A fresh session satisfies the invariant.\<close>

lemma new_session_inv: "new_session n swarm secret age = Some s \<Longrightarrow> session_inv n s"
  by (auto simp: new_session_def session_inv_def max_safe_def split: if_splits)

lemmas ex_session_inv = new_session_inv [OF ex_session_eq]

definition ex_signal_args :: signal_args where
  "ex_signal_args = \<lparr>sa_type = JStr ''offer'', sa_transport = JStr ''webrtc'', sa_request_id = JStr ''request-1'',
     sa_payload = JObj [(''sdp'', JStr ''v=0'')]\<rparr>"

definition ex_signal :: js where
  "ex_signal = (case fst (send_signal ex_nostr 1000 (replicate 64 CHR ''b'') ex_signal_args (ex_session ''a'', ex_pool)) of
     Some e \<Rightarrow> e | None \<Rightarrow> JNull)"

theorem receive_dispatches_valid_witness:
  "session_inv ex_nostr (receive ex_nostr 1005 ex_signal (ex_session ''b''))
     \<and> length (ss_out (receive ex_nostr 1005 ex_signal (ex_session ''b''))) \<le> 1"
  using receive_dispatches_valid [OF ex_session_inv, of 1005 ex_signal "''b''"]
  by (auto simp: ex_session_def new_session_def)

subsection \<open>A signal between two sessions\<close>

text \<open>What nostr-tools and NIP-44 document of the operations that a signal passes through.\<close>

definition nostr_laws :: "nostr \<Rightarrow> bool" where
  "nostr_laws n \<longleftrightarrow>
     (\<forall>p k. nip44_decrypt n (nip44_encrypt n p k) k = Some p)
     \<and> (\<forall>p k. utf8_length p \<le> max_signal_plaintext_bytes \<longrightarrow> utf8_length (nip44_encrypt n p k) \<le> max_signal_ciphertext_bytes)
     \<and> (\<forall>a b. conversation_key n a (public_key n b) = conversation_key n b (public_key n a))
     \<and> (\<forall>t sk. plain_object t \<longrightarrow> member (finalize_event n t sk) ''pubkey'' = JStr (public_key n sk)
          \<and> (\<forall>k \<in> {''kind'', ''created_at'', ''tags'', ''content''}. member (finalize_event n t sk) k = member t k))"

lemma event_template_members:
  "plain_object (event_template kind now tags content)"
  "member (event_template kind now tags content) ''kind'' = JInt kind"
  "member (event_template kind now tags content) ''created_at'' = JInt now"
  "member (event_template kind now tags content) ''tags'' = JArr (map (\<lambda>(k, v). JArr [JStr k, JStr v]) tags)"
  "member (event_template kind now tags content) ''content'' = JStr content"
  by (simp_all add: event_template_def js_simps)

lemma finalized:
  assumes "nostr_laws n" and "e = finalize_event n (event_template kind now tags content) sk"
  shows "member e ''pubkey'' = JStr (public_key n sk)" "member e ''kind'' = JInt kind" "member e ''created_at'' = JInt now"
    "member e ''tags'' = JArr (map (\<lambda>(k, v). JArr [JStr k, JStr v]) tags)" "member e ''content'' = JStr content"
  using assms event_template_members by (simp_all add: nostr_laws_def)

text \<open>
  C22: a signal arrives as it was sent. What one session encrypts for another session of its swarm,
  that session decrypts and dispatches, once, as exactly the envelope that was sent and as coming from
  the sender, as long as their clocks agree within the accepted window.
\<close>

theorem signal_roundtrip:
  assumes "nostr_laws n"
    and "session_inv n a" "ss_pubkey a = public_key n (ss_secret a)"
    and "session_inv n b" "ss_pubkey b = public_key n (ss_secret b)"
    and "ss_swarm a = ss_swarm b" "ss_pubkey a \<noteq> ss_pubkey b"
    and "send_signal n now (ss_pubkey b) args (a, p) = (Some e, ap)"
    and "json_wf (signal_plaintext args)" "0 \<le> now" "now \<le> max_safe"
    and "- 30 \<le> now' - now" "now' - now \<le> ss_max_age b"
  shows "ss_out (receive n now' e b) = ss_out b @ [Signal (ss_pubkey a) e (signal_plaintext args)]"
proof -
  let ?text = "json_text (signal_plaintext args)"
  have valid: "valid_token (sa_type args)" "valid_token (sa_transport args)" "valid_request_id (sa_request_id args)"
    "plain_object (sa_payload args)" "utf8_length ?text \<le> max_signal_plaintext_bytes"
    using assms(8) by (auto simp: send_signal_def split: if_splits)
  obtain k where key: "conversation_key n (ss_secret a) (ss_pubkey b) = Some k"
    and e: "e = finalize_event n (event_template kind_signal now [(swarm_tag, ss_swarm a), (''p'', ss_pubkey b)] (nip44_encrypt n ?text k)) (ss_secret a)"
    using assms(8) conversation_key_facts(1) [OF assms(2), of "ss_pubkey b"]
    by (auto simp: send_signal_def split_beta Let_def split: if_splits option.splits sum.splits)
  note members = finalized [OF assms(1) e]
  have same: "conversation_key n (ss_secret b) (ss_pubkey a) = Some k"
    using key assms(1,3,5) by (simp add: nostr_laws_def)
  obtain b1 where b1: "conversation_key_of n (ss_pubkey a) b = (Some k, b1)" and out: "ss_out b1 = ss_out b"
    using conversation_key_facts [OF assms(4), of "ss_pubkey a"] same by (cases "conversation_key_of n (ss_pubkey a) b") (auto dest: arg_cong [where f = ss_out])
  have tags: "unique_tag e swarm_tag = Some (ss_swarm a)" "unique_tag e ''p'' = Some (ss_pubkey b)"
    by (simp_all add: unique_tag_def event_tag_values_def members swarm_tag_def)
  have decrypted: "nip44_decrypt n (nip44_encrypt n ?text k) k = Some ?text"
    and fits: "byte_length (member e ''content'') \<le> max_signal_ciphertext_bytes"
    using assms(1) valid(5) by (simp_all add: nostr_laws_def byte_length_def members)
  have parsed: "parse_object ?text = Some (signal_plaintext args)"
    using json_roundtrip [OF assms(9)] by (simp add: parse_object_def signal_plaintext_def del: json_text.simps)
  have "signal_valid (signal_plaintext args)"
    using valid by (simp add: signal_valid_def signal_plaintext_def js_simps)
  then have "ss_out (receive_signal n now' e b) = ss_out b @ [Signal (ss_pubkey a) e (signal_plaintext args)]"
    using fits tags valid(5) decrypted parsed out b1 assms(3)
    by (simp add: receive_signal_def members linorder_not_less)
  then show ?thesis
    using assms(3,6,7,10-13) tags
    by (simp add: receive_def members kind_signal_def kind_presence_def future_tolerance_seconds_def max_safe_def safe_int_def)
qed

lemma ex_nostr_laws: "nostr_laws ex_nostr"
  by (auto simp: nostr_laws_def ex_nostr_def max_signal_plaintext_bytes_def max_signal_ciphertext_bytes_def set_member_def js_simps
      split: js.split elim!: plain_object.elims)

lemma ex_pool_sent: "\<exists>p1. \<forall>e. publish e ex_pool = Inr (p1 e)"
proof -
  have "pl_connected ex_pool" "pl_sockets ex_pool \<noteq> []" by code_simp+
  then show ?thesis by (auto simp: publish_def intro: exI [of _ "\<lambda>e. projr (publish e ex_pool)"])
qed

lemma ex_signal_sent:
  "\<exists>ap. send_signal ex_nostr 1000 (ss_pubkey (ex_session ''b'')) ex_signal_args (ex_session ''a'', ex_pool) = (Some ex_signal, ap)"
proof -
  have pk: "ss_pubkey (ex_session ''b'') = replicate 64 CHR ''b''" by (simp add: ex_session_def new_session_def ex_nostr_def)
  have len: "utf8_length (json_text (signal_plaintext ex_signal_args)) = 91" by code_simp
  have ok: "hex_string (replicate 64 CHR ''b'') 64" "valid_token (sa_type ex_signal_args)" "valid_token (sa_transport ex_signal_args)"
    "valid_request_id (sa_request_id ex_signal_args)" "plain_object (sa_payload ex_signal_args)"
    by code_simp+
  have "fst (conversation_key_of ex_nostr (replicate 64 CHR ''b'') (ex_session ''a'')) = Some ''k''"
    using conversation_key_facts(1) [OF ex_session_inv] by (simp add: ex_nostr_def)
  moreover obtain p1 where "\<forall>e. publish e ex_pool = Inr (p1 e)" using ex_pool_sent ..
  ultimately show ?thesis
    using ok len unfolding ex_signal_def pk
    by (simp add: send_signal_def max_signal_plaintext_bytes_def split_beta Let_def)
qed

theorem signal_roundtrip_witness:
  "ss_out (receive ex_nostr 1005 ex_signal (ex_session ''b''))
     = [Signal (replicate 64 CHR ''a'') ex_signal (signal_plaintext ex_signal_args)]"
proof -
  have s: "ss_pubkey (ex_session sk) = public_key ex_nostr (ss_secret (ex_session sk))"
    "ss_swarm (ex_session sk) = ''swarm-one''" "ss_out (ex_session sk) = []" "ss_max_age (ex_session sk) = 120"
    "ss_pubkey (ex_session sk) = replicate 64 (hd sk)" for sk
    by (simp_all add: ex_session_def new_session_def ex_nostr_def)
  have wf: "json_wf (signal_plaintext ex_signal_args)" by code_simp
  have ne: "ss_pubkey (ex_session ''a'') \<noteq> ss_pubkey (ex_session ''b'')" by (simp add: s(5))
  obtain ap where sent: "send_signal ex_nostr 1000 (ss_pubkey (ex_session ''b'')) ex_signal_args (ex_session ''a'', ex_pool) = (Some ex_signal, ap)"
    using ex_signal_sent ..
  show ?thesis
    using signal_roundtrip [OF ex_nostr_laws ex_session_inv s(1) ex_session_inv s(1) _ ne sent wf, of 1005]
    by (simp add: s(2-5) s(1) [symmetric] max_safe_def)
qed

end
