(* ===== verification/Neighbour_Discovery.thy ===== *)
theory Neighbour_Discovery
  imports Relay_Session
begin

text \<open>
  The bounded advisory state of neighbour discovery, class \<open>NeighbourDiscovery\<close> of
  \<open>src/browser/neighbour-discovery.mjs\<close>.

  Contexts, windows and attempts are objects that the code compares by identity; they carry the number
  they were created under, and a caller's reference to one is that number.  One call reads the clock
  once: \<open>now\<close>, in milliseconds.
\<close>

definition stale_holder_misses :: nat where "stale_holder_misses = 4"
definition stale_holder_ms :: int where "stale_holder_ms = 10000"
definition max_holders :: nat where "max_holders = 8"
definition replacement_rearm_ms :: int where "replacement_rearm_ms = 20000"

record holder =
  hl_first :: int
  hl_misses :: nat
  hl_last_key :: string

record ncontext =
  nc_id :: nat
  nc_media :: string
  nc_rendition :: string
  nc_keys :: "string list"
  nc_demand :: "int option"
  nc_activity :: int
  nc_spent_at :: "int option"
  nc_holders :: "(string \<times> holder) list"

record ncandidate =
  cd_pubkey :: string
  cd_have :: "string list"
  cd_ticket :: "js option"
  cd_at :: int

record nattempt =
  na_id :: nat
  na_window :: nat
  na_pubkey :: string
  na_ticket :: "js option"
  na_key :: string
  na_dial :: "nat option"

record nwindow =
  nw_id :: nat
  nw_context :: nat
  nw_created :: int
  nw_expires :: int
  nw_attempt :: "nattempt option"
  nw_vacant :: bool
  nw_victim :: "string option"

record discovery =
  nd_contexts :: "(string \<times> ncontext) list"
  nd_candidates :: "(string \<times> ncandidate) list"
  nd_window :: "nwindow option"
  nd_next :: nat
  nd_checks :: nat
  nd_replacements :: nat
  nd_verified :: nat
  nd_rearmed :: nat
  nd_unmet_no_hint :: nat
  nd_unmet_ineligible :: nat

definition new_discovery :: discovery where
  "new_discovery = \<lparr>nd_contexts = [], nd_candidates = [], nd_window = None, nd_next = 0, nd_checks = 0,
     nd_replacements = 0, nd_verified = 0, nd_rearmed = 0, nd_unmet_no_hint = 0, nd_unmet_ineligible = 0\<rparr>"

subsection \<open>Contexts\<close>

text \<open>\<open>this.contexts.get(context.mediaType) === context\<close>, and that context.\<close>

definition live_context :: "nat \<Rightarrow> discovery \<Rightarrow> ncontext option" where
  "live_context c s = find (\<lambda>x. nc_id x = c) (map snd (nd_contexts s))"

definition put_context :: "ncontext \<Rightarrow> discovery \<Rightarrow> discovery" where
  "put_context c s = s\<lparr>nd_contexts := jset (nc_media c) c (nd_contexts s)\<rparr>"

definition expired_context :: "int \<Rightarrow> ncontext \<Rightarrow> bool" where
  "expired_context now c \<longleftrightarrow> now < nc_activity c \<or> now - nc_activity c \<ge> 30000
     \<or> (case nc_demand c of None \<Rightarrow> False | Some t \<Rightarrow> now < t \<or> now - t \<ge> 30000)"

definition context_for :: "int \<Rightarrow> string \<Rightarrow> string \<Rightarrow> discovery \<Rightarrow> ncontext option \<times> discovery" where
  "context_for now media rendition s =
     (if media \<notin> {''main'', ''audio''} then (None, s)
      else (case jget (nd_contexts s) media of
          Some c \<Rightarrow>
            if nc_rendition c = rendition
            then (let c1 = (if expired_context now c then c\<lparr>nc_keys := [], nc_demand := None, nc_holders := []\<rparr> else c)\<lparr>nc_activity := now\<rparr>
                  in (Some c1, put_context c1 s))
            else (let c1 = \<lparr>nc_id = nd_next s, nc_media = media, nc_rendition = rendition, nc_keys = [], nc_demand = None,
                     nc_activity = now, nc_spent_at = None, nc_holders = []\<rparr>
                  in (Some c1, put_context c1 (s\<lparr>nd_next := Suc (nd_next s)\<rparr>)))
        | None \<Rightarrow>
            (let c1 = \<lparr>nc_id = nd_next s, nc_media = media, nc_rendition = rendition, nc_keys = [], nc_demand = None,
                     nc_activity = now, nc_spent_at = None, nc_holders = []\<rparr>
             in (Some c1, put_context c1 (s\<lparr>nd_next := Suc (nd_next s)\<rparr>)))))"

definition window_live :: "int \<Rightarrow> discovery \<Rightarrow> bool" where
  "window_live now s \<longleftrightarrow> (case nd_window s of None \<Rightarrow> False | Some w \<Rightarrow> nw_created w \<le> now \<and> now < nw_expires w)"

definition nd_demand :: "int \<Rightarrow> string \<Rightarrow> string \<Rightarrow> string \<Rightarrow> discovery \<Rightarrow> discovery" where
  "nd_demand now media rendition key s =
     (case context_for now media rendition s of
        (None, s1) \<Rightarrow> s1
      | (Some c, s1) \<Rightarrow>
          if \<not> hex_string key 64 then s1
          else (let pinned = (case nd_window s1 of
                        Some w \<Rightarrow> if window_live now s1 \<and> nw_context w = nc_id c
                          then (case nw_attempt w of None \<Rightarrow> [] | Some a \<Rightarrow> [na_key a]) else []
                      | None \<Rightarrow> [])
                in put_context (c\<lparr>nc_keys := take 2 (juniq (pinned @ key # nc_keys c)), nc_demand := Some now\<rparr>) s1))"

definition last_n :: "nat \<Rightarrow> 'a list \<Rightarrow> 'a list" where
  "last_n k xs = drop (length xs - k) xs"

definition nd_hint :: "int \<Rightarrow> string \<Rightarrow> js \<Rightarrow> js \<Rightarrow> discovery \<Rightarrow> discovery" where
  "nd_hint now pubkey have ticket s =
     (if \<not> hex_string pubkey 64 \<or> \<not> is_array have then s
      else (let keys = map js_string (filter (\<lambda>k. is_string k \<and> hex_string (js_string k) 64) (elems have));
                c = \<lparr>cd_pubkey = pubkey, cd_have = last_n 8 (juniq keys),
                     cd_ticket = (if valid_ticket ticket then Some ticket else None), cd_at = now\<rparr>;
                m = jset pubkey c (jdel pubkey (nd_candidates s))
            in s\<lparr>nd_candidates := (if length m > 64 then jdel_oldest m else m)\<rparr>))"

subsection \<open>Holders\<close>

definition holder_miss :: "int \<Rightarrow> nat \<Rightarrow> string \<Rightarrow> string \<Rightarrow> discovery \<Rightarrow> bool \<times> discovery" where
  "holder_miss now c pubkey key s =
     (case live_context c s of
        None \<Rightarrow> (False, s)
      | Some x \<Rightarrow>
          if \<not> hex_string pubkey 64 \<or> \<not> hex_string key 64 then (False, s)
          else (case jget (nc_holders x) pubkey of
              Some e \<Rightarrow>
                if hl_last_key e = key then (False, s)
                else (True, put_context (x\<lparr>nc_holders := jset pubkey (e\<lparr>hl_misses := Suc (hl_misses e), hl_last_key := key\<rparr>) (nc_holders x)\<rparr>) s)
            | None \<Rightarrow>
                (let hs = (if length (nc_holders x) \<ge> max_holders then jdel_oldest (nc_holders x) else nc_holders x)
                 in (True, put_context (x\<lparr>nc_holders := jset pubkey \<lparr>hl_first = now, hl_misses = 1, hl_last_key = key\<rparr> hs\<rparr>) s))))"

definition holder_delivered :: "nat \<Rightarrow> string \<Rightarrow> discovery \<Rightarrow> discovery" where
  "holder_delivered c pubkey s =
     (case live_context c s of None \<Rightarrow> s | Some x \<Rightarrow> put_context (x\<lparr>nc_holders := jdel pubkey (nc_holders x)\<rparr>) s)"

definition stale :: "int \<Rightarrow> nat \<Rightarrow> string \<Rightarrow> discovery \<Rightarrow> bool" where
  "stale now c pubkey s \<longleftrightarrow>
     (case live_context c s of
        None \<Rightarrow> False
      | Some x \<Rightarrow> (case jget (nc_holders x) pubkey of
            None \<Rightarrow> False
          | Some e \<Rightarrow> stale_holder_misses \<le> hl_misses e \<and> stale_holder_ms \<le> now - hl_first e))"

definition forget :: "string \<Rightarrow> discovery \<Rightarrow> discovery" where
  "forget pubkey s = s\<lparr>nd_contexts := map (\<lambda>(m, c). (m, c\<lparr>nc_holders := jdel pubkey (nc_holders c)\<rparr>)) (nd_contexts s)\<rparr>"

subsection \<open>Choosing and replacing\<close>

definition nd_current :: "int \<Rightarrow> nat \<Rightarrow> discovery \<Rightarrow> bool" where
  "nd_current now c s \<longleftrightarrow>
     (case live_context c s of
        None \<Rightarrow> False
      | Some x \<Rightarrow> nc_activity x \<le> now \<and> now - nc_activity x < 30000
          \<and> (case nc_demand x of None \<Rightarrow> False | Some t \<Rightarrow> t \<le> now \<and> now - t < 30000))"

definition spent :: "ncontext \<Rightarrow> bool" where
  "spent c \<longleftrightarrow> nc_spent_at c \<noteq> None"

definition rearm :: "int \<Rightarrow> nat \<Rightarrow> bool \<Rightarrow> discovery \<Rightarrow> bool \<times> discovery" where
  "rearm now c all_stale s =
     (case live_context c s of
        None \<Rightarrow> (False, s)
      | Some x \<Rightarrow> (case nc_spent_at x of
            None \<Rightarrow> (False, s)
          | Some t \<Rightarrow>
              if now < t \<or> now - t < replacement_rearm_ms \<or> \<not> nd_current now c s \<or> \<not> all_stale then (False, s)
              else (True, put_context (x\<lparr>nc_spent_at := None\<rparr>) (s\<lparr>nd_rearmed := Suc (nd_rearmed s)\<rparr>))))"

definition fresh_candidate :: "int \<Rightarrow> ncandidate \<Rightarrow> bool" where
  "fresh_candidate now d \<longleftrightarrow> cd_at d \<le> now \<and> now - cd_at d < 60000"

definition hinting :: "int \<Rightarrow> ncontext \<Rightarrow> discovery \<Rightarrow> bool" where
  "hinting now c s = list_ex (\<lambda>d. fresh_candidate now d \<and> list_ex (\<lambda>k. k \<in> set (cd_have d)) (nc_keys c)) (map snd (nd_candidates s))"

type_synonym nchoice = "ncontext \<times> ncandidate \<times> string"

fun hinted_in :: "int \<Rightarrow> ncontext \<Rightarrow> (ncandidate \<Rightarrow> bool) \<Rightarrow> ncandidate list \<Rightarrow> nchoice option" where
  "hinted_in now c eligible [] = None"
| "hinted_in now c eligible (d # ds) =
     (if \<not> fresh_candidate now d \<or> \<not> eligible d then hinted_in now c eligible ds
      else (case find (\<lambda>k. k \<in> set (cd_have d)) (nc_keys c) of
          Some k \<Rightarrow> Some (c, d, k)
        | None \<Rightarrow> hinted_in now c eligible ds))"

definition hinted :: "int \<Rightarrow> ncontext \<Rightarrow> (ncandidate \<Rightarrow> bool) \<Rightarrow> discovery \<Rightarrow> nchoice option" where
  "hinted now c eligible s = hinted_in now c eligible (map snd (nd_candidates s))"

text \<open>The loop of \<open>choose\<close>; the two flags say what was counted already.\<close>

fun choose_in :: "int \<Rightarrow> (ncandidate \<Rightarrow> bool) \<Rightarrow> (ncontext \<Rightarrow> bool) \<Rightarrow> bool \<Rightarrow> ncontext list \<Rightarrow> bool \<Rightarrow> bool \<Rightarrow> discovery
    \<Rightarrow> nchoice option \<times> discovery" where
  "choose_in now eligible unmet room [] no_hint ineligible s = (None, s)"
| "choose_in now eligible unmet room (c # cs) no_hint ineligible s =
     (if \<not> nd_current now (nc_id c) s \<or> \<not> unmet c
         \<or> (\<not> room \<and> spent c \<and> \<not> (case nd_window s of None \<Rightarrow> False | Some w \<Rightarrow> nw_vacant w))
      then choose_in now eligible unmet room cs no_hint ineligible s
      else (case hinted now c eligible s of
          Some ch \<Rightarrow> (Some ch, s)
        | None \<Rightarrow>
            if hinting now c s
            then choose_in now eligible unmet room cs no_hint True
                   (if ineligible then s else s\<lparr>nd_unmet_ineligible := Suc (nd_unmet_ineligible s)\<rparr>)
            else choose_in now eligible unmet room cs True ineligible
                   (if no_hint then s else s\<lparr>nd_unmet_no_hint := Suc (nd_unmet_no_hint s)\<rparr>)))"

text \<open>A window whose context is gone offers nothing, as \<open>current\<close> is false of it.\<close>

definition nd_choose :: "int \<Rightarrow> (ncandidate \<Rightarrow> bool) \<Rightarrow> (ncontext \<Rightarrow> bool) \<Rightarrow> bool \<Rightarrow> discovery \<Rightarrow> nchoice option \<times> discovery" where
  "nd_choose now eligible unmet room s =
     (case nd_window s of
        None \<Rightarrow> choose_in now eligible unmet room (map snd (nd_contexts s)) False False s
      | Some w \<Rightarrow>
          if nw_attempt w \<noteq> None then (None, s)
          else (case live_context (nw_context w) s of
              None \<Rightarrow> (None, s)
            | Some c \<Rightarrow> choose_in now eligible unmet room [c] False False s))"

definition begin_window :: "int \<Rightarrow> ncontext \<Rightarrow> ncandidate \<Rightarrow> discovery \<Rightarrow> nwindow" where
  "begin_window now c d s = \<lparr>nw_id = nd_next s, nw_context = nc_id c, nw_created = now,
     nw_expires = min (now + 15000) (min (cd_at d + 60000) (case nc_demand c of None \<Rightarrow> 30000 | Some t \<Rightarrow> t + 30000)),
     nw_attempt = None, nw_vacant = False, nw_victim = None\<rparr>"

definition begin_attempt :: "int \<Rightarrow> nchoice \<Rightarrow> discovery \<Rightarrow> nattempt option \<times> discovery" where
  "begin_attempt now = (\<lambda>(c, d, key) s.
     (let (w, s1) = (case nd_window s of
              Some w \<Rightarrow> (w, s)
            | None \<Rightarrow> (let w = begin_window now c d s in (w, s\<lparr>nd_window := Some w, nd_next := Suc (nd_next s)\<rparr>)))
      in if nw_context w \<noteq> nc_id c \<or> nw_attempt w \<noteq> None \<or> now \<ge> nw_expires w then (None, s1)
         else (let a = \<lparr>na_id = nd_next s1, na_window = nw_id w, na_pubkey = cd_pubkey d, na_ticket = cd_ticket d, na_key = key, na_dial = None\<rparr>
               in (Some a, s1\<lparr>nd_window := Some (w\<lparr>nw_attempt := Some a\<rparr>), nd_next := Suc (nd_next s1), nd_checks := Suc (nd_checks s1)\<rparr>))))"

text \<open>The window of an attempt, when that attempt still owns it.\<close>

definition owned_window :: "nattempt \<Rightarrow> discovery \<Rightarrow> nwindow option" where
  "owned_window a s =
     (case nd_window s of
        None \<Rightarrow> None
      | Some w \<Rightarrow> if nw_id w = na_window a \<and> (case nw_attempt w of None \<Rightarrow> False | Some b \<Rightarrow> na_id b = na_id a) then Some w else None)"

definition valid_attempt :: "int \<Rightarrow> nattempt \<Rightarrow> discovery \<Rightarrow> bool" where
  "valid_attempt now a s \<longleftrightarrow>
     (case owned_window a s of
        None \<Rightarrow> False
      | Some w \<Rightarrow> window_live now s \<and> nd_current now (nw_context w) s
          \<and> (case jget (nd_candidates s) (na_pubkey a) of
               None \<Rightarrow> False
             | Some d \<Rightarrow> fresh_candidate now d \<and> cd_ticket d = na_ticket a \<and> na_key a \<in> set (cd_have d)))"

definition replaced :: "int \<Rightarrow> nattempt \<Rightarrow> string \<Rightarrow> discovery \<Rightarrow> bool \<times> discovery" where
  "replaced now a victim s =
     (if \<not> valid_attempt now a s then (False, s)
      else (case nd_window s of
          None \<Rightarrow> (False, s)
        | Some w \<Rightarrow> (case live_context (nw_context w) s of
              None \<Rightarrow> (False, s)
            | Some c \<Rightarrow>
                if spent c then (False, s)
                else (True, put_context (c\<lparr>nc_spent_at := Some now\<rparr>)
                       (s\<lparr>nd_window := Some (w\<lparr>nw_vacant := True, nw_victim := Some victim\<rparr>), nd_replacements := Suc (nd_replacements s)\<rparr>)))))"

definition allocated :: "nattempt \<Rightarrow> nat \<Rightarrow> discovery \<Rightarrow> discovery" where
  "allocated a dial s =
     (case nd_window s of
        None \<Rightarrow> s
      | Some w \<Rightarrow>
          if nw_id w \<noteq> na_window a then s
          else s\<lparr>nd_window := Some (w\<lparr>nw_vacant := False,
                 nw_attempt := map_option (\<lambda>b. if na_id b = na_id a then b\<lparr>na_dial := Some dial\<rparr> else b) (nw_attempt w)\<rparr>)\<rparr>)"

definition abandoned :: "nattempt \<Rightarrow> discovery \<Rightarrow> discovery" where
  "abandoned a s =
     (case nd_window s of
        None \<Rightarrow> s
      | Some w \<Rightarrow> (case nw_attempt w of
            None \<Rightarrow> s
          | Some b \<Rightarrow> if na_id b = na_id a then s\<lparr>nd_window := Some (w\<lparr>nw_attempt := None\<rparr>)\<rparr> else s))"

definition nd_failed :: "nat \<Rightarrow> discovery \<Rightarrow> discovery" where
  "nd_failed dial s =
     (case nd_window s of
        None \<Rightarrow> s
      | Some w \<Rightarrow> (case nw_attempt w of
            None \<Rightarrow> s
          | Some b \<Rightarrow>
              if na_dial b = Some dial
              then s\<lparr>nd_window := Some (w\<lparr>nw_attempt := None, nw_vacant := (nw_victim w \<noteq> None)\<rparr>)\<rparr> else s))"

definition end_window :: "nat \<Rightarrow> discovery \<Rightarrow> bool \<times> discovery" where
  "end_window i s =
     (case nd_window s of
        None \<Rightarrow> (False, s)
      | Some w \<Rightarrow> if nw_id w = i then (True, s\<lparr>nd_window := None\<rparr>) else (False, s))"

definition nd_verify :: "nat \<Rightarrow> discovery \<Rightarrow> bool \<times> discovery" where
  "nd_verify c s =
     (case live_context c s of
        None \<Rightarrow> (False, s)
      | Some x \<Rightarrow> (True, put_context (x\<lparr>nc_spent_at := None\<rparr>) (s\<lparr>nd_verified := Suc (nd_verified s)\<rparr>)))"

definition vacancy_reserved :: "int \<Rightarrow> discovery \<Rightarrow> bool" where
  "vacancy_reserved now s \<longleftrightarrow>
     (case nd_window s of None \<Rightarrow> False | Some w \<Rightarrow> window_live now s \<and> nw_vacant w \<and> nd_current now (nw_context w) s)"

definition suppresses :: "int \<Rightarrow> string \<Rightarrow> discovery \<Rightarrow> bool" where
  "suppresses now pubkey s \<longleftrightarrow>
     (case nd_window s of None \<Rightarrow> False | Some w \<Rightarrow> window_live now s \<and> nw_victim w = Some pubkey)"

definition nd_clear :: "discovery \<Rightarrow> discovery" where
  "nd_clear s = s\<lparr>nd_window := None, nd_contexts := [], nd_candidates := []\<rparr>"

subsection \<open>Runs\<close>

text \<open>The calls of the owner, each at the time it is made.\<close>

datatype nd_call =
    Context string string
  | Demand string string string
  | Hint string js js
  | Miss nat string string
  | HolderDelivered nat string
  | Forget string
  | Rearm nat bool
  | Choose "ncandidate \<Rightarrow> bool" "ncontext \<Rightarrow> bool" bool
  | Begin nchoice
  | Replaced nattempt string
  | Allocated nattempt nat
  | Abandoned nattempt
  | Failed nat
  | EndWindow nat
  | Verified nat
  | Clear

fun nd_apply :: "int \<times> nd_call \<Rightarrow> discovery \<Rightarrow> discovery" where
  "nd_apply (now, Context m r) s = snd (context_for now m r s)"
| "nd_apply (now, Demand m r k) s = nd_demand now m r k s"
| "nd_apply (now, Hint p h t) s = nd_hint now p h t s"
| "nd_apply (now, Miss c p k) s = snd (holder_miss now c p k s)"
| "nd_apply (now, HolderDelivered c p) s = holder_delivered c p s"
| "nd_apply (now, Forget p) s = forget p s"
| "nd_apply (now, Rearm c b) s = snd (rearm now c b s)"
| "nd_apply (now, Choose e u r) s = snd (nd_choose now e u r s)"
| "nd_apply (now, Begin ch) s = snd (begin_attempt now ch s)"
| "nd_apply (now, Replaced a v) s = snd (replaced now a v s)"
| "nd_apply (now, Allocated a d) s = allocated a d s"
| "nd_apply (now, Abandoned a) s = abandoned a s"
| "nd_apply (now, Failed d) s = nd_failed d s"
| "nd_apply (now, EndWindow i) s = snd (end_window i s)"
| "nd_apply (now, Verified c) s = snd (nd_verify c s)"
| "nd_apply (now, Clear) s = nd_clear s"

definition nd_run :: "(int \<times> nd_call) list \<Rightarrow> discovery \<Rightarrow> discovery" where
  "nd_run calls s = fold nd_apply calls s"

end
