(* ===== verification/Neighbour_Discovery_Claims.thy ===== *)
theory Neighbour_Discovery_Claims
  imports Neighbour_Discovery
begin

text \<open>
  What neighbour discovery guarantees: its bounds, the spacing of the replacements that it grants, and
  that what it chooses it can also begin.
\<close>

lemma option_ext: "(\<And>z. a = Some z \<longleftrightarrow> b = Some z) \<Longrightarrow> a = b"
  by (cases a; cases b) auto

subsection \<open>The invariant\<close>

definition context_ok :: "nat \<Rightarrow> string \<times> ncontext \<Rightarrow> bool" where
  "context_ok n e \<longleftrightarrow> nc_media (snd e) = fst e \<and> fst e \<in> {''main'', ''audio''} \<and> nc_id (snd e) < n
     \<and> length (nc_keys (snd e)) \<le> 2 \<and> jwf (nc_holders (snd e)) \<and> length (nc_holders (snd e)) \<le> max_holders"

definition candidate_ok :: "string \<times> ncandidate \<Rightarrow> bool" where
  "candidate_ok e \<longleftrightarrow> cd_pubkey (snd e) = fst e \<and> length (cd_have (snd e)) \<le> 8"

definition window_ok :: "nat \<Rightarrow> nwindow \<Rightarrow> bool" where
  "window_ok n w \<longleftrightarrow> nw_id w < n \<and> nw_expires w \<le> nw_created w + 15000 \<and> (nw_vacant w \<longrightarrow> nw_victim w \<noteq> None)
     \<and> (\<forall>a. nw_attempt w = Some a \<longrightarrow> na_id a < n \<and> na_window a = nw_id w)"

definition nd_inv :: "discovery \<Rightarrow> bool" where
  "nd_inv s \<longleftrightarrow> jwf (nd_contexts s) \<and> (\<forall>e \<in> set (nd_contexts s). context_ok (nd_next s) e)
     \<and> (\<forall>e \<in> set (nd_contexts s). \<forall>f \<in> set (nd_contexts s). nc_id (snd e) = nc_id (snd f) \<longrightarrow> e = f)
     \<and> jwf (nd_candidates s) \<and> length (nd_candidates s) \<le> 64 \<and> (\<forall>e \<in> set (nd_candidates s). candidate_ok e)
     \<and> (\<forall>w. nd_window s = Some w \<longrightarrow> window_ok (nd_next s) w)"

lemma nd_inv_new: "nd_inv new_discovery"
  by (simp add: nd_inv_def new_discovery_def)

lemma live_context_iff:
  assumes "nd_inv s"
  shows "live_context c s = Some x \<longleftrightarrow> (nc_media x, x) \<in> set (nd_contexts s) \<and> nc_id x = c"
proof
  assume "live_context c s = Some x"
  then have "nc_id x = c" and "x \<in> set (map snd (nd_contexts s))"
    unfolding live_context_def by (auto simp: find_Some_iff)
  then show "(nc_media x, x) \<in> set (nd_contexts s) \<and> nc_id x = c"
    using assms by (auto simp: nd_inv_def context_ok_def)
next
  assume *: "(nc_media x, x) \<in> set (nd_contexts s) \<and> nc_id x = c"
  then obtain y where y: "live_context c s = Some y"
    unfolding live_context_def by (cases "find (\<lambda>x. nc_id x = c) (map snd (nd_contexts s))") (force simp: find_None_iff)+
  then have "nc_id y = c" "y \<in> set (map snd (nd_contexts s))"
    unfolding live_context_def by (auto simp: find_Some_iff)
  then show "live_context c s = Some x" using assms * y by (force simp: nd_inv_def)
qed

text \<open>Writing a context: one that was there under the same number, or a new one.\<close>

lemma put_context_inv:
  assumes "nd_inv s" and "context_ok (nd_next s) (nc_media y, y)"
    and "\<And>e. e \<in> set (nd_contexts s) \<Longrightarrow> nc_id (snd e) = nc_id y \<Longrightarrow> fst e = nc_media y"
  shows "nd_inv (put_context y s)"
proof -
  have wf: "jwf (nd_contexts s)" using assms(1) by (simp add: nd_inv_def)
  have other: "nc_id (snd e) \<noteq> nc_id y" if "e \<in> set (nd_contexts s)" "fst e \<noteq> nc_media y" for e
    using assms(3) that by blast
  have members: "e = (nc_media y, y) \<or> e \<in> set (nd_contexts s) \<and> fst e \<noteq> nc_media y"
    if "e \<in> set (jset (nc_media y) y (nd_contexts s))" for e
    using that unfolding set_jset [OF wf] by simp
  have old: "context_ok (nd_next s) e" "nc_id (snd e) = nc_id (snd f) \<Longrightarrow> e = f"
    if "e \<in> set (nd_contexts s)" "f \<in> set (nd_contexts s)" for e f
    using assms(1) that unfolding nd_inv_def by blast+
  have "context_ok (nd_next s) e"
    if "e \<in> set (jset (nc_media y) y (nd_contexts s))" for e
    using members [OF that] old(1) assms(2) by blast
  moreover have "e = f"
    if "e \<in> set (jset (nc_media y) y (nd_contexts s))" "f \<in> set (jset (nc_media y) y (nd_contexts s))"
      "nc_id (snd e) = nc_id (snd f)" for e f
    using members [OF that(1)] members [OF that(2)] other old(2) [of e f] that(3) by (metis snd_conv)
  ultimately show ?thesis using assms(1) wf by (simp add: nd_inv_def put_context_def)
qed

lemma put_live_inv:
  assumes "nd_inv s" and "live_context c s = Some x" and "nc_id y = nc_id x" and "nc_media y = nc_media x"
    and "length (nc_keys y) \<le> 2" and "jwf (nc_holders y)" and "length (nc_holders y) \<le> max_holders"
  shows "nd_inv (put_context y s)"
proof (rule put_context_inv [OF assms(1)])
  have x: "(nc_media x, x) \<in> set (nd_contexts s)" using live_context_iff [OF assms(1)] assms(2) by simp
  then show "context_ok (nd_next s) (nc_media y, y)" using assms by (force simp: nd_inv_def context_ok_def)
  show "fst e = nc_media y" if "e \<in> set (nd_contexts s)" "nc_id (snd e) = nc_id y" for e
    using that x assms(1,3,4) by (force simp: nd_inv_def)
qed

lemma live_context_ok:
  assumes "nd_inv s" and "live_context c s = Some x"
  shows "context_ok (nd_next s) (nc_media x, x)"
  using live_context_iff [OF assms(1)] assms by (auto simp: nd_inv_def)

lemma live_after_put:
  assumes "nd_inv s" and "nd_inv (put_context y s)" and "live_context c (put_context y s) = Some x"
  shows "x = y \<and> nc_id y = c \<or> live_context c s = Some x"
proof -
  have wf: "jwf (nd_contexts s)" using assms(1) by (simp add: nd_inv_def)
  show ?thesis
    using assms(3) unfolding live_context_iff [OF assms(2)] live_context_iff [OF assms(1)]
    by (auto simp: put_context_def set_jset [OF wf])
qed

lemma nd_inv_next: "nd_inv s \<Longrightarrow> nd_inv (s\<lparr>nd_next := Suc (nd_next s)\<rparr>)"
  by (auto simp: nd_inv_def context_ok_def window_ok_def less_Suc_eq)

lemma nd_inv_counters [simp]:
  "nd_inv (s\<lparr>nd_checks := n\<rparr>) = nd_inv s" "nd_inv (s\<lparr>nd_replacements := n\<rparr>) = nd_inv s"
  "nd_inv (s\<lparr>nd_verified := n\<rparr>) = nd_inv s" "nd_inv (s\<lparr>nd_rearmed := n\<rparr>) = nd_inv s"
  "nd_inv (s\<lparr>nd_unmet_no_hint := n\<rparr>) = nd_inv s" "nd_inv (s\<lparr>nd_unmet_ineligible := n\<rparr>) = nd_inv s"
  by (simp_all add: nd_inv_def)

lemma live_context_fields [simp]:
  "live_context c (s\<lparr>nd_checks := n\<rparr>) = live_context c s" "live_context c (s\<lparr>nd_replacements := n\<rparr>) = live_context c s"
  "live_context c (s\<lparr>nd_verified := n\<rparr>) = live_context c s" "live_context c (s\<lparr>nd_rearmed := n\<rparr>) = live_context c s"
  "live_context c (s\<lparr>nd_unmet_no_hint := n\<rparr>) = live_context c s" "live_context c (s\<lparr>nd_unmet_ineligible := n\<rparr>) = live_context c s"
  "live_context c (s\<lparr>nd_window := w\<rparr>) = live_context c s" "live_context c (s\<lparr>nd_next := n\<rparr>) = live_context c s"
  "live_context c (s\<lparr>nd_candidates := ds\<rparr>) = live_context c s"
  by (simp_all add: live_context_def)

lemma nd_inv_window: "nd_inv s \<Longrightarrow> (\<And>w. v = Some w \<Longrightarrow> window_ok (nd_next s) w) \<Longrightarrow> nd_inv (s\<lparr>nd_window := v\<rparr>)"
  by (simp add: nd_inv_def)

subsection \<open>Calls that spend and re-arm nothing\<close>

definition keeps :: "discovery \<Rightarrow> discovery \<Rightarrow> bool" where
  "keeps s t \<longleftrightarrow> (nd_inv s \<longrightarrow> nd_inv t \<and> nd_next s \<le> nd_next t
     \<and> (\<forall>c x. live_context c t = Some x \<longrightarrow> nd_next s \<le> c \<or> (\<exists>y. live_context c s = Some y \<and> nc_spent_at y = nc_spent_at x)))"

lemma keeps_refl [simp]: "keeps s s"
  by (simp add: keeps_def)

lemma keepsI: "(nd_inv s \<Longrightarrow> keeps s t) \<Longrightarrow> keeps s t"
  by (simp add: keeps_def)

lemma keeps_trans:
  assumes "keeps s t" and "keeps t u"
  shows "keeps s u"
  unfolding keeps_def
proof (intro impI conjI allI)
  assume inv: "nd_inv s"
  then have t: "nd_inv t" "nd_next s \<le> nd_next t" using assms(1) by (simp_all add: keeps_def)
  then have u: "nd_inv u" "nd_next t \<le> nd_next u" using assms(2) by (simp_all add: keeps_def)
  show "nd_inv u" "nd_next s \<le> nd_next u" using t u by simp_all
  fix c x
  assume "live_context c u = Some x"
  then consider "nd_next t \<le> c" | y where "live_context c t = Some y" "nc_spent_at y = nc_spent_at x"
    using assms(2) t(1) unfolding keeps_def by blast
  then show "nd_next s \<le> c \<or> (\<exists>y. live_context c s = Some y \<and> nc_spent_at y = nc_spent_at x)"
  proof cases
    case 1
    then show ?thesis using t by simp
  next
    case 2
    then show ?thesis using assms(1) inv unfolding keeps_def by metis
  qed
qed

lemma keeps_fields: "nd_contexts t = nd_contexts s \<Longrightarrow> nd_next s \<le> nd_next t \<Longrightarrow> (nd_inv s \<Longrightarrow> nd_inv t) \<Longrightarrow> keeps s t"
  by (simp add: keeps_def live_context_def)

lemma keeps_put:
  assumes "live_context c s = Some x" and "nc_id y = nc_id x" and "nc_media y = nc_media x" and "nc_spent_at y = nc_spent_at x"
    and "nd_inv s \<Longrightarrow> length (nc_keys y) \<le> 2 \<and> jwf (nc_holders y) \<and> length (nc_holders y) \<le> max_holders"
  shows "keeps s (put_context y s)"
  unfolding keeps_def
proof (intro impI conjI allI)
  assume inv: "nd_inv s"
  show inv': "nd_inv (put_context y s)" using put_live_inv [OF inv assms(1-3)] assms(5) [OF inv] by blast
  show "nd_next s \<le> nd_next (put_context y s)" by (simp add: put_context_def)
  have id: "nc_id x = c" using assms(1) live_context_iff [OF inv] by simp
  fix d z
  assume "live_context d (put_context y s) = Some z"
  from live_after_put [OF inv inv' this]
  show "nd_next s \<le> d \<or> (\<exists>w. live_context d s = Some w \<and> nc_spent_at w = nc_spent_at z)"
    using assms(1,2,4) id by auto
qed

lemma keeps_new:
  assumes "nc_id y = nd_next s" and "nc_media y \<in> {''main'', ''audio''}" and "nc_keys y = []" and "nc_holders y = []"
  shows "keeps s (put_context y (s\<lparr>nd_next := Suc (nd_next s)\<rparr>))"
  unfolding keeps_def
proof (intro impI conjI allI)
  assume inv: "nd_inv s"
  let ?s = "s\<lparr>nd_next := Suc (nd_next s)\<rparr>"
  have inv1: "nd_inv ?s" using inv by (rule nd_inv_next)
  show inv': "nd_inv (put_context y ?s)"
  proof (rule put_context_inv [OF inv1])
    show "context_ok (nd_next ?s) (nc_media y, y)" using assms by (auto simp: context_ok_def)
    show "fst e = nc_media y" if "e \<in> set (nd_contexts ?s)" "nc_id (snd e) = nc_id y" for e
    proof -
      have "context_ok (nd_next s) e" using that(1) inv by (simp add: nd_inv_def)
      then show ?thesis using that(2) assms(1) by (simp add: context_ok_def)
    qed
  qed
  show "nd_next s \<le> nd_next (put_context y ?s)" by (simp add: put_context_def)
  fix d z
  assume "live_context d (put_context y ?s) = Some z"
  from live_after_put [OF inv1 inv' this]
  show "nd_next s \<le> d \<or> (\<exists>w. live_context d s = Some w \<and> nc_spent_at w = nc_spent_at z)"
    using assms(1) by auto
qed

lemma context_live: "nd_inv s \<Longrightarrow> jget (nd_contexts s) m = Some c \<Longrightarrow> live_context (nc_id c) s = Some c \<and> nc_media c = m"
  using jget_in [of "nd_contexts s" m c] live_context_iff [of s "nc_id c" c] by (auto simp: nd_inv_def context_ok_def)

lemma keeps_context_for:
  "keeps s (snd (context_for now m r s))
    \<and> (nd_inv s \<longrightarrow> (\<forall>c. fst (context_for now m r s) = Some c \<longrightarrow> live_context (nc_id c) (snd (context_for now m r s)) = Some c))"
proof (cases "m \<in> {''main'', ''audio''}")
  case m: True
  let ?new = "\<lparr>nc_id = nd_next s, nc_media = m, nc_rendition = r, nc_keys = [], nc_demand = None,
                     nc_activity = now, nc_spent_at = None, nc_holders = []\<rparr>"
  have put: "live_context (nc_id y) (put_context y t) = Some y" if "nd_inv (put_context y t)" for y t
  proof -
    have "(nc_media y, y) \<in> set (nd_contexts (put_context y t))"
      by (simp add: put_context_def jget_in)
    then show ?thesis using live_context_iff [OF that] by simp
  qed
  have new: "keeps s (put_context ?new (s\<lparr>nd_next := Suc (nd_next s)\<rparr>))" using m by (intro keeps_new) simp_all
  then have new_live: "nd_inv s \<Longrightarrow> live_context (nd_next s) (put_context ?new (s\<lparr>nd_next := Suc (nd_next s)\<rparr>)) = Some ?new"
    using put [of ?new "s\<lparr>nd_next := Suc (nd_next s)\<rparr>"] by (simp add: keeps_def)
  show ?thesis
  proof (cases "jget (nd_contexts s) m")
    case None
    with m new new_live show ?thesis by (simp add: context_for_def Let_def)
  next
    case (Some c)
    show ?thesis
    proof (cases "nc_rendition c = r")
      case False
      with Some m new new_live show ?thesis by (simp add: context_for_def Let_def)
    next
      case True
      define y where "y = (if expired_context now c then c\<lparr>nc_keys := [], nc_demand := None, nc_holders := []\<rparr> else c)\<lparr>nc_activity := now\<rparr>"
      have eq: "context_for now m r s = (Some y, put_context y s)"
        using Some m True unfolding context_for_def Let_def y_def by simp
      have k: "keeps s (put_context y s)" if inv: "nd_inv s"
        using context_live [OF inv Some] live_context_ok [OF inv, of "nc_id c" c]
        by (intro keeps_put [of "nc_id c" s c]) (auto simp: y_def context_ok_def)
      then have "keeps s (put_context y s)" by (rule keepsI)
      then show ?thesis using eq put [of y s] by (auto simp: keeps_def)
    qed
  qed
qed (auto simp: context_for_def)

lemma keeps_demand: "keeps s (nd_demand now m r k s)"
proof -
  obtain c s1 where c: "context_for now m r s = (c, s1)" by fastforce
  then have k: "keeps s s1" using keeps_context_for [of s now m r] by simp
  show ?thesis
  proof (cases c)
    case None
    with c k show ?thesis by (simp add: nd_demand_def)
  next
    case (Some x)
    have live: "live_context (nc_id x) s1 = Some x" if "nd_inv s"
      using keeps_context_for [of s now m r] c Some that by simp
    have h: "keeps s1 (put_context (x\<lparr>nc_keys := take 2 ks, nc_demand := Some now\<rparr>) s1)" if inv: "nd_inv s" for ks
    proof -
      have "nd_inv s1" using k inv by (simp add: keeps_def)
      then show ?thesis
        using live [OF inv] live_context_ok [OF \<open>nd_inv s1\<close> live [OF inv]]
        by (intro keeps_put [OF live [OF inv]]) (simp_all add: context_ok_def)
    qed
    have "keeps s (put_context (x\<lparr>nc_keys := take 2 ks, nc_demand := Some now\<rparr>) s1)" for ks
      by (rule keepsI) (rule keeps_trans [OF k h])
    then show ?thesis using c k Some by (simp add: nd_demand_def)
  qed
qed

lemma length_last_n: "length (last_n k xs) \<le> k"
  by (simp add: last_n_def)

lemma keeps_hint: "keeps s (nd_hint now p h t s)"
proof (cases "hex_string p 64 \<and> is_array h")
  case True
  define d where "d = \<lparr>cd_pubkey = p, cd_have = last_n 8 (juniq (map js_string (filter (\<lambda>k. is_string k \<and> hex_string (js_string k) 64) (elems h)))),
    cd_ticket = (if valid_ticket t then Some t else None), cd_at = now\<rparr>"
  define m where "m = jset p d (jdel p (nd_candidates s))"
  have eq: "nd_hint now p h t s = s\<lparr>nd_candidates := (if length m > 64 then jdel_oldest m else m)\<rparr>"
    using True by (simp add: nd_hint_def Let_def m_def d_def)
  have "nd_inv (nd_hint now p h t s)" if inv: "nd_inv s"
  proof -
    have wf: "jwf (nd_candidates s)" "length (nd_candidates s) \<le> 64" using inv by (auto simp: nd_inv_def)
    have len: "length m \<le> 65" using wf length_jset_le [of p d "jdel p (nd_candidates s)"] length_jdel_le [of p "nd_candidates s"]
      unfolding m_def by linarith
    have shrink: "length m > 64 \<Longrightarrow> length (jdel_oldest m) < length m" by (rule length_jdel_oldest) auto
    have old: "candidate_ok e" if "e \<in> set (nd_candidates s)" for e using that inv by (simp add: nd_inv_def)
    have ok: "candidate_ok e" if "e \<in> set m" for e
    proof -
      have "e = (p, d) \<or> e \<in> set (nd_candidates s)"
        using that unfolding m_def set_jset [OF jwf_jdel [OF wf(1)]] by (auto simp: jdel_def)
      moreover have "candidate_ok (p, d)" by (simp add: candidate_ok_def d_def length_last_n)
      ultimately show ?thesis using old by blast
    qed
    have sub: "e \<in> set m" if "e \<in> set (jdel_oldest m)" for e
      using that unfolding jdel_oldest_def jdel_def by (cases m) auto
    have "length (if length m > 64 then jdel_oldest m else m) \<le> 64" using len shrink by (cases "length m > 64") simp_all
    moreover have "\<forall>e \<in> set (if length m > 64 then jdel_oldest m else m). candidate_ok e"
      using ok sub by (cases "length m > 64") simp_all
    moreover have "jwf (if length m > 64 then jdel_oldest m else m)" using wf(1) by (simp add: m_def)
    ultimately show ?thesis using inv unfolding eq nd_inv_def by simp
  qed
  then show ?thesis by (intro keeps_fields) (simp_all add: eq)
qed (auto simp: nd_hint_def)

lemma keeps_miss: "keeps s (snd (holder_miss now c p k s))"
proof (rule keepsI)
  assume inv: "nd_inv s"
  show ?thesis
  proof (cases "live_context c s")
    case (Some x)
    note ok = live_context_ok [OF inv Some]
    have put: "keeps s (put_context (x\<lparr>nc_holders := hs\<rparr>) s)" if "jwf hs" "length hs \<le> max_holders" for hs
      using ok that by (intro keeps_put [OF Some]) (simp_all add: context_ok_def)
    have full: "length (jdel_oldest (nc_holders x)) < max_holders" if "length (nc_holders x) \<ge> max_holders"
      using that ok length_jdel_oldest [of "nc_holders x"] by (fastforce simp: context_ok_def max_holders_def)
    let ?hs = "if length (nc_holders x) \<ge> max_holders then jdel_oldest (nc_holders x) else nc_holders x"
    have "jwf ?hs" "length ?hs < max_holders" using ok full by (simp_all add: context_ok_def)
    then have "length (jset p v ?hs) \<le> max_holders" for v using length_jset_le [of p v ?hs] by simp
    moreover have "length (jset p v (nc_holders x)) \<le> max_holders" if "jget (nc_holders x) p = Some w" for v w
      using ok that by (simp add: length_jset jhas_def context_ok_def)
    ultimately show ?thesis
      using Some ok put \<open>jwf ?hs\<close> by (auto simp: holder_miss_def Let_def context_ok_def split: option.split)
  qed (simp add: holder_miss_def)
qed

lemma keeps_delivered: "keeps s (holder_delivered c p s)"
proof (rule keepsI)
  assume inv: "nd_inv s"
  show ?thesis
  proof (cases "live_context c s")
    case (Some x)
    have "keeps s (put_context (x\<lparr>nc_holders := jdel p (nc_holders x)\<rparr>) s)"
      using live_context_ok [OF inv Some] order_trans [OF length_jdel_le [of p "nc_holders x"], of max_holders]
      by (intro keeps_put [OF Some]) (simp_all add: context_ok_def)
    then show ?thesis using Some by (simp add: holder_delivered_def)
  qed (simp add: holder_delivered_def)
qed

lemma keeps_forget: "keeps s (forget p s)"
  unfolding keeps_def
proof (intro impI conjI allI)
  assume inv: "nd_inv s"
  let ?f = "\<lambda>c. c\<lparr>nc_holders := jdel p (nc_holders c)\<rparr>"
  have keys: "map fst (nd_contexts (forget p s)) = map fst (nd_contexts s)" by (simp add: forget_def split_def)
  have mem: "e \<in> set (nd_contexts (forget p s)) \<longleftrightarrow> (\<exists>d \<in> set (nd_contexts s). e = (fst d, ?f (snd d)))" for e
    by (force simp: forget_def)
  have ok: "context_ok (nd_next s) (fst d, ?f (snd d))" if "d \<in> set (nd_contexts s)" for d
  proof -
    have "context_ok (nd_next s) d" using inv that by (simp add: nd_inv_def)
    then show ?thesis using order_trans [OF length_jdel_le [of p "nc_holders (snd d)"], of max_holders] by (simp add: context_ok_def)
  qed
  have same: "d = d'" if "d \<in> set (nd_contexts s)" "d' \<in> set (nd_contexts s)" "nc_id (snd d) = nc_id (snd d')" for d d'
    using inv that unfolding nd_inv_def by blast
  have rest: "nd_next (forget p s) = nd_next s" "nd_candidates (forget p s) = nd_candidates s" "nd_window (forget p s) = nd_window s"
    by (simp_all add: forget_def)
  show inv': "nd_inv (forget p s)"
    unfolding nd_inv_def rest jwf_def keys
  proof (intro conjI ballI impI)
    show "context_ok (nd_next s) e" if "e \<in> set (nd_contexts (forget p s))" for e using that ok by (auto simp: mem)
    show "e = f" if e: "e \<in> set (nd_contexts (forget p s))" and f: "f \<in> set (nd_contexts (forget p s))"
      and ids: "nc_id (snd e) = nc_id (snd f)" for e f
    proof -
      obtain d d' where d: "d \<in> set (nd_contexts s)" "e = (fst d, ?f (snd d))" "d' \<in> set (nd_contexts s)" "f = (fst d', ?f (snd d'))"
        using e f unfolding mem by blast
      then have "d = d'" using ids by (intro same) simp_all
      then show ?thesis using d by simp
    qed
  qed (use inv in \<open>auto simp: nd_inv_def jwf_def\<close>)
  show "nd_next s \<le> nd_next (forget p s)" by (simp add: rest)
  fix c x
  assume "live_context c (forget p s) = Some x"
  then obtain d where d: "d \<in> set (nd_contexts s)" "x = ?f (snd d)" "nc_id x = c"
    unfolding live_context_iff [OF inv'] mem by auto
  then have "nc_media (snd d) = fst d" using inv by (auto simp: nd_inv_def context_ok_def)
  then have "live_context c s = Some (snd d)"
    unfolding live_context_iff [OF inv] using d by simp
  then show "nd_next s \<le> c \<or> (\<exists>y. live_context c s = Some y \<and> nc_spent_at y = nc_spent_at x)" using d(2) by simp
qed

lemma keeps_choose_in: "keeps s (snd (choose_in now e u r cs nh inel s))"
proof (induction cs arbitrary: nh inel s)
  case (Cons c cs)
  have "keeps s (s\<lparr>nd_unmet_ineligible := n\<rparr>)" "keeps s (s\<lparr>nd_unmet_no_hint := n\<rparr>)" for n
    by (rule keeps_fields; simp)+
  then have "keeps s (snd (choose_in now e u r cs nh inel (s\<lparr>nd_unmet_ineligible := n\<rparr>)))"
    "keeps s (snd (choose_in now e u r cs nh inel (s\<lparr>nd_unmet_no_hint := n\<rparr>)))" for n nh inel
    using keeps_trans [OF _ Cons.IH] by blast+
  then show ?case using Cons.IH by (simp split: option.split)
qed simp

lemma keeps_choose: "keeps s (snd (nd_choose now e u r s))"
  by (simp add: nd_choose_def keeps_choose_in del: choose_in.simps split: option.split)

lemma keeps_new_window: "keeps s (s\<lparr>nd_window := Some (begin_window now c d s), nd_next := Suc (nd_next s)\<rparr>)"
proof (rule keeps_fields)
  assume "nd_inv s"
  from nd_inv_next [OF this] show "nd_inv (s\<lparr>nd_window := Some (begin_window now c d s), nd_next := Suc (nd_next s)\<rparr>)"
    unfolding nd_inv_def by (simp add: window_ok_def begin_window_def)
qed simp_all

lemma keeps_new_attempt:
  assumes "nd_window s = Some w" and "na_id a = nd_next s" and "na_window a = nw_id w"
  shows "keeps s (s\<lparr>nd_window := Some (w\<lparr>nw_attempt := Some a\<rparr>), nd_next := Suc (nd_next s), nd_checks := k\<rparr>)"
proof (rule keeps_fields)
  assume inv: "nd_inv s"
  have "window_ok (nd_next s) w" using inv assms(1) by (simp add: nd_inv_def)
  then show "nd_inv (s\<lparr>nd_window := Some (w\<lparr>nw_attempt := Some a\<rparr>), nd_next := Suc (nd_next s), nd_checks := k\<rparr>)"
    using nd_inv_next [OF inv] assms(2,3) unfolding nd_inv_def by (auto simp: window_ok_def)
qed simp_all

lemma keeps_begin: "keeps s (snd (begin_attempt now ch s))"
proof -
  obtain c d k where ch: "ch = (c, d, k)" by (cases ch) auto
  define ws where "ws = (case nd_window s of Some w \<Rightarrow> (w, s)
    | None \<Rightarrow> (begin_window now c d s, s\<lparr>nd_window := Some (begin_window now c d s), nd_next := Suc (nd_next s)\<rparr>))"
  obtain w s1 where ws1: "ws = (w, s1)" by fastforce
  have k1: "keeps s s1" and w: "nd_window s1 = Some w"
    using ws1 keeps_new_window by (auto simp: ws_def split: option.splits)
  have "begin_attempt now ch s = (if nw_context w \<noteq> nc_id c \<or> nw_attempt w \<noteq> None \<or> now \<ge> nw_expires w then (None, s1)
      else (let a = \<lparr>na_id = nd_next s1, na_window = nw_id w, na_pubkey = cd_pubkey d, na_ticket = cd_ticket d, na_key = k, na_dial = None\<rparr>
            in (Some a, s1\<lparr>nd_window := Some (w\<lparr>nw_attempt := Some a\<rparr>), nd_next := Suc (nd_next s1), nd_checks := Suc (nd_checks s1)\<rparr>)))"
  proof -
    have "begin_attempt now ch s = (case ws of (w, s1) \<Rightarrow>
       if nw_context w \<noteq> nc_id c \<or> nw_attempt w \<noteq> None \<or> now \<ge> nw_expires w then (None, s1)
      else (let a = \<lparr>na_id = nd_next s1, na_window = nw_id w, na_pubkey = cd_pubkey d, na_ticket = cd_ticket d, na_key = k, na_dial = None\<rparr>
            in (Some a, s1\<lparr>nd_window := Some (w\<lparr>nw_attempt := Some a\<rparr>), nd_next := Suc (nd_next s1), nd_checks := Suc (nd_checks s1)\<rparr>)))"
      unfolding ch begin_attempt_def ws_def Let_def prod.case by (rule refl)
    then show ?thesis unfolding ws1 by simp
  qed
  then show ?thesis
    using k1 keeps_trans [OF k1 keeps_new_attempt [OF w]] by (simp add: Let_def)
qed

lemma keeps_window: "(\<And>w. nd_inv s \<Longrightarrow> v = Some w \<Longrightarrow> window_ok (nd_next s) w) \<Longrightarrow> keeps s (s\<lparr>nd_window := v\<rparr>)"
  by (rule keeps_fields) (simp_all add: nd_inv_window)

lemma keeps_window_change:
  assumes "nd_window s = Some w" and "\<And>n. window_ok n w \<Longrightarrow> window_ok n (f w)"
  shows "keeps s (s\<lparr>nd_window := Some (f w)\<rparr>)"
  using assms by (intro keeps_window) (auto simp: nd_inv_def)

lemma keeps_window_calls:
  "keeps s (allocated a dl s)" "keeps s (abandoned a s)" "keeps s (nd_failed dl s)" "keeps s (snd (end_window i s))"
proof -
  let ?alloc = "\<lambda>w. w\<lparr>nw_vacant := False, nw_attempt := map_option (\<lambda>b. if na_id b = na_id a then b\<lparr>na_dial := Some dl\<rparr> else b) (nw_attempt w)\<rparr>"
  have "keeps s (s\<lparr>nd_window := Some (?alloc w)\<rparr>)" if "nd_window s = Some w" for w
    by (rule keeps_window_change [of s w ?alloc, OF that]) (auto simp: window_ok_def)
  then show "keeps s (allocated a dl s)" by (simp add: allocated_def split: option.split)
  have "keeps s (s\<lparr>nd_window := Some (w\<lparr>nw_attempt := None\<rparr>)\<rparr>)" if "nd_window s = Some w" for w
    by (rule keeps_window_change [of s w "\<lambda>w. w\<lparr>nw_attempt := None\<rparr>", OF that]) (simp add: window_ok_def)
  then show "keeps s (abandoned a s)" by (simp add: abandoned_def split: option.split)
  let ?fail = "\<lambda>w. w\<lparr>nw_attempt := None, nw_vacant := (nw_victim w \<noteq> None)\<rparr>"
  have "keeps s (s\<lparr>nd_window := Some (?fail w)\<rparr>)" if "nd_window s = Some w" for w
    by (rule keeps_window_change [of s w ?fail, OF that]) (simp add: window_ok_def)
  then show "keeps s (nd_failed dl s)" by (simp add: nd_failed_def split: option.split)
  show "keeps s (snd (end_window i s))"
    using keeps_window [of s None] by (simp add: end_window_def split: option.split)
qed

lemma keeps_clear: "keeps s (nd_clear s)"
  by (simp add: keeps_def nd_clear_def nd_inv_def live_context_def)

lemmas keeps_calls = keeps_context_for [THEN conjunct1] keeps_demand keeps_hint keeps_miss keeps_delivered keeps_forget
  keeps_choose keeps_begin keeps_window_calls keeps_clear

subsection \<open>Spending and re-arming\<close>

lemma put_spent:
  assumes "nd_inv s" and "live_context c s = Some x"
  shows "nd_inv (put_context (x\<lparr>nc_spent_at := v\<rparr>) s)"
    and "live_context d (put_context (x\<lparr>nc_spent_at := v\<rparr>) s) = (if d = c then Some (x\<lparr>nc_spent_at := v\<rparr>) else live_context d s)"
proof -
  let ?y = "x\<lparr>nc_spent_at := v\<rparr>"
  show inv': "nd_inv (put_context ?y s)"
    using live_context_ok [OF assms] by (intro put_live_inv [OF assms]) (simp_all add: context_ok_def)
  have x: "(nc_media x, x) \<in> set (nd_contexts s)" "nc_id x = c" using assms(2) live_context_iff [OF assms(1)] by simp_all
  have wf: "jwf (nd_contexts s)" using assms(1) by (simp add: nd_inv_def)
  have ne: "nc_media z \<noteq> nc_media x" if "(nc_media z, z) \<in> set (nd_contexts s)" "nc_id z \<noteq> c" for z
    using jget_unique [OF wf x(1)] jget_unique [OF wf that(1)] that(2) x(2) by auto
  have only: "z = x" if "(nc_media z, z) \<in> set (nd_contexts s)" "nc_id z = c" for z
    using assms(2) live_context_iff [OF assms(1), of c z] that by simp
  have "live_context d (put_context ?y s) = Some z \<longleftrightarrow> (if d = c then z = ?y else live_context d s = Some z)" for z
    unfolding live_context_iff [OF inv'] live_context_iff [OF assms(1)]
    using x ne [of z] only [of z] by (auto simp: put_context_def set_jset [OF wf])
  then show "live_context d (put_context ?y s) = (if d = c then Some ?y else live_context d s)"
    by (intro option_ext) auto
qed

lemma replacedE:
  assumes "replaced now a v s = (True, t)"
  obtains w x where "nd_window s = Some w" and "live_context (nw_context w) s = Some x" and "nc_spent_at x = None"
    and "t = put_context (x\<lparr>nc_spent_at := Some now\<rparr>)
           (s\<lparr>nd_window := Some (w\<lparr>nw_vacant := True, nw_victim := Some v\<rparr>), nd_replacements := Suc (nd_replacements s)\<rparr>)"
    and "valid_attempt now a s"
  using assms by (auto simp: replaced_def spent_def split: if_splits option.splits)

text \<open>The context \<open>c\<close> was spent at \<open>t\<close>, if it still exists.\<close>

definition spent_since :: "nat \<Rightarrow> int \<Rightarrow> discovery \<Rightarrow> bool" where
  "spent_since c t s \<longleftrightarrow> nd_inv s \<and> c < nd_next s \<and> (\<forall>x. live_context c s = Some x \<longrightarrow> nc_spent_at x = Some t)"

lemma spent_since_keeps: "keeps s u \<Longrightarrow> spent_since c t s \<Longrightarrow> spent_since c t u"
  unfolding keeps_def spent_since_def by (metis less_le_trans not_less)

lemma replaced_inv:
  assumes "nd_inv s"
  shows "nd_inv (snd (replaced now a v s))"
proof (cases "replaced now a v s")
  case (Pair b t)
  show ?thesis
  proof (cases b)
    case True
    with Pair have "replaced now a v s = (True, t)" by simp
    then obtain w x where w: "nd_window s = Some w" "live_context (nw_context w) s = Some x"
      and t: "t = put_context (x\<lparr>nc_spent_at := Some now\<rparr>)
           (s\<lparr>nd_window := Some (w\<lparr>nw_vacant := True, nw_victim := Some v\<rparr>), nd_replacements := Suc (nd_replacements s)\<rparr>)"
      by (rule replacedE)
    have "nd_inv (s\<lparr>nd_window := Some (w\<lparr>nw_vacant := True, nw_victim := Some v\<rparr>), nd_replacements := Suc (nd_replacements s)\<rparr>)"
      using assms w(1) by (simp add: nd_inv_def window_ok_def)
    then show ?thesis using Pair t w(2) put_spent(1) by simp
  next
    case False
    then have "snd (replaced now a v s) = s" using Pair by (auto simp: replaced_def split: if_splits option.splits)
    then show ?thesis using assms by simp
  qed
qed

lemma replaced_spends:
  assumes "nd_inv s" and "replaced now a v s = (True, t)" and "nd_window s = Some w"
  shows "spent_since (nw_context w) now t"
proof -
  obtain x where x: "live_context (nw_context w) s = Some x"
    and t: "t = put_context (x\<lparr>nc_spent_at := Some now\<rparr>)
           (s\<lparr>nd_window := Some (w\<lparr>nw_vacant := True, nw_victim := Some v\<rparr>), nd_replacements := Suc (nd_replacements s)\<rparr>)"
    using assms(2,3) by (auto elim: replacedE)
  define s1 where "s1 = s\<lparr>nd_window := Some (w\<lparr>nw_vacant := True, nw_victim := Some v\<rparr>), nd_replacements := Suc (nd_replacements s)\<rparr>"
  have s1: "nd_inv s1" "live_context (nw_context w) s1 = Some x" "nd_next s1 = nd_next s"
    using assms(1,3) x by (simp_all add: s1_def nd_inv_def window_ok_def)
  have "nw_context w < nd_next s"
    using live_context_ok [OF assms(1) x] live_context_iff [OF assms(1)] x by (simp add: context_ok_def)
  then show ?thesis
    using put_spent [OF s1(1,2)] s1(3) unfolding t s1_def [symmetric] spent_since_def by (simp add: put_context_def)
qed

lemma rearm_step:
  assumes "nd_inv s"
  shows "nd_inv (snd (rearm now c b s))"
    and "spent_since d t s \<Longrightarrow> t + replacement_rearm_ms \<le> now \<or> spent_since d t (snd (rearm now c b s))"
proof -
  define s1 where "s1 = s\<lparr>nd_rearmed := Suc (nd_rearmed s)\<rparr>"
  have s1: "nd_inv s1" "\<And>x. live_context x s1 = live_context x s" "nd_next s1 = nd_next s" using assms by (simp_all add: s1_def)
  have eq: "snd (rearm now c b s) = s \<or> (\<exists>x t. live_context c s = Some x \<and> nc_spent_at x = Some t \<and> t + replacement_rearm_ms \<le> now
      \<and> snd (rearm now c b s) = put_context (x\<lparr>nc_spent_at := None\<rparr>) s1)"
    unfolding rearm_def s1_def by (cases "live_context c s"; cases "nc_spent_at (the (live_context c s))") auto
  then show "nd_inv (snd (rearm now c b s))" using assms put_spent(1) [OF s1(1)] s1(2) by auto
  assume spent: "spent_since d t s"
  from eq show "t + replacement_rearm_ms \<le> now \<or> spent_since d t (snd (rearm now c b s))"
  proof (elim disjE exE conjE)
    fix x u
    assume x: "live_context c s = Some x" "nc_spent_at x = Some u" "u + replacement_rearm_ms \<le> now"
      and eq: "snd (rearm now c b s) = put_context (x\<lparr>nc_spent_at := None\<rparr>) s1"
    show ?thesis
    proof (cases "d = c")
      case True
      with spent x show ?thesis by (simp add: spent_since_def)
    next
      case False
      have "live_context c s1 = Some x" using x(1) s1(2) by simp
      from put_spent [OF s1(1) this] show ?thesis
        using False spent s1(2,3) unfolding eq spent_since_def by (simp add: put_context_def)
    qed
  qed (use spent in simp)
qed

lemma verify_step:
  assumes "nd_inv s"
  shows "nd_inv (snd (nd_verify c s))" and "spent_since d t s \<Longrightarrow> d \<noteq> c \<Longrightarrow> spent_since d t (snd (nd_verify c s))"
proof -
  define s1 where "s1 = s\<lparr>nd_verified := Suc (nd_verified s)\<rparr>"
  have s1: "nd_inv s1" "\<And>x. live_context x s1 = live_context x s" "nd_next s1 = nd_next s" using assms by (simp_all add: s1_def)
  have eq: "snd (nd_verify c s) = (case live_context c s of None \<Rightarrow> s | Some x \<Rightarrow> put_context (x\<lparr>nc_spent_at := None\<rparr>) s1)"
    by (simp add: nd_verify_def s1_def split: option.split)
  have put: "nd_inv (put_context (x\<lparr>nc_spent_at := None\<rparr>) s1)"
    "spent_since d t s \<Longrightarrow> d \<noteq> c \<Longrightarrow> spent_since d t (put_context (x\<lparr>nc_spent_at := None\<rparr>) s1)" if x: "live_context c s = Some x" for x
  proof -
    have live: "live_context c s1 = Some x" using x s1(2) by simp
    show "nd_inv (put_context (x\<lparr>nc_spent_at := None\<rparr>) s1)" by (rule put_spent(1) [OF s1(1) live])
    show "spent_since d t s \<Longrightarrow> d \<noteq> c \<Longrightarrow> spent_since d t (put_context (x\<lparr>nc_spent_at := None\<rparr>) s1)"
      using put_spent [OF s1(1) live] s1(2,3) unfolding spent_since_def by (simp add: put_context_def)
  qed
  show "nd_inv (snd (nd_verify c s))" unfolding eq using assms put(1) by (simp split: option.split)
  show "spent_since d t s \<Longrightarrow> d \<noteq> c \<Longrightarrow> spent_since d t (snd (nd_verify c s))"
    unfolding eq using put(2) by (simp split: option.split)
qed

lemma replaced_other:
  assumes "spent_since d t s"
  shows "spent_since d t (snd (replaced now a v s))"
proof -
  have inv: "nd_inv s" using assms by (simp add: spent_since_def)
  obtain b u where r: "replaced now a v s = (b, u)" by fastforce
  show ?thesis
  proof (cases b)
    case False
    with r have "u = s" by (auto simp: replaced_def split: if_splits option.splits)
    with r assms show ?thesis by simp
  next
    case True
    with r have "replaced now a v s = (True, u)" by simp
    then obtain w x where w: "nd_window s = Some w" and x: "live_context (nw_context w) s = Some x" and ns: "nc_spent_at x = None"
      and u: "u = put_context (x\<lparr>nc_spent_at := Some now\<rparr>)
           (s\<lparr>nd_window := Some (w\<lparr>nw_vacant := True, nw_victim := Some v\<rparr>), nd_replacements := Suc (nd_replacements s)\<rparr>)"
      by (rule replacedE)
    define s1 where "s1 = s\<lparr>nd_window := Some (w\<lparr>nw_vacant := True, nw_victim := Some v\<rparr>), nd_replacements := Suc (nd_replacements s)\<rparr>"
    have s1: "nd_inv s1" "live_context (nw_context w) s1 = Some x" "nd_next s1 = nd_next s" "\<And>c. live_context c s1 = live_context c s"
      using inv w x by (simp_all add: s1_def nd_inv_def window_ok_def)
    have "d \<noteq> nw_context w" using assms x ns by (auto simp: spent_since_def)
    then show ?thesis
      using assms put_spent [OF s1(1,2)] s1(3,4) r unfolding u s1_def [symmetric] spent_since_def by (simp add: put_context_def)
  qed
qed

text \<open>Every call keeps the invariant, and a context that was spent stays so for the interval.\<close>

lemma apply_inv: "nd_inv s \<Longrightarrow> nd_inv (nd_apply e s)"
  using keeps_calls rearm_step(1) verify_step(1) replaced_inv
  by (cases "(e, s)" rule: nd_apply.cases) (simp_all add: keeps_def)

lemma apply_spent:
  assumes "spent_since d t s" and "snd e \<noteq> Verified d"
  shows "t + replacement_rearm_ms \<le> fst e \<or> spent_since d t (nd_apply e s)"
  using assms spent_since_keeps [OF _ assms(1)] keeps_calls rearm_step(2) [of s] verify_step(2) [of s] replaced_other [OF assms(1)]
  by (cases "(e, s)" rule: nd_apply.cases) (auto simp: spent_since_def [of d t s])

lemma run_inv: "nd_inv s \<Longrightarrow> nd_inv (nd_run calls s)"
  unfolding nd_run_def by (induction calls arbitrary: s) (simp_all add: apply_inv)

lemma run_spent:
  assumes "spent_since d t s" and "\<forall>e \<in> set calls. snd e \<noteq> Verified d"
  shows "(\<exists>e \<in> set calls. t + replacement_rearm_ms \<le> fst e) \<or> spent_since d t (nd_run calls s)"
  using assms
proof (induction calls arbitrary: s)
  case (Cons e calls)
  then consider "t + replacement_rearm_ms \<le> fst e" | "spent_since d t (nd_apply e s)" using apply_spent by fastforce
  then show ?case
  proof cases
    case 2
    then show ?thesis using Cons.IH [OF 2] Cons.prems(2) by (auto simp: nd_run_def)
  qed auto
qed (simp add: nd_run_def)

subsection \<open>Replacements are spaced\<close>

text \<open>
  C23: a neighbour is replaced for a context at most once in twenty seconds. However the owner calls
  the advisory state, after a replacement for a context no other one is granted for that same context
  earlier than the re-arm interval, unless a verified delivery cleared it in between.
\<close>

theorem replacement_spaced:
  assumes "s = nd_run calls new_discovery" and "replaced t1 a v s = (True, s1)" and "nd_window s = Some w"
    and "\<forall>e \<in> set later. snd e \<noteq> Verified (nw_context w) \<and> fst e \<le> t2"
    and "replaced t2 a' v' (nd_run later s1) = (True, s2)" and "nd_window (nd_run later s1) = Some w'"
    and "nw_context w' = nw_context w"
  shows "t1 + replacement_rearm_ms \<le> t2"
proof -
  have inv: "nd_inv s" unfolding assms(1) using nd_inv_new by (rule run_inv)
  have start: "spent_since (nw_context w) t1 s1" using inv assms(2,3) by (rule replaced_spends)
  obtain w2 x where "nd_window (nd_run later s1) = Some w2" "live_context (nw_context w2) (nd_run later s1) = Some x" "nc_spent_at x = None"
    using assms(5) by (rule replacedE)
  then have "\<not> spent_since (nw_context w) t1 (nd_run later s1)" using assms(6,7) by (auto simp: spent_since_def)
  then obtain e where "e \<in> set later" "t1 + replacement_rearm_ms \<le> fst e"
    using run_spent [OF start, of later] assms(4) by blast
  then show ?thesis using assms(4) by fastforce
qed

definition ex_key :: string where "ex_key = replicate 64 CHR ''a''"
definition ex_peer :: string where "ex_peer = replicate 64 CHR ''b''"

definition ex_candidate :: "int \<Rightarrow> ncandidate" where
  "ex_candidate tm = \<lparr>cd_pubkey = ex_peer, cd_have = [ex_key], cd_ticket = None, cd_at = tm\<rparr>"

definition ex_calls :: "int \<Rightarrow> (int \<times> nd_call) list" where
  "ex_calls tm = [(tm, Demand ''main'' ''r'' ex_key), (tm, Hint ex_peer (JArr [JStr ex_key]) JUndefined)]"

definition ex_begin :: "int \<Rightarrow> discovery \<Rightarrow> nattempt option \<times> discovery" where
  "ex_begin tm s = (case live_context 0 s of None \<Rightarrow> (None, s) | Some c \<Rightarrow> begin_attempt tm (c, ex_candidate tm, ex_key) s)"

definition ex_first :: discovery where "ex_first = snd (ex_begin 0 (nd_run (ex_calls 0) new_discovery))"

definition ex_attempt :: "nat \<Rightarrow> nat \<Rightarrow> nattempt" where
  "ex_attempt i w = \<lparr>na_id = i, na_window = w, na_pubkey = ex_peer, na_ticket = None, na_key = ex_key, na_dial = None\<rparr>"

definition ex_context :: "int option \<Rightarrow> int \<Rightarrow> ncontext" where
  "ex_context sp tm = \<lparr>nc_id = 0, nc_media = ''main'', nc_rendition = ''r'', nc_keys = [ex_key], nc_demand = Some tm,
     nc_activity = tm, nc_spent_at = sp, nc_holders = []\<rparr>"

definition ex_later :: "(int \<times> nd_call) list" where
  "ex_later = (0, EndWindow 1) # ex_calls 15000 @ [(20000, Rearm 0 True), (20000, Begin (ex_context None 15000, ex_candidate 15000, ex_key))]"

definition ex_calls0 :: "(int \<times> nd_call) list" where
  "ex_calls0 = ex_calls 0 @ [(0, Begin (ex_context None 0, ex_candidate 0, ex_key))]"

theorem replacement_spaced_witness:
  "fst (replaced 20000 (ex_attempt 4 3) ''v'' (nd_run ex_later (snd (replaced 0 (ex_attempt 2 1) ''v'' (nd_run ex_calls0 new_discovery)))))
     \<and> (0 :: int) + replacement_rearm_ms \<le> 20000"
proof -
  let ?s = "nd_run ex_calls0 new_discovery"
  let ?s1 = "snd (replaced 0 (ex_attempt 2 1) ''v'' ?s)"
  let ?s2 = "nd_run ex_later ?s1"
  have one: "fst (replaced 0 (ex_attempt 2 1) ''v'' ?s)" "map_option nw_context (nd_window ?s) = Some 0" by code_simp+
  have two: "fst (replaced 20000 (ex_attempt 4 3) ''v'' ?s2)" "map_option nw_context (nd_window ?s2) = Some 0" by code_simp+
  obtain w w' where w: "nd_window ?s = Some w" "nw_context w = 0" "nd_window ?s2 = Some w'" "nw_context w' = 0"
    using one(2) two(2) by auto
  have "\<forall>e \<in> set ex_later. snd e \<noteq> Verified (nw_context w) \<and> fst e \<le> 20000"
    by (simp add: ex_later_def ex_calls_def)
  from replacement_spaced [OF refl _ w(1) this _ w(3)] have "(0 :: int) + replacement_rearm_ms \<le> 20000"
    using one(1) two(1) w by (metis prod.collapse eq_True)
  then show ?thesis using two(1) by blast
qed

subsection \<open>What is chosen can be begun\<close>

lemma hinted_in_Some:
  "hinted_in now c e ds = Some (c', d, k) \<Longrightarrow>
    c' = c \<and> d \<in> set ds \<and> fresh_candidate now d \<and> e d \<and> k \<in> set (nc_keys c) \<and> k \<in> set (cd_have d)"
  by (induction ds) (auto split: if_splits option.splits simp: find_Some_iff)

lemma choose_in_Some:
  "choose_in now e u r cs nh inel s = (Some (c, d, k), t) \<Longrightarrow>
    c \<in> set cs \<and> nd_current now (nc_id c) s \<and> u c \<and> hinted now c e s = Some (c, d, k)
    \<and> nd_contexts t = nd_contexts s \<and> nd_candidates t = nd_candidates s \<and> nd_window t = nd_window s \<and> nd_next t = nd_next s"
proof (induction cs arbitrary: nh inel s)
  case (Cons x cs)
  have same: "nd_current now i (s\<lparr>nd_unmet_ineligible := n\<rparr>) = nd_current now i s" "nd_current now i (s\<lparr>nd_unmet_no_hint := n\<rparr>) = nd_current now i s"
    "hinted now y e (s\<lparr>nd_unmet_ineligible := n\<rparr>) = hinted now y e s" "hinted now y e (s\<lparr>nd_unmet_no_hint := n\<rparr>) = hinted now y e s" for i n y
    by (simp_all add: nd_current_def hinted_def)
  have found: "hinted now x e s = Some (a, b, l) \<Longrightarrow> a = x" for a b l using hinted_in_Some by (auto simp: hinted_def)
  show ?case
    using Cons.prems Cons.IH [of _ _ s] Cons.IH [of _ _ "s\<lparr>nd_unmet_ineligible := Suc (nd_unmet_ineligible s)\<rparr>"]
      Cons.IH [of _ _ "s\<lparr>nd_unmet_no_hint := Suc (nd_unmet_no_hint s)\<rparr>"] found
    by (auto simp: same split: if_splits option.splits)
qed simp

text \<open>
  A choice can be carried out. Whatever \<open>choose\<close> returns is a current and unmet context, a fresh
  and eligible candidate and a key that the one demands and the other holds; \<open>begin\<close> with it at once
  gives an attempt that is valid, as long as no window has expired that the owner failed to end.
\<close>

theorem choose_begin:
  assumes "s = nd_run calls new_discovery" and "nd_choose now e u r s = (Some (c, d, k), t)"
    and "nd_window s = None \<or> window_live now s"
  shows "nd_current now (nc_id c) s \<and> u c \<and> e d \<and> fresh_candidate now d \<and> k \<in> set (nc_keys c) \<and> k \<in> set (cd_have d)
    \<and> (\<exists>a t'. begin_attempt now (c, d, k) t = (Some a, t') \<and> valid_attempt now a t' \<and> na_pubkey a = cd_pubkey d)"
proof -
  have inv: "nd_inv s" unfolding assms(1) using nd_inv_new by (rule run_inv)
  obtain cs where ch: "choose_in now e u r cs False False s = (Some (c, d, k), t)"
    and w: "nd_window s = Some w \<Longrightarrow> nw_attempt w = None \<and> nc_id c = nw_context w" for w
  proof (cases "nd_window s")
    case None
    then show ?thesis using assms(2) that by (auto simp: nd_choose_def simp del: choose_in.simps)
  next
    case (Some w)
    then obtain x where x: "live_context (nw_context w) s = Some x" "nw_attempt w = None" "choose_in now e u r [x] False False s = (Some (c, d, k), t)"
      using assms(2) by (auto simp: nd_choose_def simp del: choose_in.simps split: if_splits option.splits)
    moreover have "c = x" using choose_in_Some [OF x(3)] by simp
    moreover have "nc_id x = nw_context w" using x(1) live_context_iff [OF inv] by simp
    ultimately show ?thesis using x(2) Some by (intro that [OF x(3)]) simp
  qed
  note f = choose_in_Some [OF ch]
  then have h: "d \<in> set (map snd (nd_candidates s))" "fresh_candidate now d" "e d" "k \<in> set (nc_keys c)" "k \<in> set (cd_have d)"
    using hinted_in_Some unfolding hinted_def by blast+
  obtain p where p: "(p, d) \<in> set (nd_candidates s)" using h(1) by auto
  moreover have "cd_pubkey d = p" "jwf (nd_candidates s)" using inv p by (auto simp: nd_inv_def candidate_ok_def)
  ultimately have cand: "jget (nd_candidates s) (cd_pubkey d) = Some d" by (simp add: jget_unique)
  obtain x tm where x: "live_context (nc_id c) s = Some x" and tm: "nc_demand x = Some tm" "tm \<le> now" "now - tm < 30000"
    using f by (auto simp: nd_current_def split: option.splits)
  have demand: "nc_demand c = Some tm"
  proof -
    have "c = x"
    proof (cases "nd_window s")
      case None
      then have "c \<in> set (map snd (nd_contexts s))"
        using assms(2) choose_in_Some [of now e u r "map snd (nd_contexts s)" False False s c d k t]
        by (simp add: nd_choose_def del: choose_in.simps)
      then have "(nc_media c, c) \<in> set (nd_contexts s)" using inv by (auto simp: nd_inv_def context_ok_def)
      then show ?thesis using x live_context_iff [OF inv, of "nc_id c" c] by simp
    next
      case (Some v)
      obtain y where y: "live_context (nw_context v) s = Some y" "choose_in now e u r [y] False False s = (Some (c, d, k), t)"
        using assms(2) Some by (auto simp: nd_choose_def simp del: choose_in.simps split: if_splits option.splits)
      have "c = y" using choose_in_Some [OF y(2)] by simp
      moreover have "nc_id c = nw_context v" using w [OF Some] by simp
      ultimately show ?thesis using x y(1) by simp
    qed
    then show ?thesis using tm by simp
  qed
  define v where "v = (case nd_window s of Some w \<Rightarrow> w | None \<Rightarrow> begin_window now c d t)"
  have v: "nw_context v = nc_id c" "nw_attempt v = None" "now < nw_expires v" "nw_created v \<le> now"
    using w assms(3) demand tm h(2) by (auto simp: v_def begin_window_def window_live_def fresh_candidate_def split: option.splits)
  obtain a t' where a: "begin_attempt now (c, d, k) t = (Some a, t')" "nd_window t' = Some (v\<lparr>nw_attempt := Some a\<rparr>)"
    and fields: "na_window a = nw_id v" "na_pubkey a = cd_pubkey d" "na_ticket a = cd_ticket d" "na_key a = k"
    and t': "nd_contexts t' = nd_contexts s" "nd_candidates t' = nd_candidates s"
    using v f by (auto simp: begin_attempt_def v_def Let_def split: option.splits)
  have "nd_current now (nc_id c) t'" using f t'(1) by (simp add: nd_current_def live_context_def)
  then have "valid_attempt now a t'"
    using a(2) v fields t'(2) cand h by (simp add: valid_attempt_def owned_window_def window_live_def)
  then show ?thesis using f h a(1) fields(2) by blast
qed

definition ex_hinted :: discovery where "ex_hinted = nd_run (ex_calls 5) new_discovery"

theorem choose_begin_witness:
  "\<exists>a t'. begin_attempt 7 (ex_context None 5, ex_candidate 5, ex_key) (snd (nd_choose 7 (\<lambda>d. True) (\<lambda>c. True) True ex_hinted)) = (Some a, t')
     \<and> valid_attempt 7 a t' \<and> na_pubkey a = ex_peer"
proof -
  have ch: "fst (nd_choose 7 (\<lambda>d. True) (\<lambda>c. True) True ex_hinted) = Some (ex_context None 5, ex_candidate 5, ex_key)" by code_simp
  obtain t where t: "nd_choose 7 (\<lambda>d. True) (\<lambda>c. True) True ex_hinted = (Some (ex_context None 5, ex_candidate 5, ex_key), t)"
    using ch by (cases "nd_choose 7 (\<lambda>d. True) (\<lambda>c. True) True ex_hinted") auto
  have w: "nd_window ex_hinted = None \<or> window_live 7 ex_hinted" by code_simp
  show ?thesis using choose_begin [OF ex_hinted_def t w] t by (auto simp: ex_candidate_def)
qed

subsection \<open>Stale holders\<close>

definition misses :: "nat \<Rightarrow> string \<Rightarrow> (int \<times> string) list \<Rightarrow> discovery \<Rightarrow> discovery" where
  "misses c p ms s = fold (\<lambda>(tm, k) s. snd (holder_miss tm c p k s)) ms s"

lemma live_put: "nd_inv (put_context y s) \<Longrightarrow> live_context (nc_id y) (put_context y s) = Some y"
  using live_context_iff [of "put_context y s" "nc_id y" y] by (simp add: put_context_def jget_in)

text \<open>
  The entry of a link counts the runs of equal keys among its misses: a key missed twice in a row counts
  once, two keys missed in turn count every time.
\<close>

lemma misses_entry:
  assumes "nd_inv s" and "live_context c s = Some x" and "jget (nc_holders x) p = Some e" and "hex_string p 64"
    and "\<forall>m \<in> set ms. hex_string (snd m) 64"
  shows "\<exists>y. live_context c (misses c p ms s) = Some y \<and> jget (nc_holders y) p =
    Some (e\<lparr>hl_misses := hl_misses e + length (remdups_adj (hl_last_key e # map snd ms)) - 1,
           hl_last_key := last (hl_last_key e # map snd ms)\<rparr>)"
  using assms
proof (induction ms arbitrary: s x e)
  case Nil
  then show ?case by (simp add: misses_def)
next
  case (Cons m ms)
  obtain tm k where m: "m = (tm, k)" by fastforce
  have hk: "hex_string k 64" using Cons.prems(5) m by simp
  define t where "t = snd (holder_miss tm c p k s)"
  have inv: "nd_inv t" using keeps_miss [of s tm c p k] Cons.prems(1) by (simp add: keeps_def t_def)
  have step: "misses c p (m # ms) s = misses c p ms t" by (simp add: misses_def m t_def)
  show ?case
  proof (cases "hl_last_key e = k")
    case True
    then have "t = s" using Cons.prems(2-4) hk by (simp add: t_def holder_miss_def)
    then show ?thesis using Cons.IH [OF inv, of x e] Cons.prems True unfolding step by (simp add: m)
  next
    case False
    define f where "f = e\<lparr>hl_misses := Suc (hl_misses e), hl_last_key := k\<rparr>"
    let ?y = "x\<lparr>nc_holders := jset p f (nc_holders x)\<rparr>"
    have t: "t = put_context ?y s" using Cons.prems(2-4) hk False by (simp add: t_def holder_miss_def f_def)
    have "nc_id x = c" using Cons.prems(2) live_context_iff [OF Cons.prems(1)] by simp
    then have "live_context c t = Some ?y" using live_put [of ?y s] inv t by simp
    from Cons.IH [OF inv this, of f] Cons.prems(4,5) show ?thesis
      using False unfolding step by (simp add: m f_def)
  qed
qed

text \<open>Four misses that alternate between two segments make a link stale, as four segments do.\<close>

lemma alternating_misses_stale:
  assumes "nd_inv s" and "live_context c s = Some x" and "jget (nc_holders x) p = None" and "hex_string p 64"
    and "hex_string k 64" "hex_string k' 64" "k \<noteq> k'" and "tm + stale_holder_ms \<le> now"
  shows "stale now c p (misses c p [(tm, k), (tm, k'), (tm, k), (tm, k')] s)"
proof -
  let ?e = "\<lparr>hl_first = tm, hl_misses = 1, hl_last_key = k\<rparr>"
  define t where "t = snd (holder_miss tm c p k s)"
  have inv: "nd_inv t" using keeps_miss [of s tm c p k] assms(1) by (simp add: keeps_def t_def)
  obtain hs where t: "t = put_context (x\<lparr>nc_holders := jset p ?e hs\<rparr>) s"
    using assms(2-5) by (simp add: t_def holder_miss_def Let_def)
  have "nc_id x = c" using assms(2) live_context_iff [OF assms(1)] by simp
  then have live: "live_context c t = Some (x\<lparr>nc_holders := jset p ?e hs\<rparr>)"
    using live_put [of "x\<lparr>nc_holders := jset p ?e hs\<rparr>" s] inv t by simp
  have step: "misses c p [(tm, k), (tm, k'), (tm, k), (tm, k')] s = misses c p [(tm, k'), (tm, k), (tm, k')] t"
    by (simp add: misses_def t_def)
  show ?thesis
    using misses_entry [OF inv live, of p ?e "[(tm, k'), (tm, k), (tm, k')]"] assms(4-8)
    unfolding step by (auto simp: stale_def stale_holder_misses_def)
qed

end
