(* ===== verification/Swarm_Rotation.thy ===== *)
theory Swarm_Rotation
  imports Relay_Session Complex_Main "HOL-Library.Product_Lexorder"
begin

text \<open>
  Which link gives way to a newcomer, and what a refused newcomer is told: \<open>rotationChoice\<close>,
  \<open>retryAfterFor\<close>, \<open>readRefusal\<close> of \<open>src/browser/hls-swarm.mjs\<close>, with the tiers that order the choice.

  A link is the record of the fields that the swarm reads of it.  Times are milliseconds.
\<close>

record swarm_link =
  sl_id :: nat
  sl_pubkey :: string
  sl_closed :: bool
  sl_transferring :: bool
  sl_opened :: int
  sl_useful :: int
  sl_last_served :: int
  sl_outbound :: nat
  sl_serving :: bool
  sl_announced :: "(string \<times> int) list"
  sl_have :: "string list"
  sl_renditions :: "(string \<times> int) list"

record rotation_options =
  ro_min_link_life :: int
  ro_idle_evict :: int
  ro_eviction_cooldown :: int
  ro_retry_floor :: int
  ro_retry_ceiling :: int
  ro_max_referrals :: nat
  ro_presence_interval :: int

definition rotatable :: "rotation_options \<Rightarrow> string set \<Rightarrow> int \<Rightarrow> swarm_link \<Rightarrow> bool" where
  "rotatable opt banned tm link \<longleftrightarrow> \<not> (sl_transferring link \<or> sl_pubkey link \<in> banned)
     \<and> \<not> tm - sl_opened link < ro_min_link_life opt \<and> \<not> tm - sl_useful link < ro_idle_evict opt"

text \<open>The loop of \<open>rotationChoice\<close> over the links, \<open>worst\<close> with its tier so far.\<close>

fun rotation_loop :: "rotation_options \<Rightarrow> string set \<Rightarrow> (swarm_link \<Rightarrow> nat) option \<Rightarrow> int \<Rightarrow> swarm_link list
    \<Rightarrow> (swarm_link \<times> nat) option \<Rightarrow> (swarm_link \<times> nat) option" where
  "rotation_loop opt banned tier tm [] worst = worst"
| "rotation_loop opt banned tier tm (link # links) worst =
     (if \<not> rotatable opt banned tm link then rotation_loop opt banned tier tm links worst
      else (let rank = (case tier of None \<Rightarrow> 0 | Some f \<Rightarrow> f link)
        in rotation_loop opt banned tier tm links
             (case worst of
                None \<Rightarrow> Some (link, rank)
              | Some (w, t) \<Rightarrow>
                  if rank < t \<or> (rank = t \<and> sl_useful link < sl_useful w) then Some (link, rank) else Some (w, t))))"

definition rotation_choice :: "rotation_options \<Rightarrow> string set \<Rightarrow> (swarm_link \<Rightarrow> nat) option \<Rightarrow> int \<Rightarrow> swarm_link list
    \<Rightarrow> (swarm_link \<times> nat) option" where
  "rotation_choice opt banned tier tm links = rotation_loop opt banned tier tm links None"

definition rotation_candidate :: "rotation_options \<Rightarrow> string set \<Rightarrow> int \<Rightarrow> swarm_link list \<Rightarrow> swarm_link option" where
  "rotation_candidate opt banned tm links = map_option fst (rotation_choice opt banned None tm links)"

text \<open>
  \<open>#rotationTier\<close>: 0 for an unhelpful remote, 1 for one that serves, 2 for a consumer of this viewer;
  \<open>played\<close> is when each rendition was last played here.
\<close>

definition rotation_tier :: "rotation_options \<Rightarrow> bool \<Rightarrow> (string \<times> int) list \<Rightarrow> int \<Rightarrow> swarm_link \<Rightarrow> nat" where
  "rotation_tier opt serving_allowed played tm link =
     (if sl_serving link then 1
      else if \<not> serving_allowed then 0
      else if list_ex (\<lambda>(rendition, announced). tm - announced \<le> 2 * ro_presence_interval opt
             \<and> (case jget played rendition of None \<Rightarrow> False | Some t \<Rightarrow> tm - t \<le> 30000)) (sl_announced link) then 2
      else 0)"

fun candidate_wait :: "rotation_options \<Rightarrow> int \<Rightarrow> swarm_link list \<Rightarrow> int \<Rightarrow> int" where
  "candidate_wait opt tm [] w = w"
| "candidate_wait opt tm (link # links) w =
     candidate_wait opt tm links
       (min w (max (ro_min_link_life opt - (tm - sl_opened link)) (max (ro_idle_evict opt - (tm - sl_useful link)) 0)))"

definition retry_after_for :: "rotation_options \<Rightarrow> int \<Rightarrow> int \<Rightarrow> swarm_link list \<Rightarrow> int" where
  "retry_after_for opt last_eviction tm links =
     (let churn = max 0 (ro_eviction_cooldown opt - (tm - last_eviction));
          wait = candidate_wait opt tm links (ro_retry_ceiling opt)
      in min (ro_retry_ceiling opt) (max (ro_retry_floor opt) (max churn wait)))"

text \<open>
  \<open>readRefusal\<close>; \<open>number\<close> is the language's \<open>Number\<close> conversion where it gives a finite value.
\<close>

definition read_refusal :: "(js \<Rightarrow> rat option) \<Rightarrow> rotation_options \<Rightarrow> js \<Rightarrow> rat \<times> string list" where
  "read_refusal number opt payload =
     (case number (member payload ''retryAfterMs'') of
        None \<Rightarrow> of_int (ro_retry_floor opt)
      | Some raw \<Rightarrow> min (of_int (ro_retry_ceiling opt)) (max (of_int (ro_retry_floor opt)) raw),
      take (ro_max_referrals opt) (map js_string (filter (\<lambda>k. is_string k \<and> hex64_test k) (elems (member payload ''referrals'')))))"

subsection \<open>The choice is the least eligible link\<close>

text \<open>The specification: sort the eligible links by tier, then by when they were last useful, stably.\<close>

definition least_useful :: "rotation_options \<Rightarrow> string set \<Rightarrow> (swarm_link \<Rightarrow> nat) \<Rightarrow> int \<Rightarrow> swarm_link list \<Rightarrow> swarm_link option" where
  "least_useful opt banned tier tm links =
     (case sort_key (\<lambda>l. (tier l, sl_useful l)) (filter (rotatable opt banned tm) links) of
        [] \<Rightarrow> None
      | l # _ \<Rightarrow> Some l)"

text \<open>The first of the least elements of a list, which a stable sort puts in front.\<close>

fun first_min :: "('a \<Rightarrow> 'b::linorder) \<Rightarrow> 'a list \<Rightarrow> 'a option \<Rightarrow> 'a option" where
  "first_min f [] w = w"
| "first_min f (x # xs) w = first_min f xs (case w of None \<Rightarrow> Some x | Some y \<Rightarrow> if f x < f y then Some x else Some y)"

lemma first_min_some: "first_min f xs (Some x) = (case first_min f xs None of None \<Rightarrow> Some x | Some y \<Rightarrow> if f y < f x then Some y else Some x)"
proof (induction xs arbitrary: x)
  case (Cons a xs)
  show ?case using Cons.IH [of a] Cons.IH [of x] by (auto split: option.split)
qed simp

lemma hd_insort: "hd (insort_key f x ys) = (if ys = [] \<or> f x \<le> f (hd ys) then x else hd ys)"
  by (cases ys) auto

lemma first_min_sort: "first_min f xs None = (case sort_key f xs of [] \<Rightarrow> None | y # _ \<Rightarrow> Some y)"
proof (induction xs)
  case (Cons x xs)
  have "first_min f (x # xs) None = first_min f xs (Some x)" by simp
  also have "\<dots> = (case sort_key f (x # xs) of [] \<Rightarrow> None | y # _ \<Rightarrow> Some y)"
    unfolding first_min_some Cons.IH
    by (cases "sort_key f xs") (auto simp: not_less)
  finally show ?case .
qed simp

lemma rotation_loop_first_min:
  assumes "\<And>w t. worst = Some (w, t) \<Longrightarrow> t = f w"
  shows "rotation_loop opt banned (Some f) tm links worst =
    map_option (\<lambda>l. (l, f l)) (first_min (\<lambda>l. (f l, sl_useful l)) (filter (rotatable opt banned tm) links) (map_option fst worst))"
  using assms
proof (induction links arbitrary: worst)
  case Nil
  then show ?case by (cases worst) auto
next
  case (Cons l links)
  show ?case
  proof (cases worst)
    case None
    then show ?thesis using Cons.IH [of "Some (l, f l)"] Cons.IH [of None] by (auto simp: Let_def)
  next
    case (Some p)
    then obtain w where w: "worst = Some (w, f w)" using Cons.prems by (cases p) auto
    show ?thesis using Cons.IH [of "Some (l, f l)"] Cons.IH [of "Some (w, f w)"] w
      by (cases "f l < f w \<or> f l = f w \<and> sl_useful l < sl_useful w") (auto simp: Let_def)
  qed
qed

lemma rotation_loop_least:
  "rotation_loop opt banned (Some f) tm links None = map_option (\<lambda>l. (l, f l)) (least_useful opt banned f tm links)"
  using rotation_loop_first_min [of None f opt banned tm links] by (simp add: first_min_sort least_useful_def)

lemma rotation_no_tier: "rotation_loop opt banned None tm links worst = rotation_loop opt banned (Some (\<lambda>_. 0)) tm links worst"
  by (induction links arbitrary: worst) auto

text \<open>
  C25: rotation is fair and never breaks a working link. The link that gives way is the first of the
  least by tier and then by when it was last useful, as a stable sort of the eligible links gives; so a
  link in transfer, a banned one, a young one and a recently useful one are never chosen, and a tier
  only orders the links that could go, never makes one eligible or exempt.
\<close>

theorem rotation_choice_sorted:
  "rotation_choice opt banned tier tm links =
     map_option (\<lambda>l. (l, (case tier of None \<Rightarrow> 0 | Some f \<Rightarrow> f l)))
       (least_useful opt banned (case tier of None \<Rightarrow> (\<lambda>_. 0) | Some f \<Rightarrow> f) tm links)"
  by (cases tier) (simp_all add: rotation_choice_def rotation_no_tier rotation_loop_least)

lemma least_useful_eligible:
  assumes "least_useful opt banned tier tm links = Some l"
  shows "l \<in> set links \<and> rotatable opt banned tm l"
proof -
  obtain ls where "sort_key (\<lambda>l. (tier l, sl_useful l)) (filter (rotatable opt banned tm) links) = l # ls"
    using assms by (auto simp: least_useful_def split: list.splits)
  then have "l \<in> set (sort_key (\<lambda>l. (tier l, sl_useful l)) (filter (rotatable opt banned tm) links))" by simp
  then show ?thesis by simp
qed

lemma rotation_choice_Some:
  "rotation_choice opt banned tier tm links = Some (l, t) \<Longrightarrow> l \<in> set links \<and> rotatable opt banned tm l"
  using least_useful_eligible by (fastforce simp: rotation_choice_sorted)

lemma rotation_choice_None:
  "rotation_choice opt banned tier tm links = None \<longleftrightarrow> (\<forall>l \<in> set links. \<not> rotatable opt banned tm l)"
proof -
  have "least_useful opt banned f tm links = None \<longleftrightarrow> filter (rotatable opt banned tm) links = []" for f
    by (auto simp: least_useful_def split: list.splits dest: arg_cong [where f = length])
  then show ?thesis by (auto simp: rotation_choice_sorted filter_empty_conv)
qed

subsection \<open>The wait that a refusal names\<close>

definition link_wait :: "rotation_options \<Rightarrow> int \<Rightarrow> swarm_link \<Rightarrow> int" where
  "link_wait opt tm l = max (ro_min_link_life opt - (tm - sl_opened l)) (max (ro_idle_evict opt - (tm - sl_useful l)) 0)"

lemma candidate_wait_cases:
  "candidate_wait opt tm links w = w \<or> (\<exists>l \<in> set links. candidate_wait opt tm links w = link_wait opt tm l)"
proof (induction links arbitrary: w)
  case (Cons l links)
  have "candidate_wait opt tm (l # links) w = candidate_wait opt tm links (min w (link_wait opt tm l))" by (simp add: link_wait_def)
  moreover have "min w (link_wait opt tm l) = w \<or> min w (link_wait opt tm l) = link_wait opt tm l" by (simp add: min_def)
  ultimately show ?case using Cons.IH [of "min w (link_wait opt tm l)"] by auto
qed simp

text \<open>
  The wait that a refusal names is bounded, and enough. It lies between the floor and the ceiling;
  and when it is below the ceiling, then after that wait the churn budget allows an eviction and, unless
  something changes, a link that is neither in transfer nor banned when its turn comes can be rotated out.
\<close>

theorem retry_after_enough:
  assumes "ro_retry_floor opt \<le> ro_retry_ceiling opt" and "wait = retry_after_for opt last_eviction tm links"
    and "wait < ro_retry_ceiling opt" and "\<forall>l \<in> set links. \<not> sl_transferring l \<and> sl_pubkey l \<notin> banned"
  shows "ro_retry_floor opt \<le> wait \<and> ro_eviction_cooldown opt \<le> (tm + wait) - last_eviction
    \<and> rotation_choice opt banned tier (tm + wait) links \<noteq> None"
proof -
  have w: "ro_retry_floor opt \<le> wait" "ro_eviction_cooldown opt - (tm - last_eviction) \<le> wait"
    "candidate_wait opt tm links (ro_retry_ceiling opt) \<le> wait"
    using assms(1,3) unfolding assms(2) retry_after_for_def Let_def min_def max_def by (simp_all split: if_splits)
  obtain l where l: "l \<in> set links" "candidate_wait opt tm links (ro_retry_ceiling opt) = link_wait opt tm l"
    using candidate_wait_cases [of opt tm links "ro_retry_ceiling opt"] w(3) assms(3) by auto
  then have "link_wait opt tm l \<le> wait" using w(3) by simp
  then have "rotatable opt banned (tm + wait) l"
    using l(1) assms(4) by (auto simp: rotatable_def link_wait_def)
  then show ?thesis using w l(1) unfolding rotation_choice_None by auto
qed

definition ex_rotation :: rotation_options where
  "ex_rotation = \<lparr>ro_min_link_life = 20000, ro_idle_evict = 15000, ro_eviction_cooldown = 30000,
     ro_retry_floor = 5000, ro_retry_ceiling = 60000, ro_max_referrals = 3, ro_presence_interval = 10000\<rparr>"

definition ex_swarm_link :: "string \<Rightarrow> int \<Rightarrow> int \<Rightarrow> swarm_link" where
  "ex_swarm_link p opened useful = \<lparr>sl_id = 0, sl_pubkey = p, sl_closed = False, sl_transferring = False, sl_opened = opened,
     sl_useful = useful, sl_last_served = 0, sl_outbound = 0, sl_serving = False, sl_announced = [], sl_have = [], sl_renditions = []\<rparr>"

theorem retry_after_enough_witness:
  "retry_after_for ex_rotation 90000 100000 [ex_swarm_link ''a'' 95000 99000, ex_swarm_link ''b'' 50000 99500] = 20000
     \<and> rotation_choice ex_rotation {} None 120000 [ex_swarm_link ''a'' 95000 99000, ex_swarm_link ''b'' 50000 99500] \<noteq> None"
proof -
  have "retry_after_for ex_rotation 90000 100000 [ex_swarm_link ''a'' 95000 99000, ex_swarm_link ''b'' 50000 99500] = 20000"
    by (simp add: retry_after_for_def ex_rotation_def ex_swarm_link_def)
  then show ?thesis
    using retry_after_enough [of ex_rotation, OF _ refl, of 90000 100000 "[ex_swarm_link ''a'' 95000 99000, ex_swarm_link ''b'' 50000 99500]" "{}" None]
    by (simp add: ex_rotation_def ex_swarm_link_def)
qed

end
