(* ===== verification/Upload_Pacing.thy ===== *)
theory Upload_Pacing
  imports Js_Prelude Complex_Main
begin

text \<open>
  Paced uploads: the token bucket of \<open>src/browser/hls-swarm.mjs\<close> and the waiting queue around it,
  \<open>createUploadPacer\<close> of \<open>src/browser/upload-pacing.mjs\<close>.

  Times are milliseconds, as rational numbers, and constant during one call.  A row is known by its
  number; a promise that is resolved is an entry of \<open>pp_out\<close>.  The microtask that \<open>finish\<close> queues is a
  later call of \<open>pump\<close>.
\<close>

type_synonym millis = rat

subsection \<open>The token bucket\<close>

record bucket =
  bk_rate :: rat
  bk_tokens :: rat
  bk_refilled :: millis

definition refill :: "millis \<Rightarrow> bucket \<Rightarrow> bucket" where
  "refill tm b = b\<lparr>bk_refilled := tm,
     bk_tokens := min (bk_rate b * 2) (bk_tokens b + max 0 (tm - bk_refilled b) / 1000 * bk_rate b)\<rparr>"

definition take_tokens :: "nat \<Rightarrow> millis \<Rightarrow> bucket \<Rightarrow> bool \<times> bucket" where
  "take_tokens charge tm b =
     (let b1 = refill tm b in if bk_tokens b1 < of_nat charge then (False, b1) else (True, b1\<lparr>bk_tokens := bk_tokens b1 - of_nat charge\<rparr>))"

definition give_tokens :: "nat \<Rightarrow> bucket \<Rightarrow> bucket" where
  "give_tokens charge b = b\<lparr>bk_tokens := min (bk_rate b * 2) (bk_tokens b + of_nat charge)\<rparr>"

definition token_delay :: "nat \<Rightarrow> millis \<Rightarrow> bucket \<Rightarrow> millis \<times> bucket" where
  "token_delay charge tm b =
     (let b1 = refill tm b in (max 0 ((of_nat charge - bk_tokens b1) * 1000 / bk_rate b1), b1))"

subsection \<open>The pacer\<close>

record geometry =
  ge_key :: string
  ge_size :: nat
  ge_charge :: nat
  ge_range :: "(nat \<times> nat) option"

record prow =
  pr_id :: nat
  pr_link :: nat
  pr_geometry :: geometry
  pr_queued_at :: millis
  pr_deadline :: millis
  pr_waiting :: bool

datatype pace_reason = Expired | Cancelled | Refused

datatype pace_event =
    Granted prow millis
  | Nothing prow
  | RefusedNow nat
  | Told pace_reason
  | Aborted prow
  | Returned prow bool

record pacer =
  pp_queued :: "(nat \<times> prow) list"
  pp_reserved :: "prow list"
  pp_waited :: nat
  pp_wait_total :: millis
  pp_wait_max :: millis
  pp_granted :: nat
  pp_expired :: nat
  pp_cancelled :: nat
  pp_refused :: nat
  pp_closed :: bool
  pp_timer :: "millis option"
  pp_next :: nat
  pp_max_waiters :: nat
  pp_out :: "pace_event list"

text \<open>What the pacer calls: \<open>take\<close>, \<open>give\<close>, \<open>delay\<close>.\<close>

record 'b rate_calls =
  rc_take :: "nat \<Rightarrow> millis \<Rightarrow> 'b \<Rightarrow> bool \<times> 'b"
  rc_give :: "nat \<Rightarrow> 'b \<Rightarrow> 'b"
  rc_delay :: "nat \<Rightarrow> millis \<Rightarrow> 'b \<Rightarrow> millis \<times> 'b"

definition new_pacer :: "nat \<Rightarrow> pacer" where
  "new_pacer max_waiters = \<lparr>pp_queued = [], pp_reserved = [], pp_waited = 0, pp_wait_total = 0, pp_wait_max = 0, pp_granted = 0,
     pp_expired = 0, pp_cancelled = 0, pp_refused = 0, pp_closed = False, pp_timer = None, pp_next = 0, pp_max_waiters = max_waiters, pp_out = []\<rparr>"

definition record_wait :: "millis \<Rightarrow> prow \<Rightarrow> pacer \<Rightarrow> pacer" where
  "record_wait tm row p =
     (if \<not> pr_waiting row then p
      else (let elapsed = max 0 (tm - pr_queued_at row)
            in p\<lparr>pp_waited := Suc (pp_waited p), pp_wait_total := pp_wait_total p + elapsed, pp_wait_max := max (pp_wait_max p) elapsed\<rparr>))"

definition count_reason :: "pace_reason \<Rightarrow> pacer \<Rightarrow> pacer" where
  "count_reason r p = (case r of Expired \<Rightarrow> p\<lparr>pp_expired := Suc (pp_expired p)\<rparr>
     | Cancelled \<Rightarrow> p\<lparr>pp_cancelled := Suc (pp_cancelled p)\<rparr> | Refused \<Rightarrow> p\<lparr>pp_refused := Suc (pp_refused p)\<rparr>)"

definition pace_emit :: "pace_event list \<Rightarrow> pacer \<Rightarrow> pacer" where
  "pace_emit es p = p\<lparr>pp_out := pp_out p @ es\<rparr>"

definition remove_row :: "millis \<Rightarrow> prow \<Rightarrow> pace_reason \<Rightarrow> pacer \<Rightarrow> pacer" where
  "remove_row tm row reason p =
     (case jget (pp_queued p) (pr_link row) of
        None \<Rightarrow> p
      | Some r \<Rightarrow>
          if pr_id r \<noteq> pr_id row then p
          else pace_emit [Told reason, Nothing row]
                 (count_reason reason (record_wait tm row (p\<lparr>pp_queued := jdel (pr_link row) (pp_queued p)\<rparr>))))"

definition pace_finish :: "'b rate_calls \<Rightarrow> nat \<Rightarrow> bool \<Rightarrow> pacer \<times> 'b \<Rightarrow> pacer \<times> 'b" where
  "pace_finish rc i sent = (\<lambda>(p, b).
     case find (\<lambda>r. pr_id r = i) (pp_reserved p) of
       None \<Rightarrow> (p, b)
     | Some row \<Rightarrow>
         (pace_emit [Returned row sent] (p\<lparr>pp_reserved := filter (\<lambda>r. pr_id r \<noteq> i) (pp_reserved p)\<rparr>),
          if sent then b else rc_give rc (ge_charge (pr_geometry row)) b))"

text \<open>The loop of \<open>pump\<close> over the queue; \<open>valid\<close> is the owner's \<open>validate\<close>.\<close>

fun pump_loop :: "'b rate_calls \<Rightarrow> (prow \<Rightarrow> bool) \<Rightarrow> millis \<Rightarrow> prow list \<Rightarrow> pacer \<times> 'b \<Rightarrow> pacer \<times> 'b" where
  "pump_loop rc valid tm [] s = s"
| "pump_loop rc valid tm (row # rows) (p, b) =
     (if tm \<ge> pr_deadline row then pump_loop rc valid tm rows (remove_row tm row Expired p, b)
      else if \<not> valid row then pump_loop rc valid tm rows (remove_row tm row Cancelled p, b)
      else (let (ok, b1) = rc_take rc (ge_charge (pr_geometry row)) tm b in
        if \<not> ok then
          (let (d, b2) = rc_delay rc (ge_charge (pr_geometry row)) tm b1
           in (p\<lparr>pp_queued := jset (pr_link row) (row\<lparr>pr_waiting := True\<rparr>) (pp_queued p),
                 pp_timer := Some (max 1 (of_int \<lceil>min (pr_deadline row - tm) d\<rceil>))\<rparr>, b2))
        else pump_loop rc valid tm rows
          (let p1 = record_wait tm row (p\<lparr>pp_queued := jdel (pr_link row) (pp_queued p)\<rparr>)
           in pace_emit [Granted row tm] (p1\<lparr>pp_reserved := pp_reserved p1 @ [row], pp_granted := Suc (pp_granted p1)\<rparr>), b1)))"

definition pump :: "'b rate_calls \<Rightarrow> (prow \<Rightarrow> bool) \<Rightarrow> millis \<Rightarrow> pacer \<times> 'b \<Rightarrow> pacer \<times> 'b" where
  "pump rc valid tm = (\<lambda>(p, b).
     if pp_closed p then (p\<lparr>pp_timer := None\<rparr>, b)
     else pump_loop rc valid tm (map snd (pp_queued p)) (p\<lparr>pp_timer := None\<rparr>, b))"

definition cancel_match :: "nat option \<Rightarrow> prow \<Rightarrow> bool" where
  "cancel_match link row \<longleftrightarrow> (case link of None \<Rightarrow> True | Some l \<Rightarrow> pr_link row = l)"

definition pace_cancel :: "'b rate_calls \<Rightarrow> (prow \<Rightarrow> bool) \<Rightarrow> millis \<Rightarrow> nat option \<Rightarrow> pacer \<times> 'b \<Rightarrow> pacer \<times> 'b" where
  "pace_cancel rc valid tm link = (\<lambda>(p, b).
     (let p1 = fold (\<lambda>row. remove_row tm row Cancelled) (filter (cancel_match link) (map snd (pp_queued p))) p
      in pump rc valid tm
           (fold (\<lambda>row (q, c). pace_finish rc (pr_id row) False
                (pace_emit [Aborted row] (q\<lparr>pp_cancelled := Suc (pp_cancelled q)\<rparr>), c))
             (filter (cancel_match link) (pp_reserved p1)) (p1, b))))"

definition refuse_now :: "nat \<Rightarrow> pacer \<Rightarrow> pacer" where
  "refuse_now link p = pace_emit [Told Refused, RefusedNow link] (p\<lparr>pp_refused := Suc (pp_refused p)\<rparr>)"

definition pace_acquire :: "'b rate_calls \<Rightarrow> (prow \<Rightarrow> bool) \<Rightarrow> millis \<Rightarrow> nat \<Rightarrow> geometry \<Rightarrow> pacer \<times> 'b \<Rightarrow> pacer \<times> 'b" where
  "pace_acquire rc valid tm link g = (\<lambda>(p, b).
     if pp_closed p \<or> jhas (pp_queued p) link \<or> list_ex (\<lambda>r. pr_link r = link) (pp_reserved p)
         \<or> length (pp_queued p) \<ge> pp_max_waiters p then (refuse_now link p, b)
     else (let (blocked, b1) =
              (if ge_range g \<noteq> None then (False, b)
               else if pp_queued p \<noteq> [] then (True, b)
               else (let (d, b1) = rc_delay rc (ge_charge g) tm b in (d > 0, b1)))
       in if blocked then (refuse_now link p, b1)
          else (let row = \<lparr>pr_id = pp_next p, pr_link = link, pr_geometry = g, pr_queued_at = tm, pr_deadline = tm + 250,
                   pr_waiting = (pp_queued p \<noteq> [])\<rparr>
                in pump rc valid tm (p\<lparr>pp_queued := jset link row (pp_queued p), pp_next := Suc (pp_next p)\<rparr>, b1))))"

definition pace_stop :: "'b rate_calls \<Rightarrow> (prow \<Rightarrow> bool) \<Rightarrow> millis \<Rightarrow> pacer \<times> 'b \<Rightarrow> pacer \<times> 'b" where
  "pace_stop rc valid tm = (\<lambda>(p, b).
     apfst (\<lambda>q. q\<lparr>pp_timer := None\<rparr>) (pace_cancel rc valid tm None (p\<lparr>pp_closed := True\<rparr>, b)))"

definition reserved_bytes :: "pacer \<Rightarrow> nat" where
  "reserved_bytes p = (\<Sum>row \<leftarrow> pp_reserved p. ge_charge (pr_geometry row))"

datatype pace_call =
    Acquire nat geometry
  | Finish nat bool
  | Cancel "nat option"
  | Pump
  | Stop

text \<open>A call at its time, with what the owner's \<open>validate\<close> answers during it.\<close>

fun pace_apply :: "'b rate_calls \<Rightarrow> millis \<times> (prow \<Rightarrow> bool) \<times> pace_call \<Rightarrow> pacer \<times> 'b \<Rightarrow> pacer \<times> 'b" where
  "pace_apply rc (tm, valid, Acquire link g) s = pace_acquire rc valid tm link g s"
| "pace_apply rc (tm, valid, Finish i sent) s = pace_finish rc i sent s"
| "pace_apply rc (tm, valid, Cancel link) s = pace_cancel rc valid tm link s"
| "pace_apply rc (tm, valid, Pump) s = pump rc valid tm s"
| "pace_apply rc (tm, valid, Stop) s = pace_stop rc valid tm s"

definition bucket_calls :: "bucket rate_calls" where
  "bucket_calls = \<lparr>rc_take = take_tokens, rc_give = give_tokens, rc_delay = token_delay\<rparr>"

end
