(* ===== verification/Upload_Pacing_Claims.thy ===== *)
theory Upload_Pacing_Claims
  imports Upload_Pacing "HOL-Library.Multiset"
begin

text \<open>
  What paced uploads guarantee.  The pacer relies on its token bucket through the interface
  \<open>rate_bucket\<close>; the bucket of the swarm is its interpretation.
\<close>

subsection \<open>Slots\<close>

definition granted_in_time :: "pace_event \<Rightarrow> bool" where
  "granted_in_time e = (case e of Granted row tm \<Rightarrow> tm < pr_queued_at row + 250 | _ \<Rightarrow> True)"

abbreviation pace_rows :: "pacer \<Rightarrow> prow list" where
  "pace_rows p \<equiv> map snd (pp_queued p) @ pp_reserved p"

definition pace_inv :: "pacer \<Rightarrow> bool" where
  "pace_inv p \<longleftrightarrow> (\<forall>e \<in> set (pp_queued p). pr_link (snd e) = fst e)
     \<and> (\<forall>r \<in> set (pace_rows p). pr_id r < pp_next p \<and> pr_deadline r = pr_queued_at r + 250)
     \<and> distinct (map pr_id (pace_rows p)) \<and> distinct (map pr_link (pace_rows p))
     \<and> length (pp_queued p) \<le> pp_max_waiters p \<and> list_all granted_in_time (pp_out p)"

lemma distinct_sub:
  assumes "mset ys \<subseteq># mset xs" and "distinct (map f xs)"
  shows "distinct (map f ys)"
proof -
  obtain zs where "mset xs = mset (ys @ zs)" using assms(1) by (metis ex_mset mset_append subset_mset.le_iff_add)
  then have "mset (map f xs) = mset (map f (ys @ zs))" by simp
  then show ?thesis using assms(2) mset_eq_imp_distinct_iff by fastforce
qed

lemma eq_refl_mset: "mset ys = mset xs \<Longrightarrow> mset ys \<subseteq># mset xs"
  by simp

lemma pace_inv_sub:
  assumes "pace_inv p" and "mset (pace_rows q) \<subseteq># mset (pace_rows p)" and "set (pp_queued q) \<subseteq> set (pp_queued p)"
    and "length (pp_queued q) \<le> pp_max_waiters q" and "pp_next q = pp_next p" and "list_all granted_in_time (pp_out q)"
  shows "pace_inv q"
proof -
  have "set (pace_rows q) \<subseteq> set (pace_rows p)" using set_mset_mono [OF assms(2)] by (simp only: set_mset_mset)
  moreover have "distinct (map pr_id (pace_rows q))" "distinct (map pr_link (pace_rows q))"
    using distinct_sub [OF assms(2)] assms(1) unfolding pace_inv_def by blast+
  moreover have "\<forall>e \<in> set (pp_queued q). pr_link (snd e) = fst e" using assms(1,3) by (auto simp: pace_inv_def)
  moreover have "\<forall>r \<in> set (pace_rows p). pr_id r < pp_next p \<and> pr_deadline r = pr_queued_at r + 250"
    using assms(1) unfolding pace_inv_def by blast
  ultimately show ?thesis using assms(4-6) unfolding pace_inv_def by (auto simp only: subset_iff)
qed

lemma pace_inv_jwf: "pace_inv p \<Longrightarrow> jwf (pp_queued p)"
proof -
  assume inv: "pace_inv p"
  then have eq: "map fst (pp_queued p) = map pr_link (map snd (pp_queued p))" by (simp add: pace_inv_def)
  have "distinct (map pr_link (map snd (pp_queued p)))" using inv unfolding pace_inv_def map_append distinct_append by blast
  then show ?thesis unfolding jwf_def eq .
qed

lemma pace_inv_new: "pace_inv (new_pacer n)"
  by (simp add: pace_inv_def new_pacer_def)

lemma record_wait_fields [simp]:
  "pp_queued (record_wait tm r p) = pp_queued p" "pp_reserved (record_wait tm r p) = pp_reserved p"
  "pp_next (record_wait tm r p) = pp_next p" "pp_max_waiters (record_wait tm r p) = pp_max_waiters p"
  "pp_out (record_wait tm r p) = pp_out p" "pp_closed (record_wait tm r p) = pp_closed p"
  by (simp_all add: record_wait_def Let_def)

lemma count_reason_fields [simp]:
  "pp_queued (count_reason r p) = pp_queued p" "pp_reserved (count_reason r p) = pp_reserved p"
  "pp_next (count_reason r p) = pp_next p" "pp_max_waiters (count_reason r p) = pp_max_waiters p"
  "pp_out (count_reason r p) = pp_out p" "pp_closed (count_reason r p) = pp_closed p"
  by (simp_all add: count_reason_def split: pace_reason.split)

lemma pace_emit_fields [simp]:
  "pp_queued (pace_emit es p) = pp_queued p" "pp_reserved (pace_emit es p) = pp_reserved p"
  "pp_next (pace_emit es p) = pp_next p" "pp_max_waiters (pace_emit es p) = pp_max_waiters p"
  "pp_out (pace_emit es p) = pp_out p @ es" "pp_closed (pace_emit es p) = pp_closed p"
  by (simp_all add: pace_emit_def)

lemma remove_row_fields [simp]:
  "pp_reserved (remove_row tm r x p) = pp_reserved p" "pp_next (remove_row tm r x p) = pp_next p"
  "pp_max_waiters (remove_row tm r x p) = pp_max_waiters p" "pp_closed (remove_row tm r x p) = pp_closed p"
  by (simp_all add: remove_row_def split: option.split)

lemma remove_row_queued: "pp_queued (remove_row tm r x p) = pp_queued p \<or> pp_queued (remove_row tm r x p) = jdel (pr_link r) (pp_queued p)"
  by (simp add: remove_row_def split: option.split)

lemma remove_row_out: "\<exists>es. pp_out (remove_row tm r x p) = pp_out p @ es \<and> (\<forall>e \<in> set es. e = Told x \<or> e = Nothing r)"
  by (simp add: remove_row_def split: option.split)

lemma mset_filter_sub: "mset (map f (filter P xs) @ ys) \<subseteq># mset (map f xs @ ys)"
  by (simp add: image_mset_subseteq_mono)

lemma pace_inv_same:
  "pace_inv p \<Longrightarrow> pp_queued q = pp_queued p \<Longrightarrow> pp_reserved q = pp_reserved p \<Longrightarrow> pp_next q = pp_next p
    \<Longrightarrow> pp_max_waiters q = pp_max_waiters p \<Longrightarrow> list_all granted_in_time (pp_out q) \<Longrightarrow> pace_inv q"
  by (rule pace_inv_sub [of p]) (simp_all, simp add: pace_inv_def)

lemma remove_row_inv:
  assumes "pace_inv p"
  shows "pace_inv (remove_row tm r x p)"
proof -
  obtain es where es: "pp_out (remove_row tm r x p) = pp_out p @ es" "\<forall>e \<in> set es. e = Told x \<or> e = Nothing r"
    using remove_row_out by blast
  have out: "list_all granted_in_time (pp_out (remove_row tm r x p))"
    using assms es(2) unfolding es(1) by (auto simp: pace_inv_def list_all_iff granted_in_time_def split: pace_event.split)
  show ?thesis
  proof (cases "pp_queued (remove_row tm r x p) = pp_queued p")
    case False
    then have 2: "pp_queued (remove_row tm r x p) = jdel (pr_link r) (pp_queued p)" using remove_row_queued by blast
    have len: "length (pp_queued p) \<le> pp_max_waiters p" using assms by (simp add: pace_inv_def)
    show ?thesis
    proof (rule pace_inv_sub [OF assms])
      show "mset (pace_rows (remove_row tm r x p)) \<subseteq># mset (pace_rows p)"
        unfolding 2 remove_row_fields jdel_def by (rule mset_filter_sub)
      show "set (pp_queued (remove_row tm r x p)) \<subseteq> set (pp_queued p)" unfolding 2 jdel_def by auto
      show "length (pp_queued (remove_row tm r x p)) \<le> pp_max_waiters (remove_row tm r x p)"
        using le_trans [OF length_jdel_le len] unfolding 2 by simp
    qed (use out in simp_all)
  next
    case True
    show ?thesis by (rule pace_inv_same [OF assms True]) (use out in simp_all)
  qed
qed

lemma finish_inv:
  assumes "pace_inv p"
  shows "pace_inv (fst (pace_finish rc i sent (p, b)))"
proof (cases "find (\<lambda>r. pr_id r = i) (pp_reserved p)")
  case (Some row)
  have "pace_inv (pace_emit [Returned row sent] (p\<lparr>pp_reserved := filter (\<lambda>r. pr_id r \<noteq> i) (pp_reserved p)\<rparr>))"
    using assms by (intro pace_inv_sub [OF assms]) (simp_all add: pace_inv_def granted_in_time_def)
  then show ?thesis using Some by (simp add: pace_finish_def)
qed (use assms in \<open>simp add: pace_finish_def\<close>)

text \<open>A row of the queue is granted: it moves from the queue to the reservations.\<close>

definition grant_step :: "millis \<Rightarrow> prow \<Rightarrow> pacer \<Rightarrow> pacer" where
  "grant_step tm row p =
     (let p1 = record_wait tm row (p\<lparr>pp_queued := jdel (pr_link row) (pp_queued p)\<rparr>)
      in pace_emit [Granted row tm] (p1\<lparr>pp_reserved := pp_reserved p1 @ [row], pp_granted := Suc (pp_granted p1)\<rparr>))"

lemma grant_step_fields [simp]:
  "pp_queued (grant_step tm row p) = jdel (pr_link row) (pp_queued p)" "pp_reserved (grant_step tm row p) = pp_reserved p @ [row]"
  "pp_next (grant_step tm row p) = pp_next p" "pp_max_waiters (grant_step tm row p) = pp_max_waiters p"
  "pp_out (grant_step tm row p) = pp_out p @ [Granted row tm]" "pp_closed (grant_step tm row p) = pp_closed p"
  by (simp_all add: grant_step_def Let_def)

lemma jdel_split:
  assumes "jwf m" and "(k, v) \<in> set m"
  obtains xs ys where "m = xs @ (k, v) # ys" and "jdel k m = xs @ ys"
proof -
  obtain xs ys where m: "m = xs @ (k, v) # ys" using assms(2) by (meson split_list)
  have "k \<notin> fst ` set xs" "k \<notin> fst ` set ys" using assms(1) unfolding m jwf_def by auto
  then have "filter (\<lambda>e. fst e \<noteq> k) xs = xs" "filter (\<lambda>e. fst e \<noteq> k) ys = ys" by (auto simp: filter_id_conv image_iff)
  then show ?thesis using that [OF m] by (simp add: m jdel_def)
qed

lemma grant_step_inv:
  assumes "pace_inv p" and "(pr_link row, row) \<in> set (pp_queued p)" and "tm < pr_deadline row"
  shows "pace_inv (grant_step tm row p)"
proof -
  obtain xs ys where q: "pp_queued p = xs @ (pr_link row, row) # ys" "jdel (pr_link row) (pp_queued p) = xs @ ys"
    using jdel_split [OF pace_inv_jwf [OF assms(1)] assms(2)] .
  have "pr_deadline row = pr_queued_at row + 250" using assms(1) q(1) by (simp add: pace_inv_def)
  then show ?thesis
    using assms(1,3) by (intro pace_inv_sub [OF assms(1)]) (auto simp: q(1) q(2) [unfolded q(1)] pace_inv_def granted_in_time_def)
qed

subsection \<open>The interface of the bucket\<close>

definition sent_bytes :: "pacer \<Rightarrow> nat" where
  "sent_bytes p = (\<Sum>e \<leftarrow> pp_out p. case e of Returned row True \<Rightarrow> ge_charge (pr_geometry row) | _ \<Rightarrow> 0)"

definition granted_bytes :: "pacer \<Rightarrow> nat" where
  "granted_bytes p = reserved_bytes p + sent_bytes p"

text \<open>
  \<open>level tm b\<close> is what the bucket could grant at \<open>tm\<close>.  It grows by at most \<open>rate\<close> a millisecond, a
  grant takes exactly its charge out of it, and giving back adds at most what was given.
\<close>

locale rate_bucket =
  fixes rc :: "'b rate_calls" and level :: "millis \<Rightarrow> 'b \<Rightarrow> rat" and rate :: rat and ok :: "'b \<Rightarrow> bool"
  assumes rate_nonneg: "0 \<le> rate"
    and level_nonneg: "ok b \<Longrightarrow> 0 \<le> level tm b"
    and level_grows: "ok b \<Longrightarrow> tm \<le> tm' \<Longrightarrow> level tm' b \<le> level tm b + rate * (tm' - tm)"
    and take_ok: "ok b \<Longrightarrow> rc_take rc c tm b = (granted, b') \<Longrightarrow> ok b' \<and> level tm b' \<le> level tm b - (if granted then of_nat c else 0)"
    and give_ok: "ok b \<Longrightarrow> ok (rc_give rc c b) \<and> level tm (rc_give rc c b) \<le> level tm b + of_nat c"
    and delay_ok: "ok b \<Longrightarrow> rc_delay rc c tm b = (d, b') \<Longrightarrow> ok b' \<and> level tm b' \<le> level tm b"
begin

text \<open>What was granted and what could be granted.\<close>

definition budget :: "millis \<Rightarrow> pacer \<times> 'b \<Rightarrow> rat" where
  "budget tm s = of_nat (granted_bytes (fst s)) + level tm (snd s)"

definition good :: "pacer \<times> 'b \<Rightarrow> bool" where
  "good s \<longleftrightarrow> pace_inv (fst s) \<and> ok (snd s)"

text \<open>A call at \<open>tm\<close> that keeps the invariants and spends no more than there was.\<close>

definition frugal :: "millis \<Rightarrow> pacer \<times> 'b \<Rightarrow> pacer \<times> 'b \<Rightarrow> bool" where
  "frugal tm s t \<longleftrightarrow> (good s \<longrightarrow> good t \<and> budget tm t \<le> budget tm s)"

lemma frugal_refl: "frugal tm s s" by (simp add: frugal_def)

lemma frugal_trans: "frugal tm s t \<Longrightarrow> frugal tm t u \<Longrightarrow> frugal tm s u"
  unfolding frugal_def by (meson order_trans)

lemma frugal_quiet:
  assumes "\<And>p. pace_inv p \<Longrightarrow> pace_inv (f p)" and "\<And>p. granted_bytes (f p) = granted_bytes p"
  shows "frugal tm (p, b) (f p, b)"
  using assms by (simp add: frugal_def good_def budget_def)

end

lemma remove_row_granted: "granted_bytes (remove_row tm r x p) = granted_bytes p"
  by (simp add: granted_bytes_def reserved_bytes_def remove_row_def sent_bytes_def split: option.split)

lemma sum_list_filter_id:
  assumes "distinct (map pr_id rs)" and "find (\<lambda>r. pr_id r = i) rs = Some row"
  shows "(\<Sum>r \<leftarrow> filter (\<lambda>r. pr_id r \<noteq> i) rs. (f r :: nat)) + f row = (\<Sum>r \<leftarrow> rs. f r)"
  using assms
proof (induction rs)
  case (Cons r rs)
  show ?case
  proof (cases "pr_id r = i")
    case True
    then have "i \<notin> pr_id ` set rs" using Cons.prems(1) by auto
    then have "filter (\<lambda>r. pr_id r \<noteq> i) rs = rs" by (auto simp: filter_id_conv)
    then show ?thesis using True Cons.prems(2) by simp
  qed (use Cons in simp)
qed simp

lemma grant_step_bytes: "granted_bytes (grant_step tm row p) = granted_bytes p + ge_charge (pr_geometry row)"
proof -
  have "sent_bytes (grant_step tm row p) = sent_bytes p" by (simp add: sent_bytes_def)
  then show ?thesis by (simp add: granted_bytes_def reserved_bytes_def)
qed

lemma finish_bytes:
  assumes "pace_inv p" and "find (\<lambda>r. pr_id r = i) (pp_reserved p) = Some row"
  shows "granted_bytes (fst (pace_finish rc i sent (p, b))) + (if sent then 0 else ge_charge (pr_geometry row)) = granted_bytes p"
proof -
  have "distinct (map pr_id (pp_reserved p))" using assms(1) by (simp add: pace_inv_def)
  from sum_list_filter_id [OF this assms(2), of "\<lambda>r. ge_charge (pr_geometry r)"] show ?thesis
    using assms(2) by (cases sent) (simp_all add: pace_finish_def granted_bytes_def reserved_bytes_def sent_bytes_def)
qed

lemma waiting_row_inv:
  assumes "pace_inv p" and "(pr_link row, row) \<in> set (pp_queued p)"
  shows "pace_inv (p\<lparr>pp_queued := jset (pr_link row) (row\<lparr>pr_waiting := True\<rparr>) (pp_queued p), pp_timer := tmo\<rparr>)"
proof -
  obtain xs ys where q: "pp_queued p = xs @ (pr_link row, row) # ys" using assms(2) by (meson split_list)
  have "pr_link row \<notin> fst ` set xs" using pace_inv_jwf [OF assms(1)] unfolding q jwf_def by auto
  then have j: "jset (pr_link row) v (xs @ (pr_link row, row) # ys) = xs @ (pr_link row, v) # ys" for v
    by (induction xs) auto
  let ?q = "p\<lparr>pp_queued := jset (pr_link row) (row\<lparr>pr_waiting := True\<rparr>) (pp_queued p), pp_timer := tmo\<rparr>"
  have same: "map pr_id (pace_rows ?q) = map pr_id (pace_rows p)" "map pr_link (pace_rows ?q) = map pr_link (pace_rows p)"
    "length (pp_queued ?q) = length (pp_queued p)"
    by (simp_all add: q j)
  have rows: "\<forall>r \<in> set (pace_rows p). pr_id r < pp_next p \<and> pr_deadline r = pr_queued_at r + 250"
    "\<forall>e \<in> set (pp_queued p). pr_link (snd e) = fst e"
    using assms(1) unfolding pace_inv_def by blast+
  have "\<forall>r \<in> set (pace_rows ?q). pr_id r < pp_next ?q \<and> pr_deadline r = pr_queued_at r + 250"
    "\<forall>e \<in> set (pp_queued ?q). pr_link (snd e) = fst e"
    using rows by (auto simp: q j)
  moreover have "distinct (map pr_id (pace_rows p))" "distinct (map pr_link (pace_rows p))"
    using assms(1) unfolding pace_inv_def by blast+
  moreover have "length (pp_queued p) \<le> pp_max_waiters ?q" "list_all granted_in_time (pp_out ?q)"
    using assms(1) by (simp_all add: pace_inv_def)
  ultimately show ?thesis unfolding pace_inv_def same by blast
qed

lemma pump_loop_grant:
  "\<not> (tm \<ge> pr_deadline row \<or> \<not> valid row) \<Longrightarrow> rc_take rc (ge_charge (pr_geometry row)) tm b = (True, b1)
    \<Longrightarrow> pump_loop rc valid tm (row # rows) (p, b) = pump_loop rc valid tm rows (grant_step tm row p, b1)"
  by (simp add: grant_step_def Let_def)

context rate_bucket
begin

lemma frugal_remove: "frugal tm (p, b) (remove_row tm' r x p, b)"
  by (rule frugal_quiet) (simp_all add: remove_row_inv remove_row_granted)

lemma frugal_finish: "frugal tm (p, b) (pace_finish rc i sent (p, b))"
proof (cases "find (\<lambda>r. pr_id r = i) (pp_reserved p)")
  case None
  then show ?thesis by (simp add: pace_finish_def frugal_refl)
next
  case (Some row)
  have snd: "snd (pace_finish rc i sent (p, b)) = (if sent then b else rc_give rc (ge_charge (pr_geometry row)) b)"
    using Some by (simp add: pace_finish_def)
  show ?thesis
    unfolding frugal_def
  proof
    assume good: "good (p, b)"
    then have inv: "pace_inv p" "ok b" by (simp_all add: good_def)
    have "granted_bytes (fst (pace_finish rc i sent (p, b))) + (if sent then 0 else ge_charge (pr_geometry row)) = granted_bytes p"
      by (rule finish_bytes [OF inv(1) Some])
    then have bytes: "of_nat (granted_bytes p) = (of_nat (granted_bytes (fst (pace_finish rc i sent (p, b)))) :: rat)
        + (if sent then 0 else of_nat (ge_charge (pr_geometry row)))"
      by (cases sent) (simp_all flip: of_nat_add)
    show "good (pace_finish rc i sent (p, b)) \<and> budget tm (pace_finish rc i sent (p, b)) \<le> budget tm (p, b)"
      using inv finish_inv [OF inv(1)] give_ok [OF inv(2), of "ge_charge (pr_geometry row)" tm] bytes
      by (auto simp: good_def budget_def snd)
  qed
qed

lemma pump_loop_good:
  assumes "good (p, b)" and "\<forall>row \<in> set rows. (pr_link row, row) \<in> set (pp_queued p)" and "distinct (map pr_link rows)"
  shows "good (pump_loop rc valid tm rows (p, b)) \<and> budget tm (pump_loop rc valid tm rows (p, b)) \<le> budget tm (p, b)"
  using assms
proof (induction rows arbitrary: p b)
  case Nil
  then show ?case by simp
next
  case (Cons row rows)
  let ?c = "ge_charge (pr_geometry row)"
  have keep: "\<forall>r \<in> set rows. (pr_link r, r) \<in> set (pp_queued q)"
    if "pp_queued q = jdel (pr_link row) (pp_queued p) \<or> pp_queued q = pp_queued p" for q
  proof -
    have "pr_link r \<noteq> pr_link row" if "r \<in> set rows" for r
      using Cons.prems(3) imageI [OF that, of pr_link] by auto
    then show ?thesis using Cons.prems(2) that by (auto simp: jdel_def)
  qed
  have dist: "distinct (map pr_link rows)" using Cons.prems(3) by simp
  have inv: "pace_inv p" "ok b" using Cons.prems(1) by (simp_all add: good_def)
  have removed: "good (pump_loop rc valid tm rows (remove_row tm row x p, b))
      \<and> budget tm (pump_loop rc valid tm rows (remove_row tm row x p, b)) \<le> budget tm (p, b)" for x
  proof -
    have "good (remove_row tm row x p, b)" using inv by (simp add: good_def remove_row_inv)
    from Cons.IH [OF this keep dist] show ?thesis
      using remove_row_queued [of tm row x p] by (simp add: budget_def remove_row_granted disj_commute)
  qed
  obtain granted b1 where t: "rc_take rc ?c tm b = (granted, b1)" by fastforce
  note tk = take_ok [OF inv(2) t]
  show ?case
  proof (cases "tm \<ge> pr_deadline row \<or> \<not> valid row")
    case True
    then show ?thesis using removed by auto
  next
    case False
    show ?thesis
    proof (cases granted)
      case True
      have "(pr_link row, row) \<in> set (pp_queued p)" using Cons.prems(2) by simp
      then have "good (grant_step tm row p, b1)" using grant_step_inv [OF inv(1)] False tk by (simp add: good_def)
      from Cons.IH [OF this keep dist] show ?thesis
        using tk True pump_loop_grant [of row tm valid rc b b1 rows p] False t by (simp add: budget_def grant_step_bytes)
    next
      case no: False
      obtain d b2 where d: "rc_delay rc ?c tm b1 = (d, b2)" by fastforce
      have dl: "ok b2" "level tm b2 \<le> level tm b1" using delay_ok [OF _ d] tk by auto
      let ?q = "p\<lparr>pp_queued := jset (pr_link row) (row\<lparr>pr_waiting := True\<rparr>) (pp_queued p), pp_timer := Some (max 1 (of_int \<lceil>min (pr_deadline row - tm) d\<rceil>))\<rparr>"
      have "pace_inv ?q" using inv(1) Cons.prems(2) by (intro waiting_row_inv) simp_all
      moreover have "granted_bytes ?q = granted_bytes p" by (simp add: granted_bytes_def reserved_bytes_def sent_bytes_def)
      ultimately show ?thesis using False no t d dl tk by (simp add: good_def budget_def)
    qed
  qed
qed

lemma frugal_pump: "frugal tm (p, b) (pump rc valid tm (p, b))"
proof -
  have q: "frugal tm (p, b) (p\<lparr>pp_timer := None\<rparr>, b)"
  proof (rule frugal_quiet)
    show "pace_inv (p\<lparr>pp_timer := None\<rparr>)" if inv: "pace_inv p" for p
      by (rule pace_inv_same [OF inv]) (simp_all, use inv in \<open>simp add: pace_inv_def\<close>)
  qed (simp add: granted_bytes_def reserved_bytes_def sent_bytes_def)
  have "frugal tm (p\<lparr>pp_timer := None\<rparr>, b) (pump_loop rc valid tm (map snd (pp_queued p)) (p\<lparr>pp_timer := None\<rparr>, b))"
    unfolding frugal_def
  proof
    assume good: "good (p\<lparr>pp_timer := None\<rparr>, b)"
    then have inv: "pace_inv (p\<lparr>pp_timer := None\<rparr>)" by (simp add: good_def)
    show "good (pump_loop rc valid tm (map snd (pp_queued p)) (p\<lparr>pp_timer := None\<rparr>, b))
      \<and> budget tm (pump_loop rc valid tm (map snd (pp_queued p)) (p\<lparr>pp_timer := None\<rparr>, b)) \<le> budget tm (p\<lparr>pp_timer := None\<rparr>, b)"
    proof (rule pump_loop_good [OF good])
      show "\<forall>row \<in> set (map snd (pp_queued p)). (pr_link row, row) \<in> set (pp_queued (p\<lparr>pp_timer := None\<rparr>))"
        using inv by (force simp: pace_inv_def)
      show "distinct (map pr_link (map snd (pp_queued p)))" using inv by (simp add: pace_inv_def)
    qed
  qed
  then show ?thesis using q frugal_trans by (auto simp: pump_def)
qed

end

lemma aborted_inv:
  assumes "pace_inv p"
  shows "pace_inv (pace_emit [Aborted row] (p\<lparr>pp_cancelled := n\<rparr>))" "granted_bytes (pace_emit [Aborted row] (p\<lparr>pp_cancelled := n\<rparr>)) = granted_bytes p"
proof -
  have "list_all granted_in_time (pp_out p)" using assms by (simp add: pace_inv_def)
  then show "pace_inv (pace_emit [Aborted row] (p\<lparr>pp_cancelled := n\<rparr>))"
    by (intro pace_inv_same [OF assms]) (simp_all add: granted_in_time_def)
  show "granted_bytes (pace_emit [Aborted row] (p\<lparr>pp_cancelled := n\<rparr>)) = granted_bytes p"
    by (simp add: granted_bytes_def reserved_bytes_def sent_bytes_def)
qed

lemma refuse_now_inv:
  assumes "pace_inv p"
  shows "pace_inv (refuse_now l p)" "granted_bytes (refuse_now l p) = granted_bytes p"
proof -
  have "list_all granted_in_time (pp_out p)" using assms by (simp add: pace_inv_def)
  then show "pace_inv (refuse_now l p)"
    by (intro pace_inv_same [OF assms]) (simp_all add: granted_in_time_def refuse_now_def)
  show "granted_bytes (refuse_now l p) = granted_bytes p"
    by (simp add: granted_bytes_def reserved_bytes_def sent_bytes_def refuse_now_def)
qed

lemma jset_new: "\<not> jhas m k \<Longrightarrow> jset k v m = m @ [(k, v)]"
  unfolding jhas_iff by (induction k v m rule: jset.induct) auto

text \<open>A new row joins the queue.\<close>

lemma enqueue_inv:
  assumes "pace_inv p" and "\<not> jhas (pp_queued p) link" and "\<not> list_ex (\<lambda>r. pr_link r = link) (pp_reserved p)"
    and "length (pp_queued p) < pp_max_waiters p"
    and "pr_id row = pp_next p" "pr_link row = link" "pr_deadline row = pr_queued_at row + 250"
  shows "pace_inv (p\<lparr>pp_queued := jset link row (pp_queued p), pp_next := Suc (pp_next p)\<rparr>)"
proof -
  let ?q = "p\<lparr>pp_queued := jset link row (pp_queued p), pp_next := Suc (pp_next p)\<rparr>"
  have q: "pp_queued ?q = pp_queued p @ [(link, row)]" using jset_new [OF assms(2)] by simp
  have links: "\<forall>e \<in> set (pp_queued p). pr_link (snd e) = fst e"
    and rows: "\<forall>r \<in> set (pace_rows p). pr_id r < pp_next p \<and> pr_deadline r = pr_queued_at r + 250"
    and dist: "distinct (map pr_id (pace_rows p))" "distinct (map pr_link (pace_rows p))"
    using assms(1) unfolding pace_inv_def by blast+
  have mset: "mset (pace_rows ?q) = mset (row # pace_rows p)" by (simp add: q)
  then have set: "set (pace_rows ?q) = insert row (set (pace_rows p))" by (metis list.simps(15) set_mset_mset)
  have "pr_id row \<notin> set (map pr_id (pace_rows p))"
    using rows assms(5) unfolding set_map by (metis imageE less_irrefl)
  moreover have "pr_link row \<notin> set (map pr_link (pace_rows p))"
    using links assms(2,3,6) by (force simp: jhas_iff list_ex_iff)
  ultimately have "distinct (map pr_id (row # pace_rows p))" "distinct (map pr_link (row # pace_rows p))" using dist by simp_all
  then have "distinct (map pr_id (pace_rows ?q))" "distinct (map pr_link (pace_rows ?q))"
    using distinct_sub [OF eq_refl_mset [OF mset]] by blast+
  moreover have "\<forall>r \<in> set (pace_rows ?q). pr_id r < pp_next ?q \<and> pr_deadline r = pr_queued_at r + 250"
    unfolding set using rows assms(5,7) by fastforce
  moreover have "\<forall>e \<in> set (pp_queued ?q). pr_link (snd e) = fst e" unfolding q using links assms(6) by simp
  moreover have "length (pp_queued ?q) \<le> pp_max_waiters ?q" unfolding q using assms(4) by simp
  moreover have "list_all granted_in_time (pp_out ?q)" using assms(1) by (simp add: pace_inv_def)
  ultimately show ?thesis unfolding pace_inv_def by blast
qed

context rate_bucket
begin

lemma frugal_fold: "(\<And>x s. frugal tm s (f x s)) \<Longrightarrow> frugal tm s (fold f xs s)"
proof (induction xs arbitrary: s)
  case Nil
  then show ?case by (simp add: frugal_refl)
next
  case (Cons x xs)
  show ?case unfolding fold.simps o_apply by (rule frugal_trans [OF Cons.prems Cons.IH [OF Cons.prems]])
qed

lemma frugal_cancel: "frugal tm (p, b) (pace_cancel rc valid tm link (p, b))"
proof -
  define p1 where "p1 = fold (\<lambda>row. remove_row tm row Cancelled) (filter (cancel_match link) (map snd (pp_queued p))) p"
  have "frugal tm (p, b) (fold (\<lambda>row. remove_row tm row Cancelled) rows p, b)" for rows
    by (induction rows arbitrary: p) (auto intro: frugal_refl frugal_trans [OF frugal_remove])
  then have one: "frugal tm (p, b) (p1, b)" unfolding p1_def .
  define s2 where "s2 = fold (\<lambda>row (q, c). pace_finish rc (pr_id row) False
                (pace_emit [Aborted row] (q\<lparr>pp_cancelled := Suc (pp_cancelled q)\<rparr>), c))
             (filter (cancel_match link) (pp_reserved p1)) (p1, b)"
  have abort: "frugal tm (q, c) (pace_finish rc (pr_id row) False (pace_emit [Aborted row] (q\<lparr>pp_cancelled := Suc (pp_cancelled q)\<rparr>), c))" for q c row
    by (rule frugal_trans [OF frugal_quiet [of "\<lambda>q. pace_emit [Aborted row] (q\<lparr>pp_cancelled := Suc (pp_cancelled q)\<rparr>)"] frugal_finish])
      (simp_all add: aborted_inv(1), simp add: granted_bytes_def reserved_bytes_def sent_bytes_def)
  have "frugal tm s (fold (\<lambda>row (q, c). pace_finish rc (pr_id row) False
                (pace_emit [Aborted row] (q\<lparr>pp_cancelled := Suc (pp_cancelled q)\<rparr>), c)) rows s)" for rows s
    by (rule frugal_fold) (use abort in auto)
  then have two: "frugal tm (p1, b) s2" unfolding s2_def .
  have eq: "pace_cancel rc valid tm link (p, b) = pump rc valid tm s2"
    by (simp add: pace_cancel_def Let_def p1_def s2_def)
  show ?thesis unfolding eq
    using frugal_trans [OF frugal_trans [OF one two], of "pump rc valid tm s2"] frugal_pump [of tm "fst s2" "snd s2" valid] by simp
qed

lemma frugal_acquire: "frugal tm (p, b) (pace_acquire rc valid tm link g (p, b))"
proof -
  have refuse: "frugal tm (p, b) (refuse_now link p, b)"
    by (rule frugal_quiet [of "refuse_now link"])
      (simp_all add: refuse_now_inv(1), simp add: granted_bytes_def reserved_bytes_def sent_bytes_def refuse_now_def)
  define busy where "busy \<longleftrightarrow> pp_closed p \<or> jhas (pp_queued p) link \<or> list_ex (\<lambda>r. pr_link r = link) (pp_reserved p)
         \<or> length (pp_queued p) \<ge> pp_max_waiters p"
  define bb where "bb = (if ge_range g \<noteq> None then (False, b) else if pp_queued p \<noteq> [] then (True, b)
               else (let (d, b1) = rc_delay rc (ge_charge g) tm b in (d > 0, b1)))"
  obtain blocked b1 where b1: "bb = (blocked, b1)" by fastforce
  define row where "row = \<lparr>pr_id = pp_next p, pr_link = link, pr_geometry = g, pr_queued_at = tm, pr_deadline = tm + 250,
                   pr_waiting = (pp_queued p \<noteq> [])\<rparr>"
  define q where "q = p\<lparr>pp_queued := jset link row (pp_queued p), pp_next := Suc (pp_next p)\<rparr>"
  have eq: "pace_acquire rc valid tm link g (p, b) = (if busy then (refuse_now link p, b) else if blocked then (refuse_now link p, b1)
      else pump rc valid tm (q, b1))"
    unfolding pace_acquire_def Let_def prod.case busy_def [symmetric] bb_def [unfolded Let_def, symmetric] b1 q_def row_def by simp
  have lvl: "ok b \<Longrightarrow> ok b1 \<and> level tm b1 \<le> level tm b"
    using b1 delay_ok [of b "ge_charge g" tm] unfolding bb_def by (auto split: if_splits prod.splits)
  have blocked: "frugal tm (p, b) (refuse_now link p, b1)"
    using lvl by (auto simp: frugal_def good_def budget_def refuse_now_inv)
  have "frugal tm (p, b) (q, b1)" if "\<not> busy"
  proof -
    have "pace_inv p \<Longrightarrow> pace_inv q" unfolding q_def using that by (intro enqueue_inv) (simp_all add: busy_def row_def)
    moreover have "granted_bytes q = granted_bytes p" by (simp add: q_def granted_bytes_def reserved_bytes_def sent_bytes_def)
    ultimately show ?thesis using lvl by (auto simp: frugal_def good_def budget_def)
  qed
  then show ?thesis unfolding eq using refuse blocked frugal_trans [OF _ frugal_pump] by simp
qed

lemma frugal_stop: "frugal tm (p, b) (pace_stop rc valid tm (p, b))"
proof -
  have inv: "pace_inv (p\<lparr>pp_closed := True\<rparr>) = pace_inv p" "pace_inv (p\<lparr>pp_timer := x\<rparr>) = pace_inv p" for p x
    by (simp_all add: pace_inv_def)
  have bytes: "granted_bytes (p\<lparr>pp_closed := True\<rparr>) = granted_bytes p" "granted_bytes (p\<lparr>pp_timer := x\<rparr>) = granted_bytes p" for p x
    by (simp_all add: granted_bytes_def reserved_bytes_def sent_bytes_def)
  have closed: "frugal tm (p, b) (p\<lparr>pp_closed := True\<rparr>, b)" and timer: "frugal tm (q, c) (q\<lparr>pp_timer := None\<rparr>, c)" for q c
    by (simp_all add: frugal_def good_def budget_def inv bytes)
  obtain q c where s: "pace_cancel rc valid tm None (p\<lparr>pp_closed := True\<rparr>, b) = (q, c)" by fastforce
  show ?thesis
    using frugal_trans [OF frugal_trans [OF closed frugal_cancel [of tm "p\<lparr>pp_closed := True\<rparr>" b valid None, unfolded s]] timer]
    by (simp add: pace_stop_def s)
qed

lemma frugal_apply: "frugal (fst e) s (pace_apply rc e s)"
proof -
  obtain p b where s: "s = (p, b)" by fastforce
  obtain tm valid call where e: "e = (tm, valid, call)" by (cases e)
  show ?thesis
    unfolding s e by (cases call) (simp_all add: frugal_acquire frugal_finish frugal_cancel frugal_pump frugal_stop)
qed

text \<open>Over a run in time order, what was granted is within the first level and the rate.\<close>

lemma run_within_rate:
  assumes "good s" and "sorted (t0 # map fst calls)" and "\<forall>e \<in> set calls. fst e \<le> t" and "t0 \<le> t"
  shows "good (fold (pace_apply rc) calls s) \<and> budget t (fold (pace_apply rc) calls s) \<le> budget t0 s + rate * (t - t0)"
  using assms
proof (induction calls arbitrary: s t0)
  case Nil
  then show ?case using level_grows [of "snd s" t0 t] by (simp add: budget_def good_def)
next
  case (Cons e calls)
  have step: "good (pace_apply rc e s)" "budget (fst e) (pace_apply rc e s) \<le> budget (fst e) s"
    using frugal_apply [of e s] Cons.prems(1) by (simp_all add: frugal_def)
  have "budget (fst e) s \<le> budget t0 s + rate * (fst e - t0)"
    using level_grows [of "snd s" t0 "fst e"] Cons.prems(1,2) by (simp add: budget_def good_def)
  moreover have "good (fold (pace_apply rc) calls (pace_apply rc e s))
      \<and> budget t (fold (pace_apply rc) calls (pace_apply rc e s)) \<le> budget (fst e) (pace_apply rc e s) + rate * (t - fst e)"
    using Cons.prems(2,3) by (intro Cons.IH [OF step(1)]) simp_all
  ultimately show ?case using step(2) by (simp add: algebra_simps)
qed

end

subsection \<open>The swarm's bucket\<close>

definition bucket_level :: "millis \<Rightarrow> bucket \<Rightarrow> rat" where
  "bucket_level tm b = bk_tokens (refill tm b)"

definition bucket_ok :: "nat \<Rightarrow> bucket \<Rightarrow> bool" where
  "bucket_ok r b \<longleftrightarrow> bk_rate b = of_nat r \<and> 0 \<le> bk_tokens b \<and> bk_tokens b \<le> 2 * of_nat r"

lemma refill_ok: "bucket_ok r b \<Longrightarrow> bucket_ok r (refill tm b)"
  by (simp add: bucket_ok_def refill_def)

lemma refill_twice: "bucket_ok r b \<Longrightarrow> bk_tokens (refill tm (refill tm b)) = bk_tokens (refill tm b)"
  by (simp add: bucket_ok_def refill_def)

lemma take_bucket:
  assumes "bucket_ok r b" and "take_tokens c tm b = (granted, b')"
  shows "bucket_ok r b' \<and> bucket_level tm b' \<le> bucket_level tm b - (if granted then of_nat c else 0)"
proof -
  let ?b1 = "refill tm b"
  have b1: "bucket_ok r ?b1" using refill_ok [OF assms(1)] .
  show ?thesis
  proof (cases "bk_tokens ?b1 < of_nat c")
    case True
    then have "b' = ?b1" "\<not> granted" using assms(2) by (simp_all add: take_tokens_def Let_def)
    then show ?thesis using b1 refill_twice [OF assms(1)] by (simp add: bucket_level_def)
  next
    case False
    then have b': "b' = ?b1\<lparr>bk_tokens := bk_tokens ?b1 - of_nat c\<rparr>" "granted"
      using assms(2) by (simp_all add: take_tokens_def Let_def)
    moreover have "bk_refilled ?b1 = tm" by (simp add: refill_def)
    then have "refill tm (?b1\<lparr>bk_tokens := x\<rparr>) = ?b1\<lparr>bk_tokens := min (bk_rate ?b1 * 2) x\<rparr>" for x
      by (simp add: refill_def)
    moreover have "0 \<le> bk_tokens ?b1" "bk_tokens ?b1 \<le> 2 * of_nat r" "bk_rate ?b1 = of_nat r" using b1 by (simp_all add: bucket_ok_def)
    ultimately show ?thesis using False by (simp add: bucket_ok_def bucket_level_def min_def)
  qed
qed

lemma give_bucket:
  assumes "bucket_ok r b"
  shows "bucket_ok r (give_tokens c b) \<and> bucket_level tm (give_tokens c b) \<le> bucket_level tm b + of_nat c"
proof -
  define x where "x = max 0 (tm - bk_refilled b) / 1000 * bk_rate b"
  have "0 \<le> x" using assms by (simp add: x_def bucket_ok_def)
  moreover have "bucket_level tm (b\<lparr>bk_tokens := y\<rparr>) = min (bk_rate b * 2) (y + x)" for y by (simp add: bucket_level_def refill_def x_def)
  moreover have "bucket_level tm b = min (bk_rate b * 2) (bk_tokens b + x)" by (simp add: bucket_level_def refill_def x_def)
  moreover have "(0 :: rat) \<le> of_nat c" by simp
  ultimately show ?thesis using assms unfolding give_tokens_def bucket_ok_def by (auto simp: min_def)
qed

lemma delay_bucket:
  assumes "bucket_ok r b" and "token_delay c tm b = (d, b')"
  shows "bucket_ok r b' \<and> bucket_level tm b' \<le> bucket_level tm b"
  using assms refill_ok [OF assms(1)] refill_twice [OF assms(1)] by (auto simp: token_delay_def Let_def bucket_level_def)

lemma level_bucket:
  assumes "bucket_ok r b" and "tm \<le> tm'"
  shows "bucket_level tm' b \<le> bucket_level tm b + of_nat r / 1000 * (tm' - tm)"
proof -
  let ?d = "\<lambda>tm. max 0 (tm - bk_refilled b)"
  have "?d tm' \<le> ?d tm + (tm' - tm)" using assms(2) by auto
  then have "?d tm' / 1000 * of_nat r \<le> (?d tm + (tm' - tm)) / 1000 * of_nat r"
    by (intro mult_right_mono divide_right_mono) simp_all
  then have "?d tm' / 1000 * of_nat r \<le> ?d tm / 1000 * of_nat r + of_nat r / 1000 * (tm' - tm)"
    by (simp add: algebra_simps add_divide_distrib diff_divide_distrib)
  moreover have "0 \<le> of_nat r / 1000 * (tm' - tm)" using assms(2) by simp
  ultimately show ?thesis using assms(1) by (simp add: bucket_level_def refill_def bucket_ok_def min_def)
qed

lemma nonneg_bucket: "bucket_ok r b \<Longrightarrow> 0 \<le> bucket_level tm b"
  using refill_ok [of r b tm] by (simp add: bucket_ok_def bucket_level_def)

interpretation swarm_bucket: rate_bucket bucket_calls bucket_level "of_nat r / 1000" "bucket_ok r" for r
proof
  show "0 \<le> (of_nat r :: rat) / 1000" by simp
  fix b b' :: bucket and tm tm' d :: rat and c granted
  assume ok: "bucket_ok r b"
  show "0 \<le> bucket_level tm b" by (rule nonneg_bucket [OF ok])
  show "tm \<le> tm' \<Longrightarrow> bucket_level tm' b \<le> bucket_level tm b + of_nat r / 1000 * (tm' - tm)" by (rule level_bucket [OF ok])
  show "rc_take bucket_calls c tm b = (granted, b') \<Longrightarrow> bucket_ok r b' \<and> bucket_level tm b' \<le> bucket_level tm b - (if granted then of_nat c else 0)"
    using take_bucket [OF ok] by (simp add: bucket_calls_def)
  show "bucket_ok r (rc_give bucket_calls c b) \<and> bucket_level tm (rc_give bucket_calls c b) \<le> bucket_level tm b + of_nat c"
    using give_bucket [OF ok] by (simp add: bucket_calls_def)
  show "rc_delay bucket_calls c tm b = (d, b') \<Longrightarrow> bucket_ok r b' \<and> bucket_level tm b' \<le> bucket_level tm b"
    using delay_bucket [OF ok] by (simp add: bucket_calls_def)
qed

definition paced_run :: "(millis \<times> (prow \<Rightarrow> bool) \<times> pace_call) list \<Rightarrow> pacer \<times> bucket \<Rightarrow> pacer \<times> bucket" where
  "paced_run calls s = fold (pace_apply bucket_calls) calls s"

text \<open>
  C27: pacing keeps the upload rate. Whatever links ask for, in whatever order they finish, are cancelled
  or time out, the bytes that were sent and those still reserved never exceed two seconds' worth of the
  configured rate plus that rate times the time that passed.
\<close>

theorem pacing_keeps_rate:
  assumes "bucket_ok r b" and "sorted (t0 # map fst calls)" and "\<forall>e \<in> set calls. fst e \<le> t" and "t0 \<le> t"
    and "(p, b') = paced_run calls (new_pacer waiters, b)"
  shows "of_nat (sent_bytes p + reserved_bytes p) \<le> 2 * of_nat r + of_nat r * (t - t0) / (1000 :: rat)"
proof -
  have "swarm_bucket.good r (new_pacer waiters, b)"
    using assms(1) pace_inv_new by (simp add: swarm_bucket.good_def)
  from swarm_bucket.run_within_rate [OF this assms(2-4)]
  have run: "swarm_bucket.good r (p, b')" "swarm_bucket.budget t (p, b') \<le> swarm_bucket.budget t0 (new_pacer waiters, b) + of_nat r / 1000 * (t - t0)"
    unfolding assms(5) paced_run_def by simp_all
  have "bucket_level t0 b \<le> 2 * of_nat r" using refill_ok [OF assms(1), of t0] by (simp add: bucket_ok_def bucket_level_def)
  moreover have "granted_bytes (new_pacer waiters) = 0" by (simp add: granted_bytes_def reserved_bytes_def sent_bytes_def new_pacer_def)
  moreover have "0 \<le> bucket_level t b'" using run(1) nonneg_bucket [of r] by (simp add: swarm_bucket.good_def)
  ultimately show ?thesis
    using run(2) by (simp add: swarm_bucket.budget_def granted_bytes_def algebra_simps)
qed

definition ex_bucket :: bucket where "ex_bucket = \<lparr>bk_rate = 100, bk_tokens = 100, bk_refilled = 0\<rparr>"

definition ex_geometry :: "nat \<Rightarrow> geometry" where
  "ex_geometry c = \<lparr>ge_key = ''k'', ge_size = 400, ge_charge = c, ge_range = Some (0, 1)\<rparr>"

definition ex_pace :: "(millis \<times> (prow \<Rightarrow> bool) \<times> pace_call) list" where
  "ex_pace = [(0, \<lambda>_. True, Acquire 1 (ex_geometry 90)), (10, \<lambda>_. True, Acquire 2 (ex_geometry 30)),
     (20, \<lambda>_. True, Finish 0 True), (210, \<lambda>_. True, Pump)]"

theorem pacing_keeps_rate_witness:
  "sent_bytes (fst (paced_run ex_pace (new_pacer 4, ex_bucket))) = 90
     \<and> reserved_bytes (fst (paced_run ex_pace (new_pacer 4, ex_bucket))) = 30
     \<and> (120 :: rat) \<le> 2 * 100 + 100 * (210 - 0) / 1000"
proof -
  have run: "sent_bytes (fst (paced_run ex_pace (new_pacer 4, ex_bucket))) = 90"
    "reserved_bytes (fst (paced_run ex_pace (new_pacer 4, ex_bucket))) = 30"
    by code_simp+
  have "of_nat (sent_bytes (fst (paced_run ex_pace (new_pacer 4, ex_bucket))) + reserved_bytes (fst (paced_run ex_pace (new_pacer 4, ex_bucket))))
      \<le> 2 * of_nat 100 + of_nat 100 * (210 - 0) / (1000 :: rat)"
    by (rule pacing_keeps_rate [of 100 ex_bucket 0 ex_pace 210 _ "snd (paced_run ex_pace (new_pacer 4, ex_bucket))" 4])
      (simp_all add: bucket_ok_def ex_bucket_def ex_pace_def)
  then show ?thesis using run by simp
qed







end
