(* ===== verification/Swarm_Serving.thy ===== *)
theory Swarm_Serving
  imports Swarm_Rotation Upload_Pacing Bytes
begin

text \<open>
  Holding and serving segments, \<open>src/browser/hls-swarm.mjs\<close>: the bounded cache of held segments, who
  may be served, and the immediate upload path \<open>#serveRequest\<close> up to the host's reservation.

  An upload that waits for \<open>reserveUploadBytes\<close> is an entry of \<open>sv_pending\<close>.  What links and the
  warm-ahead cache are told is appended to \<open>sv_out\<close>.
\<close>

record serving_options =
  so_max_segment :: nat
  so_max_held_bytes :: nat
  so_max_held_segments :: nat
  so_session_limit :: "nat option"
  so_max_upload_peers :: nat
  so_serve_on_cellular :: bool
  so_host_reserves :: bool

datatype serving_event =
    HaveChange "string list" "string list"
  | FlushFetch string
  | Release string
  | WarmCleared
  | Withdrawn
  | LinkClosed nat string
  | UploadRefused string
  | UploadSent nat "byte list"

record serving =
  sv_held :: "(string \<times> byte list) list"
  sv_held_bytes :: nat
  sv_quota :: nat
  sv_bucket :: bucket
  sv_stopped :: bool
  sv_disabled :: bool
  sv_serve :: bool
  sv_cellular :: bool
  sv_links :: "swarm_link list"
  sv_banned :: "string list"
  sv_warm :: "(nat \<times> string list) option"
  sv_pending :: "(nat \<times> nat \<times> nat \<times> byte list) list"
  sv_next :: nat
  sv_uploaded :: nat
  sv_served :: nat
  sv_refused :: nat
  sv_cancelled :: nat
  sv_cancelled_bytes :: nat
  sv_out :: "serving_event list"

definition serving_emit :: "serving_event list \<Rightarrow> serving \<Rightarrow> serving" where
  "serving_emit es s = s\<lparr>sv_out := sv_out s @ es\<rparr>"

subsection \<open>Permission\<close>

definition upload_remaining :: "serving_options \<Rightarrow> serving \<Rightarrow> nat option" where
  "upload_remaining opt s = map_option (\<lambda>limit. limit - sv_quota s) (so_session_limit opt)"

definition may_serve :: "serving \<Rightarrow> bool" where
  "may_serve s \<longleftrightarrow> \<not> sv_stopped s \<and> \<not> sv_disabled s \<and> sv_serve s"

definition serving_allowed :: "serving_options \<Rightarrow> serving \<Rightarrow> bool" where
  "serving_allowed opt s \<longleftrightarrow> may_serve s \<and> upload_remaining opt s \<noteq> Some 0 \<and> (so_serve_on_cellular opt \<or> \<not> sv_cellular s)"

subsection \<open>The held segments\<close>

lemma length_jdel_found: "find P m = Some e \<Longrightarrow> length (jdel (fst e) m) < length m"
  unfolding jdel_def by (rule length_filter_less [of e]) (auto simp: find_Some_iff)

text \<open>The loop of \<open>#trimHeld\<close>: the evicted keys, and what is left.\<close>

function trim_loop :: "nat \<Rightarrow> nat \<Rightarrow> (string \<Rightarrow> bool) \<Rightarrow> (string \<times> byte list) list \<Rightarrow> nat
    \<Rightarrow> string list \<times> (string \<times> byte list) list \<times> nat" where
  "trim_loop segments limit pinned held bytes =
     (if held \<noteq> [] \<and> (length held > segments \<or> bytes > limit) then
        (case find (\<lambda>e. \<not> pinned (fst e)) held of
           None \<Rightarrow> ([], held, bytes)
         | Some e \<Rightarrow> apfst (Cons (fst e)) (trim_loop segments limit pinned (jdel (fst e) held) (bytes - length (snd e))))
      else ([], held, bytes))"
  by pat_completeness auto
termination
  by (relation "measure (\<lambda>(_, _, _, held, _). length held)") (simp_all add: length_jdel_found)

declare trim_loop.simps [simp del]

definition pinned_key :: "serving \<Rightarrow> string \<Rightarrow> bool" where
  "pinned_key s k \<longleftrightarrow> (case sv_warm s of None \<Rightarrow> False | Some (_, pins) \<Rightarrow> k \<in> set pins)"

definition trim_held :: "serving_options \<Rightarrow> nat \<Rightarrow> bool \<Rightarrow> serving \<Rightarrow> string list \<times> serving" where
  "trim_held opt limit announce s =
     (case trim_loop (so_max_held_segments opt) limit (pinned_key s) (sv_held s) (sv_held_bytes s) of
        (evicted, held, bytes) \<Rightarrow>
          (evicted, serving_emit (map Release evicted @ (if announce \<and> evicted \<noteq> [] then [HaveChange [] evicted] else []))
             (s\<lparr>sv_held := held, sv_held_bytes := bytes\<rparr>)))"

definition warm_reservation :: "serving \<Rightarrow> nat" where
  "warm_reservation s = (case sv_warm s of None \<Rightarrow> 0 | Some (bytes, _) \<Rightarrow> bytes)"

definition hold :: "serving_options \<Rightarrow> string \<Rightarrow> byte list \<Rightarrow> serving \<Rightarrow> serving" where
  "hold opt key bytes s =
     (if \<not> serving_allowed opt s \<or> jhas (sv_held s) key \<or> length bytes > so_max_segment opt
      then serving_emit [FlushFetch key] s
      else (let (evicted, s1) = trim_held opt (so_max_held_bytes opt - warm_reservation s) False
                  (s\<lparr>sv_held := jset key bytes (sv_held s), sv_held_bytes := sv_held_bytes s + length bytes\<rparr>)
            in serving_emit [HaveChange (if jhas (sv_held s1) key then [key] else []) evicted, FlushFetch key] s1))"

definition drop_held :: "string \<Rightarrow> serving \<Rightarrow> serving" where
  "drop_held key s =
     (case jget (sv_held s) key of
        None \<Rightarrow> s
      | Some bytes \<Rightarrow> serving_emit [Release key, HaveChange [] [key]]
          (s\<lparr>sv_held := jdel key (sv_held s), sv_held_bytes := sv_held_bytes s - length bytes\<rparr>))"

text \<open>\<open>#withdrawContribution\<close>; \<open>Withdrawn\<close> stands for the empty HAVE and the contribution to every link.\<close>

definition withdraw :: "serving \<Rightarrow> serving" where
  "withdraw s = serving_emit [WarmCleared, Withdrawn] (s\<lparr>sv_held := [], sv_held_bytes := 0\<rparr>)"

subsection \<open>Serving\<close>

text \<open>\<open>commitmentPieceSize\<close> of \<open>src/browser/segment-commitment.mjs\<close>.\<close>

definition ceil_div :: "nat \<Rightarrow> nat \<Rightarrow> nat" where
  "ceil_div a b = (a + b - 1) div b"

definition commitment_piece_size :: "nat \<Rightarrow> nat" where
  "commitment_piece_size bsize = ceil_div (max 65536 (ceil_div bsize 64)) 16384 * 16384"

text \<open>The bytes that a request for whole pieces is charged; \<open>None\<close> is a rng outside the segment.\<close>

definition upload_charge :: "nat \<Rightarrow> (nat \<times> nat) option \<Rightarrow> nat option" where
  "upload_charge bsize rng =
     (case rng of
        None \<Rightarrow> Some bsize
      | Some (lo, hi) \<Rightarrow>
          (let piece = commitment_piece_size bsize; from = lo * piece; to = min (hi * piece) bsize
           in if from < to then Some (to - from) else None))"

definition upload_geometry :: "serving \<Rightarrow> string \<Rightarrow> (nat \<times> nat) option \<Rightarrow> geometry option" where
  "upload_geometry s key rng =
     (case jget (sv_held s) key of
        None \<Rightarrow> None
      | Some bytes \<Rightarrow>
          (let bsize = length bytes in
           if bsize < 1 then None
           else (case rng of
               None \<Rightarrow> Some \<lparr>ge_key = key, ge_size = bsize, ge_charge = bsize, ge_range = None\<rparr>
             | Some (lo, hi) \<Rightarrow>
                 (let piece = commitment_piece_size bsize in
                  if hi \<le> lo \<or> hi > ceil_div bsize piece then None
                  else Some \<lparr>ge_key = key, ge_size = bsize, ge_charge = min (hi * piece) bsize - lo * piece, ge_range = Some (lo, hi)\<rparr>))))"

definition refuse_upload :: "string \<Rightarrow> serving \<Rightarrow> serving" where
  "refuse_upload reason s = serving_emit [UploadRefused reason] (s\<lparr>sv_refused := Suc (sv_refused s)\<rparr>)"

definition recent_uploaders :: "int \<Rightarrow> swarm_link \<Rightarrow> serving \<Rightarrow> nat" where
  "recent_uploaders now link s =
     length (filter (\<lambda>c. sl_id c \<noteq> sl_id link \<and> (0 < sl_outbound c \<or> now - sl_last_served c < 30000)) (sv_links s))"

definition accept_upload :: "nat \<Rightarrow> nat \<Rightarrow> byte list \<Rightarrow> serving \<Rightarrow> serving" where
  "accept_upload link charge bytes s =
     serving_emit [UploadSent link bytes] (s\<lparr>sv_uploaded := sv_uploaded s + charge, sv_served := Suc (sv_served s)\<rparr>)"

text \<open>
  \<open>#serveRequest\<close> after its admission: \<open>admitted\<close> is false when the host refused, \<open>now\<close> is \<open>Date.now()\<close>
  and \<open>tm\<close> is \<open>performance.now()\<close>, which never goes back.
\<close>

definition serve_upload :: "serving_options \<Rightarrow> int \<Rightarrow> millis \<Rightarrow> bool \<Rightarrow> swarm_link \<Rightarrow> string \<Rightarrow> (nat \<times> nat) option
    \<Rightarrow> serving \<Rightarrow> serving" where
  "serve_upload opt now tm admitted link key rng s =
     (if \<not> admitted then serving_emit [LinkClosed (sl_id link) ''admission''] (refuse_upload ''admission'' s)
      else if sl_closed link then s
      else (case jget (sv_held s) key of
          None \<Rightarrow> refuse_upload ''not-held'' s
        | Some bytes \<Rightarrow>
            (case upload_charge (length bytes) rng of
               None \<Rightarrow> refuse_upload ''not-held'' s
             | Some charge \<Rightarrow>
                 if \<not> serving_allowed opt s then refuse_upload ''not-serving'' s
                 else if sl_pubkey link \<in> set (sv_banned s) then refuse_upload ''banned'' s
                 else if (case upload_remaining opt s of None \<Rightarrow> False | Some r \<Rightarrow> charge > r) then refuse_upload ''session-allowance'' s
                 else if now - sl_last_served link \<ge> 30000 \<and> recent_uploaders now link s \<ge> so_max_upload_peers opt
                 then refuse_upload ''peer-limit'' s
                 else (let (granted, b) = take_tokens charge tm (sv_bucket s); s1 = s\<lparr>sv_bucket := b\<rparr> in
                   if \<not> granted then refuse_upload ''rate-limit'' s1
                   else (let s2 = s1\<lparr>sv_quota := sv_quota s1 + charge\<rparr>;
                             s3 = (if upload_remaining opt s2 = Some 0 then withdraw s2 else s2)
                         in if so_host_reserves opt
                            then s3\<lparr>sv_pending := sv_pending s3 @ [(sv_next s3, sl_id link, charge, bytes)], sv_next := Suc (sv_next s3)\<rparr>
                            else accept_upload (sl_id link) charge bytes s3)))))"

text \<open>The reservation of pending upload \<open>i\<close> settled; \<open>gone\<close> says whether its link closed meanwhile.\<close>

definition serve_reserved :: "serving_options \<Rightarrow> nat \<Rightarrow> bool \<Rightarrow> bool \<Rightarrow> serving \<Rightarrow> serving" where
  "serve_reserved opt i accepted gone s =
     (case find (\<lambda>e. fst e = i) (sv_pending s) of
        None \<Rightarrow> s
      | Some (_, link, charge, bytes) \<Rightarrow>
          (let s1 = s\<lparr>sv_pending := filter (\<lambda>e. fst e \<noteq> i) (sv_pending s)\<rparr> in
           if \<not> accepted \<or> sv_stopped s1 \<or> gone \<or> \<not> sv_serve s1 \<or> (\<not> so_serve_on_cellular opt \<and> sv_cellular s1)
           then (if accepted then refuse_upload ''reservation-inactive'' s1
                 else refuse_upload ''reservation-refused'' (s1\<lparr>sv_quota := sv_quota s1 - charge\<rparr>))
           else accept_upload link charge bytes s1))"

text \<open>\<open>onUploadCancelled\<close> of a link: bytes never sent return to the rate, never to the allowance.\<close>

definition upload_cancelled :: "nat \<Rightarrow> serving \<Rightarrow> serving" where
  "upload_cancelled unsent s = s\<lparr>sv_cancelled := Suc (sv_cancelled s), sv_cancelled_bytes := sv_cancelled_bytes s + unsent,
     sv_bucket := give_tokens unsent (sv_bucket s)\<rparr>"

definition new_serving :: "nat \<Rightarrow> millis \<Rightarrow> bool \<Rightarrow> (nat \<times> string list) option \<Rightarrow> serving" where
  "new_serving rate tm serve warm = \<lparr>sv_held = [], sv_held_bytes = 0, sv_quota = 0,
     sv_bucket = \<lparr>bk_rate = of_nat rate, bk_tokens = of_nat rate, bk_refilled = tm\<rparr>,
     sv_stopped = False, sv_disabled = False, sv_serve = serve, sv_cellular = False, sv_links = [], sv_banned = [], sv_warm = warm,
     sv_pending = [], sv_next = 0, sv_uploaded = 0, sv_served = 0, sv_refused = 0, sv_cancelled = 0, sv_cancelled_bytes = 0, sv_out = []\<rparr>"

definition serving_stop :: "serving \<Rightarrow> serving" where
  "serving_stop s = s\<lparr>sv_stopped := True, sv_held := [], sv_held_bytes := 0\<rparr>"

datatype serving_call =
    Hold string "byte list"
  | DropHeld string
  | Request int bool swarm_link string "(nat \<times> nat) option"
  | ReservationSettled nat bool bool
  | UploadCancelled nat
  | Environment "swarm_link list" "string list" bool bool "(nat \<times> string list) option"
  | Shutdown

text \<open>A call at its time; \<open>Environment\<close> is any change of the links, the bans, the host's consent and the network.\<close>

fun serving_apply :: "serving_options \<Rightarrow> millis \<times> serving_call \<Rightarrow> serving \<Rightarrow> serving" where
  "serving_apply opt (tm, Hold key bytes) s = hold opt key bytes s"
| "serving_apply opt (tm, DropHeld key) s = drop_held key s"
| "serving_apply opt (tm, Request now admitted link key rng) s = serve_upload opt now tm admitted link key rng s"
| "serving_apply opt (tm, ReservationSettled i accepted gone) s = serve_reserved opt i accepted gone s"
| "serving_apply opt (tm, UploadCancelled unsent) s = upload_cancelled unsent s"
| "serving_apply opt (tm, Environment links banned serve cellular warm) s =
     s\<lparr>sv_links := links, sv_banned := banned, sv_serve := serve, sv_cellular := cellular, sv_warm := warm\<rparr>"
| "serving_apply opt (tm, Shutdown) s = serving_stop s"

end
