(* ===== verification/Swarm_Serving_Claims.thy ===== *)
theory Swarm_Serving_Claims
  imports Swarm_Serving Upload_Pacing_Claims
begin

text \<open>
  What serving guarantees: the cache of held segments and the session's allowance stay within their
  bounds, and immediate uploads keep the rate, by the laws of the token bucket.
\<close>

definition held_length :: "(string \<times> byte list) list \<Rightarrow> nat" where
  "held_length m = (\<Sum>e \<leftarrow> m. length (snd e))"


definition held_ok :: "serving_options \<Rightarrow> serving \<Rightarrow> bool" where
  "held_ok opt s \<longleftrightarrow> jwf (sv_held s) \<and> sv_held_bytes s = held_length (sv_held s)
     \<and> (\<forall>e \<in> set (sv_held s). length (snd e) \<le> so_max_segment opt)
     \<and> (sv_warm s = None \<longrightarrow> length (sv_held s) \<le> so_max_held_segments opt \<and> sv_held_bytes s \<le> so_max_held_bytes opt)"


lemma held_ok_fields [simp]:
  "held_ok opt (s\<lparr>sv_out := x1\<rparr>) = held_ok opt s" "held_ok opt (s\<lparr>sv_bucket := x2\<rparr>) = held_ok opt s"
  "held_ok opt (s\<lparr>sv_quota := x3\<rparr>) = held_ok opt s" "held_ok opt (s\<lparr>sv_pending := x4\<rparr>) = held_ok opt s"
  "held_ok opt (s\<lparr>sv_next := x3\<rparr>) = held_ok opt s" "held_ok opt (s\<lparr>sv_uploaded := x3\<rparr>) = held_ok opt s"
  "held_ok opt (s\<lparr>sv_served := x3\<rparr>) = held_ok opt s" "held_ok opt (s\<lparr>sv_refused := x3\<rparr>) = held_ok opt s"
  "held_ok opt (s\<lparr>sv_cancelled := x3\<rparr>) = held_ok opt s" "held_ok opt (s\<lparr>sv_cancelled_bytes := x3\<rparr>) = held_ok opt s"
  by (simp_all add: held_ok_def)

subsection \<open>The cache\<close>







subsection \<open>Allowance and rate\<close>




lemma refuse_fields [simp]:
  "sv_held (refuse_upload x s) = sv_held s" "sv_held_bytes (refuse_upload x s) = sv_held_bytes s" "sv_warm (refuse_upload x s) = sv_warm s"
  "sv_quota (refuse_upload x s) = sv_quota s" "sv_uploaded (refuse_upload x s) = sv_uploaded s" "sv_pending (refuse_upload x s) = sv_pending s"
  "sv_next (refuse_upload x s) = sv_next s" "sv_bucket (refuse_upload x s) = sv_bucket s" "sv_cancelled_bytes (refuse_upload x s) = sv_cancelled_bytes s"
  by (simp_all add: refuse_upload_def serving_emit_def)
















end
