(* ===== verification/Swarm_Membership.thy ===== *)
theory Swarm_Membership
  imports Swarm_Rotation Neighbour_Discovery
begin

text \<open>
  Whom a swarm dials, answers, admits, refuses and drops: the membership part of \<open>HlsSwarm\<close> in
  \<open>src/browser/hls-swarm.mjs\<close>, over the discovery and rotation models.

  Every \<open>await\<close> is a point where other events may happen: a call to the host's \<open>admit\<close> is an entry of
  \<open>mb_checks\<close> with the continuations that wait for it, a settled one puts them into \<open>mb_ready\<close>, and a
  native WebRTC call in flight is the phase of its negotiation.  Dials and negotiations are known by
  number.  One event reads the clock once: \<open>now\<close>, in milliseconds.  What the swarm does to the outside is
  appended to \<open>mb_out\<close>.
\<close>

record member_options =
  mo_rotation :: rotation_options
  mo_max_peers :: nat
  mo_max_dials :: nat
  mo_max_retries :: nat
  mo_peer_first :: bool
  mo_gated :: bool
  mo_number :: "js \<Rightarrow> rat option"

datatype phase =
    CreatingOffer | LocalOffer | GatheringOffer | AdmittingOffer | OfferSent
  | GlareQueued | AdmittingGlare | RollingBack | AdmittingRollback
  | InstallingOffer | CreatingAnswer | LocalAnswer | GatheringAnswer | AdmittingAnswer | Answered

record negotiation =
  ng_id :: nat
  ng_phase :: phase
  ng_ready :: bool
  ng_open :: bool
  ng_answer_pending :: bool
  ng_ticket :: "js option"
  ng_obj :: js

record dial =
  dl_id :: nat
  dl_request :: string
  dl_outgoing :: bool
  dl_discovery :: "nattempt option"
  dl_first :: nat
  dl_negotiation :: negotiation

datatype continuation =
    AtPresence string "bool option"
  | AtDialStart string "nattempt option"
  | AtOffer string nat nat
  | AtAnswer string nat nat string js
  | AtIncoming string string js
  | AtGlare string nat nat
  | AtRollback string nat nat
  | AtReply string nat nat
  | AtRefresh string "bool option"

record check =
  ck_ticket :: js
  ck_waiters :: "continuation list"
  ck_latest :: "(js \<times> bool option) option"

record admission =
  am_ticket :: js
  am_candidate :: "js option"

datatype member_event =
    AskedHost string js
  | HostSaid string js bool
  | SentSignal string string string
  | Evicted string int
  | LinkUp string
  | LinkDown string
  | DialEnded string string
  | RefusalSent string int "string list"
  | Announced bool
  | Described string

datatype timer = DialLater string | RetryAt string rat

record membership =
  mb_stopped :: bool
  mb_disabled :: bool
  mb_pubkey :: string
  mb_ticket :: "js option"
  mb_links :: "(string \<times> swarm_link) list"
  mb_dials :: "(string \<times> dial) list"
  mb_dial_checks :: "string list"
  mb_checks :: "(string \<times> check) list"
  mb_ready :: "(continuation \<times> bool) list"
  mb_admitted :: "(string \<times> admission) list"
  mb_cooldowns :: "(string \<times> rat) list"
  mb_failures :: "(string \<times> rat) list"
  mb_retries :: "(string \<times> nat) list"
  mb_open_peers :: "(string \<times> bool \<times> int) list"
  mb_offers :: "(string \<times> string) list"
  mb_framing :: "(string \<times> js) list"
  mb_banned :: "string list"
  mb_timers :: "timer list"
  mb_discovery :: discovery
  mb_last_eviction :: int
  mb_held :: "string list"
  mb_serving :: bool
  mb_played :: "(string \<times> int) list"
  mb_reannounce :: bool
  mb_next :: nat
  mb_out :: "member_event list"

definition member_emit :: "member_event list \<Rightarrow> membership \<Rightarrow> membership" where
  "member_emit es s = s\<lparr>mb_out := mb_out s @ es\<rparr>"

text \<open>A table that keeps its newest \<open>cap\<close> entries.\<close>

definition set_bounded :: "nat \<Rightarrow> 'k \<Rightarrow> 'v \<Rightarrow> ('k \<times> 'v) list \<Rightarrow> ('k \<times> 'v) list" where
  "set_bounded cap k v m = (let m1 = jset k v m in if length m1 > cap then jdel_oldest m1 else m1)"

subsection \<open>Slots and waits\<close>

definition has_link :: "membership \<Rightarrow> string \<Rightarrow> bool" where "has_link s p = jhas (mb_links s) p"
definition has_dial :: "membership \<Rightarrow> string \<Rightarrow> bool" where "has_dial s p = jhas (mb_dials s) p"

definition peer_count :: "membership \<Rightarrow> nat" where
  "peer_count s = length (mb_links s) + length (mb_dials s)"

definition outgoing_dials :: "membership \<Rightarrow> nat" where
  "outgoing_dials s = length (filter (\<lambda>e. dl_outgoing (snd e)) (mb_dials s))"

definition has_outgoing_slot :: "member_options \<Rightarrow> membership \<Rightarrow> bool" where
  "has_outgoing_slot opt s \<longleftrightarrow> outgoing_dials s + length (mb_dial_checks s) < mo_max_dials opt"

definition set_cooldown :: "string \<Rightarrow> rat \<Rightarrow> membership \<Rightarrow> membership" where
  "set_cooldown p till s = s\<lparr>mb_failures := jdel p (mb_failures s), mb_cooldowns := jset p till (mb_cooldowns s)\<rparr>"

definition cooling_down :: "int \<Rightarrow> string \<Rightarrow> membership \<Rightarrow> bool" where
  "cooling_down now p s \<longleftrightarrow> suppresses now p (mb_discovery s) \<or> p \<in> set (mb_banned s)
     \<or> (case jget (mb_cooldowns s) p of None \<Rightarrow> 0 > now | Some till \<Rightarrow> till > of_int now)"

definition remember_open :: "int \<Rightarrow> string \<Rightarrow> bool \<Rightarrow> membership \<Rightarrow> membership" where
  "remember_open now p open_now s = s\<lparr>mb_open_peers := set_bounded 64 p (open_now, now) (mb_open_peers s)\<rparr>"

definition open_peer_keys :: "int \<Rightarrow> membership \<Rightarrow> string list" where
  "open_peer_keys now s =
     map fst (sort_key (\<lambda>e. - snd (snd e))
       (filter (\<lambda>e. fst (snd e) \<and> snd (snd e) \<ge> now - 60000 \<and> fst e \<notin> set (mb_banned s)) (mb_open_peers s)))"

subsection \<open>Ending dials and links\<close>

datatype dial_end = Superseded | TimedOut | Rejected | FailedDial

definition dial_end_name :: "dial_end \<Rightarrow> string" where
  "dial_end_name r = (case r of Superseded \<Rightarrow> ''superseded'' | TimedOut \<Rightarrow> ''timeout'' | Rejected \<Rightarrow> ''rejected'' | FailedDial \<Rightarrow> ''failed'')"

text \<open>\<open>#failDial\<close> up to its call of \<open>#seekNeighbours\<close>.\<close>

definition drop_dial :: "int \<Rightarrow> string \<Rightarrow> nat \<Rightarrow> dial_end \<Rightarrow> rat \<Rightarrow> bool \<Rightarrow> membership \<Rightarrow> bool \<times> membership" where
  "drop_dial now p did reason cooldown local_candidates s =
     (case jget (mb_dials s) p of
        None \<Rightarrow> (False, s)
      | Some d \<Rightarrow>
          if dl_id d \<noteq> did then (False, s)
          else (let s1 = member_emit [DialEnded p (dial_end_name reason)]
                      (s\<lparr>mb_failures := jdel p (mb_failures s), mb_dials := jdel p (mb_dials s), mb_discovery := nd_failed did (mb_discovery s)\<rparr>)
            in if reason = Superseded then (False, s1)
               else (let till = of_int now + (if cooldown > 0 then cooldown else if reason = Rejected then 30000 else 60000);
                         s2 = set_cooldown p till s1
                     in (True, if local_candidates then s2\<lparr>mb_failures := set_bounded 256 p till (mb_failures s2)\<rparr> else s2))))"

text \<open>\<open>#endDiscovery\<close>: the window ends; a dial that it still owns, unchanged, ends with it.\<close>

definition end_discovery :: "int \<Rightarrow> nat \<Rightarrow> bool \<Rightarrow> membership \<Rightarrow> membership" where
  "end_discovery now wid close_pending s =
     (case nd_window (mb_discovery s) of
        None \<Rightarrow> s
      | Some w \<Rightarrow>
          if nw_id w \<noteq> wid then s
          else (let s1 = s\<lparr>mb_discovery := snd (end_window wid (mb_discovery s))\<rparr> in
            (case nw_attempt w of
               None \<Rightarrow> s1
             | Some a \<Rightarrow>
                 (case (na_dial a, jget (mb_dials s1) (na_pubkey a)) of
                    (Some did, Some d) \<Rightarrow>
                      if close_pending \<and> dl_id d = did \<and> map_option na_id (dl_discovery d) = Some (na_id a)
                         \<and> ng_id (dl_negotiation d) = dl_first d
                      then snd (drop_dial now (na_pubkey a) did Superseded 0 False
                             (s1\<lparr>mb_dials := jset (na_pubkey a) (d\<lparr>dl_discovery := None\<rparr>) (mb_dials s1)\<rparr>))
                      else s1
                  | _ \<Rightarrow> s1))))"

definition expire_discovery :: "int \<Rightarrow> membership \<Rightarrow> membership" where
  "expire_discovery now s =
     (case nd_window (mb_discovery s) of
        None \<Rightarrow> s
      | Some w \<Rightarrow>
          if \<not> window_live now (mb_discovery s) \<or> \<not> nd_current now (nw_context w) (mb_discovery s)
             \<or> (case nw_attempt w of None \<Rightarrow> False | Some a \<Rightarrow> \<not> valid_attempt now a (mb_discovery s))
          then end_discovery now (nw_id w) True s else s)"

text \<open>\<open>#hasCapacity\<close>, which first ends an expired window.\<close>

definition has_capacity :: "member_options \<Rightarrow> int \<Rightarrow> membership \<Rightarrow> bool \<times> membership" where
  "has_capacity opt now s =
     (let s1 = expire_discovery now s
      in (peer_count s1 + (if vacancy_reserved now (mb_discovery s1) then 1 else 0) < mo_max_peers opt, s1))"

text \<open>A link closes and its \<open>onClose\<close> runs.\<close>

definition link_down :: "string \<Rightarrow> nat \<Rightarrow> membership \<Rightarrow> membership" where
  "link_down p lid s =
     (case jget (mb_links s) p of
        None \<Rightarrow> s
      | Some l \<Rightarrow>
          if sl_id l \<noteq> lid then s
          else member_emit [LinkDown p]
                 (s\<lparr>mb_links := jdel p (mb_links s), mb_discovery := forget p (mb_discovery s), mb_reannounce := (mb_reannounce s \<or> \<not> mb_stopped s)\<rparr>))"

subsection \<open>Admission\<close>

definition admits :: "member_options \<Rightarrow> string \<Rightarrow> js option \<Rightarrow> continuation \<Rightarrow> membership \<Rightarrow> membership" where
  "admits opt p ticket k s =
     (let answer = (\<lambda>ok. s\<lparr>mb_ready := mb_ready s @ [(k, ok)]\<rparr>) in
      if mb_stopped s then answer False
      else if \<not> mo_gated opt then answer True
      else (case ticket of
          None \<Rightarrow> answer False
        | Some t \<Rightarrow>
            if \<not> valid_ticket t then answer False
            else (case jget (mb_checks s) p of
                Some c \<Rightarrow>
                  if ck_ticket c = t then s\<lparr>mb_checks := jset p (c\<lparr>ck_waiters := ck_waiters c @ [k]\<rparr>) (mb_checks s)\<rparr>
                  else answer False
              | None \<Rightarrow>
                  if length (mb_checks s) \<ge> 16 then answer False
                  else member_emit [AskedHost p t]
                         (s\<lparr>mb_checks := jset p \<lparr>ck_ticket = t, ck_waiters = [k], ck_latest = None\<rparr> (mb_checks s)\<rparr>))))"

text \<open>The host answered, or the wait for it ended: \<open>ok\<close> only for \<open>true\<close>.\<close>

definition remember_admission :: "string \<Rightarrow> js \<Rightarrow> bool \<Rightarrow> membership \<Rightarrow> membership" where
  "remember_admission p t ok s =
     (if ok then
        (let cand = (case jget (mb_admitted s) p of None \<Rightarrow> None | Some a \<Rightarrow> am_candidate a)
         in s\<lparr>mb_admitted := set_bounded 256 p
               \<lparr>am_ticket = t, am_candidate = (case cand of None \<Rightarrow> None | Some c \<Rightarrow> if valid_ticket c \<and> c \<noteq> t then Some c else None)\<rparr>
               (mb_admitted s)\<rparr>)
      else (case jget (mb_admitted s) p of
          None \<Rightarrow> s
        | Some a \<Rightarrow>
            if am_ticket a = t then s\<lparr>mb_admitted := jdel p (mb_admitted s)\<rparr>
            else if am_candidate a = Some t then s\<lparr>mb_admitted := jset p (a\<lparr>am_candidate := None\<rparr>) (mb_admitted s)\<rparr>
            else s))"

definition check_settles :: "member_options \<Rightarrow> string \<Rightarrow> bool \<Rightarrow> membership \<Rightarrow> membership" where
  "check_settles opt p ok s =
     (case jget (mb_checks s) p of
        None \<Rightarrow> s
      | Some c \<Rightarrow>
          if mb_stopped s then s
          else (let s1 = member_emit [HostSaid p (ck_ticket c) ok] (remember_admission p (ck_ticket c) ok s);
                    s2 = s1\<lparr>mb_checks := jdel p (mb_checks s1), mb_ready := mb_ready s1 @ map (\<lambda>k. (k, ok)) (ck_waiters c)\<rparr>
                in case ck_latest c of
                     None \<Rightarrow> s2
                   | Some (t, open_now) \<Rightarrow>
                       if has_link s2 p \<or> has_dial s2 p then admits opt p (Some t) (AtRefresh p open_now) s2 else s2))"

definition known_ticket :: "string \<Rightarrow> membership \<Rightarrow> js option" where
  "known_ticket p s =
     (case jget (mb_admitted s) p of
        None \<Rightarrow> None
      | Some a \<Rightarrow> (case am_candidate a of Some c \<Rightarrow> Some c | None \<Rightarrow> Some (am_ticket a)))"

subsection \<open>Dialling\<close>

definition abandon_attempt :: "nattempt option \<Rightarrow> membership \<Rightarrow> membership" where
  "abandon_attempt disc s = (case disc of None \<Rightarrow> s | Some a \<Rightarrow> s\<lparr>mb_discovery := abandoned a (mb_discovery s)\<rparr>)"

text \<open>\<open>#dial\<close> up to its first \<open>await\<close>.\<close>

definition dial_start :: "member_options \<Rightarrow> int \<Rightarrow> string \<Rightarrow> nattempt option \<Rightarrow> membership \<Rightarrow> membership" where
  "dial_start opt now p disc s =
     (if mb_stopped s \<or> has_link s p \<or> has_dial s p \<or> p \<in> set (mb_dial_checks s) \<or> cooling_down now p s then abandon_attempt disc s
      else (let (room, s1) = (case disc of Some a \<Rightarrow> (valid_attempt now a (mb_discovery s), s) | None \<Rightarrow> has_capacity opt now s) in
        if \<not> room \<or> \<not> has_outgoing_slot opt s1 then abandon_attempt disc s1
        else admits opt p (case disc of Some a \<Rightarrow> na_ticket a | None \<Rightarrow> known_ticket p s1) (AtDialStart p disc)
               (s1\<lparr>mb_failures := jdel p (mb_failures s1), mb_dial_checks := mb_dial_checks s1 @ [p]\<rparr>)))"

definition serves_rendition :: "int \<Rightarrow> swarm_link \<Rightarrow> string \<Rightarrow> bool" where
  "serves_rendition now l r \<longleftrightarrow> \<not> sl_closed l \<and> sl_serving l
     \<and> (case jget (sl_renditions l) r of None \<Rightarrow> 0 | Some t \<Rightarrow> t) > now - 30000"

definition link_meets :: "int \<Rightarrow> ncontext \<Rightarrow> swarm_link \<Rightarrow> bool" where
  "link_meets now c l \<longleftrightarrow> serves_rendition now l (nc_rendition c) \<or> list_ex (\<lambda>k. k \<in> set (sl_have l)) (nc_keys c)"

definition unmet_discovery :: "int \<Rightarrow> membership \<Rightarrow> ncontext \<Rightarrow> bool" where
  "unmet_discovery now s c \<longleftrightarrow>
     \<not> list_ex (\<lambda>e. \<not> stale now (nc_id c) (sl_pubkey (snd e)) (mb_discovery s) \<and> link_meets now c (snd e)) (mb_links s)"

definition no_fresh_serving :: "int \<Rightarrow> membership \<Rightarrow> ncontext \<Rightarrow> bool" where
  "no_fresh_serving now s c \<longleftrightarrow>
     list_all (\<lambda>e. stale now (nc_id c) (sl_pubkey (snd e)) (mb_discovery s))
       (filter (\<lambda>e. serves_rendition now (snd e) (nc_rendition c)) (mb_links s))"

definition discovery_eligible :: "member_options \<Rightarrow> int \<Rightarrow> membership \<Rightarrow> ncandidate \<Rightarrow> bool" where
  "discovery_eligible opt now s d \<longleftrightarrow> \<not> has_link s (cd_pubkey d) \<and> \<not> has_dial s (cd_pubkey d)
     \<and> cd_pubkey d \<notin> set (mb_dial_checks s) \<and> \<not> cooling_down now (cd_pubkey d) s
     \<and> (\<not> mo_gated opt \<or> (case cd_ticket d of None \<Rightarrow> False | Some t \<Rightarrow> valid_ticket t))
     \<and> (case jget (mb_retries s) (cd_pubkey d) of None \<Rightarrow> 0 | Some n \<Rightarrow> n) \<le> mo_max_retries opt"

definition victim_tier :: "member_options \<Rightarrow> int \<Rightarrow> membership \<Rightarrow> swarm_link \<Rightarrow> nat" where
  "victim_tier opt now s = rotation_tier (mo_rotation opt) (mb_serving s) (mb_played s) now"

definition discovery_victim :: "member_options \<Rightarrow> int \<Rightarrow> membership \<Rightarrow> ncontext \<Rightarrow> (swarm_link \<times> nat) option" where
  "discovery_victim opt now s c =
     (if spent c \<or> length (mb_links s) < 2 \<or> now - mb_last_eviction s < ro_eviction_cooldown (mo_rotation opt) then None
      else (let contexts = filter (\<lambda>v. now - nc_activity v < 30000) (map snd (nd_contexts (mb_discovery s)));
                free = filter (\<lambda>l. \<not> list_ex (\<lambda>v. \<not> stale now (nc_id v) (sl_pubkey l) (mb_discovery s) \<and> link_meets now v l) contexts)
                         (map snd (mb_links s))
            in rotation_choice (mo_rotation opt) (set (mb_banned s)) (Some (victim_tier opt now s)) now free))"

text \<open>\<open>#seekNeighbours\<close>.\<close>

definition rearm_all :: "int \<Rightarrow> membership \<Rightarrow> membership" where
  "rearm_all now s =
     fold (\<lambda>c s. s\<lparr>mb_discovery := snd (rearm now (nc_id c) (no_fresh_serving now s c) (mb_discovery s))\<rparr>)
       (map snd (nd_contexts (mb_discovery s))) s"

definition seek_neighbours :: "member_options \<Rightarrow> int \<Rightarrow> membership \<Rightarrow> membership" where
  "seek_neighbours opt now s =
     (if mb_stopped s \<or> \<not> mo_peer_first opt then s
      else (let s1 = expire_discovery now s in
        if \<not> has_outgoing_slot opt s1 then s1
        else (let s2 = rearm_all now s1; room = (peer_count s2 < mo_max_peers opt);
                  (choice, d1) = nd_choose now (discovery_eligible opt now s2)
                    (\<lambda>c. unmet_discovery now s2 c \<and> (room \<or> vacancy_reserved now (mb_discovery s2) \<or> discovery_victim opt now s2 c \<noteq> None))
                    room (mb_discovery s2);
                  s3 = s2\<lparr>mb_discovery := d1\<rparr>
              in case choice of
                   None \<Rightarrow> s3
                 | Some ch \<Rightarrow>
                     (let (attempt, d2) = begin_attempt now ch (mb_discovery s3); s4 = s3\<lparr>mb_discovery := d2\<rparr>
                      in case attempt of None \<Rightarrow> s4 | Some a \<Rightarrow> dial_start opt now (na_pubkey a) (Some a) s4))))"

definition fail_dial :: "member_options \<Rightarrow> int \<Rightarrow> string \<Rightarrow> nat \<Rightarrow> dial_end \<Rightarrow> rat \<Rightarrow> bool \<Rightarrow> membership \<Rightarrow> membership" where
  "fail_dial opt now p did reason cooldown local_candidates s =
     (let (seek, s1) = drop_dial now p did reason cooldown local_candidates s in if seek then seek_neighbours opt now s1 else s1)"

definition close_victim :: "int \<Rightarrow> swarm_link \<Rightarrow> membership \<Rightarrow> membership" where
  "close_victim now l s = link_down (sl_pubkey l) (sl_id l) (member_emit [Evicted (sl_pubkey l) now] (s\<lparr>mb_last_eviction := now\<rparr>))"

definition open_dial :: "string \<Rightarrow> nattempt option \<Rightarrow> membership \<Rightarrow> membership" where
  "open_dial p disc s =
     (let did = mb_next s;
          d = \<lparr>dl_id = did, dl_request = [], dl_outgoing = True, dl_discovery = disc, dl_first = Suc did,
               dl_negotiation = \<lparr>ng_id = Suc did, ng_phase = CreatingOffer, ng_ready = False, ng_open = False, ng_answer_pending = False,
                 ng_ticket = None, ng_obj = JUndefined\<rparr>\<rparr>
      in s\<lparr>mb_discovery := (case disc of None \<Rightarrow> mb_discovery s | Some a \<Rightarrow> allocated a did (mb_discovery s)),
           mb_failures := jdel p (mb_failures s), mb_dials := jset p d (mb_dials s), mb_next := Suc (Suc did)\<rparr>)"

text \<open>\<open>#dial\<close> after its admission; \<open>request\<close> is the fresh random request id.\<close>

definition with_request :: "string \<Rightarrow> string \<Rightarrow> membership \<Rightarrow> membership" where
  "with_request p request s =
     (case jget (mb_dials s) p of None \<Rightarrow> s | Some d \<Rightarrow> s\<lparr>mb_dials := jset p (d\<lparr>dl_request := request\<rparr>) (mb_dials s)\<rparr>)"

definition dial_admitted :: "member_options \<Rightarrow> int \<Rightarrow> string \<Rightarrow> string \<Rightarrow> nattempt option \<Rightarrow> bool \<Rightarrow> membership \<Rightarrow> membership" where
  "dial_admitted opt now request p disc ok s0 =
     (let s = s0\<lparr>mb_dial_checks := filter (\<lambda>q. q \<noteq> p) (mb_dial_checks s0)\<rparr> in
      if \<not> ok then (case disc of None \<Rightarrow> s | Some a \<Rightarrow> set_cooldown p (of_int now + 60000) (abandon_attempt disc s))
      else if mb_stopped s \<or> has_link s p \<or> has_dial s p \<or> cooling_down now p s \<or> outgoing_dials s \<ge> mo_max_dials opt
      then abandon_attempt disc s
      else (case disc of
          None \<Rightarrow> (let (room, s1) = has_capacity opt now s in if \<not> room then s1 else with_request p request (open_dial p None s1))
        | Some a \<Rightarrow>
            if \<not> valid_attempt now a (mb_discovery s)
               \<or> (case nd_window (mb_discovery s) of None \<Rightarrow> True
                  | Some w \<Rightarrow> (case live_context (nw_context w) (mb_discovery s) of None \<Rightarrow> True | Some c \<Rightarrow> \<not> unmet_discovery now s c))
            then abandon_attempt disc s
            else if peer_count s < mo_max_peers opt then with_request p request (open_dial p disc s)
            else (case nd_window (mb_discovery s) of
                None \<Rightarrow> abandon_attempt disc s
              | Some w \<Rightarrow> (case live_context (nw_context w) (mb_discovery s) of
                    None \<Rightarrow> abandon_attempt disc s
                  | Some c \<Rightarrow> (case discovery_victim opt now s c of
                        None \<Rightarrow> abandon_attempt disc s
                      | Some (l, tier) \<Rightarrow>
                          (let (done_it, d1) = replaced now a (sl_pubkey l) (mb_discovery s) in
                           if \<not> done_it then abandon_attempt disc s
                           else with_request p request (open_dial p disc
                                  (close_victim now l (set_cooldown (sl_pubkey l) (of_int (nw_expires w)) (s\<lparr>mb_discovery := d1\<rparr>))))))))))"

end
