(* ===== verification/Swarm_Signalling.thy ===== *)
theory Swarm_Signalling
  imports Swarm_Membership
begin

text \<open>
  The signalling half of \<open>HlsSwarm\<close>'s membership: presence, offers, answers, refusals, the steps of a
  negotiation between its native calls, and the swarm's own entry points.

  A \<open>moment\<close> is what the code reads of the world while one event is handled: \<open>Date.now()\<close>, the states of
  the event's own peer connection, whether the session could send the signal, a fresh random request id
  and the random jitter.
\<close>

record moment =
  mt_now :: int
  mt_connection :: string
  mt_ice :: string
  mt_signalling :: string
  mt_sends :: bool
  mt_request :: string
  mt_jitter :: rat

definition transport_name :: string where "transport_name = ''webrtc''"

subsection \<open>Negotiations\<close>

text \<open>\<open>#currentNegotiation\<close>, and its dial: a retired negotiation is no longer the one of its dial.\<close>

definition current_negotiation :: "int \<Rightarrow> string \<Rightarrow> nat \<Rightarrow> nat \<Rightarrow> membership \<Rightarrow> dial option" where
  "current_negotiation now p did nid s =
     (if mb_stopped s then None
      else (case jget (mb_dials s) p of
          None \<Rightarrow> None
        | Some d \<Rightarrow>
            if dl_id d = did \<and> ng_id (dl_negotiation d) = nid
               \<and> (case dl_discovery d of None \<Rightarrow> True | Some a \<Rightarrow> valid_attempt now a (mb_discovery s))
            then Some d else None))"

definition put_dial :: "string \<Rightarrow> dial \<Rightarrow> membership \<Rightarrow> membership" where
  "put_dial p d s = s\<lparr>mb_dials := jset p d (mb_dials s)\<rparr>"

definition set_phase :: "phase \<Rightarrow> dial \<Rightarrow> dial" where
  "set_phase ph d = d\<lparr>dl_negotiation := (dl_negotiation d)\<lparr>ng_phase := ph\<rparr>\<rparr>"

definition signal_framing :: "string \<Rightarrow> js \<Rightarrow> membership \<Rightarrow> membership" where
  "signal_framing p capability s =
     (if capability \<noteq> JInt 2 then s
      else s\<lparr>mb_framing := set_bounded 1024 p (JInt 2) (jdel p (mb_framing s))\<rparr>)"

definition fresh_link :: "nat \<Rightarrow> string \<Rightarrow> int \<Rightarrow> swarm_link" where
  "fresh_link i p now = \<lparr>sl_id = i, sl_pubkey = p, sl_closed = False, sl_transferring = False, sl_opened = now, sl_useful = now,
     sl_last_served = 0, sl_outbound = 0, sl_serving = False, sl_announced = [], sl_have = [], sl_renditions = []\<rparr>"

text \<open>\<open>#linkOpened\<close>: the dial becomes a link, and the window that it was for ends.\<close>

definition link_opened :: "int \<Rightarrow> string \<Rightarrow> nat \<Rightarrow> nat \<Rightarrow> membership \<Rightarrow> membership" where
  "link_opened now p did nid s =
     (case current_negotiation now p did nid s of
        None \<Rightarrow> s
      | Some d \<Rightarrow>
          if \<not> ng_ready (dl_negotiation d) then s
          else (let s1 = s\<lparr>mb_dials := jdel p (mb_dials s)\<rparr>;
                    s2 = (case dl_discovery d of None \<Rightarrow> s1 | Some a \<Rightarrow> end_discovery now (na_window a) False s1)
                in member_emit [LinkUp p]
                     (s2\<lparr>mb_links := jset p (fresh_link (mb_next s2) p now) (mb_links s2), mb_next := Suc (mb_next s2)\<rparr>)))"

definition ready_dial :: "int \<Rightarrow> string \<Rightarrow> nat \<Rightarrow> nat \<Rightarrow> membership \<Rightarrow> membership" where
  "ready_dial now p did nid s =
     (case current_negotiation now p did nid s of
        None \<Rightarrow> s
      | Some d \<Rightarrow>
          (let s1 = put_dial p (d\<lparr>dl_negotiation := (dl_negotiation d)\<lparr>ng_ready := True\<rparr>\<rparr>) s
           in if ng_open (dl_negotiation d) then link_opened now p did nid s1 else s1))"

text \<open>\<open>#dialChannel\<close> and the channel's open event: its channel exists and is open.\<close>

definition channel_open :: "int \<Rightarrow> string \<Rightarrow> nat \<Rightarrow> nat \<Rightarrow> membership \<Rightarrow> membership" where
  "channel_open now p did nid s =
     (case current_negotiation now p did nid s of
        None \<Rightarrow> s
      | Some d \<Rightarrow>
          (let s1 = put_dial p (d\<lparr>dl_negotiation := (dl_negotiation d)\<lparr>ng_open := True\<rparr>\<rparr>) s
           in if ng_ready (dl_negotiation d) then link_opened now p did nid s1 else s1))"

text \<open>\<open>#beginNegotiation\<close> for an incoming offer on dial \<open>d\<close>, which adopts or opens the connection.\<close>

definition begin_incoming :: "int \<Rightarrow> string \<Rightarrow> string \<Rightarrow> js option \<Rightarrow> js \<Rightarrow> bool \<Rightarrow> dial \<Rightarrow> membership \<Rightarrow> membership" where
  "begin_incoming now p request ticket obj reuse d s =
     (let s1 = s\<lparr>mb_failures := jdel p (mb_failures s)\<rparr>;
          s2 = (case dl_discovery d of None \<Rightarrow> s1 | Some a \<Rightarrow> end_discovery now (na_window a) False s1);
          nid = mb_next s2
      in put_dial p (d\<lparr>dl_request := request, dl_outgoing := False, dl_discovery := None,
             dl_negotiation := \<lparr>ng_id = nid, ng_phase = (if reuse then GlareQueued else InstallingOffer), ng_ready = False,
               ng_open = False, ng_answer_pending = False, ng_ticket = ticket, ng_obj = obj\<rparr>\<rparr>)
           (s2\<lparr>mb_next := Suc nid\<rparr>))"

definition send_swarm_signal :: "moment \<Rightarrow> string \<Rightarrow> string \<Rightarrow> string \<Rightarrow> membership \<Rightarrow> bool \<times> membership" where
  "send_swarm_signal mt p kind request s =
     (if mb_stopped s \<or> \<not> mt_sends mt then (False, s) else (True, member_emit [SentSignal p kind request] s))"

subsection \<open>Refusals\<close>

definition refusal_payload :: "member_options \<Rightarrow> int \<Rightarrow> string \<Rightarrow> membership \<Rightarrow> int \<times> string list" where
  "refusal_payload opt now asker s =
     (retry_after_for (mo_rotation opt) (mb_last_eviction s) now (map snd (mb_links s)),
      take (ro_max_referrals (mo_rotation opt)) (filter (\<lambda>p. p \<noteq> asker) (open_peer_keys now s)))"

text \<open>The loop of \<open>#afterRefusal\<close> over the referrals.\<close>

fun follow_referrals :: "member_options \<Rightarrow> int \<Rightarrow> string list \<Rightarrow> membership \<Rightarrow> membership" where
  "follow_referrals opt now [] s = s"
| "follow_referrals opt now (p # ps) s =
     (if p = mb_pubkey s then follow_referrals opt now ps s
      else if mo_gated opt \<and> \<not> jhas (mb_admitted s) p then follow_referrals opt now ps s
      else if has_link s p \<or> has_dial s p \<or> cooling_down now p s then follow_referrals opt now ps s
      else (let (room, s1) = has_capacity opt now s in
        if \<not> room then follow_referrals opt now ps s1
        else if outgoing_dials s1 \<ge> mo_max_dials opt then s1
        else follow_referrals opt now ps (dial_start opt now p None s1)))"

definition after_refusal :: "member_options \<Rightarrow> moment \<Rightarrow> string \<Rightarrow> rat \<Rightarrow> string list \<Rightarrow> membership \<Rightarrow> membership" where
  "after_refusal opt mt p delay referrals s =
     (let attempts = (case jget (mb_retries s) p of None \<Rightarrow> 0 | Some n \<Rightarrow> n) + 1;
          s1 = (if attempts \<le> mo_max_retries opt
                then s\<lparr>mb_retries := jset p attempts (mb_retries s), mb_timers := mb_timers s @ [RetryAt p (delay + mt_jitter mt * 1000)]\<rparr>
                else s)
      in follow_referrals opt (mt_now mt) referrals s1)"

text \<open>\<open>#evictForOffer\<close>: whether a link was closed for the asker.\<close>

definition held_repair :: "js \<Rightarrow> js \<Rightarrow> membership \<Rightarrow> bool" where
  "held_repair asker_peers requested s \<longleftrightarrow> safe_integer asker_peers \<and> int_of asker_peers > 0
     \<and> is_string requested \<and> hex64_test requested \<and> js_string requested \<in> set (mb_held s) \<and> mb_serving s"

definition evict_for_offer :: "member_options \<Rightarrow> int \<Rightarrow> js \<Rightarrow> js \<Rightarrow> membership \<Rightarrow> bool \<times> membership" where
  "evict_for_offer opt now asker_peers requested s =
     (if vacancy_reserved now (mb_discovery s) \<or> (asker_peers \<noteq> JInt 0 \<and> \<not> held_repair asker_peers requested s)
         \<or> length (mb_links s) < 2 \<or> now - mb_last_eviction s < ro_eviction_cooldown (mo_rotation opt) then (False, s)
      else (case rotation_choice (mo_rotation opt) (set (mb_banned s)) (Some (victim_tier opt now s)) now (map snd (mb_links s)) of
          None \<Rightarrow> (False, s)
        | Some (l, tier) \<Rightarrow> (True, close_victim now l s)))"

subsection \<open>Presence\<close>

definition open_flag :: "js \<Rightarrow> bool option" where
  "open_flag v = (case v of JBool b \<Rightarrow> Some b | _ \<Rightarrow> None)"

definition remember_flag :: "int \<Rightarrow> string \<Rightarrow> bool option \<Rightarrow> membership \<Rightarrow> membership" where
  "remember_flag now p open_now s = (case open_now of None \<Rightarrow> s | Some b \<Rightarrow> remember_open now p b s)"

definition note_candidate :: "string \<Rightarrow> js \<Rightarrow> membership \<Rightarrow> membership" where
  "note_candidate p ticket s =
     (case jget (mb_admitted s) p of
        None \<Rightarrow> s
      | Some a \<Rightarrow>
          if valid_ticket ticket \<and> ticket \<noteq> am_ticket a
          then s\<lparr>mb_admitted := jset p (a\<lparr>am_candidate := Some ticket\<rparr>) (mb_admitted s)\<rparr> else s)"

definition known_credential :: "member_options \<Rightarrow> string \<Rightarrow> js \<Rightarrow> membership \<Rightarrow> bool" where
  "known_credential opt p ticket s \<longleftrightarrow> \<not> mo_gated opt
     \<or> (case jget (mb_admitted s) p of None \<Rightarrow> False | Some a \<Rightarrow> am_ticket a = ticket)"

text \<open>\<open>#onPresence\<close> up to \<open>const active\<close> and the candidate ticket: what the swarm notes of every viewer.\<close>

definition presence_heard :: "member_options \<Rightarrow> int \<Rightarrow> string \<Rightarrow> js \<Rightarrow> js \<Rightarrow> membership \<Rightarrow> membership" where
  "presence_heard opt now p transport payload s =
     (let obj = (if Json.member transport ''obj'' \<in> {JUndefined, JNull} then JInt 1 else Json.member transport ''obj'');
          s1 = s\<lparr>mb_framing := set_bounded 1024 p obj (jdel p (mb_framing s))\<rparr>;
          s2 = (if mo_peer_first opt
            then seek_neighbours opt now (s1\<lparr>mb_discovery := nd_hint now p (Json.member payload ''have'') (Json.member payload ''ticket'') (mb_discovery s1)\<rparr>)
            else s1)
      in note_candidate p (Json.member payload ''ticket'') s2)"

text \<open>Whether there is room to dial the viewer, and the rest of \<open>#onPresence\<close> up to its \<open>await\<close>.\<close>

definition dial_room :: "member_options \<Rightarrow> int \<Rightarrow> string \<Rightarrow> membership \<Rightarrow> bool \<times> membership" where
  "dial_room opt now p s =
     (if cooling_down now p s then (False, s)
      else (let (room, s1) = has_capacity opt now s in (room \<and> has_outgoing_slot opt s1, s1)))"

definition presence_check :: "member_options \<Rightarrow> int \<Rightarrow> string \<Rightarrow> js \<Rightarrow> bool option \<Rightarrow> membership \<Rightarrow> membership" where
  "presence_check opt now p ticket flag s =
     (let active = (has_link s p \<or> has_dial s p); known = known_credential opt p ticket s in
      if active \<and> known then remember_flag now p flag s
      else (let (room, s1) = (if active then (True, s) else dial_room opt now p s) in
        if \<not> room then (if known then remember_flag now p flag s1 else s1)
        else (case (active, jget (mb_checks s1) p) of
            (True, Some c) \<Rightarrow>
              if valid_ticket ticket \<and> ticket \<noteq> ck_ticket c
              then s1\<lparr>mb_checks := jset p (c\<lparr>ck_latest := Some (ticket, flag)\<rparr>) (mb_checks s1)\<rparr> else s1
          | _ \<Rightarrow> admits opt p (Some ticket) (AtPresence p flag) s1)))"

definition on_presence :: "member_options \<Rightarrow> moment \<Rightarrow> string \<Rightarrow> js \<Rightarrow> membership \<Rightarrow> membership" where
  "on_presence opt mt p payload s =
     (if mb_stopped s \<or> Json.member payload ''role'' \<noteq> JStr ''viewer'' then s
      else (case find (\<lambda>t. Json.member t ''type'' = JStr transport_name) (elems (Json.member payload ''transports'')) of
          None \<Rightarrow> s
        | Some t \<Rightarrow> presence_check opt (mt_now mt) p (Json.member payload ''ticket'') (open_flag (Json.member payload ''open''))
            (presence_heard opt (mt_now mt) p t payload s)))"

text \<open>\<open>#onPresence\<close> after its admission: a dial after a random delay.\<close>

definition presence_admitted :: "member_options \<Rightarrow> int \<Rightarrow> string \<Rightarrow> bool option \<Rightarrow> bool \<Rightarrow> membership \<Rightarrow> membership" where
  "presence_admitted opt now p flag ok s =
     (if \<not> ok \<or> mb_stopped s then s
      else (let s1 = remember_flag now p flag s in
        if has_link s1 p \<or> has_dial s1 p \<or> cooling_down now p s1 then s1
        else (let (room, s2) = has_capacity opt now s1
              in if room then s2\<lparr>mb_timers := mb_timers s2 @ [DialLater p]\<rparr> else s2)))"

subsection \<open>Offers, answers and rejections\<close>

definition usable :: "moment \<Rightarrow> bool" where
  "usable mt \<longleftrightarrow> mt_connection mt \<in> {''new'', ''connecting''} \<and> mt_ice mt \<in> {''new'', ''checking''}"

definition fail_current :: "member_options \<Rightarrow> int \<Rightarrow> string \<Rightarrow> nat \<Rightarrow> nat \<Rightarrow> bool \<Rightarrow> membership \<Rightarrow> membership" where
  "fail_current opt now p did nid local_candidates s =
     (case current_negotiation now p did nid s of
        None \<Rightarrow> s
      | Some d \<Rightarrow> fail_dial opt now p did FailedDial 0 local_candidates s)"

definition ticket_of :: "js \<Rightarrow> js option" where
  "ticket_of t = (if valid_ticket t then Some t else None)"

definition sdp_of :: "js \<Rightarrow> string" where
  "sdp_of payload = (case Json.member payload ''sdp'' of JStr sdp \<Rightarrow> sdp | _ \<Rightarrow> [])"

definition on_answer :: "member_options \<Rightarrow> string \<Rightarrow> string \<Rightarrow> js \<Rightarrow> membership \<Rightarrow> membership" where
  "on_answer opt p request payload s =
     (case jget (mb_dials s) p of
        None \<Rightarrow> s
      | Some d \<Rightarrow>
          if \<not> dl_outgoing d \<or> dl_request d \<noteq> request \<or> sdp_of payload = [] \<or> ng_answer_pending (dl_negotiation d) then s
          else admits opt p (ticket_of (Json.member payload ''ticket''))
                 (AtAnswer p (dl_id d) (ng_id (dl_negotiation d)) request (Json.member payload ''obj'')) s)"

text \<open>After the answer's admission: the remote description is installed as a later event.\<close>

definition answer_admitted :: "member_options \<Rightarrow> int \<Rightarrow> string \<Rightarrow> nat \<Rightarrow> nat \<Rightarrow> string \<Rightarrow> js \<Rightarrow> bool \<Rightarrow> membership \<Rightarrow> membership" where
  "answer_admitted opt now p did nid request obj ok s =
     (if \<not> ok then fail_current opt now p did nid False s
      else (case current_negotiation now p did nid s of
          None \<Rightarrow> s
        | Some d \<Rightarrow>
            if \<not> dl_outgoing d \<or> dl_request d \<noteq> request \<or> ng_answer_pending (dl_negotiation d) then s
            else put_dial p (d\<lparr>dl_negotiation := (dl_negotiation d)\<lparr>ng_answer_pending := True, ng_obj := obj\<rparr>\<rparr>) s))"

definition answer_installed :: "member_options \<Rightarrow> int \<Rightarrow> string \<Rightarrow> nat \<Rightarrow> nat \<Rightarrow> bool \<Rightarrow> membership \<Rightarrow> membership" where
  "answer_installed opt now p did nid works s =
     (case current_negotiation now p did nid s of
        None \<Rightarrow> s
      | Some d \<Rightarrow>
          if \<not> ng_answer_pending (dl_negotiation d) then s
          else if works then ready_dial now p did nid (signal_framing p (ng_obj (dl_negotiation d)) s)
          else fail_dial opt now p did FailedDial 0 False s)"

definition on_reject :: "member_options \<Rightarrow> moment \<Rightarrow> string \<Rightarrow> string \<Rightarrow> js \<Rightarrow> membership \<Rightarrow> membership" where
  "on_reject opt mt p request payload s =
     (case jget (mb_dials s) p of
        None \<Rightarrow> s
      | Some d \<Rightarrow>
          if \<not> dl_outgoing d \<or> dl_request d \<noteq> request then s
          else (let (delay, referrals) = read_refusal (mo_number opt) (mo_rotation opt) payload
                in after_refusal opt mt p delay referrals
                     (remember_open (mt_now mt) p False (fail_dial opt (mt_now mt) p (dl_id d) Rejected delay False s))))"

definition already_answered :: "string \<Rightarrow> string \<Rightarrow> membership \<Rightarrow> bool" where
  "already_answered p request s \<longleftrightarrow> (p, request) \<in> set (mb_offers s)
     \<or> (case jget (mb_dials s) p of None \<Rightarrow> False | Some d \<Rightarrow> \<not> dl_outgoing d \<and> dl_request d = request)"

definition on_offer :: "member_options \<Rightarrow> int \<Rightarrow> string \<Rightarrow> string \<Rightarrow> js \<Rightarrow> membership \<Rightarrow> membership" where
  "on_offer opt now p request payload s0 =
     (if sdp_of payload = [] then s0
      else (let s = expire_discovery now s0 in
        if suppresses now p (mb_discovery s) \<or> p \<in> set (mb_banned s) \<or> has_link s p \<or> already_answered p request s then s
        else admits opt p (ticket_of (Json.member payload ''ticket'')) (AtIncoming p request payload) s))"

text \<open>\<open>receivedOffers\<close>: the newest 256 admitted requests.\<close>

definition note_offer :: "string \<Rightarrow> string \<Rightarrow> membership \<Rightarrow> membership" where
  "note_offer p request s =
     (let offers = mb_offers s @ [(p, request)] in s\<lparr>mb_offers := (if length offers > 256 then tl offers else offers)\<rparr>)"

definition refuse_offer :: "member_options \<Rightarrow> moment \<Rightarrow> string \<Rightarrow> string \<Rightarrow> membership \<Rightarrow> membership" where
  "refuse_offer opt mt p request s =
     (let (wait, referrals) = refusal_payload opt (mt_now mt) p s; (sent, s1) = send_swarm_signal mt p ''reject'' request s
      in if sent then member_emit [RefusalSent p wait referrals] s1 else s1)"

text \<open>An admitted offer: glare on a pending dial of ours, or a new incoming dial where there is room.\<close>

definition accept_incoming :: "int \<Rightarrow> string \<Rightarrow> string \<Rightarrow> js \<Rightarrow> membership \<Rightarrow> membership" where
  "accept_incoming now p request payload s =
     (let did = mb_next s;
          d = \<lparr>dl_id = did, dl_request = request, dl_outgoing = False, dl_discovery = None, dl_first = did,
               dl_negotiation = \<lparr>ng_id = did, ng_phase = InstallingOffer, ng_ready = False, ng_open = False,
                 ng_answer_pending = False, ng_ticket = None, ng_obj = JUndefined\<rparr>\<rparr>
      in begin_incoming now p request (ticket_of (Json.member payload ''ticket'')) (Json.member payload ''obj'') False d
           (s\<lparr>mb_failures := jdel p (mb_failures s), mb_next := Suc did\<rparr>))"

definition place_offer :: "member_options \<Rightarrow> moment \<Rightarrow> string \<Rightarrow> string \<Rightarrow> js \<Rightarrow> membership \<Rightarrow> membership" where
  "place_offer opt mt p request payload s =
     (let now = mt_now mt; (room, s1) = has_capacity opt now s;
          (found, s2) = (if room then (True, s1)
            else evict_for_offer opt now (Json.member payload ''peers'') (Json.member payload ''requestedKey'') s1)
      in if found then accept_incoming now p request payload s2 else refuse_offer opt mt p request s2)"

definition offer_admitted :: "member_options \<Rightarrow> moment \<Rightarrow> string \<Rightarrow> string \<Rightarrow> js \<Rightarrow> bool \<Rightarrow> membership \<Rightarrow> membership" where
  "offer_admitted opt mt p request payload ok s0 =
     (let now = mt_now mt in
      if \<not> ok \<or> mb_stopped s0 \<or> has_link s0 p then s0
      else (let s1 = expire_discovery now s0 in
        if suppresses now p (mb_discovery s1) \<or> already_answered p request s1 then s1
        else (let s = note_offer p request s1 in
          (case jget (mb_dials s) p of
             None \<Rightarrow> place_offer opt mt p request payload s
           | Some d \<Rightarrow>
               if \<not> dl_outgoing d then place_offer opt mt p request payload (fail_dial opt now p (dl_id d) Superseded 0 False s)
               else if ng_answer_pending (dl_negotiation d) \<or> mb_pubkey s < p then s
               else if peer_count s > mo_max_peers opt \<or> \<not> usable mt \<or> mt_signalling mt \<notin> {''stable'', ''have-local-offer''}
               then fail_dial opt now p (dl_id d) FailedDial 0 False s
               else begin_incoming now p request (ticket_of (Json.member payload ''ticket'')) (Json.member payload ''obj'') True d s))))"

definition on_signal :: "member_options \<Rightarrow> moment \<Rightarrow> string \<Rightarrow> js \<Rightarrow> membership \<Rightarrow> membership" where
  "on_signal opt mt p payload s =
     (let request = js_string (Json.member payload ''requestId''); inner = Json.member payload ''payload'' in
      if mb_stopped s \<or> Json.member payload ''transport'' \<noteq> JStr transport_name then s
      else if Json.member payload ''type'' = JStr ''answer'' then on_answer opt p request inner s
      else if Json.member payload ''type'' = JStr ''reject'' then on_reject opt mt p request inner s
      else if Json.member payload ''type'' = JStr ''offer'' then on_offer opt (mt_now mt) p request inner s
      else s)"

subsection \<open>The steps of a negotiation\<close>

datatype native = Works | Throws | NotReady bool

text \<open>A glare offer before its rollback; there is nothing to roll back in state \<open>stable\<close>.\<close>

definition after_rollback :: "member_options \<Rightarrow> moment \<Rightarrow> string \<Rightarrow> nat \<Rightarrow> nat \<Rightarrow> dial \<Rightarrow> membership \<Rightarrow> membership" where
  "after_rollback opt mt p did nid d s =
     (if peer_count s > mo_max_peers opt \<or> mt_signalling mt \<noteq> ''stable'' \<or> \<not> usable mt
      then fail_dial opt (mt_now mt) p did FailedDial 0 False s
      else admits opt p (ng_ticket (dl_negotiation d)) (AtRollback p did nid) (put_dial p (set_phase AdmittingRollback d) s))"

text \<open>
  The native call that dial \<open>did\<close> of \<open>p\<close> awaits has settled; for \<open>GlareQueued\<close> it is the turn in the
  dial's queue that has come.  \<open>NotReady\<close> is \<open>gathered\<close> without a usable description.  A negotiation's
  phase is the \<open>await\<close> at which its function stands, so a continuation runs at its own phase only.
\<close>


definition native_step :: "member_options \<Rightarrow> moment \<Rightarrow> string \<Rightarrow> nat \<Rightarrow> nat \<Rightarrow> native \<Rightarrow> membership \<Rightarrow> membership" where
  "native_step opt mt p did nid result s =
     (let now = mt_now mt; move = (\<lambda>d ph. put_dial p (set_phase ph d) s) in
      (case current_negotiation now p did nid s of
         None \<Rightarrow> s
       | Some d \<Rightarrow>
           (case (ng_phase (dl_negotiation d), result) of
              (CreatingOffer, Works) \<Rightarrow> move d LocalOffer
            | (LocalOffer, Works) \<Rightarrow> move d GatheringOffer
            | (GatheringOffer, Works) \<Rightarrow> admits opt p (known_ticket p s) (AtOffer p did nid)
                (put_dial p (set_phase AdmittingOffer d) (member_emit [Described p] s))
            | (GatheringOffer, NotReady none_found) \<Rightarrow> fail_dial opt now p did FailedDial 0 none_found (member_emit [Described p] s)
            | (GlareQueued, Works) \<Rightarrow> admits opt p (ng_ticket (dl_negotiation d)) (AtGlare p did nid) (move d AdmittingGlare)
            | (RollingBack, Works) \<Rightarrow> after_rollback opt mt p did nid d s
            | (InstallingOffer, Works) \<Rightarrow> move d CreatingAnswer
            | (CreatingAnswer, Works) \<Rightarrow> move d LocalAnswer
            | (LocalAnswer, Works) \<Rightarrow> move d GatheringAnswer
            | (GatheringAnswer, Works) \<Rightarrow> admits opt p (ng_ticket (dl_negotiation d)) (AtReply p did nid)
                (put_dial p (set_phase AdmittingAnswer d) (member_emit [Described p] s))
            | (GatheringAnswer, NotReady none_found) \<Rightarrow> fail_dial opt now p did FailedDial 0 none_found (member_emit [Described p] s)
            | (ph, Throws) \<Rightarrow>
                if ph \<in> {CreatingOffer, LocalOffer, GatheringOffer, RollingBack, InstallingOffer, CreatingAnswer, LocalAnswer, GatheringAnswer}
                then fail_dial opt now p did FailedDial 0 False s else s
            | _ \<Rightarrow> s)))"

text \<open>After the last admission of an offer: it is sent.\<close>

definition offer_ready :: "member_options \<Rightarrow> moment \<Rightarrow> string \<Rightarrow> nat \<Rightarrow> nat \<Rightarrow> bool \<Rightarrow> membership \<Rightarrow> membership" where
  "offer_ready opt mt p did nid ok s =
     (if \<not> ok then fail_current opt (mt_now mt) p did nid False s
      else (case current_negotiation (mt_now mt) p did nid s of
          None \<Rightarrow> s
        | Some d \<Rightarrow>
            if ng_phase (dl_negotiation d) \<noteq> AdmittingOffer then s
            else (let (sent, s1) = send_swarm_signal mt p ''offer'' (dl_request d) (put_dial p (set_phase OfferSent d) s)
             in if sent then s1 else fail_dial opt (mt_now mt) p did FailedDial 0 False s1)))"

definition glare_admitted :: "member_options \<Rightarrow> moment \<Rightarrow> string \<Rightarrow> nat \<Rightarrow> nat \<Rightarrow> bool \<Rightarrow> membership \<Rightarrow> membership" where
  "glare_admitted opt mt p did nid ok s =
     (if \<not> ok then fail_current opt (mt_now mt) p did nid False s
      else (case current_negotiation (mt_now mt) p did nid s of
          None \<Rightarrow> s
        | Some d \<Rightarrow>
            if ng_phase (dl_negotiation d) \<noteq> AdmittingGlare then s
            else if peer_count s > mo_max_peers opt \<or> \<not> usable mt then fail_dial opt (mt_now mt) p did FailedDial 0 False s
            else if mt_signalling mt = ''have-local-offer'' then put_dial p (set_phase RollingBack d) s
            else after_rollback opt mt p did nid d s))"

definition rollback_admitted :: "member_options \<Rightarrow> moment \<Rightarrow> string \<Rightarrow> nat \<Rightarrow> nat \<Rightarrow> bool \<Rightarrow> membership \<Rightarrow> membership" where
  "rollback_admitted opt mt p did nid ok s =
     (if \<not> ok then fail_current opt (mt_now mt) p did nid False s
      else (case current_negotiation (mt_now mt) p did nid s of
          None \<Rightarrow> s
        | Some d \<Rightarrow>
            if ng_phase (dl_negotiation d) \<noteq> AdmittingRollback then s
            else if peer_count s > mo_max_peers opt \<or> mt_signalling mt \<noteq> ''stable'' \<or> \<not> usable mt
            then fail_dial opt (mt_now mt) p did FailedDial 0 False s
            else put_dial p (set_phase InstallingOffer d) s))"

text \<open>After the last admission of an answer: it is sent, and the dial may become a link.\<close>

definition answer_ready :: "member_options \<Rightarrow> moment \<Rightarrow> string \<Rightarrow> nat \<Rightarrow> nat \<Rightarrow> bool \<Rightarrow> membership \<Rightarrow> membership" where
  "answer_ready opt mt p did nid ok s =
     (if \<not> ok then fail_current opt (mt_now mt) p did nid False s
      else (case current_negotiation (mt_now mt) p did nid s of
          None \<Rightarrow> s
        | Some d \<Rightarrow>
            if ng_phase (dl_negotiation d) \<noteq> AdmittingAnswer then s
            else (let (sent, s1) = send_swarm_signal mt p ''answer'' (dl_request d) (put_dial p (set_phase Answered d) s)
             in if sent then ready_dial (mt_now mt) p did nid (signal_framing p (ng_obj (dl_negotiation d)) s1)
                else fail_dial opt (mt_now mt) p did FailedDial 0 False s1)))"

subsection \<open>Continuations, timers and the swarm's own operations\<close>

fun resume :: "member_options \<Rightarrow> moment \<Rightarrow> continuation \<Rightarrow> bool \<Rightarrow> membership \<Rightarrow> membership" where
  "resume opt mt (AtPresence p flag) ok s = presence_admitted opt (mt_now mt) p flag ok s"
| "resume opt mt (AtDialStart p disc) ok s = dial_admitted opt (mt_now mt) (mt_request mt) p disc ok s"
| "resume opt mt (AtOffer p did nid) ok s = offer_ready opt mt p did nid ok s"
| "resume opt mt (AtAnswer p did nid request obj) ok s = answer_admitted opt (mt_now mt) p did nid request obj ok s"
| "resume opt mt (AtIncoming p request payload) ok s = offer_admitted opt mt p request payload ok s"
| "resume opt mt (AtGlare p did nid) ok s = glare_admitted opt mt p did nid ok s"
| "resume opt mt (AtRollback p did nid) ok s = rollback_admitted opt mt p did nid ok s"
| "resume opt mt (AtReply p did nid) ok s = answer_ready opt mt p did nid ok s"
| "resume opt mt (AtRefresh p flag) ok s = (if ok then remember_flag (mt_now mt) p flag s else s)"

text \<open>The first of the continuations that can run does.\<close>

definition run_ready :: "member_options \<Rightarrow> moment \<Rightarrow> membership \<Rightarrow> membership" where
  "run_ready opt mt s = (case mb_ready s of [] \<Rightarrow> s | (k, ok) # rest \<Rightarrow> resume opt mt k ok (s\<lparr>mb_ready := rest\<rparr>))"

fun fire :: "member_options \<Rightarrow> int \<Rightarrow> timer \<Rightarrow> membership \<Rightarrow> membership" where
  "fire opt now (DialLater p) s =
     (if has_link s p \<or> has_dial s p \<or> cooling_down now p s then s
      else (let (room, s1) = has_capacity opt now s
            in if \<not> room \<or> \<not> has_outgoing_slot opt s1 then s1 else dial_start opt now p None s1))"
| "fire opt now (RetryAt p delay) s =
     (let cleared = (\<lambda>s. s\<lparr>mb_failures := jdel p (mb_failures s), mb_cooldowns := jdel p (mb_cooldowns s)\<rparr>) in
      if vacancy_reserved now (mb_discovery s) then seek_neighbours opt now (cleared s)
      else if has_link s p \<or> has_dial s p \<or> p \<in> set (mb_banned s) then s
      else (let (room, s1) = has_capacity opt now s in if \<not> room then s1 else dial_start opt now p None (cleared s1)))"

definition fire_timer :: "member_options \<Rightarrow> int \<Rightarrow> nat \<Rightarrow> membership \<Rightarrow> membership" where
  "fire_timer opt now i s =
     (if i < length (mb_timers s)
      then fire opt now (mb_timers s ! i) (s\<lparr>mb_timers := take i (mb_timers s) @ drop (Suc i) (mb_timers s)\<rparr>) else s)"

definition can_take_another_peer :: "member_options \<Rightarrow> int \<Rightarrow> membership \<Rightarrow> bool \<times> membership" where
  "can_take_another_peer opt now s0 =
     (let s = expire_discovery now s0 in
      if vacancy_reserved now (mb_discovery s) then (False, s)
      else (let (room, s1) = has_capacity opt now s
            in (room \<or> length (mb_links s1) \<ge> 2
                  \<and> rotation_choice (mo_rotation opt) (set (mb_banned s1)) (Some (victim_tier opt now s1)) now (map snd (mb_links s1)) \<noteq> None, s1)))"

definition announce_presence_open :: "member_options \<Rightarrow> int \<Rightarrow> membership \<Rightarrow> membership" where
  "announce_presence_open opt now s =
     (if mb_stopped s then s
      else (let (opened, s1) = can_take_another_peer opt now s in member_emit [Announced opened] (s1\<lparr>mb_reannounce := False\<rparr>)))"

definition update_ticket :: "member_options \<Rightarrow> js \<Rightarrow> membership \<Rightarrow> bool \<times> membership" where
  "update_ticket opt ticket s =
     (if mb_stopped s \<or> mb_disabled s \<or> \<not> mo_gated opt \<or> \<not> valid_ticket ticket then (False, s)
      else if mb_ticket s = Some ticket then (True, s)
      else (True, s\<lparr>mb_ticket := Some ticket, mb_reannounce := True\<rparr>))"

fun retry_loop :: "member_options \<Rightarrow> int \<Rightarrow> (string \<times> rat) list \<Rightarrow> nat \<times> membership \<Rightarrow> nat \<times> membership" where
  "retry_loop opt now [] r = r"
| "retry_loop opt now ((p, till) # failures) (n, s) =
     (if mb_stopped s \<or> jget (mb_cooldowns s) p \<noteq> Some till \<or> has_link s p \<or> has_dial s p \<or> p \<in> set (mb_dial_checks s)
         \<or> p \<in> set (mb_banned s) \<or> suppresses now p (mb_discovery s) then retry_loop opt now failures (n, s)
      else (let (room, s1) = has_capacity opt now s in
        if \<not> room \<or> \<not> has_outgoing_slot opt s1 then retry_loop opt now failures (n, s1)
        else retry_loop opt now failures
               (Suc n, dial_start opt now p None (s1\<lparr>mb_cooldowns := jdel p (mb_cooldowns s1)\<rparr>))))"

definition retry_local_candidates :: "member_options \<Rightarrow> int \<Rightarrow> membership \<Rightarrow> nat \<times> membership" where
  "retry_local_candidates opt now s =
     (if mb_stopped s \<or> mb_disabled s \<or> mb_pubkey s = [] then (0, s)
      else retry_loop opt now (mb_failures s) (0, s\<lparr>mb_failures := []\<rparr>))"

definition host_stop :: "int \<Rightarrow> membership \<Rightarrow> membership" where
  "host_stop now s =
     (if mb_stopped s then s
      else (let s0 = s\<lparr>mb_stopped := True, mb_failures := []\<rparr>;
                s1 = (case nd_window (mb_discovery s0) of None \<Rightarrow> s0 | Some w \<Rightarrow> end_discovery now (nw_id w) True s0);
                s2 = s1\<lparr>mb_discovery := nd_clear (mb_discovery s1),
                       mb_ready := mb_ready s1 @ concat (map (\<lambda>c. map (\<lambda>k. (k, False)) (ck_waiters (snd c))) (mb_checks s1)),
                       mb_checks := [], mb_admitted := [], mb_dial_checks := [], mb_timers := [], mb_dials := [], mb_offers := []\<rparr>
            in member_emit (map (LinkDown \<circ> fst) (mb_links s2)) (s2\<lparr>mb_links := []\<rparr>)))"

subsection \<open>Events\<close>

datatype swarm_event =
    PresenceFrom string js
  | SignalFrom string js
  | HostDecides string bool
  | Ready
  | Native string nat nat native
  | AnswerInstalled string nat nat bool
  | ChannelOpens string nat nat
  | DialTimeout string nat
  | WindowTimeout nat
  | TimerFires nat
  | LinkCloses string nat
  | LinkChanges string swarm_link
  | Bans string
  | AnnounceNow
  | NewTicket js
  | LocalCandidates
  | HostStops
  | Discovers nd_call
  | Serving bool "string list" "(string \<times> int) list"

text \<open>
  One event.  \<open>LinkChanges\<close> is anything that a link learns of its peer, \<open>Discovers\<close> a call by the media
  side of the swarm, and \<open>Serving\<close> a change of what this viewer serves, holds and plays.
\<close>

fun swarm_apply :: "member_options \<Rightarrow> moment \<times> swarm_event \<Rightarrow> membership \<Rightarrow> membership" where
  "swarm_apply opt (mt, PresenceFrom p payload) s = on_presence opt mt p payload s"
| "swarm_apply opt (mt, SignalFrom p payload) s = on_signal opt mt p payload s"
| "swarm_apply opt (mt, HostDecides p ok) s = check_settles opt p ok s"
| "swarm_apply opt (mt, Ready) s = run_ready opt mt s"
| "swarm_apply opt (mt, Native p did nid result) s = native_step opt mt p did nid result s"
| "swarm_apply opt (mt, AnswerInstalled p did nid works) s = answer_installed opt (mt_now mt) p did nid works s"
| "swarm_apply opt (mt, ChannelOpens p did nid) s = channel_open (mt_now mt) p did nid s"
| "swarm_apply opt (mt, DialTimeout p did) s = fail_dial opt (mt_now mt) p did TimedOut 0 False s"
| "swarm_apply opt (mt, WindowTimeout w) s = end_discovery (mt_now mt) w True s"
| "swarm_apply opt (mt, TimerFires i) s = fire_timer opt (mt_now mt) i s"
| "swarm_apply opt (mt, LinkCloses p i) s = link_down p i s"
| "swarm_apply opt (mt, LinkChanges p l) s =
     (case jget (mb_links s) p of None \<Rightarrow> s
      | Some old \<Rightarrow> s\<lparr>mb_links := jset p (l\<lparr>sl_id := sl_id old, sl_pubkey := p\<rparr>) (mb_links s)\<rparr>)"
| "swarm_apply opt (mt, Bans p) s = s\<lparr>mb_banned := List.insert p (mb_banned s)\<rparr>"
| "swarm_apply opt (mt, AnnounceNow) s = announce_presence_open opt (mt_now mt) s"
| "swarm_apply opt (mt, NewTicket t) s = snd (update_ticket opt t s)"
| "swarm_apply opt (mt, LocalCandidates) s = snd (retry_local_candidates opt (mt_now mt) s)"
| "swarm_apply opt (mt, HostStops) s = host_stop (mt_now mt) s"
| "swarm_apply opt (mt, Discovers c) s = s\<lparr>mb_discovery := nd_apply (mt_now mt, c) (mb_discovery s)\<rparr>"
| "swarm_apply opt (mt, Serving serving held played) s = s\<lparr>mb_serving := serving, mb_held := held, mb_played := played\<rparr>"

definition swarm_run :: "member_options \<Rightarrow> (moment \<times> swarm_event) list \<Rightarrow> membership \<Rightarrow> membership" where
  "swarm_run opt events s = fold (swarm_apply opt) events s"

definition new_membership :: "string \<Rightarrow> js option \<Rightarrow> membership" where
  "new_membership pubkey ticket = \<lparr>mb_stopped = False, mb_disabled = False, mb_pubkey = pubkey, mb_ticket = ticket, mb_links = [],
     mb_dials = [], mb_dial_checks = [], mb_checks = [], mb_ready = [], mb_admitted = [], mb_cooldowns = [], mb_failures = [],
     mb_retries = [], mb_open_peers = [], mb_offers = [], mb_framing = [], mb_banned = [], mb_timers = [],
     mb_discovery = new_discovery, mb_last_eviction = 0, mb_held = [], mb_serving = False, mb_played = [],
     mb_reannounce = False, mb_next = 0, mb_out = []\<rparr>"

end
