(* ===== verification/Swarm_Membership_Claims.thy ===== *)
theory Swarm_Membership_Claims
  imports Swarm_Signalling
begin

text \<open>
  What a swarm's membership keeps whatever its peers, its host and the network do: the bounds on peers,
  dials and tables, the host's say before a session description leaves, and the spacing of evictions.

  \<open>member_inv\<close> is the conjunction of four invariants over the fields they read; each operation has one
  preservation lemma in \<open>inv_intros\<close>.
\<close>

subsection \<open>Slots and tables\<close>

definition slots :: "member_options \<Rightarrow> (string \<times> swarm_link) list \<Rightarrow> (string \<times> dial) list \<Rightarrow> string list \<Rightarrow> bool" where
  "slots opt links dials checks \<longleftrightarrow> jwf links \<and> jwf dials \<and> (\<forall>p. jget links p = None \<or> jget dials p = None) \<and> (\<forall>p l. jget links p = Some l \<longrightarrow> sl_pubkey l = p)
     \<and> length links + length dials \<le> mo_max_peers opt
     \<and> length (filter (\<lambda>e. dl_outgoing (snd e)) dials) \<le> mo_max_dials opt \<and> length checks \<le> mo_max_dials opt"

definition tables :: "membership \<Rightarrow> bool" where
  "tables s \<longleftrightarrow> length (mb_checks s) \<le> 16 \<and> length (mb_admitted s) \<le> 256 \<and> length (mb_failures s) \<le> 256
     \<and> length (mb_open_peers s) \<le> 64 \<and> length (mb_offers s) \<le> 256 \<and> length (mb_framing s) \<le> 1024"

lemma length_set_bounded: "length m \<le> cap \<Longrightarrow> length (set_bounded cap k v m) \<le> cap"
  using length_jset_le [of k v m] length_jdel_oldest [of "jset k v m"]
  by (auto simp: set_bounded_def Let_def) fastforce

lemma length_jdel_bound: "length m \<le> n \<Longrightarrow> length (jdel k m) \<le> n"
  using length_jdel_le [of k m] by linarith

lemma length_jset_same: "jget m k = Some v \<Longrightarrow> length (jset k w m) = length m"
  by (simp add: length_jset jhas_def)

lemma jwf_length_filter_jset:
  "jwf m \<Longrightarrow> jget m k = Some v \<Longrightarrow> (P w \<longrightarrow> P v) \<Longrightarrow>
     length (filter (\<lambda>e. P (snd e)) (jset k w m)) \<le> length (filter (\<lambda>e. P (snd e)) m)"
  by (induction k w m rule: jset.induct) (auto simp: jget_Cons jwf_def)

lemma length_filter_jset_le: "length (filter P (jset k w m)) \<le> Suc (length (filter P m))"
  by (induction k w m rule: jset.induct) auto

lemma length_filter_jset_not: "\<not> P (k, w) \<Longrightarrow> length (filter P (jset k w m)) \<le> length (filter P m)"
  by (induction k w m rule: jset.induct) auto

lemma length_filter_jdel: "length (filter P (jdel k m)) \<le> length (filter P m)"
  by (simp add: jdel_def filter_filter) (metis (no_types, lifting) filter_filter length_filter_le order_refl filter_cong)

lemma slots_less_dials: "slots opt links dials checks \<Longrightarrow> slots opt links (jdel p dials) checks"
  using length_filter_jdel [of "\<lambda>e. dl_outgoing (snd e)" p dials] length_jdel_le [of p dials]
  unfolding slots_def by (simp del: length_jdel_le)

lemma slots_less_links: "slots opt links dials checks \<Longrightarrow> slots opt (jdel p links) dials checks"
  using length_jdel_le [of p links]
  unfolding slots_def by (simp del: length_jdel_le)

lemma slots_same_dial:
  "slots opt links dials checks \<Longrightarrow> jget dials p = Some d \<Longrightarrow> (dl_outgoing d' \<longrightarrow> dl_outgoing d) \<Longrightarrow>
     slots opt links (jset p d' dials) checks"
  using jwf_length_filter_jset [of dials p d dl_outgoing d']
  unfolding slots_def by (simp add: length_jset_same) (metis option.distinct(1) order_trans)

lemma slots_same_link:
  "slots opt links dials checks \<Longrightarrow> jget links p = Some l \<Longrightarrow> sl_pubkey l' = p \<Longrightarrow> slots opt (jset p l' links) dials checks"
  unfolding slots_def by (simp add: length_jset_same) (metis option.distinct(1))

lemma slots_new_dial:
  assumes "slots opt links dials checks" and "jget links p = None" and "length links + length dials < mo_max_peers opt"
    and "dl_outgoing d \<Longrightarrow> length (filter (\<lambda>e. dl_outgoing (snd e)) dials) < mo_max_dials opt"
  shows "slots opt links (jset p d dials) checks"
proof -
  have "length (filter (\<lambda>e. dl_outgoing (snd e)) (jset p d dials)) \<le> mo_max_dials opt"
  proof (cases "dl_outgoing d")
    case True
    then show ?thesis using assms(4) length_filter_jset_le [of "\<lambda>e. dl_outgoing (snd e)" p d dials] by linarith
  next
    case False
    then have "length (filter (\<lambda>e. dl_outgoing (snd e)) (jset p d dials)) \<le> length (filter (\<lambda>e. dl_outgoing (snd e)) dials)"
      by (intro length_filter_jset_not) simp
    then show ?thesis using assms(1) by (simp add: slots_def)
  qed
  then show ?thesis
    using assms(1-3) length_jset_le [of p d dials] unfolding slots_def by simp
qed

lemma slots_open_link:
  assumes "slots opt links dials checks" and "jget dials p = Some d" and "sl_pubkey l = p"
  shows "slots opt (jset p l links) (jdel p dials) checks"
proof -
  have "jhas dials p" using assms(2) by (simp add: jhas_def)
  then have "length (jdel p dials) < length dials"
    unfolding jhas_iff jdel_def by (auto intro: length_filter_less)
  then show ?thesis
    using slots_less_dials [OF assms(1), of p] assms(1,3) length_jset_le [of p l links]
    unfolding slots_def by simp
qed

lemma slots_checks: "slots opt links dials checks \<Longrightarrow> length checks' \<le> mo_max_dials opt \<Longrightarrow> slots opt links dials checks'"
  by (simp add: slots_def)

subsection \<open>The host's say\<close>

text \<open>
  \<open>vet\<close> follows the events: the peers for which the host accepted a ticket after the newest local
  description was gathered.  \<open>sends_vetted\<close> says that each description went to such a peer.
\<close>

definition vet :: "member_event \<Rightarrow> string set \<Rightarrow> string set" where
  "vet e A = (case e of HostSaid p t ok \<Rightarrow> if ok then insert p A else A | Described p \<Rightarrow> A - {p} | _ \<Rightarrow> A)"

definition discloses :: "member_event \<Rightarrow> string option" where
  "discloses e = (case e of SentSignal p kind request \<Rightarrow> if kind \<in> {''offer'', ''answer''} then Some p else None | _ \<Rightarrow> None)"

fun sends_vetted :: "string set \<Rightarrow> member_event list \<Rightarrow> bool" where
  "sends_vetted A [] = True"
| "sends_vetted A (e # es) = ((case discloses e of None \<Rightarrow> True | Some p \<Rightarrow> p \<in> A) \<and> sends_vetted (vet e A) es)"

lemma sends_vetted_append: "sends_vetted A (xs @ ys) \<longleftrightarrow> sends_vetted A xs \<and> sends_vetted (fold vet xs A) ys"
  by (induction xs arbitrary: A) auto

definition quiet :: "member_event \<Rightarrow> bool" where
  "quiet e \<longleftrightarrow> discloses e = None \<and> (\<forall>A. vet e A = A)"

lemma fold_vet_quiet: "\<forall>e \<in> set es. quiet e \<Longrightarrow> fold vet es A = A"
  by (induction es) (auto simp: quiet_def)

lemma sends_vetted_quiet: "\<forall>e \<in> set es. quiet e \<Longrightarrow> sends_vetted A es"
  by (induction es arbitrary: A) (auto simp: quiet_def)

fun cont_peer :: "continuation \<Rightarrow> string" where
  "cont_peer (AtPresence p _) = p" | "cont_peer (AtDialStart p _) = p" | "cont_peer (AtOffer p _ _) = p"
| "cont_peer (AtAnswer p _ _ _ _) = p" | "cont_peer (AtIncoming p _ _) = p" | "cont_peer (AtGlare p _ _) = p"
| "cont_peer (AtRollback p _ _) = p" | "cont_peer (AtReply p _ _) = p" | "cont_peer (AtRefresh p _) = p"

text \<open>The continuations after which a description is sent, and for which negotiation.\<close>

fun sender :: "continuation \<Rightarrow> nat option" where
  "sender (AtOffer p _ nid) = Some nid" | "sender (AtReply p _ nid) = Some nid" | "sender k = None"

definition described :: "phase \<Rightarrow> bool" where
  "described ph \<longleftrightarrow> ph \<in> {AdmittingOffer, OfferSent, AdmittingAnswer, Answered}"

definition cont_ok :: "(string \<times> dial) list \<Rightarrow> nat \<Rightarrow> continuation \<Rightarrow> bool" where
  "cont_ok dials n k \<longleftrightarrow> (\<forall>nid. sender k = Some nid \<longrightarrow> nid < n
     \<and> (\<forall>d. jget dials (cont_peer k) = Some d \<longrightarrow> ng_id (dl_negotiation d) = nid \<longrightarrow> described (ng_phase (dl_negotiation d))))"

definition due :: "(string \<times> dial) list \<Rightarrow> continuation \<Rightarrow> bool" where
  "due dials k \<longleftrightarrow> (\<exists>d. jget dials (cont_peer k) = Some d \<and> sender k = Some (ng_id (dl_negotiation d)))"

definition gate :: "(string \<times> check) list \<Rightarrow> (continuation \<times> bool) list \<Rightarrow> (string \<times> dial) list \<Rightarrow> nat \<Rightarrow> member_event list \<Rightarrow> bool" where
  "gate checks ready dials n out \<longleftrightarrow>
     (\<forall>p c. (p, c) \<in> set checks \<longrightarrow> (\<forall>k \<in> set (ck_waiters c). cont_peer k = p \<and> cont_ok dials n k))
     \<and> (\<forall>k ok. (k, ok) \<in> set ready \<longrightarrow> cont_ok dials n k \<and> (ok \<longrightarrow> due dials k \<longrightarrow> cont_peer k \<in> fold vet out {}))
     \<and> (\<forall>p d. jget dials p = Some d \<longrightarrow> ng_id (dl_negotiation d) < n) \<and> sends_vetted {} out"

lemma cont_ok_less: "cont_ok dials n k \<Longrightarrow> cont_ok (jdel p dials) n k"
  by (simp add: cont_ok_def)

lemma cont_ok_later: "cont_ok dials n k \<Longrightarrow> n \<le> m \<Longrightarrow> cont_ok dials m k"
  by (auto simp: cont_ok_def)

lemma due_less: "due (jdel p dials) k \<Longrightarrow> due dials k"
  by (auto simp: due_def split: if_splits)

lemma gate_less_dials: "gate checks ready dials n out \<Longrightarrow> gate checks ready (jdel p dials) n out"
  unfolding gate_def by (auto simp: cont_ok_less dest: due_less)

lemma gate_later: "gate checks ready dials n out \<Longrightarrow> n \<le> m \<Longrightarrow> gate checks ready dials m out"
  unfolding gate_def by (meson cont_ok_later order.strict_trans2)

text \<open>A dial keeps its negotiation, which does not lose its description.\<close>

definition same_negotiation :: "dial \<Rightarrow> dial \<Rightarrow> bool" where
  "same_negotiation d d' \<longleftrightarrow> ng_id (dl_negotiation d') = ng_id (dl_negotiation d)
     \<and> (described (ng_phase (dl_negotiation d)) \<longrightarrow> described (ng_phase (dl_negotiation d')))"

lemma gate_same_dial:
  assumes "gate checks ready dials n out" and "jget dials p = Some d" and "same_negotiation d d'"
  shows "gate checks ready (jset p d' dials) n out"
proof -
  have "cont_ok dials n k \<Longrightarrow> cont_ok (jset p d' dials) n k" for k
    using assms(2,3) by (auto simp: cont_ok_def same_negotiation_def)
  moreover have "due (jset p d' dials) k \<Longrightarrow> due dials k" for k
    using assms(2,3) by (auto simp: due_def same_negotiation_def split: if_splits)
  ultimately show ?thesis
    using assms unfolding gate_def by (auto simp: same_negotiation_def split: if_splits)
qed

text \<open>A fresh negotiation, on a new dial or an old one.\<close>

lemma gate_new_negotiation:
  assumes "gate checks ready dials n out" and "n \<le> ng_id (dl_negotiation d)" and "ng_id (dl_negotiation d) < m"
  shows "gate checks ready (jset p d dials) m out"
proof -
  have "cont_ok dials n k \<Longrightarrow> cont_ok (jset p d dials) m k" for k
    using assms(2,3) by (fastforce simp: cont_ok_def)
  moreover have "cont_ok dials n k \<Longrightarrow> due (jset p d dials) k \<Longrightarrow> due dials k" for k
    using assms(2,3) by (auto simp: due_def cont_ok_def split: if_splits)
  ultimately show ?thesis
    using assms unfolding gate_def by simp (meson order.strict_trans order.strict_trans1)
qed

lemma gate_quiet: "gate checks ready dials n out \<Longrightarrow> \<forall>e \<in> set es. quiet e \<Longrightarrow> gate checks ready dials n (out @ es)"
  by (simp add: gate_def sends_vetted_append fold_vet_quiet sends_vetted_quiet)

lemma gate_described:
  assumes "gate checks ready dials n out" and "jget dials p = Some d" and "\<not> described (ng_phase (dl_negotiation d))"
  shows "gate checks ready dials n (out @ [Described p])"
proof -
  have "cont_peer k \<noteq> p" if "cont_ok dials n k" and "due dials k" for k
    using that assms(2,3) by (auto simp: cont_ok_def due_def)
  then show ?thesis
    using assms(1) unfolding gate_def by (auto simp: sends_vetted_append vet_def discloses_def)
qed

lemma gate_sent:
  assumes "gate checks ready dials n out" and "p \<in> fold vet out {}"
  shows "gate checks ready dials n (out @ [SentSignal p kind request])"
  using assms unfolding gate_def by (auto simp: sends_vetted_append vet_def discloses_def)

lemma gate_verdict:
  assumes "gate checks ready dials n out" and "jget checks p = Some c"
  shows "gate (jdel p checks) (ready @ map (\<lambda>k. (k, ok)) (ck_waiters c)) dials n (out @ [HostSaid p t ok])"
  using assms jget_in [OF assms(2)] set_jdel_subset [of p checks]
  unfolding gate_def by (auto simp: sends_vetted_append vet_def discloses_def)

lemma gate_answer: "gate checks ready dials n out \<Longrightarrow> cont_ok dials n k \<Longrightarrow> gate checks (ready @ [(k, False)]) dials n out"
  by (auto simp: gate_def)

lemma gate_waits:
  assumes "gate checks ready dials n out" and "cont_ok dials n k" and "cont_peer k = p"
    and "set (ck_waiters c) \<subseteq> {k} \<union> (case jget checks p of None \<Rightarrow> {} | Some c0 \<Rightarrow> set (ck_waiters c0))"
  shows "gate (jset p c checks) ready dials n out"
proof -
  have "cont_peer x = p \<and> cont_ok dials n x" if "x \<in> set (ck_waiters c)" for x
    using that assms jget_in [of checks p] unfolding gate_def by (cases "jget checks p") auto
  then show ?thesis
    using assms(1) set_jset_subset [of p c checks] unfolding gate_def by blast
qed

lemma gate_ready_subset: "gate checks ready dials n out \<Longrightarrow> set ready' \<subseteq> set ready \<Longrightarrow> gate checks ready' dials n out"
  unfolding gate_def by blast

subsection \<open>Evictions\<close>

definition eviction_times :: "member_event list \<Rightarrow> int list" where
  "eviction_times es = concat (map (\<lambda>e. case e of Evicted p t \<Rightarrow> [t] | _ \<Rightarrow> []) es)"

definition evictions_apart :: "int \<Rightarrow> int \<Rightarrow> member_event list \<Rightarrow> bool" where
  "evictions_apart cooldown latest es \<longleftrightarrow> successively (\<lambda>a b. a + cooldown \<le> b) (eviction_times es)
     \<and> (eviction_times es \<noteq> [] \<longrightarrow> last (eviction_times es) = latest)"

lemma eviction_times_append: "eviction_times (es @ es') = eviction_times es @ eviction_times es'"
  by (simp add: eviction_times_def)

lemma evictions_apart_more: "evictions_apart cooldown latest es \<Longrightarrow> eviction_times es' = [] \<Longrightarrow> evictions_apart cooldown latest (es @ es')"
  by (simp add: evictions_apart_def eviction_times_append)

lemma evictions_apart_evict: "evictions_apart cooldown latest es \<Longrightarrow> cooldown \<le> now - latest \<Longrightarrow> evictions_apart cooldown now (es @ [Evicted p now])"
  by (auto simp: evictions_apart_def eviction_times_def successively_append_iff)

subsection \<open>The invariant\<close>

definition member_inv :: "member_options \<Rightarrow> membership \<Rightarrow> bool" where
  "member_inv opt s \<longleftrightarrow> slots opt (mb_links s) (mb_dials s) (mb_dial_checks s) \<and> tables s
     \<and> (mo_gated opt \<longrightarrow> gate (mb_checks s) (mb_ready s) (mb_dials s) (mb_next s) (mb_out s))
     \<and> evictions_apart (ro_eviction_cooldown (mo_rotation opt)) (mb_last_eviction s) (mb_out s)"

lemma member_inv_frame [simp]:
  "member_inv opt (s\<lparr>mb_discovery := d\<rparr>) = member_inv opt s"
  "member_inv opt (s\<lparr>mb_cooldowns := c\<rparr>) = member_inv opt s"
  "member_inv opt (s\<lparr>mb_retries := r\<rparr>) = member_inv opt s"
  "member_inv opt (s\<lparr>mb_timers := t\<rparr>) = member_inv opt s"
  "member_inv opt (s\<lparr>mb_reannounce := b\<rparr>) = member_inv opt s"
  "member_inv opt (s\<lparr>mb_ticket := k\<rparr>) = member_inv opt s"
  "member_inv opt (s\<lparr>mb_banned := p\<rparr>) = member_inv opt s"
  "member_inv opt (s\<lparr>mb_held := h\<rparr>) = member_inv opt s"
  "member_inv opt (s\<lparr>mb_serving := b\<rparr>) = member_inv opt s"
  "member_inv opt (s\<lparr>mb_played := l\<rparr>) = member_inv opt s"
  "member_inv opt (s\<lparr>mb_stopped := b\<rparr>) = member_inv opt s"
  by (simp_all add: member_inv_def tables_def)

lemma inv_failures: "member_inv opt s \<Longrightarrow> length m \<le> 256 \<Longrightarrow> member_inv opt (s\<lparr>mb_failures := m\<rparr>)"
  by (simp add: member_inv_def tables_def)

lemma inv_failures_jdel: "member_inv opt s \<Longrightarrow> member_inv opt (s\<lparr>mb_failures := jdel p (mb_failures s)\<rparr>)"
  by (rule inv_failures) (simp_all add: member_inv_def tables_def length_jdel_bound)

lemma inv_admitted: "member_inv opt s \<Longrightarrow> length m \<le> 256 \<Longrightarrow> member_inv opt (s\<lparr>mb_admitted := m\<rparr>)"
  by (simp add: member_inv_def tables_def)

lemma inv_less_dials: "member_inv opt s \<Longrightarrow> member_inv opt (s\<lparr>mb_dials := jdel p (mb_dials s)\<rparr>)"
  by (simp add: member_inv_def tables_def slots_less_dials gate_less_dials)

lemma inv_put_dial:
  "member_inv opt s \<Longrightarrow> jget (mb_dials s) p = Some d \<Longrightarrow> same_negotiation d d' \<Longrightarrow> (dl_outgoing d' \<longrightarrow> dl_outgoing d) \<Longrightarrow>
     member_inv opt (put_dial p d' s)"
  by (simp add: member_inv_def tables_def put_dial_def slots_same_dial gate_same_dial)

lemma inv_emit:
  "member_inv opt s \<Longrightarrow> \<forall>e \<in> set es. quiet e \<Longrightarrow> eviction_times es = [] \<Longrightarrow> member_inv opt (member_emit es s)"
  by (simp add: member_inv_def tables_def member_emit_def gate_quiet evictions_apart_more)

lemma quiet_events [simp]:
  "quiet (AskedHost p t)" "quiet (Evicted p n)" "quiet (LinkUp p)" "quiet (LinkDown p)" "quiet (DialEnded p r)"
  "quiet (RefusalSent p w ps)" "quiet (Announced b)" "quiet (SentSignal p ''reject'' request)"
  by (simp_all add: quiet_def vet_def discloses_def)

lemma eviction_times_none [simp]:
  "eviction_times [] = []" "eviction_times (AskedHost p t # es) = eviction_times es"
  "eviction_times (HostSaid p t ok # es) = eviction_times es" "eviction_times (SentSignal p k r # es) = eviction_times es"
  "eviction_times (LinkUp p # es) = eviction_times es" "eviction_times (LinkDown p # es) = eviction_times es"
  "eviction_times (DialEnded p x # es) = eviction_times es" "eviction_times (RefusalSent p w ps # es) = eviction_times es"
  "eviction_times (Announced b # es) = eviction_times es" "eviction_times (Described p # es) = eviction_times es"
  by (simp_all add: eviction_times_def)

lemma inv_set_cooldown: "member_inv opt s \<Longrightarrow> member_inv opt (set_cooldown p till s)"
  by (simp add: set_cooldown_def inv_failures_jdel)

lemma inv_remember_open: "member_inv opt s \<Longrightarrow> member_inv opt (remember_open now p b s)"
  by (simp add: member_inv_def tables_def remember_open_def length_set_bounded)

lemma inv_remember_flag: "member_inv opt s \<Longrightarrow> member_inv opt (remember_flag now p flag s)"
  by (simp add: remember_flag_def inv_remember_open split: option.split)

subsection \<open>Ending dials, windows and links\<close>

lemma inv_drop_dial: "member_inv opt s \<Longrightarrow> member_inv opt (snd (drop_dial now p did reason cooldown lc s))"
proof -
  assume inv: "member_inv opt s"
  have s1: "member_inv opt (member_emit [DialEnded p r]
      (s\<lparr>mb_failures := jdel p (mb_failures s), mb_dials := jdel p (mb_dials s), mb_discovery := nd_failed did (mb_discovery s)\<rparr>))" for r
    using inv_less_dials [OF inv_failures_jdel [OF inv, of p], of p] by (intro inv_emit) simp_all
  have "member_inv opt (t\<lparr>mb_failures := set_bounded 256 p till (mb_failures t)\<rparr>)" if "member_inv opt t" for t till
    using that by (intro inv_failures) (simp_all add: member_inv_def tables_def length_set_bounded)
  then show ?thesis
    using inv s1 by (simp add: drop_dial_def Let_def inv_set_cooldown split: option.split)
qed

lemma inv_end_discovery: "member_inv opt s \<Longrightarrow> member_inv opt (end_discovery now w b s)"
proof -
  assume inv: "member_inv opt s"
  have "member_inv opt (s\<lparr>mb_discovery := x, mb_dials := jset p (d\<lparr>dl_discovery := None\<rparr>) (mb_dials s)\<rparr>)"
    if "jget (mb_dials s) p = Some d" for p d x
    using inv_put_dial [OF inv that, of "d\<lparr>dl_discovery := None\<rparr>"]
    by (simp add: put_dial_def same_negotiation_def member_inv_def tables_def)
  then show ?thesis
    using inv by (auto simp: end_discovery_def Let_def inv_drop_dial split: option.split)
qed

lemma inv_expire: "member_inv opt s \<Longrightarrow> member_inv opt (expire_discovery now s)"
  by (simp add: expire_discovery_def inv_end_discovery split: option.split)

lemma inv_has_capacity: "member_inv opt s \<Longrightarrow> member_inv opt (snd (has_capacity o2 now s))"
  by (simp add: has_capacity_def Let_def inv_expire)

lemma inv_link_down: "member_inv opt s \<Longrightarrow> member_inv opt (link_down p i s)"
proof -
  assume inv: "member_inv opt s"
  then have "member_inv opt (s\<lparr>mb_links := jdel p (mb_links s)\<rparr>)"
    by (simp add: member_inv_def tables_def slots_less_links)
  then show ?thesis
    using inv by (auto simp: link_down_def intro!: inv_emit split: option.split)
qed

subsection \<open>What ending a window leaves\<close>

lemma jdel_jset: "jdel p (jset p v m) = jdel p m"
  by (induction p v m rule: jset.induct) (auto simp: jdel_def)

lemma drop_dial_fields [simp]:
  "mb_links (snd (drop_dial now p did r c lc s)) = mb_links s"
  "mb_dial_checks (snd (drop_dial now p did r c lc s)) = mb_dial_checks s"
  "mb_stopped (snd (drop_dial now p did r c lc s)) = mb_stopped s"
  "mb_next (snd (drop_dial now p did r c lc s)) = mb_next s"
  by (simp_all add: drop_dial_def Let_def member_emit_def set_cooldown_def split: option.split)

lemma drop_dial_dials: "mb_dials (snd (drop_dial now p did r c lc s)) \<in> {mb_dials s, jdel p (mb_dials s)}"
  by (simp add: drop_dial_def Let_def member_emit_def set_cooldown_def split: option.split)

lemma end_discovery_fields [simp]:
  "mb_links (end_discovery now w b s) = mb_links s" "mb_dial_checks (end_discovery now w b s) = mb_dial_checks s"
  "mb_stopped (end_discovery now w b s) = mb_stopped s" "mb_next (end_discovery now w b s) = mb_next s"
  by (simp_all add: end_discovery_def Let_def split: option.split)

lemma end_discovery_keeps [simp]: "mb_dials (end_discovery now w False s) = mb_dials s"
  by (simp add: end_discovery_def Let_def split: option.split)

lemma end_discovery_dials: "\<exists>p. mb_dials (end_discovery now w b s) \<in> {mb_dials s, jdel p (mb_dials s)}"
proof -
  have "mb_dials (snd (drop_dial now q (dl_id d) Superseded 0 False
      (s\<lparr>mb_discovery := x, mb_dials := jset q (d\<lparr>dl_discovery := None\<rparr>) (mb_dials s)\<rparr>))) = jdel q (mb_dials s)" for q d x
    by (simp add: drop_dial_def Let_def member_emit_def jdel_jset)
  then show ?thesis by (auto simp: end_discovery_def Let_def split: option.split)
qed

lemma expire_fields [simp]:
  "mb_links (expire_discovery now s) = mb_links s" "mb_dial_checks (expire_discovery now s) = mb_dial_checks s"
  "mb_stopped (expire_discovery now s) = mb_stopped s" "mb_next (expire_discovery now s) = mb_next s"
  by (simp_all add: expire_discovery_def split: option.split)

lemma expire_dials: "\<exists>p. mb_dials (expire_discovery now s) \<in> {mb_dials s, jdel p (mb_dials s)}"
  using end_discovery_dials by (auto simp: expire_discovery_def split: option.split)

lemma outgoing_expire: "outgoing_dials (expire_discovery now s) \<le> outgoing_dials s"
proof -
  obtain p where "mb_dials (expire_discovery now s) \<in> {mb_dials s, jdel p (mb_dials s)}" using expire_dials by blast
  then show ?thesis
    using length_filter_jdel [of "\<lambda>e. dl_outgoing (snd e)" p "mb_dials s"] by (auto simp: outgoing_dials_def)
qed

lemma has_capacity_fields [simp]:
  "mb_links (snd (has_capacity opt now s)) = mb_links s" "mb_dial_checks (snd (has_capacity opt now s)) = mb_dial_checks s"
  "mb_stopped (snd (has_capacity opt now s)) = mb_stopped s" "mb_next (snd (has_capacity opt now s)) = mb_next s"
  by (simp_all add: has_capacity_def Let_def)

lemma has_capacity_room:
  assumes "has_capacity opt now s = (room, s1)"
  shows "room \<Longrightarrow> peer_count s1 < mo_max_peers opt" and "outgoing_dials s1 \<le> outgoing_dials s"
  using assms outgoing_expire [of now s] by (auto simp: has_capacity_def Let_def split: if_splits)

lemma has_capacityI [inv_intros]: "has_capacity o2 now s = (room, s1) \<Longrightarrow> member_inv opt s \<Longrightarrow> member_inv opt s1"
  using inv_has_capacity [of opt s o2 now] by simp

subsection \<open>Admission\<close>

lemma inv_admits:
  assumes "member_inv opt s" and "mo_gated opt \<Longrightarrow> cont_ok (mb_dials s) (mb_next s) k" and "cont_peer k = p"
  shows "member_inv opt (admits opt p t k s)"
proof -
  have answer: "member_inv opt (s\<lparr>mb_ready := mb_ready s @ [(k, ok)]\<rparr>)" if "mo_gated opt \<Longrightarrow> \<not> ok" for ok
    using assms that by (cases "mo_gated opt") (auto simp: member_inv_def tables_def gate_answer)
  have waits: "member_inv opt (s\<lparr>mb_checks := jset p (c\<lparr>ck_waiters := ck_waiters c @ [k]\<rparr>) (mb_checks s)\<rparr>)"
    if "jget (mb_checks s) p = Some c" for c
    using assms that
    by (auto simp: member_inv_def tables_def length_jset_same intro!: gate_waits)
  have asks: "member_inv opt (member_emit [AskedHost p x] (s\<lparr>mb_checks := jset p \<lparr>ck_ticket = x, ck_waiters = [k], ck_latest = None\<rparr> (mb_checks s)\<rparr>))"
    if "jget (mb_checks s) p = None" "length (mb_checks s) < 16" for x
  proof (rule inv_emit)
    show "member_inv opt (s\<lparr>mb_checks := jset p \<lparr>ck_ticket = x, ck_waiters = [k], ck_latest = None\<rparr> (mb_checks s)\<rparr>)"
      using assms that length_jset_le [of p "\<lparr>ck_ticket = x, ck_waiters = [k], ck_latest = None\<rparr>" "mb_checks s"]
      by (auto simp: member_inv_def tables_def intro!: gate_waits)
  qed simp_all
  show ?thesis
    using assms(1) answer [of False] answer [of True] waits asks
    by (cases "mo_gated opt") (simp_all add: admits_def Let_def split: option.split)
qed

lemma cont_ok_other [simp]: "sender k = None \<Longrightarrow> cont_ok dials n k"
  by (simp add: cont_ok_def)

lemma inv_remember_admission: "member_inv opt s \<Longrightarrow> member_inv opt (remember_admission p t ok s)"
proof -
  assume inv: "member_inv opt s"
  then have "length (mb_admitted s) \<le> 256" by (simp add: member_inv_def tables_def)
  then show ?thesis
    using inv unfolding remember_admission_def Let_def
    by (auto intro!: inv_admitted length_set_bounded length_jdel_bound simp: length_jset_same split: option.split)
qed

lemma remember_admission_fields [simp]:
  "mb_checks (remember_admission p t ok s) = mb_checks s" "mb_ready (remember_admission p t ok s) = mb_ready s"
  "mb_dials (remember_admission p t ok s) = mb_dials s" "mb_next (remember_admission p t ok s) = mb_next s"
  "mb_out (remember_admission p t ok s) = mb_out s"
  by (simp_all add: remember_admission_def Let_def split: option.split)

lemma inv_check_settles: "member_inv opt s \<Longrightarrow> member_inv opt (check_settles opt p ok s)"
proof -
  assume inv: "member_inv opt s"
  have "member_inv opt (t\<lparr>mb_checks := jdel p (mb_checks t), mb_ready := mb_ready t @ map (\<lambda>k. (k, ok)) (ck_waiters c)\<rparr>)"
    if c: "jget (mb_checks s) p = Some c" and t: "t = member_emit [HostSaid p (ck_ticket c) ok] (remember_admission p (ck_ticket c) ok s)"
    for t c
    using inv_remember_admission [OF inv, of p "ck_ticket c" ok] gate_verdict [OF _ c]
    unfolding t by (simp add: member_inv_def tables_def member_emit_def length_jdel_bound evictions_apart_more)
  then show ?thesis
    using inv by (auto simp: check_settles_def Let_def intro!: inv_admits split: option.split)
qed

subsection \<open>Dialling\<close>

lemma inv_abandon_attempt: "member_inv opt s \<Longrightarrow> member_inv opt (abandon_attempt disc s)"
  by (simp add: abandon_attempt_def split: option.split)

lemma inv_dial_start: "member_inv opt s \<Longrightarrow> member_inv opt (dial_start opt now p disc s)"
proof -
  assume inv: "member_inv opt s"
  have start: "member_inv opt (admits opt p x (AtDialStart p disc)
      (t\<lparr>mb_failures := jdel p (mb_failures t), mb_dial_checks := mb_dial_checks t @ [p]\<rparr>))"
    if "member_inv opt t" "has_outgoing_slot opt t" for t x
  proof (rule inv_admits)
    show "member_inv opt (t\<lparr>mb_failures := jdel p (mb_failures t), mb_dial_checks := mb_dial_checks t @ [p]\<rparr>)"
      using inv_failures_jdel [OF that(1), of p] that(2)
      by (auto simp: member_inv_def tables_def has_outgoing_slot_def intro: slots_checks)
  qed simp_all
  show ?thesis
    using inv start by (cases "has_capacity opt now s")
      (auto simp: dial_start_def Let_def inv_abandon_attempt has_capacityI split: option.split)
qed

lemma inv_fold:
  assumes "member_inv opt s" and "\<And>x s. member_inv opt s \<Longrightarrow> member_inv opt (f x s)"
  shows "member_inv opt (fold f xs s)"
  using assms(1) by (induction xs arbitrary: s) (simp_all add: assms(2))

lemma inv_rearm_all: "member_inv opt s \<Longrightarrow> member_inv opt (rearm_all now s)"
  unfolding rearm_all_def by (rule inv_fold) simp_all

lemma inv_seek: "member_inv opt s \<Longrightarrow> member_inv opt (seek_neighbours opt now s)"
  by (auto simp: seek_neighbours_def Let_def inv_expire inv_rearm_all inv_dial_start split: prod.split option.split)

lemma inv_fail_dial: "member_inv opt s \<Longrightarrow> member_inv opt (fail_dial opt now p did r c lc s)"
  using inv_drop_dial [of opt s now p did r c lc] by (auto simp: fail_dial_def inv_seek split: prod.split)

lemma inv_close_victim:
  assumes "member_inv opt s" and "ro_eviction_cooldown (mo_rotation opt) \<le> now - mb_last_eviction s"
  shows "member_inv opt (close_victim now l s)"
  unfolding close_victim_def
proof (rule inv_link_down)
  show "member_inv opt (member_emit [Evicted (sl_pubkey l) now] (s\<lparr>mb_last_eviction := now\<rparr>))"
    using assms gate_quiet [of _ _ _ _ _ "[Evicted (sl_pubkey l) now]"] evictions_apart_evict [of _ "mb_last_eviction s" "mb_out s" now "sl_pubkey l"]
    by (simp add: member_inv_def tables_def member_emit_def)
qed

subsection \<open>Evicting and opening\<close>

lemma rotation_loop_in:
  "rotation_loop opt banned tier tm links worst = Some (l, t) \<Longrightarrow> l \<in> set links \<or> (\<exists>r. worst = Some (l, r))"
proof (induction links arbitrary: worst)
  case (Cons a links)
  have "\<exists>w. rotation_loop opt banned tier tm (a # links) worst = rotation_loop opt banned tier tm links w
      \<and> (w = worst \<or> (\<exists>r. w = Some (a, r)))"
    by (auto simp: Let_def split: option.split)
  with Cons.prems obtain w where "rotation_loop opt banned tier tm links w = Some (l, t)" "w = worst \<or> (\<exists>r. w = Some (a, r))" by auto
  with Cons.IH [of w] show ?case by auto
qed simp

lemma rotation_choice_in: "rotation_choice opt banned tier tm links = Some (l, t) \<Longrightarrow> l \<in> set links"
  using rotation_loop_in [of opt banned tier tm links None l t] by (simp add: rotation_choice_def)

lemma slots_link_found:
  assumes "slots opt links dials checks" and "l \<in> set (map snd links)"
  shows "jget links (sl_pubkey l) = Some l"
proof -
  obtain p where "(p, l) \<in> set links" using assms(2) by auto
  then have "jget links p = Some l" using assms(1) by (simp add: slots_def jwf_def jget_def)
  then show ?thesis using assms(1) by (auto simp: slots_def)
qed

text \<open>A rotated link is gone, and its slot is free.\<close>

lemma close_victim_frees:
  assumes "slots opt (mb_links s) (mb_dials s) (mb_dial_checks s)" and "l \<in> set (map snd (mb_links s))"
  shows "peer_count (close_victim now l s) < peer_count s" and "outgoing_dials (close_victim now l s) = outgoing_dials s"
    and "jget (mb_links s) p = None \<Longrightarrow> jget (mb_links (close_victim now l s)) p = None"
    and "mb_dials (close_victim now l s) = mb_dials s"
proof -
  have found: "jget (mb_links s) (sl_pubkey l) = Some l" using assms by (rule slots_link_found)
  then have "jhas (mb_links s) (sl_pubkey l)" by (simp add: jhas_def)
  then have "length (jdel (sl_pubkey l) (mb_links s)) < length (mb_links s)"
    unfolding jhas_iff jdel_def by (auto intro: length_filter_less)
  then show "peer_count (close_victim now l s) < peer_count s" and "outgoing_dials (close_victim now l s) = outgoing_dials s"
    and "jget (mb_links s) p = None \<Longrightarrow> jget (mb_links (close_victim now l s)) p = None"
    and "mb_dials (close_victim now l s) = mb_dials s"
    using found by (simp_all add: close_victim_def link_down_def member_emit_def peer_count_def outgoing_dials_def)
qed

lemma inv_open_dial:
  assumes "member_inv opt s" and "jget (mb_links s) p = None" and "peer_count s < mo_max_peers opt"
    and "outgoing_dials s < mo_max_dials opt"
  shows "member_inv opt (with_request p request (open_dial p disc s))"
proof -
  have opened: "member_inv opt (open_dial p disc s)"
    using assms length_jdel_bound [of "mb_failures s" 256 p] unfolding member_inv_def tables_def open_dial_def Let_def
    by (auto simp: peer_count_def outgoing_dials_def intro!: slots_new_dial gate_new_negotiation)
  show ?thesis
  proof (cases "jget (mb_dials (open_dial p disc s)) p")
    case (Some d)
    with inv_put_dial [OF opened Some, of "d\<lparr>dl_request := request\<rparr>"] show ?thesis
      by (simp add: with_request_def put_dial_def same_negotiation_def)
  qed (use opened in \<open>simp add: with_request_def\<close>)
qed

lemma discovery_victim_in:
  assumes "discovery_victim opt now s c = Some (l, t)"
  shows "l \<in> set (map snd (mb_links s))" and "ro_eviction_cooldown (mo_rotation opt) \<le> now - mb_last_eviction s"
  using assms rotation_choice_in unfolding discovery_victim_def by (fastforce simp: Let_def split: if_splits)+

lemma inv_replace:
  assumes inv: "member_inv opt s" and victim: "discovery_victim opt now s c = Some (l, t)"
    and p: "jget (mb_links s) p = None" and room: "outgoing_dials s < mo_max_dials opt"
  shows "member_inv opt (with_request p request (open_dial p disc
    (close_victim now l (set_cooldown q till (s\<lparr>mb_discovery := d\<rparr>)))))"
proof -
  define u where "u = set_cooldown q till (s\<lparr>mb_discovery := d\<rparr>)"
  have u: "member_inv opt u" using inv by (simp add: u_def inv_set_cooldown)
  have fields: "mb_links u = mb_links s" "mb_dials u = mb_dials s" "mb_last_eviction u = mb_last_eviction s"
    by (simp_all add: u_def set_cooldown_def)
  have su: "slots opt (mb_links u) (mb_dials u) (mb_dial_checks u)" using u by (simp add: member_inv_def)
  have l: "l \<in> set (map snd (mb_links u))" using discovery_victim_in(1) [OF victim] fields by simp
  have "peer_count u \<le> mo_max_peers opt" using su by (simp add: slots_def peer_count_def)
  then have "peer_count (close_victim now l u) < mo_max_peers opt" using close_victim_frees(1) [OF su l, of now] by linarith
  moreover have "outgoing_dials (close_victim now l u) < mo_max_dials opt"
    using close_victim_frees(2) [OF su l, of now] room fields by (simp add: outgoing_dials_def)
  moreover have "jget (mb_links (close_victim now l u)) p = None" using close_victim_frees(3) [OF su l] p fields by simp
  moreover have "member_inv opt (close_victim now l u)"
    using inv_close_victim [OF u] discovery_victim_in(2) [OF victim] fields by simp
  ultimately show ?thesis unfolding u_def [symmetric] by (intro inv_open_dial)
qed

lemma inv_dial_admitted: "member_inv opt s0 \<Longrightarrow> member_inv opt (dial_admitted opt now request p disc ok s0)"
proof -
  assume inv0: "member_inv opt s0"
  define s where "s = s0\<lparr>mb_dial_checks := filter (\<lambda>q. q \<noteq> p) (mb_dial_checks s0)\<rparr>"
  have inv: "member_inv opt s"
    using inv0 length_filter_le [of "\<lambda>q. q \<noteq> p" "mb_dial_checks s0"]
    by (auto simp: s_def member_inv_def tables_def slots_def simp del: length_filter_le intro: order_trans)
  have new: "member_inv opt (with_request p request (open_dial p None s1))"
    if "has_capacity opt now s = (True, s1)" "\<not> has_link s p" "outgoing_dials s < mo_max_dials opt" for s1
    using that inv has_capacity_room [OF that(1)] has_capacity_fields(1) [of opt now s]
    by (intro inv_open_dial) (auto simp: has_link_def jhas_def dest: has_capacityI)
  show ?thesis
    unfolding dial_admitted_def Let_def s_def [symmetric]
    using inv new
    by (auto simp: inv_abandon_attempt inv_set_cooldown has_link_def jhas_def intro!: inv_open_dial inv_replace
        dest: has_capacityI split: option.splits prod.splits if_splits)
qed

subsection \<open>Negotiations\<close>

lemma current_negotiationD:
  assumes "current_negotiation now p did nid s = Some d"
  shows "jget (mb_dials s) p = Some d" and "ng_id (dl_negotiation d) = nid"
  using assms by (auto simp: current_negotiation_def split: if_splits option.splits)

lemma inv_set_phase:
  assumes "member_inv opt s" and "jget (mb_dials s) p = Some d" and "described (ng_phase (dl_negotiation d)) \<Longrightarrow> described ph"
  shows "member_inv opt (put_dial p (set_phase ph d) s)"
  using assms by (intro inv_put_dial [of opt s p d]) (simp_all add: same_negotiation_def set_phase_def)

lemma inv_negotiation_update:
  assumes "member_inv opt s" and "jget (mb_dials s) p = Some d" and "ng_id n = ng_id (dl_negotiation d)"
    and "ng_phase n = ng_phase (dl_negotiation d)"
  shows "member_inv opt (put_dial p (d\<lparr>dl_negotiation := n\<rparr>) s)"
  using assms by (intro inv_put_dial [of opt s p d]) (simp_all add: same_negotiation_def)

lemma inv_framing: "member_inv opt s \<Longrightarrow> member_inv opt (s\<lparr>mb_framing := set_bounded 1024 p v (jdel p (mb_framing s))\<rparr>)"
  by (simp add: member_inv_def tables_def length_set_bounded length_jdel_bound)

lemma inv_signal_framing: "member_inv opt s \<Longrightarrow> member_inv opt (signal_framing p c s)"
  by (simp add: signal_framing_def inv_framing)

lemma inv_link_opened: "member_inv opt s \<Longrightarrow> member_inv opt (link_opened now p did nid s)"
proof (cases "current_negotiation now p did nid s")
  case (Some d)
  assume inv: "member_inv opt s"
  define s2 where "s2 = (case dl_discovery d of None \<Rightarrow> s\<lparr>mb_dials := jdel p (mb_dials s)\<rparr>
    | Some a \<Rightarrow> end_discovery now (na_window a) False (s\<lparr>mb_dials := jdel p (mb_dials s)\<rparr>))"
  have s2: "member_inv opt s2" using inv_less_dials [OF inv, of p] by (simp add: s2_def inv_end_discovery split: option.split)
  have fields: "mb_links s2 = mb_links s" "mb_dials s2 = jdel p (mb_dials s)" "mb_dial_checks s2 = mb_dial_checks s"
    by (simp_all add: s2_def split: option.split)
  have "slots opt (jset p (fresh_link i p now) (mb_links s)) (jdel p (mb_dials s)) (mb_dial_checks s)" for i
    using inv current_negotiationD(1) [OF Some] by (intro slots_open_link) (simp_all add: member_inv_def fresh_link_def)
  then have "member_inv opt (s2\<lparr>mb_links := jset p (fresh_link i p now) (mb_links s2), mb_next := Suc (mb_next s2)\<rparr>)" for i
    using s2 fields gate_later [OF _ le_SucI [OF order_refl]] by (simp add: member_inv_def tables_def)
  then show ?thesis
    using inv Some by (auto simp: link_opened_def Let_def s2_def [symmetric] intro!: inv_emit)
qed (simp add: link_opened_def)

lemma inv_ready_dial: "member_inv opt s \<Longrightarrow> member_inv opt (ready_dial now p did nid s)"
  by (auto simp: ready_dial_def Let_def intro!: inv_link_opened inv_negotiation_update dest: current_negotiationD split: option.split)

lemma inv_channel_open: "member_inv opt s \<Longrightarrow> member_inv opt (channel_open now p did nid s)"
  by (auto simp: channel_open_def Let_def intro!: inv_link_opened inv_negotiation_update dest: current_negotiationD split: option.split)

text \<open>An incoming offer takes over dial \<open>d\<close>, or opens one where there is room.\<close>

lemma inv_begin_incoming:
  assumes "member_inv opt s" and "jget (mb_dials s) p = Some d \<or> jget (mb_links s) p = None \<and> peer_count s < mo_max_peers opt"
  shows "member_inv opt (begin_incoming now p request t x reuse d s)"
proof -
  define s2 where "s2 = (case dl_discovery d of None \<Rightarrow> s\<lparr>mb_failures := jdel p (mb_failures s)\<rparr>
    | Some a \<Rightarrow> end_discovery now (na_window a) False (s\<lparr>mb_failures := jdel p (mb_failures s)\<rparr>))"
  have s2: "member_inv opt s2"
    using inv_failures_jdel [OF assms(1), of p] by (simp add: s2_def inv_end_discovery split: option.split)
  have fields: "mb_links s2 = mb_links s" "mb_dials s2 = mb_dials s" by (simp_all add: s2_def split: option.split)
  have slots: "slots opt (mb_links s2) (jset p e (mb_dials s2)) (mb_dial_checks s2)" if "\<not> dl_outgoing e" for e
    using assms(2)
  proof
    assume "jget (mb_dials s) p = Some d"
    then show ?thesis using s2 that fields by (intro slots_same_dial [of _ _ _ _ _ d]) (simp_all add: member_inv_def)
  next
    assume "jget (mb_links s) p = None \<and> peer_count s < mo_max_peers opt"
    then show ?thesis using s2 that fields by (intro slots_new_dial) (simp_all add: member_inv_def peer_count_def)
  qed
  show ?thesis
    unfolding begin_incoming_def Let_def s2_def [symmetric]
    using s2 slots by (simp add: member_inv_def tables_def put_dial_def gate_new_negotiation [OF _ order_refl])
qed

lemma inv_admits_other:
  "member_inv opt s \<Longrightarrow> sender k = None \<Longrightarrow> cont_peer k = p \<Longrightarrow> member_inv opt (admits opt p t k s)"
  by (rule inv_admits) simp_all

text \<open>The description is gathered: the host is asked again.\<close>

lemma inv_describe:
  assumes inv: "member_inv opt s" and d: "jget (mb_dials s) p = Some d" "ng_id (dl_negotiation d) = nid"
    and ph: "\<not> described (ng_phase (dl_negotiation d))" "described ph"
    and k: "sender k = Some nid" "cont_peer k = p"
  shows "member_inv opt (admits opt p t k (put_dial p (set_phase ph d) (member_emit [Described p] s)))"
proof (rule inv_admits [OF _ _ k(2)])
  have "member_inv opt (member_emit [Described p] s)"
    using inv gate_described [OF _ d(1) ph(1)] by (simp add: member_inv_def tables_def member_emit_def evictions_apart_more)
  then show inv': "member_inv opt (put_dial p (set_phase ph d) (member_emit [Described p] s))"
    using d(1) ph(2) by (intro inv_set_phase) (simp_all add: member_emit_def)
  show "cont_ok (mb_dials (put_dial p (set_phase ph d) (member_emit [Described p] s)))
      (mb_next (put_dial p (set_phase ph d) (member_emit [Described p] s))) k"
    if "mo_gated opt"
    using inv d k ph(2) that
    by (auto simp: cont_ok_def put_dial_def member_emit_def set_phase_def member_inv_def gate_def)
qed

subsection \<open>Signals\<close>

lemma inv_send_vetted:
  assumes "member_inv opt s" and "mo_gated opt \<Longrightarrow> p \<in> fold vet (mb_out s) {}"
  shows "member_inv opt (snd (send_swarm_signal mt p kind request s))"
  using assms by (simp add: send_swarm_signal_def member_inv_def tables_def member_emit_def gate_sent evictions_apart_more)

lemma inv_fail_current: "member_inv opt s \<Longrightarrow> member_inv opt (fail_current opt now p did nid lc s)"
  by (simp add: fail_current_def inv_fail_dial split: option.split)

lemma put_dial_out [simp]: "mb_out (put_dial p d s) = mb_out s"
  by (simp add: put_dial_def)

text \<open>A description is sent at the end of an admission that concerns the current negotiation.\<close>

definition vetted :: "member_options \<Rightarrow> membership \<Rightarrow> continuation \<Rightarrow> bool \<Rightarrow> bool" where
  "vetted opt s k ok \<longleftrightarrow> (mo_gated opt \<longrightarrow> ok \<longrightarrow> due (mb_dials s) k \<longrightarrow> cont_peer k \<in> fold vet (mb_out s) {})"

lemma inv_send_current:
  assumes "member_inv opt s" and "current_negotiation now p did nid s = Some d" and "described ph"
    and "vetted opt s k True" and "sender k = Some nid" and "cont_peer k = p"
  shows "member_inv opt (snd (send_swarm_signal mt p kind request (put_dial p (set_phase ph d) s)))"
proof (rule inv_send_vetted)
  show "member_inv opt (put_dial p (set_phase ph d) s)"
    using assms(1,3) current_negotiationD [OF assms(2)] by (intro inv_set_phase) simp_all
  show "p \<in> fold vet (mb_out (put_dial p (set_phase ph d) s)) {}" if "mo_gated opt"
    using that assms(4-6) current_negotiationD [OF assms(2)] by (auto simp: vetted_def due_def)
qed

lemma inv_offer_ready:
  assumes "member_inv opt s" and "vetted opt s (AtOffer p did nid) ok"
  shows "member_inv opt (offer_ready opt mt p did nid ok s)"
proof (cases "current_negotiation (mt_now mt) p did nid s")
  case (Some d)
  note sent = inv_send_current [OF assms(1) Some, of OfferSent "AtOffer p did nid" mt "''offer''" "dl_request d"]
  show ?thesis
    using assms Some sent
    by (cases "send_swarm_signal mt p ''offer'' (dl_request d) (put_dial p (set_phase OfferSent d) s)")
      (auto simp: offer_ready_def inv_fail_current inv_fail_dial described_def)
qed (use assms(1) in \<open>simp add: offer_ready_def inv_fail_current\<close>)

lemma inv_answer_ready:
  assumes "member_inv opt s" and "vetted opt s (AtReply p did nid) ok"
  shows "member_inv opt (answer_ready opt mt p did nid ok s)"
proof (cases "current_negotiation (mt_now mt) p did nid s")
  case (Some d)
  note sent = inv_send_current [OF assms(1) Some, of Answered "AtReply p did nid" mt "''answer''" "dl_request d"]
  show ?thesis
    using assms Some sent
    by (cases "send_swarm_signal mt p ''answer'' (dl_request d) (put_dial p (set_phase Answered d) s)")
      (auto simp: answer_ready_def inv_fail_current inv_fail_dial described_def inv_ready_dial inv_signal_framing)
qed (use assms(1) in \<open>simp add: answer_ready_def inv_fail_current\<close>)

lemma inv_after_rollback:
  assumes "member_inv opt s" and "jget (mb_dials s) p = Some d" and "\<not> described (ng_phase (dl_negotiation d))"
  shows "member_inv opt (after_rollback opt mt p did nid d s)"
  using assms by (auto simp: after_rollback_def inv_fail_dial intro!: inv_admits_other inv_set_phase)

lemma inv_glare_admitted: "member_inv opt s \<Longrightarrow> member_inv opt (glare_admitted opt mt p did nid ok s)"
  by (auto simp: glare_admitted_def inv_fail_current inv_fail_dial described_def
      intro!: inv_after_rollback inv_set_phase dest: current_negotiationD split: option.split)

lemma inv_rollback_admitted: "member_inv opt s \<Longrightarrow> member_inv opt (rollback_admitted opt mt p did nid ok s)"
  by (auto simp: rollback_admitted_def inv_fail_current inv_fail_dial described_def
      intro!: inv_set_phase dest: current_negotiationD split: option.split)

lemma inv_described_failed:
  assumes "member_inv opt s" and "jget (mb_dials s) p = Some d" and "\<not> described (ng_phase (dl_negotiation d))"
  shows "member_inv opt (member_emit [Described p] s)"
  using assms gate_described [OF _ assms(2,3)] by (simp add: member_inv_def tables_def member_emit_def evictions_apart_more)

lemma inv_native_step: "member_inv opt s \<Longrightarrow> member_inv opt (native_step opt mt p did nid result s)"
proof (cases "current_negotiation (mt_now mt) p did nid s")
  case (Some d)
  assume inv: "member_inv opt s"
  note d = current_negotiationD [OF Some]
  have phase: "member_inv opt (put_dial p (set_phase ph d) s)" if "\<not> described (ng_phase (dl_negotiation d))" for ph
    using inv_set_phase [OF inv d(1)] that by blast
  note steps = phase inv_describe [OF inv d] inv_after_rollback [OF inv d(1)] inv_described_failed [OF inv d(1)]
  show ?thesis
    using inv Some
    by (cases "ng_phase (dl_negotiation d)"; cases result)
      (simp_all add: native_step_def Let_def described_def inv_fail_dial inv_admits_other steps)
qed (simp add: native_step_def)

lemma inv_answer_admitted: "member_inv opt s \<Longrightarrow> member_inv opt (answer_admitted opt now p did nid request obj ok s)"
  by (auto simp: answer_admitted_def inv_fail_current intro!: inv_negotiation_update dest: current_negotiationD split: option.split)

lemma inv_answer_installed: "member_inv opt s \<Longrightarrow> member_inv opt (answer_installed opt now p did nid works s)"
  by (simp add: answer_installed_def inv_fail_dial inv_ready_dial inv_signal_framing split: option.split)

lemma inv_follow_referrals: "member_inv opt s \<Longrightarrow> member_inv opt (follow_referrals opt now ps s)"
proof (induction opt now ps s rule: follow_referrals.induct)
  case (2 opt now p ps s)
  then show ?case
    by (cases "has_capacity opt now s") (simp add: has_capacityI [OF _ "2.prems"] inv_dial_start)
qed simp

lemma inv_after_refusal: "member_inv opt s \<Longrightarrow> member_inv opt (after_refusal opt mt p delay rs s)"
  by (simp add: after_refusal_def Let_def inv_follow_referrals)

lemma inv_on_reject: "member_inv opt s \<Longrightarrow> member_inv opt (on_reject opt mt p request payload s)"
  by (auto simp: on_reject_def inv_after_refusal inv_remember_open inv_fail_dial split: option.split prod.split)

lemma inv_on_answer: "member_inv opt s \<Longrightarrow> member_inv opt (on_answer opt p request payload s)"
  by (simp add: on_answer_def inv_admits_other split: option.split)

lemma inv_on_offer: "member_inv opt s \<Longrightarrow> member_inv opt (on_offer opt now p request payload s)"
  by (simp add: on_offer_def Let_def inv_admits_other inv_expire)

lemma inv_on_signal: "member_inv opt s \<Longrightarrow> member_inv opt (on_signal opt mt p payload s)"
  by (simp add: on_signal_def Let_def inv_on_answer inv_on_reject inv_on_offer)

lemma inv_note_offer: "member_inv opt s \<Longrightarrow> member_inv opt (note_offer p request s)"
  by (simp add: note_offer_def Let_def member_inv_def tables_def)

lemma inv_refuse_offer: "member_inv opt s \<Longrightarrow> member_inv opt (refuse_offer opt mt p request s)"
  by (auto simp: refuse_offer_def send_swarm_signal_def Let_def intro!: inv_emit split: prod.split)

lemma evict_for_offer_inv:
  assumes "member_inv opt s" and "jget (mb_links s) p = None" and "evict_for_offer opt now a r s = (found, t)"
  shows "member_inv opt t" and "found \<Longrightarrow> jget (mb_links t) p = None \<and> peer_count t < mo_max_peers opt"
proof -
  have slots: "slots opt (mb_links s) (mb_dials s) (mb_dial_checks s)" using assms(1) by (simp add: member_inv_def)
  have *: "member_inv opt t \<and> (found \<longrightarrow> jget (mb_links t) p = None \<and> peer_count t < mo_max_peers opt)"
  proof (cases found)
    case False
    then show ?thesis using assms(1,3) by (auto simp: evict_for_offer_def split: if_splits option.splits prod.splits)
  next
    case True
    then obtain l r' where l: "rotation_choice (mo_rotation opt) (set (mb_banned s)) (Some (victim_tier opt now s)) now (map snd (mb_links s)) = Some (l, r')"
      and t: "t = close_victim now l s" and cd: "ro_eviction_cooldown (mo_rotation opt) \<le> now - mb_last_eviction s"
      using assms(3) by (auto simp: evict_for_offer_def split: if_splits option.splits prod.splits)
    have in_links: "l \<in> set (map snd (mb_links s))" using rotation_choice_in [OF l] .
    have "peer_count s \<le> mo_max_peers opt" using slots by (simp add: slots_def peer_count_def)
    with close_victim_frees(1) [OF slots in_links, of now] have "peer_count t < mo_max_peers opt" unfolding t by linarith
    then show ?thesis
      using close_victim_frees(3) [OF slots in_links] assms(1,2) cd unfolding t
      by (simp add: inv_close_victim)
  qed
  from * show "member_inv opt t" and "found \<Longrightarrow> jget (mb_links t) p = None \<and> peer_count t < mo_max_peers opt" by auto
qed

lemma inv_accept_incoming:
  assumes "member_inv opt s" and "jget (mb_links s) p = None" and "peer_count s < mo_max_peers opt"
  shows "member_inv opt (accept_incoming now p request payload s)"
  unfolding accept_incoming_def Let_def
proof (rule inv_begin_incoming)
  show "member_inv opt (s\<lparr>mb_failures := jdel p (mb_failures s), mb_next := Suc (mb_next s)\<rparr>)"
    using inv_failures_jdel [OF assms(1), of p] gate_later [OF _ le_SucI [OF order_refl]] by (simp add: member_inv_def tables_def)
qed (use assms in \<open>simp add: peer_count_def\<close>)

lemma inv_place_offer:
  assumes "member_inv opt s" and "jget (mb_links s) p = None"
  shows "member_inv opt (place_offer opt mt p request payload s)"
proof -
  obtain room s1 where cap: "has_capacity opt (mt_now mt) s = (room, s1)" by fastforce
  have s1: "member_inv opt s1" "jget (mb_links s1) p = None"
    using has_capacityI [OF cap assms(1)] has_capacity_fields(1) [of opt "mt_now mt" s] assms(2) unfolding cap by simp_all
  show ?thesis
  proof (cases room)
    case True
    then show ?thesis using s1 cap has_capacity_room(1) [OF cap] by (simp add: place_offer_def inv_accept_incoming)
  next
    case False
    then show ?thesis
      using s1 cap evict_for_offer_inv [OF s1]
      by (auto simp: place_offer_def Let_def inv_accept_incoming inv_refuse_offer split: prod.split)
  qed
qed

lemma fail_superseded_links [simp]: "mb_links (fail_dial opt now p did Superseded c lc s) = mb_links s"
  by (auto simp: fail_dial_def drop_dial_def Let_def member_emit_def split: option.split)

lemma inv_offer_admitted: "member_inv opt s \<Longrightarrow> member_inv opt (offer_admitted opt mt p request payload ok s)"
proof -
  assume inv: "member_inv opt s"
  have "member_inv opt (note_offer p request (expire_discovery now s))" for now
    by (intro inv_note_offer inv_expire inv)
  moreover have "mb_links (note_offer p request (expire_discovery now s)) = mb_links s" for now
    by (simp add: note_offer_def Let_def)
  ultimately show ?thesis
    using inv by (auto simp: offer_admitted_def Let_def inv_expire inv_fail_dial has_link_def jhas_def
        intro!: inv_place_offer inv_fail_dial inv_begin_incoming split: option.split)
qed

subsection \<open>Presence, timers and the swarm's own operations\<close>

lemma inv_note_candidate: "member_inv opt s \<Longrightarrow> member_inv opt (note_candidate p ticket s)"
proof -
  assume inv: "member_inv opt s"
  have "member_inv opt (s\<lparr>mb_admitted := jset p a' (mb_admitted s)\<rparr>)" if "jget (mb_admitted s) p = Some a" for a a'
    using inv that by (intro inv_admitted) (simp_all add: length_jset_same member_inv_def tables_def)
  with inv show ?thesis by (auto simp: note_candidate_def split: option.split)
qed

lemma gate_waiters:
  assumes "gate checks ready dials n out" and "\<And>q c k. (q, c) \<in> set checks' \<Longrightarrow> k \<in> set (ck_waiters c) \<Longrightarrow>
    \<exists>c0. (q, c0) \<in> set checks \<and> k \<in> set (ck_waiters c0)"
  shows "gate checks' ready dials n out"
  using assms unfolding gate_def by blast

lemma inv_latest:
  assumes "member_inv opt s" and "jget (mb_checks s) p = Some c"
  shows "member_inv opt (s\<lparr>mb_checks := jset p (c\<lparr>ck_latest := x\<rparr>) (mb_checks s)\<rparr>)"
proof -
  have "\<exists>c0. (q, c0) \<in> set (mb_checks s) \<and> k \<in> set (ck_waiters c0)"
    if "(q, c') \<in> set (jset p (c\<lparr>ck_latest := x\<rparr>) (mb_checks s))" "k \<in> set (ck_waiters c')" for q c' k
  proof -
    have "(q, c') = (p, c\<lparr>ck_latest := x\<rparr>) \<or> (q, c') \<in> set (mb_checks s)"
      using that(1) set_jset_subset [of p "c\<lparr>ck_latest := x\<rparr>" "mb_checks s"] by blast
    then show ?thesis using that(2) jget_in [OF assms(2)] by auto
  qed
  note waiters = gate_waiters [OF _ this, of "mb_ready s"]
  show ?thesis using assms waiters by (simp add: member_inv_def tables_def length_jset_same)
qed

lemma inv_presence_heard: "member_inv opt s \<Longrightarrow> member_inv opt (presence_heard opt now p t payload s)"
  by (simp add: presence_heard_def Let_def inv_note_candidate inv_seek inv_framing)

lemma inv_presence_check: "member_inv opt s \<Longrightarrow> member_inv opt (presence_check opt now p ticket flag s)"
proof -
  assume inv: "member_inv opt s"
  obtain room s1 where room: "(if has_link s p \<or> has_dial s p then (True, s) else dial_room opt now p s) = (room, s1)" by fastforce
  have "member_inv opt s1"
    using inv room by (auto simp: dial_room_def split: if_splits prod.splits dest: has_capacityI)
  then show ?thesis
    using inv unfolding presence_check_def Let_def room
    by (auto simp: inv_remember_flag inv_latest inv_admits_other split: option.split bool.split)
qed

lemma inv_on_presence: "member_inv opt s \<Longrightarrow> member_inv opt (on_presence opt mt p payload s)"
  by (simp add: on_presence_def inv_presence_check inv_presence_heard split: option.split)

lemma inv_presence_admitted: "member_inv opt s \<Longrightarrow> member_inv opt (presence_admitted opt now p flag ok s)"
  by (auto simp: presence_admitted_def Let_def inv_remember_flag dest!: has_capacityI split: prod.splits)

lemma inv_resume: "member_inv opt s \<Longrightarrow> vetted opt s k ok \<Longrightarrow> member_inv opt (resume opt mt k ok s)"
  by (cases k) (simp_all add: inv_presence_admitted inv_dial_admitted inv_offer_ready inv_answer_admitted inv_offer_admitted
    inv_glare_admitted inv_rollback_admitted inv_answer_ready inv_remember_flag)

lemma inv_run_ready: "member_inv opt s \<Longrightarrow> member_inv opt (run_ready opt mt s)"
proof (cases "mb_ready s")
  case (Cons e rest)
  assume inv: "member_inv opt s"
  obtain k ok where e: "e = (k, ok)" by fastforce
  have "member_inv opt (s\<lparr>mb_ready := rest\<rparr>)"
    using inv Cons gate_ready_subset [of _ "mb_ready s" _ _ _ rest] by (auto simp: member_inv_def tables_def)
  moreover have "vetted opt (s\<lparr>mb_ready := rest\<rparr>) k ok"
    using inv Cons unfolding vetted_def e member_inv_def gate_def by auto
  ultimately show ?thesis by (simp add: run_ready_def Cons e inv_resume)
qed (simp add: run_ready_def)

lemma inv_fire: "member_inv opt s \<Longrightarrow> member_inv opt (fire opt now t s)"
  by (cases t) (auto simp: Let_def inv_failures_jdel intro!: inv_dial_start inv_seek inv_failures_jdel dest!: has_capacityI split: prod.splits)

lemma inv_fire_timer: "member_inv opt s \<Longrightarrow> member_inv opt (fire_timer opt now i s)"
  by (simp add: fire_timer_def inv_fire)

lemma inv_announce: "member_inv opt s \<Longrightarrow> member_inv opt (announce_presence_open opt now s)"
proof -
  assume inv: "member_inv opt s"
  have "member_inv opt (snd (can_take_another_peer opt now s))"
    using inv by (auto simp: can_take_another_peer_def Let_def inv_expire dest!: has_capacityI split: prod.split)
  with inv show ?thesis by (auto simp: announce_presence_open_def intro!: inv_emit split: prod.split)
qed

lemma inv_update_ticket: "member_inv opt s \<Longrightarrow> member_inv opt (snd (update_ticket opt t s))"
  by (simp add: update_ticket_def)

lemma inv_retry_loop: "member_inv opt (snd r) \<Longrightarrow> member_inv opt (snd (retry_loop opt now fs r))"
proof (induction opt now fs r rule: retry_loop.induct)
  case (2 opt now p till fs n s)
  then show ?case by (cases "has_capacity opt now s") (simp add: inv_dial_start has_capacityI)
qed simp

lemma inv_retry_local: "member_inv opt s \<Longrightarrow> member_inv opt (snd (retry_local_candidates opt now s))"
  by (simp add: retry_local_candidates_def inv_retry_loop inv_failures)

lemma gate_stopped:
  assumes "gate checks ready dials n out"
  shows "gate [] (ready @ concat (map (\<lambda>c. map (\<lambda>k. (k, False)) (ck_waiters (snd c))) checks)) [] n out"
proof -
  have "cont_ok [] n k" if "cont_ok dials n k" for k using that by (simp add: cont_ok_def)
  with assms show ?thesis by (fastforce simp: gate_def due_def)
qed

lemma inv_host_stop: "member_inv opt s \<Longrightarrow> member_inv opt (host_stop now s)"
proof -
  assume inv: "member_inv opt s"
  define s1 where "s1 = (case nd_window (mb_discovery s) of None \<Rightarrow> s\<lparr>mb_stopped := True, mb_failures := []\<rparr>
    | Some w \<Rightarrow> end_discovery now (nw_id w) True (s\<lparr>mb_stopped := True, mb_failures := []\<rparr>))"
  have s1: "member_inv opt s1"
    using inv by (simp add: s1_def inv_end_discovery inv_failures split: option.split)
  define s2 where "s2 = s1\<lparr>mb_discovery := nd_clear (mb_discovery s1),
    mb_ready := mb_ready s1 @ concat (map (\<lambda>c. map (\<lambda>k. (k, False)) (ck_waiters (snd c))) (mb_checks s1)),
    mb_checks := [], mb_admitted := [], mb_dial_checks := [], mb_timers := [], mb_dials := [], mb_offers := []\<rparr>"
  have "member_inv opt (s2\<lparr>mb_links := []\<rparr>)"
    using s1 gate_stopped [of "mb_checks s1" "mb_ready s1" "mb_dials s1"] by (simp add: s2_def member_inv_def tables_def slots_def)
  then have "member_inv opt (member_emit (map (LinkDown \<circ> fst) ls) (s2\<lparr>mb_links := []\<rparr>))" for ls :: "(string \<times> swarm_link) list"
    by (rule inv_emit) (auto simp: eviction_times_def)
  then show ?thesis
    using inv by (simp add: host_stop_def Let_def s1_def [symmetric] s2_def [symmetric] cong: option.case_cong)
qed

lemma inv_swarm_apply: "member_inv opt s \<Longrightarrow> member_inv opt (swarm_apply opt e s)"
proof (induction opt e s rule: swarm_apply.induct)
  case (12 opt mt p l s)
  have "member_inv opt (s\<lparr>mb_links := jset p (l\<lparr>sl_id := i, sl_pubkey := p\<rparr>) (mb_links s)\<rparr>)" if "jget (mb_links s) p = Some old" for i old
    using 12 that by (simp add: member_inv_def tables_def slots_same_link)
  with 12 show ?case by (auto split: option.split)
qed (simp_all add: inv_on_presence inv_on_signal inv_check_settles inv_run_ready inv_native_step inv_answer_installed inv_channel_open
  inv_fail_dial inv_end_discovery inv_fire_timer inv_link_down inv_announce inv_update_ticket inv_retry_local inv_host_stop)

lemma inv_new: "member_inv opt (new_membership pubkey ticket)"
  by (simp add: new_membership_def member_inv_def tables_def slots_def gate_def evictions_apart_def)

lemma inv_run: "member_inv opt s \<Longrightarrow> member_inv opt (swarm_run opt events s)"
  unfolding swarm_run_def by (rule inv_fold) (simp_all add: inv_swarm_apply)

subsection \<open>Claims\<close>

text \<open>A vetted peer: the host's last acceptance is newer than the last description.\<close>

lemma vet_new: "p \<in> vet e A \<Longrightarrow> p \<notin> A \<or> e = Described p \<Longrightarrow> \<exists>t. e = HostSaid p t True"
  by (cases e) (auto simp: vet_def split: if_splits)

lemma vetted_split:
  assumes "p \<in> fold vet es {}"
  shows "\<exists>before after t. es = before @ HostSaid p t True # after \<and> Described p \<notin> set after"
  using assms
proof (induction es rule: rev_induct)
  case (snoc e es)
  show ?case
  proof (cases "p \<in> fold vet es {} \<and> e \<noteq> Described p")
    case True
    then obtain b a t where "es = b @ HostSaid p t True # a" "Described p \<notin> set a" using snoc.IH by blast
    then have "es @ [e] = b @ HostSaid p t True # (a @ [e])" "Described p \<notin> set (a @ [e])" using True by auto
    then show ?thesis by blast
  next
    case False
    with snoc.prems obtain t where "e = HostSaid p t True" using vet_new [of p e "fold vet es {}"] by auto
    then have "es @ [e] = es @ HostSaid p t True # []" by simp
    then show ?thesis by (metis empty_iff list.set(1))
  qed
qed simp

lemma membership_run_inv: "member_inv opt (swarm_run opt events (new_membership pubkey ticket))"
  by (rule inv_run [OF inv_new])

text \<open>
  C30: a swarm stays within its bounds. Whatever presences, offers, answers, refusals, native outcomes,
  host decisions and timers arrive, in whatever order, it has at most \<open>maxPeers\<close> links and dials and at
  most \<open>maxDialsInFlight\<close> outgoing dials, never two for one peer, and every table it keeps is bounded.
\<close>

theorem peers_bounded:
  "let s = swarm_run opt events (new_membership pubkey ticket) in
     length (mb_links s) + length (mb_dials s) \<le> mo_max_peers opt \<and> outgoing_dials s \<le> mo_max_dials opt
     \<and> distinct (map fst (mb_links s) @ map fst (mb_dials s)) \<and> length (mb_dial_checks s) \<le> mo_max_dials opt
     \<and> length (mb_checks s) \<le> 16 \<and> length (mb_admitted s) \<le> 256 \<and> length (mb_failures s) \<le> 256
     \<and> length (mb_open_peers s) \<le> 64 \<and> length (mb_offers s) \<le> 256 \<and> length (mb_framing s) \<le> 1024"
proof -
  define s where "s = swarm_run opt events (new_membership pubkey ticket)"
  have inv: "member_inv opt s" unfolding s_def by (rule membership_run_inv)
  then have slots: "slots opt (mb_links s) (mb_dials s) (mb_dial_checks s)" by (simp add: member_inv_def)
  then have "set (jkeys (mb_links s)) \<inter> set (jkeys (mb_dials s)) = {}"
    unfolding slots_def jhas_iff [symmetric] disjoint_iff jhas_def by metis
  then have "distinct (jkeys (mb_links s) @ jkeys (mb_dials s))"
    using slots unfolding slots_def jwf_def distinct_append by blast
  then show ?thesis
    using inv unfolding s_def [symmetric] Let_def by (simp only: member_inv_def tables_def slots_def outgoing_dials_def)
qed

text \<open>
  C31: no description leaves without a fresh word of the host. When the host gates admission, every offer
  and every answer that a swarm sends to a peer was preceded by the host's acceptance of a ticket of that
  peer, after the last local description for that peer was gathered; a remembered admission is not enough.
\<close>

theorem descriptions_admitted:
  assumes "mo_gated opt" and "mb_out (swarm_run opt events (new_membership pubkey ticket)) = before @ SentSignal p kind request # after"
    and "kind \<in> {''offer'', ''answer''}"
  shows "\<exists>older newer t. before = older @ HostSaid p t True # newer \<and> Described p \<notin> set newer"
proof -
  have "sends_vetted {} (before @ SentSignal p kind request # after)"
    unfolding assms(2) [symmetric] using membership_run_inv [of opt events pubkey ticket] assms(1) by (simp add: member_inv_def gate_def)
  then have "p \<in> fold vet before {}"
    using assms(3) by (auto simp: sends_vetted_append discloses_def)
  then show ?thesis by (rule vetted_split)
qed

text \<open>
  Rotation cannot churn. However many newcomers ask and however often discovery looks for a better
  neighbour, two consecutive evictions are at least the eviction cooldown apart.
\<close>

theorem evictions_spaced:
  "successively (\<lambda>earlier later. earlier + ro_eviction_cooldown (mo_rotation opt) \<le> later)
     (eviction_times (mb_out (swarm_run opt events (new_membership pubkey ticket))))"
  using membership_run_inv [of opt events pubkey ticket] by (simp add: member_inv_def evictions_apart_def)

definition ex_member_options :: member_options where
  "ex_member_options = \<lparr>mo_rotation = \<lparr>ro_min_link_life = 1, ro_idle_evict = 1, ro_eviction_cooldown = 10, ro_retry_floor = 1,
     ro_retry_ceiling = 9, ro_max_referrals = 1, ro_presence_interval = 5\<rparr>, mo_max_peers = 2, mo_max_dials = 1, mo_max_retries = 1,
     mo_peer_first = False, mo_gated = True, mo_number = (\<lambda>_. None)\<rparr>"

definition ex_moment :: moment where
  "ex_moment = \<lparr>mt_now = 5, mt_connection = ''new'', mt_ice = ''new'', mt_signalling = ''stable'', mt_sends = True,
     mt_request = ''r'', mt_jitter = 0\<rparr>"

definition ex_presence :: js where
  "ex_presence = JObj [(''role'', JStr ''viewer''), (''transports'', JArr [JObj [(''type'', JStr ''webrtc'')]]), (''have'', JArr []),
     (''open'', JBool True), (''ticket'', JStr ''t'')]"

definition ex_swarm_events :: "swarm_event list" where
  "ex_swarm_events = [PresenceFrom ''b'' ex_presence, HostDecides ''b'' True, Ready, TimerFires 0, HostDecides ''b'' True, Ready,
     Native ''b'' 0 1 Works, Native ''b'' 0 1 Works, Native ''b'' 0 1 Works, HostDecides ''b'' True, Ready]"

definition ex_before :: "member_event list" where
  "ex_before = [AskedHost ''b'' (JStr ''t''), HostSaid ''b'' (JStr ''t'') True, AskedHost ''b'' (JStr ''t''), HostSaid ''b'' (JStr ''t'') True,
     Described ''b'', AskedHost ''b'' (JStr ''t''), HostSaid ''b'' (JStr ''t'') True]"

lemma ex_swarm_run:
  "mb_out (swarm_run ex_member_options (map (Pair ex_moment) ex_swarm_events) (new_membership ''a'' None))
     = ex_before @ [SentSignal ''b'' ''offer'' ''r'']"
  by code_simp

theorem descriptions_admitted_witness:
  "\<exists>older newer t. ex_before = older @ HostSaid ''b'' t True # newer \<and> Described ''b'' \<notin> set newer"
  by (rule descriptions_admitted [of ex_member_options "map (Pair ex_moment) ex_swarm_events" "''a''" None ex_before "''b''" "''offer''" "''r''" "[]"])
    (simp_all add: ex_swarm_run, simp add: ex_member_options_def)

end
