(* ===== verification/Segment_Commitment.thy ===== *)
theory Segment_Commitment
  imports Relay_Session Swarm_Serving
begin

text \<open>
  Signed segment commitments and their delegations, \<open>src/browser/segment-commitment.mjs\<close>.

  The cryptography of nostr-tools is the record \<open>signing\<close>: the event hash, which is \<open>None\<close> where it
  throws, and \<open>verifyEvent\<close>.  The platform's \<open>URL\<close> class is the argument \<open>parse_url\<close>.  Events and
  contexts are JavaScript values, \<open>tm\<close> is milliseconds, and a verdict of \<open>null\<close> is \<open>None\<close>; an exception
  inside a verifier is \<open>None\<close> too, because the code catches it.
\<close>

record signing =
  sg_hash :: "js \<Rightarrow> string option"
  sg_verify :: "js \<Rightarrow> bool"

record url =
  ur_protocol :: string
  ur_origin :: string
  ur_path :: string
  ur_search :: string
  ur_user :: string
  ur_password :: string
  ur_hash :: string
  ur_params :: "(string \<times> string) list"

definition kind_segment_commitment :: int where "kind_segment_commitment = 24172"
definition kind_commitment_delegation :: int where "kind_commitment_delegation = 24173"
definition kind_commitment_revocation :: int where "kind_commitment_revocation = 24174"
definition proved_capacity :: nat where "proved_capacity = 512"

subsection \<open>Signatures, and the verdicts that are remembered\<close>

text \<open>The copy that is checked: the seven fields of a signed event.\<close>

definition event_copy :: "js \<Rightarrow> js" where
  "event_copy e = JObj (map (\<lambda>k. (k, member e k)) [''id'', ''pubkey'', ''created_at'', ''kind'', ''tags'', ''content'', ''sig''])"

definition proved_key :: "string \<Rightarrow> js \<Rightarrow> string" where
  "proved_key h e = h @ '':'' @ js_string (member e ''pubkey'') @ '':'' @ js_string (member e ''sig'')"

text \<open>\<open>validSignature\<close> over the table of proved signatures.\<close>

definition valid_signature :: "signing \<Rightarrow> js \<Rightarrow> (string \<times> bool) list \<Rightarrow> bool \<times> (string \<times> bool) list" where
  "valid_signature sg e proved =
     (let c = event_copy e in
      (case sg_hash sg c of
         None \<Rightarrow> (False, proved)
       | Some h \<Rightarrow>
           if member c ''id'' \<noteq> JStr h \<or> \<not> is_string (member c ''sig'') then (False, proved)
           else (let k = proved_key h c in
             if jhas proved k then (True, jset k True (jdel k proved))
             else if \<not> sg_verify sg c then (False, proved)
             else (True, jset k True (if length proved \<ge> proved_capacity then jdel_oldest proved else proved)))))"

text \<open>The check itself, without a memory.\<close>

definition signature_ok :: "signing \<Rightarrow> js \<Rightarrow> bool" where
  "signature_ok sg e =
     (let c = event_copy e in
      (case sg_hash sg c of
         None \<Rightarrow> False
       | Some h \<Rightarrow> member c ''id'' = JStr h \<and> is_string (member c ''sig'') \<and> sg_verify sg c))"

subsection \<open>Events and their tags\<close>

definition bounded_event :: "js \<Rightarrow> bool" where
  "bounded_event e \<longleftrightarrow> utf8_length (json_text e) \<le> 16 * 1024"

text \<open>\<open>tag\<close>: the value of the only tag of that name, where it has exactly two fields.\<close>

definition tag_matches :: "js \<Rightarrow> string \<Rightarrow> js list" where
  "tag_matches e name = filter (\<lambda>t. elems t \<noteq> [] \<and> hd (elems t) = JStr name) (elems (member e ''tags''))"

definition tag_value :: "js \<Rightarrow> string \<Rightarrow> js" where
  "tag_value e name = (case tag_matches e name of [t] \<Rightarrow> if length (elems t) = 2 then elems t ! 1 else JNull | _ \<Rightarrow> JNull)"

definition media_char :: "char \<Rightarrow> bool" where
  "media_char c \<longleftrightarrow> (CHR ''a'' \<le> c \<and> c \<le> CHR ''z'') \<or> (CHR ''A'' \<le> c \<and> c \<le> CHR ''Z'') \<or> (CHR ''0'' \<le> c \<and> c \<le> CHR ''9'')
     \<or> c \<in> {CHR ''_'', CHR ''.'', CHR ''/'', CHR ''-''}"

fun split_on :: "char \<Rightarrow> string \<Rightarrow> string list" where
  "split_on d [] = [[]]"
| "split_on d (c # cs) = (if c = d then [] # split_on d cs else (c # hd (split_on d cs)) # tl (split_on d cs))"

definition safe_path :: "js \<Rightarrow> bool" where
  "safe_path v \<longleftrightarrow> (case v of
     JStr p \<Rightarrow> (let rest = drop 7 p in map lower_char (take 7 p) = ''/media/'' \<and> rest \<noteq> [] \<and> list_all media_char rest)
       \<and> ''..'' \<notin> set (split_on (CHR ''/'') p)
   | _ \<Rightarrow> False)"

subsection \<open>Canonical contents\<close>

definition schema :: "js \<Rightarrow> nat" where
  "schema v = (if member v ''v'' = JInt 3 then 3 else if member v ''v'' = JInt 2 then 2 else 1)"

definition domain :: "nat \<Rightarrow> string" where
  "domain v = (if v = 3 then ''relayswarm-segment-v3'' else if v = 2 then ''relayswarm-segment-v2'' else ''relayswarm-segment-v1'')"

definition pick_fields :: "js \<Rightarrow> string list \<Rightarrow> (string \<times> js) list" where
  "pick_fields v ks = map (\<lambda>k. (k, member v k)) ks"

definition commitment_object :: "js \<Rightarrow> js" where
  "commitment_object x =
     (let v = schema x in
      JObj ([(''domain'', JStr (domain v)), (''v'', JInt (int v))]
        @ pick_fields x [''streamEventId'', ''swarmId'', ''key'', ''rendition'', ''sequence'', ''discontinuity'', ''part'', ''sha256'', ''size'', ''expiresAt'']
        @ (if v \<ge> 2 then pick_fields x [''playlist'', ''mediaType'', ''encryption''] else [])
        @ (if v = 3 then pick_fields x [''pieceSize'', ''pieces''] else [])))"

definition commitment_content :: "js \<Rightarrow> string" where
  "commitment_content x = json_text (commitment_object x)"

definition delegation_domain :: string where "delegation_domain = ''relayswarm-commitment-delegation-v1''"
definition revocation_domain :: string where "revocation_domain = ''relayswarm-commitment-revocation-v1''"

definition delegation_content :: "js \<Rightarrow> string" where
  "delegation_content x = json_text (JObj ([(''domain'', JStr delegation_domain), (''v'', JInt 1)]
     @ pick_fields x [''streamEventId'', ''swarmId'', ''delegatePubkey'', ''notBefore'', ''expiresAt'', ''renditions'', ''mediaTypes'',
         ''allowParts'', ''maxSegmentBytes'']))"

definition revocation_content :: "js \<Rightarrow> string" where
  "revocation_content x = json_text (JObj ([(''domain'', JStr revocation_domain), (''v'', JInt 1)]
     @ pick_fields x [''streamEventId'', ''swarmId'', ''delegationId'']))"

subsection \<open>The author's authorisation\<close>

text \<open>From here on \<open>sig\<close> is the verdict of \<open>validSignature\<close> on an event.\<close>

definition valid_stream_authorisation :: "(js \<Rightarrow> bool) \<Rightarrow> js \<Rightarrow> bool" where
  "valid_stream_authorisation sig e \<longleftrightarrow> member e ''kind'' = JInt 30311 \<and> bounded_event e \<and> sig e \<and> is_string (tag_value e ''d'')
     \<and> list_ex (\<lambda>t. elems t = [JStr ''relayswarm'', JStr ''redistribute'', JStr ''1'']) (elems (member e ''tags''))"

subsection \<open>Delegations and revocations\<close>

definition seconds_of :: "int \<Rightarrow> int" where
  "seconds_of tm = tm div 1000"

text \<open>\<open>[...].array_includes(x)\<close>; the size of a \<open>Set\<close> counts every object, equal strings once.\<close>

definition array_includes :: "js \<Rightarrow> js \<Rightarrow> bool" where
  "array_includes xs x \<longleftrightarrow> list_ex (\<lambda>y. strict_eq y x) (elems xs)"

definition no_repeats :: "js \<Rightarrow> bool" where
  "no_repeats xs \<longleftrightarrow> distinct (filter (\<lambda>x. \<not> object_or_array x) (elems xs))"

definition level_name :: "js \<Rightarrow> bool" where
  "level_name v \<longleftrightarrow> (case js_string v of [] \<Rightarrow> False
     | c # cs \<Rightarrow> (c = CHR ''0'' \<and> cs = []) \<or> (digit c \<and> c \<noteq> CHR ''0'' \<and> length cs \<le> 3 \<and> list_all digit cs))"

definition media_type :: "js \<Rightarrow> bool" where
  "media_type v \<longleftrightarrow> v \<in> {JStr ''main'', JStr ''audio''}"

definition max_commitment_bytes :: int where "max_commitment_bytes = 16 * 1024 * 1024"

text \<open>The fields of a delegation, for an event created at \<open>created\<close>.\<close>

definition delegation_scope_ok :: "js \<Rightarrow> string \<Rightarrow> int \<Rightarrow> int \<Rightarrow> js \<Rightarrow> bool" where
  "delegation_scope_ok stream swarm created seconds x \<longleftrightarrow>
     member x ''domain'' = JStr delegation_domain \<and> member x ''v'' = JInt 1
     \<and> strict_eq (member x ''streamEventId'') (member stream ''id'') \<and> member x ''swarmId'' = JStr swarm \<and> hex64_test (member x ''delegatePubkey'')
     \<and> safe_integer (member x ''notBefore'') \<and> created \<le> int_of (member x ''notBefore'') \<and> int_of (member x ''notBefore'') \<le> seconds
     \<and> safe_integer (member x ''expiresAt'') \<and> seconds < int_of (member x ''expiresAt'')
     \<and> int_of (member x ''notBefore'') < int_of (member x ''expiresAt'') \<and> int_of (member x ''expiresAt'') \<le> created + 3600
     \<and> is_array (member x ''renditions'') \<and> elems (member x ''renditions'') \<noteq> [] \<and> length (elems (member x ''renditions'')) \<le> 40
     \<and> no_repeats (member x ''renditions'') \<and> list_all (\<lambda>r. safe_path r \<or> level_name r) (elems (member x ''renditions''))
     \<and> is_array (member x ''mediaTypes'') \<and> elems (member x ''mediaTypes'') \<noteq> [] \<and> length (elems (member x ''mediaTypes'')) \<le> 2
     \<and> no_repeats (member x ''mediaTypes'') \<and> list_all media_type (elems (member x ''mediaTypes''))
     \<and> member x ''allowParts'' \<in> {JBool True, JBool False} \<and> safe_integer (member x ''maxSegmentBytes'')
     \<and> 1 \<le> int_of (member x ''maxSegmentBytes'') \<and> int_of (member x ''maxSegmentBytes'') \<le> max_commitment_bytes"

text \<open>A revocation that binds: signed by the stream's author for this delegation, not in the far future.\<close>

definition binding_revocation :: "(js \<Rightarrow> bool) \<Rightarrow> js \<Rightarrow> string \<Rightarrow> js \<Rightarrow> int \<Rightarrow> js \<Rightarrow> bool" where
  "binding_revocation sig stream swarm event seconds r \<longleftrightarrow>
     truthy r \<and> bounded_event r \<and> member r ''kind'' = JInt kind_commitment_revocation \<and> strict_eq (member r ''pubkey'') (member stream ''pubkey'')
     \<and> safe_integer (member r ''created_at'') \<and> int_of (member event ''created_at'') \<le> int_of (member r ''created_at'')
     \<and> int_of (member r ''created_at'') \<le> seconds + 30 \<and> sig r
     \<and> strict_eq (tag_value r ''e'') (member event ''id'') \<and> tag_value r ''x'' = JStr swarm"

text \<open>Whether a binding revocation revokes: its content does, or does not parse, which throws.\<close>

definition revokes :: "js \<Rightarrow> string \<Rightarrow> js \<Rightarrow> js \<Rightarrow> bool" where
  "revokes stream swarm event r \<longleftrightarrow>
     (case json_parse (js_string (member r ''content'')) of
        None \<Rightarrow> True
      | Some x \<Rightarrow> x \<in> {JNull, JUndefined} \<or> (member r ''content'' = JStr (revocation_content x) \<and> member x ''domain'' = JStr revocation_domain
          \<and> member x ''v'' = JInt 1 \<and> strict_eq (member x ''streamEventId'') (member stream ''id'') \<and> member x ''swarmId'' = JStr swarm
          \<and> strict_eq (member x ''delegationId'') (member event ''id'')))"

record delegation_view =
  dv_revoked_ids :: js
  dv_revocations :: js

definition default_array :: "js \<Rightarrow> js" where
  "default_array v = (if v = JUndefined then JArr [] else v)"

definition verify_commitment_delegation :: "(js \<Rightarrow> bool) \<Rightarrow> js \<Rightarrow> js \<Rightarrow> string \<Rightarrow> delegation_view \<Rightarrow> int \<Rightarrow> js option" where
  "verify_commitment_delegation sig event stream swarm view tm =
     (let seconds = seconds_of tm; ids = default_array (dv_revoked_ids view); revocations = default_array (dv_revocations view) in
      if \<not> valid_stream_authorisation sig stream \<or> \<not> truthy event \<or> \<not> bounded_event event
         \<or> member event ''kind'' \<noteq> JInt kind_commitment_delegation \<or> \<not> strict_eq (member event ''pubkey'') (member stream ''pubkey'')
         \<or> \<not> sig event \<or> tag_value event ''x'' \<noteq> JStr swarm \<or> \<not> strict_eq (tag_value event ''e'') (member stream ''id'')
         \<or> \<not> safe_integer (member event ''created_at'') \<or> int_of (member event ''created_at'') > seconds + 30
         \<or> \<not> is_array ids \<or> length (elems ids) > 256 \<or> array_includes ids (member event ''id'')
         \<or> \<not> is_array revocations \<or> length (elems revocations) > 256 then None
      else (case json_parse (js_string (member event ''content'')) of
          None \<Rightarrow> None
        | Some x \<Rightarrow>
            if member event ''content'' \<noteq> JStr (delegation_content x)
               \<or> \<not> delegation_scope_ok stream swarm (int_of (member event ''created_at'')) seconds x then None
            else if list_ex (\<lambda>r. binding_revocation sig stream swarm event seconds r \<and> revokes stream swarm event r) (elems revocations)
            then None else Some x))"

subsection \<open>The context of a media segment\<close>

definition hls_directives :: "string list" where
  "hls_directives = [''_HLS_msn'', ''_HLS_part'', ''_HLS_skip'']"

definition directive_value :: "string \<Rightarrow> bool" where
  "directive_value v \<longleftrightarrow> (v \<noteq> [] \<and> list_all digit v) \<or> v = ''YES'' \<or> v = ''v2''"

text \<open>\<open>a || b\<close>, and \<open>a ?? b\<close>.\<close>

definition or_else :: "js \<Rightarrow> js \<Rightarrow> js" where "or_else a b = (if truthy a then a else b)"
definition if_nullish :: "js \<Rightarrow> js \<Rightarrow> js" where "if_nullish a b = (if a \<in> {JUndefined, JNull} then b else a)"

definition hex_byte :: "int \<Rightarrow> string" where
  "hex_byte n = [hex_digit_char (nat n div 16), hex_digit_char (nat n mod 16)]"

text \<open>The key of an encrypted segment: \<open>Some None\<close> in the clear, \<open>None\<close> where it cannot be described.\<close>

definition encryption_context :: "(string option \<Rightarrow> string \<Rightarrow> url option) \<Rightarrow> string \<Rightarrow> url \<Rightarrow> js \<Rightarrow> js option" where
  "encryption_context parse_url base u decrypt =
     (if \<not> truthy (member decrypt ''method'') \<or> member decrypt ''method'' = JStr ''NONE'' then Some JNull
      else if member decrypt ''method'' \<noteq> JStr ''AES-128''
         \<or> (truthy (member decrypt ''keyFormat'') \<and> member decrypt ''keyFormat'' \<noteq> JStr ''identity'') then None
      else (case parse_url (Some base) (js_string (member decrypt ''uri'')) of
          None \<Rightarrow> None
        | Some k \<Rightarrow>
            (let iv = elems (member decrypt ''iv'') in
             if ur_origin k \<noteq> ur_origin u \<or> ur_search k \<noteq> [] \<or> ur_hash k \<noteq> [] \<or> \<not> safe_path (JStr (ur_path k))
                \<or> length iv \<noteq> 16 \<or> \<not> list_all (\<lambda>b. is_int b \<and> 0 \<le> int_of b \<and> int_of b \<le> 255) iv then None
             else Some (JObj [(''method'', JStr ''AES-128''), (''keyPath'', JStr (ur_path k)),
                (''iv'', JStr (concat (map (hex_byte \<circ> int_of) iv))), (''keyFormat'', JStr ''identity'')]))))"

definition segment_media_context :: "(string option \<Rightarrow> string \<Rightarrow> url option) \<Rightarrow> js \<Rightarrow> (string \<times> string \<times> js) option" where
  "segment_media_context parse_url ctx =
     (let frag = member ctx ''frag''; raw = or_else (member frag ''baseurl'') (member (member frag ''base'') ''url'') in
      (case raw of
         JStr text \<Rightarrow>
           if length text > 4096 then None
           else (case parse_url None text of
               None \<Rightarrow> None
             | Some u \<Rightarrow>
                 (let names = map fst (ur_params u); kind = if_nullish (member frag ''type'') (JStr ''main'') in
                  if ur_protocol u \<notin> {''http:'', ''https:''} \<or> \<not> distinct names \<or> ur_user u \<noteq> [] \<or> ur_password u \<noteq> [] \<or> ur_hash u \<noteq> []
                     \<or> list_ex (\<lambda>(k, v). k \<notin> set hls_directives \<or> \<not> directive_value v) (ur_params u)
                     \<or> \<not> safe_path (JStr (ur_path u)) \<or> \<not> media_type kind then None
                  else map_option (\<lambda>e. (ur_path u, js_string kind, e)) (encryption_context parse_url text u (member frag ''decryptdata''))))
       | _ \<Rightarrow> None))"

subsection \<open>Commitments\<close>

record commitment_view =
  cv_stream :: js
  cv_swarm :: string
  cv_key :: string
  cv_context :: js
  cv_max_bytes :: js
  cv_delegation :: js
  cv_delegations :: delegation_view

text \<open>The numbers, the hash and the bindings of a commitment, and with schema 3 its pieces.\<close>

definition commitment_fields_ok :: "commitment_view \<Rightarrow> int \<Rightarrow> js \<Rightarrow> bool" where
  "commitment_fields_ok view seconds x \<longleftrightarrow>
     member x ''domain'' = JStr (domain (schema x)) \<and> member x ''v'' \<in> {JInt 1, JInt 2, JInt 3}
     \<and> strict_eq (member x ''streamEventId'') (member (cv_stream view) ''id'') \<and> member x ''swarmId'' = JStr (cv_swarm view)
     \<and> member x ''key'' = JStr (cv_key view)
     \<and> strict_eq (member x ''sequence'') (member (member (cv_context view) ''frag'') ''sn'')
     \<and> strict_eq (member x ''discontinuity'') (if_nullish (member (member (cv_context view) ''frag'') ''cc'') (JInt 0))
     \<and> strict_eq (member x ''part'') (if_nullish (member (member (cv_context view) ''part'') ''index'') JNull)
     \<and> safe_integer (member x ''sequence'') \<and> 0 \<le> int_of (member x ''sequence'')
     \<and> safe_integer (member x ''discontinuity'') \<and> 0 \<le> int_of (member x ''discontinuity'')
     \<and> (member x ''part'' = JNull \<or> (safe_integer (member x ''part'') \<and> 0 \<le> int_of (member x ''part'')))
     \<and> hex64_test (member x ''sha256'') \<and> safe_integer (member x ''size'') \<and> 1 \<le> int_of (member x ''size'')
     \<and> int_of (member x ''size'') \<le> int_of (cv_max_bytes view)
     \<and> safe_integer (member x ''expiresAt'') \<and> seconds < int_of (member x ''expiresAt'') \<and> int_of (member x ''expiresAt'') \<le> seconds + 300"

definition pieces_ok :: "js \<Rightarrow> bool" where
  "pieces_ok x \<longleftrightarrow>
     (let bsize = nat (int_of (member x ''size'')); piece = commitment_piece_size bsize in
      member x ''pieceSize'' = JInt (int piece) \<and> is_array (member x ''pieces'') \<and> length (elems (member x ''pieces'')) = ceil_div bsize piece
      \<and> list_all (\<lambda>p. is_string p \<and> hex64_test p) (elems (member x ''pieces'')))"

definition stringify :: "js \<Rightarrow> string option" where
  "stringify v = (if v = JUndefined then None else Some (json_text v))"

definition media_binding_ok :: "(string option \<Rightarrow> string \<Rightarrow> url option) \<Rightarrow> js \<Rightarrow> js \<Rightarrow> bool" where
  "media_binding_ok parse_url ctx x \<longleftrightarrow>
     (if schema x \<ge> 2 then
        (case segment_media_context parse_url ctx of
           None \<Rightarrow> False
         | Some (playlist, kind, encryption) \<Rightarrow>
             member x ''rendition'' = JStr playlist \<and> member x ''playlist'' = JStr playlist \<and> member x ''mediaType'' = JStr kind
             \<and> stringify (member x ''encryption'') = stringify encryption)
      else (let frag = member ctx ''frag''; method = member (member frag ''decryptdata'') ''method'' in
        member x ''rendition'' = JStr (js_string (member frag ''level''))
        \<and> \<not> (truthy (member frag ''type'') \<and> member frag ''type'' \<noteq> JStr ''main'') \<and> \<not> (truthy method \<and> method \<noteq> JStr ''NONE'')))"

text \<open>What a delegate may commit to.\<close>

definition within_scope :: "js \<Rightarrow> js \<Rightarrow> js \<Rightarrow> js \<Rightarrow> bool" where
  "within_scope event delegation scope x \<longleftrightarrow>
     strict_eq (member event ''pubkey'') (member scope ''delegatePubkey'') \<and> strict_eq (tag_value event ''delegation'') (member delegation ''id'')
     \<and> int_of (member scope ''notBefore'') \<le> int_of (member event ''created_at'')
     \<and> int_of (member x ''expiresAt'') \<le> int_of (member scope ''expiresAt'')
     \<and> array_includes (member scope ''renditions'') (member x ''rendition'')
     \<and> array_includes (member scope ''mediaTypes'') (if schema x \<ge> 2 then member x ''mediaType'' else JStr ''main'')
     \<and> (member x ''part'' = JNull \<or> member scope ''allowParts'' = JBool True)
     \<and> int_of (member x ''size'') \<le> int_of (member scope ''maxSegmentBytes'')"

definition verify_segment_commitment :: "(js \<Rightarrow> bool) \<Rightarrow> (string option \<Rightarrow> string \<Rightarrow> url option) \<Rightarrow> js \<Rightarrow> commitment_view \<Rightarrow> int \<Rightarrow> js option" where
  "verify_segment_commitment sig parse_url event view tm =
     (let seconds = seconds_of tm; stream = cv_stream view in
      if \<not> safe_integer (cv_max_bytes view) \<or> int_of (cv_max_bytes view) < 1 \<or> int_of (cv_max_bytes view) > max_commitment_bytes
         \<or> \<not> valid_stream_authorisation sig stream \<or> \<not> truthy event \<or> member event ''kind'' \<noteq> JInt kind_segment_commitment
         \<or> \<not> bounded_event event \<or> \<not> safe_integer (member event ''created_at'') \<or> int_of (member event ''created_at'') > seconds + 30
         \<or> int_of (member event ''created_at'') < seconds - 120 \<or> \<not> sig event
         \<or> tag_value event ''x'' \<noteq> JStr (cv_swarm view) \<or> \<not> strict_eq (tag_value event ''e'') (member stream ''id'') then None
      else (case json_parse (js_string (member event ''content'')) of
          None \<Rightarrow> None
        | Some x \<Rightarrow>
            if member event ''content'' \<noteq> JStr (commitment_content x) \<or> \<not> commitment_fields_ok view seconds x then None
            else if schema x = 3 \<and> \<not> pieces_ok x then None
            else if \<not> media_binding_ok parse_url (cv_context view) x then None
            else if strict_eq (member event ''pubkey'') (member stream ''pubkey'') then Some x
            else (case verify_commitment_delegation sig (cv_delegation view) stream (cv_swarm view) (cv_delegations view) tm of
                None \<Rightarrow> None
              | Some scope \<Rightarrow> if within_scope event (cv_delegation view) scope x then Some x else None)))"

end
