(* ===== verification/Publisher_State.thy ===== *)
theory Publisher_State
  imports Segment_Commitment
begin

text \<open>
  The publisher's identity and the authorisations that it issues, \<open>src/publisher-state.mjs\<close>: the stream
  event, delegations, revocations, and the decoding of the stored state.

  The signer is the record \<open>signer\<close> for one secret key: its public key and \<open>finalizeEvent\<close>.  SHA-256 is
  \<open>digest\<close>, in hexadecimal.  A throw is \<open>None\<close>.  The file system around the stored text is not modelled.
\<close>

record signer =
  sn_pubkey :: string
  sn_finalize :: "js \<Rightarrow> js"

definition event_draft :: "int \<Rightarrow> int \<Rightarrow> js list list \<Rightarrow> string \<Rightarrow> js" where
  "event_draft kind created tags content =
     JObj [(''kind'', JInt kind), (''created_at'', JInt created), (''tags'', JArr (map JArr tags)), (''content'', JStr content)]"

definition publisher_swarm_id :: "js \<Rightarrow> js option" where
  "publisher_swarm_id v = (case v of JStr s \<Rightarrow> if length s < 8 \<or> length s > 128 then None else Some v | _ \<Rightarrow> None)"

definition publisher_stream_event :: "(string \<Rightarrow> string) \<Rightarrow> signer \<Rightarrow> string \<Rightarrow> int \<Rightarrow> js" where
  "publisher_stream_event digest key manifest now =
     sn_finalize key (event_draft 30311 (now div 1000)
       [[JStr ''d'', JStr (take 24 (digest manifest))], [JStr ''relayswarm'', JStr ''redistribute'', JStr ''1'']]
       ''RelaySwarm experimental publisher'')"

text \<open>\<open>allow_external\<close> matters only without a key.\<close>

definition validate_publisher_stream_event :: "(js \<Rightarrow> bool) \<Rightarrow> (string \<Rightarrow> string) \<Rightarrow> js \<Rightarrow> signer option \<Rightarrow> string \<Rightarrow> bool \<Rightarrow> js option" where
  "validate_publisher_stream_event sig digest event key manifest allow_external =
     (let ds = tag_matches event ''d'' in
      if \<not> valid_stream_authorisation sig event
         \<or> (case key of None \<Rightarrow> \<not> allow_external | Some k \<Rightarrow> member event ''pubkey'' \<noteq> JStr (sn_pubkey k))
         \<or> length ds \<noteq> 1 \<or> at_index (elems (hd ds)) 1 \<noteq> JStr (take 24 (digest manifest)) then None
      else Some event)"

record delegation_args =
  da_delegate :: js
  da_not_before :: "int option"
  da_expires :: "int option"
  da_renditions :: js
  da_media_types :: js
  da_allow_parts :: js
  da_max_bytes :: js

definition delegation_object :: "js \<Rightarrow> string \<Rightarrow> int \<Rightarrow> delegation_args \<Rightarrow> js" where
  "delegation_object stream swarm created a =
     JObj [(''streamEventId'', member stream ''id''), (''swarmId'', JStr swarm), (''delegatePubkey'', da_delegate a),
       (''notBefore'', JInt (case da_not_before a of None \<Rightarrow> created | Some t \<Rightarrow> t)),
       (''expiresAt'', JInt (case da_expires a of None \<Rightarrow> created + 300 | Some t \<Rightarrow> t)), (''renditions'', da_renditions a),
       (''mediaTypes'', da_media_types a), (''allowParts'', da_allow_parts a), (''maxSegmentBytes'', da_max_bytes a)]"

definition no_revocations :: delegation_view where
  "no_revocations = \<lparr>dv_revoked_ids = JUndefined, dv_revocations = JUndefined\<rparr>"

definition create_commitment_delegation :: "(js \<Rightarrow> bool) \<Rightarrow> signer \<Rightarrow> js \<Rightarrow> string \<Rightarrow> delegation_args \<Rightarrow> int \<Rightarrow> js option" where
  "create_commitment_delegation sig key stream swarm a now =
     (let created = now div 1000 in
      if \<not> valid_stream_authorisation sig stream \<or> member stream ''pubkey'' \<noteq> JStr (sn_pubkey key) then None
      else (let event = sn_finalize key (event_draft kind_commitment_delegation created
                  [[JStr ''x'', JStr swarm], [JStr ''e'', member stream ''id'']]
                  (delegation_content (delegation_object stream swarm created a)))
            in if verify_commitment_delegation sig event stream swarm no_revocations
                    ((case da_not_before a of None \<Rightarrow> created | Some t \<Rightarrow> t) * 1000) = None then None else Some event))"

definition revocation_object :: "js \<Rightarrow> string \<Rightarrow> js \<Rightarrow> js" where
  "revocation_object stream swarm delegation =
     JObj [(''streamEventId'', member stream ''id''), (''swarmId'', JStr swarm), (''delegationId'', member delegation ''id'')]"

text \<open>When the delegation is valid, if ever: the later of its creation and its activation.\<close>

definition delegation_start :: "js \<Rightarrow> int option" where
  "delegation_start delegation =
     map_option (\<lambda>x. max (int_of (member delegation ''created_at'')) (int_of (member x ''notBefore'')))
       (json_parse (js_string (member delegation ''content'')))"

definition create_commitment_revocation :: "(js \<Rightarrow> bool) \<Rightarrow> signer \<Rightarrow> js \<Rightarrow> string \<Rightarrow> js \<Rightarrow> int \<Rightarrow> js option" where
  "create_commitment_revocation sig key stream swarm delegation now =
     (if \<not> valid_stream_authorisation sig stream \<or> member stream ''pubkey'' \<noteq> JStr (sn_pubkey key) then None
      else (case delegation_start delegation of
          None \<Rightarrow> None
        | Some start \<Rightarrow>
            if verify_commitment_delegation sig delegation stream swarm no_revocations (start * 1000) = None
               \<or> now div 1000 < int_of (member delegation ''created_at'') then None
            else Some (sn_finalize key (event_draft kind_commitment_revocation (now div 1000)
                   [[JStr ''x'', JStr swarm], [JStr ''e'', member delegation ''id'']]
                   (revocation_content (revocation_object stream swarm delegation))))))"

text \<open>\<open>decodeState\<close>; \<open>key_of\<close> is the signer of a secret key.\<close>

definition decode_state :: "(js \<Rightarrow> bool) \<Rightarrow> (string \<Rightarrow> string) \<Rightarrow> (string \<Rightarrow> signer) \<Rightarrow> string \<Rightarrow> string \<Rightarrow> js
    \<Rightarrow> (string \<times> js \<times> js) option" where
  "decode_state sig digest key_of text manifest requested =
     (case json_parse text of
        None \<Rightarrow> None
      | Some state \<Rightarrow>
          if member state ''v'' \<noteq> JInt 1 \<or> member state ''manifest'' \<noteq> JStr manifest \<or> \<not> is_string (member state ''secretKey'')
             \<or> \<not> hex64_test (member state ''secretKey'') then None
          else (let secret = js_string (member state ''secretKey'') in
            (case validate_publisher_stream_event sig digest (member state ''streamEvent'') (Some (key_of secret)) manifest False of
               None \<Rightarrow> None
             | Some stream \<Rightarrow>
                 (case publisher_swarm_id (member state ''swarmId'') of
                    None \<Rightarrow> None
                  | Some swarm \<Rightarrow> if requested \<noteq> JUndefined \<and> requested \<noteq> swarm then None else Some (secret, stream, swarm)))))"

text \<open>What \<open>loadPublisherState\<close> stores for a new identity.\<close>

definition stored_state :: "string \<Rightarrow> string \<Rightarrow> js \<Rightarrow> js \<Rightarrow> string" where
  "stored_state manifest secret stream swarm =
     json_text (JObj [(''v'', JInt 1), (''manifest'', JStr manifest), (''secretKey'', JStr secret), (''streamEvent'', stream), (''swarmId'', swarm)])"

definition new_identity :: "(string \<Rightarrow> string) \<Rightarrow> (string \<Rightarrow> signer) \<Rightarrow> string \<Rightarrow> string \<Rightarrow> js \<Rightarrow> int \<Rightarrow> string \<times> js \<times> js" where
  "new_identity digest key_of secret manifest requested now =
     (let stream = publisher_stream_event digest (key_of secret) manifest now
      in (secret, stream, if requested = JUndefined then JStr (''publisher-'' @ take 32 (js_string (member stream ''id''))) else requested))"

end
