(* ===== verification/Segment_Commitment_Claims.thy ===== *)
theory Segment_Commitment_Claims
  imports Publisher_State
begin

text \<open>
  The table of proved signatures is transparent, and a revocation is final: the memory of
  \<open>validSignature\<close> refines the plain check, and what the author revokes no longer verifies.
\<close>

subsection \<open>The memory of proved signatures\<close>

text \<open>
  What nostr-tools documents: \<open>getEventHash\<close> hashes only valid events, whose public key is 64 hexadecimal
  digits, to 64 digits; \<open>verifyEvent\<close> of an event with the right id checks the signature of the hash.
\<close>

definition signs_hashes :: "signing \<Rightarrow> (string \<Rightarrow> string \<Rightarrow> string \<Rightarrow> bool) \<Rightarrow> bool" where
  "signs_hashes sg schnorr \<longleftrightarrow> (\<forall>c h. sg_hash sg c = Some h \<longrightarrow> length h = 64
     \<and> (\<exists>p. member c ''pubkey'' = JStr p \<and> length p = 64)
     \<and> (member c ''id'' = JStr h \<longrightarrow> sg_verify sg c = schnorr h (js_string (member c ''pubkey'')) (js_string (member c ''sig''))))"

text \<open>The verdict that a key of the table stands for.\<close>

definition proof_of :: "(string \<Rightarrow> string \<Rightarrow> string \<Rightarrow> bool) \<Rightarrow> string \<Rightarrow> bool option" where
  "proof_of schnorr k = (if schnorr (take 64 k) (take 64 (drop 65 k)) (drop 130 k) then Some True else None)"

interpretation proved: bounded_memo "lru_get proved_capacity (proof_of schnorr)" "memo_ok proved_capacity (proof_of schnorr)"
  length proved_capacity "proof_of schnorr" for schnorr
  by (rule lru_bounded_memo) (simp add: proved_capacity_def)

lemma proof_of_key:
  assumes "signs_hashes sg schnorr" and "sg_hash sg c = Some h" and "member c ''id'' = JStr h"
  shows "proof_of schnorr (proved_key h c) = (if sg_verify sg c then Some True else None)"
proof -
  from assms obtain p where len: "length h = 64" "length p = 64" and p: "member c ''pubkey'' = JStr p"
    and v: "sg_verify sg c = schnorr h (js_string (member c ''pubkey'')) (js_string (member c ''sig''))"
    by (auto simp: signs_hashes_def)
  have k: "proved_key h c = h @ CHR '':'' # p @ CHR '':'' # js_string (member c ''sig'')"
    by (simp add: proved_key_def p)
  show ?thesis
    by (simp add: proof_of_def k v p len)
qed

text \<open>The code's lookup is one lookup of the memo table.\<close>

lemma valid_signature_lru:
  assumes "signs_hashes sg schnorr" and "sg_hash sg (event_copy e) = Some h" and "member (event_copy e) ''id'' = JStr h"
    and "is_string (member (event_copy e) ''sig'')" and "memo_ok proved_capacity (proof_of schnorr) m"
  shows "snd (valid_signature sg e m) = snd (lru_get proved_capacity (proof_of schnorr) (proved_key h (event_copy e)) m)"
    and "fst (valid_signature sg e m) \<longleftrightarrow> fst (lru_get proved_capacity (proof_of schnorr) (proved_key h (event_copy e)) m) \<noteq> None"
proof -
  let ?k = "proved_key h (event_copy e)"
  have key: "proof_of schnorr ?k = (if sg_verify sg (event_copy e) then Some True else None)"
    using assms(1-3) by (rule proof_of_key)
  have hit: "jget m ?k = Some v \<Longrightarrow> v" for v
    using assms(5) key by (auto simp: memo_ok_def proof_of_def split: if_splits)
  then show "snd (valid_signature sg e m) = snd (lru_get proved_capacity (proof_of schnorr) ?k m)"
    and "fst (valid_signature sg e m) \<longleftrightarrow> fst (lru_get proved_capacity (proof_of schnorr) ?k m) \<noteq> None"
    using assms(2-4) key by (auto simp: valid_signature_def lru_get_def Let_def jhas_def split: option.split)
qed

lemma valid_signature_step:
  assumes "signs_hashes sg schnorr" and "memo_ok proved_capacity (proof_of schnorr) m"
  shows "memo_ok proved_capacity (proof_of schnorr) (snd (valid_signature sg e m))"
    and "fst (valid_signature sg e m) = signature_ok sg e"
proof -
  have *: "memo_ok proved_capacity (proof_of schnorr) (snd (valid_signature sg e m))
      \<and> fst (valid_signature sg e m) = signature_ok sg e"
  proof (cases "\<exists>h. sg_hash sg (event_copy e) = Some h \<and> member (event_copy e) ''id'' = JStr h \<and> is_string (member (event_copy e) ''sig'')")
    case True
    then obtain h where h: "sg_hash sg (event_copy e) = Some h" "member (event_copy e) ''id'' = JStr h"
      "is_string (member (event_copy e) ''sig'')" by blast
    note lru = valid_signature_lru [OF assms(1) h assms(2)]
    show ?thesis
      using proved.ok_find [OF assms(2)] proved.value_find [OF assms(2)] proof_of_key [OF assms(1) h(1,2)] lru h
      by (cases "sg_verify sg (event_copy e)") (simp_all add: signature_ok_def)
  next
    case False
    then have "valid_signature sg e m = (False, m)" and "\<not> signature_ok sg e"
      by (auto simp: valid_signature_def signature_ok_def Let_def split: option.split)
    then show ?thesis using assms(2) by simp
  qed
  then show "memo_ok proved_capacity (proof_of schnorr) (snd (valid_signature sg e m))"
    and "fst (valid_signature sg e m) = signature_ok sg e" by auto
qed

lemma proved_after:
  assumes "signs_hashes sg schnorr" and "memo_ok proved_capacity (proof_of schnorr) m"
  shows "memo_ok proved_capacity (proof_of schnorr) (fold (\<lambda>e m. snd (valid_signature sg e m)) es m)"
  using assms(2) by (induction es arbitrary: m) (simp_all add: valid_signature_step(1) [OF assms(1)])

text \<open>
  C33: the memory of proved signatures refines the plain check. After any sequence of checks, whatever
  events they were about and whatever was forgotten, the remembered verdict on any event is the verdict of
  hashing it and verifying its signature, and the table holds at most 512 proofs.
\<close>

theorem proved_refines_check:
  assumes "signs_hashes sg schnorr" and "proved = fold (\<lambda>e m. snd (valid_signature sg e m)) earlier []"
  shows "fst (valid_signature sg e proved) = signature_ok sg e \<and> length proved \<le> 512"
proof -
  have "memo_ok proved_capacity (proof_of schnorr) proved"
    unfolding assms(2) by (rule proved_after [OF assms(1)]) (simp add: memo_ok_def)
  then show ?thesis
    using valid_signature_step(2) [OF assms(1)] proved.size_ok by (auto simp: proved_capacity_def)
qed

definition ex_signing :: signing where
  "ex_signing = \<lparr>sg_hash = (\<lambda>c. case member c ''pubkey'' of JStr p \<Rightarrow> if length p = 64 then Some (replicate 64 CHR ''h'') else None | _ \<Rightarrow> None),
     sg_verify = (\<lambda>c. js_string (member c ''sig'') = ''s'')\<rparr>"

lemma ex_signing_ok: "signs_hashes ex_signing (\<lambda>h p s. s = ''s'')"
  by (auto simp: signs_hashes_def ex_signing_def split: js.splits if_splits)

definition ex_signed :: "string \<Rightarrow> js" where
  "ex_signed s = JObj [(''id'', JStr (replicate 64 CHR ''h'')), (''pubkey'', JStr (replicate 64 CHR ''p'')), (''sig'', JStr s)]"

theorem proved_refines_check_witness:
  "fst (valid_signature ex_signing (ex_signed ''t'') (snd (valid_signature ex_signing (ex_signed ''s'') []))) = False
    \<and> length (snd (valid_signature ex_signing (ex_signed ''s'') [])) = 1"
proof -
  have "signature_ok ex_signing (ex_signed ''t'') = False" and "length (snd (valid_signature ex_signing (ex_signed ''s'') [])) = 1"
    by (simp_all add: signature_ok_def valid_signature_def ex_signing_def ex_signed_def event_copy_def Let_def jget_def jhas_def proved_capacity_def)
  then show ?thesis
    using proved_refines_check [OF ex_signing_ok, of _ "[ex_signed ''s'']" "ex_signed ''t''"] by simp
qed

subsection \<open>Revocation\<close>

text \<open>What nostr-tools documents of \<open>finalizeEvent\<close>: it keeps the draft's fields and signs it with the key.\<close>

definition honest_signer :: "signing \<Rightarrow> signer \<Rightarrow> bool" where
  "honest_signer sg key \<longleftrightarrow> (\<forall>d. signature_ok sg (sn_finalize key d) \<and> member (sn_finalize key d) ''pubkey'' = JStr (sn_pubkey key)
     \<and> (\<forall>k \<in> {''kind'', ''created_at'', ''tags'', ''content''}. member (sn_finalize key d) k = member d k))"

lemma signature_ok_id: "signature_ok sg e \<Longrightarrow> \<exists>h. member e ''id'' = JStr h"
  by (auto simp: signature_ok_def Let_def event_copy_def jget_def split: option.splits)

lemma revocation_reads_back:
  assumes ids: "member stream ''id'' = JStr i" "member delegation ''id'' = JStr j"
  shows "\<exists>x. json_parse (revocation_content (revocation_object stream swarm delegation)) = Some x
     \<and> revocation_content (revocation_object stream swarm delegation) = revocation_content x
     \<and> member x ''domain'' = JStr revocation_domain \<and> member x ''v'' = JInt 1 \<and> member x ''streamEventId'' = member stream ''id''
     \<and> member x ''swarmId'' = JStr swarm \<and> member x ''delegationId'' = member delegation ''id''"
proof -
  let ?x = "JObj [(''domain'', JStr revocation_domain), (''v'', JInt 1), (''streamEventId'', JStr i), (''swarmId'', JStr swarm), (''delegationId'', JStr j)]"
  have printed: "revocation_content (revocation_object stream swarm delegation) = json_text ?x"
    by (simp add: revocation_content_def revocation_object_def pick_fields_def jget_def ids)
  moreover have "revocation_content ?x = json_text ?x"
    by (simp add: revocation_content_def pick_fields_def jget_def)
  moreover have "json_parse (json_text ?x) = Some ?x"
    by (rule json_roundtrip) (simp add: jwf_def)
  ultimately show ?thesis
    by (intro exI [of _ ?x]) (simp add: jget_def ids)
qed

lemma created_delegation_facts:
  assumes "create_commitment_revocation (signature_ok sg) key stream swarm delegation t0 = Some r"
  shows "valid_stream_authorisation (signature_ok sg) stream" and "member stream ''pubkey'' = JStr (sn_pubkey key)"
    and "signature_ok sg delegation" and "int_of (member delegation ''created_at'') \<le> t0 div 1000"
    and "r = sn_finalize key (event_draft kind_commitment_revocation (t0 div 1000)
           [[JStr ''x'', JStr swarm], [JStr ''e'', member delegation ''id'']] (revocation_content (revocation_object stream swarm delegation)))"
  using assms
  by (auto simp: create_commitment_revocation_def verify_commitment_delegation_def Let_def split: if_splits option.splits)

lemma revocation_binds:
  assumes "honest_signer sg key" and "create_commitment_revocation (signature_ok sg) key stream swarm delegation t0 = Some r"
    and "bounded_event r" and "safe_integer (JInt (t0 div 1000))" and "t0 div 1000 \<le> seconds + 30"
  shows "binding_revocation (signature_ok sg) stream swarm delegation seconds r \<and> revokes stream swarm delegation r"
proof -
  note facts = created_delegation_facts [OF assms(2)]
  obtain j where j: "member delegation ''id'' = JStr j" using signature_ok_id [OF facts(3)] by blast
  obtain i where i: "member stream ''id'' = JStr i"
    using facts(1) signature_ok_id by (auto simp: valid_stream_authorisation_def)
  let ?c = "revocation_content (revocation_object stream swarm delegation)"
  have r: "member r ''kind'' = JInt kind_commitment_revocation" "member r ''created_at'' = JInt (t0 div 1000)" "member r ''content'' = JStr ?c"
      "member r ''tags'' = JArr [JArr [JStr ''x'', JStr swarm], JArr [JStr ''e'', JStr j]]" "member r ''pubkey'' = JStr (sn_pubkey key)" "signature_ok sg r"
    using assms(1) unfolding facts(5) honest_signer_def by (simp_all add: event_draft_def jget_def j)
  have "truthy r" using r(1) by (cases r) auto
  moreover have "tag_value r ''e'' = JStr j" and "tag_value r ''x'' = JStr swarm"
    by (simp_all add: tag_value_def tag_matches_def r(4))
  ultimately have "binding_revocation (signature_ok sg) stream swarm delegation seconds r"
    using assms(3-5) facts(2,4) r by (simp add: binding_revocation_def j)
  moreover have "revokes stream swarm delegation r"
    using revocation_reads_back [where swarm = swarm, OF i j] by (force simp: revokes_def r(3) i j)
  ultimately show ?thesis by simp
qed

lemma revoked_is_refused:
  assumes "binding_revocation sig stream swarm event (seconds_of tm) r \<and> revokes stream swarm event r" and "r \<in> set (elems (dv_revocations view))"
  shows "verify_commitment_delegation sig event stream swarm view tm = None"
proof -
  have "elems (default_array (dv_revocations view)) = elems (dv_revocations view)" by (simp add: default_array_def)
  then have "list_ex (\<lambda>r. binding_revocation sig stream swarm event (seconds_of tm) r \<and> revokes stream swarm event r)
      (elems (default_array (dv_revocations view)))"
    using assms by (auto simp: list_ex_iff)
  then show ?thesis by (simp add: verify_commitment_delegation_def Let_def split: option.split)
qed

text \<open>
  C34: a revocation is final. When the author revokes a delegation and a host's view holds the revocation (of
  at most 16 KiB, at a clock at most 30 seconds behind the author's), the delegation no longer verifies there,
  with whatever else the view holds, and no commitment by anybody but the author verifies with it.
\<close>

theorem revocation_final:
  assumes "honest_signer sg key" and "create_commitment_revocation (signature_ok sg) key stream swarm delegation t0 = Some r"
    and "bounded_event r" and "safe_integer (JInt (t0 div 1000))" and "t0 div 1000 \<le> tm div 1000 + 30"
    and "r \<in> set (elems (dv_revocations view))"
  shows "verify_commitment_delegation (signature_ok sg) delegation stream swarm view tm = None
    \<and> (cv_stream w = stream \<and> cv_swarm w = swarm \<and> cv_delegation w = delegation \<and> cv_delegations w = view
        \<and> \<not> strict_eq (member event ''pubkey'') (member stream ''pubkey'')
      \<longrightarrow> verify_segment_commitment (signature_ok sg) parse_url event w tm = None)"
proof -
  have "verify_commitment_delegation (signature_ok sg) delegation stream swarm view tm = None"
    using revoked_is_refused [OF revocation_binds [OF assms(1-4)] assms(6)] assms(5) by (simp add: seconds_of_def)
  then show ?thesis
    by (auto simp: verify_segment_commitment_def Let_def split: option.split)
qed

definition ex_signer :: signer where
  "ex_signer = \<lparr>sn_pubkey = replicate 64 CHR ''a'', sn_finalize = (\<lambda>d. JObj [(''id'', JStr (replicate 64 CHR ''h'')),
     (''pubkey'', JStr (replicate 64 CHR ''a'')), (''created_at'', member d ''created_at''), (''kind'', member d ''kind''),
     (''tags'', member d ''tags''), (''content'', member d ''content''), (''sig'', JStr ''s'')])\<rparr>"

lemma ex_signer_honest: "honest_signer ex_signing ex_signer"
  by (simp add: honest_signer_def ex_signer_def ex_signing_def signature_ok_def Let_def event_copy_def jget_def)

definition ex_stream :: js where
  "ex_stream = publisher_stream_event (\<lambda>_. replicate 64 CHR ''0'') ex_signer ''m'' 5000"

definition ex_args :: delegation_args where
  "ex_args = \<lparr>da_delegate = JStr (replicate 64 CHR ''b''), da_not_before = None, da_expires = None,
     da_renditions = JArr [JStr ''0''], da_media_types = JArr [JStr ''main''], da_allow_parts = JBool True, da_max_bytes = JInt 4096\<rparr>"

definition ex_delegation :: js where
  "ex_delegation = sn_finalize ex_signer (event_draft kind_commitment_delegation 5 [[JStr ''x'', JStr ''swarm''], [JStr ''e'', member ex_stream ''id'']]
     (delegation_content (delegation_object ex_stream ''swarm'' 5 ex_args)))"

definition ex_revocation :: js where
  "ex_revocation = sn_finalize ex_signer (event_draft kind_commitment_revocation 6 [[JStr ''x'', JStr ''swarm''], [JStr ''e'', member ex_delegation ''id'']]
     (revocation_content (revocation_object ex_stream ''swarm'' ex_delegation)))"

lemma length_escapes: "length (concat (map escape_char s)) \<le> 6 * length s"
  by (induction s) (auto simp: escape_char_def)

lemma ex_content: "length (delegation_content (delegation_object ex_stream ''swarm'' 5 ex_args)) < 600"
  by (simp add: ex_args_def ex_stream_def publisher_stream_event_def ex_signer_def delegation_content_def delegation_object_def delegation_domain_def pick_fields_def
        jget_def string_text_def escape_char_def control_char_def int_text_def nat_text.simps map_replicate length_concat sum_list_replicate)

lemma bounded_signed:
  assumes "length c < 600" and "length (json_text (JArr (map JArr tags))) < 400" and "length (int_text kind) < 100" and "length (int_text created) < 100"
  shows "bounded_event (sn_finalize ex_signer (event_draft kind created tags c))"
proof -
  have "length (json_text (sn_finalize ex_signer (event_draft kind created tags c))) \<le> 1000
      + length (json_text (JArr (map JArr tags))) + length (int_text kind) + length (int_text created) + 6 * length c"
    using length_escapes [of c]
    by (simp add: ex_signer_def event_draft_def jget_def string_text_def escape_char_def control_char_def map_replicate length_concat sum_list_replicate del: map_map)
  then show ?thesis
    using assms utf8_length_le [of "json_text (sn_finalize ex_signer (event_draft kind created tags c))"] by (simp add: bounded_event_def del: json_text.simps)
qed

lemmas ex_text_defs = ex_stream_def publisher_stream_event_def ex_signer_def jget_def event_draft_def pick_fields_def string_text_def escape_char_def
  control_char_def int_text_def nat_text.simps map_replicate length_concat sum_list_replicate

lemma ex_bounded: "bounded_event ex_stream" "bounded_event ex_delegation" "bounded_event ex_revocation"
proof -
  show "bounded_event ex_stream"
    unfolding ex_stream_def publisher_stream_event_def by (rule bounded_signed) (simp_all add: ex_text_defs)
  show "bounded_event ex_delegation"
    unfolding ex_delegation_def using ex_content by (rule bounded_signed) (simp_all add: ex_text_defs kind_commitment_delegation_def)
  show "bounded_event ex_revocation"
    unfolding ex_revocation_def
    by (rule bounded_signed) (simp_all add: ex_text_defs ex_delegation_def kind_commitment_revocation_def revocation_content_def revocation_object_def revocation_domain_def)
qed

lemma ex_stream_ok: "valid_stream_authorisation (signature_ok ex_signing) ex_stream"
  using ex_bounded(1) ex_signer_honest
  by (simp add: valid_stream_authorisation_def ex_stream_def publisher_stream_event_def honest_signer_def event_draft_def jget_def tag_value_def tag_matches_def)

lemma ex_delegation_reads: "\<exists>x. json_parse (delegation_content (delegation_object ex_stream ''swarm'' 5 ex_args)) = Some x
    \<and> delegation_content (delegation_object ex_stream ''swarm'' 5 ex_args) = delegation_content x \<and> delegation_scope_ok ex_stream ''swarm'' 5 5 x
    \<and> member x ''notBefore'' = JInt 5"
proof -
  let ?x = "JObj [(''domain'', JStr delegation_domain), (''v'', JInt 1), (''streamEventId'', JStr (replicate 64 CHR ''h'')), (''swarmId'', JStr ''swarm''),
    (''delegatePubkey'', JStr (replicate 64 CHR ''b'')), (''notBefore'', JInt 5), (''expiresAt'', JInt 305), (''renditions'', JArr [JStr ''0'']),
    (''mediaTypes'', JArr [JStr ''main'']), (''allowParts'', JBool True), (''maxSegmentBytes'', JInt 4096)]"
  have content: "delegation_content (delegation_object ex_stream ''swarm'' 5 ex_args) = json_text ?x" "delegation_content ?x = json_text ?x"
    by (simp_all add: delegation_content_def delegation_object_def pick_fields_def jget_def ex_args_def ex_stream_def publisher_stream_event_def ex_signer_def)
  have "json_parse (json_text ?x) = Some ?x"
    by (rule json_roundtrip) (simp add: jwf_def)
  moreover have "delegation_scope_ok ex_stream ''swarm'' 5 5 ?x"
    by (simp add: delegation_scope_ok_def jget_def ex_stream_def publisher_stream_event_def ex_signer_def hex64_test_def hex_string_def list_all_iff
          lower_hex_char_def safe_int_def max_safe_def no_repeats_def level_name_def media_type_def max_commitment_bytes_def)
  ultimately show ?thesis using content by (intro exI [of _ ?x]) (simp add: jget_def)
qed

lemma ex_delegation_fields:
  "member ex_delegation ''kind'' = JInt kind_commitment_delegation" "member ex_delegation ''created_at'' = JInt 5"
  "member ex_delegation ''content'' = JStr (delegation_content (delegation_object ex_stream ''swarm'' 5 ex_args))"
  "member ex_delegation ''pubkey'' = JStr (sn_pubkey ex_signer)" "member ex_stream ''pubkey'' = JStr (sn_pubkey ex_signer)"
  "signature_ok ex_signing ex_delegation" "truthy ex_delegation"
  "tag_value ex_delegation ''x'' = JStr ''swarm''" "tag_value ex_delegation ''e'' = member ex_stream ''id''" "strict_eq (member ex_stream ''id'') (member ex_stream ''id'')"
proof -
  have "signature_ok ex_signing (sn_finalize ex_signer d)" for d
    using ex_signer_honest by (simp add: honest_signer_def)
  then show "signature_ok ex_signing ex_delegation" by (simp add: ex_delegation_def)
qed (simp_all add: ex_delegation_def event_draft_def jget_def tag_value_def tag_matches_def ex_stream_def publisher_stream_event_def ex_signer_def)

lemma ex_delegation_ok: "verify_commitment_delegation (signature_ok ex_signing) ex_delegation ex_stream ''swarm'' no_revocations 5000 \<noteq> None"
proof -
  obtain x where "json_parse (delegation_content (delegation_object ex_stream ''swarm'' 5 ex_args)) = Some x"
    "delegation_content (delegation_object ex_stream ''swarm'' 5 ex_args) = delegation_content x" "delegation_scope_ok ex_stream ''swarm'' 5 5 x"
    using ex_delegation_reads by blast
  then show ?thesis
    by (simp add: verify_commitment_delegation_def seconds_of_def no_revocations_def default_array_def array_includes_def
        ex_delegation_fields ex_stream_ok ex_bounded safe_int_def max_safe_def Let_def)
qed

theorem revocation_final_witness:
  "create_commitment_revocation (signature_ok ex_signing) ex_signer ex_stream ''swarm'' ex_delegation 6000 = Some ex_revocation
   \<and> verify_commitment_delegation (signature_ok ex_signing) ex_delegation ex_stream ''swarm'' no_revocations 5000 \<noteq> None
   \<and> verify_commitment_delegation (signature_ok ex_signing) ex_delegation ex_stream ''swarm''
       \<lparr>dv_revoked_ids = JUndefined, dv_revocations = JArr [ex_revocation]\<rparr> 7000 = None"
proof -
  have "delegation_start ex_delegation = Some 5"
    using ex_delegation_reads by (auto simp: delegation_start_def ex_delegation_fields)
  then have made: "create_commitment_revocation (signature_ok ex_signing) ex_signer ex_stream ''swarm'' ex_delegation 6000 = Some ex_revocation"
    using ex_delegation_ok by (simp add: create_commitment_revocation_def ex_stream_ok ex_delegation_fields ex_revocation_def)
  show ?thesis
    using made ex_delegation_ok
      revocation_final [OF ex_signer_honest made ex_bounded(3), of 7000 "\<lparr>dv_revoked_ids = JUndefined, dv_revocations = JArr [ex_revocation]\<rparr>"]
    by (simp add: safe_int_def max_safe_def)
qed

end
