(* ===== verification/Stream_Discovery.thy ===== *)
theory Stream_Discovery
  imports Segment_Commitment
begin

text \<open>
  Signed stream metadata under a host's policy, \<open>src/browser/stream-discovery.mjs\<close>: the policy, one event,
  and the query that selects the newest event of every address.

  A policy is the record of the host's options, and a \<open>TypeError\<close> is \<open>None\<close>.  The platform's \<open>URL\<close> class is
  \<open>parse\<close>, the signature checks are \<open>sig\<close> (\<open>validStreamAuthorisation\<close>'s) and \<open>check\<close> (\<open>verifyEvent\<close>).
\<close>

record net_url = url +
  nu_hostname :: string
  nu_href :: string

type_synonym url_parser = "string \<Rightarrow> net_url option"

definition hex128 :: "js \<Rightarrow> bool" where "hex128 v \<longleftrightarrow> is_string v \<and> hex_string (js_string v) 128"
definition hex64 :: "js \<Rightarrow> bool" where "hex64 v \<longleftrightarrow> is_string v \<and> hex64_test v"
definition loopback :: "string list" where "loopback = [''localhost'', ''127.0.0.1'', ''[::1]'']"

text \<open>The class \<open>\s\<close> in Latin-1.\<close>

definition js_space :: "char \<Rightarrow> bool" where
  "js_space c \<longleftrightarrow> c \<in> {CHR 0x09, CHR 0x0A, CHR 0x0B, CHR 0x0C, CHR 0x0D, CHR 0x20, CHR 0xA0}"

subsection \<open>The policy\<close>

definition bounded_integer :: "js \<Rightarrow> int \<Rightarrow> int \<Rightarrow> int \<Rightarrow> int option" where
  "bounded_integer v fallback lo hi =
     (let v = if_nullish v (JInt fallback) in
      if safe_integer v \<and> lo \<le> int_of v \<and> int_of v \<le> hi then Some (int_of v) else None)"

text \<open>\<open>list\<close>: the elements of an array or a set; \<open>None\<close> is neither.\<close>

definition explicit_list :: "js list option \<Rightarrow> nat \<Rightarrow> js list option" where
  "explicit_list v maximum = (case v of None \<Rightarrow> None | Some xs \<Rightarrow> if xs = [] \<or> length xs > maximum then None else Some xs)"

definition safe_url :: "url_parser \<Rightarrow> js \<Rightarrow> string list \<Rightarrow> bool \<Rightarrow> string \<Rightarrow> net_url option" where
  "safe_url parse v protocols allow insecure =
     (if \<not> is_string v \<or> js_string v = [] \<or> length (js_string v) > 2048 \<or> list_ex (\<lambda>c. js_space c \<or> c = CHR 0x5C) (js_string v) then None
      else (case parse (js_string v) of
          None \<Rightarrow> None
        | Some u \<Rightarrow>
            if ur_user u \<noteq> [] \<or> ur_password u \<noteq> [] \<or> ur_hash u \<noteq> [] \<or> nu_hostname u = []
               \<or> (ur_protocol u \<notin> set protocols \<and> \<not> (allow \<and> ur_protocol u = insecure \<and> nu_hostname u \<in> set loopback)) then None
            else Some u))"

text \<open>\<open>/^(?:stun|stuns|turn|turns):[^\s\\#]+$/u\<close>.\<close>

definition ice_url :: "js \<Rightarrow> bool" where
  "ice_url v \<longleftrightarrow> is_string v \<and> length (js_string v) \<le> 2048
     \<and> (let s = js_string v; scheme = takeWhile (\<lambda>c. c \<noteq> CHR '':'') s; rest = drop (Suc (length scheme)) s in
        scheme \<in> {''stun'', ''stuns'', ''turn'', ''turns''} \<and> rest \<noteq> []
        \<and> list_all (\<lambda>c. \<not> js_space c \<and> c \<noteq> CHR 0x5C \<and> c \<noteq> CHR ''#'') rest)"

definition ice_field :: "js \<Rightarrow> string \<Rightarrow> (string \<times> js) list option" where
  "ice_field server name =
     (let v = member server name in
      if v = JUndefined then Some []
      else if \<not> is_string v \<or> length (js_string v) > 512 then None else Some [(name, v)])"

text \<open>One server, after \<open>count\<close> URLs; and all of them.\<close>

definition ice_server :: "nat \<Rightarrow> js \<Rightarrow> (nat \<times> js) option" where
  "ice_server count server =
     (let urls = (if is_array (member server ''urls'') then elems (member server ''urls'') else [member server ''urls'']);
          n = count + length urls in
      if \<not> object_or_array server \<or> urls = [] \<or> length urls > 8 \<or> n > 16 \<or> \<not> list_all ice_url urls then None
      else (case (ice_field server ''username'', ice_field server ''credential'') of
          (Some a, Some b) \<Rightarrow> Some (n, JObj ((''urls'', if is_array (member server ''urls'') then JArr urls else hd urls) # a @ b))
        | _ \<Rightarrow> None))"

fun ice_servers :: "nat \<Rightarrow> js list \<Rightarrow> js list option" where
  "ice_servers count [] = Some []"
| "ice_servers count (s # ss) =
     (case ice_server count s of
        None \<Rightarrow> None
      | Some (n, v) \<Rightarrow> map_option (Cons v) (ice_servers n ss))"

definition ice_policy :: "js \<Rightarrow> js list option" where
  "ice_policy v =
     (let v = default_array v in
      if \<not> is_array v \<or> length (elems v) > 8 then None else ice_servers 0 (elems v))"

record stream_policy =
  po_authors :: "js list option"
  po_swarm :: js
  po_loopback :: js
  po_origins :: "js list option"
  po_relays :: "js list option"
  po_authorisations :: js
  po_ice :: js
  po_max_age :: js
  po_max_future :: js
  po_max_bytes :: js

record compiled_policy =
  pc_streams :: "(string \<times> js) list"
  pc_authors :: "string list"
  pc_origins :: "string list"
  pc_relays :: "string list"
  pc_swarm :: string
  pc_ice :: "js list"
  pc_loopback :: bool
  pc_seconds :: int
  pc_max_age :: int
  pc_max_future :: int
  pc_max_bytes :: int

definition all_some :: "'a option list \<Rightarrow> 'a list option" where
  "all_some xs = (if None \<in> set xs then None else Some (map the xs))"

definition policy_authors :: "stream_policy \<Rightarrow> string list option" where
  "policy_authors p =
     (case explicit_list (po_authors p) 64 of
        None \<Rightarrow> None
      | Some xs \<Rightarrow> if list_all hex64 xs then Some (map js_string xs) else None)"

definition media_origin :: "url_parser \<Rightarrow> bool \<Rightarrow> js \<Rightarrow> string option" where
  "media_origin parse allow v =
     (case safe_url parse v [''https:''] allow ''http:'' of
        None \<Rightarrow> None
      | Some u \<Rightarrow> if ur_path u \<noteq> ''/'' \<or> ur_search u \<noteq> [] then None else Some (ur_origin u))"

definition policy_origins :: "url_parser \<Rightarrow> bool \<Rightarrow> stream_policy \<Rightarrow> string list option" where
  "policy_origins parse allow p =
     (case explicit_list (po_origins p) 32 of None \<Rightarrow> None | Some xs \<Rightarrow> all_some (map (media_origin parse allow) xs))"

definition policy_relays :: "url_parser \<Rightarrow> bool \<Rightarrow> stream_policy \<Rightarrow> string list option" where
  "policy_relays parse allow p =
     (case explicit_list (po_relays p) 8 of
        None \<Rightarrow> None
      | Some xs \<Rightarrow> map_option juniq (all_some (map (\<lambda>v. map_option nu_href (safe_url parse v [''wss:''] allow ''ws:'')) xs)))"

definition policy_streams :: "(js \<Rightarrow> bool) \<Rightarrow> string list \<Rightarrow> js \<Rightarrow> (string \<times> js) list option" where
  "policy_streams sig authors v =
     (let v = if_nullish v (JArr []) in
      if \<not> is_array v \<or> length (elems v) > 64 then None
      else if list_all (\<lambda>e. valid_stream_authorisation sig e \<and> js_string (member e ''pubkey'') \<in> set authors) (elems v)
      then Some (fold (\<lambda>e. jset (js_string (member e ''id'')) e) (elems v) [])
      else None)"

definition compile_policy :: "(js \<Rightarrow> bool) \<Rightarrow> url_parser \<Rightarrow> stream_policy \<Rightarrow> int \<Rightarrow> compiled_policy option" where
  "compile_policy sig parse p now =
     (let allow = (po_loopback p = JBool True); seconds = now div 1000 in
      if \<not> is_string (po_swarm p) \<or> length (js_string (po_swarm p)) < 8 \<or> length (js_string (po_swarm p)) > 128
         \<or> po_loopback p \<notin> {JUndefined, JBool True, JBool False} \<or> \<not> safe_int seconds \<or> seconds < 0 then None
      else (case (policy_authors p, policy_origins parse allow p, policy_relays parse allow p, ice_policy (po_ice p)) of
          (Some authors, Some origins, Some relays, Some ice) \<Rightarrow>
            (case (policy_streams sig authors (po_authorisations p), bounded_integer (po_max_age p) 3600 1 86400,
                bounded_integer (po_max_future p) 30 0 300, bounded_integer (po_max_bytes p) 16384 1024 16384) of
               (Some streams, Some age, Some future, Some bytes) \<Rightarrow>
                 Some \<lparr>pc_streams = streams, pc_authors = authors, pc_origins = origins, pc_relays = relays, pc_swarm = js_string (po_swarm p),
                   pc_ice = ice, pc_loopback = allow, pc_seconds = seconds, pc_max_age = age, pc_max_future = future, pc_max_bytes = bytes\<rparr>
             | _ \<Rightarrow> None)
        | _ \<Rightarrow> None))"

subsection \<open>One event\<close>

definition single_tag :: "js \<Rightarrow> string \<Rightarrow> nat \<Rightarrow> js list option" where
  "single_tag event name n =
     (case tag_matches event name of [t] \<Rightarrow> if length (elems t) = n then Some (elems t) else None | _ \<Rightarrow> None)"

definition single_value :: "js \<Rightarrow> string \<Rightarrow> js" where
  "single_value event name = (case single_tag event name 2 of None \<Rightarrow> JUndefined | Some t \<Rightarrow> t ! 1)"

datatype 'a wire = Oversize | NotEvent | Wire 'a

text \<open>The fields of a tag, and the tags, after \<open>n\<close> characters.\<close>

fun wire_fields :: "nat \<Rightarrow> nat \<Rightarrow> js list \<Rightarrow> nat wire" where
  "wire_fields maximum n [] = Wire n"
| "wire_fields maximum n (f # fs) =
     (case f of
        JStr s \<Rightarrow> if n + length s + 3 > maximum then Oversize else wire_fields maximum (n + length s + 3) fs
      | _ \<Rightarrow> NotEvent)"

fun wire_tags :: "nat \<Rightarrow> nat \<Rightarrow> js list \<Rightarrow> nat wire" where
  "wire_tags maximum n [] = Wire n"
| "wire_tags maximum n (t # ts) =
     (if \<not> is_array t \<or> elems t = [] then NotEvent
      else if length (elems t) > 128 then Oversize
      else (case wire_fields maximum n (elems t) of
          Wire m \<Rightarrow> wire_tags maximum m ts
        | Oversize \<Rightarrow> Oversize
        | NotEvent \<Rightarrow> NotEvent))"

definition wire_event :: "js \<Rightarrow> int \<Rightarrow> (js \<times> int) wire" where
  "wire_event v max_bytes =
     (let maximum = nat max_bytes; content = js_string (member v ''content''); tags = member v ''tags'' in
      if \<not> object_or_array v \<or> \<not> is_array tags \<or> \<not> is_string (member v ''content'') then NotEvent
      else if length content > maximum \<or> length (elems tags) > 2048 then Oversize
      else if \<not> hex64 (member v ''id'') \<or> \<not> hex64 (member v ''pubkey'') \<or> \<not> hex128 (member v ''sig'') \<or> member v ''kind'' \<noteq> JInt 30311
         \<or> \<not> safe_integer (member v ''created_at'') \<or> int_of (member v ''created_at'') < 0 then NotEvent
      else (case wire_tags maximum (length content) (elems tags) of
          Wire n \<Rightarrow>
            (let event = event_copy v; bytes = int (utf8_length (json_text event)) in
             if bytes > max_bytes then Oversize else Wire (event, bytes))
        | Oversize \<Rightarrow> Oversize
        | NotEvent \<Rightarrow> NotEvent))"

definition trusted_address :: "(js \<Rightarrow> bool) \<Rightarrow> js \<Rightarrow> compiled_policy \<Rightarrow> string option" where
  "trusted_address check event p =
     (let identifier = single_value event ''d'' in
      if js_string (member event ''pubkey'') \<notin> set (pc_authors p) \<or> \<not> truthy identifier \<or> length (js_string identifier) > 256
         \<or> int_of (member event ''created_at'') > pc_seconds p + pc_max_future p \<or> \<not> check event then None
      else Some (json_text (JArr [member event ''pubkey'', identifier])))"

text \<open>\<open>timestampTag\<close>: absent, not a number, or a number of seconds.\<close>

datatype timestamp = Absent | NoNumber | Seconds int

definition timestamp_tag :: "js \<Rightarrow> string \<Rightarrow> timestamp" where
  "timestamp_tag event name =
     (case tag_matches event name of
        [] \<Rightarrow> Absent
      | [t] \<Rightarrow>
          (let s = js_string (elems t ! 1) in
           if length (elems t) \<noteq> 2 \<or> s = [] \<or> \<not> list_all digit s \<or> \<not> safe_int (int (digits_value s)) then NoNumber
           else Seconds (int (digits_value s)))
      | _ \<Rightarrow> NoNumber)"

definition timestamp_ok :: "(int \<Rightarrow> bool) \<Rightarrow> timestamp \<Rightarrow> bool" where
  "timestamp_ok P t = (case t of Absent \<Rightarrow> True | NoNumber \<Rightarrow> False | Seconds n \<Rightarrow> P n)"

definition live_redistributable :: "(js \<Rightarrow> bool) \<Rightarrow> js \<Rightarrow> compiled_policy \<Rightarrow> bool" where
  "live_redistributable check event p \<longleftrightarrow>
     trusted_address check event p \<noteq> None \<and> int_of (member event ''created_at'') \<ge> pc_seconds p - pc_max_age p
     \<and> single_value event ''status'' = JStr ''live''
     \<and> (case single_tag event ''relayswarm'' 3 of None \<Rightarrow> False
        | Some t \<Rightarrow> js_string (t ! 1) @ '':'' @ js_string (t ! 2) = ''redistribute:1'')
     \<and> timestamp_ok (\<lambda>n. n \<le> pc_seconds p + pc_max_future p) (timestamp_tag event ''starts'')
     \<and> timestamp_ok (\<lambda>n. pc_seconds p < n) (timestamp_tag event ''ends'')
     \<and> timestamp_ok (\<lambda>n. pc_seconds p < n) (timestamp_tag event ''expiration'')"

text \<open>The event that authorises: the event itself, or the one that its link names.\<close>

definition linked_authorisation :: "(js \<Rightarrow> bool) \<Rightarrow> js \<Rightarrow> compiled_policy \<Rightarrow> js option" where
  "linked_authorisation sig event p =
     (case tag_matches event ''relayswarm-authorisation'' of
        [] \<Rightarrow> if pc_streams p \<noteq> [] then None else Some event
      | [link] \<Rightarrow>
          if length (elems link) \<noteq> 2 \<or> \<not> hex64_test (elems link ! 1) then None
          else (case jget (pc_streams p) (js_string (elems link ! 1)) of
              None \<Rightarrow> None
            | Some a \<Rightarrow>
                if member a ''pubkey'' \<noteq> member event ''pubkey'' \<or> \<not> valid_stream_authorisation sig a
                   \<or> single_value event ''d'' \<noteq> JStr (''live-'' @ js_string (member a ''id''))
                   \<or> single_value event ''relayswarm-swarm'' \<noteq> JStr (pc_swarm p) \<or> timestamp_tag event ''starts'' = Absent
                   \<or> \<not> (case timestamp_tag event ''expiration'' of Seconds n \<Rightarrow> n \<le> int_of (member event ''created_at'') + 300 | _ \<Rightarrow> False)
                then None else Some a)
      | _ \<Rightarrow> None)"

record resolved_stream =
  rs_manifest :: string
  rs_stream :: js
  rs_live :: js
  rs_swarm :: string
  rs_relays :: "string list"
  rs_ice :: "js list"
  rs_config :: js

definition resolved_with :: "compiled_policy \<Rightarrow> string \<Rightarrow> js \<Rightarrow> js \<Rightarrow> resolved_stream" where
  "resolved_with p href authorisation event =
     \<lparr>rs_manifest = href, rs_stream = authorisation, rs_live = event, rs_swarm = pc_swarm p, rs_relays = pc_relays p, rs_ice = pc_ice p,
      rs_config = JObj [(''swarmId'', JStr (pc_swarm p)), (''relays'', JArr (map JStr (pc_relays p))), (''iceServers'', JArr (pc_ice p)),
        (''streamEvent'', authorisation), (''serve'', JBool False)]\<rparr>"

definition resolve_event :: "(js \<Rightarrow> bool) \<Rightarrow> (js \<Rightarrow> bool) \<Rightarrow> url_parser \<Rightarrow> js \<Rightarrow> compiled_policy \<Rightarrow> resolved_stream option" where
  "resolve_event sig check parse event p =
     (let streaming = single_value event ''streaming'' in
      if \<not> live_redistributable check event p \<or> \<not> truthy streaming then None
      else (case safe_url parse streaming [''https:''] (pc_loopback p) ''http:'' of
          None \<Rightarrow> None
        | Some u \<Rightarrow>
            if ur_origin u \<notin> set (pc_origins p) then None
            else map_option (\<lambda>a. resolved_with p (nu_href u) a event) (linked_authorisation sig event p)))"

text \<open>\<open>resolveTrustedStream\<close>: a bad policy throws.\<close>

definition resolve_trusted_stream :: "(js \<Rightarrow> bool) \<Rightarrow> (js \<Rightarrow> bool) \<Rightarrow> url_parser \<Rightarrow> js \<Rightarrow> stream_policy \<Rightarrow> int \<Rightarrow> resolved_stream option option" where
  "resolve_trusted_stream sig check parse v p now =
     map_option (\<lambda>c. case wire_event v (pc_max_bytes c) of Wire (e, n) \<Rightarrow> resolve_event sig check parse e c | _ \<Rightarrow> None)
       (compile_policy sig parse p now)"

subsection \<open>The query\<close>

fun text_less :: "string \<Rightarrow> string \<Rightarrow> bool" where
  "text_less [] t = (t \<noteq> [])"
| "text_less (c # s) [] = False"
| "text_less (c # s) (d # t) = (c < d \<or> (c = d \<and> text_less s t))"

text \<open>\<open>compare(a, b) < 0\<close>: newer, or as new with the lower id.\<close>

definition event_before :: "js \<Rightarrow> js \<Rightarrow> bool" where
  "event_before a b \<longleftrightarrow>
     (let s = int_of (member a ''created_at''); t = int_of (member b ''created_at'') in
      t < s \<or> (s = t \<and> text_less (js_string (member a ''id'')) (js_string (member b ''id''))))"

fun insert_event :: "js \<Rightarrow> js list \<Rightarrow> js list" where
  "insert_event e [] = [e]"
| "insert_event e (x # xs) = (if event_before x e then x # insert_event e xs else e # x # xs)"

definition sort_events :: "js list \<Rightarrow> js list" where
  "sort_events es = foldr insert_event es []"

text \<open>
  One turn of the loop that reads the host's source: an abort seen before or after the item is awaited, or
  while it is (the race is lost), the clock, and the item.
\<close>

datatype pulled = Yields js | Finished | Fails | Hangs string

record turn =
  tu_before :: "string option"
  tu_now :: int
  tu_pulled :: pulled
  tu_after :: "string option"

record query_limits =
  ql_events :: int
  ql_results :: int
  ql_bytes :: int
  ql_deadline :: int

text \<open>What the loop does with an item: the new totals and the newest events by address.\<close>

type_synonym gathered = "int \<times> int \<times> (string \<times> js) list"

definition keep_newest :: "(js \<Rightarrow> bool) \<Rightarrow> compiled_policy \<Rightarrow> js \<Rightarrow> (string \<times> js) list \<Rightarrow> (string \<times> js) list" where
  "keep_newest check p e latest =
     (case trusted_address check e p of
        None \<Rightarrow> latest
      | Some a \<Rightarrow>
          (case jget latest a of
             None \<Rightarrow> jset a e latest
           | Some previous \<Rightarrow> if event_before e previous then jset a e latest else latest))"

definition take_item :: "(js \<Rightarrow> bool) \<Rightarrow> compiled_policy \<Rightarrow> query_limits \<Rightarrow> js \<Rightarrow> gathered \<Rightarrow> string + gathered" where
  "take_item check p ql v g =
     (case g of (count, bytes, latest) \<Rightarrow>
        if count + 1 > ql_events ql then Inl ''EVENT_LIMIT''
        else (case wire_event v (pc_max_bytes p) of
            Oversize \<Rightarrow> Inl ''EVENT_LIMIT''
          | NotEvent \<Rightarrow> Inr (count + 1, bytes, latest)
          | Wire (e, n) \<Rightarrow>
              if bytes + n > ql_bytes ql then Inl ''EVENT_LIMIT'' else Inr (count + 1, bytes + n, keep_newest check p e latest)))"

definition loop_turn :: "(js \<Rightarrow> bool) \<Rightarrow> compiled_policy \<Rightarrow> query_limits \<Rightarrow> turn \<Rightarrow> gathered \<Rightarrow> string + (bool \<times> gathered)" where
  "loop_turn check p ql t g =
     (case tu_before t of
        Some reason \<Rightarrow> Inl reason
      | None \<Rightarrow>
          if tu_now t \<ge> ql_deadline ql then Inl ''TIMEOUT''
          else (case (tu_pulled t, tu_after t) of
              (Hangs reason, _) \<Rightarrow> Inl reason
            | (Fails, _) \<Rightarrow> Inl ''SOURCE''
            | (_, Some reason) \<Rightarrow> Inl reason
            | (Finished, None) \<Rightarrow> Inr (True, g)
            | (Yields v, None) \<Rightarrow> (case take_item check p ql v g of Inl e \<Rightarrow> Inl e | Inr g' \<Rightarrow> Inr (False, g'))))"

text \<open>The loop over the turns \<open>turns i\<close>, \<open>turns (i + 1)\<close>, and so on.\<close>

partial_function (option) gather :: "(js \<Rightarrow> bool) \<Rightarrow> compiled_policy \<Rightarrow> query_limits \<Rightarrow> (nat \<Rightarrow> turn) \<Rightarrow> nat \<Rightarrow> gathered \<Rightarrow> (string + gathered) option" where
  "gather check p ql turns i g =
     (case loop_turn check p ql (turns i) g of
        Inl e \<Rightarrow> Some (Inl e)
      | Inr (stop, g') \<Rightarrow> if stop then Some (Inr g') else gather check p ql turns (Suc i) g')"

text \<open>The loop over the sorted events; its rounds bring aborts and the clock.\<close>

fun select_results :: "(js \<Rightarrow> resolved_stream option) \<Rightarrow> query_limits \<Rightarrow> (nat \<Rightarrow> string option \<times> int) \<Rightarrow> nat \<Rightarrow> js list \<Rightarrow> resolved_stream list \<Rightarrow> string + resolved_stream list" where
  "select_results resolve ql rounds i [] results = Inr results"
| "select_results resolve ql rounds i (e # es) results =
     (case rounds i of
        (Some reason, now) \<Rightarrow> Inl reason
      | (None, now) \<Rightarrow>
          if now \<ge> ql_deadline ql then Inl ''TIMEOUT''
          else (let results = (case resolve e of None \<Rightarrow> results | Some r \<Rightarrow> results @ [r]) in
            if int (length results) = ql_results ql then Inr results else select_results resolve ql rounds (Suc i) es results))"

definition query_filter :: "compiled_policy \<Rightarrow> int \<Rightarrow> js" where
  "query_filter p max_events =
     JObj [(''kinds'', JArr [JInt 30311]), (''authors'', JArr (map JStr (foldr insort (remdups (pc_authors p)) []))),
       (''since'', JInt (max 0 (pc_seconds p - pc_max_age p))), (''until'', JInt (pc_seconds p + pc_max_future p)), (''limit'', JInt max_events)]"

record query_options =
  qo_timeout :: js
  qo_events :: js
  qo_results :: js
  qo_bytes :: js

definition query_limits_of :: "query_options \<Rightarrow> int \<Rightarrow> query_limits option" where
  "query_limits_of q started =
     (case (bounded_integer (qo_timeout q) 5000 1 60000, bounded_integer (qo_events q) 256 1 1024, bounded_integer (qo_results q) 32 1 128,
         bounded_integer (qo_bytes q) 2097152 1024 16777216) of
        (Some t, Some e, Some r, Some b) \<Rightarrow> Some \<lparr>ql_events = e, ql_results = r, ql_bytes = b, ql_deadline = started + t\<rparr>
      | _ \<Rightarrow> None)"

text \<open>What the host's query returns: an array of so many events, an async iterable, something else, a rejection, or nothing in time.\<close>

datatype source = SourceArray nat | SourceIterable | SourceOther | SourceRejects | SourceHangs string

record query_run =
  qr_aborted :: "string option"
  qr_source :: source
  qr_after :: "string option"
  qr_turns :: "nat \<Rightarrow> turn"
  qr_gathered :: "string option"
  qr_now :: int
  qr_rounds :: "nat \<Rightarrow> string option \<times> int"

definition open_source :: "query_limits \<Rightarrow> query_run \<Rightarrow> string option" where
  "open_source ql r =
     (case qr_aborted r of
        Some reason \<Rightarrow> Some reason
      | None \<Rightarrow>
          (case (qr_source r, qr_after r) of
             (SourceHangs reason, _) \<Rightarrow> Some reason
           | (SourceRejects, _) \<Rightarrow> Some ''SOURCE''
           | (_, Some reason) \<Rightarrow> Some reason
           | (SourceOther, None) \<Rightarrow> Some ''TypeError''
           | (SourceArray n, None) \<Rightarrow> if int n > ql_events ql then Some ''EVENT_LIMIT'' else None
           | (SourceIterable, None) \<Rightarrow> None))"

definition select_newest :: "(js \<Rightarrow> bool) \<Rightarrow> (js \<Rightarrow> bool) \<Rightarrow> url_parser \<Rightarrow> compiled_policy \<Rightarrow> query_limits \<Rightarrow> query_run \<Rightarrow> (string \<times> js) list
    \<Rightarrow> string + resolved_stream list" where
  "select_newest sig check parse p ql r latest =
     (case qr_gathered r of
        Some reason \<Rightarrow> Inl reason
      | None \<Rightarrow>
          (let seconds = qr_now r div 1000; p = p\<lparr>pc_seconds := seconds\<rparr> in
           if \<not> safe_int seconds \<or> seconds < 0 then Inl ''TypeError''
           else select_results (\<lambda>e. resolve_event sig check parse e p) ql (qr_rounds r) 0 (sort_events (map snd latest)) []))"

definition discover_trusted_streams :: "(js \<Rightarrow> bool) \<Rightarrow> (js \<Rightarrow> bool) \<Rightarrow> url_parser \<Rightarrow> stream_policy \<Rightarrow> query_options \<Rightarrow> int \<Rightarrow> int \<Rightarrow> query_run
    \<Rightarrow> (string + resolved_stream list) option" where
  "discover_trusted_streams sig check parse policy q now started r =
     (case (compile_policy sig parse policy now, query_limits_of q started) of
        (Some p, Some ql) \<Rightarrow>
          (case open_source ql r of
             Some reason \<Rightarrow> Some (Inl reason)
           | None \<Rightarrow>
               (case gather check p ql (qr_turns r) 0 (0, 0, []) of
                  None \<Rightarrow> None
                | Some (Inl e) \<Rightarrow> Some (Inl e)
                | Some (Inr (count, bytes, latest)) \<Rightarrow> Some (select_newest sig check parse p ql r latest)))
      | _ \<Rightarrow> Some (Inl ''TypeError''))"

end
