(* ===== verification/Publisher_Advertisement.thy ===== *)
theory Publisher_Advertisement
  imports Stream_Discovery Publisher_State
begin

text \<open>
  The live advertisement of a stream, \<open>src/publisher-advertisement.mjs\<close>: signed by the stream's author, at a
  separate address, and superseded by the next one.  A \<open>TypeError\<close> is \<open>None\<close>.  \<open>check\<close> is \<open>verifyEvent\<close> of
  the event's copy, \<open>sig\<close> the verdict that \<open>validStreamAuthorisation\<close> uses.
\<close>

definition lone_value :: "js \<Rightarrow> string \<Rightarrow> js" where
  "lone_value event name = (case tag_matches event name of [t] \<Rightarrow> if length (elems t) = 2 then elems t ! 1 else JNull | _ \<Rightarrow> JNull)"

definition endpoint :: "url_parser \<Rightarrow> js \<Rightarrow> string \<Rightarrow> string \<Rightarrow> bool \<Rightarrow> string option" where
  "endpoint parse raw secure insecure allow =
     (if \<not> is_string raw \<or> js_string raw = [] \<or> length (js_string raw) > 2048 \<or> list_ex (\<lambda>c. js_space c \<or> c = CHR 0x5C) (js_string raw) then None
      else (case parse (js_string raw) of
          None \<Rightarrow> None
        | Some u \<Rightarrow>
            if ur_user u \<noteq> [] \<or> ur_password u \<noteq> [] \<or> ur_hash u \<noteq> []
               \<or> (ur_protocol u \<noteq> secure \<and> \<not> (allow \<and> ur_protocol u = insecure \<and> nu_hostname u \<in> set loopback)) then None
            else Some (nu_href u)))"

record advert_options =
  ao_stream :: js
  ao_swarm :: js
  ao_manifest :: js
  ao_relays :: js
  ao_status :: js
  ao_starts :: js
  ao_expires :: js
  ao_loopback :: js

record advert_policy =
  ap_seconds :: int
  ap_starts :: int
  ap_expires :: int
  ap_status :: string
  ap_manifest :: string
  ap_relays :: "string list"

definition advert_relays :: "url_parser \<Rightarrow> bool \<Rightarrow> js \<Rightarrow> string list option" where
  "advert_relays parse allow relays =
     (if \<not> is_array relays \<or> elems relays = [] \<or> length (elems relays) > 8 then None
      else map_option juniq (all_some (map (\<lambda>r. endpoint parse r ''wss:'' ''ws:'' allow) (elems relays))))"

definition advert_policy_of :: "(js \<Rightarrow> bool) \<Rightarrow> url_parser \<Rightarrow> advert_options \<Rightarrow> int \<Rightarrow> advert_policy option" where
  "advert_policy_of sig parse o' now =
     (let seconds = now div 1000; starts = if_nullish (ao_starts o') (JInt seconds); expires = if_nullish (ao_expires o') (JInt (seconds + 300));
          status = (if ao_status o' = JUndefined then JStr ''live'' else ao_status o'); allow = (ao_loopback o' = JBool True) in
      if \<not> valid_stream_authorisation sig (ao_stream o') \<or> \<not> is_string (ao_swarm o') \<or> length (js_string (ao_swarm o')) < 8
         \<or> length (js_string (ao_swarm o')) > 128 \<or> ao_loopback o' \<notin> {JUndefined, JBool True, JBool False}
         \<or> status \<notin> {JStr ''live'', JStr ''ended''} \<or> \<not> safe_int seconds \<or> seconds < 0
         \<or> \<not> safe_integer starts \<or> int_of starts < 0 \<or> int_of starts > seconds
         \<or> \<not> safe_integer expires \<or> int_of expires \<le> seconds \<or> int_of expires > seconds + 300 then None
      else (case (endpoint parse (ao_manifest o') ''https:'' ''http:'' allow, advert_relays parse allow (ao_relays o')) of
          (Some manifest, Some relays) \<Rightarrow>
            Some \<lparr>ap_seconds = seconds, ap_starts = int_of starts, ap_expires = int_of expires, ap_status = js_string status,
              ap_manifest = manifest, ap_relays = relays\<rparr>
        | _ \<Rightarrow> None))"

definition addressed_to :: "js \<Rightarrow> js \<Rightarrow> js \<Rightarrow> bool" where
  "addressed_to event stream swarm \<longleftrightarrow> lone_value event ''d'' = JStr (''live-'' @ js_string (member stream ''id''))
     \<and> strict_eq (lone_value event ''relayswarm-authorisation'') (member stream ''id'') \<and> strict_eq (lone_value event ''relayswarm-swarm'') swarm"

definition valid_previous :: "(js \<Rightarrow> bool) \<Rightarrow> js \<Rightarrow> js \<Rightarrow> int \<Rightarrow> js \<Rightarrow> bool" where
  "valid_previous check stream swarm seconds event \<longleftrightarrow> utf8_length (json_text event) \<le> 16 * 1024
     \<and> strict_eq (member event ''pubkey'') (member stream ''pubkey'') \<and> member event ''kind'' = JInt 30311 \<and> addressed_to event stream swarm
     \<and> safe_integer (member event ''created_at'') \<and> 0 \<le> int_of (member event ''created_at'')
     \<and> int_of (member event ''created_at'') < seconds + 30 \<and> check (event_copy event)"

definition advert_tags :: "js \<Rightarrow> js \<Rightarrow> advert_policy \<Rightarrow> js list list" where
  "advert_tags stream swarm v =
     [[JStr ''d'', JStr (''live-'' @ js_string (member stream ''id''))], [JStr ''streaming'', JStr (ap_manifest v)],
      [JStr ''status'', JStr (ap_status v)], [JStr ''starts'', JStr (int_text (ap_starts v))],
      [JStr ''expiration'', JStr (int_text (ap_expires v))]]
     @ (if ap_status v = ''ended'' then [[JStr ''ends'', JStr (int_text (ap_seconds v))]] else [])
     @ [JStr ''relays'' # map JStr (ap_relays v), [JStr ''relayswarm'', JStr ''redistribute'', JStr ''1''],
        [JStr ''relayswarm-authorisation'', member stream ''id''], [JStr ''relayswarm-swarm'', swarm]]"

definition create_publisher_advertisement :: "(js \<Rightarrow> bool) \<Rightarrow> (js \<Rightarrow> bool) \<Rightarrow> url_parser \<Rightarrow> signer option \<Rightarrow> js \<Rightarrow> advert_options \<Rightarrow> int \<Rightarrow> js option" where
  "create_publisher_advertisement sig check parse key previous o' now =
     (case (advert_policy_of sig parse o' now, key) of
        (Some v, Some k) \<Rightarrow>
          if member (ao_stream o') ''pubkey'' \<noteq> JStr (sn_pubkey k)
             \<or> (truthy previous \<and> \<not> valid_previous check (ao_stream o') (ao_swarm o') (ap_seconds v) previous) then None
          else (let created = (if truthy previous then max (ap_seconds v) (int_of (member previous ''created_at'') + 1) else ap_seconds v) in
            Some (sn_finalize k (event_draft 30311 created (advert_tags (ao_stream o') (ao_swarm o') v) [])))
      | _ \<Rightarrow> None)"

subsection \<open>Verification\<close>

definition digits_tag :: "js \<Rightarrow> string \<Rightarrow> int option" where
  "digits_tag event name =
     (case lone_value event name of
        JStr s \<Rightarrow> if s \<noteq> [] \<and> list_all digit s then Some (int (digits_value s)) else None
      | _ \<Rightarrow> None)"

definition advert_times_ok :: "js \<Rightarrow> int \<Rightarrow> js \<Rightarrow> bool" where
  "advert_times_ok event seconds status \<longleftrightarrow>
     (status = JStr ''ended'' \<longrightarrow> (case digits_tag event ''ends'' of None \<Rightarrow> False
        | Some ends \<Rightarrow> ends \<le> seconds + 30 \<and> (case digits_tag event ''starts'' of None \<Rightarrow> False | Some starts \<Rightarrow> starts \<le> ends)))
     \<and> (status = JStr ''live'' \<longrightarrow> tag_matches event ''ends'' = [])"

text \<open>The event against the identity that it must belong to.\<close>

definition advert_identity_ok :: "(js \<Rightarrow> bool) \<Rightarrow> (js \<Rightarrow> bool) \<Rightarrow> js \<Rightarrow> js \<Rightarrow> js \<Rightarrow> bool" where
  "advert_identity_ok sig check event stream swarm \<longleftrightarrow> valid_stream_authorisation sig stream \<and> truthy event \<and> member event ''kind'' = JInt 30311
     \<and> strict_eq (member event ''pubkey'') (member stream ''pubkey'') \<and> utf8_length (json_text event) \<le> 16 * 1024 \<and> check (event_copy event)
     \<and> addressed_to event stream swarm"

definition advert_signals_ok :: "js \<Rightarrow> int \<Rightarrow> int \<Rightarrow> bool" where
  "advert_signals_ok event starts expires \<longleftrightarrow>
     expires \<le> int_of (member event ''created_at'') + 300 \<and> starts \<le> int_of (member event ''created_at'') + 30
     \<and> length (tag_matches event ''relayswarm'') = 1
     \<and> list_ex (\<lambda>t. elems t = [JStr ''relayswarm'', JStr ''redistribute'', JStr ''1'']) (elems (member event ''tags''))"

definition expected_ok :: "(js \<Rightarrow> bool) \<Rightarrow> url_parser \<Rightarrow> advert_options \<Rightarrow> advert_policy \<Rightarrow> js \<Rightarrow> js \<Rightarrow> int \<Rightarrow> bool" where
  "expected_ok sig parse o' v manifest relays now \<longleftrightarrow>
     (manifest = JUndefined \<or> endpoint parse manifest ''https:'' ''http:'' (ao_loopback o' = JBool True) = Some (ap_manifest v))
     \<and> (relays = JUndefined
        \<or> (case advert_policy_of sig parse (o'\<lparr>ao_manifest := JStr (ap_manifest v), ao_relays := relays\<rparr>) now of
             None \<Rightarrow> False
           | Some w \<Rightarrow> ap_relays w = ap_relays v))"

text \<open>The manifest and the relays of \<open>o'\<close> are what the caller expects; the event brings its own.\<close>

definition verify_publisher_advertisement :: "(js \<Rightarrow> bool) \<Rightarrow> (js \<Rightarrow> bool) \<Rightarrow> url_parser \<Rightarrow> js \<Rightarrow> advert_options \<Rightarrow> int \<Rightarrow> js option" where
  "verify_publisher_advertisement sig check parse event o' now =
     (let seconds = now div 1000; status = lone_value event ''status''; created = member event ''created_at''; lists = tag_matches event ''relays'' in
      if \<not> advert_identity_ok sig check event (ao_stream o') (ao_swarm o') \<or> \<not> safe_integer created
         \<or> int_of created > seconds + 30 \<or> int_of created < seconds - 300 \<or> length lists \<noteq> 1 then None
      else (case (digits_tag event ''starts'', digits_tag event ''expiration'') of
          (Some starts, Some expires) \<Rightarrow>
            (let own = o'\<lparr>ao_manifest := lone_value event ''streaming'', ao_relays := JArr (tl (elems (hd lists))), ao_status := status,
                          ao_starts := JInt starts, ao_expires := JInt expires\<rparr> in
             (case advert_policy_of sig parse own now of
                None \<Rightarrow> None
              | Some v \<Rightarrow>
                  if advert_signals_ok event starts expires \<and> advert_times_ok event seconds status
                     \<and> expected_ok sig parse own v (ao_manifest o') (ao_relays o') now then Some event else None))
        | _ \<Rightarrow> None))"

end
