(* ===== verification/Stream_Discovery_Claims.thy ===== *)
theory Stream_Discovery_Claims
  imports Publisher_Advertisement
begin

text \<open>
  The query always settles, on the newest event of every address; and therefore an author who has ended a
  stream is not overruled by an older advertisement that is still about.
\<close>

subsection \<open>The order of events\<close>

lemma text_less_irrefl: "\<not> text_less s s"
  by (induction s) auto

lemma text_less_trans: "text_less r s \<Longrightarrow> text_less s t \<Longrightarrow> text_less r t"
proof (induction r arbitrary: s t)
  case Nil
  then show ?case by (cases s; cases t) auto
next
  case (Cons c r)
  then show ?case by (cases s; cases t) auto
qed

lemma event_before_irrefl: "\<not> event_before e e"
  by (simp add: event_before_def text_less_irrefl)

lemma event_before_trans: "event_before a b \<Longrightarrow> event_before b c \<Longrightarrow> event_before a c"
  by (auto simp: event_before_def Let_def intro: text_less_trans)

lemma set_insert_event [simp]: "set (insert_event e es) = insert e (set es)"
  by (induction es) auto

lemma set_sort_events [simp]: "set (sort_events es) = set es"
  by (induction es) (simp_all add: sort_events_def)

subsection \<open>The newest of every address\<close>

definition newest_of :: "(js \<Rightarrow> bool) \<Rightarrow> compiled_policy \<Rightarrow> js list \<Rightarrow> (string \<times> js) list \<Rightarrow> bool" where
  "newest_of check p es latest \<longleftrightarrow> jwf latest \<and> (\<forall>(a, e) \<in> set latest. e \<in> set es \<and> trusted_address check e p = Some a
     \<and> (\<forall>e' \<in> set es. trusted_address check e' p = Some a \<longrightarrow> \<not> event_before e' e))
     \<and> (\<forall>e \<in> set es. \<forall>a. trusted_address check e p = Some a \<longrightarrow> jhas latest a)"

lemma newest_keep:
  assumes "newest_of check p es latest"
  shows "newest_of check p (es @ [e]) (keep_newest check p e latest)"
proof (cases "trusted_address check e p")
  case None
  then show ?thesis using assms by (fastforce simp: newest_of_def keep_newest_def)
next
  case (Some a)
  have wf: "jwf latest" using assms by (simp add: newest_of_def)
  show ?thesis
  proof (cases "jget latest a")
    case None
    then have fresh: "\<forall>e' \<in> set es. trusted_address check e' p \<noteq> Some a" using assms by (auto simp: newest_of_def jhas_def)
    show ?thesis
      using assms Some None fresh event_before_irrefl
      by (auto simp: newest_of_def keep_newest_def set_jset jhas_def)
  next
    case (Some previous)
    then have prev: "(a, previous) \<in> set latest" by (rule jget_in)
    then have old: "\<not> event_before e' previous" if "e' \<in> set es" "trusted_address check e' p = Some a" for e'
      using assms that by (auto simp: newest_of_def)
    have unique: "x = previous" if "(a, x) \<in> set latest" for x
      using that Some jget_unique [OF wf that] by simp
    show ?thesis
    proof (cases "event_before e previous")
      case True
      then have "\<not> event_before e' e" if "e' \<in> set es" "trusted_address check e' p = Some a" for e'
        using old [OF that] event_before_trans by blast
      then show ?thesis
        using assms Some \<open>trusted_address check e p = Some a\<close> True event_before_irrefl
        by (auto simp: newest_of_def keep_newest_def set_jset wf jhas_def)
    next
      case False
      then show ?thesis
        using assms Some \<open>trusted_address check e p = Some a\<close> unique by (auto simp: newest_of_def keep_newest_def jhas_def)
    qed
  qed
qed

subsection \<open>The loop\<close>

text \<open>The events that the turns from \<open>i\<close> up to \<open>k\<close> brought.\<close>

definition events_read :: "compiled_policy \<Rightarrow> (nat \<Rightarrow> turn) \<Rightarrow> nat \<Rightarrow> nat \<Rightarrow> js list" where
  "events_read p turns i k = concat (map (\<lambda>j. case tu_pulled (turns j) of
     Yields v \<Rightarrow> (case wire_event v (pc_max_bytes p) of Wire (e, n) \<Rightarrow> [e] | _ \<Rightarrow> []) | _ \<Rightarrow> []) [i..<k])"

lemma loop_turn_stop: "loop_turn check p ql t g = Inr (True, g') \<Longrightarrow> g' = g \<and> tu_pulled t = Finished"
  by (auto simp: loop_turn_def split: option.splits if_splits pulled.splits sum.splits)

lemma loop_turn_go:
  assumes "loop_turn check p ql t (count, bytes, latest) = Inr (False, g')"
  shows "\<exists>v bytes'. tu_pulled t = Yields v \<and> count + 1 \<le> ql_events ql
    \<and> g' = (count + 1, bytes', case wire_event v (pc_max_bytes p) of Wire (e, n) \<Rightarrow> keep_newest check p e latest | _ \<Rightarrow> latest)"
proof -
  obtain v where v: "tu_pulled t = Yields v" "take_item check p ql v (count, bytes, latest) = Inr g'"
    using assms by (auto simp: loop_turn_def split: option.splits if_splits pulled.splits sum.splits)
  then show ?thesis
    by (auto simp: take_item_def split: if_splits wire.splits)
qed

lemma gather_total: "\<exists>r. gather check p ql turns i (count, bytes, latest) = Some r"
proof (induction "nat (ql_events ql - count)" arbitrary: i count bytes latest rule: less_induct)
  case less
  show ?case
  proof (cases "loop_turn check p ql (turns i) (count, bytes, latest)")
    case (Inl e)
    then show ?thesis by (simp add: gather.simps)
  next
    case (Inr x)
    obtain stop g' where x: "x = (stop, g')" by (cases x)
    show ?thesis
    proof (cases stop)
      case False
      obtain bytes' latest' where g: "g' = (count + 1, bytes', latest')" and "count + 1 \<le> ql_events ql"
        using loop_turn_go [of check p ql "turns i" count bytes latest g'] Inr x False by auto
      then have "\<exists>r. gather check p ql turns (Suc i) (count + 1, bytes', latest') = Some r"
        by (intro less.hyps) auto
      then show ?thesis using Inr x False g by (subst gather.simps) simp
    qed (simp add: gather.simps Inr x)
  qed
qed

lemma gather_reads:
  assumes "gather check p ql turns i (count, bytes, latest) = Some (Inr (count', bytes', latest'))" and "newest_of check p es latest"
    and "count \<le> ql_events ql"
  shows "\<exists>k \<ge> i. tu_pulled (turns k) = Finished \<and> (\<forall>j \<in> {i..<k}. \<exists>v. tu_pulled (turns j) = Yields v)
    \<and> count + int (k - i) \<le> ql_events ql \<and> newest_of check p (es @ events_read p turns i k) latest'"
  using assms
proof (induction "nat (ql_events ql - count)" arbitrary: i count bytes latest es rule: less_induct)
  case less
  obtain stop g' where turn: "loop_turn check p ql (turns i) (count, bytes, latest) = Inr (stop, g')"
    using less.prems(1) by (auto simp: gather.simps [of check p ql turns i] split: sum.splits)
  show ?case
  proof (cases stop)
    case True
    then show ?thesis
      using less.prems turn loop_turn_stop [of check p ql "turns i" "(count, bytes, latest)" g']
      by (intro exI [of _ i]) (auto simp: gather.simps [of check p ql turns i] events_read_def)
  next
    case False
    obtain v bytes1 where v: "tu_pulled (turns i) = Yields v" "count + 1 \<le> ql_events ql"
      "g' = (count + 1, bytes1, case wire_event v (pc_max_bytes p) of Wire (e, n) \<Rightarrow> keep_newest check p e latest | _ \<Rightarrow> latest)"
      using loop_turn_go [of check p ql "turns i" count bytes latest g'] turn False by auto
    let ?e = "case wire_event v (pc_max_bytes p) of Wire (e, n) \<Rightarrow> [e] | _ \<Rightarrow> []"
    let ?l = "case wire_event v (pc_max_bytes p) of Wire (e, n) \<Rightarrow> keep_newest check p e latest | _ \<Rightarrow> latest"
    have "gather check p ql turns (Suc i) (count + 1, bytes1, ?l) = Some (Inr (count', bytes', latest'))"
      using less.prems(1) turn False v(3) by (simp add: gather.simps [of check p ql turns i])
    moreover have "newest_of check p (es @ ?e) ?l"
      using newest_keep [OF less.prems(2)] less.prems(2) by (auto split: wire.split)
    ultimately obtain k where k: "k \<ge> Suc i" "tu_pulled (turns k) = Finished" "\<forall>j \<in> {Suc i..<k}. \<exists>v. tu_pulled (turns j) = Yields v"
      "count + 1 + int (k - Suc i) \<le> ql_events ql" "newest_of check p ((es @ ?e) @ events_read p turns (Suc i) k) latest'"
      using less.hyps [of "count + 1" "Suc i" bytes1 ?l "es @ ?e"] v(2) by auto
    have "events_read p turns i k = ?e @ events_read p turns (Suc i) k"
      using k(1) by (simp add: events_read_def upt_conv_Cons v(1))
    moreover have "\<forall>j \<in> {i..<k}. \<exists>v. tu_pulled (turns j) = Yields v"
    proof
      fix j assume "j \<in> {i..<k}"
      then show "\<exists>v. tu_pulled (turns j) = Yields v" using v(1) k(3) by (cases "j = i") auto
    qed
    ultimately show ?thesis
      using k by (intro exI [of _ k]) auto
  qed
qed

lemma select_results_from:
  assumes "select_results resolve ql rounds i es results = Inr found" and "x \<in> set found"
  shows "x \<in> set results \<or> (\<exists>e \<in> set es. resolve e = Some x)"
  using assms by (induction es arbitrary: i results) (fastforce split: option.splits if_splits prod.splits simp: Let_def)+

lemma resolve_event_facts:
  assumes "resolve_event sig check parse e p = Some x"
  shows "rs_live x = e" and "trusted_address check e p \<noteq> None" and "single_value e ''status'' = JStr ''live''"
  using assms by (auto simp: resolve_event_def live_redistributable_def resolved_with_def Let_def split: if_splits option.splits)

lemma discovered:
  assumes "discover_trusted_streams sig check parse policy q now started r = Some (Inr results)"
  shows "\<exists>p ql k. compile_policy sig parse policy now = Some p \<and> query_limits_of q started = Some ql \<and> int k \<le> ql_events ql
    \<and> (\<forall>j < k. \<exists>v. tu_pulled (qr_turns r j) = Yields v) \<and> tu_pulled (qr_turns r k) = Finished
    \<and> (\<forall>x \<in> set results. \<exists>e \<in> set (events_read p (qr_turns r) 0 k). resolve_event sig check parse e (p\<lparr>pc_seconds := qr_now r div 1000\<rparr>) = Some x
         \<and> (\<forall>e' \<in> set (events_read p (qr_turns r) 0 k). trusted_address check e p \<noteq> None \<and> (trusted_address check e' p = trusted_address check e p \<longrightarrow> \<not> event_before e' e)))"
proof -
  obtain p ql count bytes latest where d: "compile_policy sig parse policy now = Some p" "query_limits_of q started = Some ql"
    "gather check p ql (qr_turns r) 0 (0, 0, []) = Some (Inr (count, bytes, latest))" "select_newest sig check parse p ql r latest = Inr results"
    using assms by (auto simp: discover_trusted_streams_def split: option.splits sum.splits)
  have "0 \<le> ql_events ql" using d(2) by (auto simp: query_limits_of_def bounded_integer_def Let_def split: option.splits if_splits)
  moreover have "newest_of check p [] []" by (simp add: newest_of_def)
  ultimately obtain k where k: "tu_pulled (qr_turns r k) = Finished" "\<forall>j \<in> {0..<k}. \<exists>v. tu_pulled (qr_turns r j) = Yields v" "int k \<le> ql_events ql"
    "newest_of check p (events_read p (qr_turns r) 0 k) latest"
    using gather_reads [OF d(3), of "[]"] by auto
  have "\<exists>e \<in> set (events_read p (qr_turns r) 0 k). resolve_event sig check parse e (p\<lparr>pc_seconds := qr_now r div 1000\<rparr>) = Some x
      \<and> (\<forall>e' \<in> set (events_read p (qr_turns r) 0 k). trusted_address check e p \<noteq> None \<and> (trusted_address check e' p = trusted_address check e p \<longrightarrow> \<not> event_before e' e))"
    if "x \<in> set results" for x
  proof -
    have "select_results (\<lambda>e. resolve_event sig check parse e (p\<lparr>pc_seconds := qr_now r div 1000\<rparr>)) ql (qr_rounds r) 0 (sort_events (map snd latest)) [] = Inr results"
      using d(4) by (auto simp: select_newest_def Let_def split: option.splits if_splits)
    from select_results_from [OF this that] obtain a e where e: "(a, e) \<in> set latest"
      "resolve_event sig check parse e (p\<lparr>pc_seconds := qr_now r div 1000\<rparr>) = Some x" by auto
    then have "e \<in> set (events_read p (qr_turns r) 0 k) \<and> trusted_address check e p = Some a
        \<and> (\<forall>e' \<in> set (events_read p (qr_turns r) 0 k). trusted_address check e' p = Some a \<longrightarrow> \<not> event_before e' e)"
      using k(4) by (auto simp: newest_of_def)
    then show ?thesis using e(2) by (intro bexI [of _ e]) auto
  qed
  then show ?thesis using d(1,2) k(1-3) by (intro exI [of _ p] exI [of _ ql] exI [of _ k]) auto
qed

text \<open>
  C37: discovery settles. Whatever the host's source does, endless sources included, the query ends with an
  error or a selection; a selection was made after at most \<open>maxEvents\<close> items and the source's end, and each
  of its streams resolves from an event that was read and that no other event of its address beats.
\<close>

theorem discovery_settles:
  "\<exists>out. discover_trusted_streams sig check parse policy q now started r = Some out
     \<and> (\<forall>results. out = Inr results \<longrightarrow> (\<exists>p ql k. compile_policy sig parse policy now = Some p \<and> query_limits_of q started = Some ql
          \<and> int k \<le> ql_events ql \<and> (\<forall>j < k. \<exists>v. tu_pulled (qr_turns r j) = Yields v) \<and> tu_pulled (qr_turns r k) = Finished
          \<and> (\<forall>x \<in> set results. \<exists>e \<in> set (events_read p (qr_turns r) 0 k). resolve_event sig check parse e (p\<lparr>pc_seconds := qr_now r div 1000\<rparr>) = Some x
               \<and> (\<forall>e' \<in> set (events_read p (qr_turns r) 0 k). trusted_address check e p \<noteq> None \<and> (trusted_address check e' p = trusted_address check e p \<longrightarrow> \<not> event_before e' e)))))"
proof (cases "discover_trusted_streams sig check parse policy q now started r")
  case None
  then obtain p ql where "gather check p ql (qr_turns r) 0 (0, 0, []) = None"
    by (auto simp: discover_trusted_streams_def split: option.splits sum.splits)
  then show ?thesis using gather_total [of check p ql "qr_turns r" 0 0 0 "[]"] by simp
next
  case (Some out)
  then show ?thesis using discovered [of sig check parse policy q now started r] by (cases out) auto
qed

subsection \<open>An ended stream stays ended\<close>

text \<open>What nostr-tools documents of \<open>finalizeEvent\<close>, without the signature.\<close>

definition finalizes :: "signer \<Rightarrow> bool" where
  "finalizes key \<longleftrightarrow> (\<forall>d. member (sn_finalize key d) ''pubkey'' = JStr (sn_pubkey key)
     \<and> (\<forall>k \<in> {''kind'', ''created_at'', ''tags'', ''content''}. member (sn_finalize key d) k = member d k))"

lemma event_copy_members: "k \<in> {''id'', ''pubkey'', ''created_at'', ''kind'', ''tags'', ''content'', ''sig''} \<Longrightarrow> member (event_copy e) k = member e k"
  by (auto simp: event_copy_def jget_def)

lemma tag_matches_copy: "tag_matches (event_copy e) name = tag_matches e name"
  by (simp add: tag_matches_def event_copy_members)

lemma single_value_copy: "single_value (event_copy e) name = single_value e name"
  by (simp add: single_value_def single_tag_def tag_matches_copy)

lemma advert_facts:
  assumes "finalizes k" and "create_publisher_advertisement sig check parse (Some k) previous o' now = Some ended" and "truthy previous"
    and "ao_status o' = JStr ''ended''"
  shows "single_value ended ''d'' = single_value previous ''d''" and "member ended ''pubkey'' = member previous ''pubkey''"
    and "single_value ended ''status'' = JStr ''ended''" and "int_of (member previous ''created_at'') < int_of (member ended ''created_at'')"
proof -
  obtain v where v: "advert_policy_of sig parse o' now = Some v" "member (ao_stream o') ''pubkey'' = JStr (sn_pubkey k)"
    "valid_previous check (ao_stream o') (ao_swarm o') (ap_seconds v) previous"
    "ended = sn_finalize k (event_draft 30311 (max (ap_seconds v) (int_of (member previous ''created_at'') + 1)) (advert_tags (ao_stream o') (ao_swarm o') v) [])"
    using assms(2,3) by (auto simp: create_publisher_advertisement_def Let_def split: option.splits if_splits)
  have status: "ap_status v = ''ended''"
    using v(1) assms(4) by (auto simp: advert_policy_of_def Let_def split: if_splits option.splits)
  have members: "member ended ''tags'' = JArr (map JArr (advert_tags (ao_stream o') (ao_swarm o') v))"
      "member ended ''created_at'' = JInt (max (ap_seconds v) (int_of (member previous ''created_at'') + 1))" "member ended ''pubkey'' = JStr (sn_pubkey k)"
    using assms(1) unfolding v(4) by (simp_all add: finalizes_def event_draft_def jget_def)
  have "single_value ended ''d'' = JStr (''live-'' @ js_string (member (ao_stream o') ''id''))"
    by (simp add: single_value_def single_tag_def tag_matches_def members advert_tags_def status)
  moreover have "single_value previous ''d'' = JStr (''live-'' @ js_string (member (ao_stream o') ''id''))"
    using v(3) by (auto simp: valid_previous_def addressed_to_def lone_value_def single_value_def single_tag_def split: list.splits if_splits)
  ultimately show "single_value ended ''d'' = single_value previous ''d''" by simp
  show "single_value ended ''status'' = JStr ''ended''"
    by (simp add: single_value_def single_tag_def tag_matches_def members advert_tags_def status)
  show "member ended ''pubkey'' = member previous ''pubkey''"
    using v(2,3) by (cases "member previous ''pubkey''") (auto simp: members valid_previous_def)
  show "int_of (member previous ''created_at'') < int_of (member ended ''created_at'')" by (simp add: members)
qed

text \<open>
  C38: an ended stream stays ended. When the author ends the advertisement \<open>previous\<close> with the advertisement
  \<open>ended\<close>, and a query reads \<open>ended\<close> and trusts it, then neither advertisement is selected, whatever
  else the query reads and in whatever order; and whatever is selected at their address was signed later.
\<close>

theorem ended_stays_ended:
  assumes "finalizes k" and "create_publisher_advertisement sig check parse (Some k) previous o' now = Some ended" and "truthy previous"
    and "ao_status o' = JStr ''ended''"
    and "compile_policy sig parse' policy now' = Some p" and "trusted_address check (event_copy ended) p = Some a"
    and "discover_trusted_streams sig check parse' policy q now' started r = Some (Inr results)"
    and "tu_pulled (qr_turns r i) = Yields ended" and "wire_event ended (pc_max_bytes p) = Wire (event_copy ended, n)"
    and "\<forall>j < i. tu_pulled (qr_turns r j) \<noteq> Finished"
  shows "\<forall>x \<in> set results. rs_live x \<notin> {event_copy previous, event_copy ended}
    \<and> (trusted_address check (rs_live x) p = Some a \<longrightarrow> \<not> event_before (event_copy ended) (rs_live x))"
proof
  fix x assume x: "x \<in> set results"
  note facts = advert_facts [OF assms(1-4)]
  obtain ql k' where k: "tu_pulled (qr_turns r k') = Finished"
      "\<forall>x \<in> set results. \<exists>e \<in> set (events_read p (qr_turns r) 0 k'). resolve_event sig check parse' e (p\<lparr>pc_seconds := qr_now r div 1000\<rparr>) = Some x
         \<and> (\<forall>e' \<in> set (events_read p (qr_turns r) 0 k'). trusted_address check e p \<noteq> None \<and> (trusted_address check e' p = trusted_address check e p \<longrightarrow> \<not> event_before e' e))"
    using discovered [OF assms(7)] assms(5) by auto
  have "i < k'" using assms(8,10) k(1) by (metis linorder_neqE_nat pulled.distinct(1))
  then have "event_copy ended \<in> set (events_read p (qr_turns r) 0 k')"
    using assms(8,9) by (auto simp: events_read_def intro!: bexI [of _ i])
  then obtain e where e: "resolve_event sig check parse' e (p\<lparr>pc_seconds := qr_now r div 1000\<rparr>) = Some x"
      "trusted_address check (event_copy ended) p = trusted_address check e p \<longrightarrow> \<not> event_before (event_copy ended) e"
    using k(2) x by blast
  note live = resolve_event_facts [OF e(1)]
  have "e \<noteq> event_copy ended" using live(3) facts(3) by (auto simp: single_value_copy)
  moreover have "e \<noteq> event_copy previous"
  proof
    assume prev: "e = event_copy previous"
    have "check (event_copy previous)" using live(2) prev by (auto simp: trusted_address_def Let_def split: if_splits)
    then have "trusted_address check (event_copy ended) p = trusted_address check e p"
      using assms(6) facts by (auto simp: trusted_address_def Let_def prev single_value_copy event_copy_members split: if_splits)
    moreover have "event_before (event_copy ended) e"
      using facts(4) by (simp add: prev event_before_def event_copy_members)
    ultimately show False using e(2) by simp
  qed
  ultimately show "rs_live x \<notin> {event_copy previous, event_copy ended}
    \<and> (trusted_address check (rs_live x) p = Some a \<longrightarrow> \<not> event_before (event_copy ended) (rs_live x))"
    using e(2) assms(6) live(1) by auto
qed

definition ex_hex :: "char \<Rightarrow> js" where "ex_hex c = JStr (replicate 64 c)"

definition ex_author :: signer where
  "ex_author = \<lparr>sn_pubkey = replicate 64 CHR ''a'', sn_finalize = (\<lambda>d. JObj [(''id'', ex_hex (CHR ''b'')),
     (''pubkey'', ex_hex (CHR ''a'')), (''created_at'', member d ''created_at''), (''kind'', member d ''kind''),
     (''tags'', member d ''tags''), (''content'', member d ''content''), (''sig'', JStr (replicate 128 CHR ''c''))])\<rparr>"

lemma ex_author_finalizes: "finalizes ex_author"
  by (simp add: finalizes_def ex_author_def ex_hex_def jget_def)

definition ex_parse :: url_parser where
  "ex_parse s = Some \<lparr>ur_protocol = takeWhile (\<lambda>c. c \<noteq> CHR ''/'') s, ur_origin = ''o'', ur_path = ''/'', ur_search = [], ur_user = [], ur_password = [],
     ur_hash = [], ur_params = [], nu_hostname = ''h'', nu_href = s\<rparr>"

definition ex_root :: js where
  "ex_root = sn_finalize ex_author (event_draft 30311 100 [[JStr ''d'', JStr ''m''], [JStr ''relayswarm'', JStr ''redistribute'', JStr ''1'']] [])"

definition ex_advert :: "js \<Rightarrow> advert_options" where
  "ex_advert status = \<lparr>ao_stream = ex_root, ao_swarm = JStr ''swarm-id'', ao_manifest = JStr ''https:/x'', ao_relays = JArr [JStr ''wss:/x''],
     ao_status = status, ao_starts = JUndefined, ao_expires = JUndefined, ao_loopback = JUndefined\<rparr>"

definition ex_live :: js where
  "ex_live = sn_finalize ex_author (event_draft 30311 100 (advert_tags ex_root (JStr ''swarm-id'')
     \<lparr>ap_seconds = 100, ap_starts = 100, ap_expires = 400, ap_status = ''live'', ap_manifest = ''https:/x'', ap_relays = [''wss:/x'']\<rparr>) [])"

definition ex_ended :: js where
  "ex_ended = sn_finalize ex_author (event_draft 30311 101 (advert_tags ex_root (JStr ''swarm-id'')
     \<lparr>ap_seconds = 100, ap_starts = 100, ap_expires = 400, ap_status = ''ended'', ap_manifest = ''https:/x'', ap_relays = [''wss:/x'']\<rparr>) [])"

lemmas ex_advert_defs = ex_author_def ex_hex_def event_draft_def jget_def advert_tags_def ex_root_def

lemma ex_root_ok: "valid_stream_authorisation (\<lambda>e. True) ex_root"
proof -
  have "length (json_text ex_root) \<le> 1000"
    by (simp add: ex_advert_defs string_text_def escape_char_def control_char_def int_text_def nat_text.simps map_replicate length_concat sum_list_replicate)
  then have "bounded_event ex_root"
    using utf8_length_le [of "json_text ex_root"] by (simp add: bounded_event_def del: json_text.simps)
  then show ?thesis
    by (simp add: valid_stream_authorisation_def ex_advert_defs tag_value_def tag_matches_def)
qed

lemma ex_live_text: "length (json_text ex_live) \<le> 1500" "length (json_text ex_ended) \<le> 1500"
  by (simp_all add: ex_live_def ex_ended_def ex_advert_defs string_text_def escape_char_def control_char_def int_text_def nat_text.simps map_replicate length_concat
      sum_list_replicate)

definition ex_policy :: stream_policy where
  "ex_policy = \<lparr>po_authors = Some [ex_hex (CHR ''a'')], po_swarm = JStr ''swarm-id'', po_loopback = JUndefined, po_origins = Some [JStr ''https:/o''],
     po_relays = Some [JStr ''wss:/x''], po_authorisations = JArr [ex_root], po_ice = JUndefined, po_max_age = JUndefined, po_max_future = JUndefined,
     po_max_bytes = JUndefined\<rparr>"

definition ex_compiled :: compiled_policy where
  "ex_compiled = \<lparr>pc_streams = [(replicate 64 CHR ''b'', ex_root)], pc_authors = [replicate 64 CHR ''a''], pc_origins = [''o''], pc_relays = [''wss:/x''],
     pc_swarm = ''swarm-id'', pc_ice = [], pc_loopback = False, pc_seconds = 100, pc_max_age = 3600, pc_max_future = 30, pc_max_bytes = 16384\<rparr>"

lemma ex_hex_ok: "hex64 (ex_hex (CHR ''a''))" "hex64 (ex_hex (CHR ''b''))" "hex128 (JStr (replicate 128 CHR ''c''))"
  by (simp_all add: hex64_def hex128_def hex64_test_def hex_string_def ex_hex_def lower_hex_char_def list_all_iff)

lemma ex_root_members: "js_string (member ex_root ''pubkey'') = replicate 64 CHR ''a''" "member ex_root ''pubkey'' = ex_hex (CHR ''a'')" "member ex_root ''id'' = ex_hex (CHR ''b'')"
  by (simp_all add: ex_root_def ex_author_def ex_hex_def jget_def)

lemma ex_compiles: "compile_policy (\<lambda>e. True) ex_parse ex_policy 100000 = Some ex_compiled"
  using ex_root_ok ex_hex_ok(1)
  by (simp add: compile_policy_def ex_policy_def ex_compiled_def policy_authors_def explicit_list_def policy_origins_def media_origin_def safe_url_def
      js_space_def ex_parse_def policy_relays_def all_some_def policy_streams_def if_nullish_def ex_root_members bounded_integer_def
      ice_policy_def default_array_def safe_int_def max_safe_def) (simp add: ex_hex_def)

lemma ex_bytes: "int (utf8_length (json_text (event_copy ex_live))) \<le> 3000" "int (utf8_length (json_text (event_copy ex_ended))) \<le> 3000"
proof -
  have "length (json_text (event_copy ex_live)) \<le> 1500" "length (json_text (event_copy ex_ended)) \<le> 1500"
    by (simp_all add: event_copy_def ex_live_def ex_ended_def ex_advert_defs string_text_def escape_char_def control_char_def int_text_def nat_text.simps map_replicate
        length_concat sum_list_replicate)
  then show "int (utf8_length (json_text (event_copy ex_live))) \<le> 3000" "int (utf8_length (json_text (event_copy ex_ended))) \<le> 3000"
    using utf8_length_le [of "json_text (event_copy ex_live)"] utf8_length_le [of "json_text (event_copy ex_ended)"] by linarith+
qed

lemma ex_members:
  "member ex_live ''id'' = ex_hex (CHR ''b'')" "member ex_live ''pubkey'' = ex_hex (CHR ''a'')" "member ex_live ''created_at'' = JInt 100"
  "member ex_live ''kind'' = JInt 30311" "member ex_live ''content'' = JStr []" "member ex_live ''sig'' = JStr (replicate 128 CHR ''c'')" "object_or_array ex_live"
  "member ex_ended ''id'' = ex_hex (CHR ''b'')" "member ex_ended ''pubkey'' = ex_hex (CHR ''a'')" "member ex_ended ''created_at'' = JInt 101"
  "member ex_ended ''kind'' = JInt 30311" "member ex_ended ''content'' = JStr []" "member ex_ended ''sig'' = JStr (replicate 128 CHR ''c'')" "object_or_array ex_ended"
  by (simp_all add: ex_live_def ex_ended_def ex_author_def event_draft_def jget_def)

lemma ex_digits: "int_text 100 = ''100''" "int_text 400 = ''400''"
  by code_simp+

lemma ex_tags:
  "member ex_live ''tags'' = JArr (map JArr [[JStr ''d'', JStr (''live-'' @ replicate 64 CHR ''b'')], [JStr ''streaming'', JStr ''https:/x''],
     [JStr ''status'', JStr ''live''], [JStr ''starts'', JStr ''100''], [JStr ''expiration'', JStr ''400''],
     [JStr ''relays'', JStr ''wss:/x''], [JStr ''relayswarm'', JStr ''redistribute'', JStr ''1''],
     [JStr ''relayswarm-authorisation'', ex_hex (CHR ''b'')], [JStr ''relayswarm-swarm'', JStr ''swarm-id'']])"
  "member ex_ended ''tags'' = JArr (map JArr [[JStr ''d'', JStr (''live-'' @ replicate 64 CHR ''b'')], [JStr ''streaming'', JStr ''https:/x''],
     [JStr ''status'', JStr ''ended''], [JStr ''starts'', JStr ''100''], [JStr ''expiration'', JStr ''400''], [JStr ''ends'', JStr ''100''],
     [JStr ''relays'', JStr ''wss:/x''], [JStr ''relayswarm'', JStr ''redistribute'', JStr ''1''],
     [JStr ''relayswarm-authorisation'', ex_hex (CHR ''b'')], [JStr ''relayswarm-swarm'', JStr ''swarm-id'']])"
  by (simp_all add: ex_live_def ex_ended_def ex_author_def event_draft_def jget_def advert_tags_def ex_root_members ex_digits) (simp_all add: ex_hex_def)

lemma ex_wire:
  "wire_event ex_live 16384 = Wire (event_copy ex_live, int (utf8_length (json_text (event_copy ex_live))))"
  "wire_event ex_ended 16384 = Wire (event_copy ex_ended, int (utf8_length (json_text (event_copy ex_ended))))"
  using ex_bytes ex_hex_ok
  by (simp_all add: wire_event_def Let_def ex_members ex_tags safe_int_def max_safe_def) (simp_all add: ex_hex_def Let_def)

definition ex_run :: "js list \<Rightarrow> query_run" where
  "ex_run es = \<lparr>qr_aborted = None, qr_source = SourceIterable, qr_after = None,
     qr_turns = (\<lambda>i. \<lparr>tu_before = None, tu_now = 0, tu_pulled = (if i < length es then Yields (es ! i) else Finished), tu_after = None\<rparr>),
     qr_gathered = None, qr_now = 100000, qr_rounds = (\<lambda>i. (None, 0))\<rparr>"

definition ex_options :: query_options where
  "ex_options = \<lparr>qo_timeout = JUndefined, qo_events = JUndefined, qo_results = JUndefined, qo_bytes = JUndefined\<rparr>"

lemma ex_query_limits: "query_limits_of ex_options 0 = Some \<lparr>ql_events = 256, ql_results = 32, ql_bytes = 2097152, ql_deadline = 5000\<rparr>"
  by (simp add: query_limits_of_def ex_options_def bounded_integer_def if_nullish_def safe_int_def max_safe_def)

lemma ex_trusted:
  "trusted_address (\<lambda>e. True) (event_copy ex_live) ex_compiled = trusted_address (\<lambda>e. True) (event_copy ex_ended) ex_compiled"
  "trusted_address (\<lambda>e. True) (event_copy ex_ended) ex_compiled \<noteq> None"
  by (simp_all add: trusted_address_def single_value_copy event_copy_members single_value_def single_tag_def tag_matches_def ex_members ex_tags ex_compiled_def)
    (simp_all add: ex_hex_def)

lemma ex_status: "single_value ex_ended ''status'' = JStr ''ended''" "event_before (event_copy ex_ended) (event_copy ex_live)"
  by (simp_all add: single_value_def single_tag_def tag_matches_def event_before_def event_copy_members ex_members ex_tags)

lemma ex_not_live: "resolve_event sig check parse (event_copy ex_ended) p = None"
  by (simp add: resolve_event_def live_redistributable_def single_value_copy ex_status)

lemma ex_selected: "\<exists>x. resolve_event (\<lambda>e. True) (\<lambda>e. True) ex_parse (event_copy ex_live) ex_compiled = Some x"
proof -
  have "live_redistributable (\<lambda>e. True) (event_copy ex_live) ex_compiled"
    using ex_trusted
    by (simp add: live_redistributable_def event_copy_members single_value_copy single_tag_def tag_matches_copy ex_members)
      (simp add: single_value_def single_tag_def tag_matches_def ex_tags ex_compiled_def timestamp_tag_def tag_matches_copy timestamp_ok_def digit_def
        digits_value_def digit_value_def safe_int_def max_safe_def event_copy_members)
  moreover have "linked_authorisation (\<lambda>e. True) (event_copy ex_live) ex_compiled \<noteq> None"
    using ex_root_ok ex_hex_ok
    by (simp add: linked_authorisation_def tag_matches_copy single_value_copy timestamp_tag_def event_copy_members ex_members)
      (simp add: tag_matches_def ex_tags single_value_def single_tag_def ex_compiled_def ex_root_members ex_hex_def hex64_def jget_def digit_def
        digits_value_def digit_value_def safe_int_def max_safe_def event_copy_members ex_members timestamp_tag_def)
  moreover have "safe_url ex_parse (single_value (event_copy ex_live) ''streaming'') [''https:''] (pc_loopback ex_compiled) ''http:'' \<noteq> None"
    and "truthy (single_value (event_copy ex_live) ''streaming'')"
    by (simp_all add: single_value_def single_tag_def tag_matches_def event_copy_members ex_tags safe_url_def js_space_def ex_parse_def)
  moreover have "ur_origin u \<in> set (pc_origins ex_compiled)" if "safe_url ex_parse v ps al i = Some u" for v ps al i u
    using that by (auto simp: safe_url_def ex_parse_def ex_compiled_def split: if_splits)
  ultimately show ?thesis
    by (auto simp: resolve_event_def Let_def)
qed

lemma ex_gathered:
  "\<exists>c b. gather (\<lambda>e. True) ex_compiled \<lparr>ql_events = 256, ql_results = 32, ql_bytes = 2097152, ql_deadline = 5000\<rparr> (qr_turns (ex_run [ex_live])) 0 (0, 0, [])
     = Some (Inr (c, b, keep_newest (\<lambda>e. True) ex_compiled (event_copy ex_live) []))"
  "\<exists>c b. gather (\<lambda>e. True) ex_compiled \<lparr>ql_events = 256, ql_results = 32, ql_bytes = 2097152, ql_deadline = 5000\<rparr> (qr_turns (ex_run [ex_live, ex_ended])) 0 (0, 0, [])
     = Some (Inr (c, b, keep_newest (\<lambda>e. True) ex_compiled (event_copy ex_ended) (keep_newest (\<lambda>e. True) ex_compiled (event_copy ex_live) [])))"
  using ex_bytes ex_wire by (simp_all add: gather.simps loop_turn_def ex_run_def take_item_def ex_compiled_def)

lemma ex_discovered:
  "\<exists>x. discover_trusted_streams (\<lambda>e. True) (\<lambda>e. True) ex_parse ex_policy ex_options 100000 0 (ex_run [ex_live]) = Some (Inr [x])"
  "discover_trusted_streams (\<lambda>e. True) (\<lambda>e. True) ex_parse ex_policy ex_options 100000 0 (ex_run [ex_live, ex_ended]) = Some (Inr [])"
proof -
  obtain a where a: "trusted_address (\<lambda>e. True) (event_copy ex_live) ex_compiled = Some a" "trusted_address (\<lambda>e. True) (event_copy ex_ended) ex_compiled = Some a"
    using ex_trusted by auto
  have newest: "keep_newest (\<lambda>e. True) ex_compiled (event_copy ex_live) [] = [(a, event_copy ex_live)]"
    "keep_newest (\<lambda>e. True) ex_compiled (event_copy ex_ended) [(a, event_copy ex_live)] = [(a, event_copy ex_ended)]"
    using ex_status(2) by (simp_all add: keep_newest_def a jget_def)
  have same: "ex_compiled\<lparr>pc_seconds := 100\<rparr> = ex_compiled" by (simp add: ex_compiled_def)
  have opens: "open_source \<lparr>ql_events = 256, ql_results = 32, ql_bytes = 2097152, ql_deadline = 5000\<rparr> (ex_run es) = None" for es
    by (simp add: open_source_def ex_run_def)
  have fields: "qr_gathered (ex_run es) = None" "qr_now (ex_run es) = 100000" "qr_rounds (ex_run es) = (\<lambda>i. (None, 0))" for es
    by (simp_all add: ex_run_def)
  show "\<exists>x. discover_trusted_streams (\<lambda>e. True) (\<lambda>e. True) ex_parse ex_policy ex_options 100000 0 (ex_run [ex_live]) = Some (Inr [x])"
    using ex_gathered(1) ex_selected
    by (auto simp: discover_trusted_streams_def ex_compiles ex_query_limits opens newest select_newest_def fields same safe_int_def max_safe_def sort_events_def)
  show "discover_trusted_streams (\<lambda>e. True) (\<lambda>e. True) ex_parse ex_policy ex_options 100000 0 (ex_run [ex_live, ex_ended]) = Some (Inr [])"
    using ex_gathered(2) ex_not_live
    by (auto simp: discover_trusted_streams_def ex_compiles ex_query_limits opens newest select_newest_def fields same safe_int_def max_safe_def sort_events_def)
qed

theorem discovery_settles_witness:
  "\<exists>x. discover_trusted_streams (\<lambda>e. True) (\<lambda>e. True) ex_parse ex_policy ex_options 100000 0 (ex_run [ex_live]) = Some (Inr [x])
     \<and> (\<exists>k. int k \<le> 256 \<and> (\<exists>e \<in> set (events_read ex_compiled (qr_turns (ex_run [ex_live])) 0 k).
          resolve_event (\<lambda>e. True) (\<lambda>e. True) ex_parse e (ex_compiled\<lparr>pc_seconds := 100\<rparr>) = Some x))"
proof -
  obtain x where x: "discover_trusted_streams (\<lambda>e. True) (\<lambda>e. True) ex_parse ex_policy ex_options 100000 0 (ex_run [ex_live]) = Some (Inr [x])"
    using ex_discovered(1) by blast
  have "qr_now (ex_run [ex_live]) = 100000" by (simp add: ex_run_def)
  then show ?thesis
    using discovery_settles [of "\<lambda>e. True" "\<lambda>e. True" ex_parse ex_policy ex_options 100000 0 "ex_run [ex_live]"] x
    by (auto simp: ex_compiles ex_query_limits)
qed

lemma ex_ends: "create_publisher_advertisement (\<lambda>e. True) (\<lambda>e. True) ex_parse (Some ex_author) ex_live (ex_advert (JStr ''ended'')) 100000 = Some ex_ended"
proof -
  have p: "advert_policy_of (\<lambda>e. True) ex_parse (ex_advert (JStr ''ended'')) 100000 = Some \<lparr>ap_seconds = 100, ap_starts = 100, ap_expires = 400,
      ap_status = ''ended'', ap_manifest = ''https:/x'', ap_relays = [''wss:/x'']\<rparr>"
    using ex_root_ok
    by (simp add: advert_policy_of_def ex_advert_def if_nullish_def safe_int_def max_safe_def endpoint_def advert_relays_def all_some_def ex_parse_def js_space_def)
  have "valid_previous (\<lambda>e. True) ex_root (JStr ''swarm-id'') 100 ex_live"
    using utf8_length_le [of "json_text ex_live"] ex_live_text(1) ex_root_members
    by (simp add: valid_previous_def addressed_to_def lone_value_def tag_matches_def ex_members ex_tags safe_int_def max_safe_def del: json_text.simps)
      (simp add: ex_hex_def)
  moreover have "truthy ex_live" by (simp add: ex_live_def ex_author_def)
  moreover have "member ex_root ''pubkey'' = JStr (sn_pubkey ex_author)" by (simp add: ex_root_members ex_hex_def ex_author_def)
  ultimately show ?thesis
    by (simp add: create_publisher_advertisement_def p) (simp add: ex_advert_def ex_members ex_ended_def)
qed

theorem ended_stays_ended_witness:
  "create_publisher_advertisement (\<lambda>e. True) (\<lambda>e. True) ex_parse (Some ex_author) ex_live (ex_advert (JStr ''ended'')) 100000 = Some ex_ended
   \<and> (\<exists>results. discover_trusted_streams (\<lambda>e. True) (\<lambda>e. True) ex_parse ex_policy ex_options 100000 0 (ex_run [ex_live, ex_ended]) = Some (Inr results)
        \<and> list_all (\<lambda>x. rs_live x \<notin> {event_copy ex_live, event_copy ex_ended}) results)"
proof -
  obtain a where a: "trusted_address (\<lambda>e. True) (event_copy ex_ended) ex_compiled = Some a" using ex_trusted(2) by auto
  have live: "truthy ex_live" by (simp add: ex_live_def ex_author_def)
  have status: "ao_status (ex_advert (JStr ''ended'')) = JStr ''ended''" by (simp add: ex_advert_def)
  have turn: "tu_pulled (qr_turns (ex_run [ex_live, ex_ended]) 1) = Yields ex_ended" "\<forall>j < 1. tu_pulled (qr_turns (ex_run [ex_live, ex_ended]) j) \<noteq> Finished"
    by (simp_all add: ex_run_def)
  have wire: "wire_event ex_ended (pc_max_bytes ex_compiled) = Wire (event_copy ex_ended, int (utf8_length (json_text (event_copy ex_ended))))"
    using ex_wire(2) by (simp add: ex_compiled_def)
  show ?thesis
    using ended_stays_ended [OF ex_author_finalizes ex_ends live status ex_compiles a ex_discovered(2) turn(1) wire turn(2)] ex_ends ex_discovered(2)
    by (intro conjI exI [of _ "[]"]) simp_all
qed

end
