(* ===== verification/Upload_Allowance.thy ===== *)
theory Upload_Allowance
  imports Json
begin

text \<open>
  The viewer's upload allowance that outlives the page, \<open>demo/upload-budget.mjs\<close>.

  All tabs of an origin share one item of the browser's storage, and change it under one lock, so that a
  transaction is one step, at the time when the lock is granted or the request is settled without it.  What
  the storage and the lock do during a step is the record \<open>weather\<close>.
\<close>

datatype write_outcome = WriteThrows | WriteStores | WriteIgnored

record weather =
  wt_available :: bool
  wt_aborted :: bool
  wt_granted :: bool
  wt_read :: bool
  wt_write :: write_outcome
  wt_reread :: bool

record allowance =
  aw_failed :: bool
  aw_state :: js

definition valid_limit :: "js \<Rightarrow> bool" where
  "valid_limit v \<longleftrightarrow> safe_integer v \<and> 0 \<le> int_of v \<and> int_of v \<le> 1000000000000"

definition valid_allowance :: "js \<Rightarrow> bool" where
  "valid_allowance v \<longleftrightarrow> (case v of JObj m \<Rightarrow> length m = 4 | _ \<Rightarrow> False) \<and> member v ''v'' = JInt 1
     \<and> valid_limit (member v ''limit'') \<and> valid_limit (member v ''spent'')
     \<and> safe_integer (member v ''revision'') \<and> 0 \<le> int_of (member v ''revision'')"

definition allowance_of :: "int \<Rightarrow> int \<Rightarrow> int \<Rightarrow> js" where
  "allowance_of spent limit revision =
     JObj [(''v'', JInt 1), (''spent'', JInt spent), (''limit'', JInt limit), (''revision'', JInt revision)]"

text \<open>\<open>read\<close>, where \<open>None\<close> is a throw; \<open>item\<close> is \<open>None\<close> for \<open>null\<close>.\<close>

definition read_allowance :: "int \<Rightarrow> weather \<Rightarrow> string option \<Rightarrow> js option" where
  "read_allowance dflt w item =
     (if \<not> wt_read w then None
      else (case (case item of None \<Rightarrow> Some (allowance_of 0 dflt 0) | Some text \<Rightarrow> json_parse text) of
          None \<Rightarrow> None
        | Some v \<Rightarrow> if valid_allowance v then Some v else None))"

text \<open>\<open>setItem\<close>, and whether the text was read back.\<close>

definition persist :: "weather \<Rightarrow> string \<Rightarrow> string option \<Rightarrow> string option \<times> bool" where
  "persist w text item =
     (case wt_write w of
        WriteThrows \<Rightarrow> (item, False)
      | WriteStores \<Rightarrow> (Some text, wt_reread w)
      | WriteIgnored \<Rightarrow> (item, wt_reread w \<and> item = Some text))"

text \<open>\<open>{ ...current, key: n }\<close> and \<open>next.revision = n\<close>.\<close>

definition with_member :: "string \<Rightarrow> int \<Rightarrow> js \<Rightarrow> js" where
  "with_member k n v = (case v of JObj m \<Rightarrow> JObj (jset k (JInt n) m) | _ \<Rightarrow> v)"

definition with_revision :: "js \<Rightarrow> js \<Rightarrow> js" where
  "with_revision current v = with_member ''revision'' (int_of (member current ''revision'') + 1) v"

definition remaining_allowance :: "allowance \<Rightarrow> int" where
  "remaining_allowance b = (if aw_failed b then 0 else max 0 (int_of (member (aw_state b) ''limit'') - int_of (member (aw_state b) ''spent'')))"

definition allowance_snapshot :: "int \<Rightarrow> weather \<Rightarrow> string option \<Rightarrow> allowance \<Rightarrow> allowance" where
  "allowance_snapshot dflt w item b =
     (case (if wt_available w then read_allowance dflt w item else None) of
        None \<Rightarrow> b\<lparr>aw_failed := True\<rparr>
      | Some v \<Rightarrow> b\<lparr>aw_state := v\<rparr>)"

definition new_allowance :: "int \<Rightarrow> weather \<Rightarrow> string option \<Rightarrow> allowance option" where
  "new_allowance dflt w item =
     (if valid_limit (JInt dflt) then Some (allowance_snapshot dflt w item \<lparr>aw_failed = False, aw_state = allowance_of 0 dflt 0\<rparr>)
      else None)"

text \<open>The step under the lock: \<open>None\<close> where it throws, else the result.\<close>

definition locked_update :: "int \<Rightarrow> weather \<Rightarrow> (js \<Rightarrow> js option) \<Rightarrow> string option \<Rightarrow> allowance \<Rightarrow> bool option \<times> string option \<times> allowance" where
  "locked_update dflt w update item b =
     (case read_allowance dflt w item of
        None \<Rightarrow> (None, item, b)
      | Some current \<Rightarrow>
          (let b = b\<lparr>aw_state := current\<rparr> in
           (case update current of
              None \<Rightarrow> (Some False, item, b)
            | Some v \<Rightarrow>
                (let v = with_revision current v in
                 if \<not> valid_allowance v then (None, item, b)
                 else (let (item', confirmed) = persist w (json_text v) item in
                   if confirmed then (Some True, item', b\<lparr>aw_state := v\<rparr>) else (None, item', b))))))"

definition transaction :: "int \<Rightarrow> weather \<Rightarrow> (js \<Rightarrow> js option) \<Rightarrow> string option \<Rightarrow> allowance \<Rightarrow> bool \<times> string option \<times> allowance" where
  "transaction dflt w update item b =
     (if aw_failed b \<or> \<not> wt_available w then (False, item, b\<lparr>aw_failed := True\<rparr>)
      else if \<not> wt_granted w then (False, item, b\<lparr>aw_failed := \<not> wt_aborted w\<rparr>)
      else if wt_aborted w then (False, item, b)
      else (let (r, item', b') = locked_update dflt w update item b in
        (case r of None \<Rightarrow> (False, item', b'\<lparr>aw_failed := True\<rparr>) | Some ok \<Rightarrow> (ok, item', b'))))"

definition set_limit :: "int \<Rightarrow> weather \<Rightarrow> js \<Rightarrow> string option \<Rightarrow> allowance \<Rightarrow> bool \<times> string option \<times> allowance" where
  "set_limit dflt w limit item b =
     (if \<not> valid_limit limit then (False, item, b)
      else transaction dflt w (\<lambda>current. Some (with_member ''limit'' (int_of limit) current)) item b)"

text \<open>A reserve_update adds to what is spent, within the limit.\<close>

definition reserve_update :: "int \<Rightarrow> js \<Rightarrow> js option" where
  "reserve_update amount current =
     (let spent = int_of (member current ''spent''); limit = int_of (member current ''limit'') in
      if amount \<le> max 0 (limit - spent) then Some (with_member ''spent'' (spent + amount) current) else None)"

definition reserve_upload :: "int \<Rightarrow> weather \<Rightarrow> js \<Rightarrow> string option \<Rightarrow> allowance \<Rightarrow> bool \<times> string option \<times> allowance" where
  "reserve_upload dflt w amount item b =
     (if \<not> safe_integer amount \<or> int_of amount < 1 then (False, item, b)
      else transaction dflt w (reserve_update (int_of amount)) item b)"

text \<open>\<open>reset\<close>: only a valid record keeps its revision.\<close>

definition reset_revision :: "string option \<Rightarrow> int" where
  "reset_revision item =
     (case item of
        None \<Rightarrow> 0
      | Some text \<Rightarrow> (case json_parse text of None \<Rightarrow> 0 | Some v \<Rightarrow> if valid_allowance v then int_of (member v ''revision'') else 0))"

definition reset_allowance :: "weather \<Rightarrow> js \<Rightarrow> string option \<Rightarrow> allowance \<Rightarrow> bool \<times> string option \<times> allowance" where
  "reset_allowance w limit item b =
     (if \<not> valid_limit limit \<or> \<not> wt_available w then (False, item, b)
      else if \<not> wt_granted w then (False, item, b\<lparr>aw_failed := True\<rparr>)
      else (let v = allowance_of 0 (int_of limit) ((if wt_read w then reset_revision item else 0) + 1) in
        if \<not> valid_allowance v then (False, item, b)
        else (let (item', confirmed) = persist w (json_text v) item in
          if confirmed then (True, item', b\<lparr>aw_state := v, aw_failed := False\<rparr>) else (False, item', b\<lparr>aw_failed := True\<rparr>))))"

subsection \<open>Tabs that share the item\<close>

datatype allowance_op = Snapshot | SetLimit js | Reserve js | Reset js

definition allowance_step :: "int \<Rightarrow> weather \<Rightarrow> allowance_op \<Rightarrow> string option \<Rightarrow> allowance \<Rightarrow> bool \<times> string option \<times> allowance" where
  "allowance_step dflt w op item b =
     (case op of
        Snapshot \<Rightarrow> (False, item, allowance_snapshot dflt w item b)
      | SetLimit limit \<Rightarrow> set_limit dflt w limit item b
      | Reserve amount \<Rightarrow> reserve_upload dflt w amount item b
      | Reset limit \<Rightarrow> reset_allowance w limit item b)"

text \<open>A run of steps of the tabs: the final item and tabs, and what was answered.\<close>

fun allowance_run :: "int \<Rightarrow> (nat \<times> weather \<times> allowance_op) list \<Rightarrow> string option \<times> (nat \<Rightarrow> allowance)
    \<Rightarrow> (nat \<times> allowance_op \<times> bool) list \<times> string option \<times> (nat \<Rightarrow> allowance)" where
  "allowance_run dflt [] (item, tabs) = ([], item, tabs)"
| "allowance_run dflt ((t, w, op) # es) (item, tabs) =
     (let (r, item', b) = allowance_step dflt w op item (tabs t);
          (rs, final) = allowance_run dflt es (item', tabs(t := b))
      in ((t, op, r) # rs, final))"

end
