(* ===== verification/Upload_Allowance_Claims.thy ===== *)
theory Upload_Allowance_Claims
  imports Upload_Allowance
begin

text \<open>
  The allowance fails closed: whatever the storage and the lock do, and however the tabs interleave, accepted
  reservations are counted in the stored record, within its limit, and a tab that has seen a failure accepts
  nothing more until a reset.
\<close>

definition stored :: "int \<Rightarrow> string option \<Rightarrow> js" where
  "stored dflt item = (case item of None \<Rightarrow> allowance_of 0 dflt 0
     | Some text \<Rightarrow> (case json_parse text of None \<Rightarrow> JNull | Some v \<Rightarrow> v))"

definition stored_ok :: "int \<Rightarrow> string option \<Rightarrow> bool" where
  "stored_ok dflt item \<longleftrightarrow> valid_allowance (stored dflt item)"

definition stored_spent :: "int \<Rightarrow> string option \<Rightarrow> int" where
  "stored_spent dflt item = int_of (member (stored dflt item) ''spent'')"

definition stored_limit :: "int \<Rightarrow> string option \<Rightarrow> int" where
  "stored_limit dflt item = int_of (member (stored dflt item) ''limit'')"

fun op_amount :: "allowance_op \<Rightarrow> int" where
  "op_amount (Reserve v) = int_of v"
| "op_amount _ = 0"

fun op_within :: "int \<Rightarrow> allowance_op \<Rightarrow> bool" where
  "op_within L (SetLimit v) = (int_of v \<le> L)"
| "op_within L (Reset v) = (int_of v \<le> L)"
| "op_within L _ = True"

text \<open>
  What the stored record must cover: the accepted reservations, from the last reset that reached the storage on,
  whether or not it was confirmed there.
\<close>

definition counted :: "allowance_op \<Rightarrow> bool \<Rightarrow> string option \<Rightarrow> string option \<Rightarrow> int \<Rightarrow> int" where
  "counted op r item item' n =
     (case op of Reset v \<Rightarrow> if item' = item then n else 0 | _ \<Rightarrow> n + (if r then op_amount op else 0))"

fun owed :: "int \<Rightarrow> (nat \<times> weather \<times> allowance_op) list \<Rightarrow> string option \<times> (nat \<Rightarrow> allowance) \<Rightarrow> int \<Rightarrow> int" where
  "owed dflt [] (item, tabs) n = n"
| "owed dflt ((t, w, op) # es) (item, tabs) n =
     (let (r, item', b) = allowance_step dflt w op item (tabs t)
      in owed dflt es (item', tabs(t := b)) (counted op r item item' n))"

lemma counted_mono: "m \<le> n \<Longrightarrow> counted op r item item' m \<le> counted op r item item' n"
  by (simp add: counted_def split: allowance_op.split)

lemma owed_mono: "m \<le> n \<Longrightarrow> owed dflt es (item, tabs) m \<le> owed dflt es (item, tabs) n"
proof (induction es arbitrary: item tabs m n)
  case (Cons e es)
  obtain t w op where e: "e = (t, w, op)" by (cases e)
  obtain r item1 b where step: "allowance_step dflt w op item (tabs t) = (r, item1, b)" by (metis prod_cases3)
  show ?case using Cons.IH [OF counted_mono [OF Cons.prems, of op r item item1]] by (simp add: e step)
qed simp

subsection \<open>Valid records are printable\<close>

lemma valid_allowance_members:
  assumes "valid_allowance v"
  obtains m a b c where "v = JObj m" "length m = 4" "jget m ''v'' = Some (JInt 1)" "jget m ''limit'' = Some (JInt a)"
    "jget m ''spent'' = Some (JInt b)" "jget m ''revision'' = Some (JInt c)"
proof -
  obtain m where m: "v = JObj m" "length m = 4" using assms by (auto simp: valid_allowance_def split: js.splits)
  have num: "\<exists>n. jget m k = Some (JInt n)" if "safe_integer (member v k)" for k
    using that m(1) by (cases "jget m k"; cases "member v k") auto
  have "jget m ''v'' = Some (JInt 1)" using assms m(1) by (auto simp: valid_allowance_def split: option.splits)
  moreover have "safe_integer (member v ''limit'')" "safe_integer (member v ''spent'')" "safe_integer (member v ''revision'')"
    using assms by (auto simp: valid_allowance_def valid_limit_def)
  ultimately show ?thesis using num m that by metis
qed

lemma valid_allowance_wf: "valid_allowance v \<Longrightarrow> json_wf v"
proof -
  assume "valid_allowance v"
  then obtain m a b c where m: "v = JObj m" "length m = 4" "jget m ''v'' = Some (JInt 1)" "jget m ''limit'' = Some (JInt a)"
    "jget m ''spent'' = Some (JInt b)" "jget m ''revision'' = Some (JInt c)"
    by (rule valid_allowance_members)
  let ?ks = "[''v'', ''limit'', ''spent'', ''revision'']"
  have sub: "set ?ks \<subseteq> set (jkeys m)"
    using m(3-6) by (auto simp: jget_def dest!: map_of_SomeD intro: rev_image_eqI)
  have four: "card (set ?ks) = 4" by simp
  then have card: "card (set (jkeys m)) = length (jkeys m)"
    using card_mono [OF _ sub] card_length [of "jkeys m"] m(2) by simp
  then have dist: "distinct (jkeys m)" by (rule card_distinct)
  have "set ?ks = set (jkeys m)"
    using card_subset_eq [OF _ sub] four card m(2) by simp
  then have keys: "k \<in> set ?ks" if "(k, x) \<in> set m" for k x
    using that by force
  have "json_wf x" if "(k, x) \<in> set m" for k x
  proof -
    have "jget m k = Some x" using map_of_is_SomeI [OF dist that] by (simp add: jget_def)
    then show ?thesis using keys [OF that] m(3-6) by auto
  qed
  then show ?thesis using dist m(1) by (auto simp: jwf_def)
qed

lemma stored_printed: "valid_allowance v \<Longrightarrow> stored dflt (Some (json_text v)) = v"
  by (simp add: stored_def json_roundtrip [OF valid_allowance_wf])

subsection \<open>One step\<close>

lemma read_stored: "read_allowance dflt w item = Some v \<Longrightarrow> v = stored dflt item \<and> valid_allowance v"
  by (auto simp: read_allowance_def stored_def split: if_splits option.splits)

lemma with_member_get: "valid_allowance v \<Longrightarrow> member (with_member k n v) k' = (if k' = k then JInt n else member v k')"
  by (erule valid_allowance_members) (auto simp: with_member_def)

lemma with_member_object: "with_member k n (with_member k' n' (JObj m)) = JObj (jset k (JInt n) (jset k' (JInt n') m))"
  by (simp add: with_member_def)

text \<open>What a locked update leaves: the old item, or one of the next revision as the update wants it.\<close>

lemma locked_update_cases:
  assumes "locked_update dflt w update item b = (r, item', b')" and "stored_ok dflt item"
    and "\<And>current v. update current = Some v \<Longrightarrow> valid_allowance current \<Longrightarrow>
           \<exists>k n. v = with_member k n current \<and> k \<in> {''limit'', ''spent''}"
  shows "aw_failed b' = aw_failed b
    \<and> (item' = item \<and> r \<noteq> Some True
      \<or> (\<exists>v. update (stored dflt item) = Some v \<and> valid_allowance (with_revision (stored dflt item) v)
            \<and> item' = Some (json_text (with_revision (stored dflt item) v))))"
proof (cases "read_allowance dflt w item")
  case None
  then show ?thesis using assms(1) by (auto simp: locked_update_def)
next
  case (Some current)
  then have c: "current = stored dflt item" "valid_allowance current" using read_stored by blast+
  have rev: "item \<noteq> Some (json_text (with_revision current v))" if u: "update current = Some v" "valid_allowance (with_revision current v)" for v
  proof
    assume "item = Some (json_text (with_revision current v))"
    then have same: "current = with_revision current v" using c stored_printed u(2) by metis
    obtain k n where v: "v = with_member k n current" using assms(3) [OF u(1) c(2)] by blast
    obtain m where m: "current = JObj m" using c(2) by (rule valid_allowance_members)
    have "member (with_revision current v) ''revision'' = JInt (int_of (member current ''revision'') + 1)"
      by (simp add: with_revision_def v m with_member_def)
    then have "int_of (member (with_revision current v) ''revision'') = int_of (member current ''revision'') + 1" by simp
    moreover have "int_of (member current ''revision'') = int_of (member (with_revision current v) ''revision'')"
      using arg_cong [OF same, of "\<lambda>v. int_of (member v ''revision'')"] .
    ultimately show False by linarith
  qed
  show ?thesis
    using assms(1) Some rev
    by (auto simp: locked_update_def Let_def persist_def c(1) split: option.splits if_splits write_outcome.splits prod.splits)
qed

lemma transaction_cases:
  assumes "transaction dflt w update item b = (r, item', b')" and "stored_ok dflt item"
    and "\<And>current v. update current = Some v \<Longrightarrow> valid_allowance current \<Longrightarrow>
           \<exists>k n. v = with_member k n current \<and> k \<in> {''limit'', ''spent''}"
  shows "(aw_failed b \<longrightarrow> aw_failed b' \<and> \<not> r)
    \<and> (item' = item \<and> \<not> r
      \<or> (\<exists>v. update (stored dflt item) = Some v \<and> valid_allowance (with_revision (stored dflt item) v)
            \<and> item' = Some (json_text (with_revision (stored dflt item) v))))"
proof -
  obtain q i c where l: "locked_update dflt w update item b = (q, i, c)" by (metis prod_cases3)
  show ?thesis
    using assms(1) locked_update_cases [OF l assms(2,3)] by (auto simp: transaction_def l split: if_splits option.splits)
qed

lemma with_revision_members:
  assumes "valid_allowance current" and "k \<in> {''limit'', ''spent''}"
  shows "member (with_revision current (with_member k n current)) ''spent'' = (if k = ''spent'' then JInt n else member current ''spent'')"
    and "member (with_revision current (with_member k n current)) ''limit'' = (if k = ''limit'' then JInt n else member current ''limit'')"
proof -
  obtain m where m: "current = JObj m" using assms(1) by (rule valid_allowance_members)
  show "member (with_revision current (with_member k n current)) ''spent'' = (if k = ''spent'' then JInt n else member current ''spent'')"
    and "member (with_revision current (with_member k n current)) ''limit'' = (if k = ''limit'' then JInt n else member current ''limit'')"
    using assms(2) by (auto simp: m with_revision_def with_member_def)
qed

lemma reserve_update_SomeD:
  "reserve_update n current = Some v \<Longrightarrow> v = with_member ''spent'' (int_of (member current ''spent'') + n) current
     \<and> n \<le> max 0 (int_of (member current ''limit'') - int_of (member current ''spent''))"
  by (auto simp: reserve_update_def Let_def split: if_splits)

text \<open>What one step keeps of the stored record.\<close>

definition step_keeps :: "int \<Rightarrow> int \<Rightarrow> allowance_op \<Rightarrow> string option \<Rightarrow> bool \<times> string option \<times> allowance \<Rightarrow> bool" where
  "step_keeps dflt L op item res \<longleftrightarrow> (case res of (r, item', b') \<Rightarrow>
     stored_ok dflt item' \<and> counted op r item item' (stored_spent dflt item) \<le> stored_spent dflt item'
     \<and> stored_spent dflt item' \<le> max (stored_spent dflt item) L \<and> stored_limit dflt item' \<le> L)"

lemma reserve_keeps:
  assumes "stored_ok dflt item" and "stored_limit dflt item \<le> L"
  shows "step_keeps dflt L (Reserve v) item (reserve_upload dflt w v item b)"
proof (cases "safe_integer v \<and> 1 \<le> int_of v")
  case True
  obtain r item' b' where t: "transaction dflt w (reserve_update (int_of v)) item b = (r, item', b')" by (metis prod_cases3)
  have valid: "valid_allowance (stored dflt item)" using assms(1) by (simp add: stored_ok_def)
  have "(aw_failed b \<longrightarrow> aw_failed b' \<and> \<not> r) \<and> (item' = item \<and> \<not> r
      \<or> (\<exists>x. reserve_update (int_of v) (stored dflt item) = Some x \<and> valid_allowance (with_revision (stored dflt item) x)
            \<and> item' = Some (json_text (with_revision (stored dflt item) x))))"
    by (rule transaction_cases [OF t assms(1)]) (use reserve_update_SomeD in blast)
  then show ?thesis
    using True assms valid
    by (auto simp: step_keeps_def counted_def reserve_upload_def t stored_ok_def stored_spent_def stored_limit_def stored_printed with_revision_members
        dest!: reserve_update_SomeD)
next
  case False
  then show ?thesis using assms by (auto simp: step_keeps_def counted_def reserve_upload_def)
qed

lemma set_limit_keeps:
  assumes "stored_ok dflt item" and "stored_limit dflt item \<le> L" and "int_of v \<le> L"
  shows "step_keeps dflt L (SetLimit v) item (set_limit dflt w v item b)"
proof (cases "valid_limit v")
  case True
  let ?u = "\<lambda>current. Some (with_member ''limit'' (int_of v) current)"
  obtain r item' b' where t: "transaction dflt w ?u item b = (r, item', b')" by (metis prod_cases3)
  have valid: "valid_allowance (stored dflt item)" using assms(1) by (simp add: stored_ok_def)
  have "(aw_failed b \<longrightarrow> aw_failed b' \<and> \<not> r) \<and> (item' = item \<and> \<not> r
      \<or> (\<exists>x. ?u (stored dflt item) = Some x \<and> valid_allowance (with_revision (stored dflt item) x)
            \<and> item' = Some (json_text (with_revision (stored dflt item) x))))"
    by (rule transaction_cases [OF t assms(1)]) auto
  then show ?thesis
    using True assms valid
    by (auto simp: step_keeps_def counted_def set_limit_def t stored_ok_def stored_spent_def stored_limit_def stored_printed with_revision_members)
next
  case False
  then show ?thesis using assms by (auto simp: step_keeps_def counted_def set_limit_def)
qed

lemma reset_cases:
  assumes "reset_allowance w v item b = (r, item', b')"
  shows "item' = item \<and> \<not> r
    \<or> (\<exists>n. valid_limit v \<and> valid_allowance (allowance_of 0 (int_of v) n) \<and> item' = Some (json_text (allowance_of 0 (int_of v) n))
        \<and> (r \<longrightarrow> aw_state b' = allowance_of 0 (int_of v) n))"
  using assms by (auto simp: reset_allowance_def Let_def persist_def split: if_splits write_outcome.splits prod.splits)

lemma allowance_of_members: "member (allowance_of s l n) ''spent'' = JInt s" "member (allowance_of s l n) ''limit'' = JInt l"
  by (simp_all add: allowance_of_def jget_def)

lemma stored_spent_nonneg: "stored_ok dflt item \<Longrightarrow> 0 \<le> stored_spent dflt item"
  by (simp add: stored_ok_def stored_spent_def valid_allowance_def valid_limit_def)

lemma reset_keeps:
  assumes "stored_ok dflt item" and "stored_limit dflt item \<le> L" and "int_of v \<le> L"
  shows "step_keeps dflt L (Reset v) item (reset_allowance w v item b)"
proof -
  obtain r item' b' where t: "reset_allowance w v item b = (r, item', b')" by (metis prod_cases3)
  show ?thesis
    using reset_cases [OF t] assms stored_spent_nonneg [OF assms(1)]
    by (auto simp: step_keeps_def counted_def t stored_ok_def stored_spent_def stored_limit_def stored_printed allowance_of_members)
qed

lemma step_keeps_ok:
  assumes "stored_ok dflt item" and "stored_limit dflt item \<le> L" and "op_within L op"
  shows "step_keeps dflt L op item (allowance_step dflt w op item b)"
proof (cases op)
  case Snapshot
  then show ?thesis using assms by (auto simp: step_keeps_def counted_def allowance_step_def)
qed (use assms reserve_keeps set_limit_keeps reset_keeps in \<open>auto simp: allowance_step_def\<close>)

subsection \<open>What a tab learns from one step\<close>

text \<open>
  A step that leaves its tab working either did what was asked, in the storage, or was refused for a reason that
  is no failure: a void argument, an aborted request, a reservation beyond what the record that was read allows, and for a
  reset a missing storage or lock interface, or a revision at its end.  Only an answered reset lets a failed tab work again.
\<close>

definition closes :: "int \<Rightarrow> weather \<Rightarrow> allowance_op \<Rightarrow> string option \<Rightarrow> allowance \<Rightarrow> bool \<times> string option \<times> allowance \<Rightarrow> bool" where
  "closes dflt w op item b res \<longleftrightarrow> (case res of (r, item', b') \<Rightarrow>
     (r \<longrightarrow> \<not> aw_failed b' \<and> wt_available w \<and> wt_granted w \<and> aw_state b' = stored dflt item')
     \<and> (aw_failed b \<and> \<not> aw_failed b' \<longrightarrow> r \<and> (\<exists>v. op = Reset v))
     \<and> (\<not> aw_failed b' \<longrightarrow> (case op of
          Snapshot \<Rightarrow> \<not> r \<and> item' = item \<and> wt_available w \<and> read_allowance dflt w item = Some (aw_state b')
        | Reserve v \<Rightarrow>
            if r then \<not> wt_aborted w \<and> stored_spent dflt item' = stored_spent dflt item + int_of v
            else item' = item \<and> (\<not> safe_integer v \<or> int_of v < 1 \<or> wt_aborted w
              \<or> (\<exists>c. wt_granted w \<and> read_allowance dflt w item = Some c
                   \<and> int_of v > max 0 (int_of (member c ''limit'') - int_of (member c ''spent''))))
        | SetLimit v \<Rightarrow>
            if r then \<not> wt_aborted w \<and> stored_limit dflt item' = int_of v \<and> stored_spent dflt item' = stored_spent dflt item
            else item' = item \<and> (\<not> valid_limit v \<or> wt_aborted w)
        | Reset v \<Rightarrow>
            if r then stored_limit dflt item' = int_of v \<and> stored_spent dflt item' = 0
            else item' = item \<and> (\<not> valid_limit v \<or> \<not> wt_available w \<or> reset_revision item = max_safe))))"

lemma transaction_closes:
  assumes "transaction dflt w update item b = (r, item', b')"
  shows "(r \<longrightarrow> \<not> aw_failed b') \<and> (\<not> aw_failed b' \<longrightarrow> \<not> aw_failed b \<and> wt_available w
    \<and> (r \<longrightarrow> \<not> wt_aborted w \<and> wt_granted w \<and> (\<exists>c v. read_allowance dflt w item = Some c \<and> update c = Some v
          \<and> valid_allowance (with_revision c v) \<and> item' = Some (json_text (with_revision c v)) \<and> aw_state b' = with_revision c v))
    \<and> (\<not> r \<longrightarrow> item' = item \<and> (wt_aborted w \<or> wt_granted w \<and> (\<exists>c. read_allowance dflt w item = Some c \<and> update c = None))))"
  using assms
  by (auto simp: transaction_def locked_update_def Let_def persist_def split: if_splits option.splits prod.splits write_outcome.splits)

lemma reserve_closes: "closes dflt w (Reserve v) item b (reserve_upload dflt w v item b)"
proof (cases "safe_integer v \<and> 1 \<le> int_of v")
  case True
  obtain r item' b' where t: "transaction dflt w (reserve_update (int_of v)) item b = (r, item', b')" by (metis prod_cases3)
  have refused: "int_of v > max 0 (int_of (member c ''limit'') - int_of (member c ''spent''))" if "reserve_update (int_of v) c = None" for c
    using that by (auto simp: reserve_update_def Let_def not_le split: if_splits)
  have made: "stored dflt item' = with_revision c x \<and> stored_spent dflt item' = stored_spent dflt item + int_of v"
    if "read_allowance dflt w item = Some c" "reserve_update (int_of v) c = Some x" "valid_allowance (with_revision c x)"
      "item' = Some (json_text (with_revision c x))" for c x
    using that read_stored [OF that(1)] reserve_update_SomeD [OF that(2)] by (auto simp: stored_printed stored_spent_def with_revision_members)
  show ?thesis
    using transaction_closes [OF t] True refused made by (auto simp: closes_def reserve_upload_def t)
next
  case False
  then show ?thesis by (auto simp: closes_def reserve_upload_def)
qed

lemma set_limit_closes: "closes dflt w (SetLimit v) item b (set_limit dflt w v item b)"
proof (cases "valid_limit v")
  case True
  let ?u = "\<lambda>current. Some (with_member ''limit'' (int_of v) current)"
  obtain r item' b' where t: "transaction dflt w ?u item b = (r, item', b')" by (metis prod_cases3)
  have made: "stored dflt item' = with_revision c x \<and> stored_limit dflt item' = int_of v \<and> stored_spent dflt item' = stored_spent dflt item"
    if "read_allowance dflt w item = Some c" "?u c = Some x" "valid_allowance (with_revision c x)"
      "item' = Some (json_text (with_revision c x))" for c x
    using that read_stored [OF that(1)] by (auto simp: stored_printed stored_spent_def stored_limit_def with_revision_members)
  show ?thesis
    using transaction_closes [OF t] True made by (auto simp: closes_def set_limit_def t)
next
  case False
  then show ?thesis by (auto simp: closes_def set_limit_def)
qed

lemma reset_revision_bounds: "0 \<le> reset_revision item \<and> reset_revision item \<le> max_safe"
proof -
  have "int_of v \<le> max_safe" if "safe_integer v" for v using that by (cases v) (auto simp: safe_int_def)
  then show ?thesis by (auto simp: reset_revision_def valid_allowance_def max_safe_def split: option.split)
qed

lemma reset_closes: "closes dflt w (Reset v) item b (reset_allowance w v item b)"
proof (cases "valid_limit v \<and> wt_available w")
  case True
  obtain r item' b' where t: "reset_allowance w v item b = (r, item', b')" by (metis prod_cases3)
  have "valid_allowance (allowance_of 0 (int_of v) n)" if "1 \<le> n" "n \<le> max_safe" for n
    using True that by (simp add: valid_allowance_def allowance_of_def jget_def valid_limit_def safe_int_def max_safe_def)
  then have room: "valid_allowance (allowance_of 0 (int_of v) ((if wt_read w then reset_revision item else 0) + 1)) \<or> reset_revision item = max_safe"
    using reset_revision_bounds [of item] by (auto simp: max_safe_def)
  have left: "r \<longrightarrow> \<not> aw_failed b' \<and> wt_granted w" "\<not> r \<longrightarrow> aw_failed b' \<or> b' = b \<and> item' = item \<and> reset_revision item = max_safe"
    using t True room by (auto simp: reset_allowance_def Let_def persist_def split: if_splits prod.splits write_outcome.splits)
  show ?thesis
    using reset_cases [OF t] left True
    by (auto simp: closes_def t stored_printed stored_spent_def stored_limit_def allowance_of_members)
next
  case False
  then show ?thesis by (auto simp: closes_def reset_allowance_def)
qed

lemma step_closes: "closes dflt w op item b (allowance_step dflt w op item b)"
proof (cases op)
  case Snapshot
  then show ?thesis by (auto simp: closes_def allowance_step_def allowance_snapshot_def split: option.split if_splits)
qed (use reserve_closes set_limit_closes reset_closes in \<open>simp_all add: allowance_step_def\<close>)

text \<open>
  C35: the allowance fails closed. Over any steps of any tabs, resets included, whatever the storage and the lock do,
  the record stays valid, within the largest limit that was set, and says spent at least what was spent at the start and
  reserved since, or reserved since the last reset that reached the storage.  A tab that has failed accepts nothing
  and stays failed until a reset of its own succeeds.  And a tab becomes failed by any step in which the storage or the lock
  lets it down: a step after which it still works either did in the storage what was asked, which it then holds, or
  refused for a reason that is no failure.
\<close>

theorem allowance_fails_closed:
  assumes "stored_ok dflt item" and "stored_limit dflt item \<le> L" and "\<forall>(t, w, op) \<in> set es. op_within L op"
    and "allowance_run dflt es (item, tabs) = (rs, item', tabs')"
  shows "stored_ok dflt item' \<and> owed dflt es (item, tabs) (stored_spent dflt item) \<le> stored_spent dflt item'
    \<and> stored_spent dflt item' \<le> max (stored_spent dflt item) L
    \<and> (\<forall>t. aw_failed (tabs t) \<longrightarrow>
        (\<forall>rs1 op rs2. rs = rs1 @ (t, op, True) # rs2 \<longrightarrow> (\<exists>v. (t, Reset v, True) \<in> set rs1 \<or> op = Reset v))
        \<and> ((\<forall>v. (t, Reset v, True) \<notin> set rs) \<longrightarrow> aw_failed (tabs' t)))
    \<and> (\<forall>t w op. closes dflt w op item' (tabs' t) (allowance_step dflt w op item' (tabs' t)))"
proof -
  have "stored_ok dflt item' \<and> owed dflt es (item, tabs) (stored_spent dflt item) \<le> stored_spent dflt item'
    \<and> stored_spent dflt item' \<le> max (stored_spent dflt item) L
    \<and> (\<forall>t. aw_failed (tabs t) \<longrightarrow>
        (\<forall>rs1 op rs2. rs = rs1 @ (t, op, True) # rs2 \<longrightarrow> (\<exists>v. (t, Reset v, True) \<in> set rs1 \<or> op = Reset v))
        \<and> ((\<forall>v. (t, Reset v, True) \<notin> set rs) \<longrightarrow> aw_failed (tabs' t)))"
    using assms
  proof (induction es arbitrary: item tabs rs)
    case (Cons e es)
    obtain t w op where e: "e = (t, w, op)" by (cases e)
    obtain r item1 b where step: "allowance_step dflt w op item (tabs t) = (r, item1, b)" by (metis prod_cases3)
    obtain rs1 fin where rest: "allowance_run dflt es (item1, tabs(t := b)) = (rs1, fin)" by (meson surj_pair)
    have rs: "rs = (t, op, r) # rs1" "fin = (item', tabs')" using Cons.prems(4) by (simp_all add: e step rest)
    have keeps: "step_keeps dflt L op item (r, item1, b)"
      using step_keeps_ok [OF Cons.prems(1,2), of op w "tabs t"] Cons.prems(3) by (simp add: step e)
    have closed: "closes dflt w op item (tabs t) (r, item1, b)" using step_closes [of dflt w op item "tabs t"] by (simp add: step)
    have IH: "stored_ok dflt item'" "owed dflt es (item1, tabs(t := b)) (stored_spent dflt item1) \<le> stored_spent dflt item'"
      "stored_spent dflt item' \<le> max (stored_spent dflt item1) L"
      and failed: "\<forall>u. aw_failed ((tabs(t := b)) u) \<longrightarrow>
        (\<forall>qs op ps. rs1 = qs @ (u, op, True) # ps \<longrightarrow> (\<exists>v. (u, Reset v, True) \<in> set qs \<or> op = Reset v))
        \<and> ((\<forall>v. (u, Reset v, True) \<notin> set rs1) \<longrightarrow> aw_failed (tabs' u))"
      using Cons.IH [of item1 "tabs(t := b)" rs1] keeps Cons.prems(3) rest rs(2) by (auto simp: step_keeps_def simp del: fun_upd_apply)
    have "owed dflt (e # es) (item, tabs) (stored_spent dflt item) = owed dflt es (item1, tabs(t := b)) (counted op r item item1 (stored_spent dflt item))"
      by (simp add: e step)
    also have "\<dots> \<le> owed dflt es (item1, tabs(t := b)) (stored_spent dflt item1)"
      using keeps by (intro owed_mono) (simp add: step_keeps_def)
    finally have covered: "owed dflt (e # es) (item, tabs) (stored_spent dflt item) \<le> stored_spent dflt item'" using IH(2) by simp
    have head: "aw_failed b \<and> \<not> r \<or> (\<exists>v. op = Reset v \<and> r)" if "aw_failed (tabs t)"
      using closed that by (auto simp: closes_def)
    have stays: "(\<forall>qs o' ps. rs = qs @ (u, o', True) # ps \<longrightarrow> (\<exists>v. (u, Reset v, True) \<in> set qs \<or> o' = Reset v))
        \<and> ((\<forall>v. (u, Reset v, True) \<notin> set rs) \<longrightarrow> aw_failed (tabs' u))" if u: "aw_failed (tabs u)" for u
    proof (cases "u = t \<and> r")
      case True
      then show ?thesis using head u by (auto simp: rs(1) Cons_eq_append_conv)
    next
      case False
      then have "aw_failed ((tabs(t := b)) u)" using head u by auto
      then show ?thesis using failed False by (auto simp: rs(1) Cons_eq_append_conv)
    qed
    show ?case using IH(1,3) keeps covered stays by (auto simp: step_keeps_def)
  qed auto
  then show ?thesis using step_closes by blast
qed

definition ex_weather :: weather where
  "ex_weather = \<lparr>wt_available = True, wt_aborted = False, wt_granted = True, wt_read = True, wt_write = WriteStores, wt_reread = True\<rparr>"

definition ex_tabs :: "nat \<Rightarrow> allowance" where
  "ex_tabs = (\<lambda>_. \<lparr>aw_failed = False, aw_state = allowance_of 0 100 0\<rparr>)"

text \<open>Tab 1 fails when its reservation is not read back, is refused, and resets; tab 0 reserves twice.\<close>

definition ex_steps :: "(nat \<times> weather \<times> allowance_op) list" where
  "ex_steps = [(0, ex_weather, Reserve (JInt 60)), (1, ex_weather\<lparr>wt_reread := False\<rparr>, Reserve (JInt 30)),
     (1, ex_weather, Reserve (JInt 5)), (1, ex_weather, Reset (JInt 80)), (0, ex_weather, Reserve (JInt 20))]"

lemma ex_allowance_run: "map (\<lambda>(t, op, r). r) (fst (allowance_run 100 ex_steps (None, ex_tabs))) = [True, False, False, True, True]"
  "owed 100 ex_steps (None, ex_tabs) 0 = 20"
  by code_simp+

theorem allowance_fails_closed_witness:
  "20 \<le> stored_spent 100 (fst (snd (allowance_run 100 ex_steps (None, ex_tabs))))
   \<and> map (\<lambda>(t, op, r). r) (fst (allowance_run 100 ex_steps (None, ex_tabs))) = [True, False, False, True, True]"
proof -
  obtain rs item tabs where run: "allowance_run 100 ex_steps (None, ex_tabs) = (rs, item, tabs)" by (metis prod_cases3)
  have "stored_ok 100 None" and "stored_limit 100 None \<le> 100" and "stored_spent 100 None = 0"
    by (simp_all add: stored_ok_def stored_limit_def stored_spent_def stored_def valid_allowance_def valid_limit_def allowance_of_def safe_int_def max_safe_def jget_def)
  moreover have "\<forall>(t, w, op) \<in> set ex_steps. op_within 100 op"
    by (simp add: ex_steps_def)
  ultimately show ?thesis
    using allowance_fails_closed [OF _ _ _ run, of 100] ex_allowance_run by (auto simp: run)
qed

end
