(* ===== verification/Admission.thy ===== *)
theory Admission
  imports Relay_Session Bytes
begin

text \<open>
  Admission tickets of the demo origin, \<open>demo/admission.mjs\<close>.

  A request runs in two steps, since its body is awaited between them: \<open>admission_begin\<close> checks the origin
  and spends the request budget, and \<open>admission_body\<close> handles the body that has arrived.  The entry of an
  address is an object that a waiting request keeps hold of, so that entries are known by number.  A failure
  is its status and message.  Hashing, random bytes, \<open>verifyEvent\<close> and \<open>finalizeEvent\<close> are arguments, and
  \<open>now\<close> is one instant per step.
\<close>

record challenge =
  ch_pubkey :: string
  ch_address :: string
  ch_expires :: int

record ticket =
  tk_pubkey :: string
  tk_expires :: int

record address_entry =
  ae_requests :: int
  ae_issued :: int

record admission_limits =
  al_swarm :: string
  al_ttl :: int
  al_capacity :: int
  al_address_tickets :: int
  al_global_tickets :: int
  al_requests :: int
  al_address_requests :: int

record admission_state =
  ad_challenges :: "(string \<times> challenge) list"
  ad_tickets :: "(string \<times> ticket) list"
  ad_addresses :: "(string \<times> nat) list"
  ad_entries :: "address_entry list"
  ad_revoked :: "(string \<times> int) list"
  ad_epoch :: string
  ad_window :: int
  ad_requests :: int
  ad_issued :: int

type_synonym fault = "nat \<times> string"

definition within :: "int \<Rightarrow> int \<Rightarrow> int \<Rightarrow> bool" where
  "within lo hi n \<longleftrightarrow> safe_int n \<and> lo \<le> n \<and> n \<le> hi"

definition valid_admission_limits :: "admission_limits \<Rightarrow> bool" where
  "valid_admission_limits lim \<longleftrightarrow> al_swarm lim \<noteq> [] \<and> length (al_swarm lim) \<le> 256 \<and> within 30 300 (al_ttl lim)
     \<and> within 1 4096 (al_capacity lim) \<and> within 1 120 (al_address_tickets lim) \<and> within 1 1000 (al_global_tickets lim)
     \<and> within 1 10000 (al_requests lim) \<and> within 1 10000 (al_address_requests lim)"

definition new_admission :: "admission_limits \<Rightarrow> string \<Rightarrow> int \<Rightarrow> admission_state option" where
  "new_admission lim epoch now =
     (if \<not> valid_admission_limits lim then None
      else Some \<lparr>ad_challenges = [], ad_tickets = [], ad_addresses = [], ad_entries = [], ad_revoked = [], ad_epoch = epoch,
        ad_window = now, ad_requests = 0, ad_issued = 0\<rparr>)"

text \<open>\<open>key\<close>, and \<open>prune_admission\<close> with its window of a minute.\<close>

definition key_text :: "js \<Rightarrow> bool" where
  "key_text v \<longleftrightarrow> is_string v \<and> hex64_test v"

definition prune_window :: "int \<Rightarrow> admission_state \<Rightarrow> admission_state" where
  "prune_window now s =
     (if now - ad_window s \<ge> 60000 then s\<lparr>ad_window := now, ad_requests := 0, ad_issued := 0, ad_addresses := []\<rparr> else s)"

definition prune_admission :: "int \<Rightarrow> admission_state \<Rightarrow> admission_state" where
  "prune_admission now s = prune_window now (s\<lparr>
     ad_challenges := filter (\<lambda>(c, v). now < ch_expires v) (ad_challenges s),
     ad_tickets := filter (\<lambda>(t, v). now < tk_expires v) (ad_tickets s),
     ad_revoked := filter (\<lambda>(k, until). now < until) (ad_revoked s)\<rparr>)"

definition request_address :: "(string \<Rightarrow> string) \<Rightarrow> string \<Rightarrow> string" where
  "request_address digest remote = digest (if remote = [] then ''unknown'' else remote)"

subsection \<open>The budget of requests\<close>

definition entry_at :: "nat \<Rightarrow> admission_state \<Rightarrow> address_entry" where
  "entry_at i s = (if i < length (ad_entries s) then ad_entries s ! i else \<lparr>ae_requests = 0, ae_issued = 0\<rparr>)"

text \<open>The entry of an address, created where it is missing.\<close>

definition entry_for :: "string \<Rightarrow> admission_state \<Rightarrow> nat \<times> admission_state" where
  "entry_for a s =
     (case jget (ad_addresses s) a of
        Some i \<Rightarrow> (i, s)
      | None \<Rightarrow> (length (ad_entries s), s\<lparr>ad_addresses := jset a (length (ad_entries s)) (ad_addresses s),
          ad_entries := ad_entries s @ [\<lparr>ae_requests = 0, ae_issued = 0\<rparr>]\<rparr>))"

definition request_budget :: "admission_limits \<Rightarrow> int \<Rightarrow> string \<Rightarrow> admission_state \<Rightarrow> (fault + nat) \<times> admission_state" where
  "request_budget lim now a s =
     (let s = prune_admission now s; s = s\<lparr>ad_requests := ad_requests s + 1\<rparr> in
      if ad_requests s > al_requests lim then (Inl (429, ''Admission request budget exceeded.''), s)
      else if \<not> jhas (ad_addresses s) a \<and> int (length (ad_addresses s)) \<ge> al_capacity lim
      then (Inl (429, ''Admission address capacity reached.''), s)
      else (let (i, s) = entry_for a s; e = entry_at i s; e = e\<lparr>ae_requests := ae_requests e + 1\<rparr>;
                s = s\<lparr>ad_entries := (ad_entries s)[i := e]\<rparr> in
        if ae_requests e > al_address_requests lim then (Inl (429, ''Admission address request budget exceeded.''), s)
        else (Inr i, s)))"

definition same_origin :: "string option \<Rightarrow> string option \<Rightarrow> string \<Rightarrow> bool" where
  "same_origin origin site base \<longleftrightarrow> origin = Some base \<and> (site = None \<or> site = Some [] \<or> site = Some ''same-origin'')"

definition admission_begin :: "admission_limits \<Rightarrow> int \<Rightarrow> string option \<Rightarrow> string option \<Rightarrow> string \<Rightarrow> string \<Rightarrow> admission_state
    \<Rightarrow> (fault + nat) \<times> admission_state" where
  "admission_begin lim now origin site base a s =
     (if \<not> same_origin origin site base then (Inl (403, ''Same-origin admission required.''), s)
      else request_budget lim now a s)"

definition read_json :: "string option \<Rightarrow> byte list list \<Rightarrow> fault + js" where
  "read_json content_type chunks =
     (if map_option (takeWhile (\<lambda>c. c \<noteq> CHR '';'')) content_type \<noteq> Some ''application/json'' then Inl (415, ''Use application/json.'')
      else if length (concat chunks) > 4096 then Inl (413, ''Admission body too large.'')
      else (case json_parse (utf8_text (concat chunks)) of
          None \<Rightarrow> Inl (400, ''Invalid admission JSON.'')
        | Some v \<Rightarrow> Inr v))"

subsection \<open>Challenges and tickets\<close>

text \<open>\<open>!input || Object.keys(input).length !== n\<close> is the negation.\<close>

definition only_keys :: "nat \<Rightarrow> js \<Rightarrow> bool" where
  "only_keys n v \<longleftrightarrow> truthy v
     \<and> (case v of JObj m \<Rightarrow> length m = n | JArr vs \<Rightarrow> length vs = n | JStr s \<Rightarrow> length s = n | _ \<Rightarrow> n = 0)"

definition admission_descriptor :: "string \<Rightarrow> admission_limits \<Rightarrow> admission_state \<Rightarrow> (string \<times> js) list" where
  "admission_descriptor issuer lim s =
     [(''v'', JInt 1), (''issuer'', JStr issuer), (''epoch'', JStr (ad_epoch s)), (''swarmId'', JStr (al_swarm lim)),
      (''ticketTtlSeconds'', JInt (al_ttl lim)), (''challengeEndpoint'', JStr ''/admission/challenge''),
      (''ticketEndpoint'', JStr ''/admission/ticket''), (''verifyEndpoint'', JStr ''/admission/verify'')]"

definition challenges_of :: "string \<Rightarrow> admission_state \<Rightarrow> nat" where
  "challenges_of a s = length (filter (\<lambda>(c, v). ch_address v = a) (ad_challenges s))"

definition ask_challenge :: "admission_limits \<Rightarrow> int \<Rightarrow> string \<Rightarrow> string \<Rightarrow> js \<Rightarrow> admission_state \<Rightarrow> (fault + (string \<times> js) list) \<times> admission_state" where
  "ask_challenge lim now a random input s =
     (if \<not> only_keys 1 input \<or> \<not> key_text (member input ''pubkey'') then (Inl (400, ''Supply only pubkey.''), s)
      else (let pubkey = js_string (member input ''pubkey'') in
        if jhas (ad_revoked s) pubkey then (Inl (403, ''Key temporarily revoked.''), s)
        else if int (length (ad_challenges s)) \<ge> al_capacity lim \<or> int (challenges_of a s) \<ge> min 32 (al_capacity lim)
        then (Inl (429, ''Challenge capacity reached.''), s)
        else (Inr [(''challenge'', JStr random), (''expiresAt'', JInt (now + 30000))],
          s\<lparr>ad_challenges := jset random \<lparr>ch_pubkey = pubkey, ch_address = a, ch_expires = now + 30000\<rparr> (ad_challenges s)\<rparr>)))"

definition possession_proof :: "int \<Rightarrow> js \<Rightarrow> js \<Rightarrow> bool" where
  "possession_proof now input proof \<longleftrightarrow> truthy proof \<and> only_keys 1 input \<and> key_text (member proof ''pubkey'')
     \<and> member proof ''kind'' = JInt 27235 \<and> is_string (member proof ''content'') \<and> byte_length (member proof ''content'') \<le> 512
     \<and> member proof ''tags'' = JArr [] \<and> safe_integer (member proof ''created_at'')
     \<and> \<bar>now div 1000 - int_of (member proof ''created_at'')\<bar> \<le> 30"

text \<open>The challenge that a claim answers; \<open>None\<close> where it is not available.\<close>

definition answered_challenge :: "admission_limits \<Rightarrow> int \<Rightarrow> string \<Rightarrow> string \<Rightarrow> js \<Rightarrow> admission_state \<Rightarrow> string option" where
  "answered_challenge lim now a pubkey claim s =
     (case member claim ''challenge'' of
        JStr c \<Rightarrow>
          (case jget (ad_challenges s) c of
             None \<Rightarrow> None
           | Some v \<Rightarrow>
               if ch_address v \<noteq> a \<or> ch_pubkey v \<noteq> pubkey \<or> ch_expires v \<le> now \<or> member claim ''swarmId'' \<noteq> JStr (al_swarm lim)
                  \<or> member claim ''epoch'' \<noteq> JStr (ad_epoch s) \<or> jhas (ad_revoked s) pubkey then None
               else Some c)
      | _ \<Rightarrow> None)"

definition ticket_draft :: "admission_limits \<Rightarrow> int \<Rightarrow> string \<Rightarrow> string \<Rightarrow> js" where
  "ticket_draft lim now pubkey epoch =
     JObj [(''kind'', JInt 27236), (''created_at'', JInt (now div 1000)),
       (''tags'', JArr [JArr [JStr ''p'', JStr pubkey], JArr [JStr ''x'', JStr (al_swarm lim)],
          JArr [JStr ''expiration'', JStr (int_text (now div 1000 + al_ttl lim))]]),
       (''content'', JStr (json_text (JObj [(''v'', JInt 1), (''epoch'', JStr epoch)])))]"

definition issue_ticket :: "(js \<Rightarrow> js) \<Rightarrow> admission_limits \<Rightarrow> int \<Rightarrow> nat \<Rightarrow> string \<Rightarrow> string \<Rightarrow> admission_state \<Rightarrow> (string \<times> js) list \<times> admission_state" where
  "issue_ticket seal lim now i pubkey c s =
     (let e = entry_at i s;
          s = s\<lparr>ad_challenges := jdel c (ad_challenges s), ad_issued := ad_issued s + 1,
                ad_entries := (ad_entries s)[i := e\<lparr>ae_issued := ae_issued e + 1\<rparr>]\<rparr>;
          expires = now div 1000 + al_ttl lim; t = json_text (seal (ticket_draft lim now pubkey (ad_epoch s))) in
      ([(''ticket'', JStr t), (''expiresAt'', JInt expires)],
       s\<lparr>ad_tickets := jset t \<lparr>tk_pubkey = pubkey, tk_expires = expires * 1000\<rparr> (ad_tickets s)\<rparr>))"

definition ask_ticket :: "(js \<Rightarrow> bool) \<Rightarrow> (js \<Rightarrow> js) \<Rightarrow> admission_limits \<Rightarrow> int \<Rightarrow> string \<Rightarrow> nat \<Rightarrow> js \<Rightarrow> admission_state
    \<Rightarrow> (fault + (string \<times> js) list) \<times> admission_state" where
  "ask_ticket check seal lim now a i input s =
     (let proof = member input ''proof''; pubkey = js_string (member proof ''pubkey'') in
      if ad_issued s \<ge> al_global_tickets lim \<or> ae_issued (entry_at i s) \<ge> al_address_tickets lim
         \<or> int (length (ad_tickets s)) \<ge> al_capacity lim then (Inl (429, ''Ticket issuance budget exceeded.''), s)
      else if \<not> possession_proof now input proof then (Inl (400, ''Invalid key possession proof.''), s)
      else (case json_parse (js_string (member proof ''content'')) of
          None \<Rightarrow> (Inl (400, ''Invalid key possession proof.''), s)
        | Some claim \<Rightarrow>
            if claim = JNull then (Inl (500, ''Admission unavailable.''), s)
            else (case answered_challenge lim now a pubkey claim s of
                None \<Rightarrow> (Inl (403, ''Admission challenge unavailable.''), s)
              | Some c \<Rightarrow>
                  if \<not> check proof then (Inl (403, ''Invalid key possession signature.''), s)
                  else (let (result, s) = issue_ticket seal lim now i pubkey c s in (Inr result, s)))))"

definition admission_verify :: "int \<Rightarrow> js \<Rightarrow> js \<Rightarrow> admission_state \<Rightarrow> bool \<times> admission_state" where
  "admission_verify now pubkey t s =
     (let s = prune_admission now s in
      (key_text pubkey \<and> is_string t \<and> byte_length t \<le> 2048 \<and> \<not> jhas (ad_revoked s) (js_string pubkey)
         \<and> (case jget (ad_tickets s) (js_string t) of
              None \<Rightarrow> False
            | Some v \<Rightarrow> tk_pubkey v = js_string pubkey \<and> now < tk_expires v), s))"

definition ask_verify :: "int \<Rightarrow> js \<Rightarrow> admission_state \<Rightarrow> (fault + (string \<times> js) list) \<times> admission_state" where
  "ask_verify now input s =
     (if \<not> only_keys 2 input \<or> \<not> key_text (member input ''pubkey'') \<or> \<not> is_string (member input ''ticket'')
         \<or> byte_length (member input ''ticket'') > 2048 then (Inl (400, ''Supply pubkey and bounded ticket.''), s)
      else (let (ok, s) = admission_verify now (member input ''pubkey'') (member input ''ticket'') s in
        (Inr [(''admitted'', JBool ok), (''epoch'', JStr (ad_epoch s))], s)))"

definition admission_revoke :: "admission_limits \<Rightarrow> int \<Rightarrow> js \<Rightarrow> admission_state \<Rightarrow> (fault + (string \<times> js) list) \<times> admission_state" where
  "admission_revoke lim now pubkey s =
     (if \<not> key_text pubkey then (Inl (400, ''Supply a hexadecimal pubkey.''), s)
      else (let s = prune_admission now s; k = js_string pubkey; until = now + al_ttl lim * 1000 in
        if \<not> jhas (ad_revoked s) k \<and> int (length (ad_revoked s)) \<ge> al_capacity lim
        then (Inl (429, ''Revocation capacity reached; rotate admission epoch.''), s)
        else (Inr [(''revoked'', JBool True), (''pubkey'', pubkey), (''until'', JInt (- ((- until) div 1000)))],
          s\<lparr>ad_revoked := jset k until (ad_revoked s), ad_tickets := filter (\<lambda>(t, v). tk_pubkey v \<noteq> k) (ad_tickets s)\<rparr>)))"

definition admission_rotate :: "string \<Rightarrow> admission_state \<Rightarrow> admission_state" where
  "admission_rotate epoch s = s\<lparr>ad_tickets := [], ad_challenges := [], ad_revoked := [], ad_epoch := epoch\<rparr>"

datatype admission_path = ChallengePath | TicketPath | VerifyPath

definition path_text :: "admission_path \<Rightarrow> string" where
  "path_text p = (case p of ChallengePath \<Rightarrow> ''/admission/challenge'' | TicketPath \<Rightarrow> ''/admission/ticket'' | VerifyPath \<Rightarrow> ''/admission/verify'')"

text \<open>The second step of \<open>handle\<close>: the response's status and body.\<close>

definition admission_body :: "(js \<Rightarrow> bool) \<Rightarrow> (js \<Rightarrow> js) \<Rightarrow> string \<Rightarrow> admission_limits \<Rightarrow> int \<Rightarrow> string \<Rightarrow> admission_path \<Rightarrow> string \<Rightarrow> nat
    \<Rightarrow> fault + js \<Rightarrow> admission_state \<Rightarrow> (nat \<times> js) \<times> admission_state" where
  "admission_body check seal issuer lim now random path a i body s =
     (let (r, s') = (case body of
          Inl f \<Rightarrow> (Inl f, s)
        | Inr input \<Rightarrow>
            (case path of
               ChallengePath \<Rightarrow> ask_challenge lim now a random input s
             | TicketPath \<Rightarrow> ask_ticket check seal lim now a i input s
             | VerifyPath \<Rightarrow> ask_verify now input s))
      in (case r of
            Inl (status, message) \<Rightarrow> ((status, JObj [(''error'', JStr message)]), s')
          | Inr result \<Rightarrow> ((200, JObj (if path = VerifyPath then result else result @ admission_descriptor issuer lim s')), s')))"

end
