(* ===== verification/Admission_Claims.thy ===== *)
theory Admission_Claims
  imports Admission
begin

text \<open>
  Admission is earned: whoever holds a valid ticket has answered a challenge for that key, from the address
  that asked for it, and has not been revoked since; and every table stays within its capacity.
\<close>

datatype admission_event =
    Begin int "string option" "string option" string string
  | Body int string admission_path string nat "fault + js"
  | Verify int js js
  | Revoke int js
  | Rotate string
  | Prune int

text \<open>What happened, as the answers of the operations show it.\<close>

datatype admission_note =
    Challenged string string string int
  | Issued string string string js string int
  | Revoked string
  | Rotated

type_synonym admission_env = "(js \<Rightarrow> bool) \<times> (js \<Rightarrow> js) \<times> admission_limits"

definition claimed_challenge :: "js \<Rightarrow> string" where
  "claimed_challenge proof = (case json_parse (js_string (member proof ''content'')) of None \<Rightarrow> [] | Some claim \<Rightarrow> js_string (member claim ''challenge''))"

fun admission_notes :: "admission_env \<Rightarrow> admission_event \<Rightarrow> admission_state \<Rightarrow> admission_note list" where
  "admission_notes (check, seal, lim) (Body now random ChallengePath a i (Inr input)) s =
     (case fst (ask_challenge lim now a random input s) of
        Inl f \<Rightarrow> [] | Inr r \<Rightarrow> [Challenged (js_string (member input ''pubkey'')) a random now])"
| "admission_notes (check, seal, lim) (Body now random TicketPath a i (Inr input)) s =
     (case fst (ask_ticket check seal lim now a i input s) of
        Inl f \<Rightarrow> []
      | Inr r \<Rightarrow> [Issued (js_string (member (member input ''proof'') ''pubkey'')) (js_string (member (JObj r) ''ticket''))
          (claimed_challenge (member input ''proof'')) (member input ''proof'') a now])"
| "admission_notes (check, seal, lim) (Revoke now pubkey) s =
     (case fst (admission_revoke lim now pubkey s) of Inl f \<Rightarrow> [] | Inr r \<Rightarrow> [Revoked (js_string pubkey)])"
| "admission_notes env (Rotate epoch) s = [Rotated]"
| "admission_notes env e s = []"

fun admission_apply :: "admission_env \<Rightarrow> admission_event \<Rightarrow> admission_state \<Rightarrow> admission_state" where
  "admission_apply (check, seal, lim) (Begin now origin site base a) s = snd (admission_begin lim now origin site base a s)"
| "admission_apply (check, seal, lim) (Body now random path a i body) s = snd (admission_body check seal [] lim now random path a i body s)"
| "admission_apply (check, seal, lim) (Verify now pubkey t) s = snd (admission_verify now pubkey t s)"
| "admission_apply (check, seal, lim) (Revoke now pubkey) s = snd (admission_revoke lim now pubkey s)"
| "admission_apply env (Rotate epoch) s = admission_rotate epoch s"
| "admission_apply env (Prune now) s = prune_admission now s"

text \<open>A run, with its notes, the latest first.\<close>

fun admission_run :: "admission_env \<Rightarrow> admission_event list \<Rightarrow> admission_note list \<Rightarrow> admission_state \<Rightarrow> admission_note list \<times> admission_state" where
  "admission_run env [] ns s = (ns, s)"
| "admission_run env (e # es) ns s = admission_run env es (admission_notes env e s @ ns) (admission_apply env e s)"

subsection \<open>What the tables stand for\<close>

text \<open>A challenge on the table was given out, and neither answered nor rotated away since.\<close>

definition given :: "admission_note list \<Rightarrow> string \<Rightarrow> challenge \<Rightarrow> bool" where
  "given ns c v \<longleftrightarrow> (\<exists>mid rest t. ns = mid @ Challenged (ch_pubkey v) (ch_address v) c t # rest \<and> ch_expires v = t + 30000
     \<and> Rotated \<notin> set mid \<and> (\<forall>k x p a u. Issued k x c p a u \<notin> set mid))"

text \<open>A ticket on the table was issued for a live challenge, to a proof that verifies, and has not been withdrawn since.\<close>

definition earned :: "(js \<Rightarrow> bool) \<Rightarrow> int \<Rightarrow> admission_note list \<Rightarrow> string \<Rightarrow> ticket \<Rightarrow> bool" where
  "earned check ttl ns t v \<longleftrightarrow> (\<exists>later c proof a u rest w. ns = later @ Issued (tk_pubkey v) t c proof a u # rest
     \<and> tk_expires v = (u div 1000 + ttl) * 1000 \<and> Rotated \<notin> set later \<and> Revoked (tk_pubkey v) \<notin> set later
     \<and> check proof \<and> member proof ''pubkey'' = JStr (tk_pubkey v)
     \<and> given rest c w \<and> ch_pubkey w = tk_pubkey v \<and> ch_address w = a \<and> u < ch_expires w)"

definition within_capacity :: "admission_limits \<Rightarrow> admission_state \<Rightarrow> bool" where
  "within_capacity lim s \<longleftrightarrow> int (length (ad_challenges s)) \<le> al_capacity lim \<and> int (length (ad_tickets s)) \<le> al_capacity lim
     \<and> int (length (ad_revoked s)) \<le> al_capacity lim \<and> int (length (ad_addresses s)) \<le> al_capacity lim \<and> ad_issued s \<le> al_global_tickets lim"

definition admission_inv :: "admission_env \<Rightarrow> admission_note list \<Rightarrow> admission_state \<Rightarrow> bool" where
  "admission_inv env ns s \<longleftrightarrow> (case env of (check, seal, lim) \<Rightarrow>
     (\<forall>(c, v) \<in> set (ad_challenges s). given ns c v) \<and> (\<forall>(t, v) \<in> set (ad_tickets s). earned check (al_ttl lim) ns t v)
     \<and> within_capacity lim s)"

lemma given_more:
  assumes "given ns c v" and "Rotated \<notin> set new" and "\<forall>k x p a u. Issued k x c p a u \<notin> set new"
  shows "given (new @ ns) c v"
proof -
  obtain mid rest t where "ns = mid @ Challenged (ch_pubkey v) (ch_address v) c t # rest" "ch_expires v = t + 30000"
    "Rotated \<notin> set mid" "\<forall>k x p a u. Issued k x c p a u \<notin> set mid"
    using assms(1) unfolding given_def by blast
  then show ?thesis
    unfolding given_def using assms(2,3) by (intro exI [of _ "new @ mid"] exI [of _ rest] exI [of _ t]) simp
qed

lemma earned_more:
  assumes "earned check ttl ns t v" and "Rotated \<notin> set new" and "Revoked (tk_pubkey v) \<notin> set new"
  shows "earned check ttl (new @ ns) t v"
proof -
  obtain later c pf a u rest w where "ns = later @ Issued (tk_pubkey v) t c pf a u # rest"
    "tk_expires v = (u div 1000 + ttl) * 1000" "Rotated \<notin> set later" "Revoked (tk_pubkey v) \<notin> set later"
    "check pf \<and> member pf ''pubkey'' = JStr (tk_pubkey v) \<and> given rest c w \<and> ch_pubkey w = tk_pubkey v \<and> ch_address w = a \<and> u < ch_expires w"
    using assms(1) unfolding earned_def by blast
  then show ?thesis
    unfolding earned_def using assms(2,3)
    by (intro exI [of _ "new @ later"] exI [of _ c] exI [of _ pf] exI [of _ a] exI [of _ u] exI [of _ rest] exI [of _ w]) simp
qed

text \<open>Steps that only take away leave the rest as it was.\<close>

lemma admission_inv_less:
  assumes "admission_inv (check, seal, lim) ns s" and "set (ad_challenges s') \<subseteq> set (ad_challenges s)" and "set (ad_tickets s') \<subseteq> set (ad_tickets s)"
    and "within_capacity lim s'"
  shows "admission_inv (check, seal, lim) ns s'"
  using assms by (auto simp: admission_inv_def)

lemma prune_fields:
  "ad_challenges (prune_admission now s) = filter (\<lambda>(c, v). now < ch_expires v) (ad_challenges s)"
  "ad_tickets (prune_admission now s) = filter (\<lambda>(t, v). now < tk_expires v) (ad_tickets s)"
  "ad_revoked (prune_admission now s) = filter (\<lambda>(k, until). now < until) (ad_revoked s)"
  by (simp_all add: prune_admission_def prune_window_def)

lemma prune_window_fields:
  "length (ad_addresses (prune_admission now s)) \<le> length (ad_addresses s)" "ad_issued (prune_admission now s) = ad_issued s \<or> ad_issued (prune_admission now s) = 0"
  by (simp_all add: prune_admission_def prune_window_def)

lemma within_prune: "within_capacity lim s \<Longrightarrow> 1 \<le> al_global_tickets lim \<Longrightarrow> within_capacity lim (prune_admission now s)"
  using prune_window_fields [of now s] length_filter_le [of "\<lambda>(c, v). now < ch_expires v" "ad_challenges s"]
    length_filter_le [of "\<lambda>(t, v). now < tk_expires v" "ad_tickets s"] length_filter_le [of "\<lambda>(k, until). now < until" "ad_revoked s"]
  unfolding within_capacity_def prune_fields by linarith

lemma inv_prune: "admission_inv (check, seal, lim) ns s \<Longrightarrow> 1 \<le> al_global_tickets lim \<Longrightarrow> admission_inv (check, seal, lim) ns (prune_admission now s)"
  by (rule admission_inv_less) (auto simp: prune_fields admission_inv_def within_prune)

subsection \<open>Every step\<close>

lemma entry_for_fields:
  "ad_challenges (snd (entry_for a s)) = ad_challenges s" "ad_tickets (snd (entry_for a s)) = ad_tickets s"
  "ad_revoked (snd (entry_for a s)) = ad_revoked s" "ad_issued (snd (entry_for a s)) = ad_issued s"
  "length (ad_addresses (snd (entry_for a s))) = (if jhas (ad_addresses s) a then length (ad_addresses s) else Suc (length (ad_addresses s)))"
  by (auto simp: entry_for_def length_jset jhas_def split: option.split)

lemma inv_budget:
  assumes "admission_inv (check, seal, lim) ns s" and "1 \<le> al_global_tickets lim"
  shows "admission_inv (check, seal, lim) ns (snd (request_budget lim now a s))"
proof -
  have p: "admission_inv (check, seal, lim) ns (prune_admission now s)" by (rule inv_prune [OF assms])
  then have cap: "within_capacity lim (prune_admission now s)" by (simp add: admission_inv_def)
  show ?thesis
    by (rule admission_inv_less [OF p])
      (use cap in \<open>auto simp: request_budget_def Let_def within_capacity_def entry_for_fields case_prod_unfold\<close>)
qed

lemma given_Cons:
  "given ns c v \<Longrightarrow> given (Challenged k a x t # ns) c v" "given ns c v \<Longrightarrow> given (Revoked k # ns) c v"
  "given ns c v \<Longrightarrow> c \<noteq> x \<Longrightarrow> given (Issued k i x p a t # ns) c v"
  using given_more [of ns c v "[Challenged k a x t]"] given_more [of ns c v "[Revoked k]"] given_more [of ns c v "[Issued k i x p a t]"] by auto

lemma earned_Cons:
  "earned check ttl ns i v \<Longrightarrow> earned check ttl (Challenged k a x t # ns) i v"
  "earned check ttl ns i v \<Longrightarrow> tk_pubkey v \<noteq> k \<Longrightarrow> earned check ttl (Revoked k # ns) i v"
  "earned check ttl ns i v \<Longrightarrow> earned check ttl (Issued k j x p a t # ns) i v"
  using earned_more [of check ttl ns i v "[Challenged k a x t]"] earned_more [of check ttl ns i v "[Revoked k]"]
    earned_more [of check ttl ns i v "[Issued k j x p a t]"] by auto

lemma given_new: "given (Challenged (ch_pubkey v) (ch_address v) c t # ns) c v" if "ch_expires v = t + 30000"
  unfolding given_def using that by (intro exI [of _ "[]"] exI [of _ ns] exI [of _ t]) simp

lemma inv_ask_challenge:
  assumes "admission_inv (check, seal, lim) ns s"
  shows "admission_inv (check, seal, lim) (admission_notes (check, seal, lim) (Body now random ChallengePath a i (Inr input)) s @ ns)
    (snd (ask_challenge lim now a random input s))"
proof (cases "fst (ask_challenge lim now a random input s)")
  case (Inl f)
  then have "snd (ask_challenge lim now a random input s) = s" by (auto simp: ask_challenge_def Let_def split: if_splits)
  then show ?thesis using Inl assms by simp
next
  case (Inr r)
  let ?p = "js_string (member input ''pubkey'')" and ?v = "\<lparr>ch_pubkey = js_string (member input ''pubkey''), ch_address = a, ch_expires = now + 30000\<rparr>"
  have eq: "snd (ask_challenge lim now a random input s) = s\<lparr>ad_challenges := jset random ?v (ad_challenges s)\<rparr>"
    and room: "int (length (ad_challenges s)) < al_capacity lim"
    using Inr by (auto simp: ask_challenge_def Let_def split: if_splits)
  have "given (Challenged ?p a random now # ns) c v" if "(c, v) \<in> set (jset random ?v (ad_challenges s))" for c v
    using that subsetD [OF set_jset_subset that] given_new [of ?v now random ns] assms
    by (auto simp: admission_inv_def intro: given_Cons(1))
  moreover have "earned check (al_ttl lim) (Challenged ?p a random now # ns) t v" if "(t, v) \<in> set (ad_tickets s)" for t v
    using that assms by (auto simp: admission_inv_def intro: earned_Cons(1))
  moreover have "within_capacity lim (s\<lparr>ad_challenges := jset random ?v (ad_challenges s)\<rparr>)"
    using assms room length_jset_le [of random ?v "ad_challenges s"] by (simp add: admission_inv_def within_capacity_def)
  ultimately show ?thesis
    using Inr by (auto simp: eq admission_inv_def)
qed

lemma answered_challengeD:
  "answered_challenge lim now a pubkey claim s = Some c \<Longrightarrow> \<exists>v. (c, v) \<in> set (ad_challenges s) \<and> ch_address v = a \<and> ch_pubkey v = pubkey \<and> now < ch_expires v
     \<and> member claim ''challenge'' = JStr c"
  by (auto simp: answered_challenge_def dest!: jget_in split: js.splits option.splits if_splits)

lemma ask_ticket_Inr:
  assumes "fst (ask_ticket check seal lim now a i input s) = Inr r"
  obtains c pubkey v where "member (member input ''proof'') ''pubkey'' = JStr pubkey" "check (member input ''proof'')"
    "(c, v) \<in> set (ad_challenges s)" "ch_address v = a" "ch_pubkey v = pubkey" "now < ch_expires v"
    "claimed_challenge (member input ''proof'') = c" "int (length (ad_tickets s)) < al_capacity lim" "ad_issued s < al_global_tickets lim"
    "ask_ticket check seal lim now a i input s = (let (r, s) = issue_ticket seal lim now i pubkey c s in (Inr r, s))"
proof -
  let ?p = "member input ''proof''"
  obtain claim c where facts: "json_parse (js_string (member ?p ''content'')) = Some claim" "answered_challenge lim now a (js_string (member ?p ''pubkey'')) claim s = Some c"
    "check ?p" "possession_proof now input ?p" "int (length (ad_tickets s)) < al_capacity lim" "ad_issued s < al_global_tickets lim"
    "ask_ticket check seal lim now a i input s = (let (r, s) = issue_ticket seal lim now i (js_string (member ?p ''pubkey'')) c s in (Inr r, s))"
    using assms by (simp add: ask_ticket_def Let_def split: if_splits option.splits)
  moreover obtain pubkey where "member ?p ''pubkey'' = JStr pubkey"
    using facts(4) by (cases "member ?p ''pubkey''") (simp_all add: possession_proof_def key_text_def)
  moreover have "claimed_challenge ?p = c"
    using facts(1) answered_challengeD [OF facts(2)] by (auto simp: claimed_challenge_def)
  ultimately show ?thesis
    using answered_challengeD [OF facts(2)] that by (metis js_string.simps(2))
qed

lemma inv_ask_ticket:
  assumes "admission_inv (check, seal, lim) ns s"
  shows "admission_inv (check, seal, lim) (admission_notes (check, seal, lim) (Body now random TicketPath a i (Inr input)) s @ ns)
    (snd (ask_ticket check seal lim now a i input s))"
proof (cases "fst (ask_ticket check seal lim now a i input s)")
  case (Inl f)
  then have "snd (ask_ticket check seal lim now a i input s) = s"
    by (auto simp: ask_ticket_def Let_def case_prod_unfold split: if_splits option.splits)
  then show ?thesis using Inl assms by simp
next
  case (Inr r)
  obtain c pubkey v where f: "member (member input ''proof'') ''pubkey'' = JStr pubkey" "check (member input ''proof'')"
    "(c, v) \<in> set (ad_challenges s)" "ch_address v = a" "ch_pubkey v = pubkey" "now < ch_expires v"
    "claimed_challenge (member input ''proof'') = c" "int (length (ad_tickets s)) < al_capacity lim" "ad_issued s < al_global_tickets lim"
    "ask_ticket check seal lim now a i input s = (let (r, s) = issue_ticket seal lim now i pubkey c s in (Inr r, s))"
    by (rule ask_ticket_Inr [OF Inr])
  let ?t = "json_text (seal (ticket_draft lim now pubkey (ad_epoch s)))"
  let ?k = "\<lparr>tk_pubkey = pubkey, tk_expires = (now div 1000 + al_ttl lim) * 1000\<rparr>"
  let ?n = "Issued pubkey ?t c (member input ''proof'') a now"
  let ?s = "snd (ask_ticket check seal lim now a i input s)"
  have s': "ad_challenges ?s = jdel c (ad_challenges s)" "ad_tickets ?s = jset ?t ?k (ad_tickets s)" "ad_revoked ?s = ad_revoked s"
      "ad_addresses ?s = ad_addresses s" "ad_issued ?s = ad_issued s + 1"
    by (simp_all add: f(10) issue_ticket_def Let_def)
  have "r = [(''ticket'', JStr ?t), (''expiresAt'', JInt (now div 1000 + al_ttl lim))]"
    using Inr by (simp add: f(10) issue_ticket_def Let_def)
  then have note': "admission_notes (check, seal, lim) (Body now random TicketPath a i (Inr input)) s = [?n]"
    using Inr by (simp add: f(1,7) jget_def)
  have given: "given ns c v" using assms f(3) by (auto simp: admission_inv_def)
  have "given (?n # ns) c' v'" if "(c', v') \<in> set (jdel c (ad_challenges s))" for c' v'
    using that assms by (auto simp: admission_inv_def jdel_def intro: given_Cons(3))
  moreover have "earned check (al_ttl lim) (?n # ns) t' v'" if "(t', v') \<in> set (jset ?t ?k (ad_tickets s))" for t' v'
  proof (cases "(t', v') = (?t, ?k)")
    case True
    then show ?thesis
      unfolding earned_def using f given
      by (intro exI [of _ "[]"] exI [of _ c] exI [of _ "member input ''proof''"] exI [of _ a] exI [of _ now] exI [of _ ns] exI [of _ v]) simp
  next
    case False
    then show ?thesis
      using subsetD [OF set_jset_subset that] assms by (auto simp: admission_inv_def intro: earned_Cons(3))
  qed
  moreover have "within_capacity lim ?s"
  proof -
    have "int (length (jdel c (ad_challenges s))) \<le> int (length (ad_challenges s))" by simp
    moreover have "int (length (ad_challenges s)) \<le> al_capacity lim" using assms by (simp add: admission_inv_def within_capacity_def)
    ultimately have "int (length (jdel c (ad_challenges s))) \<le> al_capacity lim" by (rule order_trans)
    then show ?thesis
      using assms f(8,9) length_jset_le [of ?t ?k "ad_tickets s"] by (simp add: admission_inv_def within_capacity_def s')
  qed
  ultimately show ?thesis
    unfolding note' by (auto simp: admission_inv_def s')
qed

lemma inv_revoke:
  assumes "admission_inv (check, seal, lim) ns s" and "1 \<le> al_global_tickets lim"
  shows "admission_inv (check, seal, lim) (admission_notes (check, seal, lim) (Revoke now pubkey) s @ ns) (snd (admission_revoke lim now pubkey s))"
proof (cases "fst (admission_revoke lim now pubkey s)")
  case (Inl f)
  then have "snd (admission_revoke lim now pubkey s) \<in> {s, prune_admission now s}"
    by (auto simp: admission_revoke_def Let_def split: if_splits)
  then show ?thesis using Inl assms inv_prune by auto
next
  case (Inr r)
  let ?k = "js_string pubkey" and ?p = "prune_admission now s" and ?s = "snd (admission_revoke lim now pubkey s)"
  have p: "admission_inv (check, seal, lim) ns ?p" by (rule inv_prune [OF assms])
  have s': "ad_challenges ?s = ad_challenges ?p" "ad_tickets ?s = filter (\<lambda>(t, v). tk_pubkey v \<noteq> ?k) (ad_tickets ?p)"
      "ad_revoked ?s = jset ?k (now + al_ttl lim * 1000) (ad_revoked ?p)" "ad_addresses ?s = ad_addresses ?p" "ad_issued ?s = ad_issued ?p"
    and room: "jhas (ad_revoked ?p) ?k \<or> int (length (ad_revoked ?p)) < al_capacity lim"
    using Inr by (auto simp: admission_revoke_def Let_def split: if_splits)
  have "given (Revoked ?k # ns) c v" if "(c, v) \<in> set (ad_challenges ?s)" for c v
    using that p by (auto simp: admission_inv_def s' intro: given_Cons(2))
  moreover have "earned check (al_ttl lim) (Revoked ?k # ns) t v" if "(t, v) \<in> set (ad_tickets ?s)" for t v
    using that p by (auto simp: admission_inv_def s' intro: earned_Cons(2))
  moreover have "within_capacity lim ?s"
  proof -
    have "int (length (ad_tickets ?s)) \<le> int (length (ad_tickets ?p))" by (simp add: s'(2))
    moreover have "int (length (ad_revoked ?s)) \<le> al_capacity lim"
      using p room by (auto simp: s'(3) length_jset admission_inv_def within_capacity_def)
    ultimately show ?thesis using p by (simp add: admission_inv_def within_capacity_def s'(1,4,5))
  qed
  ultimately show ?thesis
    using Inr by (auto simp: admission_inv_def)
qed

lemma body_state:
  "snd (admission_body check seal issuer lim now random path a i body s) = (case body of Inl f \<Rightarrow> s | Inr input \<Rightarrow>
     (case path of ChallengePath \<Rightarrow> snd (ask_challenge lim now a random input s) | TicketPath \<Rightarrow> snd (ask_ticket check seal lim now a i input s)
      | VerifyPath \<Rightarrow> snd (ask_verify now input s)))"
  by (auto simp: admission_body_def case_prod_unfold Let_def split: sum.split admission_path.split)

lemma verify_state: "snd (admission_verify now pubkey t s) = prune_admission now s"
  by (simp add: admission_verify_def Let_def)

lemma ask_verify_state: "snd (ask_verify now input s) \<in> {s, prune_admission now s}"
  by (simp add: ask_verify_def verify_state case_prod_unfold)

lemma inv_ask_verify:
  assumes "admission_inv (check, seal, lim) ns s" and "1 \<le> al_global_tickets lim"
  shows "admission_inv (check, seal, lim) ns (snd (ask_verify now input s))"
  using ask_verify_state [of now input s] assms(1) inv_prune [OF assms] by auto

lemma inv_admission_apply:
  assumes "admission_inv (check, seal, lim) ns s" and "1 \<le> al_global_tickets lim" and "0 \<le> al_capacity lim"
  shows "admission_inv (check, seal, lim) (admission_notes (check, seal, lim) e s @ ns) (admission_apply (check, seal, lim) e s)"
proof (cases e)
  case (Begin now origin site base a)
  then show ?thesis using assms inv_budget by (auto simp: admission_begin_def)
next
  case (Body now random path a i body)
  then show ?thesis
    using assms inv_ask_challenge [OF assms(1)] inv_ask_ticket [OF assms(1)] inv_ask_verify [OF assms(1,2)]
    by (cases body; cases path) (simp_all add: body_state del: admission_notes.simps(1,2))
next
  case (Revoke now pubkey)
  then show ?thesis using inv_revoke [OF assms(1,2)] by simp
next
  case (Rotate epoch)
  then show ?thesis using assms by (auto simp: admission_inv_def within_capacity_def admission_rotate_def)
qed (use assms inv_prune in \<open>auto simp: verify_state\<close>)

lemma inv_admission_run:
  assumes "admission_inv (check, seal, lim) ns s" and "1 \<le> al_global_tickets lim" and "0 \<le> al_capacity lim"
    and "admission_run (check, seal, lim) es ns s = (ns', s')"
  shows "admission_inv (check, seal, lim) ns' s'"
  using assms by (induction es arbitrary: ns s) (auto intro: inv_admission_apply)

text \<open>
  C36: admission is earned. After any requests, revocations and rotations, every table is within its
  capacity; and when a ticket is accepted for a key, it was issued to a proof of that key whose signature
  verifies, which answered a challenge given to the same key and address less than 30 seconds before and used
  for nothing else; the ticket is younger than its time to live, and neither a revocation of the key nor a
  rotation came after it.
\<close>

theorem admission_earned:
  assumes "new_admission lim epoch t0 = Some s0" and "admission_run (check, seal, lim) es [] s0 = (history, s)"
    and "fst (admission_verify now pubkey t s)"
  shows "within_capacity lim s \<and> (\<exists>later c pf a u mid w rest.
      history = later @ Issued (js_string pubkey) (js_string t) c pf a u # mid @ Challenged (js_string pubkey) a c w # rest
      \<and> now < (u div 1000 + al_ttl lim) * 1000 \<and> u < w + 30000 \<and> Rotated \<notin> set (later @ mid) \<and> Revoked (js_string pubkey) \<notin> set later
      \<and> (\<forall>k x p b z. Issued k x c p b z \<notin> set mid) \<and> check pf \<and> member pf ''pubkey'' = JStr (js_string pubkey))"
proof -
  have lim: "1 \<le> al_global_tickets lim" "0 \<le> al_capacity lim"
    and start: "admission_inv (check, seal, lim) [] s0"
    using assms(1) by (auto simp: new_admission_def valid_admission_limits_def within_def admission_inv_def within_capacity_def split: if_splits)
  have inv: "admission_inv (check, seal, lim) history s" by (rule inv_admission_run [OF start lim assms(2)])
  obtain v where v: "jget (ad_tickets (prune_admission now s)) (js_string t) = Some v" "tk_pubkey v = js_string pubkey" "now < tk_expires v"
    using assms(3) by (auto simp: admission_verify_def Let_def split: option.splits)
  then have "(js_string t, v) \<in> set (ad_tickets s)" by (auto simp: prune_fields dest!: jget_in)
  then have "earned check (al_ttl lim) history (js_string t) v" using inv by (auto simp: admission_inv_def)
  then obtain later c pf a u before w where i: "history = later @ Issued (tk_pubkey v) (js_string t) c pf a u # before"
      "tk_expires v = (u div 1000 + al_ttl lim) * 1000" "Rotated \<notin> set later" "Revoked (tk_pubkey v) \<notin> set later"
      "check pf" "member pf ''pubkey'' = JStr (tk_pubkey v)" "given before c w" "ch_pubkey w = tk_pubkey v" "ch_address w = a" "u < ch_expires w"
    unfolding earned_def by blast
  obtain mid rest t1 where g: "before = mid @ Challenged (ch_pubkey w) (ch_address w) c t1 # rest" "ch_expires w = t1 + 30000"
      "Rotated \<notin> set mid" "\<forall>k x p b z. Issued k x c p b z \<notin> set mid"
    using i(7) unfolding given_def by blast
  have "within_capacity lim s" using inv by (simp add: admission_inv_def)
  then show ?thesis
    using i g v(2,3) by (intro conjI exI [of _ later] exI [of _ c] exI [of _ pf] exI [of _ a] exI [of _ u] exI [of _ mid] exI [of _ t1] exI [of _ rest]) auto
qed

definition ex_limits :: admission_limits where
  "ex_limits = \<lparr>al_swarm = ''swarm'', al_ttl = 120, al_capacity = 512, al_address_tickets = 12, al_global_tickets = 120, al_requests = 2048,
     al_address_requests = 600\<rparr>"

definition ex_page_key :: string where "ex_page_key = replicate 64 CHR ''a''"

definition ex_claim :: js where
  "ex_claim = JObj [(''challenge'', JStr ''c''), (''swarmId'', JStr ''swarm''), (''epoch'', JStr ''e'')]"

definition ex_proof :: js where
  "ex_proof = JObj [(''pubkey'', JStr ex_page_key), (''kind'', JInt 27235), (''content'', JStr (json_text ex_claim)), (''tags'', JArr []),
     (''created_at'', JInt 100)]"

definition ex_visit :: "admission_event list" where
  "ex_visit = [Begin 100000 (Some ''o'') None ''o'' ''a'', Body 100000 ''c'' ChallengePath ''a'' 0 (Inr (JObj [(''pubkey'', JStr ex_page_key)])),
     Body 110000 [] TicketPath ''a'' 0 (Inr (JObj [(''proof'', ex_proof)]))]"

definition ex_seal :: "js \<Rightarrow> js" where "ex_seal d = JInt 7"

lemma ex_claim_read: "json_parse (json_text ex_claim) = Some ex_claim"
  by (rule json_roundtrip) (simp add: ex_claim_def jwf_def)

lemma ex_claim_short: "byte_length (JStr (json_text ex_claim)) \<le> 512"
  by (simp add: byte_length_def utf8_length_def ex_claim_def string_text_def escape_char_def control_char_def)

definition ex_empty :: admission_state where
  "ex_empty = \<lparr>ad_challenges = [], ad_tickets = [], ad_addresses = [], ad_entries = [], ad_revoked = [], ad_epoch = ''e'',
     ad_window = 100000, ad_requests = 0, ad_issued = 0\<rparr>"

lemma ex_new_admission: "new_admission ex_limits ''e'' 100000 = Some ex_empty"
  by (simp add: new_admission_def valid_admission_limits_def within_def ex_limits_def ex_empty_def safe_int_def max_safe_def)

lemma ex_key_ok: "key_text (JStr ex_page_key)"
  by (simp add: key_text_def hex64_test_def hex_string_def ex_page_key_def lower_hex_char_def list_all_iff)

lemma ex_ticket: "fst (admission_verify 120000 (JStr ex_page_key) (JStr ''7'') (snd (admission_run (\<lambda>e. True, ex_seal, ex_limits) ex_visit [] ex_empty)))"
proof -
  have proof_ok: "possession_proof 110000 (JObj [(''proof'', ex_proof)]) ex_proof"
    using ex_key_ok ex_claim_short
    by (simp add: possession_proof_def ex_proof_def only_keys_def jget_def safe_int_def max_safe_def)
  have proof_fields: "member ex_proof ''content'' = JStr (json_text ex_claim)" "member ex_proof ''pubkey'' = JStr ex_page_key"
    by (simp_all add: ex_proof_def jget_def)
  have claim_fields: "member ex_claim ''challenge'' = JStr ''c''" "member ex_claim ''swarmId'' = JStr ''swarm''" "member ex_claim ''epoch'' = JStr ''e''" "ex_claim \<noteq> JNull"
    by (simp_all add: ex_claim_def jget_def)
  have seven: "int_text 7 = ''7''" "byte_length (JStr ''7'') \<le> 2048" by (code_simp, simp add: byte_length_def utf8_length_def)
  show ?thesis
    using ex_key_ok ex_claim_read proof_ok
    by (simp add: proof_fields claim_fields seven answered_challenge_def issue_ticket_def admission_verify_def ex_visit_def admission_begin_def same_origin_def request_budget_def prune_admission_def prune_window_def Let_def ex_empty_def ex_limits_def entry_for_def
        entry_at_def body_state ask_challenge_def only_keys_def jget_def jhas_def challenges_of_def ask_ticket_def ex_seal_def)
qed

theorem admission_earned_witness:
  "fst (admission_verify 120000 (JStr ex_page_key) (JStr ''7'') (snd (admission_run (\<lambda>e. True, ex_seal, ex_limits) ex_visit [] ex_empty)))
   \<and> within_capacity ex_limits (snd (admission_run (\<lambda>e. True, ex_seal, ex_limits) ex_visit [] ex_empty))"
proof -
  obtain history s where run: "admission_run (\<lambda>e. True, ex_seal, ex_limits) ex_visit [] ex_empty = (history, s)" by fastforce
  show ?thesis
    using admission_earned [OF ex_new_admission run, of 120000 "JStr ex_page_key" "JStr ''7''"] ex_ticket by (simp add: run)
qed

end
