(* ===== verification/Demo_Relay.thy ===== *)
theory Demo_Relay
  imports Relay_Session
begin

text \<open>
  The bounded rendezvous relay of a field trial, \<open>demo/relay.mjs\<close>.

  Clients are numbers.  The socket library reports connections, messages and closings as operations, and says
  which sockets are congested; frames sent are appended to \<open>rl_out\<close>.  \<open>check\<close> is \<open>verifyEvent\<close>, \<open>admit\<close> the
  host's admission test, and \<open>now\<close> the clock in milliseconds, one instant per operation.
\<close>

datatype relay_frame = EventFrame string js | EoseFrame string | OkFrame js string

record relay_client =
  rc_open :: bool
  rc_subs :: "(string \<times> js) list"
  rc_received :: int
  rc_window :: int

record relay =
  rl_history :: "(string \<times> js) list"
  rl_admitted :: "(js \<times> js) list"
  rl_paused :: bool
  rl_received :: int
  rl_window :: int
  rl_clients :: "(nat \<times> relay_client) list"
  rl_out :: "(nat \<times> relay_frame) list"

record relay_options =
  ro_swarm :: string
  ro_origin :: string
  ro_max_clients :: nat
  ro_publisher :: "js option"
  ro_max_messages :: int

definition new_relay :: "int \<Rightarrow> relay" where
  "new_relay now = \<lparr>rl_history = [], rl_admitted = [], rl_paused = False, rl_received = 0, rl_window = now, rl_clients = [], rl_out = []\<rparr>"

subsection \<open>Frames\<close>

text \<open>The text of a frame; the event frame is put together from texts.\<close>

definition frame_text :: "relay_frame \<Rightarrow> string" where
  "frame_text f = (case f of
     EventFrame i e \<Rightarrow> ''['' @ json_text (JStr ''EVENT'') @ '','' @ json_text (JStr i) @ '','' @ json_text e @ '']''
   | EoseFrame i \<Rightarrow> json_text (JArr [JStr ''EOSE'', JStr i])
   | OkFrame i text \<Rightarrow> json_text (JArr [JStr ''OK'', i, JBool True, JStr text]))"

lemma event_frame_text: "frame_text (EventFrame i e) = json_text (JArr [JStr ''EVENT'', JStr i, e])"
  by (simp add: frame_text_def)

definition relay_send :: "(nat \<Rightarrow> bool) \<Rightarrow> nat \<Rightarrow> relay_frame \<Rightarrow> relay \<Rightarrow> relay" where
  "relay_send congested c f s =
     (case jget (rl_clients s) c of
        None \<Rightarrow> s
      | Some cl \<Rightarrow>
          if \<not> rc_open cl then s
          else if congested c then s\<lparr>rl_clients := jset c (cl\<lparr>rc_open := False\<rparr>) (rl_clients s)\<rparr>
          else s\<lparr>rl_out := rl_out s @ [(c, f)]\<rparr>)"

subsection \<open>Filters\<close>

definition starts_with :: "string \<Rightarrow> js \<Rightarrow> bool" where
  "starts_with s p \<longleftrightarrow> take (length (js_string p)) s = js_string p"

text \<open>One \<open>#\<close> entry of a filter.\<close>

definition tag_entry_matches :: "js \<Rightarrow> string \<times> js \<Rightarrow> bool" where
  "tag_entry_matches event e \<longleftrightarrow> (case e of (k, values) \<Rightarrow>
     take 1 k \<noteq> ''#'' \<or> (is_array values
       \<and> list_ex (\<lambda>t. at_index (elems t) 0 = JStr (drop 1 k) \<and> list_ex (\<lambda>v. strict_eq v (at_index (elems t) 1)) (elems values))
           (elems (member event ''tags''))))"

fun object_entries :: "js \<Rightarrow> (string \<times> js) list" where
  "object_entries (JObj m) = m"
| "object_entries _ = []"

definition relay_matches :: "js \<Rightarrow> js \<Rightarrow> bool" where
  "relay_matches event f \<longleftrightarrow>
     (\<not> truthy (member f ''kinds'') \<or> list_ex (\<lambda>k. strict_eq k (member event ''kind'')) (elems (member f ''kinds'')))
     \<and> (\<not> truthy (member f ''authors'') \<or> list_ex (starts_with (js_string (member event ''pubkey''))) (elems (member f ''authors'')))
     \<and> (\<not> truthy (member f ''ids'') \<or> list_ex (starts_with (js_string (member event ''id''))) (elems (member f ''ids'')))
     \<and> (member f ''since'' = JUndefined \<or> int_of (member f ''since'') \<le> int_of (member event ''created_at''))
     \<and> (member f ''until'' = JUndefined \<or> int_of (member event ''created_at'') \<le> int_of (member f ''until''))
     \<and> list_all (tag_entry_matches event) (object_entries f)"

definition array_of :: "nat \<Rightarrow> (js \<Rightarrow> bool) \<Rightarrow> js \<Rightarrow> bool" where
  "array_of n p v \<longleftrightarrow> is_array v \<and> elems v \<noteq> [] \<and> length (elems v) \<le> n \<and> list_all p (elems v)"

definition hex_prefix :: "js \<Rightarrow> bool" where
  "hex_prefix v \<longleftrightarrow> is_string v \<and> js_string v \<noteq> [] \<and> length (js_string v) \<le> 64 \<and> list_all lower_hex_char (js_string v)"

definition letter :: "char \<Rightarrow> bool" where
  "letter c \<longleftrightarrow> (CHR ''a'' \<le> c \<and> c \<le> CHR ''z'') \<or> (CHR ''A'' \<le> c \<and> c \<le> CHR ''Z'')"

definition valid_filter_entry :: "string \<times> js \<Rightarrow> bool" where
  "valid_filter_entry e \<longleftrightarrow> (case e of (k, v) \<Rightarrow>
     if k \<in> {''since'', ''until'', ''limit''} then safe_integer v \<and> 0 \<le> int_of v \<and> (k = ''limit'' \<longrightarrow> 1 \<le> int_of v \<and> int_of v \<le> 512)
     else if k = ''kinds'' then array_of 8 (\<lambda>n. safe_integer n \<and> 0 \<le> int_of n \<and> int_of n \<le> 65535) v
     else if k \<in> {''authors'', ''ids''} then array_of 32 hex_prefix v
     else (case k of [a, b] \<Rightarrow> a = CHR ''#'' \<and> letter b | _ \<Rightarrow> False)
       \<and> array_of 8 (\<lambda>t. is_string t \<and> js_string t \<noteq> [] \<and> length (js_string t) \<le> 256) v)"

definition valid_filter :: "js \<Rightarrow> bool" where
  "valid_filter f \<longleftrightarrow> (case f of JObj m \<Rightarrow> length m \<le> 8 \<and> list_all valid_filter_entry m | _ \<Rightarrow> False)"

text \<open>The two kinds of subscription that the relay grants.\<close>

definition discovery_filter :: "js option \<Rightarrow> js \<Rightarrow> bool" where
  "discovery_filter publisher f \<longleftrightarrow> (case publisher of None \<Rightarrow> False
     | Some e \<Rightarrow> member f ''kinds'' = JArr [JInt 30311] \<and> member f ''authors'' = JArr [member e ''pubkey''])"

definition swarm_filter :: "string \<Rightarrow> js \<Rightarrow> bool" where
  "swarm_filter swarm f \<longleftrightarrow> member f ''#x'' = JArr [JStr swarm]
     \<and> (\<not> truthy (member f ''kinds'') \<or> (is_array (member f ''kinds'') \<and> list_all (\<lambda>k. k = JInt 24170 \<or> k = JInt 24171) (elems (member f ''kinds''))))"

subsection \<open>The history\<close>

definition find_tag :: "js \<Rightarrow> string \<Rightarrow> js" where
  "find_tag event name = (case filter (\<lambda>t. at_index (elems t) 0 = JStr name) (elems (member event ''tags'')) of
     [] \<Rightarrow> JUndefined | t # ts \<Rightarrow> at_index (elems t) 1)"

definition pinned :: "js \<Rightarrow> bool" where
  "pinned event \<longleftrightarrow> member event ''kind'' = JInt 30311"

definition history_key :: "js \<Rightarrow> string" where
  "history_key event =
     (if pinned event then ''30311:'' @ js_string (member event ''pubkey'') @ '':'' @ js_string (find_tag event ''d'')
      else js_string (member event ''id''))"

definition outdated :: "js \<Rightarrow> js \<Rightarrow> bool" where
  "outdated previous event \<longleftrightarrow>
     (let s = int_of (member previous ''created_at''); t = int_of (member event ''created_at'') in
      t < s \<or> (s = t \<and> js_string (member previous ''id'') \<le> js_string (member event ''id'')))"

text \<open>The first entry that is not pinned goes.\<close>

fun drop_unpinned :: "(string \<times> js) list \<Rightarrow> (string \<times> js) list" where
  "drop_unpinned [] = []"
| "drop_unpinned (e # h) = (if pinned (snd e) then e # drop_unpinned h else h)"

definition store_event :: "js \<Rightarrow> (string \<times> js) list \<Rightarrow> (string \<times> js) list" where
  "store_event event h = (let h = jset (history_key event) event h in if length h > 512 then drop_unpinned h else h)"

definition forward :: "(nat \<Rightarrow> bool) \<Rightarrow> js \<Rightarrow> relay \<Rightarrow> relay" where
  "forward congested event s =
     fold (\<lambda>(c, cl). fold (\<lambda>(i, f) s. if relay_matches event f then relay_send congested c (EventFrame i event) s else s) (rc_subs cl))
       (rl_clients s) s"

definition remember :: "(nat \<Rightarrow> bool) \<Rightarrow> js \<Rightarrow> relay \<Rightarrow> relay" where
  "remember congested event s =
     (if (case jget (rl_history s) (history_key event) of None \<Rightarrow> False | Some previous \<Rightarrow> outdated previous event) then s
      else forward congested event (s\<lparr>rl_history := store_event event (rl_history s)\<rparr>))"

subsection \<open>Connections and messages\<close>

definition relay_connect :: "relay_options \<Rightarrow> int \<Rightarrow> string \<Rightarrow> string option \<Rightarrow> nat \<Rightarrow> relay \<Rightarrow> relay" where
  "relay_connect opt now path origin c s =
     (if path \<noteq> ''/relay'' \<or> origin \<noteq> Some (ro_origin opt) \<or> rl_paused s \<or> length (rl_clients s) \<ge> ro_max_clients opt then s
      else s\<lparr>rl_clients := jset c \<lparr>rc_open = True, rc_subs = [], rc_received = 0, rc_window = now\<rparr> (rl_clients s)\<rparr>)"

definition relay_closed :: "nat \<Rightarrow> relay \<Rightarrow> relay" where
  "relay_closed c s = s\<lparr>rl_clients := jdel c (rl_clients s)\<rparr>"

definition put_client :: "nat \<Rightarrow> relay_client \<Rightarrow> relay \<Rightarrow> relay" where
  "put_client c cl s = s\<lparr>rl_clients := jset c cl (rl_clients s)\<rparr>"

text \<open>The two message budgets; \<open>False\<close> where the socket is closed for it.\<close>

definition count_relay :: "relay_options \<Rightarrow> int \<Rightarrow> relay \<Rightarrow> bool \<times> relay" where
  "count_relay opt now s =
     (let s = (if now - rl_window s \<ge> 10000 then s\<lparr>rl_received := 0, rl_window := now\<rparr> else s); s = s\<lparr>rl_received := rl_received s + 1\<rparr>
      in (rl_received s \<le> ro_max_messages opt, s))"

definition count_client :: "int \<Rightarrow> relay_client \<Rightarrow> bool \<times> relay_client" where
  "count_client now cl =
     (let cl = (if now - rc_window cl \<ge> 10000 then cl\<lparr>rc_received := 0, rc_window := now\<rparr> else cl); cl = cl\<lparr>rc_received := rc_received cl + 1\<rparr>
      in (rc_received cl \<le> 80, cl))"

text \<open>Replaying the history to a new subscription; what is older than two minutes is dropped.\<close>

definition expired_event :: "int \<Rightarrow> js \<Rightarrow> bool" where
  "expired_event now e \<longleftrightarrow> \<not> pinned e \<and> int_of (member e ''created_at'') * 1000 < now - 120000"

definition replay :: "(nat \<Rightarrow> bool) \<Rightarrow> int \<Rightarrow> nat \<Rightarrow> string \<Rightarrow> js \<Rightarrow> relay \<Rightarrow> relay" where
  "replay congested now c i f s =
     fold (\<lambda>(k, e) s. if expired_event now e then s\<lparr>rl_history := jdel k (rl_history s)\<rparr>
             else if relay_matches e f then relay_send congested c (EventFrame i e) s else s) (rl_history s) s"

definition on_req :: "relay_options \<Rightarrow> (nat \<Rightarrow> bool) \<Rightarrow> int \<Rightarrow> nat \<Rightarrow> relay_client \<Rightarrow> js list \<Rightarrow> relay \<Rightarrow> relay" where
  "on_req opt congested now c cl frame s =
     (let i = at_index frame 1; f = at_index frame 2 in
      if \<not> valid_filter f \<or> \<not> is_string i \<or> length (js_string i) > 64 \<or> length (rc_subs cl) \<ge> 8
         \<or> (\<not> discovery_filter (ro_publisher opt) f \<and> \<not> swarm_filter (ro_swarm opt) f) then s
      else relay_send congested c (EoseFrame (js_string i))
        (replay congested now c (js_string i) f (put_client c (cl\<lparr>rc_subs := jset (js_string i) f (rc_subs cl)\<rparr>) s)))"

fun tag_says :: "js list \<Rightarrow> string \<Rightarrow> bool" where
  "tag_says [] swarm = False"
| "tag_says (t # ts) swarm =
     (t \<notin> {JNull, JUndefined} \<and> ((at_index (elems t) 0 = JStr ''x'' \<and> at_index (elems t) 1 = JStr swarm) \<or> tag_says ts swarm))"

definition fresh_swarm_event :: "string \<Rightarrow> int \<Rightarrow> js \<Rightarrow> bool" where
  "fresh_swarm_event swarm now e \<longleftrightarrow> truthy e \<and> member e ''kind'' \<in> {JInt 24170, JInt 24171} \<and> safe_integer (member e ''created_at'')
     \<and> now div 1000 - 120 \<le> int_of (member e ''created_at'') \<and> int_of (member e ''created_at'') \<le> now div 1000 + 30
     \<and> tag_says (elems (member e ''tags'')) swarm"

text \<open>Admission of an event: the ticket that its presence brings, or \<open>None\<close> where it is refused.\<close>

definition admit_event :: "(js \<Rightarrow> js \<Rightarrow> bool) option \<Rightarrow> js \<Rightarrow> (js \<times> js) list \<Rightarrow> js option \<times> (js \<times> js) list" where
  "admit_event admit e admitted =
     (let pubkey = member e ''pubkey'' in
      (case admit of
         None \<Rightarrow> (Some JUndefined, admitted)
       | Some ok \<Rightarrow>
           if member e ''kind'' = JInt 24170 then
             (case json_parse (js_string (member e ''content'')) of
                None \<Rightarrow> (None, admitted)
              | Some payload \<Rightarrow>
                  if payload = JNull \<or> \<not> ok pubkey (member payload ''ticket'') then (None, admitted)
                  else (let kept = (if \<not> jhas admitted pubkey \<and> length admitted \<ge> 512 then filter (\<lambda>(k, t). ok k t) admitted else admitted) in
                    if \<not> jhas admitted pubkey \<and> length admitted \<ge> 512 \<and> length kept \<ge> 512 then (None, kept)
                    else (Some (member payload ''ticket''), kept)))
           else (if ok pubkey (case jget admitted pubkey of None \<Rightarrow> JUndefined | Some t \<Rightarrow> t) then Some JUndefined else None, admitted)))"

definition on_relay_event :: "relay_options \<Rightarrow> (js \<Rightarrow> bool) \<Rightarrow> (js \<Rightarrow> js \<Rightarrow> bool) option \<Rightarrow> (nat \<Rightarrow> bool) \<Rightarrow> int \<Rightarrow> nat \<Rightarrow> js \<Rightarrow> relay \<Rightarrow> relay" where
  "on_relay_event opt check admit congested now c e s =
     (if \<not> fresh_swarm_event (ro_swarm opt) now e then s
      else (case admit_event admit e (rl_admitted s) of
          (None, admitted) \<Rightarrow> s\<lparr>rl_admitted := admitted\<rparr>
        | (Some t, admitted) \<Rightarrow>
            if \<not> check e then s\<lparr>rl_admitted := admitted\<rparr>
            else (let s = s\<lparr>rl_admitted := (if t = JUndefined then admitted else jset (member e ''pubkey'') t admitted)\<rparr> in
              if jhas (rl_history s) (js_string (member e ''id'')) then relay_send congested c (OkFrame (member e ''id'') ''duplicate'') s
              else relay_send congested c (OkFrame (member e ''id'') []) (remember congested e s))))"

definition handle_frame :: "relay_options \<Rightarrow> (js \<Rightarrow> bool) \<Rightarrow> (js \<Rightarrow> js \<Rightarrow> bool) option \<Rightarrow> (nat \<Rightarrow> bool) \<Rightarrow> int \<Rightarrow> nat \<Rightarrow> relay_client \<Rightarrow> js list
    \<Rightarrow> relay \<Rightarrow> relay" where
  "handle_frame opt check admit congested now c cl frame s =
     (if at_index frame 0 = JStr ''CLOSE'' then
        (case at_index frame 1 of JStr i \<Rightarrow> put_client c (cl\<lparr>rc_subs := jdel i (rc_subs cl)\<rparr>) s | _ \<Rightarrow> s)
      else if at_index frame 0 = JStr ''REQ'' then on_req opt congested now c cl frame s
      else if at_index frame 0 = JStr ''EVENT'' then on_relay_event opt check admit congested now c (at_index frame 1) s
      else s)"

definition relay_message :: "relay_options \<Rightarrow> (js \<Rightarrow> bool) \<Rightarrow> (js \<Rightarrow> js \<Rightarrow> bool) option \<Rightarrow> (nat \<Rightarrow> bool) \<Rightarrow> int \<Rightarrow> nat \<Rightarrow> string \<Rightarrow> relay \<Rightarrow> relay" where
  "relay_message opt check admit congested now c text s =
     (case jget (rl_clients s) c of
        None \<Rightarrow> s
      | Some cl \<Rightarrow>
          (let (within, s) = count_relay opt now s in
           if \<not> within then put_client c (cl\<lparr>rc_open := False\<rparr>) s
           else (let (within, cl) = count_client now cl in
             if \<not> within then put_client c (cl\<lparr>rc_open := False\<rparr>) s
             else (let s = put_client c cl s in
               (case json_parse text of
                  Some (JArr frame) \<Rightarrow> handle_frame opt check admit congested now c cl frame s
                | _ \<Rightarrow> s)))))"

subsection \<open>The host's operations\<close>

definition pause_relay :: "relay \<Rightarrow> relay" where
  "pause_relay s = s\<lparr>rl_paused := True, rl_clients := map (\<lambda>(c, cl). (c, cl\<lparr>rc_open := False\<rparr>)) (rl_clients s)\<rparr>"

definition resume_relay :: "relay \<Rightarrow> relay" where
  "resume_relay s = s\<lparr>rl_paused := False\<rparr>"

definition publishable :: "js option \<Rightarrow> (js \<Rightarrow> bool) \<Rightarrow> js \<Rightarrow> bool" where
  "publishable publisher check e \<longleftrightarrow> (case publisher of None \<Rightarrow> False
     | Some p \<Rightarrow> pinned e \<and> member e ''pubkey'' = member p ''pubkey'' \<and> length (json_text e) \<le> 16384 \<and> check e
        \<and> (member e ''id'' = member p ''id''
          \<or> (find_tag e ''d'' = JStr (''live-'' @ js_string (member p ''id''))
             \<and> list_ex (\<lambda>t. at_index (elems t) 0 = JStr ''relayswarm-authorisation'' \<and> at_index (elems t) 1 = member p ''id'') (elems (member e ''tags'')))))"

definition publish_stream_event :: "relay_options \<Rightarrow> (js \<Rightarrow> bool) \<Rightarrow> (nat \<Rightarrow> bool) \<Rightarrow> js \<Rightarrow> relay \<Rightarrow> relay option" where
  "publish_stream_event opt check congested e s =
     (if \<not> publishable (ro_publisher opt) check e then None else Some (remember congested e s))"

end
