(* ===== verification/Demo_Relay_Claims.thy ===== *)
theory Demo_Relay_Claims
  imports Demo_Relay
begin

text \<open>
  The relay stays within its bounds and serves only what it may: its history, tables and subscriptions are
  bounded, and every event that it sends is verified, belongs to the swarm or is the publisher's, and answers
  a subscription that the relay grants.
\<close>

datatype relay_event =
    Connect int string "string option" nat
  | Closed nat
  | Message int nat string
  | Pause
  | Resume
  | Publish js

definition relay_apply :: "relay_options \<Rightarrow> (js \<Rightarrow> bool) \<Rightarrow> (js \<Rightarrow> js \<Rightarrow> bool) option \<Rightarrow> relay_event \<Rightarrow> (nat \<Rightarrow> bool) \<Rightarrow> relay \<Rightarrow> relay" where
  "relay_apply opt check admit e congested s = (case e of
     Connect now path origin c \<Rightarrow> relay_connect opt now path origin c s
   | Closed c \<Rightarrow> relay_closed c s
   | Message now c text \<Rightarrow> relay_message opt check admit congested now c text s
   | Pause \<Rightarrow> pause_relay s
   | Resume \<Rightarrow> resume_relay s
   | Publish v \<Rightarrow> (case publish_stream_event opt check congested v s of None \<Rightarrow> s | Some s' \<Rightarrow> s'))"

text \<open>What event ids are: they commit to the tags.\<close>

definition ids_commit :: "(js \<Rightarrow> bool) \<Rightarrow> bool" where
  "ids_commit check \<longleftrightarrow> (\<forall>e e'. check e \<and> check e' \<and> member e ''id'' = member e' ''id'' \<longrightarrow> member e ''tags'' = member e' ''tags'')"

definition relayed_ok :: "relay_options \<Rightarrow> (js \<Rightarrow> bool) \<Rightarrow> js \<Rightarrow> bool" where
  "relayed_ok opt check e \<longleftrightarrow> check e \<and>
     ((member e ''kind'' \<in> {JInt 24170, JInt 24171} \<and> tag_says (elems (member e ''tags'')) (ro_swarm opt))
      \<or> publishable (ro_publisher opt) check e)"

definition granted :: "relay_options \<Rightarrow> js \<Rightarrow> bool" where
  "granted opt f \<longleftrightarrow> valid_filter f \<and> (discovery_filter (ro_publisher opt) f \<or> swarm_filter (ro_swarm opt) f)"

subsection \<open>The history\<close>

definition pinned_keys :: "relay_options \<Rightarrow> string set" where
  "pinned_keys opt = (case ro_publisher opt of None \<Rightarrow> {}
     | Some p \<Rightarrow> {''30311:'' @ js_string (member p ''pubkey'') @ '':'' @ js_string (find_tag p ''d''),
                  ''30311:'' @ js_string (member p ''pubkey'') @ '':live-'' @ js_string (member p ''id'')})"

definition history_ok :: "relay_options \<Rightarrow> (js \<Rightarrow> bool) \<Rightarrow> (string \<times> js) list \<Rightarrow> bool" where
  "history_ok opt check h \<longleftrightarrow> jwf h \<and> (\<forall>(k, e) \<in> set h. relayed_ok opt check e \<and> (pinned e \<longrightarrow> k \<in> pinned_keys opt))"

definition publisher_ok :: "relay_options \<Rightarrow> (js \<Rightarrow> bool) \<Rightarrow> bool" where
  "publisher_ok opt check \<longleftrightarrow> ids_commit check \<and> (\<forall>p. ro_publisher opt = Some p \<longrightarrow> check p)"

lemma stream_key:
  assumes "publisher_ok opt check" and "relayed_ok opt check e" and "pinned e"
  shows "history_key e \<in> pinned_keys opt"
proof -
  have pub: "publishable (ro_publisher opt) check e" using assms(2,3) by (auto simp: relayed_ok_def pinned_def)
  then obtain p where p: "ro_publisher opt = Some p" "member e ''pubkey'' = member p ''pubkey''" "check e"
    "member e ''id'' = member p ''id'' \<or> find_tag e ''d'' = JStr (''live-'' @ js_string (member p ''id''))"
    by (auto simp: publishable_def split: option.splits)
  have "find_tag e ''d'' = find_tag p ''d''" if "member e ''id'' = member p ''id''"
  proof -
    have "ids_commit check" and "check p" using assms(1) p(1) by (simp_all add: publisher_ok_def)
    then have "member e ''tags'' = member p ''tags''" using that p(3) unfolding ids_commit_def by blast
    then show ?thesis by (simp add: find_tag_def)
  qed
  then show ?thesis
    using p assms(3) by (auto simp: history_key_def pinned_keys_def)
qed

lemma drop_unpinned_subset: "set (drop_unpinned h) \<subseteq> set h"
  by (induction h) auto

lemma drop_unpinned_jwf: "jwf h \<Longrightarrow> jwf (drop_unpinned h)"
proof (induction h)
  case (Cons e h)
  moreover have "fst ` set (drop_unpinned h) \<subseteq> fst ` set h" using drop_unpinned_subset by (rule image_mono)
  ultimately show ?case by (auto simp: jwf_def)
qed simp

lemma length_drop_unpinned: "\<exists>e \<in> set h. \<not> pinned (snd e) \<Longrightarrow> Suc (length (drop_unpinned h)) = length h"
  by (induction h) auto

lemma few_pinned:
  assumes "history_ok opt check h"
  shows "length (filter (\<lambda>e. pinned (snd e)) h) \<le> 2"
proof -
  let ?p = "filter (\<lambda>e. pinned (snd e)) h"
  have two: "finite (pinned_keys opt) \<and> card (pinned_keys opt) \<le> 2"
    by (cases "ro_publisher opt") (simp_all add: pinned_keys_def card_insert_if)
  have "set (jkeys ?p) \<subseteq> pinned_keys opt"
    using assms by (auto simp: history_ok_def)
  then have "card (set (jkeys ?p)) \<le> 2"
    using two card_mono order_trans by blast
  moreover have "distinct (jkeys ?p)" using assms jwf_filter by (auto simp: history_ok_def jwf_def)
  ultimately show ?thesis by (metis distinct_card length_map)
qed

lemma store_event_ok:
  assumes "history_ok opt check h" and "length h \<le> 512" and "relayed_ok opt check e" and "publisher_ok opt check"
  shows "history_ok opt check (store_event e h) \<and> length (store_event e h) \<le> 512"
proof -
  let ?h = "jset (history_key e) e h"
  have ok: "history_ok opt check ?h"
    using assms(1,3) stream_key [OF assms(4,3)] subsetD [OF set_jset_subset] unfolding history_ok_def by fastforce
  have "length ?h \<le> 513" using assms(2) length_jset_le [of "history_key e" e h] by simp
  moreover have "\<exists>x \<in> set ?h. \<not> pinned (snd x)" if "512 < length ?h"
  proof (rule ccontr)
    assume "\<not> ?thesis"
    then have "filter (\<lambda>e. pinned (snd e)) ?h = ?h" by (auto simp: filter_id_conv)
    then show False using few_pinned [OF ok] that by simp
  qed
  moreover have "history_ok opt check (drop_unpinned ?h)"
    using ok drop_unpinned_jwf drop_unpinned_subset unfolding history_ok_def by blast
  ultimately show ?thesis
    using ok length_drop_unpinned [of ?h] by (auto simp: store_event_def Let_def)
qed

subsection \<open>The invariant\<close>

definition client_ok :: "relay_options \<Rightarrow> relay_client \<Rightarrow> bool" where
  "client_ok opt cl \<longleftrightarrow> length (rc_subs cl) \<le> 8 \<and> jwf (rc_subs cl) \<and> (\<forall>(i, f) \<in> set (rc_subs cl). granted opt f)"

definition frame_ok :: "relay_options \<Rightarrow> (js \<Rightarrow> bool) \<Rightarrow> nat \<times> relay_frame \<Rightarrow> bool" where
  "frame_ok opt check x \<longleftrightarrow> (case snd x of EventFrame i e \<Rightarrow> relayed_ok opt check e \<and> (\<exists>f. granted opt f \<and> relay_matches e f) | _ \<Rightarrow> True)"

definition relay_inv :: "relay_options \<Rightarrow> (js \<Rightarrow> bool) \<Rightarrow> relay \<Rightarrow> bool" where
  "relay_inv opt check s \<longleftrightarrow> history_ok opt check (rl_history s) \<and> length (rl_history s) \<le> 512 \<and> length (rl_admitted s) \<le> 512
     \<and> length (rl_clients s) \<le> ro_max_clients opt \<and> jwf (rl_clients s) \<and> (\<forall>(c, cl) \<in> set (rl_clients s). client_ok opt cl) \<and> list_all (frame_ok opt check) (rl_out s)"

lemma client_shut: "client_ok opt cl \<Longrightarrow> client_ok opt (cl\<lparr>rc_open := False\<rparr>)"
  by (simp add: client_ok_def)

lemma inv_put_client:
  assumes "relay_inv opt check s" and "client_ok opt cl" and "jget (rl_clients s) c = Some old"
  shows "relay_inv opt check (put_client c cl s)"
  using assms subsetD [OF set_jset_subset] length_jset [of c cl "rl_clients s"]
  unfolding relay_inv_def put_client_def by (fastforce simp: jhas_def)

lemma inv_relay_send:
  assumes "relay_inv opt check s" and "frame_ok opt check (c, f)"
  shows "relay_inv opt check (relay_send congested c f s)"
proof (cases "jget (rl_clients s) c")
  case (Some cl)
  then have "client_ok opt cl" using assms(1) jget_in by (fastforce simp: relay_inv_def)
  then have "relay_inv opt check (put_client c (cl\<lparr>rc_open := False\<rparr>) s)"
    using assms(1) Some by (intro inv_put_client) (auto simp: client_ok_def)
  then show ?thesis
    using assms Some by (auto simp: relay_send_def put_client_def relay_inv_def)
qed (use assms in \<open>simp add: relay_send_def\<close>)

lemma relay_inv_fold: "(\<And>x s. x \<in> set xs \<Longrightarrow> relay_inv opt check s \<Longrightarrow> relay_inv opt check (f x s)) \<Longrightarrow> relay_inv opt check s
    \<Longrightarrow> relay_inv opt check (fold f xs s)"
  by (induction xs arbitrary: s) auto

lemma inv_forward:
  assumes "relay_inv opt check s" and "relayed_ok opt check e"
  shows "relay_inv opt check (forward congested e s)"
  unfolding forward_def
proof (rule relay_inv_fold [OF _ assms(1)], clarify)
  fix c cl s1 assume c: "(c, cl) \<in> set (rl_clients s)" and s1: "relay_inv opt check s1"
  then have subs: "\<forall>(i, f) \<in> set (rc_subs cl). granted opt f" using assms(1) by (auto simp: relay_inv_def client_ok_def)
  show "relay_inv opt check (fold (\<lambda>(i, f) s. if relay_matches e f then relay_send congested c (EventFrame i e) s else s) (rc_subs cl) s1)"
  proof (rule relay_inv_fold [OF _ s1], clarify)
    fix i f s2 assume "(i, f) \<in> set (rc_subs cl)" and s2: "relay_inv opt check s2"
    then have "granted opt f" using subs by auto
    then show "relay_inv opt check (if relay_matches e f then relay_send congested c (EventFrame i e) s2 else s2)"
      using s2 assms(2) by (auto simp: frame_ok_def intro!: inv_relay_send)
  qed
qed

lemma inv_remember:
  assumes "relay_inv opt check s" and "relayed_ok opt check e" and "publisher_ok opt check"
  shows "relay_inv opt check (remember congested e s)"
proof -
  have "relay_inv opt check (s\<lparr>rl_history := store_event e (rl_history s)\<rparr>)"
    using assms(1) store_event_ok [OF _ _ assms(2,3)] by (simp add: relay_inv_def)
  then show ?thesis using assms(1,2) by (simp add: remember_def inv_forward)
qed

lemma history_ok_jdel: "history_ok opt check h \<Longrightarrow> history_ok opt check (jdel k h)"
  using set_jdel_subset [of k h] by (fastforce simp: history_ok_def)

lemma inv_replay:
  assumes "relay_inv opt check s" and "granted opt f"
  shows "relay_inv opt check (replay congested now c i f s)"
  unfolding replay_def
proof (rule relay_inv_fold [OF _ assms(1)], clarify)
  fix k e s1 assume e: "(k, e) \<in> set (rl_history s)" and s1: "relay_inv opt check s1"
  have "relayed_ok opt check e" using e assms(1) by (auto simp: relay_inv_def history_ok_def)
  then have "frame_ok opt check (c, EventFrame i e)" if "relay_matches e f" using that assms(2) by (auto simp: frame_ok_def)
  moreover have "relay_inv opt check (s1\<lparr>rl_history := jdel k (rl_history s1)\<rparr>)"
    using s1 history_ok_jdel order_trans [OF length_jdel_le] by (auto simp: relay_inv_def)
  ultimately show "relay_inv opt check (if expired_event now e then s1\<lparr>rl_history := jdel k (rl_history s1)\<rparr>
      else if relay_matches e f then relay_send congested c (EventFrame i e) s1 else s1)"
    using s1 by (auto intro: inv_relay_send)
qed

subsection \<open>Messages\<close>

lemma on_req_inv:
  assumes "relay_inv opt check s" and "client_ok opt cl" and "jget (rl_clients s) c = Some old"
  shows "relay_inv opt check (on_req opt congested now c cl frame s)"
proof (cases "on_req opt congested now c cl frame s = s")
  case False
  let ?i = "js_string (at_index frame 1)" and ?f = "at_index frame 2"
  have g: "granted opt ?f" "length (rc_subs cl) < 8"
    and eq: "on_req opt congested now c cl frame s = relay_send congested c (EoseFrame ?i)
      (replay congested now c ?i ?f (put_client c (cl\<lparr>rc_subs := jset ?i ?f (rc_subs cl)\<rparr>) s))"
    using False by (auto simp: on_req_def granted_def Let_def split: if_splits)
  have "client_ok opt (cl\<lparr>rc_subs := jset ?i ?f (rc_subs cl)\<rparr>)"
    using assms(2) g subsetD [OF set_jset_subset [of ?i ?f "rc_subs cl"]] length_jset_le [of ?i ?f "rc_subs cl"]
    by (fastforce simp: client_ok_def)
  then show ?thesis
    unfolding eq using assms g(1) by (intro inv_relay_send inv_replay inv_put_client) (auto simp: frame_ok_def)
qed (use assms in simp)

lemma admit_event_bound:
  assumes "length admitted \<le> 512" and "admit_event admit e admitted = (r, kept)"
  shows "length kept \<le> 512" and "r = Some t \<Longrightarrow> t \<noteq> JUndefined \<Longrightarrow> length (jset (member e ''pubkey'') t kept) \<le> 512"
proof -
  have le: "length (filter P admitted) \<le> length admitted" for P by simp
  have "length kept \<le> length admitted"
    using assms(2) le by (auto simp: admit_event_def Let_def split: option.splits if_splits)
  then show "length kept \<le> 512" using assms(1) by simp
  have "jhas admitted (member e ''pubkey'') \<and> kept = admitted \<or> length kept < 512" if "r = Some t" "t \<noteq> JUndefined"
    using assms(2) that by (auto simp: admit_event_def Let_def split: option.splits if_splits)
  then show "r = Some t \<Longrightarrow> t \<noteq> JUndefined \<Longrightarrow> length (jset (member e ''pubkey'') t kept) \<le> 512"
    using assms(1) length_jset [of "member e ''pubkey''" t kept] by auto
qed

lemma on_relay_event_inv:
  assumes "relay_inv opt check s" and "publisher_ok opt check"
  shows "relay_inv opt check (on_relay_event opt check admit congested now c e s)"
proof (cases "fresh_swarm_event (ro_swarm opt) now e")
  case swarm: True
  obtain r kept where a: "admit_event admit e (rl_admitted s) = (r, kept)" by fastforce
  have le: "length (rl_admitted s) \<le> 512" using assms(1) by (simp add: relay_inv_def)
  note bounds = admit_event_bound [OF le a]
  have kept: "relay_inv opt check (s\<lparr>rl_admitted := kept\<rparr>)" using assms(1) bounds(1) by (simp add: relay_inv_def)
  show ?thesis
  proof (cases "r \<noteq> None \<and> check e")
    case True
    then obtain t where t: "r = Some t" "check e" by blast
    let ?a = "if t = JUndefined then kept else jset (member e ''pubkey'') t kept"
    have adm: "relay_inv opt check (s\<lparr>rl_admitted := ?a\<rparr>)" using assms(1) bounds t(1) by (simp add: relay_inv_def)
    have ok: "relayed_ok opt check e" using swarm t(2) by (auto simp: relayed_ok_def fresh_swarm_event_def)
    have frame: "frame_ok opt check (c, OkFrame i x)" for i x by (simp add: frame_ok_def)
    show ?thesis
      using swarm t inv_relay_send [OF adm frame] inv_relay_send [OF inv_remember [OF adm ok assms(2)] frame]
      by (simp add: on_relay_event_def a Let_def)
  next
    case False
    then show ?thesis using kept swarm by (auto simp: on_relay_event_def a split: option.split)
  qed
qed (use assms in \<open>simp add: on_relay_event_def\<close>)

lemma handle_frame_inv:
  assumes "relay_inv opt check s" and "client_ok opt cl" and "jget (rl_clients s) c = Some old" and "publisher_ok opt check"
  shows "relay_inv opt check (handle_frame opt check admit congested now c cl frame s)"
proof -
  have "client_ok opt (cl\<lparr>rc_subs := jdel i (rc_subs cl)\<rparr>)" for i
    using assms(2) subsetD [OF set_jdel_subset [of i "rc_subs cl"]] order_trans [OF length_jdel_le [of i "rc_subs cl"]] by (auto simp: client_ok_def)
  then have "relay_inv opt check (put_client c (cl\<lparr>rc_subs := jdel i (rc_subs cl)\<rparr>) s)" for i
    using inv_put_client [OF assms(1) _ assms(3)] by blast
  then show ?thesis
    using assms(1) on_req_inv [OF assms(1-3)] on_relay_event_inv [OF assms(1,4)] by (auto simp: handle_frame_def split: js.split)
qed

lemma relay_message_inv:
  assumes "relay_inv opt check s" and "publisher_ok opt check"
  shows "relay_inv opt check (relay_message opt check admit congested now c text s)"
proof (cases "jget (rl_clients s) c")
  case (Some cl)
  obtain w1 s1 where n: "count_relay opt now s = (w1, s1)" by fastforce
  have s1: "relay_inv opt check s1" "jget (rl_clients s1) c = Some cl"
    using n assms(1) Some by (auto simp: count_relay_def Let_def relay_inv_def split: if_splits)
  obtain w2 cl2 where m: "count_client now cl = (w2, cl2)" by fastforce
  have cl: "client_ok opt cl" using assms(1) Some jget_in by (fastforce simp: relay_inv_def)
  then have cl2: "client_ok opt cl2" using m by (auto simp: count_client_def Let_def client_ok_def split: if_splits)
  have put: "relay_inv opt check (put_client c x s1)" if "client_ok opt x" for x by (rule inv_put_client [OF s1(1) that s1(2)])
  have "jget (rl_clients (put_client c cl2 s1)) c = Some cl2" by (simp add: put_client_def)
  then have "relay_inv opt check (handle_frame opt check admit congested now c cl2 frame (put_client c cl2 s1))" for frame
    by (rule handle_frame_inv [OF put [OF cl2] cl2 _ assms(2)])
  then show ?thesis
    using put [OF client_shut [OF cl]] put [OF client_shut [OF cl2]] put [OF cl2]
    by (auto simp: relay_message_def Some n m Let_def split: option.split js.split)
qed (use assms in \<open>simp add: relay_message_def\<close>)

lemma jget_shut: "jget (map (\<lambda>(c, cl). (c, cl\<lparr>rc_open := False\<rparr>)) m) c = map_option (\<lambda>cl. cl\<lparr>rc_open := False\<rparr>) (jget m c)"
  by (induction m) (auto simp: jget_Cons)

lemma shut_keys: "jkeys (map (\<lambda>(c, cl). (c, cl\<lparr>rc_open := False\<rparr>)) m) = jkeys m"
  by (induction m) auto

lemma relay_apply_inv:
  assumes "relay_inv opt check s" and "publisher_ok opt check"
  shows "relay_inv opt check (relay_apply opt check admit e congested s)"
proof (cases e)
  case (Connect now path origin c)
  let ?n = "\<lparr>rc_open = True, rc_subs = [], rc_received = 0, rc_window = now\<rparr>"
  have "client_ok opt ?n" by (simp add: client_ok_def)
  then have "\<forall>(c, cl) \<in> set (jset c ?n (rl_clients s)). client_ok opt cl"
    using assms(1) subsetD [OF set_jset_subset [of c ?n "rl_clients s"]] by (fastforce simp: relay_inv_def)
  then have "relay_inv opt check (s\<lparr>rl_clients := jset c ?n (rl_clients s)\<rparr>)" if "length (rl_clients s) < ro_max_clients opt"
    using assms(1) that length_jset_le [of c ?n "rl_clients s"] by (auto simp: relay_inv_def)
  then show ?thesis
    using assms(1) Connect by (auto simp: relay_apply_def relay_connect_def)
next
  case (Closed c)
  have "length (jdel c (rl_clients s)) \<le> ro_max_clients opt"
    using assms(1) order_trans [OF length_jdel_le] by (auto simp: relay_inv_def)
  then show ?thesis
    using assms(1) Closed subsetD [OF set_jdel_subset [of c "rl_clients s"]] by (auto simp: relay_apply_def relay_closed_def relay_inv_def)
next
  case Pause
  then show ?thesis using assms(1) shut_keys [of "rl_clients s"]
    by (auto simp: relay_apply_def pause_relay_def relay_inv_def jwf_def simp del: map_map intro!: client_shut)
next
  case (Publish v)
  show ?thesis
  proof (cases "publishable (ro_publisher opt) check v")
    case True
    then have "relayed_ok opt check v" by (auto simp: relayed_ok_def publishable_def split: option.splits)
    then show ?thesis
      using True Publish inv_remember [OF assms(1) _ assms(2)] by (simp add: relay_apply_def publish_stream_event_def)
  qed (use assms Publish in \<open>simp add: relay_apply_def publish_stream_event_def\<close>)
qed (use assms relay_message_inv in \<open>auto simp: relay_apply_def resume_relay_def relay_inv_def\<close>)

subsection \<open>Who is sent what\<close>

text \<open>A connected client's subscription, and the messages that make and end one.\<close>

definition subscribed :: "relay \<Rightarrow> nat \<Rightarrow> string \<Rightarrow> js \<Rightarrow> bool" where
  "subscribed s c i f \<longleftrightarrow>
     (case jget (rl_clients s) c of None \<Rightarrow> False | Some cl \<Rightarrow> rc_open cl \<and> jget (rc_subs cl) i = Some f)"

definition frame_says :: "relay_event \<Rightarrow> nat \<Rightarrow> (js list \<Rightarrow> bool) \<Rightarrow> bool" where
  "frame_says e c p \<longleftrightarrow> (case e of
     Message now c' text \<Rightarrow> c' = c \<and> (case json_parse text of Some (JArr frame) \<Rightarrow> p frame | _ \<Rightarrow> False)
   | _ \<Rightarrow> False)"

definition asks :: "relay_event \<Rightarrow> nat \<Rightarrow> string \<Rightarrow> js \<Rightarrow> bool" where
  "asks e c i f \<longleftrightarrow> frame_says e c (\<lambda>m. at_index m 0 = JStr ''REQ'' \<and> at_index m 1 = JStr i \<and> at_index m 2 = f)"

definition ends :: "relay_event \<Rightarrow> nat \<Rightarrow> string \<Rightarrow> bool" where
  "ends e c i \<longleftrightarrow> e = Closed c \<or> e = Pause \<or> frame_says e c (\<lambda>m. at_index m 0 = JStr ''CLOSE'' \<and> at_index m 1 = JStr i)"

text \<open>The client asked for the subscription, and since then neither it nor the relay ended it.\<close>

definition standing :: "relay_event list \<Rightarrow> nat \<Rightarrow> string \<Rightarrow> js \<Rightarrow> bool" where
  "standing es c i f \<longleftrightarrow> (\<exists>as r bs. es = as @ r # bs \<and> asks r c i f \<and> (\<forall>b \<in> set bs. \<not> ends b c i))"

lemma standing_asked: "asks e c i f \<Longrightarrow> standing (es @ [e]) c i f"
  unfolding standing_def by (intro exI [of _ es] exI [of _ e] exI [of _ "[]"]) simp

lemma standing_kept: "standing es c i f \<Longrightarrow> \<not> ends e c i \<Longrightarrow> standing (es @ [e]) c i f"
  unfolding standing_def
proof (elim exE conjE)
  fix as r bs assume "es = as @ r # bs" "asks r c i f" "\<forall>b \<in> set bs. \<not> ends b c i" "\<not> ends e c i"
  then show "\<exists>as r bs. es @ [e] = as @ r # bs \<and> asks r c i f \<and> (\<forall>b \<in> set bs. \<not> ends b c i)"
    by (intro exI [of _ as] exI [of _ r] exI [of _ "bs @ [e]"]) simp
qed

text \<open>What an operation may do on the way: shut clients, and send events to subscriptions that stand.\<close>

definition answers :: "relay_options \<Rightarrow> relay \<Rightarrow> nat \<times> relay_frame \<Rightarrow> bool" where
  "answers opt s x \<longleftrightarrow> (case snd x of
     EventFrame i e \<Rightarrow> \<exists>f. granted opt f \<and> relay_matches e f \<and> subscribed s (fst x) i f
   | _ \<Rightarrow> True)"

definition narrower :: "relay \<Rightarrow> relay \<Rightarrow> bool" where
  "narrower t s \<longleftrightarrow> (\<forall>c cl. jget (rl_clients t) c = Some cl \<and> rc_open cl \<longrightarrow>
     (\<exists>old. jget (rl_clients s) c = Some old \<and> rc_open old \<and> rc_subs old = rc_subs cl))"

definition sends :: "relay_options \<Rightarrow> relay \<Rightarrow> relay \<Rightarrow> bool" where
  "sends opt t s \<longleftrightarrow> narrower t s \<and> (\<exists>fs. rl_out t = rl_out s @ fs \<and> (\<forall>x \<in> set fs. answers opt s x))"

lemma narrower_subscribed: "narrower t s \<Longrightarrow> subscribed t c i f \<Longrightarrow> subscribed s c i f"
  by (fastforce simp: narrower_def subscribed_def split: option.splits)

lemma narrower_answers: "narrower t s \<Longrightarrow> answers opt t x \<Longrightarrow> answers opt s x"
  using narrower_subscribed by (fastforce simp: answers_def split: relay_frame.splits)

lemma narrower_trans: "narrower u t \<Longrightarrow> narrower t s \<Longrightarrow> narrower u s"
  unfolding narrower_def by metis

lemma sends_refl [simp]: "sends opt s s"
  by (simp add: sends_def narrower_def)

lemma sends_trans:
  assumes "sends opt u t" and "sends opt t s"
  shows "sends opt u s"
proof -
  obtain fs gs where "rl_out t = rl_out s @ fs" "rl_out u = rl_out t @ gs" "\<forall>x \<in> set fs. answers opt s x" "\<forall>x \<in> set gs. answers opt t x"
    using assms by (auto simp: sends_def)
  then have "rl_out u = rl_out s @ (fs @ gs) \<and> (\<forall>x \<in> set (fs @ gs). answers opt s x)"
    using assms narrower_answers by (auto simp: sends_def)
  then show ?thesis using assms narrower_trans unfolding sends_def by blast
qed

lemma subscribed_update [simp]:
  "subscribed (s\<lparr>rl_history := h\<rparr>) = subscribed s" "subscribed (s\<lparr>rl_admitted := a\<rparr>) = subscribed s"
  by (simp_all add: subscribed_def fun_eq_iff)

lemma answers_update [simp]:
  "answers opt (s\<lparr>rl_history := h\<rparr>) x = answers opt s x" "answers opt (s\<lparr>rl_admitted := a\<rparr>) x = answers opt s x"
  by (simp_all add: answers_def split: relay_frame.split)

lemma sends_update [simp]:
  "sends opt t (s\<lparr>rl_history := h\<rparr>) = sends opt t s" "sends opt t (s\<lparr>rl_admitted := a\<rparr>) = sends opt t s"
  "sends opt (t\<lparr>rl_history := h\<rparr>) s = sends opt t s" "sends opt (t\<lparr>rl_admitted := a\<rparr>) s = sends opt t s"
  by (simp_all add: sends_def narrower_def)

lemma sends_frame:
  assumes "\<And>cl i e. x = EventFrame i e \<Longrightarrow> jget (rl_clients s) c = Some cl \<Longrightarrow> rc_open cl \<Longrightarrow>
      \<exists>f. granted opt f \<and> relay_matches e f \<and> jget (rc_subs cl) i = Some f"
  shows "sends opt (relay_send congested c x s) s"
proof (cases "jget (rl_clients s) c")
  case (Some cl)
  have "answers opt s (c, x)" if "rc_open cl"
    using assms [OF _ Some that] Some that by (auto simp: answers_def subscribed_def split: relay_frame.split)
  then show ?thesis using Some by (auto simp: relay_send_def sends_def narrower_def)
qed (simp add: relay_send_def)

lemma sends_fold:
  assumes "\<And>x t. x \<in> set xs \<Longrightarrow> sends opt t s \<Longrightarrow> sends opt (g x t) t" and "sends opt t s"
  shows "sends opt (fold g xs t) s"
  using assms
proof (induction xs arbitrary: t)
  case (Cons a xs)
  have "sends opt (g a t) s" using Cons.prems(1) [of a t] Cons.prems(2) sends_trans by simp
  then show ?case using Cons.IH [of "g a t"] Cons.prems(1) by simp
qed simp

lemma forward_sends:
  assumes "relay_inv opt check s"
  shows "sends opt (forward congested e s) s"
  unfolding forward_def
proof (rule sends_fold [OF _ sends_refl], clarify)
  fix c cl t assume c: "(c, cl) \<in> set (rl_clients s)" and t: "sends opt t s"
  have cl: "jget (rl_clients s) c = Some cl" "client_ok opt cl" using c assms jget_unique by (fastforce simp: relay_inv_def)+
  show "sends opt (fold (\<lambda>(i, f) s. if relay_matches e f then relay_send congested c (EventFrame i e) s else s) (rc_subs cl) t) t"
  proof (rule sends_fold [OF _ sends_refl], clarify)
    fix i f u assume f: "(i, f) \<in> set (rc_subs cl)" and u: "sends opt u t"
    have "narrower u s" using sends_trans [OF u t] unfolding sends_def by blast
    then have "rc_subs x = rc_subs cl" if "jget (rl_clients u) c = Some x" "rc_open x" for x
      using that cl(1) by (fastforce simp: narrower_def)
    moreover have "jget (rc_subs cl) i = Some f" "granted opt f" using f cl(2) by (auto simp: client_ok_def intro: jget_unique)
    ultimately have "sends opt (relay_send congested c (EventFrame i e) u) u" if "relay_matches e f"
      using that by (intro sends_frame) auto
    then show "sends opt (if relay_matches e f then relay_send congested c (EventFrame i e) u else u) u" by simp
  qed
qed

lemma remember_sends:
  assumes "relay_inv opt check s" and "relayed_ok opt check e" and "publisher_ok opt check"
  shows "sends opt (remember congested e s) s"
proof -
  have "relay_inv opt check (s\<lparr>rl_history := store_event e (rl_history s)\<rparr>)"
    using assms(1) store_event_ok [OF _ _ assms(2,3)] by (simp add: relay_inv_def)
  from forward_sends [OF this] show ?thesis by (simp add: remember_def)
qed

lemma replay_sends:
  assumes "jget (rl_clients s) c = Some cl" and "jget (rc_subs cl) i = Some f" and "granted opt f"
  shows "sends opt (replay congested now c i f s) s"
  unfolding replay_def
proof (rule sends_fold [OF _ sends_refl], clarify)
  fix k e t assume t: "sends opt t s"
  then have "rc_subs x = rc_subs cl" if "jget (rl_clients t) c = Some x" "rc_open x" for x
    using that assms(1) by (fastforce simp: sends_def narrower_def)
  then have "sends opt (relay_send congested c (EventFrame i e) t) t" if "relay_matches e f"
    using that assms(2,3) by (intro sends_frame) auto
  then show "sends opt (if expired_event now e then t\<lparr>rl_history := jdel k (rl_history t)\<rparr>
      else if relay_matches e f then relay_send congested c (EventFrame i e) t else t) t" by simp
qed

lemma on_relay_event_sends:
  assumes "relay_inv opt check s" and "publisher_ok opt check"
  shows "sends opt (on_relay_event opt check admit congested now c e s) s"
proof (cases "fresh_swarm_event (ro_swarm opt) now e")
  case swarm: True
  obtain r kept where a: "admit_event admit e (rl_admitted s) = (r, kept)" by fastforce
  have le: "length (rl_admitted s) \<le> 512" using assms(1) by (simp add: relay_inv_def)
  note bounds = admit_event_bound [OF le a]
  show ?thesis
  proof (cases "r \<noteq> None \<and> check e")
    case True
    then obtain t where t: "r = Some t" "check e" by blast
    define u where "u = s\<lparr>rl_admitted := if t = JUndefined then kept else jset (member e ''pubkey'') t kept\<rparr>"
    have u: "relay_inv opt check u" using assms(1) bounds t(1) by (simp add: relay_inv_def u_def)
    have ok: "relayed_ok opt check e" using swarm t(2) by (auto simp: relayed_ok_def fresh_swarm_event_def)
    have told: "sends opt (relay_send congested c (OkFrame x y) v) v" for x y v by (rule sends_frame) simp
    have "sends opt (relay_send congested c (OkFrame x y) (remember congested e u)) u" for x y
      using told remember_sends [OF u ok assms(2)] by (rule sends_trans)
    moreover have "on_relay_event opt check admit congested now c e s
        = (if jhas (rl_history u) (js_string (member e ''id'')) then relay_send congested c (OkFrame (member e ''id'') ''duplicate'') u
           else relay_send congested c (OkFrame (member e ''id'') []) (remember congested e u))"
      using swarm t by (simp add: on_relay_event_def a Let_def u_def)
    ultimately have "sends opt (on_relay_event opt check admit congested now c e s) u" using told by simp
    then show ?thesis by (simp add: u_def)
  next
    case False
    then show ?thesis using swarm by (auto simp: on_relay_event_def a split: option.split)
  qed
qed (simp add: on_relay_event_def)

text \<open>One step: which subscriptions it leaves, and which it serves.\<close>

definition follows :: "relay_event \<Rightarrow> relay \<Rightarrow> nat \<Rightarrow> string \<Rightarrow> js \<Rightarrow> bool" where
  "follows e s c i f \<longleftrightarrow> (subscribed s c i f \<and> \<not> ends e c i) \<or> asks e c i f"

definition serves :: "relay_options \<Rightarrow> relay_event \<Rightarrow> relay \<Rightarrow> nat \<times> relay_frame \<Rightarrow> bool" where
  "serves opt e s x \<longleftrightarrow> (case snd x of
     EventFrame i v \<Rightarrow> \<exists>f. granted opt f \<and> relay_matches v f \<and> follows e s (fst x) i f
   | _ \<Rightarrow> True)"

definition step_serves :: "relay_options \<Rightarrow> relay_event \<Rightarrow> relay \<Rightarrow> relay \<Rightarrow> bool" where
  "step_serves opt e t s \<longleftrightarrow> (\<forall>c i f. subscribed t c i f \<longrightarrow> follows e s c i f)
     \<and> (\<exists>fs. rl_out t = rl_out s @ fs \<and> (\<forall>x \<in> set fs. serves opt e s x))"

lemma step_servesI:
  assumes "sends opt t u" and "rl_out u = rl_out s" and "\<And>c i f. subscribed u c i f \<Longrightarrow> follows e s c i f"
  shows "step_serves opt e t s"
proof -
  obtain fs where fs: "rl_out t = rl_out s @ fs" "\<forall>x \<in> set fs. answers opt u x" "narrower t u" using assms(1,2) by (auto simp: sends_def)
  have "serves opt e s x" if "answers opt u x" for x
    using that assms(3) by (auto simp: answers_def serves_def split: relay_frame.splits)
  then show ?thesis using fs narrower_subscribed [OF fs(3)] assms(3) by (auto simp: step_serves_def)
qed

lemma subscribed_put: "subscribed (put_client c cl s) d i f \<longleftrightarrow> (if d = c then rc_open cl \<and> jget (rc_subs cl) i = Some f else subscribed s d i f)"
  by (simp add: subscribed_def put_client_def)

lemma not_ends_other: "d \<noteq> c \<Longrightarrow> \<not> ends (Message now c text) d i"
  by (simp add: ends_def frame_says_def)

lemma handle_frame_serves:
  assumes inv: "relay_inv opt check s" and pub: "publisher_ok opt check" and c: "jget (rl_clients s) c = Some cl"
    and parsed: "json_parse text = Some (JArr frame)" and e: "e = Message now c text"
  shows "step_serves opt e (handle_frame opt check admit congested now c cl frame s) s"
proof -
  have ended: "ends e d i \<longleftrightarrow> d = c \<and> at_index frame 0 = JStr ''CLOSE'' \<and> at_index frame 1 = JStr i" for d i
    using parsed e by (auto simp: ends_def frame_says_def)
  have here: "subscribed s c i f \<longleftrightarrow> rc_open cl \<and> jget (rc_subs cl) i = Some f" for i f using c by (simp add: subscribed_def)
  consider i where "at_index frame 0 = JStr ''CLOSE''" "at_index frame 1 = JStr i"
    | "at_index frame 0 = JStr ''CLOSE''" "\<nexists>i. at_index frame 1 = JStr i" | "at_index frame 0 = JStr ''REQ''"
    | "at_index frame 0 = JStr ''EVENT''" | "at_index frame 0 \<notin> {JStr ''CLOSE'', JStr ''REQ'', JStr ''EVENT''}" by blast
  then show ?thesis
  proof cases
    case (1 i)
    let ?u = "put_client c (cl\<lparr>rc_subs := jdel i (rc_subs cl)\<rparr>) s"
    have "follows e s d j f" if "subscribed ?u d j f" for d j f
      using that 1 here by (auto simp: follows_def ended subscribed_put split: if_splits)
    then have "step_serves opt e ?u s" by (intro step_servesI [OF sends_refl]) (simp_all add: put_client_def)
    then show ?thesis using 1 by (simp add: handle_frame_def)
  next
    case 2
    then have "handle_frame opt check admit congested now c cl frame s = s" by (auto simp: handle_frame_def split: js.split)
    then show ?thesis using 2 by (auto intro!: step_servesI [OF sends_refl] simp: follows_def ended)
  next
    case 3
    let ?i = "js_string (at_index frame 1)" and ?f = "at_index frame 2"
    show ?thesis
    proof (cases "on_req opt congested now c cl frame s = s")
      case True
      then show ?thesis using 3 by (auto intro!: step_servesI [OF sends_refl] simp: handle_frame_def follows_def ended)
    next
      case False
      define u where "u = put_client c (cl\<lparr>rc_subs := jset ?i ?f (rc_subs cl)\<rparr>) s"
      have g: "granted opt ?f" "is_string (at_index frame 1)"
        and eq: "on_req opt congested now c cl frame s = relay_send congested c (EoseFrame ?i) (replay congested now c ?i ?f u)"
        using False by (auto simp: on_req_def granted_def Let_def u_def split: if_splits)
      have "at_index frame 1 = JStr ?i" using g(2) by (cases "at_index frame 1") simp_all
      then have asked: "asks e c ?i ?f" using 3 parsed e by (simp add: asks_def frame_says_def)
      have "jget (rl_clients u) c = Some (cl\<lparr>rc_subs := jset ?i ?f (rc_subs cl)\<rparr>)" by (simp add: u_def put_client_def)
      then have "sends opt (replay congested now c ?i ?f u) u" by (rule replay_sends) (simp_all add: g(1))
      moreover have "sends opt (relay_send congested c (EoseFrame ?i) v) v" for v by (rule sends_frame) simp
      ultimately have sent: "sends opt (on_req opt congested now c cl frame s) u" unfolding eq using sends_trans by blast
      have fol: "follows e s d j f" if "subscribed u d j f" for d j f
        using that 3 here asked by (auto simp: follows_def ended subscribed_put u_def split: if_splits)
      have "step_serves opt e (on_req opt congested now c cl frame s) s"
        by (rule step_servesI [OF sent _ fol]) (simp_all add: u_def put_client_def)
      then show ?thesis using 3 by (simp add: handle_frame_def)
    qed
  next
    case 4
    then have "handle_frame opt check admit congested now c cl frame s = on_relay_event opt check admit congested now c (at_index frame 1) s"
      by (simp add: handle_frame_def)
    then show ?thesis using 4 on_relay_event_sends [OF inv pub] by (auto intro!: step_servesI simp: follows_def ended)
  next
    case 5
    then show ?thesis by (auto intro!: step_servesI [OF sends_refl] simp: handle_frame_def follows_def ended)
  qed
qed

lemma follows_narrower:
  assumes "narrower u s" and "follows e u c i f"
  shows "follows e s c i f"
  using assms narrower_subscribed by (auto simp: follows_def)

lemma step_serves_narrower:
  assumes "step_serves opt e t u" and "narrower u s" and "rl_out u = rl_out s"
  shows "step_serves opt e t s"
proof -
  have "serves opt e s x" if "serves opt e u x" for x
    using that follows_narrower [OF assms(2)] by (fastforce simp: serves_def split: relay_frame.splits)
  then show ?thesis using assms follows_narrower [OF assms(2)] by (auto simp: step_serves_def)
qed

lemma relay_message_serves:
  assumes inv: "relay_inv opt check s" and pub: "publisher_ok opt check"
  shows "step_serves opt (Message now c text) (relay_message opt check admit congested now c text s) s"
proof (cases "jget (rl_clients s) c")
  case None
  have "follows (Message now c text) s d i f" if "subscribed s d i f" for d i f
    using that None not_ends_other [of d c] by (cases "d = c") (auto simp: follows_def subscribed_def)
  then show ?thesis using None by (auto intro!: step_servesI [OF sends_refl] simp: relay_message_def)
next
  case (Some cl)
  let ?e = "Message now c text"
  obtain w1 s1 where n: "count_relay opt now s = (w1, s1)" by fastforce
  have s1: "relay_inv opt check s1" "rl_clients s1 = rl_clients s" "rl_out s1 = rl_out s"
    using n inv by (auto simp: count_relay_def Let_def relay_inv_def split: if_splits)
  obtain w2 cl2 where m: "count_client now cl = (w2, cl2)" by fastforce
  have cl2: "rc_open cl2 = rc_open cl" "rc_subs cl2 = rc_subs cl" using m by (auto simp: count_client_def Let_def split: if_splits)
  have cl: "client_ok opt cl" using inv Some jget_in by (fastforce simp: relay_inv_def)
  then have inv2: "relay_inv opt check (put_client c cl2 s1)"
    using inv_put_client [OF s1(1)] Some s1(2) cl2 by (auto simp: client_ok_def)
  have put: "narrower (put_client c cl2 s1) s" "rl_out (put_client c cl2 s1) = rl_out s"
    using Some s1 cl2 by (auto simp: narrower_def put_client_def)
  have same: "subscribed s1 = subscribed s" "rl_out (put_client c x s1) = rl_out s" for x
    using s1 by (simp_all add: subscribed_def fun_eq_iff put_client_def)
  have shut: "step_serves opt ?e (put_client c (x\<lparr>rc_open := False\<rparr>) s1) s" for x
    by (rule step_servesI [OF sends_refl same(2)]) (auto simp: subscribed_put same(1) follows_def not_ends_other split: if_splits)
  have idle: "step_serves opt ?e (put_client c cl2 s1) s" if "\<nexists>frame. json_parse text = Some (JArr frame)"
  proof -
    have "\<not> ends ?e d i" for d i using that by (auto simp: ends_def frame_says_def split: option.splits js.splits)
    then show ?thesis using put narrower_subscribed by (intro step_servesI [OF sends_refl]) (auto simp: follows_def)
  qed
  have "step_serves opt ?e (handle_frame opt check admit congested now c cl2 frame (put_client c cl2 s1)) s"
    if "json_parse text = Some (JArr frame)" for frame
    by (rule step_serves_narrower [OF handle_frame_serves [OF inv2 pub _ that refl] put]) (simp add: put_client_def)
  then show ?thesis using shut idle by (auto simp: relay_message_def Some n m Let_def split: option.split js.split)
qed

lemma relay_apply_serves:
  assumes "relay_inv opt check s" and "publisher_ok opt check"
  shows "step_serves opt e (relay_apply opt check admit e congested s) s"
proof (cases e)
  case (Connect now path origin c)
  then show ?thesis
    by (auto intro!: step_servesI [OF sends_refl] simp: relay_apply_def relay_connect_def subscribed_def follows_def ends_def frame_says_def split: if_splits)
next
  case (Closed c)
  then show ?thesis
    by (auto intro!: step_servesI [OF sends_refl] simp: relay_apply_def relay_closed_def subscribed_def follows_def ends_def frame_says_def split: if_splits)
next
  case Pause
  then show ?thesis
    by (auto intro!: step_servesI [OF sends_refl] simp: relay_apply_def pause_relay_def subscribed_def jget_shut split: option.splits)
next
  case Resume
  then show ?thesis
    by (auto intro!: step_servesI [OF sends_refl] simp: relay_apply_def resume_relay_def subscribed_def follows_def ends_def frame_says_def)
next
  case (Publish v)
  have "sends opt (relay_apply opt check admit e congested s) s"
  proof (cases "publishable (ro_publisher opt) check v")
    case True
    then have "relayed_ok opt check v" by (auto simp: relayed_ok_def publishable_def split: option.splits)
    then show ?thesis
      using True Publish remember_sends [OF assms(1) _ assms(2)] by (simp add: relay_apply_def publish_stream_event_def)
  qed (use Publish in \<open>simp add: relay_apply_def publish_stream_event_def\<close>)
  then show ?thesis using Publish by (auto intro!: step_servesI simp: follows_def ends_def frame_says_def)
qed (use assms relay_message_serves in \<open>simp add: relay_apply_def\<close>)

text \<open>A run of the relay from its start.\<close>

type_synonym relay_input = "(js \<Rightarrow> js \<Rightarrow> bool) option \<times> relay_event \<times> (nat \<Rightarrow> bool)"

definition relay_run :: "relay_options \<Rightarrow> (js \<Rightarrow> bool) \<Rightarrow> int \<Rightarrow> relay_input list \<Rightarrow> relay" where
  "relay_run opt check now es = fold (\<lambda>(admit, e, congested). relay_apply opt check admit e congested) es (new_relay now)"

lemma relay_run_snoc: "relay_run opt check now (es @ [(admit, e, congested)]) = relay_apply opt check admit e congested (relay_run opt check now es)"
  by (simp add: relay_run_def)

lemma relay_run_inv:
  assumes "publisher_ok opt check"
  shows "relay_inv opt check (relay_run opt check now es)"
  unfolding relay_run_def
proof (rule relay_inv_fold)
  show "relay_inv opt check (new_relay now)" by (simp add: relay_inv_def new_relay_def history_ok_def)
qed (use assms relay_apply_inv in auto)

lemma relay_run_standing:
  assumes "publisher_ok opt check"
  shows "subscribed (relay_run opt check now es) c i f \<Longrightarrow> standing (map (fst \<circ> snd) es) c i f"
proof (induction es rule: rev_induct)
  case Nil
  then show ?case by (simp add: relay_run_def new_relay_def subscribed_def)
next
  case (snoc x es)
  obtain admit e congested where x: "x = (admit, e, congested)" by (cases x)
  have "follows e (relay_run opt check now es) c i f"
    using relay_apply_serves [OF relay_run_inv [OF assms] assms] snoc.prems unfolding x relay_run_snoc step_serves_def by blast
  then have "standing (map (fst \<circ> snd) es @ [e]) c i f"
    using snoc.IH standing_asked standing_kept unfolding follows_def by blast
  then show ?case by (simp add: x o_def)
qed

text \<open>
  C39: the relay is bounded and serves only what it may. Over any connections, messages and host operations,
  with any congestion and any admission test, the history and the table of admissions hold at most 512
  entries, the clients stay within their maximum and each has at most eight subscriptions; every event
  that was sent is verified, is a swarm event of this swarm or one of the publisher's stream events, and
  matches a valid filter of the two kinds that the relay grants.  And each event that a step sends goes to a client that
  asked for it: under an id that this client subscribed, with a granted filter that the event matches, and that neither a
  close of that subscription, nor the end of the connection, nor a pause of the relay has ended since.
\<close>

theorem relay_bounded:
  assumes "publisher_ok opt check" and "s = relay_run opt check now es"
    and "t = relay_run opt check now (es @ [(admit, x, congested)])"
  shows "length (rl_history s) \<le> 512 \<and> length (rl_admitted s) \<le> 512 \<and> length (rl_clients s) \<le> ro_max_clients opt
    \<and> (\<forall>(c, cl) \<in> set (rl_clients s). length (rc_subs cl) \<le> 8)
    \<and> (\<forall>c i e. (c, EventFrame i e) \<in> set (rl_out s) \<longrightarrow> relayed_ok opt check e \<and> (\<exists>f. granted opt f \<and> relay_matches e f))
    \<and> (\<exists>fs. rl_out t = rl_out s @ fs
        \<and> (\<forall>c i e. (c, EventFrame i e) \<in> set fs \<longrightarrow> relayed_ok opt check e
            \<and> (\<exists>f. granted opt f \<and> relay_matches e f \<and> (subscribed s c i f \<or> asks x c i f)
                 \<and> standing (map (fst \<circ> snd) es @ [x]) c i f)))"
proof -
  have inv: "relay_inv opt check s" "relay_inv opt check t" unfolding assms(2,3) by (rule relay_run_inv [OF assms(1)])+
  have "step_serves opt x t s"
    using relay_apply_serves [OF inv(1) assms(1)] unfolding assms(3) relay_run_snoc assms(2) [symmetric] .
  then obtain fs where fs: "rl_out t = rl_out s @ fs" "\<forall>y \<in> set fs. serves opt x s y" by (auto simp: step_serves_def)
  have "standing (map (fst \<circ> snd) es @ [x]) c i f" if "follows x s c i f" for c i f
    using that relay_run_standing [OF assms(1)] standing_asked standing_kept unfolding follows_def assms(2) by blast
  then have sent: "\<exists>f. granted opt f \<and> relay_matches e f \<and> (subscribed s c i f \<or> asks x c i f) \<and> standing (map (fst \<circ> snd) es @ [x]) c i f"
    if "(c, EventFrame i e) \<in> set fs" for c i e
    using bspec [OF fs(2) that] by (auto simp: serves_def follows_def)
  have ok: "relayed_ok opt check e" if "(c, EventFrame i e) \<in> set fs" for c i e
  proof -
    have "\<forall>y \<in> set (rl_out t). frame_ok opt check y" using inv(2) by (simp add: relay_inv_def list_all_iff)
    then have "frame_ok opt check (c, EventFrame i e)" using fs(1) that by simp
    then show ?thesis by (simp add: frame_ok_def)
  qed
  have "length (rl_history s) \<le> 512 \<and> length (rl_admitted s) \<le> 512 \<and> length (rl_clients s) \<le> ro_max_clients opt
    \<and> (\<forall>(c, cl) \<in> set (rl_clients s). length (rc_subs cl) \<le> 8)
    \<and> (\<forall>c i e. (c, EventFrame i e) \<in> set (rl_out s) \<longrightarrow> relayed_ok opt check e \<and> (\<exists>f. granted opt f \<and> relay_matches e f))"
    using inv(1) by (fastforce simp: relay_inv_def client_ok_def frame_ok_def list_all_iff)
  then show ?thesis using fs(1) sent ok by blast
qed

definition ex_stream_event :: js where
  "ex_stream_event = JObj [(''id'', JStr ''1''), (''pubkey'', JStr ''a''), (''created_at'', JInt 5), (''kind'', JInt 30311), (''tags'', JArr [])]"

definition ex_relay_options :: relay_options where
  "ex_relay_options = \<lparr>ro_swarm = ''swarm'', ro_origin = ''o'', ro_max_clients = 64, ro_publisher = Some ex_stream_event, ro_max_messages = 800\<rparr>"

definition ex_relay_request :: js where
  "ex_relay_request = JArr [JStr ''REQ'', JStr ''s'', JObj [(''kinds'', JArr [JInt 30311]), (''authors'', JArr [JStr ''a''])]]"

definition ex_relay_inputs :: "relay_input list" where
  "ex_relay_inputs = [(None, Connect 0 ''/relay'' (Some ''o'') 1, \<lambda>c. False), (None, Connect 5 ''/relay'' (Some ''o'') 2, \<lambda>c. False),
     (None, Message 10 1 (json_text ex_relay_request), \<lambda>c. False)]"

definition ex_relay :: relay where
  "ex_relay = relay_run ex_relay_options (\<lambda>e. e = ex_stream_event) 0 (ex_relay_inputs @ [(None, Publish ex_stream_event, \<lambda>c. False)])"

lemma ex_relay_sends: "rl_out ex_relay = [(1, EoseFrame ''s''), (1, EventFrame ''s'' ex_stream_event)]"
proof -
  have parse: "json_parse (json_text ex_relay_request) = Some ex_relay_request"
    by (rule json_roundtrip) (simp add: ex_relay_request_def jwf_def)
  have short: "length (json_text ex_stream_event) \<le> 16384"
    by (simp add: ex_stream_event_def string_text_def escape_char_def control_char_def int_text_def nat_text.simps)
  show ?thesis
    using parse short
    by (simp add: ex_relay_def relay_run_def ex_relay_inputs_def relay_apply_def relay_connect_def new_relay_def ex_relay_options_def relay_message_def count_relay_def count_client_def
        put_client_def handle_frame_def Let_def jget_def)
      (simp add: ex_relay_request_def ex_stream_event_def handle_frame_def store_event_def Let_def on_req_def at_index_def valid_filter_def valid_filter_entry_def array_of_def safe_int_def max_safe_def
        hex_prefix_def lower_hex_char_def discovery_filter_def jget_def replay_def relay_send_def put_client_def publish_stream_event_def publishable_def
        pinned_def remember_def forward_def relay_matches_def tag_entry_matches_def starts_with_def)
qed

lemma ex_relay_before: "rl_out (relay_run ex_relay_options (\<lambda>e. e = ex_stream_event) 0 ex_relay_inputs) = [(1, EoseFrame ''s'')]"
proof -
  have parse: "json_parse (json_text ex_relay_request) = Some ex_relay_request"
    by (rule json_roundtrip) (simp add: ex_relay_request_def jwf_def)
  show ?thesis
    using parse
    by (simp add: relay_run_def ex_relay_inputs_def relay_apply_def relay_connect_def new_relay_def ex_relay_options_def relay_message_def count_relay_def count_client_def
        put_client_def handle_frame_def Let_def jget_def)
      (simp add: ex_relay_request_def ex_stream_event_def handle_frame_def Let_def on_req_def at_index_def valid_filter_def valid_filter_entry_def array_of_def
        safe_int_def max_safe_def hex_prefix_def lower_hex_char_def discovery_filter_def jget_def replay_def relay_send_def put_client_def)
qed

theorem relay_bounded_witness:
  "rl_out ex_relay = [(1, EoseFrame ''s''), (1, EventFrame ''s'' ex_stream_event)]
   \<and> relayed_ok ex_relay_options (\<lambda>e. e = ex_stream_event) ex_stream_event
   \<and> (\<exists>f. standing (map (fst \<circ> snd) ex_relay_inputs @ [Publish ex_stream_event]) 1 ''s'' f)"
proof -
  have ok: "publisher_ok ex_relay_options (\<lambda>e. e = ex_stream_event)"
    by (simp add: publisher_ok_def ids_commit_def ex_relay_options_def)
  obtain fs where fs: "rl_out ex_relay = [(1, EoseFrame ''s'')] @ fs"
    "(1, EventFrame ''s'' ex_stream_event) \<in> set fs \<longrightarrow> relayed_ok ex_relay_options (\<lambda>e. e = ex_stream_event) ex_stream_event
       \<and> (\<exists>f. standing (map (fst \<circ> snd) ex_relay_inputs @ [Publish ex_stream_event]) 1 ''s'' f)"
    using relay_bounded [OF ok refl ex_relay_def] unfolding ex_relay_before by blast
  have "fs = [(1, EventFrame ''s'' ex_stream_event)]" using fs(1) ex_relay_sends by simp
  then show ?thesis using fs(2) ex_relay_sends by simp
qed

end
