(* ===== verification/Media_Catalogue.thy ===== *)
theory Media_Catalogue
  imports Segment_Commitment
begin

text \<open>
  The catalogue of a local media playlist, \<open>parseHlsMedia\<close> of \<open>src/hls-media-catalogue.mjs\<close>: which segments, parts
  and init maps may be published, and which key paths may not.

  The path of \<open>new URL(uri, base)\<close> is the argument \<open>resolve\<close>, \<open>None\<close> where it throws.  A failure is its
  message.  An attribute or option that is missing and one that is empty behave alike, and both are \<open>[]\<close>.
\<close>

type_synonym 'a parsed = "string + 'a"

definition max_records :: nat where "max_records = 4096"
definition max_segment :: int where "max_segment = 16 * 1024 * 1024"

record media_map =
  mm_path :: string
  mm_range :: "(int \<times> int) option"

record media_key =
  mk_path :: string
  mk_iv :: "string option"

text \<open>The method \<open>AES-128\<close> and the key format \<open>identity\<close> are the only ones.\<close>

record encryption =
  en_key_path :: string
  en_iv :: string

record media_record =
  mr_path :: string
  mr_playlist :: string
  mr_type :: string
  mr_level :: int
  mr_sequence :: int
  mr_discontinuity :: int
  mr_part :: "int option"
  mr_range :: "(int \<times> int) option"
  mr_encryption :: "encryption option"
  mr_map :: "media_map option"
  mr_key_iv :: "string option"

record catalogue =
  ca_records :: "media_record list"
  ca_assets :: "string list"
  ca_keys :: "string list"

subsection \<open>Numbers, paths and attributes\<close>

definition hls_number :: "int \<Rightarrow> int parsed" where
  "hls_number n = (if safe_int n \<and> 0 \<le> n then Inr n else Inl ''Invalid media context.'')"

definition hls_integer :: "string \<Rightarrow> int parsed" where
  "hls_integer s = (if s \<noteq> [] \<and> list_all digit s then hls_number (int (digits_value s)) else Inl ''Invalid media context.'')"

definition starts :: "string \<Rightarrow> string \<Rightarrow> bool" where
  "starts p s \<longleftrightarrow> take (length p) s = p"

definition blank :: "char \<Rightarrow> bool" where
  "blank c \<longleftrightarrow> c \<in> {CHR 0x09, CHR 0x0A, CHR 0x0B, CHR 0x0C, CHR 0x0D, CHR 0x20, CHR 0xA0}"

definition alpha :: "char \<Rightarrow> bool" where
  "alpha c \<longleftrightarrow> (CHR ''a'' \<le> c \<and> c \<le> CHR ''z'') \<or> (CHR ''A'' \<le> c \<and> c \<le> CHR ''Z'')"

text \<open>\<open>/^[a-z]+:/iu\<close>.\<close>

definition has_scheme :: "string \<Rightarrow> bool" where
  "has_scheme s \<longleftrightarrow> (case dropWhile alpha s of [] \<Rightarrow> False | c # cs \<Rightarrow> c = CHR '':'' \<and> takeWhile alpha s \<noteq> [])"

definition local_path :: "string \<Rightarrow> bool" where
  "local_path p \<longleftrightarrow> starts ''/media/'' p \<and> list_all media_char p"

definition local_media_path :: "(string \<Rightarrow> string \<Rightarrow> string option) \<Rightarrow> string \<Rightarrow> string \<Rightarrow> string parsed" where
  "local_media_path resolve uri parent =
     (if uri = [] \<or> list_ex (\<lambda>c. c \<in> {CHR ''?'', CHR ''%'', CHR ''#'', CHR 0x5C} \<or> blank c) uri \<or> has_scheme uri \<or> starts ''//'' uri
      then Inl ''Only local media URIs are supported.''
      else (case resolve uri parent of
          None \<Rightarrow> Inl ''TypeError''
        | Some path \<Rightarrow> if local_path path then Inr path else Inl ''Media URI leaves the published directory.''))"

text \<open>\<open>lines\<close>; trimming takes the carriage return that the separator may have.\<close>

definition trim :: "string \<Rightarrow> string" where
  "trim s = rev (dropWhile blank (rev (dropWhile blank s)))"

definition playlist_lines :: "string \<Rightarrow> string list parsed" where
  "playlist_lines text =
     (if \<not> starts ''#EXTM3U'' text then Inl ''Invalid HLS playlist.''
      else Inr (filter (\<lambda>l. l \<noteq> []) (map trim (split_on (CHR 0x0A) text))))"

definition name_char :: "char \<Rightarrow> bool" where
  "name_char c \<longleftrightarrow> (CHR ''A'' \<le> c \<and> c \<le> CHR ''Z'') \<or> (CHR ''0'' \<le> c \<and> c \<le> CHR ''9'') \<or> c = CHR ''-''"

definition strip_quotes :: "string \<Rightarrow> string" where
  "strip_quotes v =
     (let v = (if starts [CHR 0x22] v then tl v else v) in
      if v \<noteq> [] \<and> last v = CHR 0x22 then butlast v else v)"

text \<open>A value and the text after it: quoted up to a comma or the end, or else up to the next comma.\<close>

definition attribute_value :: "string \<Rightarrow> string \<times> string" where
  "attribute_value v =
     (let inner = takeWhile (\<lambda>c. c \<noteq> CHR 0x22) (tl v); rest = drop (length inner + 2) v in
      if starts [CHR 0x22] v \<and> length inner + 2 \<le> length v \<and> (rest = [] \<or> hd rest = CHR '','')
      then (CHR 0x22 # inner @ [CHR 0x22], tl rest)
      else (takeWhile (\<lambda>c. c \<noteq> CHR '','') v, tl (dropWhile (\<lambda>c. c \<noteq> CHR '','') v)))"

definition attribute_match :: "string \<Rightarrow> (string \<times> string \<times> string) option" where
  "attribute_match text =
     (let name = takeWhile name_char text in
      (case dropWhile name_char text of
         [] \<Rightarrow> None
       | c # v \<Rightarrow> if name = [] \<or> c \<noteq> CHR ''='' then None else Some (name, attribute_value v)))"

lemma attribute_value_shorter: "length (snd (attribute_value v)) \<le> length v"
proof -
  have "length (tl (dropWhile (\<lambda>c. c \<noteq> CHR '','') v)) \<le> length v"
    using length_dropWhile_le [of "\<lambda>c. c \<noteq> CHR '',''" v] by simp
  then show ?thesis by (simp add: attribute_value_def Let_def)
qed

lemma attribute_match_shorter: "attribute_match text = Some (n, v, rest) \<Longrightarrow> length rest < length text"
proof -
  assume match: "attribute_match text = Some (n, v, rest)"
  then obtain c w where w: "dropWhile name_char text = c # w" "attribute_value w = (v, rest)"
    by (auto simp: attribute_match_def Let_def split: list.splits if_splits)
  then have "length rest \<le> length w" using attribute_value_shorter [of w] by simp
  moreover have "length (c # w) \<le> length text" using length_dropWhile_le [of name_char "text"] w(1) by simp
  ultimately show ?thesis by simp
qed

function attributes_from :: "string \<Rightarrow> (string \<times> string) list \<Rightarrow> (string \<times> string) list parsed" where
  "attributes_from text found =
     (if text = [] then Inr found
      else (case attribute_match text of
          None \<Rightarrow> Inl ''Invalid HLS attributes.''
        | Some (name, v, rest) \<Rightarrow>
            if jhas found name then Inl ''Invalid HLS attributes.''
            else attributes_from rest (jset name (strip_quotes v) found)))"
  by pat_completeness auto
termination
  by (relation "measure (\<lambda>(text, found). length text)") (auto dest: attribute_match_shorter)

declare attributes_from.simps [simp del]

definition attributes :: "string \<Rightarrow> (string \<times> string) list parsed" where
  "attributes text = attributes_from text []"

definition attr :: "(string \<times> string) list \<Rightarrow> string \<Rightarrow> string" where
  "attr as name = (case jget as name of None \<Rightarrow> [] | Some v \<Rightarrow> v)"

text \<open>
  \<open>Number(text)\<close> of a decimal literal, as a mantissa and a power of ten; \<open>None\<close> is a text that is not one.
  \<open>positive_number\<close> is \<open>Number(text) > 0\<close> and \<open>finite_number\<close> \<open>Number.isFinite\<close>, by the thresholds
  of double precision.
\<close>

definition decimal_literal :: "string \<Rightarrow> (int \<times> int) option" where
  "decimal_literal s =
     (let t = trim s; neg = starts ''-'' t; u = (if neg \<or> starts ''+'' t then tl t else t);
          whole = takeWhile digit u; r = dropWhile digit u;
          frac = (if starts ''.'' r then takeWhile digit (tl r) else []); q = (if starts ''.'' r then dropWhile digit (tl r) else r);
          m = int (digits_value (whole @ frac)) in
      if whole @ frac = [] then None
      else (case parse_exponent q of
          Some (e, []) \<Rightarrow> Some (if neg then - m else m, e - int (length frac))
        | _ \<Rightarrow> None))"

text \<open>\<open>0x\<close>, \<open>0o\<close> and \<open>0b\<close> literals.\<close>

definition radix_digits :: "nat \<Rightarrow> string \<Rightarrow> int option" where
  "radix_digits b ds =
     (if ds = [] \<or> list_ex (\<lambda>c. case hex_value c of None \<Rightarrow> True | Some d \<Rightarrow> d \<ge> b) ds then None
      else Some (int (foldl (\<lambda>n c. b * n + (case hex_value c of None \<Rightarrow> 0 | Some d \<Rightarrow> d)) 0 ds)))"

definition radix_literal :: "string \<Rightarrow> int option" where
  "radix_literal s =
     (let t = map lower_char (trim s) in
      if starts ''0x'' t then radix_digits 16 (drop 2 t)
      else if starts ''0o'' t then radix_digits 8 (drop 2 t)
      else if starts ''0b'' t then radix_digits 2 (drop 2 t)
      else None)"

definition number_literal :: "string \<Rightarrow> (int \<times> int) option" where
  "number_literal s = (case radix_literal s of Some n \<Rightarrow> Some (n, 0) | None \<Rightarrow> decimal_literal s)"

definition power_above :: "int \<Rightarrow> int \<Rightarrow> int \<Rightarrow> int \<Rightarrow> bool" where
  "power_above m e a b \<longleftrightarrow> a * 10 ^ nat (- e) < m * b * 10 ^ nat e"

definition positive_number :: "string \<Rightarrow> bool" where
  "positive_number s \<longleftrightarrow> trim s = ''Infinity'' \<or> trim s = ''+Infinity''
     \<or> (case number_literal s of None \<Rightarrow> False | Some (m, e) \<Rightarrow> power_above m e 1 (2 ^ 1075))"

definition finite_number :: "string \<Rightarrow> bool" where
  "finite_number s \<longleftrightarrow> (case number_literal s of None \<Rightarrow> False | Some (m, e) \<Rightarrow> m * 10 ^ nat e < (2 ^ 1024 - 2 ^ 970) * 10 ^ nat (- e))"

subsection \<open>The parser\<close>

record parser =
  ps_records :: "media_record list"
  ps_assets :: "string list"
  ps_keys :: "string list"
  ps_sequence :: int
  ps_discontinuity :: int
  ps_range :: string
  ps_previous :: "media_record option"
  ps_duration :: bool
  ps_part :: int
  ps_key :: "media_key option"
  ps_map :: "media_map option"
  ps_skipped :: bool
  ps_media :: bool

record playlist_context =
  pl_path :: string
  pl_level :: int
  pl_type :: string
  pl_allow_encrypted :: bool
  pl_previous :: "catalogue option"
  pl_resolve :: "string \<Rightarrow> string \<Rightarrow> string option"

definition new_parser :: parser where
  "new_parser = \<lparr>ps_records = [], ps_assets = [], ps_keys = [], ps_sequence = 0, ps_discontinuity = 0, ps_range = [], ps_previous = None,
     ps_duration = False, ps_part = 0, ps_key = None, ps_map = None, ps_skipped = False, ps_media = False\<rparr>"

definition set_put :: "'a \<Rightarrow> 'a list \<Rightarrow> 'a list" where
  "set_put x xs = (if x \<in> set xs then xs else xs @ [x])"

definition add_record :: "media_record \<Rightarrow> parser \<Rightarrow> parser parsed" where
  "add_record r s =
     (let assets = set_put (mr_path r) (ps_assets s); assets = (case mr_map r of None \<Rightarrow> assets | Some m \<Rightarrow> set_put (mm_path m) assets);
          keys = (case mr_encryption r of None \<Rightarrow> ps_keys s | Some e \<Rightarrow> set_put (en_key_path e) (ps_keys s)) in
      if length (ps_records s) + 1 > max_records then Inl ''Excessive playlist length.''
      else Inr (s\<lparr>ps_records := ps_records s @ [r], ps_assets := assets, ps_keys := keys\<rparr>))"

text \<open>\<open>byteRange\<close>; \<open>default_start\<close> is where an implicit range would start.\<close>

definition byte_range :: "string \<Rightarrow> int option \<Rightarrow> (int \<times> int) parsed" where
  "byte_range range_text default_start =
     (let ds = takeWhile digit range_text; rest = dropWhile digit range_text in
      if ds = [] \<or> (rest \<noteq> [] \<and> (hd rest \<noteq> CHR ''@'' \<or> tl rest = [] \<or> \<not> list_all digit (tl rest))) then Inl ''Invalid byte range.''
      else (case hls_integer ds of
          Inl e \<Rightarrow> Inl e
        | Inr n \<Rightarrow>
            if n = 0 \<or> n > max_segment then Inl ''Excessive byte range.''
            else (case (if rest = [] then (case default_start of None \<Rightarrow> Inl ''Implicit byte range has no predecessor.'' | Some b \<Rightarrow> Inr b)
                        else hls_integer (tl rest)) of
                Inl e \<Rightarrow> Inl e
              | Inr b \<Rightarrow> (case hls_number (b + n) of Inl e \<Rightarrow> Inl e | Inr stop \<Rightarrow> Inr (b, stop)))))"

definition implicit_start :: "string \<Rightarrow> media_record option \<Rightarrow> int option" where
  "implicit_start path previous =
     (case previous of None \<Rightarrow> None | Some r \<Rightarrow> if mr_path r = path then map_option snd (mr_range r) else None)"

fun hex_text :: "nat \<Rightarrow> string" where
  "hex_text n = (if n < 16 then [hex_digit_char n] else hex_text (n div 16) @ [hex_digit_char (n mod 16)])"

declare hex_text.simps [simp del]

definition pad_start :: "nat \<Rightarrow> string \<Rightarrow> string" where
  "pad_start n s = replicate (n - length s) CHR ''0'' @ s"

definition encrypted_context :: "media_key option \<Rightarrow> int \<Rightarrow> encryption option" where
  "encrypted_context key sequence =
     map_option (\<lambda>k. \<lparr>en_key_path = mk_path k, en_iv = (case mk_iv k of None \<Rightarrow> pad_start 32 (hex_text (nat sequence)) | Some iv \<Rightarrow> iv)\<rparr>) key"

definition key_iv :: "media_key option \<Rightarrow> string option" where
  "key_iv key = (case key of None \<Rightarrow> None | Some k \<Rightarrow> mk_iv k)"

definition make_record :: "playlist_context \<Rightarrow> parser \<Rightarrow> string \<Rightarrow> string \<Rightarrow> int option \<Rightarrow> media_record parsed" where
  "make_record cx s uri range_text part =
     (case local_media_path (pl_resolve cx) uri (pl_path cx) of
        Inl e \<Rightarrow> Inl e
      | Inr path \<Rightarrow>
          (case (if range_text = [] then Inr None else map_sum id Some (byte_range range_text (implicit_start path (ps_previous s)))) of
             Inl e \<Rightarrow> Inl e
           | Inr r \<Rightarrow>
               Inr \<lparr>mr_path = path, mr_playlist = pl_path cx, mr_type = pl_type cx, mr_level = pl_level cx, mr_sequence = ps_sequence s,
                 mr_discontinuity = ps_discontinuity s, mr_part = part, mr_range = r, mr_encryption = encrypted_context (ps_key s) (ps_sequence s),
                 mr_map = ps_map s, mr_key_iv = key_iv (ps_key s)\<rparr>))"

subsection \<open>The tags\<close>

definition hex_iv :: "string \<Rightarrow> bool" where
  "hex_iv v \<longleftrightarrow> length v = 34 \<and> take 2 (map lower_char v) = ''0x'' \<and> list_all lower_hex_char (drop 2 (map lower_char v))"

definition on_key :: "playlist_context \<Rightarrow> (string \<times> string) list \<Rightarrow> parser \<Rightarrow> parser parsed" where
  "on_key cx as s =
     (if attr as ''METHOD'' = ''NONE'' then Inr (s\<lparr>ps_key := None\<rparr>)
      else if \<not> pl_allow_encrypted cx then Inl ''Encrypted HLS requires explicit key publication consent.''
      else if attr as ''METHOD'' \<noteq> ''AES-128'' \<or> attr as ''KEYFORMAT'' \<notin> {[], ''identity''} \<or> attr as ''KEYFORMATVERSIONS'' \<notin> {[], ''1''}
      then Inl ''Only identity AES-128 encryption is supported.''
      else if attr as ''IV'' \<noteq> [] \<and> \<not> hex_iv (attr as ''IV'') then Inl ''Invalid encryption IV.''
      else (case local_media_path (pl_resolve cx) (attr as ''URI'') (pl_path cx) of
          Inl e \<Rightarrow> Inl e
        | Inr path \<Rightarrow>
            Inr (s\<lparr>ps_key := Some \<lparr>mk_path = path, mk_iv = (if attr as ''IV'' = [] then None else Some (drop 2 (map lower_char (attr as ''IV''))))\<rparr>,
                   ps_keys := set_put path (ps_keys s)\<rparr>)))"

definition on_map :: "playlist_context \<Rightarrow> (string \<times> string) list \<Rightarrow> parser \<Rightarrow> parser parsed" where
  "on_map cx as s =
     (case local_media_path (pl_resolve cx) (attr as ''URI'') (pl_path cx) of
        Inl e \<Rightarrow> Inl e
      | Inr path \<Rightarrow>
          if ps_key s \<noteq> None \<and> key_iv (ps_key s) = None then Inl ''Encrypted init maps require an explicit IV.''
          else (case (if attr as ''BYTERANGE'' = [] then Inr None else map_sum id Some (byte_range (attr as ''BYTERANGE'') None)) of
              Inl e \<Rightarrow> Inl e
            | Inr r \<Rightarrow> Inr (s\<lparr>ps_map := Some \<lparr>mm_path = path, mm_range = r\<rparr>, ps_assets := set_put path (ps_assets s)\<rparr>)))"

fun add_all :: "media_record list \<Rightarrow> parser \<Rightarrow> parser parsed" where
  "add_all [] s = Inr s"
| "add_all (r # rs) s = (case add_record r s of Inl e \<Rightarrow> Inl e | Inr s \<Rightarrow> add_all rs s)"

text \<open>Restoring the skipped segments \<open>sn\<close>, \<open>sn + 1\<close>, and so on, \<open>n\<close> of them; the last whole one is \<open>previous\<close> next.\<close>

fun restore :: "media_record list \<Rightarrow> nat \<Rightarrow> int \<Rightarrow> media_record option \<Rightarrow> parser \<Rightarrow> (media_record option \<times> parser) parsed" where
  "restore known 0 sn found s = Inr (found, s)"
| "restore known (Suc n) sn found s =
     (let restored = filter (\<lambda>r. mr_sequence r = sn) known in
      (case find (\<lambda>r. mr_part r = None) restored of
         None \<Rightarrow> Inl ''Delta playlist skips unavailable contexts.''
       | Some r \<Rightarrow> (case add_all restored s of Inl e \<Rightarrow> Inl e | Inr s \<Rightarrow> restore known n (sn + 1) (Some r) s)))"

definition resume_after :: "media_record \<Rightarrow> parser \<Rightarrow> parser" where
  "resume_after r s = s\<lparr>ps_previous := Some r, ps_discontinuity := mr_discontinuity r,
     ps_key := map_option (\<lambda>e. \<lparr>mk_path = en_key_path e, mk_iv = mr_key_iv r\<rparr>) (mr_encryption r), ps_map := mr_map r\<rparr>"

definition on_skip :: "playlist_context \<Rightarrow> (string \<times> string) list \<Rightarrow> parser \<Rightarrow> parser parsed" where
  "on_skip cx as s =
     (if ps_skipped s \<or> ps_media s then Inl ''Invalid delta playlist ordering.''
      else (case hls_integer (attr as ''SKIPPED-SEGMENTS'') of
          Inl e \<Rightarrow> Inl e
        | Inr count \<Rightarrow>
            (case pl_previous cx of
               None \<Rightarrow> Inl ''Delta playlist has no verified predecessor.''
             | Some known \<Rightarrow>
                 if count = 0 \<or> count > int max_records then Inl ''Delta playlist has no verified predecessor.''
                 else (case hls_number (ps_sequence s + count) of
                     Inl e \<Rightarrow> Inl e
                   | Inr stop \<Rightarrow>
                       (case restore (ca_records known) (nat count) (ps_sequence s) None s of
                          Inr (Some r, s') \<Rightarrow> Inr (resume_after r s' \<lparr>ps_sequence := stop, ps_skipped := True\<rparr>)
                        | Inr (None, s') \<Rightarrow> Inl ''Delta playlist has no verified predecessor.''
                        | Inl e \<Rightarrow> Inl e)))))"

definition on_part :: "playlist_context \<Rightarrow> (string \<times> string) list \<Rightarrow> parser \<Rightarrow> parser parsed" where
  "on_part cx as s =
     (if \<not> positive_number (attr as ''DURATION'') \<or> \<not> finite_number (attr as ''DURATION'') then Inl ''Invalid part duration.''
      else if attr as ''GAP'' = ''YES'' then
        (if ps_part s + 1 > 1024 then Inl ''Excessive parts per segment.'' else Inr (s\<lparr>ps_part := ps_part s + 1\<rparr>))
      else (case make_record cx s (attr as ''URI'') (attr as ''BYTERANGE'') (Some (ps_part s)) of
          Inl e \<Rightarrow> Inl e
        | Inr r \<Rightarrow>
            (case add_record r s of
               Inl e \<Rightarrow> Inl e
             | Inr s' \<Rightarrow>
                 if ps_part s + 1 > 1024 then Inl ''Excessive parts per segment.''
                 else Inr (s'\<lparr>ps_part := ps_part s + 1, ps_previous := Some r, ps_media := True\<rparr>))))"

definition on_segment :: "playlist_context \<Rightarrow> string \<Rightarrow> parser \<Rightarrow> parser parsed" where
  "on_segment cx line s =
     (if \<not> ps_duration s then Inl ''Media URI has no duration.''
      else (case make_record cx s line (ps_range s) None of
          Inl e \<Rightarrow> Inl e
        | Inr r \<Rightarrow>
            (case add_record r s of
               Inl e \<Rightarrow> Inl e
             | Inr s' \<Rightarrow>
                 (case hls_number (ps_sequence s + 1) of
                    Inl e \<Rightarrow> Inl e
                  | Inr n \<Rightarrow> Inr (s'\<lparr>ps_previous := Some r, ps_sequence := n, ps_part := 0, ps_range := [], ps_duration := False, ps_media := True\<rparr>)))))"

definition with_attributes :: "string \<Rightarrow> ((string \<times> string) list \<Rightarrow> parser parsed) \<Rightarrow> parser parsed" where
  "with_attributes attribute_text f = (case attributes attribute_text of Inl e \<Rightarrow> Inl e | Inr as \<Rightarrow> f as)"

definition on_sequence :: "string \<Rightarrow> string \<Rightarrow> (int \<Rightarrow> parser) \<Rightarrow> parser \<Rightarrow> parser parsed" where
  "on_sequence number_text late put s =
     (if ps_media s \<or> ps_skipped s then Inl late
      else (case hls_integer number_text of Inl e \<Rightarrow> Inl e | Inr n \<Rightarrow> Inr (put n)))"

definition playlist_line :: "playlist_context \<Rightarrow> string \<Rightarrow> parser \<Rightarrow> parser parsed" where
  "playlist_line cx line s =
     (if starts ''#EXT-X-MEDIA-SEQUENCE:'' line then on_sequence (drop 22 line) ''Late media sequence.'' (\<lambda>n. s\<lparr>ps_sequence := n\<rparr>) s
      else if starts ''#EXT-X-DISCONTINUITY-SEQUENCE:'' line
      then on_sequence (drop 30 line) ''Late discontinuity sequence.'' (\<lambda>n. s\<lparr>ps_discontinuity := n\<rparr>) s
      else if line = ''#EXT-X-DISCONTINUITY'' then Inr (s\<lparr>ps_discontinuity := ps_discontinuity s + 1\<rparr>)
      else if starts ''#EXT-X-KEY:'' line then with_attributes (drop 11 line) (\<lambda>as. on_key cx as s)
      else if starts ''#EXT-X-MAP:'' line then with_attributes (drop 11 line) (\<lambda>as. on_map cx as s)
      else if starts ''#EXT-X-SKIP:'' line then with_attributes (drop 12 line) (\<lambda>as. on_skip cx as s)
      else if starts ''#EXT-X-PART:'' line then with_attributes (drop 12 line) (\<lambda>as. on_part cx as s)
      else if starts ''#EXTINF:'' line then
        (if ps_duration s \<or> \<not> positive_number (takeWhile (\<lambda>c. c \<noteq> CHR '','') (drop 8 line)) then Inl ''Invalid segment duration.''
         else Inr (s\<lparr>ps_duration := True\<rparr>))
      else if starts ''#EXT-X-BYTERANGE:'' line then
        (if ps_range s \<noteq> [] then Inl ''Invalid byte range.'' else Inr (s\<lparr>ps_range := drop 17 line\<rparr>))
      else if \<not> starts ''#'' line then on_segment cx line s
      else Inr s)"

fun playlist_body :: "playlist_context \<Rightarrow> string list \<Rightarrow> parser \<Rightarrow> parser parsed" where
  "playlist_body cx [] s = Inr s"
| "playlist_body cx (l # ls) s = (case playlist_line cx l s of Inl e \<Rightarrow> Inl e | Inr s \<Rightarrow> playlist_body cx ls s)"

definition parse_hls_media :: "playlist_context \<Rightarrow> string \<Rightarrow> catalogue parsed" where
  "parse_hls_media cx text =
     (case playlist_lines text of
        Inl e \<Rightarrow> Inl e
      | Inr ls \<Rightarrow>
          (case playlist_body cx ls new_parser of
             Inl e \<Rightarrow> Inl e
           | Inr s \<Rightarrow>
               if ps_range s \<noteq> [] \<or> ps_duration s \<or> ps_records s = [] then Inl ''Incomplete media playlist.''
               else if list_ex (\<lambda>k. k \<in> set (ps_assets s) \<or> k = pl_path cx) (ps_keys s) then Inl ''Encryption keys cannot be media assets.''
               else Inr \<lparr>ca_records = ps_records s, ca_assets = ps_assets s, ca_keys = ps_keys s\<rparr>))"

end
