(* ===== verification/Media_Catalogue_Claims.thy ===== *)
theory Media_Catalogue_Claims
  imports Media_Catalogue
begin

text \<open>
  Parsing is well typed: whatever the text, a catalogue that is accepted names only local paths, valid ranges,
  numbers and initialisation vectors, and never a key path as an asset; and this carries over delta updates.
\<close>

definition range_ok :: "(int \<times> int) option \<Rightarrow> bool" where
  "range_ok r \<longleftrightarrow> (case r of None \<Rightarrow> True | Some (b, e) \<Rightarrow> 0 \<le> b \<and> b < e \<and> e \<le> b + max_segment \<and> safe_int e)"

definition map_ok :: "media_map \<Rightarrow> bool" where
  "map_ok m \<longleftrightarrow> local_path (mm_path m) \<and> range_ok (mm_range m)"

definition iv_ok :: "string option \<Rightarrow> bool" where
  "iv_ok v \<longleftrightarrow> (case v of None \<Rightarrow> True | Some iv \<Rightarrow> hex_string iv 32)"

definition record_ok :: "playlist_context \<Rightarrow> media_record \<Rightarrow> bool" where
  "record_ok cx r \<longleftrightarrow> local_path (mr_path r) \<and> mr_playlist r = pl_path cx \<and> mr_type r = pl_type cx
     \<and> 0 \<le> mr_sequence r \<and> safe_int (mr_sequence r) \<and> 0 \<le> mr_discontinuity r
     \<and> (case mr_part r of None \<Rightarrow> True | Some p \<Rightarrow> 0 \<le> p \<and> p < 1024) \<and> range_ok (mr_range r)
     \<and> (case mr_encryption r of None \<Rightarrow> True | Some e \<Rightarrow> local_path (en_key_path e) \<and> hex_string (en_iv e) 32)
     \<and> (case mr_map r of None \<Rightarrow> True | Some m \<Rightarrow> map_ok m) \<and> iv_ok (mr_key_iv r)"

text \<open>The paths of a record are among the assets, its key among the keys.\<close>

definition covered :: "string list \<Rightarrow> string list \<Rightarrow> media_record \<Rightarrow> bool" where
  "covered assets keys r \<longleftrightarrow> mr_path r \<in> set assets \<and> (case mr_map r of None \<Rightarrow> True | Some m \<Rightarrow> mm_path m \<in> set assets)
     \<and> (case mr_encryption r of None \<Rightarrow> True | Some e \<Rightarrow> en_key_path e \<in> set keys)"

definition catalogue_ok :: "playlist_context \<Rightarrow> catalogue \<Rightarrow> bool" where
  "catalogue_ok cx c \<longleftrightarrow> ca_records c \<noteq> [] \<and> length (ca_records c) \<le> 4096
     \<and> (\<forall>r \<in> set (ca_records c). record_ok cx r \<and> covered (ca_assets c) (ca_keys c) r)
     \<and> list_all local_path (ca_assets c) \<and> list_all local_path (ca_keys c)
     \<and> set (ca_assets c) \<inter> set (ca_keys c) = {} \<and> pl_path cx \<notin> set (ca_keys c)"

definition key_ok :: "media_key option \<Rightarrow> bool" where
  "key_ok k \<longleftrightarrow> (case k of None \<Rightarrow> True | Some k \<Rightarrow> local_path (mk_path k) \<and> iv_ok (mk_iv k))"

definition parser_ok :: "playlist_context \<Rightarrow> parser \<Rightarrow> bool" where
  "parser_ok cx s \<longleftrightarrow> length (ps_records s) \<le> 4096
     \<and> (\<forall>r \<in> set (ps_records s). record_ok cx r \<and> covered (ps_assets s) (ps_keys s) r)
     \<and> list_all local_path (ps_assets s) \<and> list_all local_path (ps_keys s)
     \<and> 0 \<le> ps_sequence s \<and> safe_int (ps_sequence s) \<and> 0 \<le> ps_discontinuity s \<and> 0 \<le> ps_part s
     \<and> (case ps_previous s of None \<Rightarrow> True | Some r \<Rightarrow> record_ok cx r) \<and> key_ok (ps_key s)
     \<and> (case ps_map s of None \<Rightarrow> True | Some m \<Rightarrow> map_ok m)"

subsection \<open>The pieces\<close>

lemma hls_number_Inr: "hls_number n = Inr m \<Longrightarrow> m = n \<and> safe_int n \<and> 0 \<le> n"
  by (simp add: hls_number_def split: if_splits)

lemma hls_integer_Inr: "hls_integer s = Inr m \<Longrightarrow> safe_int m \<and> 0 \<le> m"
  by (auto simp: hls_integer_def dest: hls_number_Inr split: if_splits)

lemma local_media_path_Inr: "local_media_path resolve uri parent = Inr p \<Longrightarrow> local_path p"
  by (auto simp: local_media_path_def split: if_splits option.splits)

lemma byte_range_Inr: "byte_range t d = Inr r \<Longrightarrow> (case d of None \<Rightarrow> True | Some n \<Rightarrow> 0 \<le> n) \<Longrightarrow> range_ok (Some r)"
  by (auto simp: byte_range_def range_ok_def Let_def split: if_splits sum.splits option.splits
      dest!: hls_number_Inr hls_integer_Inr)

lemma set_set_put [simp]: "set (set_put x xs) = insert x (set xs)"
  by (auto simp: set_put_def)

lemma list_all_set_put [simp]: "list_all P (set_put x xs) \<longleftrightarrow> P x \<and> list_all P xs"
  by (auto simp: list_all_iff)

lemma covered_mono: "covered a k r \<Longrightarrow> set a \<subseteq> set a' \<Longrightarrow> set k \<subseteq> set k' \<Longrightarrow> covered a' k' r"
  by (auto simp: covered_def split: option.splits)

lemma hex_digit_lower: "n < 16 \<Longrightarrow> lower_hex_char (hex_digit_char n)"
proof -
  have "list_all (\<lambda>n. lower_hex_char (hex_digit_char n)) [0..<16]" by code_simp
  then show "n < 16 \<Longrightarrow> lower_hex_char (hex_digit_char n)" by (simp add: list_all_iff)
qed

lemma hex_text_lower: "list_all lower_hex_char (hex_text n)"
proof (induction n rule: hex_text.induct)
  case (1 n)
  then show ?case by (subst hex_text.simps) (simp add: hex_digit_lower)
qed

lemma length_hex_text: "n < 16 ^ Suc k \<Longrightarrow> length (hex_text n) \<le> Suc k"
proof (induction k arbitrary: n)
  case 0
  then show ?case by (subst hex_text.simps) simp
next
  case (Suc k)
  then have "n div 16 < 16 ^ Suc k" by (simp add: less_mult_imp_div_less)
  then have "length (hex_text (n div 16)) \<le> Suc k" by (rule Suc.IH)
  then show ?case by (subst hex_text.simps) simp
qed

lemma sequence_iv: "0 \<le> n \<Longrightarrow> safe_int n \<Longrightarrow> hex_string (pad_start 32 (hex_text (nat n))) 32"
proof -
  assume "0 \<le> n" "safe_int n"
  then have "nat n < 16 ^ Suc 13" by (simp add: safe_int_def max_safe_def)
  then have "length (hex_text (nat n)) \<le> 14" using length_hex_text [of "nat n" 13] by simp
  then show ?thesis
    using hex_text_lower by (simp add: hex_string_def pad_start_def list_all_iff lower_hex_char_def)
qed

lemma encrypted_context_ok:
  "key_ok k \<Longrightarrow> 0 \<le> n \<Longrightarrow> safe_int n \<Longrightarrow> case encrypted_context k n of None \<Rightarrow> True | Some e \<Rightarrow> local_path (en_key_path e) \<and> hex_string (en_iv e) 32"
  by (auto simp: encrypted_context_def key_ok_def iv_ok_def sequence_iv split: option.splits)

lemma make_record_ok:
  assumes "make_record cx s uri t part = Inr r" and "parser_ok cx s" and "case part of None \<Rightarrow> True | Some p \<Rightarrow> 0 \<le> p \<and> p < 1024"
  shows "record_ok cx r"
proof -
  obtain path where path: "local_media_path (pl_resolve cx) uri (pl_path cx) = Inr path" using assms(1) by (auto simp: make_record_def split: sum.splits)
  have start: "case implicit_start path (ps_previous s) of None \<Rightarrow> True | Some n \<Rightarrow> 0 \<le> n"
  proof (cases "ps_previous s")
    case (Some p)
    then have "range_ok (mr_range p)" using assms(2) by (simp add: parser_ok_def record_ok_def)
    then show ?thesis using Some by (cases "mr_range p") (auto simp: implicit_start_def range_ok_def)
  qed (simp add: implicit_start_def)
  have "key_ok (ps_key s)" using assms(2) by (simp add: parser_ok_def)
  then have iv: "iv_ok (key_iv (ps_key s))" by (cases "ps_key s") (simp_all add: key_ok_def key_iv_def iv_ok_def)
  let ?r = "\<lambda>g. \<lparr>mr_path = path, mr_playlist = pl_path cx, mr_type = pl_type cx, mr_level = pl_level cx, mr_sequence = ps_sequence s,
     mr_discontinuity = ps_discontinuity s, mr_part = part, mr_range = g, mr_encryption = encrypted_context (ps_key s) (ps_sequence s),
     mr_map = ps_map s, mr_key_iv = key_iv (ps_key s)\<rparr>"
  obtain g where g: "r = ?r g" "range_ok g"
  proof (cases "t = []")
    case True
    then have "r = ?r None" using assms(1) by (simp add: make_record_def path)
    then show ?thesis using that [of None] by (simp add: range_ok_def)
  next
    case False
    show ?thesis
    proof (cases "byte_range t (implicit_start path (ps_previous s))")
      case (Inl e)
      then show ?thesis using assms(1) False by (simp add: make_record_def path)
    next
      case (Inr b)
      then have "r = ?r (Some b)" using assms(1) False by (simp add: make_record_def path)
      then show ?thesis using that [of "Some b"] byte_range_Inr [OF Inr start] by simp
    qed
  qed
  show ?thesis
    using assms(2,3) g iv local_media_path_Inr [OF path] encrypted_context_ok [of "ps_key s" "ps_sequence s"]
    unfolding record_ok_def parser_ok_def by simp
qed

lemma add_record_ok:
  assumes "add_record r s = Inr s'" and "parser_ok cx s" and "record_ok cx r"
  shows "parser_ok cx s' \<and> (\<exists>a k. s' = s\<lparr>ps_records := ps_records s @ [r], ps_assets := a, ps_keys := k\<rparr>)"
proof -
  let ?a = "case mr_map r of None \<Rightarrow> set_put (mr_path r) (ps_assets s) | Some m \<Rightarrow> set_put (mm_path m) (set_put (mr_path r) (ps_assets s))"
  let ?k = "case mr_encryption r of None \<Rightarrow> ps_keys s | Some e \<Rightarrow> set_put (en_key_path e) (ps_keys s)"
  have s': "s' = s\<lparr>ps_records := ps_records s @ [r], ps_assets := ?a, ps_keys := ?k\<rparr>" and len: "length (ps_records s) < 4096"
    using assms(1) by (auto simp: add_record_def Let_def max_records_def split: if_splits)
  have "covered ?a ?k r" by (auto simp: covered_def split: option.split)
  moreover have "set (ps_assets s) \<subseteq> set ?a" "set (ps_keys s) \<subseteq> set ?k" by (auto split: option.split)
  moreover have "list_all local_path ?a" "list_all local_path ?k"
    using assms(2,3) by (auto simp: parser_ok_def record_ok_def map_ok_def split: option.split)
  ultimately have "parser_ok cx s'"
    using assms(2,3) len covered_mono unfolding parser_ok_def s' by fastforce
  then show ?thesis using s' by blast
qed

subsection \<open>The lines\<close>

lemma on_key_ok: "on_key cx as s = Inr s' \<Longrightarrow> parser_ok cx s \<Longrightarrow> parser_ok cx s'"
proof -
  assume key: "on_key cx as s = Inr s'" and ok: "parser_ok cx s"
  show ?thesis
  proof (cases "attr as ''METHOD'' = ''NONE''")
    case True
    then show ?thesis using key ok by (auto simp: on_key_def parser_ok_def key_ok_def)
  next
    case False
    then obtain path where path: "local_media_path (pl_resolve cx) (attr as ''URI'') (pl_path cx) = Inr path"
      "s' = s\<lparr>ps_key := Some \<lparr>mk_path = path, mk_iv = (if attr as ''IV'' = [] then None else Some (drop 2 (map lower_char (attr as ''IV''))))\<rparr>,
         ps_keys := set_put path (ps_keys s)\<rparr>"
      and iv: "attr as ''IV'' = [] \<or> hex_iv (attr as ''IV'')"
      using key by (auto simp: on_key_def split: if_splits sum.splits)
    have "key_ok (ps_key s')"
      using local_media_path_Inr [OF path(1)] iv by (auto simp: path(2) key_ok_def iv_ok_def hex_iv_def hex_string_def)
    then show ?thesis
      using ok covered_mono [of "ps_assets s" "ps_keys s" _ "ps_assets s" "set_put path (ps_keys s)"] local_media_path_Inr [OF path(1)]
      by (auto simp: path(2) parser_ok_def)
  qed
qed

lemma on_map_ok: "on_map cx as s = Inr s' \<Longrightarrow> parser_ok cx s \<Longrightarrow> parser_ok cx s'"
proof -
  assume map: "on_map cx as s = Inr s'" and ok: "parser_ok cx s"
  obtain path where path: "local_media_path (pl_resolve cx) (attr as ''URI'') (pl_path cx) = Inr path" using map by (auto simp: on_map_def split: sum.splits)
  have no_start: "case None :: int option of None \<Rightarrow> True | Some n \<Rightarrow> 0 \<le> n" by simp
  have "\<exists>g. range_ok g \<and> s' = s\<lparr>ps_map := Some \<lparr>mm_path = path, mm_range = g\<rparr>, ps_assets := set_put path (ps_assets s)\<rparr>"
  proof (cases "attr as ''BYTERANGE'' = []")
    case True
    then show ?thesis using map by (intro exI [of _ None]) (auto simp: on_map_def path range_ok_def split: if_splits)
  next
    case False
    show ?thesis
    proof (cases "byte_range (attr as ''BYTERANGE'') None")
      case (Inl e)
      then show ?thesis using map False by (simp add: on_map_def path split: if_splits)
    next
      case (Inr b)
      then show ?thesis using map False byte_range_Inr [OF Inr no_start] by (auto simp: on_map_def path split: if_splits)
    qed
  qed
  then show ?thesis
    using ok local_media_path_Inr [OF path] covered_mono [OF _ subset_insertI [of "set (ps_assets s)" path, folded set_set_put] subset_refl]
    by (auto simp: parser_ok_def map_ok_def)
qed

lemma add_all_ok: "add_all rs s = Inr s' \<Longrightarrow> parser_ok cx s \<Longrightarrow> \<forall>r \<in> set rs. record_ok cx r \<Longrightarrow> parser_ok cx s'"
  by (induction rs arbitrary: s) (auto split: sum.splits dest!: add_record_ok)

lemma restore_ok:
  "restore known n sn found s = Inr (r, s') \<Longrightarrow> parser_ok cx s \<Longrightarrow> \<forall>r \<in> set known. record_ok cx r
    \<Longrightarrow> (case found of None \<Rightarrow> True | Some f \<Rightarrow> record_ok cx f) \<Longrightarrow> parser_ok cx s' \<and> (case r of None \<Rightarrow> True | Some f \<Rightarrow> record_ok cx f)"
proof (induction n arbitrary: sn found s)
  case (Suc n)
  obtain f s1 where f: "find (\<lambda>r. mr_part r = None) (filter (\<lambda>r. mr_sequence r = sn) known) = Some f"
    "add_all (filter (\<lambda>r. mr_sequence r = sn) known) s = Inr s1" "restore known n (sn + 1) (Some f) s1 = Inr (r, s')"
    using Suc.prems(1) by (auto simp: Let_def split: option.splits sum.splits)
  have "record_ok cx f" using f(1) Suc.prems(3) by (auto simp: find_Some_iff dest!: nth_mem)
  moreover have "parser_ok cx s1" using add_all_ok [OF f(2) Suc.prems(2)] Suc.prems(3) by simp
  ultimately show ?case using Suc.IH [OF f(3)] Suc.prems(3) by simp
qed simp

lemma on_skip_ok:
  assumes "on_skip cx as s = Inr s'" and "parser_ok cx s" and "\<forall>c. pl_previous cx = Some c \<longrightarrow> catalogue_ok cx c"
  shows "parser_ok cx s'"
proof -
  obtain count known stop r s1 where k: "pl_previous cx = Some known" "hls_number (ps_sequence s + count) = Inr stop"
    "restore (ca_records known) (nat count) (ps_sequence s) None s = Inr (Some r, s1)"
    "s' = resume_after r s1 \<lparr>ps_sequence := stop, ps_skipped := True\<rparr>"
    using assms(1) by (auto simp: on_skip_def split: if_splits sum.splits option.splits)
  have "parser_ok cx s1 \<and> record_ok cx r"
    using restore_ok [OF k(3) assms(2)] assms(3) k(1) by (auto simp: catalogue_ok_def)
  then show ?thesis
    using hls_number_Inr [OF k(2)]
    by (auto simp: k(4) resume_after_def parser_ok_def record_ok_def key_ok_def split: option.splits)
qed

lemma on_part_ok: "on_part cx as s = Inr s' \<Longrightarrow> parser_ok cx s \<Longrightarrow> parser_ok cx s'"
proof -
  assume part: "on_part cx as s = Inr s'" and ok: "parser_ok cx s"
  show ?thesis
  proof (cases "attr as ''GAP'' = ''YES''")
    case True
    then show ?thesis using part ok by (auto simp: on_part_def parser_ok_def split: if_splits)
  next
    case False
    then obtain r s1 where r: "make_record cx s (attr as ''URI'') (attr as ''BYTERANGE'') (Some (ps_part s)) = Inr r" "add_record r s = Inr s1"
      "ps_part s + 1 \<le> 1024" "s' = s1\<lparr>ps_part := ps_part s + 1, ps_previous := Some r, ps_media := True\<rparr>"
      using part by (auto simp: on_part_def split: if_splits sum.splits)
    have rec: "record_ok cx r" using make_record_ok [OF r(1) ok] r(3) ok by (simp add: parser_ok_def)
    show ?thesis using add_record_ok [OF r(2) ok rec] rec ok by (auto simp: r(4) parser_ok_def)
  qed
qed

lemma on_segment_ok: "on_segment cx line s = Inr s' \<Longrightarrow> parser_ok cx s \<Longrightarrow> parser_ok cx s'"
proof -
  assume seg: "on_segment cx line s = Inr s'" and ok: "parser_ok cx s"
  then obtain r s1 n where r: "make_record cx s line (ps_range s) None = Inr r" "add_record r s = Inr s1" "hls_number (ps_sequence s + 1) = Inr n"
    "s' = s1\<lparr>ps_previous := Some r, ps_sequence := n, ps_part := 0, ps_range := [], ps_duration := False, ps_media := True\<rparr>"
    by (auto simp: on_segment_def split: if_splits sum.splits)
  have rec: "record_ok cx r" using make_record_ok [OF r(1) ok] by simp
  show ?thesis using add_record_ok [OF r(2) ok rec] rec hls_number_Inr [OF r(3)] by (auto simp: r(4) parser_ok_def)
qed

lemma with_attributes_Inr: "with_attributes t f = Inr s' \<Longrightarrow> \<exists>as. f as = Inr s'"
  by (auto simp: with_attributes_def split: sum.splits)

lemma on_sequence_Inr: "on_sequence t late put s = Inr s' \<Longrightarrow> \<exists>n. safe_int n \<and> 0 \<le> n \<and> s' = put n"
  by (auto simp: on_sequence_def split: if_splits sum.splits dest: hls_integer_Inr)

lemma playlist_line_cases:
  assumes "playlist_line cx l s = Inr s'"
  shows "(\<exists>n. safe_int n \<and> 0 \<le> n \<and> s' = s\<lparr>ps_sequence := n\<rparr>) \<or> (\<exists>n. 0 \<le> n \<and> s' = s\<lparr>ps_discontinuity := n\<rparr>)
    \<or> s' = s\<lparr>ps_discontinuity := ps_discontinuity s + 1\<rparr> \<or> (\<exists>as. on_key cx as s = Inr s') \<or> (\<exists>as. on_map cx as s = Inr s')
    \<or> (\<exists>as. on_skip cx as s = Inr s') \<or> (\<exists>as. on_part cx as s = Inr s') \<or> s' = s\<lparr>ps_duration := True\<rparr>
    \<or> (\<exists>t. s' = s\<lparr>ps_range := t\<rparr>) \<or> on_segment cx l s = Inr s' \<or> s' = s"
  using assms unfolding playlist_line_def
  by (simp split: if_split_asm) (blast dest: with_attributes_Inr on_sequence_Inr)+

lemma playlist_line_ok:
  assumes "playlist_line cx l s = Inr s'" and "parser_ok cx s" and "\<forall>c. pl_previous cx = Some c \<longrightarrow> catalogue_ok cx c"
  shows "parser_ok cx s'"
proof -
  have fields: "parser_ok cx (s\<lparr>ps_sequence := n\<rparr>)" if "safe_int n" "0 \<le> n" for n using assms(2) that by (simp add: parser_ok_def)
  have others: "parser_ok cx (s\<lparr>ps_discontinuity := n\<rparr>)" if "0 \<le> n" for n using assms(2) that by (simp add: parser_ok_def)
  have more: "parser_ok cx (s\<lparr>ps_discontinuity := ps_discontinuity s + 1\<rparr>)" "parser_ok cx (s\<lparr>ps_duration := True\<rparr>)" "parser_ok cx (s\<lparr>ps_range := t\<rparr>)" for t
    using assms(2) by (simp_all add: parser_ok_def)
  show ?thesis
    using playlist_line_cases [OF assms(1)] fields others more assms(2) on_key_ok [OF _ assms(2)] on_map_ok [OF _ assms(2)] on_skip_ok [OF _ assms(2,3)]
      on_part_ok [OF _ assms(2)] on_segment_ok [OF _ assms(2)]
    by blast
qed

lemma playlist_body_ok:
  "playlist_body cx ls s = Inr s' \<Longrightarrow> parser_ok cx s \<Longrightarrow> \<forall>c. pl_previous cx = Some c \<longrightarrow> catalogue_ok cx c \<Longrightarrow> parser_ok cx s'"
  by (induction ls arbitrary: s) (auto split: sum.splits dest: playlist_line_ok)

text \<open>
  C40: parsing is well typed. Whatever the text of a playlist and however URLs resolve, an accepted catalogue
  has between 1 and 4096 records; its paths are local; numbers are safe and not negative, part numbers below
  1024, ranges not empty and at most 16 MiB, initialisation vectors 32 hexadecimal digits; every path and key
  of a record is listed; and no key path is an asset or the playlist itself. The previous catalogue that a
  delta update restores from must be well typed too.
\<close>

theorem catalogue_well_typed:
  assumes "parse_hls_media cx playlist_text = Inr c" and "\<forall>known. pl_previous cx = Some known \<longrightarrow> catalogue_ok cx known"
  shows "catalogue_ok cx c"
proof -
  obtain ls s where s: "playlist_body cx ls new_parser = Inr s" "ps_records s \<noteq> []" "\<not> list_ex (\<lambda>k. k \<in> set (ps_assets s) \<or> k = pl_path cx) (ps_keys s)"
    "c = \<lparr>ca_records = ps_records s, ca_assets = ps_assets s, ca_keys = ps_keys s\<rparr>"
    using assms(1) by (auto simp: parse_hls_media_def split: sum.splits if_splits)
  have "parser_ok cx new_parser" by (simp add: parser_ok_def new_parser_def key_ok_def safe_int_def max_safe_def)
  then have "parser_ok cx s" using playlist_body_ok [OF s(1)] assms(2) by blast
  then show ?thesis
    using s(2,3) by (auto simp: s(4) catalogue_ok_def parser_ok_def list_ex_iff)
qed

definition ex_playlist_context :: "catalogue option \<Rightarrow> playlist_context" where
  "ex_playlist_context known = \<lparr>pl_path = ''/media/a.m3u8'', pl_level = 0, pl_type = ''main'', pl_allow_encrypted = False, pl_previous = known,
     pl_resolve = (\<lambda>uri parent. Some (''/media/'' @ uri))\<rparr>"

definition ex_record :: "int \<Rightarrow> string \<Rightarrow> media_record" where
  "ex_record n path = \<lparr>mr_path = path, mr_playlist = ''/media/a.m3u8'', mr_type = ''main'', mr_level = 0, mr_sequence = n, mr_discontinuity = 0,
     mr_part = None, mr_range = None, mr_encryption = None, mr_map = None, mr_key_iv = None\<rparr>"

definition ex_catalogue :: catalogue where
  "ex_catalogue = \<lparr>ca_records = [ex_record 7 ''/media/7.ts''], ca_assets = [''/media/7.ts''], ca_keys = []\<rparr>"

definition newline :: string where "newline = [CHR 0x0A]"

definition ex_playlist :: string where
  "ex_playlist = ''#EXTM3U'' @ newline @ ''#EXT-X-MEDIA-SEQUENCE:7'' @ newline @ ''#EXT-X-SKIP:SKIPPED-SEGMENTS=1'' @ newline @ ''#EXTINF:2,'' @ newline @ ''8.ts''"

lemma split_on_chunk: "d \<notin> set xs \<Longrightarrow> split_on d (xs @ d # ys) = xs # split_on d ys"
  by (induction xs) auto

lemma split_on_whole: "d \<notin> set xs \<Longrightarrow> split_on d xs = [xs]"
  by (induction xs) auto

lemma trim_plain: "\<not> blank (hd s) \<Longrightarrow> \<not> blank (last s) \<Longrightarrow> s \<noteq> [] \<Longrightarrow> trim s = s"
proof -
  assume plain: "\<not> blank (hd s)" "\<not> blank (last s)" "s \<noteq> []"
  then have "dropWhile blank s = s" by (cases s) auto
  moreover have "dropWhile blank (rev s) = rev s" using plain by (cases s rule: rev_cases) auto
  ultimately show ?thesis by (simp add: trim_def)
qed

lemma ex_lines: "playlist_lines ex_playlist
    = Inr [''#EXTM3U'', ''#EXT-X-MEDIA-SEQUENCE:7'', ''#EXT-X-SKIP:SKIPPED-SEGMENTS=1'', ''#EXTINF:2,'', ''8.ts'']"
proof -
  have "split_on (CHR 0x0A) ex_playlist = [''#EXTM3U'', ''#EXT-X-MEDIA-SEQUENCE:7'', ''#EXT-X-SKIP:SKIPPED-SEGMENTS=1'', ''#EXTINF:2,'', ''8.ts'']"
    unfolding ex_playlist_def newline_def append_Cons [of _ "[]"] append_Nil
    by (subst split_on_chunk, simp, subst split_on_chunk, simp, subst split_on_chunk, simp, subst split_on_chunk, simp, subst split_on_whole, simp, rule refl)
  moreover have "starts ''#EXTM3U'' ex_playlist" by (simp add: starts_def ex_playlist_def)
  ultimately show ?thesis by (simp add: playlist_lines_def trim_plain blank_def)
qed

lemma ex_numbers: "hls_integer ''7'' = Inr 7" "hls_integer ''1'' = Inr 1" "positive_number ''2''"
proof -
  show "hls_integer ''7'' = Inr 7" "hls_integer ''1'' = Inr 1"
    by (simp_all add: hls_integer_def hls_number_def digits_value_def digit_def digit_value_def safe_int_def max_safe_def)
  have "trim ''2'' = ''2''" by (simp add: trim_plain blank_def)
  then show "positive_number ''2''"
    by (simp add: positive_number_def number_literal_def radix_literal_def decimal_literal_def starts_def lower_char_def digit_def digits_value_def digit_value_def parse_exponent_def power_above_def)
qed

lemma ex_attributes: "attributes ''SKIPPED-SEGMENTS=1'' = Inr [(''SKIPPED-SEGMENTS'', ''1'')]"
  by (simp add: attributes_def attributes_from.simps attribute_match_def name_char_def attribute_value_def starts_def strip_quotes_def jhas_def)

lemma ex_parsed: "parse_hls_media (ex_playlist_context (Some ex_catalogue)) ex_playlist
    = Inr \<lparr>ca_records = [ex_record 7 ''/media/7.ts'', ex_record 8 ''/media/8.ts''], ca_assets = [''/media/7.ts'', ''/media/8.ts''], ca_keys = []\<rparr>"
proof -
  let ?cx = "ex_playlist_context (Some ex_catalogue)"
  let ?s1 = "new_parser\<lparr>ps_sequence := 7\<rparr>"
  let ?s2 = "new_parser\<lparr>ps_records := [ex_record 7 ''/media/7.ts''], ps_assets := [''/media/7.ts''], ps_sequence := 8, ps_skipped := True,
    ps_previous := Some (ex_record 7 ''/media/7.ts'')\<rparr>"
  have "playlist_line ?cx ''#EXTM3U'' new_parser = Inr new_parser" by (simp add: playlist_line_def starts_def)
  moreover have "playlist_line ?cx ''#EXT-X-MEDIA-SEQUENCE:7'' new_parser = Inr ?s1"
    by (simp add: playlist_line_def starts_def on_sequence_def ex_numbers new_parser_def)
  moreover have "playlist_line ?cx ''#EXT-X-SKIP:SKIPPED-SEGMENTS=1'' ?s1 = Inr ?s2"
    by (simp add: playlist_line_def starts_def with_attributes_def ex_attributes on_skip_def attr_def jget_Cons ex_numbers ex_playlist_context_def new_parser_def max_records_def hls_number_def
        safe_int_def max_safe_def ex_catalogue_def ex_record_def add_record_def set_put_def resume_after_def)
  moreover have "playlist_line ?cx ''#EXTINF:2,'' ?s2 = Inr (?s2\<lparr>ps_duration := True\<rparr>)"
    by (simp add: playlist_line_def starts_def ex_numbers new_parser_def)
  moreover have "playlist_line ?cx ''8.ts'' (?s2\<lparr>ps_duration := True\<rparr>)
      = Inr (?s2\<lparr>ps_records := [ex_record 7 ''/media/7.ts'', ex_record 8 ''/media/8.ts''], ps_assets := [''/media/7.ts'', ''/media/8.ts''],
          ps_sequence := 9, ps_previous := Some (ex_record 8 ''/media/8.ts''), ps_media := True\<rparr>)"
    by (simp add: playlist_line_def starts_def on_segment_def make_record_def local_media_path_def blank_def has_scheme_def alpha_def local_path_def media_char_def
        ex_playlist_context_def new_parser_def max_records_def hls_number_def safe_int_def max_safe_def ex_record_def add_record_def set_put_def encrypted_context_def key_iv_def)
  ultimately show ?thesis by (simp add: parse_hls_media_def ex_lines new_parser_def)
qed

theorem catalogue_well_typed_witness:
  "catalogue_ok (ex_playlist_context (Some ex_catalogue))
     \<lparr>ca_records = [ex_record 7 ''/media/7.ts'', ex_record 8 ''/media/8.ts''], ca_assets = [''/media/7.ts'', ''/media/8.ts''], ca_keys = []\<rparr>"
proof -
  have "catalogue_ok (ex_playlist_context (Some ex_catalogue)) ex_catalogue"
    by (simp add: catalogue_ok_def ex_catalogue_def ex_playlist_context_def record_ok_def ex_record_def local_path_def starts_def media_char_def safe_int_def max_safe_def
        range_ok_def iv_ok_def covered_def)
  then show ?thesis
    by (intro catalogue_well_typed [OF ex_parsed]) (simp add: ex_playlist_context_def)
qed

end
