(* ===== verification/Peer_Selection.thy ===== *)
theory Peer_Selection
  imports Js_Prelude Complex_Main
begin

text \<open>
  Which neighbour is asked for a segment: \<open>PeerSelection\<close> of \<open>src/browser/peer-selection.mjs\<close>, and the samples
  that pieces of one transfer give it, \<open>VerifiedPieceFlow\<close> of \<open>src/browser/verified-piece-flow.mjs\<close>.

  Times and rates are rational numbers: doubles without their rounding.  A link is known by its number, and the
  \<open>WeakMap\<close> of observations is a map from numbers; a size that is missing is 0, as both are falsy.
\<close>

record summary =
  su_attempts :: nat
  su_latency :: "rat option"
  su_throughput :: "rat option"
  su_failure_rate :: rat
  su_failures :: nat
  su_last_selected :: nat

record selection =
  sn_observations :: "(nat \<times> summary) list"
  sn_turn :: nat
  sn_order :: nat
  sn_completions :: "(nat \<times> rat) list"
  sn_first_bytes :: "rat list"
  sn_rates :: "(rat \<times> rat) list"
  sn_observed_at :: int

text \<open>What the choice reads of a link.\<close>

record candidate =
  cl_id :: nat
  cl_pubkey :: string
  cl_closed :: bool
  cl_busy :: bool
  cl_have :: "string list"

definition new_selection :: selection where
  "new_selection = \<lparr>sn_observations = [], sn_turn = 0, sn_order = 0, sn_completions = [], sn_first_bytes = [], sn_rates = [], sn_observed_at = 0\<rparr>"

subsection \<open>Recent observations\<close>

definition quantile :: "rat list \<Rightarrow> rat \<Rightarrow> rat option" where
  "quantile values fraction =
     (if values = [] then None
      else Some (sort values ! min (length values - 1) (nat \<lfloor>of_nat (length values) * fraction\<rfloor>)))"

definition push_recent :: "'a \<Rightarrow> 'a list \<Rightarrow> 'a list" where
  "push_recent x xs = (let ys = xs @ [x] in if length ys > 16 then tl ys else ys)"

definition observe :: "int \<Rightarrow> rat option \<Rightarrow> nat \<Rightarrow> rat \<Rightarrow> rat \<Rightarrow> selection \<Rightarrow> selection" where
  "observe at_ms first_byte bytes flow total_flow s =
     (let s = (case first_byte of None \<Rightarrow> s
               | Some f \<Rightarrow> if 0 \<le> f then s\<lparr>sn_first_bytes := push_recent (min 60000 f) (sn_first_bytes s)\<rparr> else s) in
      if bytes \<ge> 32768 \<and> flow \<ge> 300
      then s\<lparr>sn_rates := push_recent (min 1000000 (of_nat bytes / flow), max flow total_flow) (sn_rates s), sn_observed_at := at_ms\<rparr>
      else s)"

definition first_byte_ms :: "selection \<Rightarrow> rat option" where
  "first_byte_ms s = quantile (sn_first_bytes s) (1 / 2)"

definition rate :: "selection \<Rightarrow> rat option" where
  "rate s =
     (let long = (case first_byte_ms s of None \<Rightarrow> [] | Some f \<Rightarrow> filter (\<lambda>(r, flow). flow \<ge> f * 3) (sn_rates s)) in
      quantile (map fst (if length long \<ge> 2 then long else sn_rates s)) (3 / 4))"

definition minimum_ms :: "nat \<Rightarrow> selection \<Rightarrow> rat" where
  "minimum_ms wanted s =
     (if wanted = 0 then 0
      else (let fastest = fold (\<lambda>(bytes, r) fastest. if bytes \<ge> wanted \<and> r > fastest then r else fastest) (sn_completions s) 0 in
        if fastest = 0 then 0 else of_nat wanted / fastest))"

definition project_ms :: "nat \<Rightarrow> selection \<Rightarrow> rat option" where
  "project_ms wanted s =
     (if wanted = 0 then None
      else (let projections = filter (\<lambda>t. t \<noteq> 0) [minimum_ms wanted s,
                  (case (first_byte_ms s, rate s) of (Some f, Some r) \<Rightarrow> if r = 0 then 0 else f + of_nat wanted / r | _ \<Rightarrow> 0)] in
        if projections = [] then None else Some (Min (set projections))))"

subsection \<open>The choice\<close>

definition no_summary :: summary where
  "no_summary = \<lparr>su_attempts = 0, su_latency = None, su_throughput = None, su_failure_rate = 0, su_failures = 0, su_last_selected = 0\<rparr>"

definition summary_of :: "selection \<Rightarrow> nat \<Rightarrow> summary" where
  "summary_of s l = (case jget (sn_observations s) l of None \<Rightarrow> no_summary | Some v \<Rightarrow> v)"

definition estimate :: "selection \<Rightarrow> nat \<Rightarrow> nat \<Rightarrow> rat option" where
  "estimate s l wanted =
     (case su_latency (summary_of s l) of
        None \<Rightarrow> None
      | Some latency \<Rightarrow>
          Some (max latency (case su_throughput (summary_of s l) of None \<Rightarrow> 0
            | Some r \<Rightarrow> if wanted = 0 \<or> r = 0 then 0 else of_nat wanted * 1000 / r)))"

text \<open>A deadline of \<open>None\<close> is \<open>Infinity\<close>.\<close>

definition fits :: "selection \<Rightarrow> nat \<Rightarrow> nat \<Rightarrow> rat option \<Rightarrow> bool" where
  "fits s l wanted deadline =
     (case (estimate s l wanted, deadline) of (Some t, Some d) \<Rightarrow> t * (5 / 4) + 25 \<le> d | _ \<Rightarrow> True)"

definition eligible_links :: "selection \<Rightarrow> candidate list \<Rightarrow> string \<Rightarrow> string list \<Rightarrow> nat \<Rightarrow> rat option \<Rightarrow> candidate list" where
  "eligible_links s links key tried wanted deadline =
     filter (\<lambda>l. \<not> cl_closed l \<and> \<not> cl_busy l \<and> cl_pubkey l \<notin> set tried \<and> key \<in> set (cl_have l) \<and> fits s (cl_id l) wanted deadline) links"

definition cold_link :: "selection \<Rightarrow> candidate \<Rightarrow> bool" where
  "cold_link s l \<longleftrightarrow> su_attempts (summary_of s (cl_id l)) = 0"

definition healthy_link :: "selection \<Rightarrow> candidate \<Rightarrow> bool" where
  "healthy_link s l \<longleftrightarrow> \<not> cold_link s l \<and> su_failures (summary_of s (cl_id l)) = 0"

definition explores :: "selection \<Rightarrow> candidate list \<Rightarrow> rat option \<Rightarrow> bool" where
  "explores s eligible deadline \<longleftrightarrow> list_ex (cold_link s) eligible
     \<and> (\<not> list_ex (healthy_link s) eligible \<or> (sn_turn s = 0 \<and> (case deadline of None \<Rightarrow> True | Some d \<Rightarrow> d \<ge> 100)))"

definition select_candidates :: "selection \<Rightarrow> candidate list \<Rightarrow> rat option \<Rightarrow> candidate list" where
  "select_candidates s eligible deadline =
     (if explores s eligible deadline then filter (cold_link s) eligible
      else if list_ex (healthy_link s) eligible then filter (healthy_link s) eligible
      else filter (\<lambda>l. \<not> cold_link s l) eligible)"

definition link_score :: "selection \<Rightarrow> bool \<Rightarrow> nat \<Rightarrow> candidate \<Rightarrow> rat" where
  "link_score s explore wanted l =
     (if explore then of_nat (su_last_selected (summary_of s (cl_id l)))
      else (case estimate s (cl_id l) wanted of None \<Rightarrow> 1000 | Some t \<Rightarrow> t) * (1 + su_failure_rate (summary_of s (cl_id l)) * 4))"

text \<open>\<open>candidates.reduce\<close>: the first of the lowest scores.\<close>

fun best_by :: "('a \<Rightarrow> rat) \<Rightarrow> 'a \<Rightarrow> 'a list \<Rightarrow> 'a" where
  "best_by score b [] = b"
| "best_by score b (x # xs) = best_by score (if score x < score b then x else b) xs"

definition mark_selected :: "nat \<Rightarrow> selection \<Rightarrow> selection" where
  "mark_selected l s = s\<lparr>sn_order := sn_order s + 1,
     sn_observations := jset l ((summary_of s l)\<lparr>su_last_selected := sn_order s + 1\<rparr>) (sn_observations s)\<rparr>"

definition select_link ::
  "candidate list \<Rightarrow> string \<Rightarrow> string list \<Rightarrow> nat \<Rightarrow> rat option \<Rightarrow> selection \<Rightarrow> candidate option \<times> selection" where
  "select_link links key tried wanted deadline s =
     (let eligible = eligible_links s links key tried wanted deadline in
      if eligible = [] then (None, s)
      else (let explore = explores s eligible deadline; candidates = select_candidates s eligible deadline;
                selected = best_by (link_score s explore wanted) (hd candidates) (tl candidates)
            in (Some selected, mark_selected (cl_id selected) (s\<lparr>sn_turn := (sn_turn s + 1) mod 4\<rparr>))))"

definition forget_link :: "nat \<Rightarrow> selection \<Rightarrow> selection" where
  "forget_link l s = s\<lparr>sn_observations := jdel l (sn_observations s)\<rparr>"

definition blend :: "rat option \<Rightarrow> rat \<Rightarrow> rat" where
  "blend previous new = (case previous of None \<Rightarrow> new | Some p \<Rightarrow> p * (3 / 4) + new / 4)"

definition record_attempt :: "int \<Rightarrow> nat \<Rightarrow> rat \<Rightarrow> nat \<Rightarrow> selection \<Rightarrow> selection" where
  "record_attempt at_ms l elapsed_ms bytes s =
     (let v = summary_of s l; elapsed = min 60000 (max 1 elapsed_ms);
          v = v\<lparr>su_attempts := min 32 (su_attempts v + 1), su_failure_rate := su_failure_rate v * (3 / 4) + (if bytes = 0 then 1 / 4 else 0),
                su_failures := (if bytes = 0 then min 32 (su_failures v + 1) else 0)\<rparr> in
      if bytes = 0 then s\<lparr>sn_observations := jset l v (sn_observations s)\<rparr>
      else s\<lparr>sn_completions := push_recent (bytes, min 1000000 (of_nat bytes / elapsed)) (sn_completions s), sn_observed_at := at_ms,
             sn_observations := jset l (v\<lparr>su_latency := Some (blend (su_latency v) elapsed),
               su_throughput := Some (blend (su_throughput v) (min 1000000000 (of_nat bytes * 1000 / elapsed)))\<rparr>) (sn_observations s)\<rparr>)"

subsection \<open>Verified pieces of one transfer\<close>

text \<open>An instant that is not finite is \<open>None\<close>; so is the \<open>-Infinity\<close> that \<open>#afterAt\<close> starts with.\<close>

record piece_flow =
  pf_bytes :: int
  pf_start :: "rat option"
  pf_after :: "rat option"

definition new_flow :: piece_flow where
  "new_flow = \<lparr>pf_bytes = 0, pf_start = None, pf_after = None\<rparr>"

definition flow_discard :: "rat option \<Rightarrow> piece_flow \<Rightarrow> piece_flow" where
  "flow_discard at_ms f = f\<lparr>pf_bytes := 0, pf_start := None,
     pf_after := (case at_ms of None \<Rightarrow> pf_after f | Some t \<Rightarrow> Some (case pf_after f of None \<Rightarrow> t | Some a \<Rightarrow> max a t))\<rparr>"

definition piece_valid :: "int \<Rightarrow> rat option \<Rightarrow> rat option \<Rightarrow> piece_flow \<Rightarrow> bool" where
  "piece_valid fresh start stop f =
     (case (start, stop) of
        (Some b, Some e) \<Rightarrow> safe_int fresh \<and> 0 \<le> fresh \<and> safe_int (pf_bytes f + fresh) \<and> 0 \<le> b \<and> b \<le> e
          \<and> (case pf_after f of None \<Rightarrow> True | Some a \<Rightarrow> a \<le> b)
      | _ \<Rightarrow> False)"

text \<open>A sample has its bytes and its duration.\<close>

definition flow_record :: "int \<Rightarrow> rat option \<Rightarrow> rat option \<Rightarrow> piece_flow \<Rightarrow> (int \<times> rat) option \<times> piece_flow" where
  "flow_record fresh start stop f =
     (if fresh = 0 then (None, f)
      else if \<not> piece_valid fresh start stop f then (None, flow_discard stop f)
      else (let from_ms = (case pf_start f of None \<Rightarrow> the start | Some b \<Rightarrow> min b (the start)); bytes = pf_bytes f + fresh;
                flow = the stop - from_ms; f = f\<lparr>pf_start := Some from_ms, pf_bytes := bytes\<rparr> in
        if flow < 300 \<or> bytes < 32768 then (None, f) else (Some (bytes, flow), flow_discard stop f)))"

definition flow_flush :: "rat option \<Rightarrow> piece_flow \<Rightarrow> (int \<times> rat) option \<times> piece_flow" where
  "flow_flush stop f =
     ((case (pf_start f, stop) of
         (Some b, Some e) \<Rightarrow> if pf_bytes f = 0 \<or> e < b \<or> e - b < 300 \<or> pf_bytes f < 32768 then None else Some (pf_bytes f, e - b)
       | _ \<Rightarrow> None), flow_discard stop f)"

end
