(* ===== verification/Peer_Selection_Claims.thy ===== *)
theory Peer_Selection_Claims
  imports Peer_Selection
begin

text \<open>
  The choice takes an eligible link, prefers healthy ones and explores exactly one time in four; its measurements
  stay bounded; and the samples of a transfer never count a byte or an instant twice.
\<close>

subsection \<open>The choice\<close>

lemma best_by_in: "best_by f b xs \<in> insert b (set xs)"
  by (induction xs arbitrary: b) auto

lemma best_by_le: "x \<in> insert b (set xs) \<Longrightarrow> f (best_by f b xs) \<le> f x"
proof (induction xs arbitrary: b x)
  case (Cons y ys)
  let ?b = "if f y < f b then y else b"
  have least: "f (best_by f ?b ys) \<le> f z" if "z \<in> insert ?b (set ys)" for z using Cons.IH [OF that] .
  have low: "f (best_by f ?b ys) \<le> f ?b" using least by blast
  have "f ?b \<le> f y" "f ?b \<le> f b" by simp_all
  then have "f (best_by f ?b ys) \<le> f y" "f (best_by f ?b ys) \<le> f b" using low order_trans by blast+
  moreover have "f (best_by f ?b ys) \<le> f x" if "x \<in> set ys" using least that by blast
  ultimately show ?case using Cons.prems by auto
qed simp

lemma candidates_some: "eligible \<noteq> [] \<Longrightarrow> select_candidates s eligible deadline \<noteq> []"
proof -
  assume "eligible \<noteq> []"
  then have some: "filter (\<lambda>l. \<not> P l) eligible \<noteq> []" if "\<not> list_ex P eligible" for P :: "candidate \<Rightarrow> bool"
    using that by (cases eligible) auto
  have some': "filter P eligible \<noteq> []" if "list_ex P eligible" for P :: "candidate \<Rightarrow> bool"
    using that by (auto simp: list_ex_iff filter_empty_conv)
  show ?thesis
  proof (cases "explores s eligible deadline")
    case True
    then have "list_ex (cold_link s) eligible" by (simp add: explores_def)
    then show ?thesis using True some' by (simp add: select_candidates_def)
  next
    case False
    then have "list_ex (healthy_link s) eligible \<or> \<not> list_ex (cold_link s) eligible" by (auto simp: explores_def)
    then show ?thesis
      using False some [of "cold_link s"] some' [of "healthy_link s"] by (cases "list_ex (healthy_link s) eligible") (simp_all add: select_candidates_def)
  qed
qed

lemma candidates_eligible: "l \<in> set (select_candidates s eligible deadline) \<Longrightarrow> l \<in> set eligible"
  by (auto simp: select_candidates_def split: if_splits)

lemma select_cases:
  assumes "select_link links key tried wanted deadline s = (r, s')"
  obtains (none) "eligible_links s links key tried wanted deadline = []" "r = None" "s' = s"
  | (chosen) l where "r = Some l" "l \<in> set (select_candidates s (eligible_links s links key tried wanted deadline) deadline)"
      "eligible_links s links key tried wanted deadline \<noteq> []"
      "s' = mark_selected (cl_id l) (s\<lparr>sn_turn := (sn_turn s + 1) mod 4\<rparr>)"
      "\<And>x. x \<in> set (select_candidates s (eligible_links s links key tried wanted deadline) deadline)
        \<Longrightarrow> link_score s (explores s (eligible_links s links key tried wanted deadline) deadline) wanted l
          \<le> link_score s (explores s (eligible_links s links key tried wanted deadline) deadline) wanted x"
proof (cases "eligible_links s links key tried wanted deadline = []")
  case True
  then show ?thesis using none assms by (simp add: select_link_def)
next
  case False
  let ?e = "eligible_links s links key tried wanted deadline"
  let ?c = "select_candidates s ?e deadline" and ?f = "link_score s (explores s ?e deadline) wanted"
  let ?l = "best_by ?f (hd ?c) (tl ?c)"
  have c: "insert (hd ?c) (set (tl ?c)) = set ?c" using candidates_some [OF False] by (cases ?c) auto
  show ?thesis
  proof (rule chosen)
    show "r = Some ?l" "s' = mark_selected (cl_id ?l) (s\<lparr>sn_turn := (sn_turn s + 1) mod 4\<rparr>)"
      using assms False by (simp_all add: select_link_def Let_def)
    show "?l \<in> set ?c" using best_by_in [of ?f "hd ?c" "tl ?c"] unfolding c .
    show "?f ?l \<le> ?f x" if "x \<in> set ?c" for x using best_by_le [of x "hd ?c" "tl ?c" ?f] that unfolding c .
  qed (rule False)
qed

lemma select_link_sound:
  assumes "select_link links key tried wanted deadline s = (Some l, s')"
  shows "l \<in> set links \<and> \<not> cl_closed l \<and> \<not> cl_busy l \<and> cl_pubkey l \<notin> set tried \<and> key \<in> set (cl_have l) \<and> fits s (cl_id l) wanted deadline
    \<and> (list_ex (healthy_link s) (eligible_links s links key tried wanted deadline) \<longrightarrow> cold_link s l \<or> healthy_link s l)"
  using assms
proof (cases rule: select_cases)
  case (chosen l')
  moreover have "l' \<in> set (eligible_links s links key tried wanted deadline)" using candidates_eligible chosen(2) .
  ultimately show ?thesis
    by (auto simp: eligible_links_def select_candidates_def split: if_splits)
qed simp

subsection \<open>Exploration\<close>

datatype selection_op =
    Select "candidate list" string "string list" nat "rat option"
  | Mark nat
  | Forget nat
  | Record int nat rat nat
  | Observe int "rat option" nat rat rat

definition selection_apply :: "selection_op \<Rightarrow> selection \<Rightarrow> selection" where
  "selection_apply e s = (case e of
     Select links key tried wanted deadline \<Rightarrow> snd (select_link links key tried wanted deadline s)
   | Mark l \<Rightarrow> mark_selected l s
   | Forget l \<Rightarrow> forget_link l s
   | Record tm l elapsed bytes \<Rightarrow> record_attempt tm l elapsed bytes s
   | Observe tm f bytes flow t \<Rightarrow> observe tm f bytes flow t s)"

text \<open>A choice is contested when both cold and healthy links are eligible and there is time to explore.\<close>

definition contested :: "selection \<Rightarrow> candidate list \<Rightarrow> rat option \<Rightarrow> bool" where
  "contested s eligible deadline \<longleftrightarrow> list_ex (cold_link s) eligible \<and> list_ex (healthy_link s) eligible
     \<and> (case deadline of None \<Rightarrow> True | Some d \<Rightarrow> 100 \<le> d)"

text \<open>For every choice made: whether it was contested, and whether a cold link was chosen.\<close>

fun choice_log :: "selection_op list \<Rightarrow> selection \<Rightarrow> (bool \<times> bool) list" where
  "choice_log [] s = []"
| "choice_log (e # es) s =
     (case e of
        Select links key tried wanted deadline \<Rightarrow>
          (case fst (select_link links key tried wanted deadline s) of
             None \<Rightarrow> []
           | Some l \<Rightarrow> [(contested s (eligible_links s links key tried wanted deadline) deadline, cold_link s l)])
      | _ \<Rightarrow> []) @ choice_log es (selection_apply e s)"

lemma turn_kept [simp]: "sn_turn (mark_selected l s) = sn_turn s" "sn_turn (forget_link l s) = sn_turn s"
  "sn_turn (record_attempt tm l elapsed bytes s) = sn_turn s" "sn_turn (observe tm f bytes flow t s) = sn_turn s"
  by (simp_all add: mark_selected_def forget_link_def record_attempt_def observe_def Let_def split: option.split)

lemma contested_choice:
  assumes "select_link links key tried wanted deadline s = (Some l, s')" and "contested s (eligible_links s links key tried wanted deadline) deadline"
  shows "cold_link s l \<longleftrightarrow> sn_turn s = 0"
  using assms(1)
proof (cases rule: select_cases)
  case (chosen l')
  have "explores s (eligible_links s links key tried wanted deadline) deadline \<longleftrightarrow> sn_turn s = 0"
    using assms(2) by (auto simp: contested_def explores_def)
  then show ?thesis
    using chosen assms(2) by (auto simp: select_candidates_def contested_def healthy_link_def split: if_splits)
qed simp

lemma select_turn:
  "select_link links key tried wanted deadline s = (r, s') \<Longrightarrow> sn_turn s' = (if r = None then sn_turn s else (sn_turn s + 1) mod 4)"
  by (erule select_cases) simp_all

lemma choice_log_turns:
  "sn_turn s < 4 \<Longrightarrow> list_all fst (choice_log es s)
    \<Longrightarrow> map snd (choice_log es s) = map (\<lambda>i. (sn_turn s + i) mod 4 = 0) [0..<length (choice_log es s)]"
proof (induction es arbitrary: s)
  case (Cons e es)
  show ?case
  proof (cases "\<exists>links key tried wanted deadline l s'. e = Select links key tried wanted deadline \<and> select_link links key tried wanted deadline s = (Some l, s')")
    case True
    then obtain links key tried wanted deadline l s' where e: "e = Select links key tried wanted deadline"
      and sel: "select_link links key tried wanted deadline s = (Some l, s')" by blast
    have turn: "sn_turn s' = (sn_turn s + 1) mod 4" using select_turn [OF sel] by simp
    have all: "list_all fst (choice_log es s')" and con: "contested s (eligible_links s links key tried wanted deadline) deadline"
      using Cons.prems(2) by (simp_all add: e sel selection_apply_def)
    have "map snd (choice_log es s') = map (\<lambda>i. (sn_turn s + Suc i) mod 4 = 0) [0..<length (choice_log es s')]"
      using Cons.IH [of s'] all by (simp add: turn mod_add_left_eq)
    also have "\<dots> = map (\<lambda>i. (sn_turn s + i) mod 4 = 0) [1..<Suc (length (choice_log es s'))]"
      by (simp add: map_Suc_upt [symmetric] o_def del: upt_Suc)
    finally show ?thesis
      using contested_choice [OF sel con] Cons.prems(1)
      by (simp add: e sel selection_apply_def upt_conv_Cons del: upt_Suc)
  next
    case False
    then have "choice_log (e # es) s = choice_log es (selection_apply e s)"
      by (cases e) (auto split: option.splits simp: prod_eq_iff)
    moreover have "sn_turn (selection_apply e s) = sn_turn s"
      using False by (cases e) (auto simp: selection_apply_def select_turn [OF surjective_pairing] prod_eq_iff)
    ultimately show ?thesis using Cons by simp
  qed
qed simp

lemma selection_turn: "sn_turn s < 4 \<Longrightarrow> sn_turn (fold selection_apply es s) < 4"
proof (induction es arbitrary: s)
  case (Cons e es)
  have "sn_turn (selection_apply e s) < 4"
    using Cons.prems by (cases e) (simp_all add: selection_apply_def select_turn [OF surjective_pairing])
  then show ?case using Cons.IH by simp
qed simp

lemma count_turns: "length (filter (\<lambda>i. (t + i) mod 4 = 0) [0..<k]) + (t + 3) div 4 = (t + k + 3) div (4 :: nat)"
proof (induction k)
  case (Suc k)
  have "(t + Suc k + 3) div 4 = (t + k + 3) div 4 + (if (t + k) mod 4 = 0 then 1 else 0)" by presburger
  then show ?case using Suc by simp
qed simp

lemma quarter_bounds:
  fixes t k n :: nat
  assumes "n + (t + 3) div 4 = (t + k + 3) div 4" and "t < 4"
  shows "k div 4 \<le> n \<and> n \<le> (k + 3) div 4"
proof -
  let ?q = "(t + k + 3) div 4"
  have q: "?q * 4 \<le> t + k + 3" "t + k + 3 < ?q * 4 + 4" using div_times_less_eq_dividend dividend_less_div_times [of 4 "t + k + 3"] by simp_all
  have c: "(t + 3) div 4 = (if t = 0 then 0 else 1)" using assms(2) by auto
  have "n * 4 \<le> k + 3" "k < (n + 1) * 4" using q assms(2) unfolding assms(1) [symmetric] c by (simp_all split: if_splits)
  then show ?thesis by (simp add: less_eq_div_iff_mult_less_eq less_Suc_eq_le [symmetric] div_less_iff_less_mult)
qed

text \<open>
  C7: exploration takes its share and no more. After any operations, among \<open>k\<close> consecutive contested choices,
  whatever is observed, recorded and forgotten in between, between a quarter of \<open>k\<close> rounded down and a quarter
  rounded up choose a cold link: exactly one in four.
\<close>

theorem explores_one_in_four:
  assumes "s = fold selection_apply earlier new_selection" and "list_all fst (choice_log es s)"
  shows "length (choice_log es s) div 4 \<le> length (filter snd (choice_log es s))
    \<and> length (filter snd (choice_log es s)) \<le> (length (choice_log es s) + 3) div 4"
proof -
  let ?k = "length (choice_log es s)"
  have t: "sn_turn s < 4" using selection_turn [of new_selection] by (simp add: assms(1) new_selection_def)
  have "length (filter snd (choice_log es s)) = length (filter id (map snd (choice_log es s)))"
    by (simp add: filter_map o_def)
  also have "\<dots> = length (filter (\<lambda>i. (sn_turn s + i) mod 4 = 0) [0..<?k])"
    by (simp add: choice_log_turns [OF t assms(2)] filter_map o_def)
  finally have "length (filter snd (choice_log es s)) + (sn_turn s + 3) div 4 = (sn_turn s + ?k + 3) div 4"
    using count_turns [of "sn_turn s" ?k] by simp
  then show ?thesis using t by (rule quarter_bounds)
qed

definition ex_neighbour :: "nat \<Rightarrow> string \<Rightarrow> candidate" where
  "ex_neighbour n p = \<lparr>cl_id = n, cl_pubkey = p, cl_closed = False, cl_busy = False, cl_have = [''k'']\<rparr>"

definition ex_select :: selection_op where
  "ex_select = Select [ex_neighbour 1 ''a'', ex_neighbour 2 ''b''] ''k'' [] 1000 None"

definition ex_selection :: selection where
  "ex_selection = fold selection_apply [Record 0 2 100 1000] new_selection"

definition ex_ok :: "selection \<Rightarrow> bool" where
  "ex_ok s \<longleftrightarrow> su_attempts (summary_of s 1) = 0 \<and> su_attempts (summary_of s 2) = 1 \<and> su_failures (summary_of s 2) = 0"

lemma summary_mark: "summary_of (mark_selected l s) k = (if k = l then (summary_of s l)\<lparr>su_last_selected := sn_order s + 1\<rparr> else summary_of s k)"
  by (simp add: summary_of_def mark_selected_def)

lemma summary_turn: "summary_of (s\<lparr>sn_turn := t\<rparr>) k = summary_of s k"
  by (simp add: summary_of_def)

lemma ex_step:
  assumes "ex_ok s"
  shows "choice_log (ex_select # es) s = (True, sn_turn s = 0) # choice_log es (selection_apply ex_select s)
    \<and> ex_ok (selection_apply ex_select s) \<and> sn_turn (selection_apply ex_select s) = (sn_turn s + 1) mod 4"
proof -
  let ?ls = "[ex_neighbour 1 ''a'', ex_neighbour 2 ''b'']"
  have e: "eligible_links s ?ls ''k'' [] 1000 None = ?ls" by (simp add: eligible_links_def ex_neighbour_def fits_def split: option.split)
  obtain r s' where sel: "select_link ?ls ''k'' [] 1000 None s = (r, s')" by fastforce
  have con: "contested s ?ls None" using assms by (simp add: contested_def cold_link_def healthy_link_def ex_ok_def ex_neighbour_def)
  from sel show ?thesis
  proof (cases rule: select_cases)
    case (chosen l)
    have "cold_link s l \<longleftrightarrow> sn_turn s = 0" using contested_choice [of ?ls "''k''" "[]" 1000 None s l s'] sel con chosen(1) e by simp
    moreover have "ex_ok s'" using assms by (auto simp: chosen(4) ex_ok_def summary_mark summary_turn)
    ultimately show ?thesis
      using con e sel chosen(1) select_turn [OF sel] by (simp add: ex_select_def selection_apply_def)
  next
    case none
    then show ?thesis unfolding e by simp
  qed
qed

lemma ex_start: "ex_ok ex_selection" "sn_turn ex_selection = 0"
  by (simp_all add: ex_ok_def ex_selection_def selection_apply_def record_attempt_def new_selection_def summary_of_def no_summary_def jget_Cons)

lemma ex_choices: "choice_log [ex_select, ex_select, ex_select, ex_select] ex_selection = [(True, True), (True, False), (True, False), (True, False)]"
  using ex_start by (simp add: ex_step del: choice_log.simps(2))

theorem explores_one_in_four_witness:
  "length (filter snd (choice_log [ex_select, ex_select, ex_select, ex_select] ex_selection)) = 1"
proof -
  have "list_all fst (choice_log [ex_select, ex_select, ex_select, ex_select] ex_selection)" unfolding ex_choices by simp
  then show ?thesis
    using explores_one_in_four [OF ex_selection_def, of "[ex_select, ex_select, ex_select, ex_select]"] unfolding ex_choices by simp
qed

subsection \<open>Measurements\<close>

definition between :: "rat \<Rightarrow> rat \<Rightarrow> rat option \<Rightarrow> bool" where
  "between a b v \<longleftrightarrow> (case v of None \<Rightarrow> True | Some x \<Rightarrow> a \<le> x \<and> x \<le> b)"

definition summary_ok :: "summary \<Rightarrow> bool" where
  "summary_ok v \<longleftrightarrow> su_attempts v \<le> 32 \<and> su_failures v \<le> 32 \<and> 0 \<le> su_failure_rate v \<and> su_failure_rate v \<le> 1
     \<and> between 1 60000 (su_latency v) \<and> between 0 1000000000 (su_throughput v)"

definition selection_ok :: "selection \<Rightarrow> bool" where
  "selection_ok s \<longleftrightarrow> list_all (\<lambda>(l, v). summary_ok v) (sn_observations s)
     \<and> length (sn_completions s) \<le> 16 \<and> length (sn_first_bytes s) \<le> 16 \<and> length (sn_rates s) \<le> 16
     \<and> list_all (\<lambda>(b, r). 0 < r \<and> r \<le> 1000000) (sn_completions s) \<and> list_all (\<lambda>f. 0 \<le> f \<and> f \<le> 60000) (sn_first_bytes s)
     \<and> list_all (\<lambda>(r, t). 0 < r \<and> r \<le> 1000000 \<and> 300 \<le> t) (sn_rates s)"

lemma push_recent_ok: "length xs \<le> 16 \<Longrightarrow> list_all P xs \<Longrightarrow> P x \<Longrightarrow> length (push_recent x xs) \<le> 16 \<and> list_all P (push_recent x xs)"
  by (cases xs) (auto simp: push_recent_def Let_def)

lemma summary_of_ok: "selection_ok s \<Longrightarrow> summary_ok (summary_of s l)"
  by (cases "jget (sn_observations s) l")
    (auto simp: summary_of_def selection_ok_def list_all_iff summary_ok_def no_summary_def between_def dest!: jget_in)

lemma jset_all: "list_all (\<lambda>(k, v). P v) m \<Longrightarrow> P v \<Longrightarrow> list_all (\<lambda>(k, v). P v) (jset k v m)"
  using set_jset_subset [of k v m] by (fastforce simp: list_all_iff)

lemma observation_ok: "selection_ok s \<Longrightarrow> summary_ok v \<Longrightarrow> selection_ok (s\<lparr>sn_observations := jset l v (sn_observations s)\<rparr>)"
  by (simp add: selection_ok_def jset_all)

lemma blend_between: "between a b p \<Longrightarrow> a \<le> x \<Longrightarrow> x \<le> b \<Longrightarrow> between a b (Some (blend p x))"
  by (auto simp: between_def blend_def split: option.splits)

lemma selection_fields:
  "selection_ok s \<Longrightarrow> selection_ok (s\<lparr>sn_turn := t\<rparr>)" "selection_ok s \<Longrightarrow> selection_ok (s\<lparr>sn_order := n\<rparr>)"
  "selection_ok s \<Longrightarrow> selection_ok (s\<lparr>sn_observed_at := m\<rparr>)"
  by (simp_all add: selection_ok_def)

lemma mark_selected_ok: "selection_ok s \<Longrightarrow> selection_ok (mark_selected l s)"
proof -
  assume ok: "selection_ok s"
  let ?s = "s\<lparr>sn_order := sn_order s + 1\<rparr>" and ?v = "(summary_of s l)\<lparr>su_last_selected := sn_order s + 1\<rparr>"
  have "selection_ok ?s" "summary_ok ?v" using selection_fields(2) [OF ok] summary_of_ok [OF ok, of l] by (simp_all add: summary_ok_def)
  then have "selection_ok (?s\<lparr>sn_observations := jset l ?v (sn_observations ?s)\<rparr>)" by (rule observation_ok)
  then show ?thesis by (simp add: mark_selected_def)
qed

lemma record_attempt_ok:
  assumes "selection_ok s"
  shows "selection_ok (record_attempt tm l elapsed bytes s)"
proof -
  define e where "e = min 60000 (max 1 elapsed)"
  define v where "v = (summary_of s l)\<lparr>su_attempts := min 32 (su_attempts (summary_of s l) + 1),
    su_failure_rate := su_failure_rate (summary_of s l) * (3 / 4) + (if bytes = 0 then 1 / 4 else 0),
    su_failures := (if bytes = 0 then min 32 (su_failures (summary_of s l) + 1) else 0)\<rparr>"
  have e: "1 \<le> e" "e \<le> 60000" by (simp_all add: e_def)
  have v: "summary_ok v" using summary_of_ok [OF assms, of l] by (auto simp: summary_ok_def v_def)
  show ?thesis
  proof (cases "bytes = 0")
    case True
    then show ?thesis using observation_ok [OF assms v, of l] by (simp add: record_attempt_def Let_def v_def e_def)
  next
    case False
    let ?r = "min 1000000000 (of_nat bytes * 1000 / e)"
    have r: "0 \<le> ?r" "0 < min 1000000 (of_nat bytes / e)" using e False by (simp_all add: min_def)
    have "summary_ok (v\<lparr>su_latency := Some (blend (su_latency v) e), su_throughput := Some (blend (su_throughput v) ?r)\<rparr>)"
      using v blend_between [of 1 60000 "su_latency v" e] blend_between [of 0 1000000000 "su_throughput v" ?r] e r by (simp add: summary_ok_def)
    moreover have "selection_ok (s\<lparr>sn_completions := push_recent (bytes, min 1000000 (of_nat bytes / e)) (sn_completions s), sn_observed_at := tm\<rparr>)"
      using assms push_recent_ok [of "sn_completions s" "\<lambda>(b, r). 0 < r \<and> r \<le> 1000000" "(bytes, min 1000000 (of_nat bytes / e))"] r
      by (simp add: selection_ok_def)
    ultimately show ?thesis
      using observation_ok [of "s\<lparr>sn_completions := push_recent (bytes, min 1000000 (of_nat bytes / e)) (sn_completions s), sn_observed_at := tm\<rparr>"] False
      by (simp add: record_attempt_def Let_def v_def e_def)
  qed
qed

lemma observe_ok:
  assumes "selection_ok s"
  shows "selection_ok (observe tm f bytes flow t s)"
proof -
  define s1 where "s1 = (case f of None \<Rightarrow> s | Some f \<Rightarrow> if 0 \<le> f then s\<lparr>sn_first_bytes := push_recent (min 60000 f) (sn_first_bytes s)\<rparr> else s)"
  have s1: "selection_ok s1"
    using assms push_recent_ok [of "sn_first_bytes s" "\<lambda>f. 0 \<le> f \<and> f \<le> 60000"] by (auto simp: s1_def selection_ok_def split: option.split)
  have "length (push_recent (min 1000000 (of_nat bytes / flow), max flow t) (sn_rates s1)) \<le> 16
      \<and> list_all (\<lambda>(r, t). 0 < r \<and> r \<le> 1000000 \<and> 300 \<le> t) (push_recent (min 1000000 (of_nat bytes / flow), max flow t) (sn_rates s1))"
    if "32768 \<le> bytes" "300 \<le> flow"
    using s1 that by (intro push_recent_ok) (auto simp: selection_ok_def min_def)
  then show ?thesis using s1 by (simp add: observe_def Let_def s1_def [symmetric] selection_ok_def)
qed

lemma selection_apply_ok: "selection_ok s \<Longrightarrow> selection_ok (selection_apply e s)"
proof (cases e)
  case (Select links key tried wanted deadline)
  assume ok: "selection_ok s"
  obtain r s' where sel: "select_link links key tried wanted deadline s = (r, s')" by fastforce
  then have "selection_ok s'"
    by (cases rule: select_cases) (simp_all add: ok mark_selected_ok selection_fields)
  then show ?thesis by (simp add: Select selection_apply_def sel)
next
  case (Forget l)
  assume "selection_ok s"
  then show ?thesis using set_jdel_subset [of l "sn_observations s"]
    by (fastforce simp: Forget selection_apply_def forget_link_def selection_ok_def list_all_iff)
qed (simp_all add: selection_apply_def mark_selected_ok record_attempt_ok observe_ok)

lemma selection_bounded: "selection_ok (fold selection_apply es new_selection)"
proof -
  have "selection_ok s \<Longrightarrow> selection_ok (fold selection_apply es s)" for s
    by (induction es arbitrary: s) (simp_all add: selection_apply_ok)
  then show ?thesis by (simp add: selection_ok_def new_selection_def)
qed

subsection \<open>Samples of a transfer\<close>

datatype flow_op = Piece int "rat option" "rat option" | Cut "rat option" | Discard "rat option"

definition flow_apply :: "flow_op \<Rightarrow> piece_flow \<Rightarrow> (int \<times> rat) option \<times> piece_flow" where
  "flow_apply e f = (case e of
     Piece fresh start stop \<Rightarrow> flow_record fresh start stop f
   | Cut stop \<Rightarrow> flow_flush stop f
   | Discard stop \<Rightarrow> (None, flow_discard stop f))"

definition op_stop :: "flow_op \<Rightarrow> rat" where
  "op_stop e = (case e of Piece fresh start stop \<Rightarrow> the stop | Cut stop \<Rightarrow> the stop | Discard stop \<Rightarrow> the stop)"

definition op_bytes :: "flow_op \<Rightarrow> int" where
  "op_bytes e = (case e of Piece fresh start stop \<Rightarrow> max 0 fresh | _ \<Rightarrow> 0)"

text \<open>The samples: bytes, and the interval they took.\<close>

fun flow_log :: "flow_op list \<Rightarrow> piece_flow \<Rightarrow> (int \<times> rat \<times> rat) list" where
  "flow_log [] f = []"
| "flow_log (e # es) f =
     (case flow_apply e f of (sample, f') \<Rightarrow>
        (case sample of None \<Rightarrow> [] | Some (bytes, flow) \<Rightarrow> [(bytes, op_stop e - flow, op_stop e)]) @ flow_log es f')"

definition flow_ok :: "piece_flow \<Rightarrow> bool" where
  "flow_ok f \<longleftrightarrow> 0 \<le> pf_bytes f \<and> (case (pf_start f, pf_after f) of (Some b, Some a) \<Rightarrow> a \<le> b | _ \<Rightarrow> True)"

definition after_flow :: "piece_flow \<Rightarrow> rat \<Rightarrow> bool" where
  "after_flow f t \<longleftrightarrow> (case pf_after f of None \<Rightarrow> True | Some a \<Rightarrow> a \<le> t)"

lemma after_fields [simp]: "after_flow (f\<lparr>pf_start := b, pf_bytes := n\<rparr>) t \<longleftrightarrow> after_flow f t"
  by (simp add: after_flow_def)

lemma after_discard: "after_flow (flow_discard stop f) t \<longleftrightarrow> after_flow f t \<and> (case stop of None \<Rightarrow> True | Some e \<Rightarrow> e \<le> t)"
  by (auto simp: after_flow_def flow_discard_def split: option.splits)

lemma flow_discard_ok: "flow_ok (flow_discard stop f)" "pf_bytes (flow_discard stop f) = 0"
  by (simp_all add: flow_ok_def flow_discard_def)

lemma flow_discard_quiet: "flow_ok f \<Longrightarrow> flow_ok (flow_discard stop f) \<and> pf_bytes (flow_discard stop f) \<le> pf_bytes f"
  by (simp add: flow_ok_def flow_discard_def)

text \<open>One step: either no sample, and the pending bytes grow by no more than came; or a sample of them.\<close>

lemma flow_step:
  assumes "flow_apply e f = (r, f')" and "flow_ok f"
  shows "flow_ok f' \<and> (\<forall>t. after_flow f' t \<longrightarrow> after_flow f t)
    \<and> (case r of None \<Rightarrow> pf_bytes f' \<le> pf_bytes f + op_bytes e
       | Some (bytes, flow) \<Rightarrow> bytes \<le> pf_bytes f + op_bytes e \<and> pf_bytes f' = 0 \<and> 32768 \<le> bytes \<and> 300 \<le> flow
           \<and> after_flow f (op_stop e - flow) \<and> (\<forall>t. after_flow f' t \<longrightarrow> op_stop e \<le> t))"
proof (cases e)
  case (Piece fresh start stop)
  show ?thesis
  proof (cases "fresh = 0 \<or> \<not> piece_valid fresh start stop f")
    case True
    then have "f' = f \<and> r = None \<or> f' = flow_discard stop f \<and> r = None"
      using assms(1) by (cases "fresh = 0") (auto simp: Piece flow_apply_def flow_record_def)
    then show ?thesis using assms(2) flow_discard_ok by (auto simp: after_discard op_bytes_def Piece flow_ok_def)
  next
    case False
    then obtain b t where bt: "start = Some b" "stop = Some t" "0 \<le> fresh" "b \<le> t" "after_flow f b"
      by (auto simp: piece_valid_def after_flow_def split: option.splits)
    define c where "c = (case pf_start f of None \<Rightarrow> b | Some x \<Rightarrow> min x b)"
    have c: "after_flow f c" "flow_ok (f\<lparr>pf_start := Some c, pf_bytes := pf_bytes f + fresh\<rparr>)"
      using bt(3,5) assms(2) by (auto simp: c_def after_flow_def flow_ok_def min_def split: option.splits)
    have c': "(case pf_start f of None \<Rightarrow> the start | Some x \<Rightarrow> min x (the start)) = c" by (simp add: c_def bt(1) split: option.split)
    have "(r, f') = (if t - c < 300 \<or> pf_bytes f + fresh < 32768 then (None, f\<lparr>pf_start := Some c, pf_bytes := pf_bytes f + fresh\<rparr>)
        else (Some (pf_bytes f + fresh, t - c), flow_discard stop (f\<lparr>pf_start := Some c, pf_bytes := pf_bytes f + fresh\<rparr>)))"
      unfolding assms(1) [symmetric] using False by (simp add: Piece flow_apply_def flow_record_def Let_def c' bt(2))
    then show ?thesis
      using c bt(3) flow_discard_ok
      by (auto simp: after_discard op_bytes_def op_stop_def Piece bt(2) split: if_splits)
  qed
next
  case (Cut stop)
  have f': "f' = flow_discard stop f" using assms(1) by (simp add: Cut flow_apply_def flow_flush_def)
  show ?thesis
  proof (cases r)
    case None
    then show ?thesis using flow_discard_quiet [OF assms(2), of stop] by (simp add: f' after_discard op_bytes_def Cut)
  next
    case (Some p)
    then obtain b t where "pf_start f = Some b" "stop = Some t" "p = (pf_bytes f, t - b)" "300 \<le> t - b" "32768 \<le> pf_bytes f"
      using assms(1) by (auto simp: Cut flow_apply_def flow_flush_def split: option.splits if_splits)
    moreover from this have "after_flow f b" using assms(2) by (simp add: flow_ok_def after_flow_def split: option.splits)
    ultimately show ?thesis
      using flow_discard_ok by (simp add: Some f' after_discard op_bytes_def op_stop_def Cut)
  qed
next
  case (Discard stop)
  then show ?thesis
    using assms flow_discard_quiet [OF assms(2), of stop] by (auto simp: flow_apply_def after_discard op_bytes_def)
qed

lemma flow_log_ok:
  "flow_ok f \<Longrightarrow> sorted_wrt (\<lambda>(_, _, e) (_, b, _). e \<le> b) (flow_log es f) \<and> list_all (\<lambda>(n, b, e). 32768 \<le> n \<and> b + 300 \<le> e \<and> after_flow f b) (flow_log es f)
    \<and> sum_list (map fst (flow_log es f)) \<le> pf_bytes f + sum_list (map op_bytes es)"
proof (induction es arbitrary: f)
  case Nil
  then show ?case by (simp add: flow_ok_def)
next
  case (Cons e es)
  obtain r f' where step: "flow_apply e f = (r, f')" by fastforce
  note s = flow_step [OF step Cons.prems]
  then have tail: "sorted_wrt (\<lambda>(_, _, e) (_, b, _). e \<le> b) (flow_log es f')"
    "list_all (\<lambda>(n, b, e). 32768 \<le> n \<and> b + 300 \<le> e \<and> after_flow f' b) (flow_log es f')"
    "sum_list (map fst (flow_log es f')) \<le> pf_bytes f' + sum_list (map op_bytes es)"
    using Cons.IH [of f'] by simp_all
  have later: "list_all (\<lambda>(n, b, e). 32768 \<le> n \<and> b + 300 \<le> e \<and> after_flow f b) (flow_log es f')"
    using tail(2) s by (auto simp: list_all_iff)
  show ?case
  proof (cases r)
    case None
    then show ?thesis using s tail later by (simp add: step)
  next
    case (Some p)
    obtain n flow where p: "p = (n, flow)" by fastforce
    have "n \<le> pf_bytes f + op_bytes e" "pf_bytes f' = 0" "32768 \<le> n" "300 \<le> flow" "after_flow f (op_stop e - flow)"
      and stop: "\<forall>t. after_flow f' t \<longrightarrow> op_stop e \<le> t" using s by (simp_all add: Some p)
    moreover have "\<forall>(n, b, t) \<in> set (flow_log es f'). op_stop e \<le> b" using tail(2) stop by (fastforce simp: list_all_iff)
    ultimately show ?thesis using tail later by (auto simp: step Some p)
  qed
qed

text \<open>
  C24: no byte and no instant counts twice. Whatever pieces, cuts and discards a transfer has, the samples that
  it reports are of at least 32 KiB over at least 300 ms, their intervals do not overlap and follow each other,
  and together they have no more bytes than were freshly verified.
\<close>

theorem samples_disjoint:
  "sorted_wrt (\<lambda>(_, _, e) (_, b, _). e \<le> b) (flow_log es new_flow) \<and> list_all (\<lambda>(n, b, e). 32768 \<le> n \<and> b + 300 \<le> e) (flow_log es new_flow)
    \<and> sum_list (map fst (flow_log es new_flow)) \<le> sum_list (map op_bytes es)"
proof -
  have "flow_ok new_flow" and "pf_bytes new_flow = 0" by (simp_all add: flow_ok_def new_flow_def)
  then show ?thesis using flow_log_ok [of new_flow es] by (auto simp: list_all_iff)
qed

end
