(* ===== verification/Policy_Renewal.thy ===== *)
theory Policy_Renewal
  imports Json
begin

text \<open>
  How a page keeps the operator's policy: \<open>createPolicyRenewal\<close> of \<open>demo/policy-renewal.mjs\<close>.

  An operation runs at one instant, which the monotonic and the wall clock show, each in milliseconds and neither
  trusted: they may go backwards.  What the host's \<open>load\<close> does between its start and its end are operations of
  their own: it may observe policies, invalidate, and end with a candidate or a rejection.  Calls of the host's
  \<open>commit\<close> and \<open>revoke\<close> are appended to \<open>rn_calls\<close>; they do not call back.  A timer is whether it is set.
\<close>

record clock =
  ck_mono :: int
  ck_wall :: int

record policy_seen =
  po_revision :: int
  po_shape :: string
  po_off :: bool

record attempt =
  at_id :: nat
  at_issued :: clock
  at_aborted :: bool
  at_policy :: "policy_seen option"
  at_pending :: bool

datatype host_call = Committed attempt | Revoked string "js option"

record renewal =
  rn_sequence :: nat
  rn_accepted :: nat
  rn_floor :: nat
  rn_revision :: int
  rn_shape :: "string option"
  rn_authority :: "attempt option"
  rn_timer :: bool
  rn_attempts :: "attempt list"
  rn_records :: "(nat \<times> string \<times> int \<times> int) list"
  rn_paused :: bool
  rn_closed :: bool
  rn_last_wall :: int
  rn_calls :: "host_call list"

definition new_renewal :: "clock \<Rightarrow> renewal" where
  "new_renewal tm = \<lparr>rn_sequence = 0, rn_accepted = 0, rn_floor = 0, rn_revision = -1, rn_shape = None, rn_authority = None, rn_timer = False,
     rn_attempts = [], rn_records = [], rn_paused = False, rn_closed = False, rn_last_wall = ck_wall tm, rn_calls = []\<rparr>"

definition lifetime_ms :: int where "lifetime_ms = 5000"

definition remaining_ms :: "clock \<Rightarrow> attempt \<Rightarrow> int" where
  "remaining_ms tm a = min (lifetime_ms - (ck_mono tm - ck_mono (at_issued a))) (lifetime_ms - (ck_wall tm - ck_wall (at_issued a)))"

definition attempt_expired :: "clock \<Rightarrow> attempt \<Rightarrow> bool" where
  "attempt_expired tm a \<longleftrightarrow> ck_mono tm < ck_mono (at_issued a) \<or> ck_wall tm < ck_wall (at_issued a) \<or> remaining_ms tm a \<le> 0"

definition record_outcome :: "clock \<Rightarrow> attempt \<Rightarrow> string \<Rightarrow> renewal \<Rightarrow> renewal" where
  "record_outcome tm a outcome s =
     (let rs = rn_records s @ [(at_id a, outcome, ck_mono (at_issued a), max 0 (ck_mono tm - ck_mono (at_issued a)))]
      in s\<lparr>rn_records := (if length rs > 64 then tl rs else rs)\<rparr>)"

definition revoke_authority :: "string \<Rightarrow> js option \<Rightarrow> renewal \<Rightarrow> renewal" where
  "revoke_authority reason policy s =
     s\<lparr>rn_timer := False, rn_authority := None,
       rn_calls := (if rn_authority s \<noteq> None \<or> reason \<noteq> ''expired'' then rn_calls s @ [Revoked reason policy] else rn_calls s)\<rparr>"

text \<open>Aborting those pending attempts that satisfy a condition.\<close>

definition abort_pending :: "(attempt \<Rightarrow> bool) \<Rightarrow> renewal \<Rightarrow> renewal" where
  "abort_pending p s = s\<lparr>rn_attempts := map (\<lambda>a. if at_pending a \<and> p a then a\<lparr>at_aborted := True\<rparr> else a) (rn_attempts s)\<rparr>"

definition fresh_policy :: "clock \<Rightarrow> renewal \<Rightarrow> bool \<times> renewal" where
  "fresh_policy tm s =
     (let rollback = ck_wall tm < rn_last_wall s; s = s\<lparr>rn_last_wall := ck_wall tm\<rparr>;
          s = (if rollback
            then revoke_authority ''clock-rollback'' None (abort_pending (\<lambda>a. True) (s\<lparr>rn_floor := max (rn_floor s) (rn_sequence s + 1)\<rparr>)) else s);
          s = (case rn_authority s of None \<Rightarrow> s | Some a \<Rightarrow> if attempt_expired tm a then revoke_authority ''expired'' None s else s)
      in (\<not> rn_closed s \<and> \<not> rn_paused s \<and> rn_authority s \<noteq> None, s))"

definition check_expiry :: "clock \<Rightarrow> renewal \<Rightarrow> renewal" where
  "check_expiry tm s = (let (ok, s) = fresh_policy tm (s\<lparr>rn_timer := False\<rparr>) in if ok then s\<lparr>rn_timer := True\<rparr> else s)"

definition invalidate :: "string \<Rightarrow> nat \<Rightarrow> js option \<Rightarrow> renewal \<Rightarrow> renewal" where
  "invalidate reason i policy s =
     (let f = max (rn_floor s) i in abort_pending (\<lambda>a. at_id a < f) (revoke_authority reason policy (s\<lparr>rn_floor := f\<rparr>)))"

definition find_attempt :: "nat \<Rightarrow> renewal \<Rightarrow> attempt option" where
  "find_attempt i s = find (\<lambda>a. at_id a = i) (rn_attempts s)"

definition put_attempt :: "attempt \<Rightarrow> renewal \<Rightarrow> renewal" where
  "put_attempt a s = s\<lparr>rn_attempts := map (\<lambda>b. if at_id b = at_id a then a else b) (rn_attempts s)\<rparr>"

definition policy_valid :: "js \<Rightarrow> bool" where
  "policy_valid v \<longleftrightarrow> truthy v \<and> member v ''mode'' \<in> {JNull, JStr ''off'', JStr ''shadow'', JStr ''peer-first''}
     \<and> safe_integer (member v ''revision'') \<and> 0 \<le> int_of (member v ''revision'') \<and> (case member v ''telemetry'' of JBool b \<Rightarrow> True | _ \<Rightarrow> False)"

definition policy_shape :: "js \<Rightarrow> string" where
  "policy_shape v = json_text (JArr [member v ''mode'', member v ''telemetry''])"

text \<open>\<open>policyFor\<close>: \<open>Inl\<close> is the error that it throws.\<close>

definition policy_for :: "clock \<Rightarrow> nat \<Rightarrow> js \<Rightarrow> renewal \<Rightarrow> (string + bool) \<times> renewal" where
  "policy_for tm i v s =
     (let s = snd (fresh_policy tm s) in
      (case find_attempt i s of
         None \<Rightarrow> (Inr False, s)
       | Some a \<Rightarrow>
           if at_aborted a \<or> at_id a < rn_floor s then (Inr False, s)
           else if \<not> policy_valid v
           then (Inl ''Invalid policy.'', if at_id a \<ge> rn_accepted s then invalidate ''invalid-policy'' (at_id a) None s else s)
           else (let revision = int_of (member v ''revision''); shape = policy_shape v;
                     off = (member v ''mode'' = JStr ''off'') in
             if revision < rn_revision s \<or> (at_id a < rn_accepted s \<and> revision = rn_revision s) then (Inr False, s)
             else if revision = rn_revision s \<and> Some shape \<noteq> rn_shape s
             then (Inl ''Policy revision conflict.'', invalidate ''conflicting-policy'' (at_id a) None s)
             else (let s = put_attempt (a\<lparr>at_policy := Some \<lparr>po_revision = revision, po_shape = shape, po_off = off\<rparr>\<rparr>)
                           (s\<lparr>rn_revision := revision, rn_shape := Some shape\<rparr>) in
               (Inr True, if off then invalidate ''operator-off'' (at_id a)
                   (Some (JObj [(''mode'', member v ''mode''), (''revision'', member v ''revision''), (''telemetry'', member v ''telemetry'')])) s else s)))))"

definition load_invalidates :: "string \<Rightarrow> nat \<Rightarrow> renewal \<Rightarrow> renewal" where
  "load_invalidates reason i s =
     (case find_attempt i s of
        None \<Rightarrow> s
      | Some a \<Rightarrow> if at_id a \<ge> rn_floor s \<and> at_id a \<ge> rn_accepted s \<and> \<not> at_aborted a then invalidate reason (at_id a) None s else s)"

subsection \<open>Attempts\<close>

definition renew_start :: "clock \<Rightarrow> renewal \<Rightarrow> nat option \<times> renewal" where
  "renew_start tm s =
     (let s = snd (fresh_policy tm s) in
      if rn_closed s \<or> rn_paused s \<or> length (filter at_pending (rn_attempts s)) \<ge> 3 then (None, s)
      else (Some (rn_sequence s + 1),
        s\<lparr>rn_sequence := rn_sequence s + 1,
          rn_attempts := rn_attempts s @ [\<lparr>at_id = rn_sequence s + 1, at_issued = tm, at_aborted = False, at_policy = None, at_pending = True\<rparr>]\<rparr>))"

text \<open>The attempt's timer: it aborts the attempt after its lifetime.\<close>

definition attempt_timeout :: "nat \<Rightarrow> renewal \<Rightarrow> renewal" where
  "attempt_timeout i s = abort_pending (\<lambda>a. at_id a = i) s"

text \<open>
  How \<open>load\<close> ended: with a candidate, of which the host says whether it is eligible and whether committing it
  throws, or by a rejection, of its own or by the abort signal.
\<close>

datatype load_end = Loaded bool bool | Rejected

definition policy_holds :: "attempt \<Rightarrow> renewal \<Rightarrow> bool" where
  "policy_holds a s \<longleftrightarrow> (case at_policy a of None \<Rightarrow> False | Some p \<Rightarrow> po_revision p = rn_revision s \<and> Some (po_shape p) = rn_shape s)"

definition unpend :: "nat \<Rightarrow> renewal \<Rightarrow> renewal" where
  "unpend i s = s\<lparr>rn_attempts := map (\<lambda>b. if at_id b = i then b\<lparr>at_pending := False\<rparr> else b) (rn_attempts s)\<rparr>"

definition renew_failed :: "clock \<Rightarrow> attempt \<Rightarrow> bool \<Rightarrow> renewal \<Rightarrow> renewal" where
  "renew_failed tm a committing s =
     (let s = (if committing then invalidate ''commit-failed'' (at_id a) None s
            else if \<not> rn_closed s \<and> \<not> rn_paused s \<and> (case at_policy a of None \<Rightarrow> False | Some p \<Rightarrow> po_off p)
              \<and> at_id a \<ge> rn_floor s \<and> at_id a \<ge> rn_accepted s \<and> policy_holds a s
            then invalidate ''incomplete-off-check'' (at_id a) None s else s)
      in snd (fresh_policy tm (record_outcome tm a (if at_aborted a then ''cancelled'' else ''failed'') s)))"

definition renew_loaded :: "clock \<Rightarrow> attempt \<Rightarrow> bool \<Rightarrow> bool \<Rightarrow> renewal \<Rightarrow> bool \<times> renewal" where
  "renew_loaded tm a eligible throws s =
     (if rn_closed s \<or> rn_paused s \<or> at_aborted a \<or> attempt_expired tm a \<or> at_id a < rn_floor s \<or> at_id a < rn_accepted s
         \<or> \<not> policy_holds a s \<or> \<not> eligible then (False, record_outcome tm a ''stale'' s)
      else (let s = s\<lparr>rn_accepted := at_id a, rn_authority := Some a, rn_timer := True, rn_calls := rn_calls s @ [Committed a]\<rparr> in
        if throws then (False, renew_failed tm a True s) else (True, record_outcome tm a ''accepted'' s)))"

definition renew_end :: "clock \<Rightarrow> nat \<Rightarrow> load_end \<Rightarrow> renewal \<Rightarrow> bool \<times> renewal" where
  "renew_end tm i e s =
     (case find_attempt i s of
        None \<Rightarrow> (False, s)
      | Some a \<Rightarrow>
          if \<not> at_pending a then (False, s)
          else (case e of
              Rejected \<Rightarrow> (False, unpend i (renew_failed tm a False s))
            | Loaded eligible throws \<Rightarrow>
                (let s = snd (fresh_policy tm s) in
                 (case find_attempt i s of
                    None \<Rightarrow> (False, s)
                  | Some a \<Rightarrow> (let (r, s) = renew_loaded tm a eligible throws s in (r, unpend i s))))))"

subsection \<open>The page\<close>

definition suspend_renewal :: "string \<Rightarrow> renewal \<Rightarrow> renewal" where
  "suspend_renewal reason s = abort_pending (\<lambda>a. True) (invalidate reason (rn_sequence s) None (s\<lparr>rn_paused := True\<rparr>))"

definition resume_renewal :: "renewal \<Rightarrow> renewal" where
  "resume_renewal s = (if rn_closed s then s else s\<lparr>rn_paused := False\<rparr>)"

definition close_renewal :: "renewal \<Rightarrow> renewal" where
  "close_renewal s = (if rn_closed s then s else (suspend_renewal ''closed'' s)\<lparr>rn_closed := True\<rparr>)"

end
