(* ===== verification/Policy_Renewal_Claims.thy ===== *)
theory Policy_Renewal_Claims
  imports Policy_Renewal
begin

text \<open>
  Authority is fresh only within its lifetime on both clocks, is exactly what the host was told, and never goes
  back to an older policy.
\<close>

datatype renewal_op =
    Fresh clock
  | Timer clock
  | Start clock
  | Timeout nat
  | Observed clock nat js
  | Invalidates string nat
  | Ended clock nat load_end
  | Suspended string
  | Resumed
  | Close

definition renewal_apply :: "renewal_op \<Rightarrow> renewal \<Rightarrow> renewal" where
  "renewal_apply e s = (case e of
     Fresh tm \<Rightarrow> snd (fresh_policy tm s)
   | Timer tm \<Rightarrow> check_expiry tm s
   | Start tm \<Rightarrow> snd (renew_start tm s)
   | Timeout i \<Rightarrow> attempt_timeout i s
   | Observed tm i v \<Rightarrow> snd (policy_for tm i v s)
   | Invalidates reason i \<Rightarrow> load_invalidates reason i s
   | Ended tm i x \<Rightarrow> snd (renew_end tm i x s)
   | Suspended reason \<Rightarrow> suspend_renewal reason s
   | Resumed \<Rightarrow> resume_renewal s
   | Close \<Rightarrow> close_renewal s)"

text \<open>The policy that a call of the host is about: its revision and its text.\<close>

definition call_policy :: "host_call \<Rightarrow> (int \<times> string) option" where
  "call_policy c = (case c of
     Committed a \<Rightarrow> map_option (\<lambda>p. (po_revision p, po_shape p)) (at_policy a)
   | Revoked reason p \<Rightarrow> map_option (\<lambda>v. (int_of (member v ''revision''), policy_shape v)) p)"

definition policy_before :: "host_call \<Rightarrow> host_call \<Rightarrow> bool" where
  "policy_before c d \<longleftrightarrow> (case (call_policy c, call_policy d) of
     (Some (r, p), Some (r', p')) \<Rightarrow> r < r' \<or> (r = r' \<and> p = p') | _ \<Rightarrow> True)"

definition id_before :: "host_call \<Rightarrow> host_call \<Rightarrow> bool" where
  "id_before c d \<longleftrightarrow> (case (c, d) of (Committed a, Committed b) \<Rightarrow> at_id a < at_id b | _ \<Rightarrow> True)"

text \<open>What the host was told last.\<close>

definition told :: "host_call list \<Rightarrow> attempt option" where
  "told cs = (if cs = [] then None else (case last cs of Committed a \<Rightarrow> Some a | Revoked r p \<Rightarrow> None))"

subsection \<open>The invariant\<close>

definition known_policy :: "int \<Rightarrow> string option \<Rightarrow> host_call \<Rightarrow> bool" where
  "known_policy r sh c \<longleftrightarrow> (case call_policy c of None \<Rightarrow> True | Some (r', p) \<Rightarrow> r' < r \<or> (r' = r \<and> sh = Some p))"

definition known_id :: "nat \<Rightarrow> host_call \<Rightarrow> bool" where
  "known_id n c \<longleftrightarrow> (case c of Committed a \<Rightarrow> at_id a \<le> n | _ \<Rightarrow> True)"

definition calls_ok :: "host_call list \<Rightarrow> nat \<Rightarrow> int \<Rightarrow> string option \<Rightarrow> attempt option \<Rightarrow> bool" where
  "calls_ok cs n r sh au \<longleftrightarrow> sorted_wrt policy_before cs \<and> sorted_wrt id_before cs \<and> list_all (known_policy r sh) cs \<and> list_all (known_id n) cs \<and> au = told cs"

definition core_ok :: "renewal \<Rightarrow> bool" where
  "core_ok s \<longleftrightarrow> calls_ok (rn_calls s) (rn_accepted s) (rn_revision s) (rn_shape s) (rn_authority s)
     \<and> map at_id (rn_attempts s) = [1..<rn_sequence s + 1] \<and> rn_accepted s \<le> rn_sequence s \<and> length (rn_records s) \<le> 64
     \<and> length (filter at_pending (rn_attempts s)) \<le> 3 \<and> (rn_paused s \<longrightarrow> rn_authority s = None) \<and> (rn_closed s \<longrightarrow> rn_paused s)"

text \<open>What a revocation may carry: nothing, or the policy that was observed last.\<close>

definition carries :: "int \<Rightarrow> string option \<Rightarrow> js option \<Rightarrow> bool" where
  "carries r sh p \<longleftrightarrow> (case p of None \<Rightarrow> True | Some v \<Rightarrow> int_of (member v ''revision'') = r
     \<and> sh = Some (policy_shape v))"

definition slots_ok :: "renewal \<Rightarrow> bool" where
  "slots_ok s \<longleftrightarrow> (\<forall>a \<in> set (rn_attempts s). at_pending a \<longrightarrow> at_id a \<noteq> rn_accepted s)"

lemma told_snoc [simp]: "told (cs @ [Committed a]) = Some a" "told (cs @ [Revoked r p]) = None" "told [] = None"
  by (simp_all add: told_def)

lemma known_before: "known_policy r sh c \<Longrightarrow> call_policy d = Some (r, p) \<Longrightarrow> sh = Some p \<Longrightarrow> policy_before c d"
  by (auto simp: known_policy_def policy_before_def split: option.splits)

lemma revoked_calls:
  assumes "calls_ok cs n r sh au" and "carries r sh p"
  shows "calls_ok (cs @ [Revoked x p]) n r sh None"
proof -
  have "list_all (\<lambda>c. policy_before c (Revoked x p)) cs"
  proof (cases p)
    case None
    then show ?thesis by (auto simp: list_all_iff policy_before_def call_policy_def split: option.splits)
  next
    case (Some v)
    then have "call_policy (Revoked x p) = Some (r, policy_shape v)"
      using assms(2) by (simp add: call_policy_def carries_def)
    moreover have "sh = Some (policy_shape v)" using assms(2) Some by (simp add: carries_def)
    ultimately show ?thesis using assms(1) known_before by (auto simp: calls_ok_def list_all_iff)
  qed
  moreover have "known_policy r sh (Revoked x p)"
    using assms(2) by (cases p) (simp_all add: known_policy_def call_policy_def carries_def)
  moreover have "id_before c (Revoked x p)" "known_id n (Revoked x p)" for c by (cases c; simp add: id_before_def known_id_def)+
  ultimately show ?thesis
    using assms(1) by (simp add: calls_ok_def sorted_wrt_append list_all_iff)
qed

lemma committed_calls:
  assumes "calls_ok cs n r sh au" and "at_policy a = Some q" "po_revision q = r" "sh = Some (po_shape q)" and "n < at_id a"
  shows "calls_ok (cs @ [Committed a]) (at_id a) r sh (Some a)"
proof -
  have "call_policy (Committed a) = Some (r, po_shape q)" using assms(2,3) by (simp add: call_policy_def)
  then have "list_all (\<lambda>c. policy_before c (Committed a)) cs" "known_policy r sh (Committed a)"
    using assms(1,4) known_before by (auto simp: calls_ok_def list_all_iff known_policy_def)
  moreover have "list_all (\<lambda>c. id_before c (Committed a)) cs" "list_all (known_id (at_id a)) (cs @ [Committed a])"
    using assms(1,5) by (fastforce simp: calls_ok_def list_all_iff id_before_def known_id_def split: host_call.splits)+
  ultimately show ?thesis
    using assms(1) by (simp add: calls_ok_def sorted_wrt_append list_all_iff)
qed

lemma newer_calls: "calls_ok cs n r sh au \<Longrightarrow> r < r' \<or> (r = r' \<and> sh = sh') \<Longrightarrow> calls_ok cs n r' sh' au"
  unfolding calls_ok_def list_all_iff known_policy_def by (fastforce split: option.splits)

lemma revoke_ok:
  assumes "core_ok s" and "carries (rn_revision s) (rn_shape s) p"
  shows "core_ok (revoke_authority r p s)"
proof -
  have c: "calls_ok (rn_calls s) (rn_accepted s) (rn_revision s) (rn_shape s) (rn_authority s)" using assms(1) by (simp add: core_ok_def)
  have "calls_ok (rn_calls (revoke_authority r p s)) (rn_accepted s) (rn_revision s) (rn_shape s) None"
  proof (cases "rn_authority s \<noteq> None \<or> r \<noteq> ''expired''")
    case True
    then show ?thesis using revoked_calls [OF c assms(2)] by (simp add: revoke_authority_def)
  next
    case False
    then show ?thesis using c by (simp add: revoke_authority_def)
  qed
  then show ?thesis using assms(1) by (simp add: core_ok_def revoke_authority_def)
qed

lemma abort_maps:
  "map at_id (map (\<lambda>a. if at_pending a \<and> p a then a\<lparr>at_aborted := True\<rparr> else a) as) = map at_id as"
  "length (filter at_pending (map (\<lambda>a. if at_pending a \<and> p a then a\<lparr>at_aborted := True\<rparr> else a) as)) = length (filter at_pending as)"
  by (induction as) auto

lemma abort_ok: "core_ok s \<Longrightarrow> core_ok (abort_pending p s)"
  by (simp add: core_ok_def abort_pending_def abort_maps del: map_map length_filter_map)

lemma abort_slots: "slots_ok s \<Longrightarrow> slots_ok (abort_pending p s)"
  by (auto simp: slots_ok_def abort_pending_def split: if_splits)

lemma field_ok:
  "core_ok (s\<lparr>rn_floor := n\<rparr>) \<longleftrightarrow> core_ok s" "core_ok (s\<lparr>rn_last_wall := w\<rparr>) \<longleftrightarrow> core_ok s" "core_ok (s\<lparr>rn_timer := b\<rparr>) \<longleftrightarrow> core_ok s"
  "slots_ok (s\<lparr>rn_floor := n\<rparr>) \<longleftrightarrow> slots_ok s" "slots_ok (s\<lparr>rn_last_wall := w\<rparr>) \<longleftrightarrow> slots_ok s" "slots_ok (s\<lparr>rn_timer := b\<rparr>) \<longleftrightarrow> slots_ok s"
  "slots_ok (revoke_authority r p s) \<longleftrightarrow> slots_ok s" "slots_ok (s\<lparr>rn_paused := b\<rparr>) \<longleftrightarrow> slots_ok s" "slots_ok (s\<lparr>rn_closed := b\<rparr>) \<longleftrightarrow> slots_ok s"
  "slots_ok (s\<lparr>rn_revision := n'\<rparr>) \<longleftrightarrow> slots_ok s" "slots_ok (s\<lparr>rn_shape := sh\<rparr>) \<longleftrightarrow> slots_ok s"
  by (simp_all add: core_ok_def slots_ok_def revoke_authority_def)

lemma fresh_ok: "core_ok s \<Longrightarrow> core_ok (snd (fresh_policy tm s))"
  by (auto simp: fresh_policy_def Let_def field_ok carries_def intro!: revoke_ok abort_ok split: option.split)

lemma fresh_slots: "slots_ok s \<Longrightarrow> slots_ok (snd (fresh_policy tm s))"
  by (auto simp: fresh_policy_def Let_def field_ok intro!: abort_slots split: option.split)

lemma invalidate_ok:
  "core_ok s \<Longrightarrow> carries (rn_revision s) (rn_shape s) p \<Longrightarrow> core_ok (invalidate r i p s)"
  unfolding invalidate_def Let_def by (intro abort_ok revoke_ok) (simp_all add: field_ok)

lemma invalidate_slots: "slots_ok s \<Longrightarrow> slots_ok (invalidate r i p s)"
  unfolding invalidate_def Let_def by (intro abort_slots) (simp add: field_ok)

lemma outcome_ok: "core_ok s \<Longrightarrow> core_ok (record_outcome tm a x s)" "slots_ok (record_outcome tm a x s) \<longleftrightarrow> slots_ok s"
  by (auto simp: core_ok_def slots_ok_def record_outcome_def Let_def)

lemma find_attempt_in: "find_attempt i s = Some a \<Longrightarrow> a \<in> set (rn_attempts s) \<and> at_id a = i"
  by (auto simp: find_attempt_def find_Some_iff)

lemma put_maps:
  "at_id a' = at_id a \<Longrightarrow> at_pending a' = at_pending a \<Longrightarrow> a \<in> set as \<Longrightarrow> distinct (map at_id as) \<Longrightarrow>
     map at_id (map (\<lambda>b. if at_id b = at_id a' then a' else b) as) = map at_id as
     \<and> length (filter at_pending (map (\<lambda>b. if at_id b = at_id a' then a' else b) as)) = length (filter at_pending as)"
proof (induction as)
  case (Cons b as)
  show ?case
  proof (cases "at_id b = at_id a")
    case True
    then have "b = a" using Cons.prems(3,4) by (force simp: image_iff)
    moreover have "map (\<lambda>b. if at_id b = at_id a' then a' else b) as = as"
      using Cons.prems(1,4) True by (intro map_idI) (auto simp: image_iff)
    ultimately show ?thesis using Cons.prems by simp
  qed (use Cons in auto)
qed simp

text \<open>An attempt observes a newer policy, or the same again.\<close>

lemma observe_policy_ok:
  assumes "core_ok s" and "find_attempt i s = Some a" and "\<not> r < rn_revision s" and "r = rn_revision s \<Longrightarrow> Some p = rn_shape s"
  shows "core_ok (put_attempt (a\<lparr>at_policy := q\<rparr>) (s\<lparr>rn_revision := r, rn_shape := Some p\<rparr>))"
proof -
  have "distinct (map at_id (rn_attempts s))" using assms(1) by (simp add: core_ok_def)
  then have maps: "map at_id (map (\<lambda>b. if at_id b = at_id a then a\<lparr>at_policy := q\<rparr> else b) (rn_attempts s)) = map at_id (rn_attempts s)"
    "length (filter at_pending (map (\<lambda>b. if at_id b = at_id a then a\<lparr>at_policy := q\<rparr> else b) (rn_attempts s))) = length (filter at_pending (rn_attempts s))"
    using put_maps [of "a\<lparr>at_policy := q\<rparr>" a "rn_attempts s"] find_attempt_in [OF assms(2)] by simp_all
  have "rn_revision s < r \<or> (rn_revision s = r \<and> rn_shape s = Some p)" using assms(3,4) by force
  then have "calls_ok (rn_calls s) (rn_accepted s) r (Some p) (rn_authority s)" using assms(1) newer_calls by (auto simp: core_ok_def)
  then show ?thesis using assms(1) maps by (simp add: core_ok_def put_attempt_def del: map_map length_filter_map)
qed

lemma put_slots: "slots_ok s \<Longrightarrow> find_attempt i s = Some a \<Longrightarrow> slots_ok (put_attempt (a\<lparr>at_policy := q\<rparr>) s)"
  using find_attempt_in [of i s a] by (auto simp: slots_ok_def put_attempt_def split: if_splits)

lemma policy_for_ok: "core_ok s \<and> slots_ok s \<Longrightarrow> core_ok (snd (policy_for tm i v s)) \<and> slots_ok (snd (policy_for tm i v s))"
proof -
  assume "core_ok s \<and> slots_ok s"
  define t where "t = snd (fresh_policy tm s)"
  have t: "core_ok t" "slots_ok t" using \<open>core_ok s \<and> slots_ok s\<close> fresh_ok fresh_slots by (simp_all add: t_def)
  let ?r = "int_of (member v ''revision'')" and ?p = "policy_shape v"
  show ?thesis
  proof (cases "find_attempt i t")
    case None
    then show ?thesis using t by (simp add: policy_for_def Let_def t_def [symmetric])
  next
    case (Some a)
    note found = Some
    consider (quiet) "at_aborted a \<or> at_id a < rn_floor t" | (bad) "\<not> (at_aborted a \<or> at_id a < rn_floor t)" "\<not> policy_valid v"
      | (old) "\<not> (at_aborted a \<or> at_id a < rn_floor t)" "policy_valid v" "?r < rn_revision t \<or> (at_id a < rn_accepted t \<and> ?r = rn_revision t)"
      | (conflict) "\<not> (at_aborted a \<or> at_id a < rn_floor t)" "policy_valid v" "\<not> (?r < rn_revision t \<or> (at_id a < rn_accepted t \<and> ?r = rn_revision t))"
          "?r = rn_revision t \<and> Some ?p \<noteq> rn_shape t"
      | (newer) "\<not> (at_aborted a \<or> at_id a < rn_floor t)" "policy_valid v" "\<not> (?r < rn_revision t \<or> (at_id a < rn_accepted t \<and> ?r = rn_revision t))"
          "\<not> (?r = rn_revision t \<and> Some ?p \<noteq> rn_shape t)"
      by blast
    then show ?thesis
    proof cases
      case newer
      define q where "q = \<lparr>po_revision = ?r, po_shape = ?p, po_off = (member v ''mode'' = JStr ''off'')\<rparr>"
      define u where "u = put_attempt (a\<lparr>at_policy := Some q\<rparr>) (t\<lparr>rn_revision := ?r, rn_shape := Some ?p\<rparr>)"
      define x where "x = JObj [(''mode'', member v ''mode''), (''revision'', member v ''revision''), (''telemetry'', member v ''telemetry'')]"
      have "find_attempt i (t\<lparr>rn_revision := ?r, rn_shape := Some ?p\<rparr>) = Some a" using found by (simp add: find_attempt_def)
      then have u: "core_ok u" "slots_ok u" "rn_revision u = ?r" "rn_shape u = Some ?p"
        using observe_policy_ok [OF t(1) found, of ?r ?p "Some q"] put_slots [of "t\<lparr>rn_revision := ?r, rn_shape := Some ?p\<rparr>" i a "Some q"] newer t(2)
        by (auto simp: put_attempt_def field_ok u_def)
      have "core_ok (invalidate ''operator-off'' (at_id a) (Some x) u)"
        using u by (intro invalidate_ok) (simp_all add: jget_Cons carries_def policy_shape_def x_def)
      moreover have "snd (policy_for tm i v s) = (if member v ''mode'' = JStr ''off'' then invalidate ''operator-off'' (at_id a) (Some x) u else u)"
        unfolding u_def q_def x_def
        by (simp only: policy_for_def Let_def t_def [symmetric] found option.case if_not_P [OF newer(1)] if_not_P [OF newer(3)] if_not_P [OF newer(4)]
            newer(2) not_True_eq_False if_False snd_conv)
      ultimately show ?thesis using u invalidate_slots [OF u(2)] by simp
    qed (use t in \<open>auto simp: policy_for_def Let_def t_def [symmetric] found carries_def intro!: invalidate_ok invalidate_slots\<close>)
  qed
qed

lemma unpend_maps:
  "map at_id (map (\<lambda>b. if at_id b = i then b\<lparr>at_pending := False\<rparr> else b) as) = map at_id as"
  "length (filter at_pending (map (\<lambda>b. if at_id b = i then b\<lparr>at_pending := False\<rparr> else b) as)) \<le> length (filter at_pending as)"
  by (induction as) auto

lemma unpend_ok: "core_ok s \<Longrightarrow> core_ok (unpend i s)"
  using unpend_maps(2) [of i "rn_attempts s"] by (simp add: core_ok_def unpend_def unpend_maps(1) del: map_map length_filter_map)

lemma unpend_slots: "slots_ok s \<Longrightarrow> slots_ok (unpend i s)" "rn_accepted s = i \<Longrightarrow> slots_ok (unpend i s)"
  by (auto simp: slots_ok_def unpend_def split: if_splits)

lemma renew_failed_ok: "core_ok s \<Longrightarrow> core_ok (renew_failed tm a c s)"
  by (auto simp: renew_failed_def Let_def carries_def intro!: fresh_ok outcome_ok invalidate_ok)

lemma renew_failed_slots: "slots_ok s \<Longrightarrow> slots_ok (renew_failed tm a c s)"
  by (auto simp: renew_failed_def Let_def outcome_ok intro!: fresh_slots invalidate_slots)

lemma accepted_kept [simp]: "rn_accepted (revoke_authority r p s) = rn_accepted s" "rn_accepted (abort_pending q s) = rn_accepted s"
  "rn_accepted (invalidate r i p s) = rn_accepted s" "rn_accepted (record_outcome tm a x s) = rn_accepted s" "rn_accepted (snd (fresh_policy tm s)) = rn_accepted s"
  by (simp_all add: revoke_authority_def abort_pending_def invalidate_def record_outcome_def fresh_policy_def Let_def split: option.split)

lemma renew_failed_accepted [simp]: "rn_accepted (renew_failed tm a c s) = rn_accepted s"
  by (simp add: renew_failed_def Let_def)

lemma commit_ok:
  assumes "core_ok s" and "policy_holds a s" and "rn_accepted s < at_id a" and "\<not> rn_paused s" and "at_id a \<le> rn_sequence s"
  shows "core_ok (s\<lparr>rn_accepted := at_id a, rn_authority := Some a, rn_timer := True, rn_calls := rn_calls s @ [Committed a]\<rparr>)"
proof -
  obtain q where "at_policy a = Some q" "po_revision q = rn_revision s" "rn_shape s = Some (po_shape q)"
    using assms(2) by (auto simp: policy_holds_def split: option.splits)
  then have "calls_ok (rn_calls s @ [Committed a]) (at_id a) (rn_revision s) (rn_shape s) (Some a)"
    using assms(1,3) by (intro committed_calls) (auto simp: core_ok_def)
  then show ?thesis using assms(1,4,5) by (simp add: core_ok_def)
qed

lemma same_pending:
  assumes "map (\<lambda>a. (at_id a, at_pending a)) as = map (\<lambda>a. (at_id a, at_pending a)) bs" and "distinct (map at_id bs)"
    and "b \<in> set bs \<and> at_id b = i" and "a \<in> set as \<and> at_id a = i" and "at_pending b"
  shows "at_pending a"
proof -
  have "(at_id a, at_pending a) \<in> set (map (\<lambda>a. (at_id a, at_pending a)) bs)" unfolding assms(1) [symmetric] using assms(4) by auto
  then obtain c where c: "c \<in> set bs" "at_id c = at_id a" "at_pending c = at_pending a" by auto
  moreover have "inj_on at_id (set bs)" using assms(2) by (simp add: distinct_map)
  ultimately have "c = b" using assms(3,4) by (auto dest: inj_onD)
  then show ?thesis using c(3) assms(5) by simp
qed

lemma renew_end_ok: "core_ok s \<and> slots_ok s \<Longrightarrow> core_ok (snd (renew_end tm i e s)) \<and> slots_ok (snd (renew_end tm i e s))"
proof -
  assume ok: "core_ok s \<and> slots_ok s"
  define t where "t = snd (fresh_policy tm s)"
  have t: "core_ok t" "slots_ok t" using ok fresh_ok fresh_slots by (simp_all add: t_def)
  have sound: "core_ok (unpend i (snd (renew_loaded tm a x y t))) \<and> slots_ok (unpend i (snd (renew_loaded tm a x y t)))"
    if a: "find_attempt i t = Some a" "at_pending a" for a x y
  proof (cases "rn_closed t \<or> rn_paused t \<or> at_aborted a \<or> attempt_expired tm a \<or> at_id a < rn_floor t \<or> at_id a < rn_accepted t
         \<or> \<not> policy_holds a t \<or> \<not> x")
    case True
    then show ?thesis using t outcome_ok unpend_ok unpend_slots(1) by (simp add: renew_loaded_def)
  next
    case False
    let ?u = "t\<lparr>rn_accepted := at_id a, rn_authority := Some a, rn_timer := True, rn_calls := rn_calls t @ [Committed a]\<rparr>"
    have "at_id a \<noteq> rn_accepted t" using t(2) a find_attempt_in [OF a(1)] by (auto simp: slots_ok_def)
    moreover have "at_id a \<in> set (map at_id (rn_attempts t))" using find_attempt_in [OF a(1)] by auto
    then have "at_id a \<le> rn_sequence t" using t(1) by (auto simp add: core_ok_def simp del: set_map)
    ultimately have "core_ok ?u" using False t(1) by (intro commit_ok) auto
    moreover have "at_id a = i" using find_attempt_in [OF a(1)] by simp
    ultimately show ?thesis
      using False by (auto simp: renew_loaded_def Let_def intro!: unpend_ok unpend_slots(2) renew_failed_ok outcome_ok)
  qed
  have pending: "at_pending a" if "find_attempt i s = Some b" "at_pending b" "find_attempt i t = Some a" for a b
  proof -
    have "map (\<lambda>a. (at_id a, at_pending a)) (rn_attempts t) = map (\<lambda>a. (at_id a, at_pending a)) (rn_attempts s)"
      by (auto simp: t_def fresh_policy_def Let_def revoke_authority_def abort_pending_def split: option.split)
    moreover have "distinct (map at_id (rn_attempts s))" using ok by (simp add: core_ok_def)
    ultimately show ?thesis
      using find_attempt_in [OF that(1)] find_attempt_in [OF that(3)] that(2) by (rule same_pending)
  qed
  show ?thesis
  proof (cases "find_attempt i s")
    case None
    then show ?thesis using ok by (simp add: renew_end_def)
  next
    case (Some b)
    then show ?thesis
      using ok t sound pending [OF Some]
      by (auto simp: renew_end_def Let_def t_def [symmetric] case_prod_unfold intro!: unpend_ok unpend_slots(1) renew_failed_ok renew_failed_slots
          split: load_end.split option.split)
  qed
qed

lemma pause_ok: "core_ok s \<Longrightarrow> core_ok (suspend_renewal r s)" "slots_ok s \<Longrightarrow> slots_ok (suspend_renewal r s)"
proof -
  assume ok: "core_ok s"
  have "core_ok (invalidate r (rn_sequence s) None s)" using ok by (rule invalidate_ok) (simp add: carries_def)
  moreover have "rn_authority (invalidate r (rn_sequence s) None s) = None"
    by (simp add: invalidate_def Let_def abort_pending_def revoke_authority_def)
  ultimately have "core_ok ((invalidate r (rn_sequence s) None s)\<lparr>rn_paused := True\<rparr>)" by (simp add: core_ok_def)
  moreover have "invalidate r (rn_sequence s) None (s\<lparr>rn_paused := True\<rparr>) = (invalidate r (rn_sequence s) None s)\<lparr>rn_paused := True\<rparr>"
    by (simp add: invalidate_def Let_def revoke_authority_def abort_pending_def)
  ultimately have "core_ok (invalidate r (rn_sequence s) None (s\<lparr>rn_paused := True\<rparr>))" by simp
  then show "core_ok (suspend_renewal r s)" by (simp add: suspend_renewal_def abort_ok)
next
  assume "slots_ok s"
  then show "slots_ok (suspend_renewal r s)" by (simp add: suspend_renewal_def abort_slots invalidate_slots field_ok)
qed

lemma start_ok: "core_ok s \<and> slots_ok s \<Longrightarrow> core_ok (snd (renew_start tm s)) \<and> slots_ok (snd (renew_start tm s))"
proof -
  assume ok: "core_ok s \<and> slots_ok s"
  define t where "t = snd (fresh_policy tm s)"
  have t: "core_ok t" "slots_ok t" using ok fresh_ok fresh_slots by (simp_all add: t_def)
  show ?thesis using t by (auto simp: renew_start_def Let_def t_def [symmetric] core_ok_def slots_ok_def)
qed

lemma closed_ok: "core_ok s \<Longrightarrow> rn_paused s \<Longrightarrow> core_ok (s\<lparr>rn_closed := True\<rparr>)"
  by (auto simp: core_ok_def)

lemma check_expiry_ok: "core_ok s \<and> slots_ok s \<Longrightarrow> core_ok (check_expiry tm s) \<and> slots_ok (check_expiry tm s)"
  by (simp add: check_expiry_def Let_def case_prod_unfold field_ok fresh_ok fresh_slots)

lemma renewal_apply_ok:
  assumes "core_ok s \<and> slots_ok s"
  shows "core_ok (renewal_apply e s) \<and> slots_ok (renewal_apply e s)"
proof (cases e)
  case (Invalidates r i)
  then show ?thesis
    using assms by (auto simp: renewal_apply_def load_invalidates_def carries_def intro!: invalidate_ok invalidate_slots split: option.split)
next
  case Resumed
  then show ?thesis using assms by (auto simp: renewal_apply_def resume_renewal_def core_ok_def slots_ok_def)
next
  case Close
  have "core_ok (suspend_renewal ''closed'' s)" using pause_ok(1) assms by blast
  moreover have "rn_paused (suspend_renewal ''closed'' s)"
    by (simp add: suspend_renewal_def invalidate_def Let_def abort_pending_def revoke_authority_def)
  ultimately have "core_ok ((suspend_renewal ''closed'' s)\<lparr>rn_closed := True\<rparr>)" by (rule closed_ok)
  then show ?thesis using assms pause_ok(2) [of s "''closed''"] by (simp add: Close renewal_apply_def close_renewal_def field_ok)
qed (use assms in \<open>simp_all add: renewal_apply_def fresh_ok fresh_slots check_expiry_ok start_ok attempt_timeout_def abort_ok abort_slots policy_for_ok
      renew_end_ok pause_ok\<close>)

lemma renewal_run_ok: "core_ok (fold renewal_apply es (new_renewal tm)) \<and> slots_ok (fold renewal_apply es (new_renewal tm))"
proof -
  have "core_ok s \<and> slots_ok s \<Longrightarrow> core_ok (fold renewal_apply es s) \<and> slots_ok (fold renewal_apply es s)" for s
    by (induction es arbitrary: s) (simp_all add: renewal_apply_ok)
  moreover have "core_ok (new_renewal tm) \<and> slots_ok (new_renewal tm)" by (simp add: core_ok_def slots_ok_def calls_ok_def new_renewal_def)
  ultimately show ?thesis by blast
qed

lemma fresh_result:
  assumes "fresh_policy tm s = (True, t)"
  shows "\<exists>a. rn_authority t = Some a \<and> \<not> attempt_expired tm a \<and> \<not> rn_paused t \<and> \<not> rn_closed t"
  using assms by (auto simp: fresh_policy_def Let_def revoke_authority_def split: option.splits if_splits)

text \<open>
  C26: authority is bounded, known to the host and never goes back. After any operations on any clocks, when the
  page holds its policy fresh, the policy comes from a check that was issued, on both clocks, not in the future
  and less than five seconds ago, and committing that check is the last thing that the host was told. At all
  times the checks that the host was told to commit have increasing numbers; the policies of its commits and of
  the operator's OFFs have revisions that never decrease, with one policy per revision; at most three checks are
  pending and 64 records kept.
\<close>

theorem policy_fresh:
  assumes "s = fold renewal_apply es (new_renewal start)" and "fresh_policy tm s = (b, t)"
  shows "(b \<longrightarrow> (\<exists>a. rn_authority t = Some a \<and> last (rn_calls t) = Committed a
        \<and> ck_mono (at_issued a) \<le> ck_mono tm \<and> ck_mono tm < ck_mono (at_issued a) + 5000
        \<and> ck_wall (at_issued a) \<le> ck_wall tm \<and> ck_wall tm < ck_wall (at_issued a) + 5000))
    \<and> sorted_wrt id_before (rn_calls t) \<and> sorted_wrt policy_before (rn_calls t)
    \<and> length (filter at_pending (rn_attempts t)) \<le> 3 \<and> length (rn_records t) \<le> 64"
proof -
  have "core_ok s" using renewal_run_ok by (simp add: assms(1))
  then have t: "core_ok t" using fresh_ok [of s tm] assms(2) by simp
  have "\<exists>a. rn_authority t = Some a \<and> last (rn_calls t) = Committed a \<and> \<not> attempt_expired tm a" if b
    using fresh_result [of tm s t] assms(2) that t
    by (auto simp: core_ok_def calls_ok_def told_def split: if_splits host_call.splits)
  then show ?thesis
    using t by (fastforce simp: core_ok_def calls_ok_def attempt_expired_def remaining_ms_def lifetime_ms_def)
qed

definition ex_clock :: "int \<Rightarrow> clock" where "ex_clock n = \<lparr>ck_mono = n, ck_wall = 1000 + n\<rparr>"

definition ex_shadow :: js where
  "ex_shadow = JObj [(''mode'', JStr ''shadow''), (''revision'', JInt 1), (''telemetry'', JBool False)]"

definition ex_renewal :: renewal where
  "ex_renewal = fold renewal_apply [Start (ex_clock 1), Observed (ex_clock 2) 1 ex_shadow, Ended (ex_clock 3) 1 (Loaded True False)] (new_renewal (ex_clock 0))"

lemma ex_fresh: "fst (fresh_policy (ex_clock 10) ex_renewal)"
  by code_simp

theorem policy_fresh_witness:
  "\<exists>a. rn_authority (snd (fresh_policy (ex_clock 10) ex_renewal)) = Some a \<and> 10 < ck_mono (at_issued a) + 5000"
proof -
  have "fresh_policy (ex_clock 10) ex_renewal = (True, snd (fresh_policy (ex_clock 10) ex_renewal))" using ex_fresh by (simp add: prod_eq_iff)
  then show ?thesis using policy_fresh [OF ex_renewal_def] by (fastforce simp: ex_clock_def)
qed

end
