(* ===== verification/Account_Client.thy ===== *)
theory Account_Client
  imports Policy_Renewal
begin

text \<open>
  The page's side of an account allowance: \<open>createAccountBudgetClient\<close> of \<open>demo/account-budget-client.mjs\<close>.

  Each asynchronous function is cut at its awaits: a start, and one operation for each answer.  What is under way
  is in \<open>bc_tasks\<close>; \<open>fail_task\<close> is a rejection: a failed fetch, a timeout or an abort.  A request that is sent is
  appended to \<open>bc_posts\<close>, a result that is returned to \<open>bc_results\<close>.  Signing with the page's key and checking a
  signature are arguments, and so are the bytes that \<open>random\<close> gives, as the operation id that they spell.  An
  object that is replaced is told from an equal one by a serial number.
\<close>

record credential =
  cr_serial :: nat
  cr_grant :: string
  cr_epoch :: int
  cr_expires :: int
  cr_delegation :: int
  cr_issued :: int
  cr_started :: clock
  cr_received :: clock
  cr_remaining :: int

record budget_view =
  bv_limit :: int
  bv_spent :: int
  bv_remaining :: int
  bv_revision :: int
  bv_generation :: int

record owner_action =
  oa_action :: string
  oa_methods :: "string list"
  oa_settings :: "js option"
  oa_attempt :: nat
  oa_configured :: js
  oa_started :: clock

text \<open>What a verified challenge leaves for the rest of an owner's action.\<close>

record challenge_seen =
  ch_challenge :: string
  ch_expires :: int
  ch_delegation :: int
  ch_template :: js

datatype task =
    Reserving int credential nat
  | Renewing credential nat clock
  | Checking credential nat
  | Leaving
  | Challenging owner_action
  | AwaitingKey owner_action challenge_seen
  | AwaitingSignature owner_action challenge_seen string
  | Authorizing owner_action challenge_seen clock

record client =
  bc_descriptor :: "js option"
  bc_required :: bool
  bc_credential :: "credential option"
  bc_state :: "budget_view option"
  bc_failed :: bool
  bc_busy :: bool
  bc_generation :: nat
  bc_maintenance :: bool
  bc_last_status :: int
  bc_last :: clock
  bc_serial :: nat
  bc_tasks :: "(nat \<times> task) list"
  bc_next :: nat
  bc_posts :: "(string \<times> js) list"
  bc_results :: "(nat \<times> bool) list"
  bc_revocations :: nat

record client_host =
  ch_origin :: string
  ch_page :: string
  ch_sign :: "js \<Rightarrow> js"
  ch_verify :: "js \<Rightarrow> bool"

definition new_client :: "clock \<Rightarrow> client" where
  "new_client tm = \<lparr>bc_descriptor = None, bc_required = False, bc_credential = None, bc_state = None, bc_failed = False, bc_busy = False,
     bc_generation = 0, bc_maintenance = False, bc_last_status = 0, bc_last = tm, bc_serial = 0, bc_tasks = [], bc_next = 0, bc_posts = [],
     bc_results = [], bc_revocations = 0\<rparr>"

subsection \<open>Values\<close>

definition natural_value :: "js \<Rightarrow> bool" where
  "natural_value v \<longleftrightarrow> safe_integer v \<and> 0 \<le> int_of v"

definition limit_value :: "js \<Rightarrow> bool" where
  "limit_value v \<longleftrightarrow> natural_value v \<and> int_of v \<le> 1000000000000"

definition hex_value_of :: "nat \<Rightarrow> js \<Rightarrow> bool" where
  "hex_value_of n v \<longleftrightarrow> is_string v \<and> hex_string (js_string v) n"

definition exact_keys :: "js \<Rightarrow> string list \<Rightarrow> bool" where
  "exact_keys v keys \<longleftrightarrow> (case v of JObj m \<Rightarrow> commas (sort (map fst m)) = commas (sort keys) | _ \<Rightarrow> False)"

definition methods_value :: "js \<Rightarrow> bool" where
  "methods_value v \<longleftrightarrow> v \<in> {JArr [JStr ''nostr''], JArr [JStr ''website''], JArr [JStr ''nostr'', JStr ''website'']}"

definition budget_paths :: "(string \<times> string) list" where
  "budget_paths = [(''challengeEndpoint'', ''/account-budget/challenge''), (''authorizeEndpoint'', ''/account-budget/authorize''),
     (''reserveEndpoint'', ''/account-budget/reserve''), (''statusEndpoint'', ''/account-budget/status''),
     (''renewEndpoint'', ''/account-budget/renew''), (''logoutEndpoint'', ''/account-budget/logout'')]"

definition descriptor_ok :: "js \<Rightarrow> bool" where
  "descriptor_ok v \<longleftrightarrow> member v ''v'' = JInt 1 \<and> is_array (member v ''methods'') \<and> 1 \<le> length (elems (member v ''methods'')) \<and> length (elems (member v ''methods'')) \<le> 2
     \<and> distinct (elems (member v ''methods'')) \<and> list_all (\<lambda>m. m = JStr ''nostr'' \<or> m = JStr ''website'') (elems (member v ''methods''))
     \<and> limit_value (member v ''defaultLimit'') \<and> natural_value (member v ''grantTtlSeconds'')
     \<and> 30 \<le> int_of (member v ''grantTtlSeconds'') \<and> int_of (member v ''grantTtlSeconds'') \<le> 300
     \<and> natural_value (member v ''delegationTtlSeconds'') \<and> int_of (member v ''grantTtlSeconds'') \<le> int_of (member v ''delegationTtlSeconds'')
     \<and> int_of (member v ''delegationTtlSeconds'') \<le> 86400 \<and> list_all (\<lambda>(key, path). member v key = JStr path) budget_paths"

subsection \<open>Clocks and authority\<close>

definition revoke_client :: "client \<Rightarrow> client" where
  "revoke_client s = s\<lparr>bc_failed := True, bc_credential := None, bc_generation := bc_generation s + 1, bc_revocations := bc_revocations s + 1\<rparr>"

text \<open>\<open>clockPoint\<close>: \<open>False\<close> is a throw.\<close>

definition clock_point :: "clock \<Rightarrow> client \<Rightarrow> bool \<times> client" where
  "clock_point tm s =
     (safe_int (ck_wall tm) \<and> 0 \<le> ck_wall tm \<and> 0 \<le> ck_mono tm \<and> ck_wall (bc_last s) \<le> ck_wall tm \<and> ck_mono (bc_last s) \<le> ck_mono tm,
      s\<lparr>bc_last := tm\<rparr>)"

definition elapsed :: "clock \<Rightarrow> clock \<Rightarrow> int option" where
  "elapsed a b = (if ck_wall b < ck_wall a \<or> ck_mono b < ck_mono a then None
     else Some (max (ck_wall b - ck_wall a) (ck_mono b - ck_mono a)))"

definition issuer_time :: "int \<Rightarrow> clock \<Rightarrow> clock \<Rightarrow> int option" where
  "issuer_time issued started tm = map_option (\<lambda>e. issued + e) (elapsed started tm)"

definition credential_live :: "clock \<Rightarrow> credential \<Rightarrow> bool" where
  "credential_live tm c \<longleftrightarrow> (case (issuer_time (cr_issued c) (cr_started c) tm, elapsed (cr_received c) tm) of
     (Some t, Some e) \<Rightarrow> t < min (cr_expires c) (cr_delegation c) \<and> e < cr_remaining c | _ \<Rightarrow> False)"

definition client_fresh :: "clock \<Rightarrow> client \<Rightarrow> bool \<times> client" where
  "client_fresh tm s =
     (let (ok, s) = clock_point tm s;
          s = (case bc_credential s of None \<Rightarrow> s | Some c \<Rightarrow> if \<not> ok \<or> \<not> credential_live tm c then revoke_client s else s)
      in (\<not> bc_required s \<or> (bc_credential s \<noteq> None \<and> \<not> bc_failed s), s))"

definition configure_client :: "js \<Rightarrow> client \<Rightarrow> bool \<times> client" where
  "configure_client v s =
     (if v = JUndefined \<or> v = JNull then (True, (if bc_descriptor s \<noteq> None \<and> bc_required s then revoke_client s else s)\<lparr>bc_descriptor := None\<rparr>)
      else if \<not> descriptor_ok v then (False, s)
      else (case bc_descriptor s of
          None \<Rightarrow> (True, s\<lparr>bc_descriptor := Some v\<rparr>)
        | Some d \<Rightarrow>
            if json_text d = json_text v then (True, s)
            else (True, (if bc_required s then revoke_client s else s)\<lparr>bc_descriptor := Some v\<rparr>)))"

subsection \<open>The state of the account\<close>

definition validate_state :: "js \<Rightarrow> budget_view option" where
  "validate_state v =
     (if exact_keys v [''v'', ''limit'', ''spent'', ''remaining'', ''revision'', ''generation'', ''linkedMethods''] \<and> member v ''v'' = JInt 1
         \<and> limit_value (member v ''limit'') \<and> natural_value (member v ''spent'')
         \<and> member v ''remaining'' = JInt (max 0 (int_of (member v ''limit'') - int_of (member v ''spent'')))
         \<and> natural_value (member v ''revision'') \<and> 1 \<le> int_of (member v ''revision'')
         \<and> natural_value (member v ''generation'') \<and> 1 \<le> int_of (member v ''generation'') \<and> methods_value (member v ''linkedMethods'')
      then Some \<lparr>bv_limit = int_of (member v ''limit''), bv_spent = int_of (member v ''spent''), bv_remaining = int_of (member v ''remaining''),
        bv_revision = int_of (member v ''revision''), bv_generation = int_of (member v ''generation'')\<rparr>
      else None)"

definition later_view :: "budget_view \<Rightarrow> budget_view \<Rightarrow> bool" where
  "later_view v w \<longleftrightarrow> bv_generation w < bv_generation v \<or> (bv_generation v = bv_generation w \<and> bv_revision w \<le> bv_revision v)"

text \<open>\<open>acceptState\<close>: \<open>None\<close> is a throw.\<close>

definition accept_view :: "budget_view option \<Rightarrow> budget_view \<Rightarrow> budget_view option" where
  "accept_view old v =
     (case old of
        None \<Rightarrow> Some v
      | Some w \<Rightarrow>
          if bv_generation v = bv_generation w \<and> bv_revision v = bv_revision w then
            (if bv_limit v \<noteq> bv_limit w then None
             else (let spent = max (bv_spent v) (bv_spent w) in Some (v\<lparr>bv_spent := spent, bv_remaining := max 0 (bv_limit v - spent)\<rparr>)))
          else Some (if later_view v w then v else w))"

definition accept_state :: "js \<Rightarrow> client \<Rightarrow> client option" where
  "accept_state v s =
     (case validate_state v of
        None \<Rightarrow> None
      | Some view \<Rightarrow> map_option (\<lambda>w. s\<lparr>bc_state := Some w\<rparr>) (accept_view (bc_state s) view))"

definition known_generation :: "client \<Rightarrow> js" where
  "known_generation s = (case bc_state s of None \<Rightarrow> JUndefined | Some w \<Rightarrow> JInt (bv_generation w))"

subsection \<open>Installing a grant\<close>

text \<open>The conditions on a grant; \<open>old\<close> is the credential that it renews.\<close>

definition grant_ok :: "js \<Rightarrow> credential option \<Rightarrow> js \<Rightarrow> int \<Rightarrow> int \<Rightarrow> bool" where
  "grant_ok v old known issuer_now ttl \<longleftrightarrow>
     member v ''v'' = JInt 1 \<and> hex_value_of 64 (member v ''grant'') \<and> natural_value (member v ''expiresAt'')
     \<and> issuer_now < int_of (member v ''expiresAt'') \<and> int_of (member v ''expiresAt'') \<le> issuer_now + ttl
     \<and> natural_value (member v ''delegationExpiresAt'') \<and> int_of (member v ''expiresAt'') \<le> int_of (member v ''delegationExpiresAt'')
     \<and> natural_value (member v ''epoch'') \<and> 1 \<le> int_of (member v ''epoch'') \<and> member v ''requiresFreshUploadConsent'' = JBool (old = None)
     \<and> strict_eq (member (member v ''snapshot'') ''revision'') (member v ''epoch'')
     \<and> (case old of None \<Rightarrow> True | Some c \<Rightarrow> member v ''delegationExpiresAt'' = JInt (cr_delegation c) \<and> member v ''epoch'' = JInt (cr_epoch c)
          \<and> strict_eq (member (member v ''snapshot'') ''generation'') known)"

text \<open>\<open>install\<close>: \<open>False\<close> is a throw.\<close>

definition install_grant :: "clock \<Rightarrow> js \<Rightarrow> credential option \<Rightarrow> int \<Rightarrow> clock \<Rightarrow> clock \<Rightarrow> client \<Rightarrow> bool \<times> client" where
  "install_grant tm v old issued started requested s =
     (let (ok, s) = clock_point tm s in
      (case (if ok then issuer_time issued started tm else None, elapsed requested tm, bc_descriptor s) of
         (Some issuer_now, Some waited, Some d) \<Rightarrow>
           (let ttl = int_of (member d ''grantTtlSeconds'') * 1000;
                remaining = min (ttl - waited) (min (int_of (member v ''expiresAt'') - issuer_now) (int_of (member v ''delegationExpiresAt'') - issuer_now)) in
            if \<not> grant_ok v old (known_generation s) issuer_now ttl \<or> remaining \<le> 0 then (False, s)
            else (case accept_state (member v ''snapshot'') s of
                None \<Rightarrow> (False, s)
              | Some s \<Rightarrow>
                  (True, s\<lparr>bc_credential := Some \<lparr>cr_serial = bc_serial s, cr_grant = js_string (member v ''grant''), cr_epoch = int_of (member v ''epoch''),
                       cr_expires = int_of (member v ''expiresAt''), cr_delegation = int_of (member v ''delegationExpiresAt''), cr_issued = issued,
                       cr_started = started, cr_received = tm, cr_remaining = remaining\<rparr>,
                     bc_serial := bc_serial s + 1, bc_failed := False, bc_last_status := ck_wall tm\<rparr>)))
       | _ \<Rightarrow> (False, s)))"

subsection \<open>Requests\<close>

definition is_post :: "task \<Rightarrow> bool" where
  "is_post t \<longleftrightarrow> (case t of AwaitingKey a c \<Rightarrow> False | AwaitingSignature a c k \<Rightarrow> False | _ \<Rightarrow> True)"

definition pending_posts :: "client \<Rightarrow> nat" where
  "pending_posts s = length (filter (is_post \<circ> snd) (bc_tasks s))"

text \<open>\<open>post\<close>: \<open>None\<close> where too many are pending; otherwise the task is under way.\<close>

definition send_post :: "string \<Rightarrow> js \<Rightarrow> task \<Rightarrow> client \<Rightarrow> (nat \<times> client) option" where
  "send_post path body t s =
     (if pending_posts s \<ge> 8 then None
      else Some (bc_next s, s\<lparr>bc_tasks := bc_tasks s @ [(bc_next s, t)], bc_next := bc_next s + 1, bc_posts := bc_posts s @ [(path, body)]\<rparr>))"

definition end_task :: "nat \<Rightarrow> bool \<Rightarrow> client \<Rightarrow> client" where
  "end_task i r s = s\<lparr>bc_tasks := jdel i (bc_tasks s), bc_results := bc_results s @ [(i, r)]\<rparr>"

definition request_content :: "client_host \<Rightarrow> string \<Rightarrow> credential \<Rightarrow> string \<Rightarrow> int option \<Rightarrow> string" where
  "request_content h action c oid amount =
     json_text (JObj [(''v'', JInt 1), (''purpose'', JStr ''relayswarm-account-budget-request''), (''origin'', JStr (ch_origin h)), (''action'', JStr action),
       (''grant'', JStr (cr_grant c)), (''operationId'', JStr oid), (''bytes'', case amount of None \<Rightarrow> JNull | Some n \<Rightarrow> JInt n)])"

text \<open>\<open>requestBody\<close>: it reads the clocks, and \<open>None\<close> is a throw.\<close>

definition request_body :: "client_host \<Rightarrow> clock \<Rightarrow> string \<Rightarrow> string \<Rightarrow> credential \<Rightarrow> int option \<Rightarrow> client \<Rightarrow> js option \<times> client" where
  "request_body h tm oid action c amount s =
     (let (ok, s') = clock_point tm s in
      if \<not> hex_string oid 32 then (None, s)
      else (case (if ok then issuer_time (cr_issued c) (cr_started c) tm else None) of
          None \<Rightarrow> (None, s')
        | Some t \<Rightarrow>
            (Some (JObj ([(''v'', JInt 1), (''grant'', JStr (cr_grant c)), (''operationId'', JStr oid)]
                @ (case amount of None \<Rightarrow> [] | Some n \<Rightarrow> [(''bytes'', JInt n)])
                @ [(''proof'', ch_sign h (JObj [(''kind'', JInt 27238), (''created_at'', JInt (t div 1000)), (''tags'', JArr []),
                      (''content'', JStr (request_content h action c oid amount))]))])), s')))"

subsection \<open>Reserving\<close>

definition fail_attempt :: "nat \<Rightarrow> client \<Rightarrow> client" where
  "fail_attempt g s = (if g = bc_generation s then revoke_client s else s)"

text \<open>A start answers at once, \<open>Some\<close> the result, or leaves a task.\<close>

definition reserve_start :: "client_host \<Rightarrow> clock \<Rightarrow> string \<Rightarrow> int \<Rightarrow> bool \<Rightarrow> client \<Rightarrow> bool option \<times> client" where
  "reserve_start h tm oid amount aborted s =
     (if amount < 1 \<or> amount > 1000000000000 \<or> aborted then (Some False, s)
      else if \<not> bc_required s then (Some True, s)
      else (let (ok, s) = client_fresh tm s in
        (case bc_credential s of
           None \<Rightarrow> (Some False, s)
         | Some c \<Rightarrow>
             if \<not> ok then (Some False, s)
             else (let (body, s) = request_body h tm oid ''reserve'' c (Some amount) s in
               (case (case body of None \<Rightarrow> None | Some b \<Rightarrow> send_post ''/account-budget/reserve'' b (Reserving amount c (bc_generation s)) s) of
                  None \<Rightarrow> (Some False, revoke_client s)
                | Some (i, s) \<Rightarrow> (None, s))))))"

definition reserve_value_ok :: "js \<Rightarrow> int \<Rightarrow> credential \<Rightarrow> js \<Rightarrow> bool" where
  "reserve_value_ok v amount c known \<longleftrightarrow>
     member v ''v'' = JInt 1 \<and> (\<exists>b. member v ''accepted'' = JBool b) \<and> (\<exists>b. member v ''duplicate'' = JBool b) \<and> natural_value (member v ''reservedBytes'')
     \<and> (member v ''accepted'' = JBool True \<longrightarrow> member v ''reservedBytes'' = JInt amount)
     \<and> (member v ''accepted'' = JBool False \<longrightarrow> member v ''reservedBytes'' = JInt 0 \<and> member v ''reason'' = JStr ''exhausted'')
     \<and> member (member v ''snapshot'') ''revision'' = JInt (cr_epoch c) \<and> strict_eq (member (member v ''snapshot'') ''generation'') known"

definition same_authority :: "credential \<Rightarrow> nat \<Rightarrow> client \<Rightarrow> bool" where
  "same_authority c g s \<longleftrightarrow> g = bc_generation s \<and> (case bc_credential s of None \<Rightarrow> False | Some d \<Rightarrow> cr_serial d = cr_serial c)"

definition reserve_reply :: "clock \<Rightarrow> js \<Rightarrow> bool \<Rightarrow> int \<Rightarrow> credential \<Rightarrow> nat \<Rightarrow> client \<Rightarrow> bool \<times> client" where
  "reserve_reply tm v aborted amount c g s =
     (if aborted \<or> \<not> same_authority c g s then (False, s)
      else (let (ok, s) = client_fresh tm s in
        if \<not> ok then (False, s)
        else if \<not> reserve_value_ok v amount c (known_generation s) then (False, revoke_client s)
        else (case accept_state (member v ''snapshot'') s of
            None \<Rightarrow> (False, revoke_client s)
          | Some s \<Rightarrow> if member v ''accepted'' = JBool True then (True, s) else (False, revoke_client s))))"

subsection \<open>Maintenance and leaving\<close>

definition maintain_start :: "client_host \<Rightarrow> clock \<Rightarrow> string \<Rightarrow> client \<Rightarrow> bool option \<times> client" where
  "maintain_start h tm oid s =
     (if \<not> bc_required s \<or> bc_busy s \<or> bc_maintenance s then (Some False, s)
      else (let (ok, s) = client_fresh tm s in
        (case bc_credential s of
           None \<Rightarrow> (Some False, s)
         | Some c \<Rightarrow>
             if \<not> ok then (Some False, s)
             else (let (ok, s) = clock_point tm s in
               (case (if ok then elapsed (cr_received c) tm else None) of
                  None \<Rightarrow> (Some False, revoke_client s)
                | Some e \<Rightarrow>
                    (let renewal = (cr_remaining c - e \<le> 20000) in
                     if \<not> renewal \<and> ck_wall tm - bc_last_status s < 15000 then (Some True, s)
                     else (let (body, s) = request_body h tm oid (if renewal then ''renew'' else ''status'') c None s in
                       (case (case body of None \<Rightarrow> None
                              | Some b \<Rightarrow> send_post (if renewal then ''/account-budget/renew'' else ''/account-budget/status'') b
                                  (if renewal then Renewing c (bc_generation s) tm else Checking c (bc_generation s)) s) of
                          None \<Rightarrow> (Some False, revoke_client s)
                        | Some (i, s) \<Rightarrow> (None, s\<lparr>bc_maintenance := True\<rparr>)))))))))"

definition maintained :: "clock \<Rightarrow> client \<Rightarrow> bool \<times> client" where
  "maintained tm s =
     client_fresh tm (if (case bc_state s of None \<Rightarrow> False | Some w \<Rightarrow> bv_remaining w = 0) then revoke_client s else s)"

definition renew_reply :: "clock \<Rightarrow> js \<Rightarrow> credential \<Rightarrow> nat \<Rightarrow> clock \<Rightarrow> client \<Rightarrow> bool \<times> client" where
  "renew_reply tm v c g requested s =
     (if \<not> same_authority c g s then (False, s)
      else (let (ok, s) = client_fresh tm s in
        if \<not> ok then (False, s)
        else (let (ok, s) = install_grant tm v (Some c) (cr_issued c) (cr_started c) requested s in
          if \<not> ok then (False, revoke_client s) else maintained tm s)))"

definition status_value_ok :: "js \<Rightarrow> credential \<Rightarrow> js \<Rightarrow> bool" where
  "status_value_ok v c known \<longleftrightarrow> member v ''v'' = JInt 1 \<and> member v ''epoch'' = JInt (cr_epoch c)
     \<and> member (member v ''snapshot'') ''revision'' = JInt (cr_epoch c) \<and> member v ''expiresAt'' = JInt (cr_expires c)
     \<and> member v ''delegationExpiresAt'' = JInt (cr_delegation c) \<and> strict_eq (member (member v ''snapshot'') ''generation'') known"

definition status_reply :: "clock \<Rightarrow> js \<Rightarrow> credential \<Rightarrow> nat \<Rightarrow> client \<Rightarrow> bool \<times> client" where
  "status_reply tm v c g s =
     (if \<not> same_authority c g s then (False, s)
      else (let (ok, s) = client_fresh tm s in
        if \<not> ok then (False, s)
        else (case (if status_value_ok v c (known_generation s) then accept_state (member v ''snapshot'') s else None) of
            None \<Rightarrow> (False, revoke_client s)
          | Some s \<Rightarrow>
              (let (ok, s) = clock_point tm s in
               if \<not> ok then (False, revoke_client s) else maintained tm (s\<lparr>bc_last_status := ck_wall tm\<rparr>)))))"

definition disconnect_start :: "client_host \<Rightarrow> clock \<Rightarrow> string \<Rightarrow> client \<Rightarrow> bool option \<times> client" where
  "disconnect_start h tm oid s =
     (if bc_busy s then (Some False, s)
      else (let current = bc_credential s; s = revoke_client (s\<lparr>bc_required := True\<rparr>) in
        (case current of
           None \<Rightarrow> (Some False, s)
         | Some c \<Rightarrow>
             (let (body, s) = request_body h tm oid ''logout'' c None s in
              (case (case body of None \<Rightarrow> None | Some b \<Rightarrow> send_post ''/account-budget/logout'' b Leaving s) of
                 None \<Rightarrow> (Some False, s)
               | Some (i, s) \<Rightarrow> (None, s\<lparr>bc_busy := True\<rparr>))))))"

definition suspend_client :: "client \<Rightarrow> client" where
  "suspend_client s = (if bc_required s then revoke_client s else s)"

subsection \<open>Actions of the account's owner\<close>

definition owner_action_ok :: "js \<Rightarrow> string \<Rightarrow> string list \<Rightarrow> js option \<Rightarrow> bool" where
  "owner_action_ok d action methods settings \<longleftrightarrow> methods_value (JArr (map JStr methods)) \<and> list_all (\<lambda>m. JStr m \<in> set (elems (member d ''methods''))) methods
     \<and> ((action = ''link'') = (length methods = 2)) \<and> action \<in> {''grant'', ''settings'', ''link''}
     \<and> (action = ''settings'' \<longrightarrow> (case settings of None \<Rightarrow> False
          | Some v \<Rightarrow> exact_keys v [''limit'', ''reset''] \<and> limit_value (member v ''limit'') \<and> (\<exists>b. member v ''reset'' = JBool b)))"

definition settings_value :: "owner_action \<Rightarrow> js" where
  "settings_value a = (if oa_action a = ''settings'' then (case oa_settings a of None \<Rightarrow> JNull | Some v \<Rightarrow> v) else JNull)"

definition owner_start :: "client_host \<Rightarrow> clock \<Rightarrow> string \<Rightarrow> string list \<Rightarrow> js option \<Rightarrow> client \<Rightarrow> bool option \<times> client" where
  "owner_start h tm action methods settings s =
     (case bc_descriptor s of
        None \<Rightarrow> (Some False, s)
      | Some d \<Rightarrow>
          if bc_busy s \<or> \<not> owner_action_ok d action methods settings then (Some False, s)
          else (let s = revoke_client (s\<lparr>bc_required := True\<rparr>);
                    a = \<lparr>oa_action = action, oa_methods = methods, oa_settings = settings, oa_attempt = bc_generation s, oa_configured = d, oa_started = tm\<rparr>;
                    (ok, s) = clock_point tm s;
                    body = JObj ([(''v'', JInt 1), (''action'', JStr action), (''methods'', JArr (map JStr methods)), (''pagePubkey'', JStr (ch_page h))]
                      @ (if action = ''settings'' then [(''settings'', settings_value a)] else [])) in
            (case (if ok then send_post ''/account-budget/challenge'' body (Challenging a) s else None) of
               None \<Rightarrow> (Some False, revoke_client s)
             | Some (i, s) \<Rightarrow> (None, s\<lparr>bc_busy := True\<rparr>))))"

definition expected_content :: "client_host \<Rightarrow> owner_action \<Rightarrow> js \<Rightarrow> js \<Rightarrow> string" where
  "expected_content h a v content =
     json_text (JObj [(''v'', JInt 1), (''purpose'', JStr ''relayswarm-account-budget-authorize''), (''origin'', JStr (ch_origin h)),
       (''challenge'', member v ''challenge''), (''action'', JStr (oa_action a)), (''pagePubkey'', JStr (ch_page h)),
       (''methods'', JArr (map JStr (oa_methods a))), (''settings'', settings_value a), (''expiresAt'', member v ''expiresAt''),
       (''delegationExpiresAt'', member content ''delegationExpiresAt'')])"

definition challenge_ok :: "client_host \<Rightarrow> clock \<Rightarrow> owner_action \<Rightarrow> js \<Rightarrow> js \<Rightarrow> bool" where
  "challenge_ok h tm a v content \<longleftrightarrow>
     (let template = member v ''event''; expires = int_of (member v ''expiresAt''); issued = expires - 30000 in
      (case issuer_time issued (oa_started a) tm of
         None \<Rightarrow> False
       | Some issuer_now \<Rightarrow>
           member v ''v'' = JInt 1 \<and> hex_value_of 48 (member v ''challenge'') \<and> natural_value (member v ''expiresAt'') \<and> safe_int issued \<and> 0 \<le> issued
           \<and> issuer_now < expires \<and> natural_value (member content ''delegationExpiresAt'') \<and> issuer_now < int_of (member content ''delegationExpiresAt'')
           \<and> int_of (member content ''delegationExpiresAt'') \<le> issued + int_of (member (oa_configured a) ''delegationTtlSeconds'') * 1000
           \<and> exact_keys template [''kind'', ''created_at'', ''tags'', ''content''] \<and> member template ''kind'' = JInt 27237
           \<and> natural_value (member template ''created_at'') \<and> \<bar>int_of (member template ''created_at'') * 1000 - ck_wall tm\<bar> \<le> 30000
           \<and> issued div 1000 = int_of (member template ''created_at'') \<and> member template ''tags'' = JArr []
           \<and> member template ''content'' = JStr (expected_content h a v content)))"

text \<open>The last step before the answer is sent; \<open>None\<close> is a throw.\<close>

definition send_answer :: "client_host \<Rightarrow> clock \<Rightarrow> owner_action \<Rightarrow> challenge_seen \<Rightarrow> js option \<Rightarrow> client \<Rightarrow> client option \<times> client" where
  "send_answer h tm a ch signed s =
     (if oa_attempt a \<noteq> bc_generation s \<or> bc_descriptor s \<noteq> Some (oa_configured a) then (None, s)
      else (let (ok, s) = clock_point tm s in
        (case (if ok then issuer_time (ch_expires ch - 30000) (oa_started a) tm else None) of
           None \<Rightarrow> (None, s)
         | Some t \<Rightarrow>
             if t \<ge> ch_expires ch then (None, s)
             else (map_option snd (send_post ''/account-budget/authorize''
                 (JObj ([(''v'', JInt 1), (''challenge'', JStr (ch_challenge ch)), (''pageProof'', ch_sign h (ch_template ch))]
                    @ (case signed of None \<Rightarrow> [] | Some p \<Rightarrow> [(''nostrProof'', p)])))
                 (Authorizing a ch tm) s), s))))"

definition fail_owner :: "owner_action \<Rightarrow> client \<Rightarrow> client" where
  "fail_owner a s = (fail_attempt (oa_attempt a) s)\<lparr>bc_busy := False\<rparr>"

text \<open>A step of an owner's action leaves the next task under way, or ends in failure.\<close>

definition next_task :: "nat \<Rightarrow> owner_action \<Rightarrow> client option \<times> client \<Rightarrow> client" where
  "next_task i a r = (case r of (Some s, _) \<Rightarrow> s | (None, s) \<Rightarrow> end_task i False (fail_owner a s))"

definition put_task :: "task \<Rightarrow> client \<Rightarrow> client" where
  "put_task t s = s\<lparr>bc_tasks := bc_tasks s @ [(bc_next s, t)], bc_next := bc_next s + 1\<rparr>"

definition challenge_reply :: "client_host \<Rightarrow> clock \<Rightarrow> js \<Rightarrow> bool \<Rightarrow> nat \<Rightarrow> owner_action \<Rightarrow> client \<Rightarrow> client" where
  "challenge_reply h tm v has_signer i a s =
     (let (ok, s) = clock_point tm s; template = member v ''event'' in
      (case (if ok \<and> is_string (member template ''content'') then json_parse (js_string (member template ''content'')) else None) of
         None \<Rightarrow> next_task i a (None, s)
       | Some content \<Rightarrow>
           if \<not> challenge_ok h tm a v content then next_task i a (None, s)
           else (let ch = \<lparr>ch_challenge = js_string (member v ''challenge''), ch_expires = int_of (member v ''expiresAt''),
                     ch_delegation = int_of (member content ''delegationExpiresAt''), ch_template = template\<rparr> in
             if ''nostr'' \<in> set (oa_methods a)
             then next_task i a (if has_signer then Some (put_task (AwaitingKey a ch) s) else None, s)
             else next_task i a (send_answer h tm a ch None s))))"

definition key_reply :: "js \<Rightarrow> nat \<Rightarrow> owner_action \<Rightarrow> challenge_seen \<Rightarrow> client \<Rightarrow> client" where
  "key_reply key i a ch s =
     next_task i a (if hex_value_of 64 key \<and> oa_attempt a = bc_generation s then Some (put_task (AwaitingSignature a ch (js_string key)) s) else None, s)"

definition signed_fields :: "js \<Rightarrow> js" where
  "signed_fields signed = JObj (map (\<lambda>k. (k, member signed k)) [''id'', ''pubkey'', ''sig'', ''kind'', ''created_at'', ''tags'', ''content''])"

definition signature_reply :: "client_host \<Rightarrow> clock \<Rightarrow> js \<Rightarrow> nat \<Rightarrow> owner_action \<Rightarrow> challenge_seen \<Rightarrow> string \<Rightarrow> client \<Rightarrow> client" where
  "signature_reply h tm signed i a ch key s =
     (let p = signed_fields signed in
      if member signed ''content'' = member (ch_template ch) ''content'' \<and> member signed ''kind'' = member (ch_template ch) ''kind''
         \<and> member signed ''created_at'' = member (ch_template ch) ''created_at'' \<and> member signed ''tags'' = JArr [] \<and> member signed ''pubkey'' = JStr key
         \<and> ch_verify h p
      then next_task i a (send_answer h tm a ch (Some p) s) else next_task i a (None, s))"

definition authorized_reply :: "clock \<Rightarrow> js \<Rightarrow> owner_action \<Rightarrow> challenge_seen \<Rightarrow> clock \<Rightarrow> client \<Rightarrow> bool \<times> client" where
  "authorized_reply tm v a ch requested s =
     (if oa_attempt a \<noteq> bc_generation s \<or> bc_descriptor s \<noteq> Some (oa_configured a) \<or> member v ''delegationExpiresAt'' \<noteq> JInt (ch_delegation ch)
      then (False, fail_owner a s)
      else (let (ok, s) = install_grant tm v None (ch_expires ch - 30000) (oa_started a) requested (s\<lparr>bc_state := None\<rparr>) in
        if ok then (True, snd (client_fresh tm s)\<lparr>bc_busy := False\<rparr>) else (False, fail_owner a s)))"

subsection \<open>Answers\<close>

definition task_reply :: "client_host \<Rightarrow> clock \<Rightarrow> nat \<Rightarrow> js \<Rightarrow> bool \<Rightarrow> client \<Rightarrow> client" where
  "task_reply h tm i v flag s =
     (let found = jget (bc_tasks s) i; s = s\<lparr>bc_tasks := jdel i (bc_tasks s)\<rparr> in
      case found of
        None \<Rightarrow> s
      | Some (Reserving amount c g) \<Rightarrow> (let (r, s) = reserve_reply tm v flag amount c g s in end_task i r s)
      | Some (Renewing c g requested) \<Rightarrow> (let (r, s) = renew_reply tm v c g requested s in end_task i r (s\<lparr>bc_maintenance := False\<rparr>))
      | Some (Checking c g) \<Rightarrow> (let (r, s) = status_reply tm v c g s in end_task i r (s\<lparr>bc_maintenance := False\<rparr>))
      | Some Leaving \<Rightarrow> end_task i (member v ''v'' = JInt 1 \<and> member v ''revoked'' = JBool True) (s\<lparr>bc_busy := False\<rparr>)
      | Some (Challenging a) \<Rightarrow> challenge_reply h tm v flag i a s
      | Some (AwaitingKey a ch) \<Rightarrow> key_reply v i a ch s
      | Some (AwaitingSignature a ch key) \<Rightarrow> signature_reply h tm v i a ch key s
      | Some (Authorizing a ch requested) \<Rightarrow> (let (r, s) = authorized_reply tm v a ch requested s in end_task i r s))"

definition fail_task :: "nat \<Rightarrow> client \<Rightarrow> client" where
  "fail_task i s =
     (case jget (bc_tasks s) i of
        None \<Rightarrow> s
      | Some (Reserving amount c g) \<Rightarrow> end_task i False (fail_attempt g s)
      | Some (Renewing c g requested) \<Rightarrow> end_task i False ((fail_attempt g s)\<lparr>bc_maintenance := False\<rparr>)
      | Some (Checking c g) \<Rightarrow> end_task i False ((fail_attempt g s)\<lparr>bc_maintenance := False\<rparr>)
      | Some Leaving \<Rightarrow> end_task i False (s\<lparr>bc_busy := False\<rparr>)
      | Some (Challenging a) \<Rightarrow> end_task i False (fail_owner a s)
      | Some (AwaitingKey a ch) \<Rightarrow> end_task i False (fail_owner a s)
      | Some (AwaitingSignature a ch key) \<Rightarrow> end_task i False (fail_owner a s)
      | Some (Authorizing a ch requested) \<Rightarrow> end_task i False (fail_owner a s))"

end
