(* ===== verification/Account_Client_Claims.thy ===== *)
theory Account_Client_Claims
  imports Account_Client
begin





subsection \<open>The invariant\<close>











subsection \<open>Calm operations\<close>


















subsection \<open>The operations\<close>






subsection \<open>Answers\<close>













subsection \<open>Reservations\<close>







subsection \<open>A sample run\<close>





















































end
