(* ===== verification/Peer_First.thy ===== *)
theory Peer_First
  imports Peer_Selection Swarm_Membership Segment_Commitment Bytes
begin

text \<open>
  One segment asked of the neighbours before the origin: the loader of \<open>mode: "peer-first"\<close> in
  \<open>src/browser/hls-swarm.mjs\<close> with its opt-in extensions off (warm-ahead, cached and late races, steady
  windows and the core's multi-holder transfers), over the models of the membership, of discovery, of the
  choice of a neighbour and of commitments.

  The load is cut at its awaits: \<open>ld_phase\<close> says which one it is in.  What happens to the swarm meanwhile is
  arbitrary.  Times and rates are rational numbers.  The promise that a link returns is followed by its reaction
  in the same step.  SHA-256, signatures, URLs and the host's \<open>getCommitment\<close> are parameters or events.
\<close>

record instant =
  tm_wall :: int
  tm_mono :: rat

record load_options =
  lo_fallback :: rat
  lo_max_wait :: rat
  lo_reserve :: rat
  lo_sustainable :: bool
  lo_max_peers :: nat
  lo_member :: member_options
  lo_stream :: js
  lo_swarm :: string
  lo_max_bytes :: js
  lo_delegation :: js
  lo_delegations :: delegation_view
  lo_sig :: "js \<Rightarrow> bool"
  lo_url :: "string option \<Rightarrow> string \<Rightarrow> url option"
  lo_sha :: "byte list \<Rightarrow> string"

text \<open>What the swarm knows; the leases of a link are its \<open>FETCH\<close> announcements, by key, with their expiry.\<close>

record peer_swarm =
  pw_members :: membership
  pw_selection :: selection
  pw_busy :: "nat list"
  pw_fetching :: "(nat \<times> (string \<times> int) list) list"
  pw_leases :: "(nat \<times> (string \<times> int \<times> int) list) list"
  pw_sizes :: "(string \<times> nat) list"
  pw_rendition_samples :: "(string \<times> rat list) list"
  pw_samples :: "rat list"

text \<open>The media element: its buffered ranges and its position, with the start and duration of what is loaded.\<close>

record playback =
  pb_ranges :: "(rat \<times> rat) list"
  pb_time :: rat
  pb_start :: "rat option"

record load_request =
  lr_media :: string
  lr_rendition :: string
  lr_vod :: bool
  lr_context :: js
  lr_duration :: "rat option"
  lr_playback :: "playback option"

record peer_attempt =
  pa_link :: nat
  pa_pubkey :: string
  pa_requested :: rat
  pa_size :: nat
  pa_best :: "rat option"
  pa_silence :: "rat option"
  pa_first :: "rat option"
  pa_points :: "(rat \<times> int) list"
  pa_trial :: bool
  pa_abandoned :: bool

datatype load_phase =
    HashingKey
  | AwaitingHave
  | AwaitingCommitment
  | Choosing
  | Asking peer_attempt
  | Digesting peer_attempt "byte list"
  | LoadDone

datatype load_event =
    ToOrigin
  | PlainLoad
  | FromPeer string "byte list"
  | PlayerAborted
  | AskedCommitment
  | AskedLink string rat rat
  | KeepBytes string "byte list"
  | Counted string

record load =
  ld_request :: load_request
  ld_deadline :: rat
  ld_limit :: rat
  ld_active :: bool
  ld_aborted :: bool
  ld_expired :: bool
  ld_phase :: load_phase
  ld_disc :: "nat option"
  ld_holders :: "nat option"
  ld_key :: string
  ld_coordinated :: bool
  ld_recorded :: bool
  ld_trial :: bool
  ld_asked :: "string list"
  ld_tried :: "string list"
  ld_answer :: "js option option"
  ld_commitment :: js
  ld_out :: "load_event list"

definition load_emit :: "load_event list \<Rightarrow> load \<Rightarrow> load" where
  "load_emit es l = l\<lparr>ld_out := ld_out l @ es\<rparr>"

definition counted :: "string \<Rightarrow> load \<Rightarrow> load" where
  "counted c l = load_emit [Counted c] l"

subsection \<open>How long a wait may be\<close>

definition percentile :: "rat list \<Rightarrow> rat \<Rightarrow> rat option" where
  "percentile values fraction = map_option (\<lambda>x. of_int \<lfloor>x + 1 / 2\<rfloor>) (quantile values fraction)"

definition push_sample :: "rat \<Rightarrow> rat list \<Rightarrow> rat list" where
  "push_sample v xs = (let ys = xs @ [v] in if length ys > 500 then tl ys else ys)"

definition rendition_sample :: "string \<Rightarrow> rat \<Rightarrow> (string \<times> rat list) list \<Rightarrow> (string \<times> rat list) list" where
  "rendition_sample r v m =
     (let m = (if \<not> jhas m r \<and> length m \<ge> 16 then jdel_oldest m else m)
      in jset r (push_sample v (case jget m r of None \<Rightarrow> [] | Some xs \<Rightarrow> xs)) m)"

definition origin_samples :: "string \<Rightarrow> peer_swarm \<Rightarrow> rat list" where
  "origin_samples r w = (case jget (pw_rendition_samples w) r of None \<Rightarrow> pw_samples w | Some xs \<Rightarrow> if xs = [] then pw_samples w else xs)"

text \<open>The original loader returned a body after \<open>elapsed\<close> milliseconds.\<close>

definition origin_took :: "string \<Rightarrow> rat \<Rightarrow> peer_swarm \<Rightarrow> peer_swarm" where
  "origin_took r elapsed w =
     w\<lparr>pw_samples := push_sample elapsed (pw_samples w), pw_rendition_samples := rendition_sample r elapsed (pw_rendition_samples w)\<rparr>"

definition recovery_ms :: "rat list \<Rightarrow> rat option" where
  "recovery_ms samples = map_option (\<lambda>p. p * (5 / 4) + 100) (percentile samples (9 / 10))"

text \<open>\<open>None\<close> is \<open>Infinity\<close>: no limit is asked for.\<close>

definition sustainable_ms :: "load_options \<Rightarrow> rat option \<Rightarrow> rat list \<Rightarrow> rat option" where
  "sustainable_ms opt duration samples =
     (if \<not> lo_sustainable opt then None
      else Some (case (duration, recovery_ms samples) of
          (Some d, Some r) \<Rightarrow> if 0 < d then max 0 (d * 1000 - r) else 0
        | _ \<Rightarrow> 0))"

definition capped :: "rat option \<Rightarrow> rat \<Rightarrow> rat" where
  "capped c x = (case c of None \<Rightarrow> x | Some m \<Rightarrow> min x m)"

definition current_range :: "playback \<Rightarrow> (rat \<times> rat) option" where
  "current_range pb = find (\<lambda>(a, b). a \<le> pb_time pb \<and> pb_time pb < b) (pb_ranges pb)"

definition playable_end :: "playback \<Rightarrow> rat \<Rightarrow> rat" where
  "playable_end pb b = (case pb_start pb of None \<Rightarrow> b | Some s \<Rightarrow> if pb_time pb < s then min b s else b)"

definition origin_reserve :: "load_options \<Rightarrow> rat list \<Rightarrow> rat" where
  "origin_reserve opt samples = max (lo_reserve opt) ((case percentile samples (9 / 10) of None \<Rightarrow> 0 | Some p \<Rightarrow> p) * (5 / 4) + 100)"

record waiting_room =
  wr_budget :: rat
  wr_uncapped :: "rat option"
  wr_sustainable :: "rat option"

definition peer_budget :: "load_options \<Rightarrow> load_request \<Rightarrow> rat list \<Rightarrow> waiting_room" where
  "peer_budget opt q samples =
     (let most = sustainable_ms opt (lr_duration q) samples in
      (case lr_playback q of
         None \<Rightarrow> \<lparr>wr_budget = capped most (lo_fallback opt), wr_uncapped = None, wr_sustainable = most\<rparr>
       | Some pb \<Rightarrow>
           (case current_range pb of
              None \<Rightarrow> \<lparr>wr_budget = 0, wr_uncapped = None, wr_sustainable = most\<rparr>
            | Some (a, b) \<Rightarrow>
                (let uncapped = max 0 ((playable_end pb b - pb_time pb) * 1000 - origin_reserve opt samples) in
                 \<lparr>wr_budget = capped most (min (lo_fallback opt) uncapped), wr_uncapped = Some uncapped, wr_sustainable = most\<rparr>))))"

definition limit_ms :: "load_options \<Rightarrow> waiting_room \<Rightarrow> rat" where
  "limit_ms opt room = max (wr_budget room) (capped (wr_sustainable room)
     (min (max (lo_fallback opt) (lo_max_wait opt)) (case wr_uncapped room of None \<Rightarrow> wr_budget room | Some u \<Rightarrow> u)))"

subsection \<open>The neighbours\<close>

definition swarm_links :: "peer_swarm \<Rightarrow> swarm_link list" where
  "swarm_links w = map snd (mb_links (pw_members w))"

definition holds_key :: "string \<Rightarrow> swarm_link \<Rightarrow> bool" where
  "holds_key key k \<longleftrightarrow> key \<in> set (sl_have k)"

definition peer_free :: "peer_swarm \<Rightarrow> swarm_link \<Rightarrow> bool" where
  "peer_free w k \<longleftrightarrow> \<not> sl_closed k \<and> sl_id k \<notin> set (pw_busy w)"

definition fetching_until :: "peer_swarm \<Rightarrow> swarm_link \<Rightarrow> string \<Rightarrow> int" where
  "fetching_until w k key = (case jget (pw_fetching w) (sl_id k) of None \<Rightarrow> 0 | Some m \<Rightarrow> (case jget m key of None \<Rightarrow> 0 | Some e \<Rightarrow> e))"

definition rank_digit :: "char \<Rightarrow> nat" where
  "rank_digit c = (if CHR ''0'' \<le> c \<and> c \<le> CHR ''9'' then of_char c - 48 else of_char c - 87)"

text \<open>The exclusive or of a public key and a segment key, digit by digit.\<close>

definition origin_rank :: "string \<Rightarrow> string \<Rightarrow> string" where
  "origin_rank key pubkey = map2 (\<lambda>d k. hex_digit_char (xor (rank_digit d) (rank_digit k))) pubkey key"

definition should_wait :: "instant \<Rightarrow> string \<Rightarrow> string \<Rightarrow> bool \<Rightarrow> peer_swarm \<Rightarrow> bool" where
  "should_wait tm key rendition vod w =
     (let candidates = filter (\<lambda>k. serves_rendition (tm_wall tm) k rendition) (swarm_links w) in
      if candidates = [] then False
      else if list_ex (\<lambda>k. fetching_until w k key > tm_wall tm) candidates then True
      else if vod then False
      else if \<not> mb_serving (pw_members w) then True
      else list_ex (\<lambda>k. origin_rank key (sl_pubkey k) < origin_rank key (mb_pubkey (pw_members w))) candidates)"

text \<open>A lease dates the fetch it announces from its first grant.\<close>

definition lease_start :: "peer_swarm \<Rightarrow> string \<Rightarrow> swarm_link \<Rightarrow> int" where
  "lease_start w key k =
     (let e = fetching_until w k key in
      (case jget (case jget (pw_leases w) (sl_id k) of None \<Rightarrow> [] | Some m \<Rightarrow> m) key of
         None \<Rightarrow> e - 2000
       | Some (since, till) \<Rightarrow> if till = e then min (e - 2000) since else e - 2000))"

definition note_lease :: "int \<Rightarrow> string \<times> int \<Rightarrow> (string \<times> int \<times> int) list \<Rightarrow> (string \<times> int \<times> int) list" where
  "note_lease wall e starts =
     (if snd e \<le> wall then starts
      else (case jget starts (fst e) of
          Some (since, till) \<Rightarrow>
            if till > wall then jset (fst e) (since, snd e) starts else jset (fst e) (min wall (snd e - 2000), snd e) starts
        | None \<Rightarrow> jset (fst e) (min wall (snd e - 2000), snd e) starts))"

definition note_lease_starts :: "instant \<Rightarrow> swarm_link \<Rightarrow> peer_swarm \<Rightarrow> peer_swarm" where
  "note_lease_starts tm k w =
     (let starts = (case jget (pw_leases w) (sl_id k) of None \<Rightarrow> [] | Some m \<Rightarrow> m);
          live = filter (\<lambda>e. fetching_until w k (fst e) > tm_wall tm) starts
      in w\<lparr>pw_leases := jset (sl_id k)
            (fold (note_lease (tm_wall tm)) (case jget (pw_fetching w) (sl_id k) of None \<Rightarrow> [] | Some m \<Rightarrow> m) live) (pw_leases w)\<rparr>)"

definition holder_wait_ms :: "instant \<Rightarrow> string \<Rightarrow> string \<Rightarrow> peer_swarm \<Rightarrow> rat option" where
  "holder_wait_ms tm key rendition w =
     (case percentile (case jget (pw_rendition_samples w) rendition of None \<Rightarrow> [] | Some xs \<Rightarrow> xs) (1 / 2) of
        None \<Rightarrow> None
      | Some typical \<Rightarrow>
          (let starts = map (lease_start w key) (filter (\<lambda>k. fetching_until w k key > tm_wall tm) (swarm_links w)) in
           Some (max 0 (typical - of_int (if starts = [] then 0 else tm_wall tm - Min (set starts))))))"

definition candidate_of :: "peer_swarm \<Rightarrow> swarm_link \<Rightarrow> candidate" where
  "candidate_of w k = \<lparr>cl_id = sl_id k, cl_pubkey = sl_pubkey k, cl_closed = sl_closed k, cl_busy = (sl_id k \<in> set (pw_busy w)), cl_have = sl_have k\<rparr>"

definition untested_holder :: "instant \<Rightarrow> string \<Rightarrow> nat option \<Rightarrow> peer_swarm \<Rightarrow> swarm_link option" where
  "untested_holder tm key ctx w =
     find (\<lambda>k. peer_free w k \<and> sl_pubkey k \<notin> set (mb_banned (pw_members w)) \<and> holds_key key k
        \<and> su_attempts (summary_of (pw_selection w) (sl_id k)) = 0
        \<and> (case ctx of None \<Rightarrow> True | Some c \<Rightarrow> \<not> stale (tm_wall tm) c (sl_pubkey k) (mb_discovery (pw_members w)))) (swarm_links w)"

subsection \<open>Projections\<close>

datatype forecast = TooLate | FitsRoom | Stretches | NoEvidence

definition first_or_zero :: "peer_swarm \<Rightarrow> rat" where
  "first_or_zero w = (case first_byte_ms (pw_selection w) of None \<Rightarrow> 0 | Some f \<Rightarrow> f)"

definition projection :: "instant \<Rightarrow> rat option \<Rightarrow> rat option \<Rightarrow> rat \<Rightarrow> peer_swarm \<Rightarrow> forecast" where
  "projection tm transfer wait limit w =
     (let room = limit - tm_mono tm in
      if (case wait of None \<Rightarrow> False | Some h \<Rightarrow> h + first_or_zero w > room) then TooLate
      else (case (transfer, wait) of
          (Some t, Some h) \<Rightarrow>
            if h + t \<le> room then FitsRoom
            else if tm_wall tm - sn_observed_at (pw_selection w) \<ge> 15000 then Stretches
            else if h + t > room * (5 / 4) then TooLate else Stretches
        | _ \<Rightarrow> NoEvidence))"

definition extend_wait :: "rat \<Rightarrow> load \<Rightarrow> load" where
  "extend_wait till l =
     (let target = min (ld_limit l) till in
      if \<not> ld_active l \<or> target \<le> ld_deadline l then l else counted ''peerWaitExtended'' (l\<lparr>ld_deadline := target\<rparr>))"

definition apply_projection :: "instant \<Rightarrow> forecast \<Rightarrow> rat \<Rightarrow> load \<Rightarrow> load" where
  "apply_projection tm v projected l =
     (case v of
        FitsRoom \<Rightarrow> extend_wait (tm_mono tm + projected * (5 / 4) + 100) l
      | Stretches \<Rightarrow> extend_wait (ld_limit l) l
      | _ \<Rightarrow> l)"

definition trial_available :: "instant \<Rightarrow> load \<Rightarrow> peer_swarm \<Rightarrow> bool" where
  "trial_available tm l w \<longleftrightarrow> ld_limit l - tm_mono tm > first_or_zero w \<and> untested_holder tm (ld_key l) (ld_holders l) w \<noteq> None"

subsection \<open>What a load tells about its holders\<close>

definition on_discovery :: "(discovery \<Rightarrow> discovery) \<Rightarrow> peer_swarm \<Rightarrow> peer_swarm" where
  "on_discovery f w = w\<lparr>pw_members := (pw_members w)\<lparr>mb_discovery := f (mb_discovery (pw_members w))\<rparr>\<rparr>"

text \<open>The misses that count; a list of holders is gone through in order.\<close>

fun miss_all :: "int \<Rightarrow> nat \<Rightarrow> string \<Rightarrow> string list \<Rightarrow> discovery \<Rightarrow> nat \<times> discovery" where
  "miss_all wall c key [] d = (0, d)"
| "miss_all wall c key (p # ps) d =
     (let (hit, d) = holder_miss wall c p key d; (n, d) = miss_all wall c key ps d in (if hit then Suc n else n, d))"

definition note_outcome :: "instant \<Rightarrow> bool \<Rightarrow> string list \<Rightarrow> load \<Rightarrow> peer_swarm \<Rightarrow> load \<times> peer_swarm" where
  "note_outcome tm every_serving unfit l w =
     (case ld_holders l of
        None \<Rightarrow> (l, w)
      | Some c \<Rightarrow>
          if ld_recorded l then (l, w)
          else (let l = l\<lparr>ld_recorded := True\<rparr>;
                    serving = filter (\<lambda>k. serves_rendition (tm_wall tm) k (lr_rendition (ld_request l))) (swarm_links w) in
            if every_serving \<and> \<not> list_ex (holds_key (ld_key l)) (swarm_links w)
            then (l, on_discovery (\<lambda>d. snd (miss_all (tm_wall tm) c (ld_key l) (map sl_pubkey serving) d)) w)
            else (let judged = filter (\<lambda>k. sl_pubkey k \<in> set (ld_asked l) \<or> sl_pubkey k \<in> set unfit) serving;
                      (n, d) = miss_all (tm_wall tm) c (ld_key l) (map sl_pubkey judged) (mb_discovery (pw_members w))
                  in (load_emit (replicate n (Counted ''heldMiss'')) l, on_discovery (\<lambda>_. d) w))))"

text \<open>\<open>#recordSelection\<close>: a link that has closed is forgotten again.\<close>

definition record_selection :: "instant \<Rightarrow> peer_attempt \<Rightarrow> nat \<Rightarrow> peer_swarm \<Rightarrow> peer_swarm" where
  "record_selection tm a bytes w =
     (let s = record_attempt (tm_wall tm) (pa_link a) (tm_mono tm - pa_requested a) bytes (pw_selection w) in
      w\<lparr>pw_selection := (if list_ex (\<lambda>k. sl_id k = pa_link a \<and> \<not> sl_closed k) (swarm_links w) then s else forget_link (pa_link a) s)\<rparr>)"

subsection \<open>The end of a load\<close>

definition fall_back :: "load \<Rightarrow> load" where
  "fall_back l = (if \<not> ld_active l then l else load_emit [ToOrigin, Counted ''originFallbacks''] (l\<lparr>ld_active := False, ld_aborted := True\<rparr>))"

text \<open>\<open>#completePeerLoad\<close> of a whole segment.\<close>

definition note_delivery :: "instant \<Rightarrow> string \<Rightarrow> load \<Rightarrow> peer_swarm \<Rightarrow> peer_swarm" where
  "note_delivery tm pubkey l w =
     (let w = (case ld_holders l of None \<Rightarrow> w | Some c \<Rightarrow> on_discovery (holder_delivered c pubkey) w) in
      (case ld_disc l of
         None \<Rightarrow> w
       | Some c \<Rightarrow>
           (let (ok, d) = nd_verify c (mb_discovery (pw_members w)); w = on_discovery (\<lambda>_. d) w in
            (case nd_window d of
               None \<Rightarrow> w
             | Some win \<Rightarrow> if ok \<and> nw_context win = c then w\<lparr>pw_members := end_discovery (tm_wall tm) (nw_id win) True (pw_members w)\<rparr> else w))))"

definition deliver_load :: "instant \<Rightarrow> string \<Rightarrow> byte list \<Rightarrow> load \<Rightarrow> peer_swarm \<Rightarrow> load \<times> peer_swarm" where
  "deliver_load tm pubkey bytes l w =
     (load_emit ((if mb_serving (pw_members w) \<and> ld_key l \<notin> set (mb_held (pw_members w)) then [KeepBytes (ld_key l) bytes] else [])
          @ [Counted ''peerFirstLoaded'', FromPeer (ld_key l) bytes]) (l\<lparr>ld_active := False\<rparr>),
      note_delivery tm pubkey l w)"

definition finish_load :: "instant \<Rightarrow> (string \<times> byte list) option \<Rightarrow> load \<times> peer_swarm \<Rightarrow> load \<times> peer_swarm" where
  "finish_load tm r lw =
     (let l = (fst lw)\<lparr>ld_phase := LoadDone\<rparr>; w = snd lw in
      if \<not> ld_active l \<or> ld_aborted l \<or> mb_stopped (pw_members w) then (l, w)
      else (case r of
          None \<Rightarrow> (fall_back l, w)
        | Some (pubkey, bytes) \<Rightarrow>
            if tm_mono tm \<ge> ld_deadline l then (let (l, w) = note_outcome tm False [] l w in (fall_back l, w))
            else deliver_load tm pubkey bytes l w))"

subsection \<open>Asking a neighbour\<close>

definition load_live :: "instant \<Rightarrow> load \<Rightarrow> peer_swarm \<Rightarrow> bool" where
  "load_live tm l w \<longleftrightarrow> \<not> ld_aborted l \<and> \<not> mb_stopped (pw_members w) \<and> tm_mono tm < ld_deadline l"

definition nothing_came :: "instant \<Rightarrow> load \<Rightarrow> peer_swarm \<Rightarrow> load \<times> peer_swarm" where
  "nothing_came tm l w =
     finish_load tm None (if \<not> mb_stopped (pw_members w) \<and> (\<not> ld_aborted l \<or> ld_expired l) then note_outcome tm False [] l w else (l, w))"

definition committed_size :: "load \<Rightarrow> nat" where
  "committed_size l = nat (int_of (member (ld_commitment l) ''size''))"

definition fitting :: "peer_swarm \<Rightarrow> nat \<Rightarrow> rat \<Rightarrow> swarm_link \<Rightarrow> bool" where
  "fitting w wanted ms k \<longleftrightarrow> fits (pw_selection w) (sl_id k) wanted (Some ms)"

text \<open>The other holders, closed or busy ones aside, that could still deliver_load.\<close>

definition untried_holder :: "load \<Rightarrow> swarm_link \<Rightarrow> bool" where
  "untried_holder l k \<longleftrightarrow> \<not> sl_closed k \<and> sl_pubkey k \<notin> set (ld_tried l) \<and> holds_key (ld_key l) k"

definition attempt_ms :: "rat option \<Rightarrow> rat \<Rightarrow> nat \<Rightarrow> rat" where
  "attempt_ms known remaining alternatives =
     (case known of
        None \<Rightarrow> min remaining (max 25 (remaining - of_nat (min 2 alternatives) * 25))
      | Some t \<Rightarrow> min remaining (max 25 (max (remaining / of_nat (min 3 (alternatives + 1))) (t * (5 / 4) + 25))))"

definition new_attempt :: "instant \<Rightarrow> load \<Rightarrow> nat \<Rightarrow> string \<Rightarrow> bool \<Rightarrow> peer_swarm \<Rightarrow> peer_attempt" where
  "new_attempt tm l i pubkey trial w =
     (let best = rate (pw_selection w); wanted = committed_size l in
      \<lparr>pa_link = i, pa_pubkey = pubkey, pa_requested = tm_mono tm, pa_size = wanted, pa_best = best,
       pa_silence = (case first_byte_ms (pw_selection w) of None \<Rightarrow> None
          | Some f \<Rightarrow> Some (tm_mono tm + (let quiet = max 250 (f * 3) in
              (case best of None \<Rightarrow> quiet | Some r \<Rightarrow> if r = 0 then quiet else max quiet (ld_deadline l - of_nat wanted / r - tm_mono tm))))),
       pa_first = None, pa_points = [], pa_trial = trial, pa_abandoned = False\<rparr>)"

definition mark_tried :: "string \<Rightarrow> bool \<Rightarrow> load \<Rightarrow> load" where
  "mark_tried pubkey trial l =
     (let l = l\<lparr>ld_tried := ld_tried l @ [pubkey], ld_asked := ld_asked l @ [pubkey]\<rparr>
      in if trial then counted ''peerUntestedTrial'' l else l)"

text \<open>A measured link sets the deadline, inside the limit.\<close>

definition wait_for_link :: "instant \<Rightarrow> rat option \<Rightarrow> load \<Rightarrow> load" where
  "wait_for_link tm t l = (case t of None \<Rightarrow> l | Some ms \<Rightarrow> extend_wait (tm_mono tm + ms * (5 / 4) + 25) l)"

definition other_holders :: "rat \<Rightarrow> load \<Rightarrow> peer_swarm \<Rightarrow> nat" where
  "other_holders remaining l w =
     length (filter (\<lambda>k. peer_free w k \<and> untried_holder l k \<and> fitting w (committed_size l) remaining k) (swarm_links w))"

text \<open>The request to the link that was chosen.\<close>

definition ask_link :: "instant \<Rightarrow> nat \<Rightarrow> string \<Rightarrow> bool \<Rightarrow> load \<Rightarrow> peer_swarm \<Rightarrow> load \<times> peer_swarm" where
  "ask_link tm i pubkey trial l w =
     (let t = estimate (pw_selection w) i (committed_size l); l = wait_for_link tm t (mark_tried pubkey trial l);
          remaining = ld_deadline l - tm_mono tm
      in (load_emit [AskedLink pubkey (tm_mono tm) (max 1 (attempt_ms t remaining (other_holders remaining l w)))]
            (l\<lparr>ld_phase := Asking (new_attempt tm l i pubkey trial w)\<rparr>),
          w\<lparr>pw_busy := pw_busy w @ [i]\<rparr>))"

definition pick_link :: "instant \<Rightarrow> load \<Rightarrow> peer_swarm \<Rightarrow> (nat \<times> string \<times> bool) option \<times> peer_swarm" where
  "pick_link tm l w =
     (case (if ld_trial l \<and> ld_tried l = [] then untested_holder tm (ld_key l) (ld_holders l) w else None) of
        Some k \<Rightarrow> (Some (sl_id k, sl_pubkey k, True), w\<lparr>pw_selection := mark_selected (sl_id k) (pw_selection w)\<rparr>)
      | None \<Rightarrow>
          (let (c, s) = select_link (map (candidate_of w) (filter (peer_free w) (swarm_links w))) (ld_key l) (ld_tried l) (committed_size l)
                          (Some (ld_limit l - tm_mono tm)) (pw_selection w)
           in (map_option (\<lambda>c. (cl_id c, cl_pubkey c, False)) c, w\<lparr>pw_selection := s\<rparr>)))"

text \<open>One turn of the loop over the holders.\<close>

definition choose_link :: "load_options \<Rightarrow> instant \<Rightarrow> load \<Rightarrow> peer_swarm \<Rightarrow> load \<times> peer_swarm" where
  "choose_link opt tm l w =
     (if \<not> load_live tm l w \<or> length (ld_tried l) \<ge> lo_max_peers opt then nothing_came tm l w
      else (let room = ld_limit l - tm_mono tm; wanted = committed_size l in
        if minimum_ms wanted (pw_selection w) > room \<or> first_or_zero w > room
        then finish_load tm None (counted ''peerSkippedLate'' l, w)
        else (let (choice, w) = pick_link tm l w in
          (case choice of
             Some (i, pubkey, trial) \<Rightarrow> ask_link tm i pubkey trial l w
           | None \<Rightarrow>
               if list_ex (\<lambda>k. untried_holder l k \<and> fitting w wanted room k) (swarm_links w) then (l\<lparr>ld_phase := Choosing\<rparr>, w)
               else finish_load tm None (note_outcome tm False
                      (map sl_pubkey (filter (\<lambda>k. untried_holder l k \<and> \<not> fitting w wanted room k) (swarm_links w))) (counted ''peerNoFit'' l) w)))))"

subsection \<open>The commitment\<close>

definition load_view :: "load_options \<Rightarrow> load \<Rightarrow> commitment_view" where
  "load_view opt l = \<lparr>cv_stream = lo_stream opt, cv_swarm = lo_swarm opt, cv_key = ld_key l, cv_context = lr_context (ld_request l),
     cv_max_bytes = lo_max_bytes opt, cv_delegation = lo_delegation opt, cv_delegations = lo_delegations opt\<rparr>"

definition remember_size :: "string \<Rightarrow> nat \<Rightarrow> (string \<times> nat) list \<Rightarrow> (string \<times> nat) list" where
  "remember_size r n m = jset r n (if \<not> jhas m r \<and> length m \<ge> 16 then jdel_oldest m else m)"

definition commitment_known :: "load_options \<Rightarrow> instant \<Rightarrow> js option \<Rightarrow> load \<Rightarrow> peer_swarm \<Rightarrow> load \<times> peer_swarm" where
  "commitment_known opt tm answer l w =
     (case answer of
        None \<Rightarrow> finish_load tm None (if mb_stopped (pw_members w) then l else counted ''commitmentUnavailable'' l, w)
      | Some e \<Rightarrow>
          (case verify_segment_commitment (lo_sig opt) (lo_url opt) e (load_view opt l) (tm_wall tm) of
             None \<Rightarrow> finish_load tm None (counted ''commitmentRejected'' l, w)
           | Some c \<Rightarrow>
               if ld_aborted l \<or> mb_stopped (pw_members w) then finish_load tm None (l, w)
               else (let l = l\<lparr>ld_commitment := c\<rparr>; wanted = committed_size l;
                         w = w\<lparr>pw_sizes := remember_size (lr_rendition (ld_request l)) wanted (pw_sizes w)\<rparr>;
                         transfer = project_ms wanted (pw_selection w);
                         known = projection tm transfer (Some 0) (ld_limit l) w;
                         granted = (known = TooLate \<and> \<not> ld_coordinated l \<and> (ld_trial l \<or> trial_available tm l w));
                         known = (if granted then Stretches else known); l = l\<lparr>ld_trial := (ld_trial l \<or> granted)\<rparr> in
                 if known = TooLate then finish_load tm None (counted ''peerProjectedLate'' l, w)
                 else choose_link opt tm (apply_projection tm known (case transfer of None \<Rightarrow> 0 | Some t \<Rightarrow> t) l) w)))"

definition await_commitment :: "load_options \<Rightarrow> instant \<Rightarrow> load \<Rightarrow> peer_swarm \<Rightarrow> load \<times> peer_swarm" where
  "await_commitment opt tm l w =
     (case ld_answer l of None \<Rightarrow> (l\<lparr>ld_phase := AwaitingCommitment\<rparr>, w) | Some answer \<Rightarrow> commitment_known opt tm answer l w)"

text \<open>One turn of the loop that waits for a neighbour to have the segment.\<close>

definition await_have :: "load_options \<Rightarrow> instant \<Rightarrow> load \<Rightarrow> peer_swarm \<Rightarrow> load \<times> peer_swarm" where
  "await_have opt tm l w =
     (if load_live tm l w \<and> \<not> list_ex (holds_key (ld_key l)) (swarm_links w) then
        (if \<not> should_wait tm (ld_key l) (lr_rendition (ld_request l)) (lr_vod (ld_request l)) w then finish_load tm None (l, w)
         else (l\<lparr>ld_phase := AwaitingHave\<rparr>, w))
      else (let cancelled = (ld_aborted l \<or> mb_stopped (pw_members w)) in
        if cancelled \<or> tm_mono tm \<ge> ld_deadline l
        then finish_load tm None (if \<not> cancelled \<or> (ld_expired l \<and> \<not> mb_stopped (pw_members w)) then note_outcome tm True [] l w else (l, w))
        else await_commitment opt tm l w))"

subsection \<open>Starting a load\<close>

definition load_start :: "load_options \<Rightarrow> instant \<Rightarrow> load_request \<Rightarrow> peer_swarm \<Rightarrow> load" where
  "load_start opt tm q w =
     (let room = peer_budget opt q (origin_samples (lr_rendition q) w);
          l = \<lparr>ld_request = q, ld_deadline = tm_mono tm + wr_budget room, ld_limit = tm_mono tm + limit_ms opt room, ld_active = True, ld_aborted = False,
               ld_expired = False, ld_phase = HashingKey, ld_disc = map_option nc_id (jget (nd_contexts (mb_discovery (pw_members w))) (lr_media q)),
               ld_holders = None, ld_key = [], ld_coordinated = False, ld_recorded = False, ld_trial = False, ld_asked = [], ld_tried = [],
               ld_answer = None, ld_commitment = JUndefined, ld_out = []\<rparr> in
      if mb_stopped (pw_members w) then load_emit [PlainLoad] (l\<lparr>ld_active := False, ld_phase := LoadDone\<rparr>)
      else if wr_budget room = 0 then (fall_back l)\<lparr>ld_phase := LoadDone\<rparr> else l)"

definition request_commitment :: "load_options \<Rightarrow> instant \<Rightarrow> load \<Rightarrow> peer_swarm \<Rightarrow> load \<times> peer_swarm" where
  "request_commitment opt tm l w =
     (let l = load_emit [AskedCommitment] (counted ''commitmentRequests'' l)
      in if ld_coordinated l then await_have opt tm l w else await_commitment opt tm l w)"

definition begin_wait :: "load_options \<Rightarrow> instant \<Rightarrow> forecast \<Rightarrow> rat \<Rightarrow> load \<Rightarrow> peer_swarm \<Rightarrow> load \<times> peer_swarm" where
  "begin_wait opt tm v projected l w =
     (let l = apply_projection tm v projected l; l = (if ld_coordinated l then counted ''coordinatedWaits'' l else l)
      in if \<not> load_live tm l w then finish_load tm None (l, w) else request_commitment opt tm l w)"

text \<open>The entry of \<open>#peerFirst\<close>, once it is known whom the load may wait for and how long.\<close>

definition entry_wait :: "instant \<Rightarrow> load \<Rightarrow> peer_swarm \<Rightarrow> rat option" where
  "entry_wait tm l w = (if ld_coordinated l then holder_wait_ms tm (ld_key l) (lr_rendition (ld_request l)) w else Some 0)"

definition entry_transfer :: "load \<Rightarrow> peer_swarm \<Rightarrow> rat option" where
  "entry_transfer l w = (case jget (pw_sizes w) (lr_rendition (ld_request l)) of None \<Rightarrow> None | Some n \<Rightarrow> project_ms n (pw_selection w))"

definition enter_load :: "load_options \<Rightarrow> instant \<Rightarrow> load \<Rightarrow> peer_swarm \<Rightarrow> load \<times> peer_swarm" where
  "enter_load opt tm l w =
     (let wait = entry_wait tm l w; transfer = entry_transfer l w; entry = projection tm transfer wait (ld_limit l) w;
          granted = (entry = TooLate \<and> \<not> ld_coordinated l \<and> trial_available tm l w) in
      if entry = TooLate \<and> \<not> granted then
        (let (l, w) = note_outcome tm True [] l w in finish_load tm None (counted ''peerProjectedLate'' l, w))
      else begin_wait opt tm (if granted then Stretches else entry)
             (case (wait, transfer) of (Some h, Some t) \<Rightarrow> h + t | _ \<Rightarrow> 0) (l\<lparr>ld_trial := granted\<rparr>) w)"

definition holder_context :: "load \<Rightarrow> peer_swarm \<Rightarrow> nat option" where
  "holder_context l w =
     (case ld_disc l of
        None \<Rightarrow> None
      | Some c \<Rightarrow> (case live_context c (mb_discovery (pw_members w)) of
            None \<Rightarrow> None | Some x \<Rightarrow> if nc_rendition x = lr_rendition (ld_request l) then Some c else None))"

text \<open>The key is hashed.\<close>

definition key_ready :: "load_options \<Rightarrow> instant \<Rightarrow> string \<Rightarrow> load \<Rightarrow> peer_swarm \<Rightarrow> load \<times> peer_swarm" where
  "key_ready opt tm key l w =
     (if ld_aborted l \<or> mb_stopped (pw_members w) then finish_load tm None (l, w)
      else (let q = ld_request l; l = l\<lparr>ld_key := key, ld_holders := holder_context l w\<rparr>;
                w = (if ld_holders l = None then w
                     else (let w = on_discovery (nd_demand (tm_wall tm) (lr_media q) (lr_rendition q) key) w
                           in w\<lparr>pw_members := seek_neighbours (lo_member opt) (tm_wall tm) (pw_members w)\<rparr>));
                l = l\<lparr>ld_coordinated := \<not> list_ex (holds_key key) (swarm_links w)\<rparr> in
        if ld_coordinated l \<and> \<not> should_wait tm key (lr_rendition q) (lr_vod q) w then finish_load tm None (l, w)
        else enter_load opt tm l w))"

subsection \<open>The answer of a neighbour\<close>

fun latest_before :: "rat \<Rightarrow> rat \<times> int \<Rightarrow> (rat \<times> int) list \<Rightarrow> rat \<times> int" where
  "latest_before t p [] = p"
| "latest_before t p (x # xs) = (if fst x \<le> t then latest_before t x xs else p)"

definition window_rate :: "rat \<Rightarrow> (rat \<times> int) list \<Rightarrow> (int \<times> rat) option" where
  "window_rate width points =
     (if points = [] then None
      else (let e = last points; b = latest_before (fst e - width) (hd points) points in
        if fst e - fst b \<ge> 150 then Some (snd e - snd b, fst e - fst b) else None))"

definition progress_on :: "instant \<Rightarrow> int \<Rightarrow> rat option \<Rightarrow> rat \<Rightarrow> bool \<Rightarrow> peer_attempt \<Rightarrow> peer_attempt" where
  "progress_on tm received first_at deadline aborted a =
     (let first = (case pa_first a of Some f \<Rightarrow> f | None \<Rightarrow> (case first_at of Some f \<Rightarrow> f | None \<Rightarrow> tm_mono tm - pa_requested a));
          points = pa_points a @ [(tm_mono tm, received)];
          a = a\<lparr>pa_first := Some first, pa_points := (if length points > 256 then tl points else points)\<rparr> in
      if tm_mono tm - pa_requested a < first * 2 then a
      else (case window_rate 400 (pa_points a) of
          None \<Rightarrow> a
        | Some (bytes, ms) \<Rightarrow>
            (let r = max (2 * of_int bytes / ms) (case pa_best a of None \<Rightarrow> 0 | Some b \<Rightarrow> b) in
             if r = 0 \<or> tm_mono tm + (of_nat (pa_size a) - of_int received) / r > deadline
             then a\<lparr>pa_abandoned := (pa_abandoned a \<or> \<not> aborted)\<rparr> else a)))"

definition silence_on :: "bool \<Rightarrow> peer_attempt \<Rightarrow> peer_attempt" where
  "silence_on aborted a = (if pa_first a = None \<and> pa_silence a \<noteq> None then a\<lparr>pa_abandoned := (pa_abandoned a \<or> \<not> aborted)\<rparr> else a)"

definition flow_seen :: "peer_attempt \<Rightarrow> rat" where
  "flow_seen a = (if pa_points a = [] then 0 else fst (last (pa_points a)) - fst (hd (pa_points a)))"

definition observe_attempt :: "instant \<Rightarrow> peer_attempt \<Rightarrow> peer_swarm \<Rightarrow> peer_swarm" where
  "observe_attempt tm a w =
     (let recent = window_rate (max 300 (flow_seen a / 2)) (pa_points a);
          bytes = (case recent of None \<Rightarrow> 0 | Some (b, ms) \<Rightarrow> nat b); ms = (case recent of None \<Rightarrow> 0 | Some (b, ms) \<Rightarrow> ms)
      in w\<lparr>pw_selection := observe (tm_wall tm) (pa_first a) bytes ms (flow_seen a) (pw_selection w)\<rparr>)"

definition request_settles :: "load_options \<Rightarrow> instant \<Rightarrow> byte list option \<Rightarrow> peer_attempt \<Rightarrow> load \<Rightarrow> peer_swarm \<Rightarrow> load \<times> peer_swarm" where
  "request_settles opt tm bytes a l w0 =
     (let w = observe_attempt tm a (w0\<lparr>pw_busy := filter (\<lambda>i. i \<noteq> pa_link a) (pw_busy w0)\<rparr>) in
      if pa_abandoned a then
        finish_load tm None (note_outcome tm False [] (counted ''peerAbandoned'' l) (record_selection tm a 0 w))
      else (case (if ld_aborted l \<or> mb_stopped (pw_members w) then None else bytes) of
          None \<Rightarrow> choose_link opt tm l (if ld_aborted l \<or> mb_stopped (pw_members w) then w else record_selection tm a 0 w)
        | Some bs \<Rightarrow> (l\<lparr>ld_phase := Digesting a bs\<rparr>, w)))"

definition ban_peer :: "string \<Rightarrow> peer_swarm \<Rightarrow> peer_swarm" where
  "ban_peer p w = w\<lparr>pw_members := (pw_members w)\<lparr>mb_banned := (if p \<in> set (mb_banned (pw_members w)) then mb_banned (pw_members w) else mb_banned (pw_members w) @ [p])\<rparr>\<rparr>"

definition payload_matches :: "load_options \<Rightarrow> js \<Rightarrow> byte list \<Rightarrow> bool" where
  "payload_matches opt c bytes \<longleftrightarrow> int (length bytes) = int_of (member c ''size'') \<and> JStr (lo_sha opt bytes) = member c ''sha256''"

text \<open>A payload that verified after the load was aborted counts as late.\<close>

definition end_late :: "instant \<Rightarrow> load \<Rightarrow> peer_swarm \<Rightarrow> load \<times> peer_swarm" where
  "end_late tm l w = finish_load tm None (if ld_expired l then note_outcome tm False [] l w else (l, w))"

text \<open>The wrong bytes: their sender is banned before its link closes, and is not charged with a miss.\<close>

definition corrupt_payload :: "load_options \<Rightarrow> instant \<Rightarrow> peer_attempt \<Rightarrow> load \<Rightarrow> peer_swarm \<Rightarrow> load \<times> peer_swarm" where
  "corrupt_payload opt tm a l w =
     (let w = ban_peer (pa_pubkey a) (record_selection tm a 0 w);
          l = counted ''peerCorrupt'' (l\<lparr>ld_asked := filter (\<lambda>p. p \<noteq> pa_pubkey a) (ld_asked l)\<rparr>);
          w = w\<lparr>pw_members := link_down (pa_pubkey a) (pa_link a) (pw_members w)\<rparr>
      in if ld_aborted l then end_late tm l w else choose_link opt tm l w)"

definition accept_payload :: "instant \<Rightarrow> byte list \<Rightarrow> peer_attempt \<Rightarrow> load \<Rightarrow> peer_swarm \<Rightarrow> load \<times> peer_swarm" where
  "accept_payload tm bytes a l w =
     (let l = (if ld_coordinated l then counted ''coordinatedPeerLoads'' l else l);
          l = (if pa_trial a then counted ''peerUntestedTrialLoaded'' l else l)
      in finish_load tm (Some (pa_pubkey a, bytes)) (l, record_selection tm a (length bytes) w))"

definition digest_ready :: "load_options \<Rightarrow> instant \<Rightarrow> byte list \<Rightarrow> peer_attempt \<Rightarrow> load \<Rightarrow> peer_swarm \<Rightarrow> load \<times> peer_swarm" where
  "digest_ready opt tm bytes a l w =
     (if mb_stopped (pw_members w) then finish_load tm None (l, w)
      else if \<not> payload_matches opt (ld_commitment l) bytes then corrupt_payload opt tm a l w
      else if ld_aborted l then end_late tm l w
      else if int_of (member (ld_commitment l) ''expiresAt'') \<le> tm_wall tm div 1000 then finish_load tm None (l, w)
      else accept_payload tm bytes a l w)"

subsection \<open>Steps\<close>

datatype load_input =
    KeyReady string
  | HaveWake
  | CommitmentAnswer "js option"
  | Progress int "rat option"
  | SilenceFires
  | RequestSettles "byte list option"
  | DigestReady
  | DeadlineFires
  | PlayerAborts
  | Stops
  | Elsewhere peer_swarm

definition attempt_step :: "load_options \<Rightarrow> instant \<Rightarrow> load_input \<Rightarrow> peer_attempt \<Rightarrow> load \<Rightarrow> peer_swarm \<Rightarrow> load \<times> peer_swarm" where
  "attempt_step opt tm e a l w =
     (case e of
        Progress received first_at \<Rightarrow> (l\<lparr>ld_phase := Asking (progress_on tm received first_at (ld_deadline l) (ld_aborted l) a)\<rparr>, w)
      | SilenceFires \<Rightarrow> (l\<lparr>ld_phase := Asking (silence_on (ld_aborted l) a)\<rparr>, w)
      | RequestSettles bytes \<Rightarrow> request_settles opt tm bytes a l w
      | _ \<Rightarrow> (l, w))"

definition commitment_step :: "load_options \<Rightarrow> instant \<Rightarrow> js option \<Rightarrow> load \<Rightarrow> peer_swarm \<Rightarrow> load \<times> peer_swarm" where
  "commitment_step opt tm answer l w =
     (case ld_phase l of
        AwaitingCommitment \<Rightarrow> commitment_known opt tm answer l w
      | AwaitingHave \<Rightarrow> ((if ld_answer l = None then l\<lparr>ld_answer := Some answer\<rparr> else l), w)
      | _ \<Rightarrow> (l, w))"

text \<open>The timer of the deadline, an abort by the player and the end of the swarm's session do not wait for an await.\<close>

definition load_step :: "load_options \<Rightarrow> instant \<Rightarrow> load_input \<Rightarrow> load \<Rightarrow> peer_swarm \<Rightarrow> load \<times> peer_swarm" where
  "load_step opt tm e l w =
     (case e of
        DeadlineFires \<Rightarrow> (if ld_active l then fall_back (l\<lparr>ld_expired := True\<rparr>) else l, w)
      | PlayerAborts \<Rightarrow> (if ld_active l then load_emit [PlayerAborted, Counted ''aborted''] (l\<lparr>ld_active := False, ld_aborted := True\<rparr>) else l, w)
      | Stops \<Rightarrow> (fall_back l, w\<lparr>pw_members := (pw_members w)\<lparr>mb_stopped := True\<rparr>\<rparr>)
      | Elsewhere w' \<Rightarrow> (l, w')
      | CommitmentAnswer answer \<Rightarrow> commitment_step opt tm answer l w
      | KeyReady key \<Rightarrow> (case ld_phase l of HashingKey \<Rightarrow> key_ready opt tm key l w | _ \<Rightarrow> (l, w))
      | HaveWake \<Rightarrow> (case ld_phase l of AwaitingHave \<Rightarrow> await_have opt tm l w | Choosing \<Rightarrow> choose_link opt tm l w | _ \<Rightarrow> (l, w))
      | DigestReady \<Rightarrow> (case ld_phase l of Digesting a bytes \<Rightarrow> digest_ready opt tm bytes a l w | _ \<Rightarrow> (l, w))
      | _ \<Rightarrow> (case ld_phase l of Asking a \<Rightarrow> attempt_step opt tm e a l w | _ \<Rightarrow> (l, w)))"

end
