(* ===== verification/Peer_First_Claims.thy ===== *)
theory Peer_First_Claims
  imports Peer_First Peer_Selection_Claims Swarm_Signalling Segment_Commitment_Claims
begin

text \<open>
  What a load from the neighbours keeps, whatever the swarm, the neighbours, the host and the player do: one
  outcome, verified bytes, waits inside the limit, and the origin's reserve.
\<close>

subsection \<open>What the log of a load may hold\<close>

definition outcome :: "load_event \<Rightarrow> bool" where
  "outcome e \<longleftrightarrow> (case e of ToOrigin \<Rightarrow> True | PlainLoad \<Rightarrow> True | PlayerAborted \<Rightarrow> True | FromPeer k b \<Rightarrow> True | _ \<Rightarrow> False)"

text \<open>Bytes that a commitment for the segment proves, verified at some instant.\<close>

definition view_of :: "load_options \<Rightarrow> js \<Rightarrow> string \<Rightarrow> commitment_view" where
  "view_of opt ctx key = \<lparr>cv_stream = lo_stream opt, cv_swarm = lo_swarm opt, cv_key = key, cv_context = ctx,
     cv_max_bytes = lo_max_bytes opt, cv_delegation = lo_delegation opt, cv_delegations = lo_delegations opt\<rparr>"

definition committed :: "load_options \<Rightarrow> js \<Rightarrow> string \<Rightarrow> js \<Rightarrow> bool" where
  "committed opt ctx key c \<longleftrightarrow> (\<exists>e tm. verify_segment_commitment (lo_sig opt) (lo_url opt) e (view_of opt ctx key) tm = Some c)"

definition proven :: "load_options \<Rightarrow> js \<Rightarrow> string \<Rightarrow> byte list \<Rightarrow> bool" where
  "proven opt ctx key bytes \<longleftrightarrow> (\<exists>c. committed opt ctx key c \<and> payload_matches opt c bytes)"

definition log_ok :: "load_options \<Rightarrow> js \<Rightarrow> rat \<Rightarrow> bool \<Rightarrow> load_event list \<Rightarrow> bool" where
  "log_ok opt ctx limit active es \<longleftrightarrow> length (filter outcome es) = (if active then 0 else 1)
     \<and> (\<forall>key bytes. FromPeer key bytes \<in> set es \<longrightarrow> proven opt ctx key bytes)
     \<and> (\<forall>p b t. AskedLink p b t \<in> set es \<longrightarrow> b < limit \<and> b + t \<le> limit + 1)"

definition load_ok :: "load_options \<Rightarrow> load \<Rightarrow> bool" where
  "load_ok opt l \<longleftrightarrow> log_ok opt (lr_context (ld_request l)) (ld_limit l) (ld_active l) (ld_out l)
     \<and> ld_deadline l \<le> ld_limit l \<and> distinct (ld_tried l) \<and> length (ld_tried l) \<le> lo_max_peers opt"

definition load_committed :: "load_options \<Rightarrow> load \<Rightarrow> bool" where
  "load_committed opt l \<longleftrightarrow> committed opt (lr_context (ld_request l)) (ld_key l) (ld_commitment l)"

definition past_commitment :: "load_phase \<Rightarrow> bool" where
  "past_commitment p \<longleftrightarrow> (case p of Choosing \<Rightarrow> True | Asking a \<Rightarrow> True | Digesting a b \<Rightarrow> True | _ \<Rightarrow> False)"

definition load_inv :: "load_options \<Rightarrow> load \<Rightarrow> bool" where
  "load_inv opt l \<longleftrightarrow> load_ok opt l \<and> (past_commitment (ld_phase l) \<longrightarrow> load_committed opt l)"

text \<open>What no step changes.\<close>

definition same_load :: "load \<Rightarrow> load \<Rightarrow> bool" where
  "same_load k l \<longleftrightarrow> ld_request k = ld_request l \<and> ld_limit k = ld_limit l"

text \<open>A step that changes neither what is proved nor the phase.\<close>

definition tame :: "load_options \<Rightarrow> load \<Rightarrow> load \<Rightarrow> bool" where
  "tame opt k l \<longleftrightarrow> same_load k l \<and> ld_key k = ld_key l \<and> ld_commitment k = ld_commitment l \<and> ld_phase k = ld_phase l
     \<and> ld_tried k = ld_tried l \<and> ld_active k = ld_active l \<and> (load_ok opt l \<longrightarrow> load_ok opt k)"

text \<open>A step that ends well.\<close>

definition steps_to :: "load_options \<Rightarrow> load \<Rightarrow> load \<Rightarrow> bool" where
  "steps_to opt l k \<longleftrightarrow> same_load k l \<and> (load_ok opt l \<longrightarrow> load_inv opt k)"

lemma tame_refl [simp]: "tame opt l l"
  by (simp add: tame_def same_load_def)

lemma tame_trans: "tame opt j k \<Longrightarrow> tame opt k l \<Longrightarrow> tame opt j l"
  by (auto simp: tame_def same_load_def)

lemma tame_committed: "tame opt k l \<Longrightarrow> load_committed opt k = load_committed opt l"
  by (simp add: tame_def same_load_def load_committed_def)

lemma tame_steps: "tame opt k l \<Longrightarrow> steps_to opt k m \<Longrightarrow> steps_to opt l m"
  by (auto simp: tame_def same_load_def steps_to_def)

lemma steps_same: "steps_to opt k m \<Longrightarrow> same_load k l \<Longrightarrow> (load_ok opt l \<Longrightarrow> load_ok opt k) \<Longrightarrow> steps_to opt l m"
  by (auto simp: steps_to_def same_load_def)

lemma log_emit [simp]:
  assumes "\<not> outcome e" and "\<And>p b t. e \<noteq> AskedLink p b t"
  shows "log_ok opt ctx limit active (es @ [e]) = log_ok opt ctx limit active es"
proof -
  have "FromPeer key bytes \<noteq> e" for key bytes using assms(1) by (auto simp: outcome_def)
  moreover have "AskedLink p b t \<noteq> e" for p b t using assms(2) by metis
  ultimately show ?thesis using assms(1) by (simp add: log_ok_def)
qed

lemma tame_emit: "\<not> outcome e \<Longrightarrow> (\<And>p b t. e \<noteq> AskedLink p b t) \<Longrightarrow> tame opt (load_emit [e] l) l"
  by (simp add: tame_def same_load_def load_emit_def load_ok_def)

lemma tame_counted [simp]: "tame opt (counted c l) l"
  unfolding counted_def by (rule tame_emit) (simp_all add: outcome_def)

lemma tame_counts: "tame opt (load_emit (replicate n (Counted c)) l) l"
proof (induction n arbitrary: l)
  case (Suc n)
  have "load_emit (replicate (Suc n) (Counted c)) l = load_emit (replicate n (Counted c)) (counted c l)"
    by (simp add: load_emit_def counted_def)
  then show ?case using tame_trans [OF Suc.IH tame_counted] by simp
qed (simp add: load_emit_def)

lemma tame_fields [simp]:
  "tame opt (l\<lparr>ld_recorded := a\<rparr>) l" "tame opt (l\<lparr>ld_trial := a\<rparr>) l" "tame opt (l\<lparr>ld_asked := ps\<rparr>) l" "tame opt (l\<lparr>ld_answer := v\<rparr>) l"
  "tame opt (l\<lparr>ld_expired := a\<rparr>) l"
  by (simp_all add: tame_def same_load_def load_ok_def)

lemma tame_extend [simp]: "tame opt (extend_wait t l) l"
  by (simp add: extend_wait_def Let_def counted_def tame_def same_load_def load_emit_def load_ok_def outcome_def)

lemma tame_apply [simp]: "tame opt (apply_projection tm v t l) l"
  by (simp add: apply_projection_def split: forecast.split)

lemma tame_record [simp]: "tame opt (fst (note_outcome tm every unfit l w)) l"
  using tame_trans [OF tame_counts tame_fields(1)]
  by (simp add: note_outcome_def Let_def case_prod_unfold split: option.split)

lemma fall_back_ok: "load_ok opt l \<Longrightarrow> load_ok opt (fall_back l)"
  by (auto simp: fall_back_def load_emit_def load_ok_def log_ok_def outcome_def)

lemma fall_back_fields [simp]: "ld_request (fall_back l) = ld_request l" "ld_limit (fall_back l) = ld_limit l" "ld_phase (fall_back l) = ld_phase l"
  "ld_key (fall_back l) = ld_key l" "ld_commitment (fall_back l) = ld_commitment l" "\<not> ld_active (fall_back l)"
  by (simp_all add: fall_back_def load_emit_def)

subsection \<open>The operations\<close>

lemma deliver_ok:
  assumes "load_ok opt l" and "ld_active l" and "proven opt (lr_context (ld_request l)) (ld_key l) bytes"
  shows "load_ok opt (fst (deliver_load tm p bytes l w))"
  using assms by (auto simp: deliver_load_def load_emit_def load_ok_def log_ok_def outcome_def)

lemma finish_ok:
  assumes "\<And>p bytes. r = Some (p, bytes) \<Longrightarrow> proven opt (lr_context (ld_request (fst lw))) (ld_key (fst lw)) bytes"
  shows "steps_to opt (fst lw) (fst (finish_load tm r lw))"
proof -
  let ?l = "(fst lw)\<lparr>ld_phase := LoadDone\<rparr>"
  have done_it: "steps_to opt (fst lw) k" if "same_load k ?l" "ld_phase k = LoadDone" "load_ok opt ?l \<Longrightarrow> load_ok opt k" for k
    using that by (simp add: steps_to_def same_load_def load_inv_def past_commitment_def load_ok_def)
  have phase: "ld_phase (fall_back k) = LoadDone \<and> same_load (fall_back k) ?l \<and> (load_ok opt ?l \<longrightarrow> load_ok opt (fall_back k))" if "tame opt k ?l" for k
    using that fall_back_ok by (simp add: tame_def same_load_def)
  show ?thesis
  proof (cases "\<not> ld_active ?l \<or> ld_aborted ?l \<or> mb_stopped (pw_members (snd lw))")
    case True
    then show ?thesis using done_it [of ?l] by (simp add: finish_load_def same_load_def)
  next
    case live: False
    show ?thesis
    proof (cases r)
      case None
      then show ?thesis using live done_it phase [of ?l] by (simp add: finish_load_def)
    next
      case (Some x)
      obtain p bytes where x: "x = (p, bytes)" by fastforce
      have ok: "load_ok opt (fst (deliver_load tm p bytes ?l (snd lw)))" if "load_ok opt ?l"
        using deliver_ok [OF that] live assms Some x by simp
      have "same_load (fst (deliver_load tm p bytes ?l (snd lw))) ?l" "ld_phase (fst (deliver_load tm p bytes ?l (snd lw))) = LoadDone"
        by (simp_all add: deliver_load_def load_emit_def same_load_def)
      then have delivered: "steps_to opt (fst lw) (fst (deliver_load tm p bytes ?l (snd lw)))" using done_it ok by blast
      have "steps_to opt (fst lw) (fall_back (fst (note_outcome tm False [] ?l (snd lw))))"
        using phase [OF tame_record] done_it by blast
      then show ?thesis using live delivered by (simp add: finish_load_def Some x case_prod_unfold Let_def)
    qed
  qed
qed

lemma finish_none: "tame opt l k \<Longrightarrow> steps_to opt k (fst (finish_load tm None (l, w)))"
  using tame_steps [OF _ finish_ok [of None opt "(l, w)"]] by simp

lemma nothing_came_ok: "steps_to opt l (fst (nothing_came tm l w))"
  using finish_none [OF tame_record] finish_none [OF tame_refl] by (simp add: nothing_came_def) (metis prod.collapse)

text \<open>A link that is picked is open, free, has the segment and has not been tried.\<close>

lemma pick_link_sound:
  assumes "pick_link tm l w = (Some (i, p, trial), v)"
  shows "\<exists>k \<in> set (swarm_links w). sl_id k = i \<and> sl_pubkey k = p \<and> peer_free w k \<and> holds_key (ld_key l) k \<and> p \<notin> set (ld_tried l)"
proof (cases "if ld_trial l \<and> ld_tried l = [] then untested_holder tm (ld_key l) (ld_holders l) w else None")
  case None
  then obtain c s where c: "select_link (map (candidate_of w) (filter (peer_free w) (swarm_links w))) (ld_key l) (ld_tried l) (committed_size l)
      (Some (ld_limit l - tm_mono tm)) (pw_selection w) = (Some c, s)" "i = cl_id c" "p = cl_pubkey c"
    using assms unfolding pick_link_def None option.case by (auto simp: case_prod_unfold Let_def) (metis prod.collapse)
  then show ?thesis using select_link_sound [OF c(1)] by (auto simp: candidate_of_def holds_key_def)
next
  case (Some k)
  then have "k \<in> set (swarm_links w)" "peer_free w k" "holds_key (ld_key l) k" "ld_tried l = []"
    by (auto simp: untested_holder_def find_Some_iff split: if_splits)
  then show ?thesis using assms Some by (auto simp: pick_link_def)
qed

lemma attempt_ms_le: "attempt_ms t remaining n \<le> remaining"
  by (simp add: attempt_ms_def split: option.split)

lemma mark_tried_fields [simp]: "ld_deadline (mark_tried p trial l) = ld_deadline l" "ld_limit (mark_tried p trial l) = ld_limit l"
  "ld_request (mark_tried p trial l) = ld_request l" "ld_key (mark_tried p trial l) = ld_key l" "ld_commitment (mark_tried p trial l) = ld_commitment l"
  "ld_tried (mark_tried p trial l) = ld_tried l @ [p]" "ld_active (mark_tried p trial l) = ld_active l"
  by (simp_all add: mark_tried_def Let_def counted_def load_emit_def)

lemma mark_tried_ok: "load_ok opt l \<Longrightarrow> p \<notin> set (ld_tried l) \<Longrightarrow> length (ld_tried l) < lo_max_peers opt \<Longrightarrow> load_ok opt (mark_tried p trial l)"
  by (simp add: load_ok_def) (simp add: mark_tried_def Let_def counted_def load_emit_def outcome_def)

lemma tame_wait [simp]: "tame opt (wait_for_link tm t l) l"
  by (simp add: wait_for_link_def split: option.split)

lemma wait_deadline: "ld_deadline l \<le> ld_deadline (wait_for_link tm t l)"
  by (auto simp: wait_for_link_def extend_wait_def counted_def load_emit_def Let_def not_le intro: less_imp_le split: option.split)

lemma asked_ok:
  assumes "load_ok opt l" and "b < ld_deadline l" and "b + t \<le> ld_deadline l + 1"
  shows "load_ok opt (load_emit [AskedLink p b t] (l\<lparr>ld_phase := q\<rparr>))"
proof -
  have "b < ld_limit l" "b + t \<le> ld_limit l + 1" using assms by (auto simp: load_ok_def)
  then show ?thesis using assms(1) by (auto simp: load_ok_def load_emit_def log_ok_def outcome_def)
qed

lemma ask_link_ok:
  assumes "load_committed opt l" and "p \<notin> set (ld_tried l)" and "length (ld_tried l) < lo_max_peers opt" and "tm_mono tm < ld_deadline l"
  shows "steps_to opt l (fst (ask_link tm i p trial l w))"
proof -
  define t where "t = estimate (pw_selection w) i (committed_size l)"
  define m where "m = wait_for_link tm t (mark_tried p trial l)"
  have m: "tame opt m (mark_tried p trial l)" unfolding m_def by simp
  have before: "tm_mono tm < ld_deadline m" using assms(4) wait_deadline [of "mark_tried p trial l" tm t] by (simp add: m_def)
  obtain n q where r: "fst (ask_link tm i p trial l w)
      = load_emit [AskedLink p (tm_mono tm) (max 1 (attempt_ms t (ld_deadline m - tm_mono tm) n))] (m\<lparr>ld_phase := Asking q\<rparr>)"
    unfolding ask_link_def Let_def t_def [symmetric] m_def [symmetric] by simp
  have "tm_mono tm + max 1 (attempt_ms t (ld_deadline m - tm_mono tm) n) \<le> ld_deadline m + 1"
    using attempt_ms_le [of t "ld_deadline m - tm_mono tm" n] before by linarith
  then have "load_ok opt (fst (ask_link tm i p trial l w))" if "load_ok opt l"
    unfolding r using asked_ok before mark_tried_ok [OF that assms(2,3)] m by (simp add: tame_def)
  moreover have "same_load (fst (ask_link tm i p trial l w)) l" "load_committed opt (fst (ask_link tm i p trial l w))"
    using m assms(1) unfolding r by (simp_all add: tame_def same_load_def load_emit_def load_committed_def)
  ultimately show ?thesis by (simp add: steps_to_def load_inv_def)
qed

lemma choose_link_ok:
  assumes "load_committed opt l"
  shows "steps_to opt l (fst (choose_link opt tm l w))"
proof (cases "\<not> load_live tm l w \<or> length (ld_tried l) \<ge> lo_max_peers opt")
  case True
  then show ?thesis using nothing_came_ok by (simp add: choose_link_def)
next
  case live: False
  obtain c v where c: "pick_link tm l w = (c, v)" by fastforce
  have waits: "steps_to opt l (l\<lparr>ld_phase := Choosing\<rparr>)"
    using assms by (simp add: steps_to_def same_load_def load_inv_def load_ok_def load_committed_def)
  have unfit: "steps_to opt l (fst (finish_load tm None (note_outcome tm False ps (counted x l) u)))" for ps x u
    using finish_none [OF tame_trans [OF tame_record tame_counted]] by (metis prod.collapse)
  have asks: "steps_to opt l (fst (ask_link tm i p trial l v))" if "c = Some (i, p, trial)" for i p trial
    using ask_link_ok [OF assms] pick_link_sound [of tm l w i p trial v] c that live by (auto simp: load_live_def)
  have late: "steps_to opt l (fst (finish_load tm None (counted x l, u)))" for x u using finish_none [OF tame_counted] .
  show ?thesis
  proof (cases c)
    case None
    then show ?thesis using live waits unfit late c by (simp add: choose_link_def Let_def)
  next
    case (Some x)
    then show ?thesis using live late asks c by (cases x) (simp add: choose_link_def Let_def)
  qed
qed

lemma commitment_known_ok: "steps_to opt l (fst (commitment_known opt tm answer l w))"
proof (cases "case answer of None \<Rightarrow> None | Some e \<Rightarrow> verify_segment_commitment (lo_sig opt) (lo_url opt) e (load_view opt l) (tm_wall tm)")
  case None
  then show ?thesis using finish_none [OF tame_counted] finish_none [OF tame_refl] by (auto simp: commitment_known_def split: option.splits)
next
  case (Some c)
  then obtain e where e: "answer = Some e" "verify_segment_commitment (lo_sig opt) (lo_url opt) e (load_view opt l) (tm_wall tm) = Some c"
    by (cases answer) simp_all
  have known: "committed opt (lr_context (ld_request l)) (ld_key l) c"
    unfolding committed_def using e(2) by (auto simp: load_view_def view_of_def)
  have step: "steps_to opt l k" if "tame opt m (l\<lparr>ld_commitment := c\<rparr>)" "steps_to opt m k" for m k
    using steps_same [OF tame_steps [OF that]] by (simp add: same_load_def load_ok_def)
  have chosen: "steps_to opt l (fst (choose_link opt tm (apply_projection tm v t (l\<lparr>ld_commitment := c, ld_trial := b\<rparr>)) u))" for v t b u
  proof (rule step)
    show m: "tame opt (apply_projection tm v t (l\<lparr>ld_commitment := c, ld_trial := b\<rparr>)) (l\<lparr>ld_commitment := c\<rparr>)"
      using tame_trans [OF tame_apply tame_fields(2)] by simp
    then have "load_committed opt (apply_projection tm v t (l\<lparr>ld_commitment := c, ld_trial := b\<rparr>))"
      using known by (simp add: tame_def same_load_def load_committed_def)
    then show "steps_to opt (apply_projection tm v t (l\<lparr>ld_commitment := c, ld_trial := b\<rparr>))
        (fst (choose_link opt tm (apply_projection tm v t (l\<lparr>ld_commitment := c, ld_trial := b\<rparr>)) u))"
      by (rule choose_link_ok)
  qed
  have late: "steps_to opt l (fst (finish_load tm None (counted x (l\<lparr>ld_commitment := c, ld_trial := b\<rparr>), u)))" for x b u
    using step [OF tame_fields(2) finish_none [OF tame_counted]] by simp
  show ?thesis
    using chosen late finish_none [OF tame_refl] by (simp add: commitment_known_def e Let_def)
qed

lemma phase_ok: "\<not> past_commitment p \<Longrightarrow> steps_to opt l (l\<lparr>ld_phase := p\<rparr>)"
  by (simp add: steps_to_def same_load_def load_inv_def load_ok_def)

lemma await_commitment_ok: "steps_to opt l (fst (await_commitment opt tm l w))"
  using commitment_known_ok phase_ok [of AwaitingCommitment] by (simp add: await_commitment_def past_commitment_def split: option.split)

lemma await_have_ok: "steps_to opt l (fst (await_have opt tm l w))"
proof -
  have waits: "steps_to opt l (l\<lparr>ld_phase := AwaitingHave\<rparr>)" by (rule phase_ok) (simp add: past_commitment_def)
  have recorded: "steps_to opt l (fst (finish_load tm None (note_outcome tm True [] l w)))"
    using finish_none [OF tame_record] by (metis prod.collapse)
  show ?thesis
    using waits recorded await_commitment_ok finish_none [OF tame_refl] by (simp add: await_have_def Let_def)
qed

lemma tame_if: "tame opt k l \<Longrightarrow> tame opt m l \<Longrightarrow> tame opt (if b then k else m) l"
  by simp

lemma recorded_end: "tame opt k l \<Longrightarrow> steps_to opt l (fst (finish_load tm None (note_outcome tm every unfit k w)))"
  using finish_none [OF tame_trans [OF tame_record]] by (metis prod.collapse)

lemma request_commitment_ok: "steps_to opt l (fst (request_commitment opt tm l w))"
proof -
  let ?k = "load_emit [AskedCommitment] (counted ''commitmentRequests'' l)"
  have k: "tame opt ?k l" by (rule tame_trans [OF tame_emit tame_counted]) (simp_all add: outcome_def)
  show ?thesis
    using tame_steps [OF k await_have_ok] tame_steps [OF k await_commitment_ok] by (simp add: request_commitment_def Let_def)
qed

lemma begin_wait_ok: "steps_to opt l (fst (begin_wait opt tm v t l w))"
proof -
  define k where "k = (if ld_coordinated (apply_projection tm v t l) then counted ''coordinatedWaits'' (apply_projection tm v t l) else apply_projection tm v t l)"
  have k: "tame opt k l" unfolding k_def by (rule tame_if [OF tame_trans [OF tame_counted tame_apply] tame_apply])
  show ?thesis
    unfolding begin_wait_def Let_def k_def [symmetric]
    using finish_none [OF k, of tm w] tame_steps [OF k request_commitment_ok, of tm w] by simp
qed

lemma enter_load_ok: "steps_to opt l (fst (enter_load opt tm l w))"
proof -
  have "steps_to opt l (fst (finish_load tm None (counted c (fst (note_outcome tm True [] l w)), u)))" for c u
    using finish_none [OF tame_trans [OF tame_counted tame_record]] .
  moreover have "steps_to opt l (fst (begin_wait opt tm v t (l\<lparr>ld_trial := b\<rparr>) u))" for v t b u
    using tame_steps [OF tame_fields(2) begin_wait_ok] .
  ultimately show ?thesis by (simp add: enter_load_def Let_def case_prod_unfold)
qed

lemma key_ready_ok: "steps_to opt l (fst (key_ready opt tm key l w))"
proof -
  have named: "steps_to opt l k" if "steps_to opt (l\<lparr>ld_key := key, ld_holders := h, ld_coordinated := b\<rparr>) k" for h b k
    using steps_same [OF that] by (simp add: same_load_def load_ok_def)
  have "steps_to opt l (fst (enter_load opt tm (l\<lparr>ld_key := key, ld_holders := h, ld_coordinated := b\<rparr>) u))"
    "steps_to opt l (fst (finish_load tm None (l\<lparr>ld_key := key, ld_holders := h, ld_coordinated := b\<rparr>, u)))" for h b u
    using named [OF enter_load_ok] named [OF finish_none [OF tame_refl]] by simp_all
  then show ?thesis using finish_none [OF tame_refl] by (simp add: key_ready_def Let_def)
qed

lemma request_settles_ok:
  assumes "load_committed opt l"
  shows "steps_to opt l (fst (request_settles opt tm bytes a l w))"
proof -
  have "steps_to opt l (fst (finish_load tm None (note_outcome tm False [] (counted c l) u)))" for c u
    using recorded_end [OF tame_counted] .
  moreover have "steps_to opt l (l\<lparr>ld_phase := Digesting a bs\<rparr>)" for bs
    using assms by (simp add: steps_to_def same_load_def load_inv_def load_ok_def load_committed_def)
  ultimately show ?thesis
    using choose_link_ok [OF assms] by (simp add: request_settles_def Let_def split: option.split)
qed

lemma end_late_ok: "tame opt k l \<Longrightarrow> steps_to opt l (fst (end_late tm k w))"
  using recorded_end finish_none by (simp add: end_late_def)

lemma corrupt_payload_ok:
  assumes "load_committed opt l"
  shows "steps_to opt l (fst (corrupt_payload opt tm a l w))"
proof -
  let ?b = "counted ''peerCorrupt'' (l\<lparr>ld_asked := filter (\<lambda>p. p \<noteq> pa_pubkey a) (ld_asked l)\<rparr>)"
  have b: "tame opt ?b l" using tame_trans [OF tame_counted tame_fields(3)] .
  then have "load_committed opt ?b" using tame_committed assms by blast
  from tame_steps [OF b choose_link_ok [OF this]] end_late_ok [OF b] show ?thesis by (simp add: corrupt_payload_def Let_def)
qed

lemma accept_payload_ok:
  assumes "load_committed opt l" and "payload_matches opt (ld_commitment l) bytes"
  shows "steps_to opt l (fst (accept_payload tm bytes a l w))"
proof -
  define c where "c = (if ld_coordinated l then counted ''coordinatedPeerLoads'' l else l)"
  define d where "d = (if pa_trial a then counted ''peerUntestedTrialLoaded'' c else c)"
  have "tame opt c l" unfolding c_def by (rule tame_if [OF tame_counted tame_refl])
  then have d: "tame opt d l" unfolding d_def using tame_if [OF tame_trans [OF tame_counted]] by blast
  have "proven opt (lr_context (ld_request d)) (ld_key d) bytes"
    using assms d unfolding proven_def load_committed_def tame_def same_load_def by metis
  then have "steps_to opt d (fst (finish_load tm (Some (pa_pubkey a, bytes)) (d, u)))" for u
    using finish_ok [of "Some (pa_pubkey a, bytes)" opt "(d, u)"] by simp
  from tame_steps [OF d this] show ?thesis unfolding accept_payload_def Let_def c_def [symmetric] d_def [symmetric] .
qed

lemma digest_ready_ok:
  assumes "load_committed opt l"
  shows "steps_to opt l (fst (digest_ready opt tm bytes a l w))"
  using finish_none [OF tame_refl] end_late_ok [OF tame_refl] corrupt_payload_ok [OF assms] accept_payload_ok [OF assms]
  by (simp add: digest_ready_def)

subsection \<open>Runs\<close>

inductive load_run :: "load_options \<Rightarrow> instant \<Rightarrow> load_request \<Rightarrow> peer_swarm \<Rightarrow> load \<Rightarrow> peer_swarm \<Rightarrow> bool" for opt tm0 q w0 where
  start: "load_run opt tm0 q w0 (load_start opt tm0 q w0) w0"
| step: "load_run opt tm0 q w0 l w \<Longrightarrow> load_step opt tm e l w = (k, v) \<Longrightarrow> load_run opt tm0 q w0 k v"

lemma same_refl [simp]: "same_load l l"
  by (simp add: same_load_def)

lemma stays: "load_inv opt l \<Longrightarrow> same_load k l \<and> load_inv opt k" if "steps_to opt l k" for opt k l
  using that by (simp add: steps_to_def load_inv_def)

lemma rephase: "load_inv opt l \<Longrightarrow> past_commitment (ld_phase l) \<Longrightarrow> same_load (l\<lparr>ld_phase := p\<rparr>) l \<and> load_inv opt (l\<lparr>ld_phase := p\<rparr>)"
  by (simp add: load_inv_def load_ok_def load_committed_def same_load_def)

lemma fall_back_inv: "load_inv opt l \<Longrightarrow> same_load (fall_back l) l \<and> load_inv opt (fall_back l)"
  using fall_back_ok by (simp add: load_inv_def load_committed_def same_load_def)

lemma attempt_step_inv:
  assumes "load_inv opt l" and "ld_phase l = Asking a"
  shows "same_load (fst (attempt_step opt tm e a l w)) l \<and> load_inv opt (fst (attempt_step opt tm e a l w))"
proof -
  have past: "past_commitment (ld_phase l)" using assms(2) by (simp add: past_commitment_def)
  then have "load_committed opt l" using assms(1) by (simp add: load_inv_def)
  from stays [OF request_settles_ok [OF this]] assms(1) rephase [OF assms(1) past] show ?thesis
    by (auto simp: attempt_step_def split: load_input.split)
qed

lemma load_step_inv:
  assumes "load_inv opt l"
  shows "same_load (fst (load_step opt tm e l w)) l \<and> load_inv opt (fst (load_step opt tm e l w))"
proof (cases e)
  case (KeyReady key)
  then show ?thesis using stays [OF key_ready_ok] assms by (simp add: load_step_def split: load_phase.split)
next
  case HaveWake
  have "ld_phase l = Choosing \<Longrightarrow> load_committed opt l" using assms by (simp add: load_inv_def past_commitment_def)
  then show ?thesis using stays [OF await_have_ok] stays [OF choose_link_ok] assms by (simp add: HaveWake load_step_def split: load_phase.split)
next
  case (CommitmentAnswer answer)
  have "load_inv opt (l\<lparr>ld_answer := v\<rparr>)" for v using assms by (simp add: load_inv_def load_ok_def load_committed_def)
  then show ?thesis
    using stays [OF commitment_known_ok] assms by (simp add: CommitmentAnswer load_step_def commitment_step_def same_load_def split: load_phase.split)
next
  case DigestReady
  have "ld_phase l = Digesting a bytes \<Longrightarrow> load_committed opt l" for a bytes using assms by (simp add: load_inv_def past_commitment_def)
  then show ?thesis using stays [OF digest_ready_ok] assms by (simp add: DigestReady load_step_def split: load_phase.split)
next
  case DeadlineFires
  have "load_inv opt (l\<lparr>ld_expired := True\<rparr>)" using assms by (simp add: load_inv_def load_ok_def load_committed_def)
  from fall_back_inv [OF this] show ?thesis using assms by (simp add: DeadlineFires load_step_def same_load_def)
next
  case PlayerAborts
  then show ?thesis
    using assms by (simp add: load_step_def same_load_def load_inv_def load_ok_def load_committed_def load_emit_def log_ok_def outcome_def)
next
  case Stops
  then show ?thesis using fall_back_inv [OF assms] by (simp add: load_step_def)
next
  case (Elsewhere v)
  then show ?thesis using assms by (simp add: load_step_def)
qed (use attempt_step_inv [OF assms] assms in \<open>simp_all add: load_step_def split: load_phase.split\<close>)

lemma budget_le_limit: "wr_budget room \<le> limit_ms opt room"
  by (simp add: limit_ms_def)

definition start_limit :: "load_options \<Rightarrow> instant \<Rightarrow> load_request \<Rightarrow> peer_swarm \<Rightarrow> rat" where
  "start_limit opt tm q w = tm_mono tm + limit_ms opt (peer_budget opt q (origin_samples (lr_rendition q) w))"

lemma load_start_inv:
  "load_inv opt (load_start opt tm q w) \<and> ld_request (load_start opt tm q w) = q \<and> ld_limit (load_start opt tm q w) = start_limit opt tm q w"
  using budget_le_limit [of "peer_budget opt q (origin_samples (lr_rendition q) w)" opt]
  by (simp add: load_start_def start_limit_def Let_def load_inv_def load_ok_def log_ok_def past_commitment_def fall_back_def load_emit_def outcome_def)

lemma load_run_inv:
  "load_run opt tm0 q w0 l w \<Longrightarrow> load_inv opt l \<and> ld_request l = q \<and> ld_limit l = start_limit opt tm0 q w0"
proof (induction rule: load_run.induct)
  case start
  then show ?case by (rule load_start_inv)
next
  case (step l w tm e k v)
  then show ?case using load_step_inv [of opt l tm e w] by (simp add: same_load_def)
qed

subsection \<open>A sample load\<close>

definition pf_key :: string where "pf_key = replicate 64 CHR ''c''"

definition pf_commitment :: js where
  "pf_commitment = JObj [(''domain'', JStr ''relayswarm-segment-v1''), (''v'', JInt 1), (''streamEventId'', JStr (replicate 64 CHR ''h'')), (''swarmId'', JStr ''swarm''),
     (''key'', JStr pf_key), (''rendition'', JStr ''0''), (''sequence'', JInt 1), (''discontinuity'', JInt 0), (''part'', JNull),
     (''sha256'', JStr (replicate 64 CHR ''d'')), (''size'', JInt 1), (''expiresAt'', JInt 100)]"

definition pf_event :: js where
  "pf_event = sn_finalize ex_signer (event_draft kind_segment_commitment 5 [[JStr ''x'', JStr ''swarm''], [JStr ''e'', member ex_stream ''id'']]
     (json_text pf_commitment))"

definition pf_context :: js where
  "pf_context = JObj [(''frag'', JObj [(''sn'', JInt 1), (''cc'', JInt 0), (''level'', JInt 0), (''type'', JStr ''main'')])]"

definition pf_rotation :: rotation_options where
  "pf_rotation = \<lparr>ro_min_link_life = 15000, ro_idle_evict = 20000, ro_eviction_cooldown = 10000, ro_retry_floor = 4000, ro_retry_ceiling = 45000,
     ro_max_referrals = 2, ro_presence_interval = 20000\<rparr>"

definition pf_options :: load_options where
  "pf_options = \<lparr>lo_fallback = 1500, lo_max_wait = 5000, lo_reserve = 2000, lo_sustainable = False, lo_max_peers = 6,
     lo_member = \<lparr>mo_rotation = pf_rotation, mo_max_peers = 6, mo_max_dials = 2, mo_max_retries = 3, mo_peer_first = True, mo_gated = False, mo_number = (\<lambda>_. None)\<rparr>,
     lo_stream = ex_stream, lo_swarm = ''swarm'', lo_max_bytes = JInt 4096, lo_delegation = JUndefined, lo_delegations = no_revocations,
     lo_sig = signature_ok ex_signing, lo_url = (\<lambda>_ _. None), lo_sha = (\<lambda>_. replicate 64 CHR ''d'')\<rparr>"

definition pf_link :: swarm_link where
  "pf_link = (fresh_link 1 (replicate 64 CHR ''b'') 0)\<lparr>sl_have := [pf_key]\<rparr>"

definition pf_swarm :: peer_swarm where
  "pf_swarm = \<lparr>pw_members = (new_membership (replicate 64 CHR ''a'') None)\<lparr>mb_links := [(replicate 64 CHR ''b'', pf_link)]\<rparr>,
     pw_selection = new_selection, pw_busy = [], pw_fetching = [], pw_leases = [], pw_sizes = [], pw_rendition_samples = [], pw_samples = []\<rparr>"

definition pf_request :: load_request where
  "pf_request = \<lparr>lr_media = ''main'', lr_rendition = ''main:0'', lr_vod = False, lr_context = pf_context, lr_duration = None,
     lr_playback = Some \<lparr>pb_ranges = [(0, 30)], pb_time = 0, pb_start = None\<rparr>\<rparr>"

definition pf_now :: "rat \<Rightarrow> instant" where
  "pf_now t = \<lparr>tm_wall = 6000, tm_mono = t\<rparr>"

lemma pf_content: "commitment_content pf_commitment = json_text pf_commitment" "json_parse (json_text pf_commitment) = Some pf_commitment"
proof -
  show "commitment_content pf_commitment = json_text pf_commitment"
    by (simp add: commitment_content_def commitment_object_def pf_commitment_def schema_def domain_def pick_fields_def jget_def del: json_text.simps)
  show "json_parse (json_text pf_commitment) = Some pf_commitment"
    by (rule json_roundtrip) (simp add: pf_commitment_def jwf_def)
qed

lemma pf_bounded: "bounded_event pf_event"
proof -
  have "length (json_text pf_commitment) < 600" by (simp add: pf_commitment_def pf_key_def ex_text_defs)
  then show ?thesis unfolding pf_event_def by (rule bounded_signed) (simp_all add: ex_text_defs kind_segment_commitment_def)
qed

lemma pf_event_fields:
  "member pf_event ''kind'' = JInt kind_segment_commitment" "member pf_event ''created_at'' = JInt 5" "member pf_event ''content'' = JStr (json_text pf_commitment)"
  "member pf_event ''pubkey'' = JStr (sn_pubkey ex_signer)" "signature_ok ex_signing pf_event" "truthy pf_event"
  "tag_value pf_event ''x'' = JStr ''swarm''" "tag_value pf_event ''e'' = member ex_stream ''id''"
proof -
  have "signature_ok ex_signing (sn_finalize ex_signer d)" for d
    using ex_signer_honest by (simp add: honest_signer_def)
  then show "signature_ok ex_signing pf_event" by (simp add: pf_event_def)
qed (simp_all add: pf_event_def event_draft_def jget_def tag_value_def tag_matches_def ex_stream_def publisher_stream_event_def ex_signer_def)

lemma pf_fields_ok: "commitment_fields_ok (view_of pf_options pf_context pf_key) 6 pf_commitment"
  by (simp add: commitment_fields_ok_def view_of_def pf_options_def pf_commitment_def pf_context_def schema_def domain_def jget_def if_nullish_def
      ex_stream_def publisher_stream_event_def ex_signer_def hex64_test_def hex_string_def list_all_iff lower_hex_char_def safe_int_def max_safe_def)

lemma pf_binding_ok: "media_binding_ok (\<lambda>_ _. None) pf_context pf_commitment"
  by (simp add: media_binding_ok_def pf_commitment_def pf_context_def schema_def jget_def Let_def int_text_def nat_text.simps digit_char_def) code_simp

lemma pf_schema: "schema pf_commitment = 1"
  by (simp add: schema_def pf_commitment_def jget_def)

lemma pf_verified: "verify_segment_commitment (lo_sig pf_options) (lo_url pf_options) pf_event (view_of pf_options pf_context pf_key) 6000 = Some pf_commitment"
  using pf_fields_ok pf_binding_ok
  by (simp add: verify_segment_commitment_def Let_def seconds_of_def pf_event_fields pf_bounded pf_content ex_stream_ok ex_delegation_fields)
     (simp add: view_of_def pf_options_def pf_event_fields ex_stream_ok ex_delegation_fields safe_int_def max_safe_def max_commitment_bytes_def pf_content pf_schema)

definition pf_started :: load where "pf_started = load_start pf_options (pf_now 0) pf_request pf_swarm"

definition pf_steps :: "(rat \<times> load_input) list \<Rightarrow> load \<times> peer_swarm" where
  "pf_steps es = fold (\<lambda>(t, e) (l, w). load_step pf_options (pf_now t) e l w) es (pf_started, pf_swarm)"

lemma pf_run: "load_run pf_options (pf_now 0) pf_request pf_swarm (fst (pf_steps es)) (snd (pf_steps es))"
proof -
  have "load_run pf_options (pf_now 0) pf_request pf_swarm (fst (fold (\<lambda>(t, e) (l, w). load_step pf_options (pf_now t) e l w) es lw))
      (snd (fold (\<lambda>(t, e) (l, w). load_step pf_options (pf_now t) e l w) es lw))" if "load_run pf_options (pf_now 0) pf_request pf_swarm (fst lw) (snd lw)" for lw
    using that
  proof (induction es arbitrary: lw)
    case (Cons e es)
    have "load_run pf_options (pf_now 0) pf_request pf_swarm (fst (load_step pf_options (pf_now (fst e)) (snd e) (fst lw) (snd lw)))
        (snd (load_step pf_options (pf_now (fst e)) (snd e) (fst lw) (snd lw)))"
      using load_run.step [OF Cons.prems surjective_pairing] .
    then show ?case using Cons.IH by (cases lw; cases e) simp
  qed simp
  then show ?thesis unfolding pf_steps_def using load_run.start by (simp add: pf_started_def)
qed

lemma pf_room: "peer_budget pf_options pf_request [] = \<lparr>wr_budget = 1500, wr_uncapped = Some 28000, wr_sustainable = None\<rparr>"
  by (simp add: peer_budget_def pf_options_def pf_request_def sustainable_ms_def current_range_def playable_end_def origin_reserve_def percentile_def
      quantile_def capped_def)

lemma pf_samples: "origin_samples r pf_swarm = []"
  by (simp add: origin_samples_def pf_swarm_def)

lemma pf_fields: "mb_stopped (pw_members pf_swarm) = False" "mb_discovery (pw_members pf_swarm) = new_discovery" "swarm_links pf_swarm = [pf_link]"
  "holds_key pf_key pf_link" "pw_selection pf_swarm = new_selection" "pw_sizes pf_swarm = []" "mb_banned (pw_members pf_swarm) = []" "pw_busy pf_swarm = []"
  "lr_rendition pf_request = ''main:0''" "lr_media pf_request = ''main''" "lr_context pf_request = pf_context" "lo_max_peers pf_options = 6"
  by (simp_all add: pf_swarm_def new_membership_def swarm_links_def holds_key_def pf_link_def pf_request_def pf_options_def)

lemma pf_started_value: "pf_started = \<lparr>ld_request = pf_request, ld_deadline = 1500, ld_limit = 5000, ld_active = True, ld_aborted = False, ld_expired = False,
    ld_phase = HashingKey, ld_disc = None, ld_holders = None, ld_key = [], ld_coordinated = False, ld_recorded = False, ld_trial = False, ld_asked = [], ld_tried = [],
    ld_answer = None, ld_commitment = JUndefined, ld_out = []\<rparr>"
  by (simp add: pf_started_def load_start_def pf_samples pf_room pf_fields new_discovery_def limit_ms_def capped_def pf_now_def Let_def)
     (simp add: pf_options_def)

lemma pf_keyed: "load_step pf_options (pf_now 1) (KeyReady pf_key) pf_started pf_swarm
    = (pf_started\<lparr>ld_phase := AwaitingCommitment, ld_key := pf_key, ld_out := [Counted ''commitmentRequests'', AskedCommitment]\<rparr>, pf_swarm)"
  by (simp add: load_step_def pf_started_value key_ready_def holder_context_def pf_fields enter_load_def entry_wait_def entry_transfer_def projection_def
      first_or_zero_def first_byte_ms_def new_selection_def quantile_def begin_wait_def apply_projection_def load_live_def request_commitment_def await_commitment_def
      counted_def load_emit_def pf_now_def Let_def)

definition pf_waiting :: load where
  "pf_waiting = pf_started\<lparr>ld_phase := AwaitingCommitment, ld_key := pf_key, ld_out := [Counted ''commitmentRequests'', AskedCommitment]\<rparr>"

definition pf_candidate :: candidate where
  "pf_candidate = \<lparr>cl_id = 1, cl_pubkey = replicate 64 CHR ''b'', cl_closed = False, cl_busy = False, cl_have = [pf_key]\<rparr>"

lemma pf_selected: "fst (select_link [pf_candidate] pf_key [] n d new_selection) = Some pf_candidate"
  by (simp add: select_link_def eligible_links_def pf_candidate_def fits_def estimate_def summary_of_def new_selection_def no_summary_def explores_def
      select_candidates_def cold_link_def healthy_link_def Let_def split: option.split)

lemma pf_picked:
  assumes "swarm_links w = [pf_link]" and "pw_busy w = []" and "pw_selection w = new_selection" and "ld_trial l = False" and "ld_key l = pf_key" and "ld_tried l = []"
  shows "fst (pick_link tm l w) = Some (1, replicate 64 CHR ''b'', False)"
    and "mb_stopped (pw_members (snd (pick_link tm l w))) = mb_stopped (pw_members w)"
proof -
  have "candidate_of w pf_link = pf_candidate" "peer_free w pf_link"
    using assms(2) by (simp_all add: candidate_of_def pf_link_def fresh_link_def pf_candidate_def peer_free_def)
  then show "fst (pick_link tm l w) = Some (1, replicate 64 CHR ''b'', False)" "mb_stopped (pw_members (snd (pick_link tm l w))) = mb_stopped (pw_members w)"
    using assms pf_selected by (simp_all add: pick_link_def case_prod_unfold pf_candidate_def)
qed

lemma pf_evidence: "project_ms n new_selection = None" "first_or_zero (w\<lparr>pw_selection := new_selection\<rparr>) = 0" "minimum_ms n new_selection = 0"
  by (simp_all add: project_ms_def minimum_ms_def first_byte_ms_def rate_def new_selection_def quantile_def first_or_zero_def Let_def)

lemma first_or_zero_new: "pw_selection w = new_selection \<Longrightarrow> first_or_zero w = 0"
  by (simp add: first_or_zero_def first_byte_ms_def new_selection_def quantile_def)

lemma ask_link_fields:
  "ld_phase (fst (ask_link tm i p trial l w)) = Asking (new_attempt tm (wait_for_link tm (estimate (pw_selection w) i (committed_size l)) (mark_tried p trial l)) i p trial w)"
  "snd (ask_link tm i p trial l w) = w\<lparr>pw_busy := pw_busy w @ [i]\<rparr>"
  by (simp_all add: ask_link_def Let_def load_emit_def)

lemma commitment_known_plain:
  assumes "verify_segment_commitment (lo_sig opt) (lo_url opt) e (load_view opt l) (tm_wall tm) = Some c" and "\<not> ld_aborted l" and "\<not> mb_stopped (pw_members w)"
    and "pw_selection w = new_selection" and "tm_mono tm \<le> ld_limit l"
  shows "commitment_known opt tm (Some e) l w = choose_link opt tm (l\<lparr>ld_commitment := c\<rparr>)
    (w\<lparr>pw_sizes := remember_size (lr_rendition (ld_request l)) (committed_size (l\<lparr>ld_commitment := c\<rparr>)) (pw_sizes w)\<rparr>)"
proof -
  have "projection tm None (Some 0) (ld_limit l) (w\<lparr>pw_sizes := z\<rparr>) = NoEvidence" for z
    using assms(4,5) by (simp add: projection_def first_or_zero_new)
  then show ?thesis
    using assms(1-4) by (simp add: commitment_known_def pf_evidence apply_projection_def Let_def)
qed

lemma choose_link_first:
  assumes "load_live tm l w" and "ld_tried l = []" and "0 < lo_max_peers opt" and "pw_selection w = new_selection" and "tm_mono tm \<le> ld_limit l"
    and "pick_link tm l w = (Some (i, p, trial), v)"
  shows "choose_link opt tm l w = ask_link tm i p trial l v"
  using assms by (simp add: choose_link_def pf_evidence first_or_zero_new Let_def)

lemma pf_asked:
  assumes "lw = load_step pf_options (pf_now 2) (CommitmentAnswer (Some pf_event)) pf_waiting pf_swarm"
  shows "\<exists>v. lw = ask_link (pf_now 2) 1 (replicate 64 CHR ''b'') False (pf_waiting\<lparr>ld_commitment := pf_commitment\<rparr>) v \<and> \<not> mb_stopped (pw_members v)"
proof -
  have view: "load_view pf_options pf_waiting = view_of pf_options pf_context pf_key"
    by (simp add: load_view_def view_of_def pf_waiting_def pf_started_value pf_fields)
  have fields: "tm_wall (pf_now 2) = 6000" "tm_mono (pf_now 2) = 2" "\<not> ld_aborted pf_waiting" "ld_limit pf_waiting = 5000" "ld_tried pf_waiting = []"
    "ld_deadline pf_waiting = 1500" "ld_trial pf_waiting = False" "ld_key pf_waiting = pf_key" "ld_phase pf_waiting = AwaitingCommitment"
    by (simp_all add: pf_now_def pf_waiting_def pf_started_value)
  let ?l = "pf_waiting\<lparr>ld_commitment := pf_commitment\<rparr>"
  obtain z where z: "lw = choose_link pf_options (pf_now 2) ?l (pf_swarm\<lparr>pw_sizes := z\<rparr>)"
    unfolding assms using commitment_known_plain [of pf_options pf_event pf_waiting "pf_now 2" pf_commitment pf_swarm] pf_verified
    by (simp add: load_step_def commitment_step_def fields view pf_fields)
  let ?w = "pf_swarm\<lparr>pw_sizes := z\<rparr>"
  have "swarm_links ?w = [pf_link]" using pf_fields(3) by (simp add: swarm_links_def)
  then have "fst (pick_link (pf_now 2) ?l ?w) = Some (1, replicate 64 CHR ''b'', False)"
    "\<not> mb_stopped (pw_members (snd (pick_link (pf_now 2) ?l ?w)))"
    using pf_picked [of ?w ?l "pf_now 2"] by (simp_all add: pf_fields fields)
  moreover have "load_live (pf_now 2) ?l ?w" by (simp add: load_live_def fields pf_fields)
  ultimately have "choose_link pf_options (pf_now 2) ?l ?w = ask_link (pf_now 2) 1 (replicate 64 CHR ''b'') False ?l (snd (pick_link (pf_now 2) ?l ?w))"
    by (intro choose_link_first) (simp_all add: fields pf_fields prod_eq_iff)
  then show ?thesis using z \<open>\<not> mb_stopped (pw_members (snd (pick_link (pf_now 2) ?l ?w)))\<close> by metis
qed

lemma digest_delivers:
  assumes "ld_active l" and "\<not> ld_aborted l" and "\<not> mb_stopped (pw_members w)" and "payload_matches opt (ld_commitment l) bytes"
    and "tm_wall tm div 1000 < int_of (member (ld_commitment l) ''expiresAt'')" and "tm_mono tm < ld_deadline l"
  shows "FromPeer (ld_key l) bytes \<in> set (ld_out (fst (digest_ready opt tm bytes a l w)))"
  using assms by (simp add: digest_ready_def accept_payload_def finish_load_def record_selection_def deliver_load_def counted_def load_emit_def Let_def)

lemma request_digests:
  assumes "\<not> pa_abandoned a" and "\<not> ld_aborted l" and "\<not> mb_stopped (pw_members w)"
  shows "fst (request_settles opt tm (Some bytes) a l w) = l\<lparr>ld_phase := Digesting a bytes\<rparr>"
    and "mb_stopped (pw_members (snd (request_settles opt tm (Some bytes) a l w))) = mb_stopped (pw_members w)"
  using assms by (simp_all add: request_settles_def observe_attempt_def Let_def)

lemma ask_link_kept: "ld_active (fst (ask_link tm i p trial l w)) = ld_active l" "ld_aborted (fst (ask_link tm i p trial l w)) = ld_aborted l"
  "ld_commitment (fst (ask_link tm i p trial l w)) = ld_commitment l" "ld_key (fst (ask_link tm i p trial l w)) = ld_key l"
  by (simp_all add: ask_link_def Let_def load_emit_def wait_for_link_def extend_wait_def mark_tried_def counted_def split: option.split)

lemma ask_link_deadline: "ld_deadline l \<le> ld_deadline (fst (ask_link tm i p trial l w))"
  using wait_deadline [of "mark_tried p trial l"] by (simp add: ask_link_def Let_def load_emit_def)

definition pf_script :: "(rat \<times> load_input) list" where
  "pf_script = [(1, KeyReady pf_key), (2, CommitmentAnswer (Some pf_event)), (3, RequestSettles (Some [0])), (4, DigestReady)]"

lemma pf_delivers: "FromPeer pf_key [0] \<in> set (ld_out (fst (pf_steps pf_script)))"
proof -
  let ?k = "pf_waiting\<lparr>ld_commitment := pf_commitment\<rparr>" and ?p = "replicate 64 CHR ''b''"
  have keyed: "load_step pf_options (pf_now 1) (KeyReady pf_key) pf_started pf_swarm = (pf_waiting, pf_swarm)"
    unfolding pf_waiting_def by (rule pf_keyed)
  obtain v where v: "load_step pf_options (pf_now 2) (CommitmentAnswer (Some pf_event)) pf_waiting pf_swarm = ask_link (pf_now 2) 1 ?p False ?k v"
    "\<not> mb_stopped (pw_members v)" using pf_asked [OF refl] by blast
  obtain l u where lu: "ask_link (pf_now 2) 1 ?p False ?k v = (l, u)" by fastforce
  have u: "\<not> mb_stopped (pw_members u)" using ask_link_fields(2) [of "pf_now 2" 1 ?p False ?k v] lu v(2) by simp
  have l: "ld_active l" "\<not> ld_aborted l" "ld_commitment l = pf_commitment" "ld_key l = pf_key" "1500 \<le> ld_deadline l"
    using ask_link_kept [of "pf_now 2" 1 ?p False ?k v] ask_link_deadline [of ?k "pf_now 2" 1 ?p False v] lu
    by (simp_all add: pf_waiting_def pf_started_value)
  obtain a where a: "ld_phase l = Asking a" "\<not> pa_abandoned a"
    using ask_link_fields(1) [of "pf_now 2" 1 ?p False ?k v] lu by (simp add: new_attempt_def Let_def)
  obtain m x where mx: "request_settles pf_options (pf_now 3) (Some [0]) a l u = (m, x)" by fastforce
  have m: "m = l\<lparr>ld_phase := Digesting a [0]\<rparr>" "\<not> mb_stopped (pw_members x)"
    using request_digests [OF a(2) l(2) u, of pf_options "pf_now 3" "[0]"] mx u by simp_all
  have settled: "load_step pf_options (pf_now 3) (RequestSettles (Some [0])) l u = (m, x)"
    using mx a(1) by (simp add: load_step_def attempt_step_def)
  have "payload_matches pf_options pf_commitment [0]"
    by (simp add: payload_matches_def pf_commitment_def pf_options_def jget_def)
  then have "FromPeer pf_key [0] \<in> set (ld_out (fst (digest_ready pf_options (pf_now 4) [0] a m x)))"
    using digest_delivers [of m x pf_options "[0]" "pf_now 4" a] l m by (simp add: pf_now_def pf_commitment_def jget_def)
  then have "FromPeer pf_key [0] \<in> set (ld_out (fst (load_step pf_options (pf_now 4) DigestReady m x)))"
    by (simp add: load_step_def m(1))
  then show ?thesis by (simp add: pf_steps_def pf_script_def keyed v(1) lu settled del: One_nat_def)
qed

text \<open>
  C2: whatever the swarm, its neighbours, the host and the player do, the bytes that a load hands to the player
  from a neighbour have the size and the SHA-256 of a commitment that verified for that segment, and a load comes
  to one outcome: bytes from a neighbour, the origin, or the player's abort.
\<close>

theorem peer_load_verified:
  assumes "load_run opt tm0 q w0 l w"
  shows "(\<forall>key bytes. FromPeer key bytes \<in> set (ld_out l) \<longrightarrow>
      (\<exists>e tm c. verify_segment_commitment (lo_sig opt) (lo_url opt) e (view_of opt (lr_context q) key) tm = Some c
        \<and> int (length bytes) = int_of (member c ''size'') \<and> JStr (lo_sha opt bytes) = member c ''sha256''))
    \<and> length (filter outcome (ld_out l)) = (if ld_active l then 0 else 1)"
  using load_run_inv [OF assms] by (fastforce simp: load_inv_def load_ok_def log_ok_def proven_def committed_def payload_matches_def)

theorem peer_load_verified_witness:
  "FromPeer pf_key [0] \<in> set (ld_out (fst (pf_steps pf_script)))
   \<and> (\<exists>e tm c. verify_segment_commitment (lo_sig pf_options) (lo_url pf_options) e (view_of pf_options (lr_context pf_request) pf_key) tm = Some c
        \<and> JStr (lo_sha pf_options [0]) = member c ''sha256'')
   \<and> length (filter outcome (ld_out (fst (pf_steps pf_script)))) \<le> 1"
proof -
  note sound = peer_load_verified [OF pf_run [of pf_script]]
  have "length (filter outcome (ld_out (fst (pf_steps pf_script)))) \<le> 1" using conjunct2 [OF sound] by simp
  then show ?thesis using conjunct1 [OF sound] pf_delivers by blast
qed





end
