(* ===== verification/Origin_Coordination.thy ===== *)
theory Origin_Coordination
  imports Peer_First
begin

text \<open>
  How viewers that want the same segment leave one of them to fetch it: the claims on an origin fetch, the
  \<open>FETCH\<close> announcements that go with them, their renewal and their withdrawal, and the leases that a viewer no
  longer believes, of \<open>HlsSwarm\<close> in \<open>src/browser/hls-swarm.mjs\<close>.

  A claim is known by a number, and so are a row of \<open>steadyFetches\<close> and a timer.  What is announced to the links
  is appended to \<open>oc_sent\<close> with its time; \<open>steady\<close> is the option \<open>steadyPeerWindow\<close>.
\<close>

record fetch_row =
  fr_id :: nat
  fr_renew :: "nat option"
  fr_withdraw :: "nat option"

record fetch_timer =
  ft_due :: int
  ft_renews :: bool
  ft_key :: string
  ft_row :: nat

record origin_claims =
  oc_stopped :: bool
  oc_fetches :: "(string \<times> nat) list"
  oc_rows :: "(string \<times> fetch_row) list"
  oc_timers :: "(nat \<times> fetch_timer) list"
  oc_claims :: "(nat \<times> string) list"
  oc_next :: nat
  oc_sent :: "(int \<times> string \<times> int) list"

definition new_claims :: origin_claims where
  "new_claims = \<lparr>oc_stopped = False, oc_fetches = [], oc_rows = [], oc_timers = [], oc_claims = [], oc_next = 0, oc_sent = []\<rparr>"

definition announce_fetch :: "int \<Rightarrow> string \<Rightarrow> int \<Rightarrow> origin_claims \<Rightarrow> origin_claims" where
  "announce_fetch t key ms s = s\<lparr>oc_sent := oc_sent s @ [(t, key, ms)]\<rparr>"

definition put_row :: "string \<Rightarrow> fetch_row \<Rightarrow> origin_claims \<Rightarrow> origin_claims" where
  "put_row key r s = s\<lparr>oc_rows := jset key r (oc_rows s)\<rparr>"

definition clear_timer :: "nat option \<Rightarrow> origin_claims \<Rightarrow> origin_claims" where
  "clear_timer i s = (case i of None \<Rightarrow> s | Some n \<Rightarrow> s\<lparr>oc_timers := jdel n (oc_timers s)\<rparr>)"

text \<open>\<open>#after\<close>: no timer once the swarm has stopped.\<close>

definition after_ms :: "fetch_timer \<Rightarrow> origin_claims \<Rightarrow> nat option \<times> origin_claims" where
  "after_ms x s = (if oc_stopped s then (None, s) else (Some (oc_next s), s\<lparr>oc_timers := jset (oc_next s) x (oc_timers s), oc_next := Suc (oc_next s)\<rparr>))"

definition schedule_renewal :: "int \<Rightarrow> string \<Rightarrow> fetch_row \<Rightarrow> origin_claims \<Rightarrow> origin_claims" where
  "schedule_renewal t key r s =
     (let (i, s) = after_ms \<lparr>ft_due = t + 1000, ft_renews = True, ft_key = key, ft_row = fr_id r\<rparr> s in put_row key (r\<lparr>fr_renew := i\<rparr>) s)"

definition renew_fetch :: "int \<Rightarrow> string \<Rightarrow> origin_claims \<Rightarrow> origin_claims" where
  "renew_fetch t key s =
     (let (r, s) = (case jget (oc_rows s) key of
            Some r \<Rightarrow> (r, s)
          | None \<Rightarrow> (\<lparr>fr_id = oc_next s, fr_renew = None, fr_withdraw = None\<rparr>, s\<lparr>oc_next := Suc (oc_next s)\<rparr>));
          s = clear_timer (fr_withdraw r) s; r = r\<lparr>fr_withdraw := None\<rparr>
      in if fr_renew r \<noteq> None then put_row key r s else schedule_renewal t key r s)"

definition claim_origin :: "nat \<Rightarrow> bool \<Rightarrow> bool \<Rightarrow> int \<Rightarrow> string \<Rightarrow> origin_claims \<Rightarrow> nat option \<times> origin_claims" where
  "claim_origin cap steady serving t key s =
     (if \<not> serving \<or> length (oc_fetches s) \<ge> cap then (None, s)
      else (let count = (case jget (oc_fetches s) key of None \<Rightarrow> 0 | Some n \<Rightarrow> n);
                s = announce_fetch t key 2000 (s\<lparr>oc_fetches := jset key (Suc count) (oc_fetches s)\<rparr>);
                s = (if steady then renew_fetch t key s else s)
            in (Some (oc_next s), s\<lparr>oc_claims := jset (oc_next s) key (oc_claims s), oc_next := Suc (oc_next s)\<rparr>)))"

text \<open>\<open>#flushFetchWithdrawal\<close>; \<open>row\<close> is the row that it was scheduled for, if any.\<close>

definition flush_withdrawal :: "int \<Rightarrow> string \<Rightarrow> nat option \<Rightarrow> origin_claims \<Rightarrow> origin_claims" where
  "flush_withdrawal t key row s =
     (case jget (oc_rows s) key of
        None \<Rightarrow> s
      | Some r \<Rightarrow>
          if (row \<noteq> None \<and> row \<noteq> Some (fr_id r)) \<or> fr_renew r \<noteq> None then s
          else (let s = clear_timer (fr_withdraw r) s; s = s\<lparr>oc_rows := jdel key (oc_rows s)\<rparr>
                in if jhas (oc_fetches s) key then s else announce_fetch t key 0 s))"

definition withdraw_fetch :: "int \<Rightarrow> string \<Rightarrow> bool \<Rightarrow> bool \<Rightarrow> origin_claims \<Rightarrow> origin_claims" where
  "withdraw_fetch t key announce held s =
     (case jget (oc_rows s) key of
        None \<Rightarrow> s
      | Some r \<Rightarrow>
          (let s = clear_timer (fr_renew r) s; r = r\<lparr>fr_renew := None\<rparr>; s = put_row key r s;
               (i, s) = (if announce \<and> \<not> held \<and> fr_withdraw r = None
                  then after_ms \<lparr>ft_due = t + 1000, ft_renews = False, ft_key = key, ft_row = fr_id r\<rparr> s else (None, s))
           in if i \<noteq> None then put_row key (r\<lparr>fr_withdraw := i\<rparr>) s else flush_withdrawal t key (Some (fr_id r)) s))"

text \<open>The function that a claim returns.\<close>

definition release_claim :: "bool \<Rightarrow> int \<Rightarrow> nat \<Rightarrow> bool \<Rightarrow> bool \<Rightarrow> origin_claims \<Rightarrow> origin_claims" where
  "release_claim steady t i announce held s =
     (case jget (oc_claims s) i of
        None \<Rightarrow> s
      | Some key \<Rightarrow>
          (let s = s\<lparr>oc_claims := jdel i (oc_claims s)\<rparr>; count = (case jget (oc_fetches s) key of None \<Rightarrow> 1 | Some 0 \<Rightarrow> 1 | Some n \<Rightarrow> n) in
           if count > 1 then s\<lparr>oc_fetches := jset key (count - 1) (oc_fetches s)\<rparr>
           else (let s = s\<lparr>oc_fetches := jdel key (oc_fetches s)\<rparr>
                 in if steady then withdraw_fetch t key announce held s else announce_fetch t key 0 s)))"

text \<open>A timer fires: a renewal, or the bound on a withdrawal that waits for its \<open>HAVE\<close>.\<close>

definition renewal_fires :: "int \<Rightarrow> string \<Rightarrow> nat \<Rightarrow> origin_claims \<Rightarrow> origin_claims" where
  "renewal_fires t key row s =
     (case jget (oc_rows s) key of
        None \<Rightarrow> s
      | Some r \<Rightarrow>
          if fr_id r \<noteq> row then s
          else if \<not> jhas (oc_fetches s) key then put_row key (r\<lparr>fr_renew := None\<rparr>) s
          else schedule_renewal t key r (announce_fetch t key 2000 s))"

definition withdrawal_fires :: "int \<Rightarrow> string \<Rightarrow> nat \<Rightarrow> origin_claims \<Rightarrow> origin_claims" where
  "withdrawal_fires t key row s =
     (case jget (oc_rows s) key of
        None \<Rightarrow> s
      | Some r \<Rightarrow> if fr_id r \<noteq> row then s else flush_withdrawal t key (Some row) (put_row key (r\<lparr>fr_withdraw := None\<rparr>) s))"

definition timer_fires :: "int \<Rightarrow> nat \<Rightarrow> origin_claims \<Rightarrow> origin_claims" where
  "timer_fires t i s =
     (case jget (oc_timers s) i of
        None \<Rightarrow> s
      | Some x \<Rightarrow>
          (let s = s\<lparr>oc_timers := jdel i (oc_timers s)\<rparr>
           in if ft_renews x then renewal_fires t (ft_key x) (ft_row x) s else withdrawal_fires t (ft_key x) (ft_row x) s))"

definition stop_claims :: "origin_claims \<Rightarrow> origin_claims" where
  "stop_claims s = s\<lparr>oc_stopped := True, oc_timers := [], oc_fetches := []\<rparr>"

subsection \<open>Leases that lapsed\<close>

text \<open>Whose \<open>FETCH\<close> announcements are ignored, until when.\<close>

definition cool_lease :: "int \<Rightarrow> string \<Rightarrow> (string \<times> int) list \<Rightarrow> (string \<times> int) list" where
  "cool_lease till p m = (let m = jdel p m; m = (if length m \<ge> 64 then jdel_oldest m else m) in jset p till m)"

definition cool_leases :: "int \<Rightarrow> string list \<Rightarrow> (string \<times> int) list \<Rightarrow> (string \<times> int) list" where
  "cool_leases t ps m = fold (cool_lease (t + 10000)) ps (filter (\<lambda>e. snd e > t) m)"

definition lease_live :: "int \<Rightarrow> instant \<Rightarrow> swarm_link \<Rightarrow> string \<Rightarrow> (string \<times> int) list \<Rightarrow> peer_swarm \<Rightarrow> bool" where
  "lease_live tick tm k key cooled w \<longleftrightarrow> fetching_until w k key > tm_wall tm
     \<and> \<not> (case jget cooled (sl_pubkey k) of None \<Rightarrow> False | Some till \<Rightarrow> till > tick)"

subsection \<open>Events\<close>

datatype claim_event =
    Claim bool string
  | Release nat bool bool
  | HeldNow string
  | Fires nat
  | StopClaims

definition claim_apply :: "nat \<Rightarrow> bool \<Rightarrow> int \<Rightarrow> claim_event \<Rightarrow> origin_claims \<Rightarrow> origin_claims" where
  "claim_apply cap steady t e s =
     (case e of
        Claim serving key \<Rightarrow> snd (claim_origin cap steady (serving \<and> \<not> oc_stopped s) t key s)
      | Release i announce held \<Rightarrow> release_claim steady t i announce held s
      | HeldNow key \<Rightarrow> flush_withdrawal t key None s
      | Fires i \<Rightarrow> timer_fires t i s
      | StopClaims \<Rightarrow> stop_claims s)"

end
