(* ===== verification/Origin_Coordination_Claims.thy ===== *)
theory Origin_Coordination_Claims
  imports Origin_Coordination Swarm_Signalling
begin

text \<open>
  Which viewer fetches a segment that nobody holds, and what the others are told while it does: the election by
  \<open>#shouldWaitForOrigin\<close>, and the claims, renewals and withdrawals of an origin fetch.
\<close>

subsection \<open>The election\<close>

lemma lower_hex_char_cases: "lower_hex_char c \<Longrightarrow> of_char c \<in> {48..57} \<union> {97..102::nat}"
  by (auto simp: lower_hex_char_def less_eq_char_def)

lemma rank_digit_less: "lower_hex_char c \<Longrightarrow> rank_digit c < 16"
  using lower_hex_char_cases [of c] by (auto simp: rank_digit_def less_eq_char_def)

lemma digit_number_inject:
  "\<lbrakk> m \<in> {48..57} \<union> {97..102}; n \<in> {48..57} \<union> {97..102};
     (if 48 \<le> m \<and> m \<le> 57 then m - 48 else m - 87) = (if 48 \<le> n \<and> n \<le> 57 then n - 48 else n - 87) \<rbrakk> \<Longrightarrow> m = (n :: nat)"
  by (auto split: if_splits)

lemma rank_digit_inject: "lower_hex_char c \<Longrightarrow> lower_hex_char d \<Longrightarrow> rank_digit c = rank_digit d \<longleftrightarrow> c = d"
  using digit_number_inject [OF lower_hex_char_cases [of c] lower_hex_char_cases [of d]]
  by (auto simp: rank_digit_def less_eq_char_def)

lemma hex_digit_char_inject: "m < 16 \<Longrightarrow> n < 16 \<Longrightarrow> hex_digit_char m = hex_digit_char n \<longleftrightarrow> m = n"
  by (metis hex_value_hex_digit option.inject)

lemma numeral_pow4: "(16 :: nat) = 2 ^ 4"
  by simp

lemma xor_less_16: "m < 16 \<Longrightarrow> n < 16 \<Longrightarrow> xor m n < (16 :: nat)"
  by (metis take_bit_nat_eq_self take_bit_nat_eq_self_iff take_bit_xor numeral_pow4)

lemma xor_right_cancel: "xor m k = xor n k \<longleftrightarrow> m = (n :: nat)"
  by (metis xor.assoc xor.right_neutral xor_self_eq)

lemma origin_rank_inject:
  "\<lbrakk> list_all lower_hex_char p; list_all lower_hex_char q; list_all lower_hex_char key;
     length p = length key; length q = length key \<rbrakk> \<Longrightarrow> origin_rank key p = origin_rank key q \<longleftrightarrow> p = q"
proof (induction key arbitrary: p q)
  case (Cons k key)
  then obtain a p' b q' where "p = a # p'" "q = b # q'" by (metis length_Suc_conv)
  with Cons show ?case
    by (simp add: origin_rank_def hex_digit_char_inject xor_less_16 rank_digit_less xor_right_cancel rank_digit_inject)
qed (simp add: origin_rank_def)

text \<open>Some viewers of one segment, each with its clocks; the neighbours that count for each of them.\<close>

definition viewer_key :: "instant \<times> peer_swarm \<Rightarrow> string" where
  "viewer_key v = mb_pubkey (pw_members (snd v))"

definition rivals :: "string \<Rightarrow> instant \<times> peer_swarm \<Rightarrow> string list" where
  "rivals rendition v = map sl_pubkey (filter (\<lambda>k. serves_rendition (tm_wall (fst v)) k rendition) (swarm_links (snd v)))"

definition announced :: "string \<Rightarrow> instant \<times> peer_swarm \<Rightarrow> bool" where
  "announced key v \<longleftrightarrow> list_ex (\<lambda>k. fetching_until (snd v) k key > tm_wall (fst v)) (swarm_links (snd v))"

definition waits :: "string \<Rightarrow> string \<Rightarrow> instant \<times> peer_swarm \<Rightarrow> bool" where
  "waits key rendition v = should_wait (fst v) key rendition False (snd v)"

lemma waits_iff:
  assumes "mb_serving (pw_members (snd v))" and "\<not> announced key v"
  shows "waits key rendition v \<longleftrightarrow> (\<exists>p \<in> set (rivals rendition v). origin_rank key p < origin_rank key (viewer_key v))"
  using assms
  by (auto simp: waits_def should_wait_def announced_def rivals_def viewer_key_def list_ex_iff filter_empty_conv Let_def)

lemma least_rank:
  assumes "vs \<noteq> []"
  obtains v where "v \<in> set vs" "\<And>u. u \<in> set vs \<Longrightarrow> origin_rank key (viewer_key v) \<le> origin_rank key (viewer_key u)"
proof -
  let ?f = "\<lambda>v. origin_rank key (viewer_key v)"
  have "Min (?f ` set vs) \<in> ?f ` set vs" using assms by (intro Min_in) auto
  then obtain v where "v \<in> set vs" "?f v = Min (?f ` set vs)" by auto
  then show thesis using that by simp
qed

text \<open>
  C32: viewers that want the same live segment, that nobody has announced to fetch, elect one to fetch it.  However
  they are connected, at least one of them does not wait, and of two that know each other one waits; so when all know
  each other exactly one fetches.
\<close>

theorem one_viewer_fetches:
  assumes "vs \<noteq> []" and "distinct (map viewer_key vs)" and "hex_string key 64"
    and "\<And>v. v \<in> set vs \<Longrightarrow> hex_string (viewer_key v) 64 \<and> mb_serving (pw_members (snd v)) \<and> \<not> announced key v
      \<and> set (rivals rendition v) \<subseteq> viewer_key ` set vs"
  shows "(\<exists>v \<in> set vs. \<not> waits key rendition v)
    \<and> (\<forall>u \<in> set vs. \<forall>v \<in> set vs. u \<noteq> v \<and> viewer_key u \<in> set (rivals rendition v) \<and> viewer_key v \<in> set (rivals rendition u)
        \<longrightarrow> waits key rendition u \<or> waits key rendition v)"
proof (intro conjI ballI impI)
  obtain v where v: "v \<in> set vs" "\<And>u. u \<in> set vs \<Longrightarrow> origin_rank key (viewer_key v) \<le> origin_rank key (viewer_key u)"
    using least_rank [OF assms(1)] by blast
  then have "\<not> waits key rendition v" using assms(4) [of v] by (fastforce simp: waits_iff not_less)
  then show "\<exists>v \<in> set vs. \<not> waits key rendition v" using v(1) by blast
next
  fix u v
  assume uv: "u \<in> set vs" "v \<in> set vs"
    and k: "u \<noteq> v \<and> viewer_key u \<in> set (rivals rendition v) \<and> viewer_key v \<in> set (rivals rendition u)"
  have "viewer_key u \<noteq> viewer_key v" using assms(2) uv k by (auto simp: distinct_map inj_on_def)
  then have "origin_rank key (viewer_key u) \<noteq> origin_rank key (viewer_key v)"
    using origin_rank_inject [of "viewer_key u" "viewer_key v" key] assms(3) assms(4) [OF uv(1)] assms(4) [OF uv(2)]
    by (simp add: hex_string_def)
  then show "waits key rendition u \<or> waits key rendition v"
    using k assms(4) [OF uv(1)] assms(4) [OF uv(2)] waits_iff [of u key rendition] waits_iff [of v key rendition]
    by (metis linorder_neqE)
qed

definition oc_viewer :: "char \<Rightarrow> char \<Rightarrow> instant \<times> peer_swarm" where
  "oc_viewer me you = (\<lparr>tm_wall = 6000, tm_mono = 0\<rparr>,
     \<lparr>pw_members = (new_membership (replicate 64 me) None)\<lparr>mb_serving := True,
        mb_links := [(replicate 64 you, (fresh_link 1 (replicate 64 you) 0)\<lparr>sl_serving := True, sl_renditions := [(''main:0'', 5000)]\<rparr>)]\<rparr>,
      pw_selection = new_selection, pw_busy = [], pw_fetching = [], pw_leases = [], pw_sizes = [], pw_rendition_samples = [], pw_samples = []\<rparr>)"

lemma oc_viewer_facts:
  "viewer_key (oc_viewer me you) = replicate 64 me" "mb_serving (pw_members (snd (oc_viewer me you)))" "\<not> announced k (oc_viewer me you)"
  "rivals ''main:0'' (oc_viewer me you) = [replicate 64 you]"
  by (simp_all add: oc_viewer_def viewer_key_def announced_def rivals_def swarm_links_def fetching_until_def serves_rendition_def new_membership_def
      fresh_link_def jget_def)

theorem one_viewer_fetches_witness:
  "waits (replicate 64 CHR ''0'') ''main:0'' (oc_viewer CHR ''a'' CHR ''b'')
    \<noteq> waits (replicate 64 CHR ''0'') ''main:0'' (oc_viewer CHR ''b'' CHR ''a'')"
proof -
  let ?u = "oc_viewer CHR ''a'' CHR ''b''" and ?v = "oc_viewer CHR ''b'' CHR ''a''" and ?key = "replicate 64 CHR ''0''"
  have ne: "replicate 64 CHR ''a'' \<noteq> replicate 64 CHR ''b''" by simp
  have hex: "hex_string ?key 64" "hex_string (replicate 64 CHR ''a'') 64" "hex_string (replicate 64 CHR ''b'') 64"
    by (simp_all add: hex_string_def list_all_iff lower_hex_char_def)
  have uv: "?u \<noteq> ?v" using ne by (metis oc_viewer_facts(1))
  have "(\<exists>v \<in> set [?u, ?v]. \<not> waits ?key ''main:0'' v)
    \<and> (\<forall>u \<in> set [?u, ?v]. \<forall>v \<in> set [?u, ?v]. u \<noteq> v \<and> viewer_key u \<in> set (rivals ''main:0'' v) \<and> viewer_key v \<in> set (rivals ''main:0'' u)
        \<longrightarrow> waits ?key ''main:0'' u \<or> waits ?key ''main:0'' v)"
    by (rule one_viewer_fetches) (use hex ne in \<open>auto simp: oc_viewer_facts\<close>)
  then show ?thesis using uv by (auto simp: oc_viewer_facts)
qed

subsection \<open>Claims, renewals and withdrawals\<close>

text \<open>The last announcement of a key: when, and for how many milliseconds.\<close>

definition last_sent :: "string \<Rightarrow> (int \<times> string \<times> int) list \<Rightarrow> (int \<times> int) option" where
  "last_sent key xs = map_option (\<lambda>e. (fst e, snd (snd e))) (find (\<lambda>e. fst (snd e) = key) (rev xs))"

lemma last_sent_append [simp]: "last_sent key (xs @ [(t, k, ms)]) = (if k = key then Some (t, ms) else last_sent key xs)"
  by (simp add: last_sent_def)

text \<open>
  The claims over time: between two events every timer that is due has fired within a second.
\<close>

inductive claim_run :: "nat \<Rightarrow> bool \<Rightarrow> int \<Rightarrow> origin_claims \<Rightarrow> bool" for cap steady where
  start: "claim_run cap steady t new_claims"
| step: "\<lbrakk> claim_run cap steady t s; t \<le> t'; \<forall>i x. jget (oc_timers s) i = Some x \<longrightarrow> t' < ft_due x + 1000 \<rbrakk>
    \<Longrightarrow> claim_run cap steady t' (claim_apply cap steady t' e s)"

definition claims_of :: "string \<Rightarrow> origin_claims \<Rightarrow> nat set" where
  "claims_of key s = {i. jget (oc_claims s) i = Some key}"

definition timer_set :: "origin_claims \<Rightarrow> string \<Rightarrow> nat \<Rightarrow> bool \<Rightarrow> nat \<Rightarrow> int \<Rightarrow> bool" where
  "timer_set s key row renews i due \<longleftrightarrow> jget (oc_timers s) i = Some \<lparr>ft_due = due, ft_renews = renews, ft_key = key, ft_row = row\<rparr>"

definition granted_key :: "bool \<Rightarrow> int \<Rightarrow> string \<Rightarrow> origin_claims \<Rightarrow> bool" where
  "granted_key steady t key s \<longleftrightarrow> (\<exists>ts. last_sent key (oc_sent s) = Some (ts, 2000)
     \<and> (steady \<longrightarrow> ts \<le> t \<and> t < ts + 2000 \<and> (\<exists>r i due. jget (oc_rows s) key = Some r \<and> fr_withdraw r = None \<and> fr_renew r = Some i
          \<and> timer_set s key (fr_id r) True i due \<and> due \<le> ts + 1000)))"

definition withdrawn_key :: "string \<Rightarrow> origin_claims \<Rightarrow> bool" where
  "withdrawn_key key s \<longleftrightarrow> (case jget (oc_rows s) key of
       None \<Rightarrow> (case last_sent key (oc_sent s) of None \<Rightarrow> True | Some x \<Rightarrow> snd x = 0)
     | Some r \<Rightarrow> fr_renew r = None \<and> (\<exists>i due. fr_withdraw r = Some i \<and> timer_set s key (fr_id r) False i due))"

definition timers_of_row :: "string \<Rightarrow> origin_claims \<Rightarrow> bool" where
  "timers_of_row key s \<longleftrightarrow> (\<forall>i x. jget (oc_timers s) i = Some x \<and> ft_key x = key \<longrightarrow>
     (\<exists>r. jget (oc_rows s) key = Some r \<and> fr_id r = ft_row x \<and> (if ft_renews x then fr_renew r else fr_withdraw r) = Some i))"

definition key_settled :: "bool \<Rightarrow> int \<Rightarrow> string \<Rightarrow> origin_claims \<Rightarrow> bool" where
  "key_settled steady t key s \<longleftrightarrow> timers_of_row key s \<and> (steady \<or> jget (oc_rows s) key = None)
     \<and> jget (oc_fetches s) key = (if claims_of key s = {} then None else Some (card (claims_of key s)))
     \<and> (if jhas (oc_fetches s) key then granted_key steady t key s else withdrawn_key key s)"

definition fresh_ids :: "origin_claims \<Rightarrow> bool" where
  "fresh_ids s \<longleftrightarrow> (\<forall>i. jhas (oc_timers s) i \<or> jhas (oc_claims s) i \<longrightarrow> i < oc_next s)"

definition claims_inv :: "nat \<Rightarrow> bool \<Rightarrow> int \<Rightarrow> origin_claims \<Rightarrow> bool" where
  "claims_inv cap steady t s \<longleftrightarrow> length (oc_fetches s) \<le> cap \<and> (\<not> oc_stopped s \<longrightarrow> fresh_ids s \<and> (\<forall>key. key_settled steady t key s))"

lemma finite_claims [simp]: "finite (claims_of key s)"
  by (rule finite_subset [of _ "fst ` set (oc_claims s)"]) (force simp: claims_of_def dest: jget_in)+

text \<open>What an operation on one key leaves alone.\<close>

definition untouched :: "string \<Rightarrow> origin_claims \<Rightarrow> origin_claims \<Rightarrow> bool" where
  "untouched key s s' \<longleftrightarrow> jget (oc_fetches s') key = jget (oc_fetches s) key \<and> jget (oc_rows s') key = jget (oc_rows s) key
     \<and> last_sent key (oc_sent s') = last_sent key (oc_sent s) \<and> claims_of key s' = claims_of key s
     \<and> (\<forall>i x. ft_key x = key \<longrightarrow> (jget (oc_timers s') i = Some x \<longleftrightarrow> jget (oc_timers s) i = Some x))"

lemma jhas_jget: "jhas m k \<longleftrightarrow> jget m k \<noteq> None"
  by (simp add: jhas_def)

lemma key_ok_untouched:
  assumes "key_settled steady t key s" and "untouched key s s'" and "t \<le> t'" and late: "\<forall>i x. jget (oc_timers s) i = Some x \<longrightarrow> t' < ft_due x + 1000"
  shows "key_settled steady t' key s'"
proof -
  have timer: "timer_set s' key r b i due \<longleftrightarrow> timer_set s key r b i due" for r b i due
    using assms(2) by (simp add: timer_set_def untouched_def)
  have late: "t' < ts + 2000" if "timer_set s key r b i due" "due \<le> ts + 1000" for r b i due ts
    using assms(4) that unfolding timer_set_def by fastforce
  have "timers_of_row key s'"
    unfolding timers_of_row_def
  proof (intro allI impI)
    fix i x
    assume x: "jget (oc_timers s') i = Some x \<and> ft_key x = key"
    then have "jget (oc_timers s) i = Some x" using assms(2) unfolding untouched_def by blast
    then show "\<exists>r. jget (oc_rows s') key = Some r \<and> fr_id r = ft_row x \<and> (if ft_renews x then fr_renew r else fr_withdraw r) = Some i"
      using assms(1,2) x by (auto simp: key_settled_def timers_of_row_def untouched_def)
  qed
  moreover have "granted_key steady t' key s'" if g: "granted_key steady t key s"
  proof -
    have same: "last_sent key (oc_sent s') = last_sent key (oc_sent s)" "jget (oc_rows s') key = jget (oc_rows s) key"
      using assms(2) by (simp_all add: untouched_def)
    obtain ts where ts: "last_sent key (oc_sent s) = Some (ts, 2000)" "steady \<longrightarrow> ts \<le> t \<and> (\<exists>r i due. jget (oc_rows s) key = Some r \<and> fr_withdraw r = None
        \<and> fr_renew r = Some i \<and> timer_set s key (fr_id r) True i due \<and> due \<le> ts + 1000)" using g unfolding granted_key_def by blast
    moreover have "steady \<longrightarrow> t' < ts + 2000" using ts(2) late by blast
    ultimately show ?thesis using assms(3) unfolding granted_key_def same timer by (intro exI [of _ ts]) auto
  qed
  moreover have "withdrawn_key key s'" if "withdrawn_key key s"
    using that assms(2) by (auto simp: withdrawn_key_def timer untouched_def split: option.splits)
  ultimately show ?thesis using assms(1,2) by (auto simp: key_settled_def untouched_def jhas_jget split: if_splits)
qed

lemma untouched_refl [simp]: "untouched key s s"
  by (simp add: untouched_def)

lemma untouched_trans: "untouched key s s1 \<Longrightarrow> untouched key s1 s2 \<Longrightarrow> untouched key s s2"
  unfolding untouched_def by metis

lemma untouched_send [intro]: "k \<noteq> key \<Longrightarrow> untouched key s (announce_fetch t k ms s)"
  by (simp add: untouched_def announce_fetch_def claims_of_def)

lemma untouched_row [intro]: "k \<noteq> key \<Longrightarrow> untouched key s (put_row k r s)"
  by (simp add: untouched_def put_row_def claims_of_def)

lemma untouched_clear [intro]:
  assumes "timers_of_row k s" and "\<And>n. i = Some n \<Longrightarrow> \<exists>x. jget (oc_timers s) n = Some x \<and> ft_key x \<noteq> key"
  shows "untouched key s (clear_timer i s)"
  using assms by (cases i) (auto simp: untouched_def clear_timer_def claims_of_def)

lemma send_fields [simp]:
  "oc_fetches (announce_fetch t k ms s) = oc_fetches s" "oc_rows (announce_fetch t k ms s) = oc_rows s" "oc_timers (announce_fetch t k ms s) = oc_timers s"
  "oc_claims (announce_fetch t k ms s) = oc_claims s" "oc_next (announce_fetch t k ms s) = oc_next s" "oc_stopped (announce_fetch t k ms s) = oc_stopped s"
  "oc_sent (announce_fetch t k ms s) = oc_sent s @ [(t, k, ms)]"
  by (simp_all add: announce_fetch_def)

lemma row_fields [simp]:
  "oc_fetches (put_row k r s) = oc_fetches s" "oc_rows (put_row k r s) = jset k r (oc_rows s)" "oc_timers (put_row k r s) = oc_timers s"
  "oc_claims (put_row k r s) = oc_claims s" "oc_next (put_row k r s) = oc_next s" "oc_stopped (put_row k r s) = oc_stopped s" "oc_sent (put_row k r s) = oc_sent s"
  by (simp_all add: put_row_def)

lemma clear_fields [simp]:
  "oc_fetches (clear_timer i s) = oc_fetches s" "oc_rows (clear_timer i s) = oc_rows s"
  "oc_claims (clear_timer i s) = oc_claims s" "oc_next (clear_timer i s) = oc_next s" "oc_stopped (clear_timer i s) = oc_stopped s"
  "oc_sent (clear_timer i s) = oc_sent s" "oc_timers (clear_timer None s) = oc_timers s" "oc_timers (clear_timer (Some n) s) = jdel n (oc_timers s)"
  by (simp_all add: clear_timer_def split: option.split)

text \<open>The two shapes of a row between events, with its one timer.\<close>

definition renewing :: "string \<Rightarrow> fetch_row \<Rightarrow> nat \<Rightarrow> int \<Rightarrow> origin_claims \<Rightarrow> bool" where
  "renewing key r i due s \<longleftrightarrow> jget (oc_rows s) key = Some r \<and> fr_withdraw r = None \<and> fr_renew r = Some i \<and> timer_set s key (fr_id r) True i due"

definition leaving :: "string \<Rightarrow> fetch_row \<Rightarrow> nat \<Rightarrow> int \<Rightarrow> origin_claims \<Rightarrow> bool" where
  "leaving key r i due s \<longleftrightarrow> jget (oc_rows s) key = Some r \<and> fr_renew r = None \<and> fr_withdraw r = Some i \<and> timer_set s key (fr_id r) False i due"

lemma none_left:
  assumes "timers_of_row key s" and "renewing key r i due s \<or> leaving key r i due s" and "jget (oc_timers (clear_timer (Some i) s)) j = Some x"
  shows "ft_key x \<noteq> key"
proof
  assume "ft_key x = key"
  moreover have "jget (oc_timers s) j = Some x" "j \<noteq> i" using assms(3) by (auto split: if_splits)
  moreover have "jget (oc_timers s) j = Some x \<and> ft_key x = key \<longrightarrow>
      (\<exists>r. jget (oc_rows s) key = Some r \<and> fr_id r = ft_row x \<and> (if ft_renews x then fr_renew r else fr_withdraw r) = Some j)"
    using assms(1) unfolding timers_of_row_def by blast
  ultimately show False using assms(2) by (auto simp: renewing_def leaving_def split: if_splits)
qed

lemma schedule_renewal_ok:
  assumes "\<not> oc_stopped s" and "fresh_ids s" and "\<forall>i x. jget (oc_timers s) i = Some x \<longrightarrow> ft_key x \<noteq> key" and "fr_withdraw r = None"
  shows "(\<exists>r' i. renewing key r' i (t + 1000) (schedule_renewal t key r s))
    \<and> timers_of_row key (schedule_renewal t key r s)
    \<and> fresh_ids (schedule_renewal t key r s)
    \<and> oc_fetches (schedule_renewal t key r s) = oc_fetches s
    \<and> oc_sent (schedule_renewal t key r s) = oc_sent s
    \<and> claims_of k (schedule_renewal t key r s) = claims_of k s
    \<and> (k \<noteq> key \<longrightarrow> untouched k s (schedule_renewal t key r s))
    \<and> \<not> oc_stopped (schedule_renewal t key r s)
    \<and> oc_claims (schedule_renewal t key r s) = oc_claims s
    \<and> oc_next s \<le> oc_next (schedule_renewal t key r s)"
proof -
  have fresh: "jget (oc_timers s) (oc_next s) = None" using assms(2) by (force simp: fresh_ids_def jhas_def)
  note defs = schedule_renewal_def after_ms_def case_prod_unfold Let_def
  have "\<exists>r' i. renewing key r' i (t + 1000) (schedule_renewal t key r s)" using assms(1,4)
    by (simp add: defs renewing_def timer_set_def)
  moreover have "timers_of_row key (schedule_renewal t key r s)" using assms(1,3) by (auto simp: defs timers_of_row_def split: if_splits)
  moreover have "fresh_ids (schedule_renewal t key r s)" using assms(1,2) by (auto simp: defs fresh_ids_def less_Suc_eq)
  moreover have "untouched k s (schedule_renewal t key r s)" if "k \<noteq> key" using that assms(1) fresh by (auto simp: defs untouched_def claims_of_def)
  ultimately show ?thesis using assms by (simp add: schedule_renewal_def after_ms_def claims_of_def)
qed

text \<open>A renewal is under way afterwards, and only the timers of this key have changed.\<close>

lemma fresh_clear [simp]: "fresh_ids s \<Longrightarrow> fresh_ids (clear_timer i s)"
  by (cases i) (auto simp: fresh_ids_def)

lemma renew_fetch_ok:
  assumes "\<not> oc_stopped s" and "fresh_ids s" and "timers_of_row key s"
    and "jget (oc_rows s) key = None \<or> (\<exists>r i due. leaving key r i due s) \<or> (\<exists>r i due. renewing key r i due s \<and> due \<le> t + 1000)"
  shows "(\<exists>r i due. renewing key r i due (renew_fetch t key s) \<and> due \<le> t + 1000)
    \<and> timers_of_row key (renew_fetch t key s)
    \<and> fresh_ids (renew_fetch t key s)
    \<and> oc_fetches (renew_fetch t key s) = oc_fetches s
    \<and> oc_sent (renew_fetch t key s) = oc_sent s
    \<and> claims_of k (renew_fetch t key s) = claims_of k s
    \<and> (k \<noteq> key \<longrightarrow> untouched k s (renew_fetch t key s))
    \<and> \<not> oc_stopped (renew_fetch t key s)
    \<and> oc_claims (renew_fetch t key s) = oc_claims s
    \<and> oc_next s \<le> oc_next (renew_fetch t key s)"
proof -
  consider (none) "jget (oc_rows s) key = None" | (leaving) r i due where "leaving key r i due s"
    | (renewing) r i due where "renewing key r i due s" "due \<le> t + 1000" using assms(4) by (elim disjE exE conjE) auto
  then show ?thesis
  proof cases
    case none
    let ?s = "s\<lparr>oc_next := Suc (oc_next s)\<rparr>" and ?r = "\<lparr>fr_id = oc_next s, fr_renew = None, fr_withdraw = None\<rparr>"
    have "renew_fetch t key s = schedule_renewal t key ?r ?s" using none by (simp add: renew_fetch_def clear_timer_def)
    moreover have "\<not> oc_stopped ?s" "fresh_ids ?s" "\<And>i x. jget (oc_timers ?s) i = Some x \<Longrightarrow> ft_key x \<noteq> key"
      using assms(1-3) none by (auto simp: fresh_ids_def less_Suc_eq timers_of_row_def)
    moreover have "untouched k s ?s" by (simp add: untouched_def claims_of_def)
    ultimately show ?thesis
      using schedule_renewal_ok [of ?s key ?r t k] by (auto intro: untouched_trans simp: claims_of_def)
  next
    case (leaving r i due)
    let ?s = "clear_timer (Some i) s" and ?r = "r\<lparr>fr_withdraw := None\<rparr>"
    have "renew_fetch t key s = schedule_renewal t key ?r ?s" using leaving by (simp add: renew_fetch_def leaving_def)
    moreover have "\<And>i x. jget (oc_timers ?s) i = Some x \<Longrightarrow> ft_key x \<noteq> key" using none_left [OF assms(3)] leaving by blast
    moreover have "untouched k s ?s" if "k \<noteq> key"
      using that assms(3) leaving by (intro untouched_clear) (auto simp: leaving_def timer_set_def)
    ultimately show ?thesis
      using schedule_renewal_ok [of ?s key ?r t k] assms(1,2) by (auto intro: untouched_trans simp: claims_of_def)
  next
    case (renewing r i due)
    then have "renew_fetch t key s = put_row key r s" by (cases r) (simp add: renew_fetch_def renewing_def clear_timer_def)
    moreover have "timers_of_row key (put_row key r s)" "renewing key r i due (put_row key r s)"
      using assms(3) renewing by (simp_all add: renewing_def timers_of_row_def timer_set_def)
    moreover have "fresh_ids (put_row key r s)" using assms(2) by (simp add: fresh_ids_def)
    ultimately show ?thesis using renewing assms(1) by (auto simp: claims_of_def)
  qed
qed

lemma granted_iff:
  "granted_key True t key s \<longleftrightarrow> (\<exists>ts r i due. last_sent key (oc_sent s) = Some (ts, 2000) \<and> ts \<le> t \<and> t < ts + 2000 \<and> renewing key r i due s \<and> due \<le> ts + 1000)"
  "granted_key False t key s \<longleftrightarrow> (\<exists>ts. last_sent key (oc_sent s) = Some (ts, 2000))"
  by (auto simp: granted_key_def renewing_def)

lemma withdrawn_iff:
  "withdrawn_key key s \<longleftrightarrow> (jget (oc_rows s) key = None \<and> (case last_sent key (oc_sent s) of None \<Rightarrow> True | Some x \<Rightarrow> snd x = 0))
     \<or> (\<exists>r i due. leaving key r i due s)"
  by (auto simp: withdrawn_key_def leaving_def split: option.split)

lemma key_count:
  assumes "key_settled steady t key s"
  shows "jget (oc_fetches s) key = (if claims_of key s = {} then None else Some (card (claims_of key s)))"
  using assms by (simp add: key_settled_def)

text \<open>The state that \<open>claim_origin\<close> announces in.\<close>

definition claimed :: "int \<Rightarrow> string \<Rightarrow> origin_claims \<Rightarrow> origin_claims" where
  "claimed t key s = announce_fetch t key 2000
     (s\<lparr>oc_fetches := jset key (Suc (case jget (oc_fetches s) key of None \<Rightarrow> 0 | Some n \<Rightarrow> n)) (oc_fetches s)\<rparr>)"

definition with_claim :: "string \<Rightarrow> origin_claims \<Rightarrow> origin_claims" where
  "with_claim key s = s\<lparr>oc_claims := jset (oc_next s) key (oc_claims s), oc_next := Suc (oc_next s)\<rparr>"

lemma claim_origin_eq:
  "snd (claim_origin cap steady serving t key s) =
     (if \<not> serving \<or> length (oc_fetches s) \<ge> cap then s
      else with_claim key (if steady then renew_fetch t key (claimed t key s) else claimed t key s))"
  by (simp add: claim_origin_def claimed_def with_claim_def Let_def)

lemma claims_with_claim:
  assumes "fresh_ids s"
  shows "claims_of k (with_claim key s) = (if k = key then insert (oc_next s) (claims_of k s) else claims_of k s)" and "oc_next s \<notin> claims_of k s"
  using assms by (auto simp: claims_of_def with_claim_def fresh_ids_def jhas_def)

lemma with_claim_fields [simp]:
  "oc_fetches (with_claim key s) = oc_fetches s" "oc_rows (with_claim key s) = oc_rows s" "oc_timers (with_claim key s) = oc_timers s"
  "oc_sent (with_claim key s) = oc_sent s" "fresh_ids s \<Longrightarrow> fresh_ids (with_claim key s)"
  by (auto simp: with_claim_def fresh_ids_def less_Suc_eq)

lemma claimed_fields [simp]:
  "oc_rows (claimed t key s) = oc_rows s" "oc_timers (claimed t key s) = oc_timers s" "oc_claims (claimed t key s) = oc_claims s"
  "oc_next (claimed t key s) = oc_next s" "oc_stopped (claimed t key s) = oc_stopped s" "claims_of k (claimed t key s) = claims_of k s"
  "oc_sent (claimed t key s) = oc_sent s @ [(t, key, 2000)]" "fresh_ids (claimed t key s) = fresh_ids s" "timers_of_row k (claimed t key s) = timers_of_row k s"
  "renewing k r i due (claimed t key s) = renewing k r i due s" "leaving k r i due (claimed t key s) = leaving k r i due s"
  by (simp_all add: claimed_def claims_of_def fresh_ids_def timers_of_row_def renewing_def leaving_def timer_set_def)

lemma claim_untouched:
  assumes "k \<noteq> key"
  shows "untouched k s (claimed t key s)" and "fresh_ids s \<Longrightarrow> untouched k s (with_claim key s)"
  using assms by (simp add: untouched_def claimed_def claims_of_def) (auto simp: untouched_def claims_with_claim assms)

lemma claim_shape:
  assumes ok: "key_settled True t key s"
  shows "jget (oc_rows (claimed t key s)) key = None \<or> (\<exists>r i due. leaving key r i due (claimed t key s))
    \<or> (\<exists>r i due. renewing key r i due (claimed t key s) \<and> due \<le> t + 1000)"
proof (cases "jhas (oc_fetches s) key")
  case True
  then have "granted_key True t key s" using ok by (simp add: key_settled_def)
  then obtain ts r i due where "ts \<le> t" "renewing key r i due s" "due \<le> ts + 1000" unfolding granted_iff by blast
  then have "renewing key r i due (claimed t key s) \<and> due \<le> t + 1000" by simp
  then show ?thesis by blast
next
  case False
  then have "withdrawn_key key s" using ok by (simp add: key_settled_def)
  then show ?thesis unfolding withdrawn_iff by auto
qed

lemma claim_key_ok:
  assumes ok: "key_settled steady t key s" and "\<not> oc_stopped s" and fresh: "fresh_ids s"
  shows "key_settled steady t key (with_claim key (if steady then renew_fetch t key (claimed t key s) else claimed t key s))"
proof -
  let ?c = "claimed t key s"
  define u where "u = (if steady then renew_fetch t key ?c else ?c)"
  have shape: "jget (oc_rows ?c) key = None \<or> (\<exists>r i due. leaving key r i due ?c) \<or> (\<exists>r i due. renewing key r i due ?c \<and> due \<le> t + 1000)" if steady using claim_shape ok that by simp
  have r: "steady \<Longrightarrow> (\<exists>r i due. renewing key r i due u \<and> due \<le> t + 1000) \<and> timers_of_row key u \<and> fresh_ids u \<and> oc_fetches u = oc_fetches ?c
      \<and> oc_sent u = oc_sent ?c \<and> claims_of key u = claims_of key ?c"
    using renew_fetch_ok [of ?c key t key] shape assms(2) fresh ok by (simp add: key_settled_def u_def)
  have f: "fresh_ids u" using r fresh by (cases steady) (auto simp: u_def)
  have "jget (oc_fetches u) key = Some (Suc (card (claims_of key s)))"
    using r key_count [OF ok] by (cases steady) (auto simp: u_def claimed_def)
  moreover have "claims_of key u = claims_of key s" using r by (cases steady) (auto simp: u_def)
  ultimately have n: "jget (oc_fetches u) key = Some (card (claims_of key (with_claim key u)))" "claims_of key (with_claim key u) \<noteq> {}"
    using claims_with_claim(1) [OF f, of key key] claims_with_claim(2) [OF f, of key] by simp_all
  have "granted_key steady t key (with_claim key u)" using r
    by (cases steady) (auto simp: u_def granted_iff renewing_def timer_set_def)
  moreover have "timers_of_row key u" using r ok by (cases steady) (simp_all add: u_def key_settled_def)
  then have "timers_of_row key (with_claim key u)" by (simp add: timers_of_row_def)
  moreover have "steady \<or> jget (oc_rows (with_claim key u)) key = None" using ok by (auto simp: key_settled_def u_def)
  ultimately show ?thesis using n by (simp add: key_settled_def jhas_def flip: u_def)
qed

lemma flush_leaving:
  assumes "timers_of_row key s" and "leaving key r i due s" and "\<not> jhas (oc_fetches s) key" and "row = None \<or> row = Some (fr_id r)" and "fresh_ids s"
  shows "withdrawn_key key (flush_withdrawal t key row s) \<and> timers_of_row key (flush_withdrawal t key row s) \<and> fresh_ids (flush_withdrawal t key row s)
    \<and> oc_fetches (flush_withdrawal t key row s) = oc_fetches s \<and> oc_claims (flush_withdrawal t key row s) = oc_claims s
    \<and> (jget (oc_rows (flush_withdrawal t key row s)) key = None) \<and> (k \<noteq> key \<longrightarrow> untouched k s (flush_withdrawal t key row s))"
proof -
  let ?s = "clear_timer (Some i) s"
  have eq: "flush_withdrawal t key row s = announce_fetch t key 0 (?s\<lparr>oc_rows := jdel key (oc_rows s)\<rparr>)"
    using assms(2-4) by (auto simp: flush_withdrawal_def leaving_def Let_def)
  have "untouched k s ?s" if "k \<noteq> key"
    using that assms by (intro untouched_clear) (auto simp: leaving_def timer_set_def)
  moreover have "untouched k ?s (flush_withdrawal t key row s)" if "k \<noteq> key" using that by (simp add: eq untouched_def claims_of_def announce_fetch_def)
  moreover have "timers_of_row key (flush_withdrawal t key row s)"
    using none_left [OF assms(1) disjI2 [OF assms(2)]] unfolding eq by (simp add: timers_of_row_def)
  moreover have "fresh_ids (flush_withdrawal t key row s)" using fresh_clear [OF assms(5), of "Some i"] by (simp add: eq fresh_ids_def)
  ultimately show ?thesis by (auto simp: withdrawn_iff eq intro: untouched_trans)
qed

lemma withdraw_fetch_ok:
  assumes "\<not> oc_stopped s" and "fresh_ids s" and "timers_of_row key s" and "renewing key r i due s" and "\<not> jhas (oc_fetches s) key"
  shows "withdrawn_key key (withdraw_fetch t key announce held s) \<and> timers_of_row key (withdraw_fetch t key announce held s)
    \<and> fresh_ids (withdraw_fetch t key announce held s) \<and> oc_fetches (withdraw_fetch t key announce held s) = oc_fetches s
    \<and> oc_claims (withdraw_fetch t key announce held s) = oc_claims s \<and> (k \<noteq> key \<longrightarrow> untouched k s (withdraw_fetch t key announce held s))"
proof -
  let ?r = "r\<lparr>fr_renew := None\<rparr>"
  let ?s = "put_row key ?r (clear_timer (Some i) s)"
  have r: "jget (oc_rows s) key = Some r" "fr_withdraw r = None" "fr_renew r = Some i" using assms(4) by (simp_all add: renewing_def)
  have "untouched k s (clear_timer (Some i) s)" if "k \<noteq> key"
    using that assms by (intro untouched_clear) (auto simp: renewing_def timer_set_def)
  then have u: "untouched k s ?s" if "k \<noteq> key" using that by (blast intro: untouched_trans)
  have none: "\<And>j x. jget (oc_timers ?s) j = Some x \<Longrightarrow> ft_key x \<noteq> key" using none_left [OF assms(3) disjI1 [OF assms(4)]] by simp
  have fresh: "fresh_ids ?s" using fresh_clear [OF assms(2), of "Some i"] by (simp add: fresh_ids_def)
  then have new: "jget (oc_timers ?s) (oc_next s) = None" by (force simp: fresh_ids_def jhas_def)
  show ?thesis
  proof (cases "announce \<and> \<not> held")
    case True
    let ?x = "\<lparr>ft_due = t + 1000, ft_renews = False, ft_key = key, ft_row = fr_id r\<rparr>"
    let ?t = "?s\<lparr>oc_timers := jset (oc_next s) ?x (oc_timers ?s), oc_next := Suc (oc_next s)\<rparr>"
    have eq: "withdraw_fetch t key announce held s = put_row key (?r\<lparr>fr_withdraw := Some (oc_next s)\<rparr>) ?t"
      using True assms(1) r by (simp add: withdraw_fetch_def after_ms_def Let_def)
    have "leaving key (?r\<lparr>fr_withdraw := Some (oc_next s)\<rparr>) (oc_next s) (t + 1000) (withdraw_fetch t key announce held s)"
      unfolding eq by (simp add: leaving_def timer_set_def)
    moreover have "timers_of_row key (withdraw_fetch t key announce held s)"
      using none unfolding eq by (fastforce simp: timers_of_row_def split: if_splits)
    moreover have "fresh_ids (withdraw_fetch t key announce held s)" using fresh unfolding eq by (auto simp: fresh_ids_def less_Suc_eq)
    moreover have "untouched k ?s (withdraw_fetch t key announce held s)" if "k \<noteq> key"
      using that new unfolding eq by (auto simp: untouched_def claims_of_def put_row_def)
    ultimately show ?thesis using u by (auto simp: withdrawn_iff eq intro: untouched_trans)
  next
    case False
    then have eq: "withdraw_fetch t key announce held s = announce_fetch t key 0 (?s\<lparr>oc_rows := jdel key (oc_rows ?s)\<rparr>)"
      using assms(1,5) r by (auto simp: withdraw_fetch_def flush_withdrawal_def clear_timer_def Let_def)
    have "untouched k ?s (withdraw_fetch t key announce held s)" if "k \<noteq> key" using that by (simp add: eq untouched_def claims_of_def announce_fetch_def)
    moreover have "timers_of_row key (withdraw_fetch t key announce held s)" using none unfolding eq by (simp add: timers_of_row_def)
    moreover have "fresh_ids (withdraw_fetch t key announce held s)" using fresh unfolding eq by (simp add: fresh_ids_def)
    ultimately show ?thesis using u by (auto simp: withdrawn_iff eq intro: untouched_trans)
  qed
qed

lemma claims_card:
  assumes "jget (oc_claims s) i = Some key"
  shows "claims_of k (s\<lparr>oc_claims := jdel i (oc_claims s)\<rparr>) = claims_of k s - (if k = key then {i} else {})" and "i \<in> claims_of key s"
    and "k \<noteq> key \<Longrightarrow> i \<notin> claims_of k s"
  using assms by (auto simp: claims_of_def)

text \<open>The state in which \<open>release_claim\<close> has counted the claim off.\<close>

definition released :: "nat \<Rightarrow> string \<Rightarrow> origin_claims \<Rightarrow> origin_claims" where
  "released i key s = s\<lparr>oc_claims := jdel i (oc_claims s),
     oc_fetches := (if card (claims_of key s) > 1 then jset key (card (claims_of key s) - 1) (oc_fetches s) else jdel key (oc_fetches s))\<rparr>"

lemma released_fields [simp]:
  "oc_rows (released i key s) = oc_rows s" "oc_timers (released i key s) = oc_timers s" "oc_sent (released i key s) = oc_sent s"
  "oc_next (released i key s) = oc_next s" "oc_stopped (released i key s) = oc_stopped s" "fresh_ids s \<Longrightarrow> fresh_ids (released i key s)"
  "timers_of_row k (released i key s) = timers_of_row k s" "renewing k r j due (released i key s) = renewing k r j due s"
  "granted_key steady t k (released i key s) = granted_key steady t k s"
  by (auto simp: released_def fresh_ids_def timers_of_row_def renewing_def timer_set_def granted_key_def)

lemma release_claim_eq:
  assumes "key_settled steady' t key s" and "jget (oc_claims s) i = Some key"
  shows "release_claim steady t' i announce held s =
     (if card (claims_of key s) > 1 then released i key s
      else if steady then withdraw_fetch t' key announce held (released i key s) else announce_fetch t' key 0 (released i key s))"
proof -
  have "claims_of key s \<noteq> {}" using claims_card(2) [OF assms(2)] by blast
  then have "jget (oc_fetches s) key = Some (card (claims_of key s))" "card (claims_of key s) > 0"
    using key_count [OF assms(1)] by (simp_all add: card_gt_0_iff)
  then show ?thesis using assms(2)
    by (auto simp: release_claim_def released_def Let_def split: nat.split)
qed

lemma released_count:
  assumes "key_settled steady t key s" and "jget (oc_claims s) i = Some key"
  shows "jget (oc_fetches (released i key s)) key
      = (if claims_of key (released i key s) = {} then None else Some (card (claims_of key (released i key s))))"
    and "jhas (oc_fetches (released i key s)) key \<longleftrightarrow> card (claims_of key s) > 1"
    and "k \<noteq> key \<Longrightarrow> untouched k s (released i key s)"
proof -
  have c: "claims_of key (released i key s) = claims_of key s - {i}" "i \<in> claims_of key s"
    using claims_card [OF assms(2)] by (auto simp: released_def claims_of_def)
  have f: "jget (oc_fetches (released i key s)) key = (if card (claims_of key s) > 1 then Some (card (claims_of key s) - 1) else None)"
    by (simp add: released_def)
  have "claims_of key s - {i} = {} \<longleftrightarrow> \<not> card (claims_of key s) > 1"
    using c(2) card_Diff_singleton [OF c(2)] card_gt_0_iff [of "claims_of key s - {i}"] by auto
  with c show "jget (oc_fetches (released i key s)) key
      = (if claims_of key (released i key s) = {} then None else Some (card (claims_of key (released i key s))))"
    using f card_Diff_singleton [OF c(2)] by simp
  show "jhas (oc_fetches (released i key s)) key \<longleftrightarrow> card (claims_of key s) > 1" by (simp add: released_def)
  show "untouched k s (released i key s)" if "k \<noteq> key"
    using that claims_card [OF assms(2)] by (auto simp: released_def untouched_def claims_of_def)
qed

lemma release_key_ok:
  assumes ok: "key_settled steady t key s" and "\<not> oc_stopped s" and fresh: "fresh_ids s" and i: "jget (oc_claims s) i = Some key"
  shows "key_settled steady t key (release_claim steady t i announce held s) \<and> fresh_ids (release_claim steady t i announce held s)
    \<and> (k \<noteq> key \<longrightarrow> untouched k s (release_claim steady t i announce held s))"
proof -
  let ?u = "released i key s"
  note eq = release_claim_eq [OF ok i] and count = released_count [OF ok i]
  have had: "jhas (oc_fetches s) key" using key_count [OF ok] claims_card(2) [OF i] by (auto simp: jhas_def)
  then have g: "granted_key steady t key s" using ok by (simp add: key_settled_def)
  consider (more) "card (claims_of key s) > 1" | (quiet) "\<not> card (claims_of key s) > 1" "\<not> steady" | (last) "\<not> card (claims_of key s) > 1" steady by blast
  then show ?thesis
  proof cases
    case more
    then have v: "release_claim steady t i announce held s = ?u" using eq by simp
    show ?thesis unfolding v using more count g ok released_fields(6) [OF fresh] by (simp add: key_settled_def)
  next
    case quiet
    let ?v = "announce_fetch t key 0 ?u"
    have row: "jget (oc_rows s) key = None" "timers_of_row key s" using quiet(2) ok unfolding key_settled_def by blast+
    have "withdrawn_key key ?v" unfolding withdrawn_iff using row(1) by simp
    moreover have "timers_of_row key ?v" using row(2) by (simp add: timers_of_row_def)
    moreover have "untouched k s ?v" if "k \<noteq> key"
      by (rule untouched_trans [OF count(3) [OF that] untouched_send]) (use that in simp)
    moreover have "fresh_ids ?v" using released_fields(6) [OF fresh] by (simp add: fresh_ids_def)
    moreover have "claims_of key ?v = claims_of key ?u" by (simp add: claims_of_def)
    moreover have v: "release_claim steady t i announce held s = ?v" using eq quiet by simp
    ultimately show ?thesis unfolding v using quiet count(1,2) ok by (simp add: key_settled_def)
  next
    case last
    let ?v = "withdraw_fetch t key announce held ?u"
    have "granted_key True t key s" using g last by simp
    then obtain r j due where "renewing key r j due s" unfolding granted_iff by blast
    then have r: "renewing key r j due ?u" by simp
    have "\<not> oc_stopped ?u" "timers_of_row key ?u" "\<not> jhas (oc_fetches ?u) key" using assms(2) ok count(2) last(1) by (simp_all add: key_settled_def)
    note r = this(1) released_fields(6) [OF fresh] this(2) r this(3)
    have v: "withdrawn_key key ?v \<and> timers_of_row key ?v \<and> fresh_ids ?v \<and> oc_fetches ?v = oc_fetches ?u \<and> oc_claims ?v = oc_claims ?u
        \<and> (k \<noteq> key \<longrightarrow> untouched k ?u ?v)"
      by (rule withdraw_fetch_ok [OF r])
    then have "claims_of key ?v = claims_of key ?u" by (simp add: claims_of_def)
    moreover have eqv: "release_claim steady t i announce held s = ?v" using eq last by simp
    moreover have "untouched k s ?v" if "k \<noteq> key" using untouched_trans [OF count(3) [OF that]] v that by blast
    ultimately show ?thesis unfolding eqv using last count(1,2) v ok by (simp add: key_settled_def)
  qed
qed

lemma held_key_ok:
  assumes ok: "key_settled steady t key s" and fresh: "fresh_ids s"
  shows "key_settled steady t key (flush_withdrawal t key None s) \<and> fresh_ids (flush_withdrawal t key None s)
    \<and> (k \<noteq> key \<longrightarrow> untouched k s (flush_withdrawal t key None s))"
proof -
  consider (same) "flush_withdrawal t key None s = s"
    | (leaves) r i due where "leaving key r i due s" "\<not> jhas (oc_fetches s) key"
  proof (cases "jget (oc_rows s) key")
    case None
    then show thesis using that(1) by (simp add: flush_withdrawal_def)
  next
    case (Some r)
    show thesis
    proof (cases "jhas (oc_fetches s) key")
      case True
      then have "granted_key True t key s" using ok Some by (auto simp: key_settled_def)
      then have "fr_renew r \<noteq> None" using Some unfolding granted_iff renewing_def by auto
      then show thesis using that(1) Some by (simp add: flush_withdrawal_def)
    next
      case False
      then have "withdrawn_key key s" using ok by (simp add: key_settled_def)
      then show thesis using that(2) Some False unfolding withdrawn_iff by auto
    qed
  qed
  then show ?thesis
  proof cases
    case leaves
    have tr: "timers_of_row key s" using ok by (simp add: key_settled_def)
    have v: "withdrawn_key key (flush_withdrawal t key None s) \<and> timers_of_row key (flush_withdrawal t key None s) \<and> fresh_ids (flush_withdrawal t key None s)
        \<and> oc_fetches (flush_withdrawal t key None s) = oc_fetches s \<and> oc_claims (flush_withdrawal t key None s) = oc_claims s
        \<and> (jget (oc_rows (flush_withdrawal t key None s)) key = None) \<and> (k \<noteq> key \<longrightarrow> untouched k s (flush_withdrawal t key None s))"
      by (rule flush_leaving [OF tr leaves _ fresh]) simp
    then have "claims_of key (flush_withdrawal t key None s) = claims_of key s" by (simp add: claims_of_def)
    then show ?thesis using v key_count [OF ok] leaves(2) by (simp add: key_settled_def)
  qed (use ok fresh in simp)
qed

text \<open>A timer is taken out of the table before it acts.\<close>

definition taken :: "nat \<Rightarrow> origin_claims \<Rightarrow> origin_claims" where
  "taken i s = s\<lparr>oc_timers := jdel i (oc_timers s)\<rparr>"

lemma taken_clear: "taken i s = clear_timer (Some i) s"
  by (simp add: taken_def clear_timer_def)

lemma renewal_key_ok:
  assumes ok: "key_settled steady t key s" and "\<not> oc_stopped s" and fresh: "fresh_ids s"
    and r: "renewing key r i due s" and had: "jhas (oc_fetches s) key" and steady
  shows "key_settled steady t key (schedule_renewal t key r (announce_fetch t key 2000 (taken i s)))
    \<and> fresh_ids (schedule_renewal t key r (announce_fetch t key 2000 (taken i s)))
    \<and> (k \<noteq> key \<longrightarrow> untouched k s (schedule_renewal t key r (announce_fetch t key 2000 (taken i s))))"
proof -
  let ?u = "announce_fetch t key 2000 (taken i s)"
  have tr: "timers_of_row key s" using ok by (simp add: key_settled_def)
  have none: "\<forall>j x. jget (oc_timers ?u) j = Some x \<longrightarrow> ft_key x \<noteq> key" using none_left [OF tr disjI1 [OF r]] by (simp add: taken_clear)
  have f: "fresh_ids ?u" using fresh_clear [OF fresh, of "Some i"] by (simp add: taken_clear fresh_ids_def)
  have "untouched k s (taken i s)" if "k \<noteq> key"
    unfolding taken_clear using that tr r by (intro untouched_clear) (auto simp: renewing_def timer_set_def)
  then have u: "untouched k s ?u" if "k \<noteq> key" using that untouched_send by (blast intro: untouched_trans)
  have "\<not> oc_stopped ?u" "fr_withdraw r = None" using assms(2) r by (simp_all add: taken_def renewing_def)
  note v = schedule_renewal_ok [OF this(1) f none this(2), where t = t and k = k]
  let ?v = "schedule_renewal t key r ?u"
  obtain r' j where "renewing key r' j (t + 1000) ?v" using v by blast
  moreover have sent: "last_sent key (oc_sent ?v) = Some (t, 2000)" using v by simp
  ultimately have "granted_key True t key ?v" unfolding granted_iff by (intro exI [of _ t] exI [of _ r'] exI [of _ j] exI [of _ "t + 1000"]) simp
  moreover have "oc_fetches ?v = oc_fetches s" "claims_of key ?v = claims_of key s"
    using v schedule_renewal_ok [OF \<open>\<not> oc_stopped ?u\<close> f none \<open>fr_withdraw r = None\<close>, where t = t and k = key] by (simp_all add: taken_def claims_of_def)
  moreover have "untouched k s ?v" if "k \<noteq> key" using untouched_trans [OF u [OF that]] v that by blast
  ultimately show ?thesis using v key_count [OF ok] had \<open>steady\<close> by (simp add: key_settled_def)
qed

lemma withdrawal_key_ok:
  assumes ok: "key_settled steady t key s" and fresh: "fresh_ids s" and r: "leaving key r i due s" and had: "\<not> jhas (oc_fetches s) key"
  shows "key_settled steady t key (flush_withdrawal t key (Some (fr_id r)) (put_row key (r\<lparr>fr_withdraw := None\<rparr>) (taken i s)))
    \<and> fresh_ids (flush_withdrawal t key (Some (fr_id r)) (put_row key (r\<lparr>fr_withdraw := None\<rparr>) (taken i s)))
    \<and> (k \<noteq> key \<longrightarrow> untouched k s (flush_withdrawal t key (Some (fr_id r)) (put_row key (r\<lparr>fr_withdraw := None\<rparr>) (taken i s))))"
proof -
  let ?v = "flush_withdrawal t key (Some (fr_id r)) (put_row key (r\<lparr>fr_withdraw := None\<rparr>) (taken i s))"
  have tr: "timers_of_row key s" using ok by (simp add: key_settled_def)
  have row: "jget (oc_rows s) key = Some r" "fr_renew r = None" using r by (simp_all add: leaving_def)
  have eq: "?v = announce_fetch t key 0 ((put_row key (r\<lparr>fr_withdraw := None\<rparr>) (taken i s))\<lparr>oc_rows := jdel key (jset key (r\<lparr>fr_withdraw := None\<rparr>) (oc_rows s))\<rparr>)"
    using had row by (simp add: flush_withdrawal_def clear_timer_def taken_def Let_def)
  have "untouched k s (taken i s)" if "k \<noteq> key"
    unfolding taken_clear using that tr r by (intro untouched_clear) (auto simp: leaving_def timer_set_def)
  moreover have "untouched k (taken i s) ?v" if "k \<noteq> key"
    using that unfolding eq by (simp add: untouched_def claims_of_def taken_def announce_fetch_def put_row_def)
  ultimately have "k \<noteq> key \<longrightarrow> untouched k s ?v" by (blast intro: untouched_trans)
  moreover have "timers_of_row key ?v"
    using none_left [OF tr disjI2 [OF r]] unfolding eq timers_of_row_def by (simp add: taken_def)
  moreover have "fresh_ids ?v" using fresh_clear [OF fresh, of "Some i"] unfolding eq by (simp add: taken_clear fresh_ids_def)
  moreover have "withdrawn_key key ?v" unfolding withdrawn_iff eq by simp
  moreover have "oc_fetches ?v = oc_fetches s" "claims_of key ?v = claims_of key s" "jget (oc_rows ?v) key = None"
    unfolding eq by (simp_all add: taken_def claims_of_def)
  ultimately show ?thesis using key_count [OF ok] had by (simp add: key_settled_def)
qed

lemma timer_key_ok:
  assumes ok: "key_settled steady t (ft_key x) s" and "\<not> oc_stopped s" and fresh: "fresh_ids s" and x: "jget (oc_timers s) i = Some x"
  shows "key_settled steady t (ft_key x) (timer_fires t i s) \<and> fresh_ids (timer_fires t i s) \<and> (k \<noteq> ft_key x \<longrightarrow> untouched k s (timer_fires t i s))"
proof -
  let ?key = "ft_key x"
  have "timers_of_row ?key s" using ok by (simp add: key_settled_def)
  then obtain r where r: "jget (oc_rows s) ?key = Some r" "fr_id r = ft_row x" "(if ft_renews x then fr_renew r else fr_withdraw r) = Some i"
    using x unfolding timers_of_row_def by blast
  then have steady using ok by (auto simp: key_settled_def)
  show ?thesis
  proof (cases "jhas (oc_fetches s) ?key")
    case True
    then have "granted_key True t ?key s" using ok \<open>steady\<close> by (simp add: key_settled_def)
    then obtain r' j due where j: "renewing ?key r' j due s" unfolding granted_iff by blast
    then have same: "r' = r" "j = i" "ft_renews x" using r by (auto simp: renewing_def split: if_splits)
    then have "timer_fires t i s = schedule_renewal t ?key r (announce_fetch t ?key 2000 (taken i s))"
      using x r True by (simp add: timer_fires_def renewal_fires_def taken_def)
    then show ?thesis using renewal_key_ok [OF ok assms(2) fresh _ True \<open>steady\<close>, of r i due] j same by simp
  next
    case False
    then have "withdrawn_key ?key s" using ok by (simp add: key_settled_def)
    then obtain r' j due where j: "leaving ?key r' j due s" using r unfolding withdrawn_iff by auto
    then have same: "r' = r" "j = i" "\<not> ft_renews x" using r by (auto simp: leaving_def split: if_splits)
    then have "timer_fires t i s = flush_withdrawal t ?key (Some (fr_id r)) (put_row ?key (r\<lparr>fr_withdraw := None\<rparr>) (taken i s))"
      using x r by (simp add: timer_fires_def withdrawal_fires_def taken_def)
    then show ?thesis using withdrawal_key_ok [OF ok fresh _ False, of r i due] j same by simp
  qed
qed

lemma claim_other:
  assumes "\<not> oc_stopped s" and fresh: "fresh_ids s" and ok: "key_settled steady t key s"
  shows "fresh_ids (with_claim key (if steady then renew_fetch t key (claimed t key s) else claimed t key s))
    \<and> (k \<noteq> key \<longrightarrow> untouched k s (with_claim key (if steady then renew_fetch t key (claimed t key s) else claimed t key s)))"
proof -
  let ?c = "claimed t key s"
  have "steady \<Longrightarrow> fresh_ids (renew_fetch t key ?c) \<and> (k \<noteq> key \<longrightarrow> untouched k ?c (renew_fetch t key ?c))"
    using renew_fetch_ok [of ?c key t k] claim_shape [of t key s] assms(1) fresh ok by (simp add: key_settled_def)
  moreover have "untouched k s ?c" "\<And>u. fresh_ids u \<Longrightarrow> untouched k u (with_claim key u)" if "k \<noteq> key" using claim_untouched that by blast+
  ultimately show ?thesis using fresh by (cases steady) (simp, metis untouched_trans, simp, metis claimed_fields(8) untouched_trans)
qed

lemma length_fetches:
  "length (oc_fetches (claim_apply cap steady t e s)) \<le> max cap (length (oc_fetches s))"
proof -
  have flush: "oc_fetches (flush_withdrawal t key row s) = oc_fetches s" for t key row s
    by (auto simp: flush_withdrawal_def Let_def split: option.split)
  have after: "oc_fetches (snd (after_ms x s)) = oc_fetches s" for x s by (simp add: after_ms_def)
  have schedule: "oc_fetches (schedule_renewal t key r s) = oc_fetches s" for t key r s
    by (simp add: schedule_renewal_def case_prod_unfold after Let_def)
  have renew: "oc_fetches (renew_fetch t key s) = oc_fetches s" for t key s
    by (auto simp: renew_fetch_def Let_def schedule split: option.split)
  have withdraw: "oc_fetches (withdraw_fetch t key announce held s) = oc_fetches s" for key announce held s
    by (simp add: withdraw_fetch_def Let_def flush after case_prod_unfold split: option.split)
  have "length (oc_fetches (claimed t key s)) \<le> Suc (length (oc_fetches s))" for key
    by (simp add: claimed_def length_jset_le)
  then have "length (oc_fetches (snd (claim_origin cap steady serving t key s))) \<le> max cap (length (oc_fetches s))" for serving key
    unfolding claim_origin_eq by (simp add: renew) (metis less_eq_Suc_le max.coboundedI1 not_le order_trans)
  moreover have "length (oc_fetches (release_claim steady t i announce held s)) \<le> length (oc_fetches s)" for i announce held
    by (auto simp: release_claim_def Let_def withdraw length_jset jhas_def split: option.split nat.split)
  moreover have "length (oc_fetches (timer_fires t i s)) \<le> length (oc_fetches s)" for i
    by (auto simp: timer_fires_def renewal_fires_def withdrawal_fires_def flush schedule Let_def split: option.split)
  ultimately show ?thesis
    by (cases e) (auto simp: claim_apply_def flush stop_claims_def intro: le_max_iff_disj [THEN iffD2])
qed

text \<open>One step: its key is in order afterwards, and nothing else has changed.\<close>

lemma key_step:
  assumes "\<forall>k. key_settled steady t k s" and "\<forall>i x. jget (oc_timers s) i = Some x \<longrightarrow> t < ft_due x + 1000"
    and "fresh_ids s'" and "key_settled steady t key s'" and "\<forall>k. k \<noteq> key \<longrightarrow> untouched k s s'"
  shows "fresh_ids s' \<and> (\<forall>k. key_settled steady t k s')"
proof (intro conjI allI)
  fix k
  show "key_settled steady t k s'"
  proof (cases "k = key")
    case False
    then show ?thesis using key_ok_untouched [OF _ _ order_refl assms(2)] assms(1,5) by blast
  qed (use assms(4) in simp)
qed (rule assms(3))

lemma claim_step_ok:
  assumes live: "\<not> oc_stopped s" and fresh: "fresh_ids s" and ok: "\<forall>k. key_settled steady t k s"
    and late: "\<forall>i x. jget (oc_timers s) i = Some x \<longrightarrow> t < ft_due x + 1000" and "e \<noteq> StopClaims"
  shows "fresh_ids (claim_apply cap steady t e s) \<and> (\<forall>k. key_settled steady t k (claim_apply cap steady t e s))"
proof (cases e)
  case (Claim serving key)
  let ?v = "with_claim key (if steady then renew_fetch t key (claimed t key s) else claimed t key s)"
  have "fresh_ids ?v \<and> (\<forall>k. key_settled steady t k ?v)"
    using claim_other [OF live fresh ok [rule_format, of key]] claim_key_ok [OF ok [rule_format, of key] live fresh]
    by (intro key_step [OF ok late, of _ key]) auto
  then show ?thesis using fresh ok Claim by (simp add: claim_apply_def claim_origin_eq)
next
  case (Release i announce held)
  show ?thesis
  proof (cases "jget (oc_claims s) i")
    case None
    then show ?thesis using fresh ok Release by (simp add: claim_apply_def release_claim_def)
  next
    case (Some key)
    then show ?thesis using release_key_ok [OF ok [rule_format, of key] live fresh Some, of announce held]
      unfolding Release claim_apply_def claim_event.case by (intro key_step [OF ok late, of _ key]) auto
  qed
next
  case (HeldNow key)
  show ?thesis using held_key_ok [OF ok [rule_format, of key] fresh]
    unfolding HeldNow claim_apply_def claim_event.case by (intro key_step [OF ok late, of _ key]) auto
next
  case (Fires i)
  show ?thesis
  proof (cases "jget (oc_timers s) i")
    case None
    then show ?thesis using fresh ok Fires by (simp add: claim_apply_def timer_fires_def)
  next
    case (Some x)
    show ?thesis using timer_key_ok [OF ok [rule_format, of "ft_key x"] live fresh Some]
      unfolding Fires claim_apply_def claim_event.case by (intro key_step [OF ok late, of _ "ft_key x"]) auto
  qed
qed (use assms(5) in simp)

lemma stopped_stays: "oc_stopped s \<Longrightarrow> oc_stopped (claim_apply cap steady t e s)"
proof -
  assume s: "oc_stopped s"
  have flush: "oc_stopped (flush_withdrawal t key row u) = oc_stopped u" for t key row u
    by (auto simp: flush_withdrawal_def Let_def split: option.split)
  have after: "oc_stopped (snd (after_ms x u)) = oc_stopped u" for x u by (simp add: after_ms_def)
  have schedule: "oc_stopped (schedule_renewal t key r u) = oc_stopped u" for t key r u
    by (simp add: schedule_renewal_def case_prod_unfold after Let_def)
  have withdraw: "oc_stopped (withdraw_fetch t key announce held u) = oc_stopped u" for key announce held u
    by (simp add: withdraw_fetch_def Let_def flush after case_prod_unfold split: option.split)
  show ?thesis using s
    by (cases e) (auto simp: claim_apply_def claim_origin_def release_claim_def timer_fires_def renewal_fires_def withdrawal_fires_def stop_claims_def
        flush withdraw schedule Let_def split: option.split nat.split)
qed

lemma claim_run_inv:
  assumes "claim_run cap steady t s"
  shows "claims_inv cap steady t s"
  using assms
proof (induction rule: claim_run.induct)
  case (start t)
  have "claims_of key new_claims = {}" for key by (simp add: claims_of_def new_claims_def)
  then show ?case
    by (simp add: claims_inv_def fresh_ids_def key_settled_def timers_of_row_def withdrawn_iff jhas_def) (simp add: new_claims_def last_sent_def)
next
  case (step t s t' e)
  have len: "length (oc_fetches (claim_apply cap steady t' e s)) \<le> cap"
    using length_fetches [of cap steady t' e s] step.IH by (simp add: claims_inv_def)
  show ?case
  proof (cases "oc_stopped s \<or> e = StopClaims")
    case True
    then have "oc_stopped (claim_apply cap steady t' e s)" using stopped_stays [of s cap steady t' e] by (auto simp: claim_apply_def stop_claims_def)
    then show ?thesis using len by (simp add: claims_inv_def)
  next
    case False
    then have "fresh_ids s" "\<forall>k. key_settled steady t' k s"
      using step.IH key_ok_untouched [OF _ untouched_refl step.hyps(2,3)] by (auto simp: claims_inv_def)
    then have "fresh_ids (claim_apply cap steady t' e s) \<and> (\<forall>k. key_settled steady t' k (claim_apply cap steady t' e s))"
      using False step.hyps(3) by (intro claim_step_ok) auto
    then show ?thesis using len by (simp add: claims_inv_def)
  qed
qed

text \<open>
  C16: a viewer that fetches a segment from the origin says so for as long as it does.  While a claim on a key is
  held, the last announcement of the key was a grant, and with renewals no grant ever runs out before the next one,
  if no timer is a second late; once all are released the grant is taken back, at once or when a timer that is already
  set fires; and fetches are counted exactly, at most \<open>cap\<close> of them.
\<close>

theorem claims_announced:
  assumes "claim_run cap steady t s" and "\<not> oc_stopped s"
  shows "length (oc_fetches s) \<le> cap
    \<and> jget (oc_fetches s) key = (if claims_of key s = {} then None else Some (card (claims_of key s)))
    \<and> (claims_of key s \<noteq> {} \<longrightarrow> (\<exists>ts. last_sent key (oc_sent s) = Some (ts, 2000) \<and> (steady \<longrightarrow> t < ts + 2000)))
    \<and> (claims_of key s = {} \<longrightarrow> (case last_sent key (oc_sent s) of None \<Rightarrow> True | Some x \<Rightarrow> snd x = 0)
        \<or> (steady \<and> (\<exists>i x. jget (oc_timers s) i = Some x \<and> ft_key x = key \<and> \<not> ft_renews x)))"
proof -
  have inv: "length (oc_fetches s) \<le> cap" "key_settled steady t key s" using claim_run_inv [OF assms(1)] assms(2) by (simp_all add: claims_inv_def)
  have count: "jget (oc_fetches s) key = (if claims_of key s = {} then None else Some (card (claims_of key s)))" by (rule key_count [OF inv(2)])
  have "\<exists>ts. last_sent key (oc_sent s) = Some (ts, 2000) \<and> (steady \<longrightarrow> t < ts + 2000)" if "claims_of key s \<noteq> {}"
  proof -
    have "granted_key steady t key s" using inv(2) that count by (simp add: key_settled_def jhas_def)
    then show ?thesis unfolding granted_key_def by blast
  qed
  moreover have "(case last_sent key (oc_sent s) of None \<Rightarrow> True | Some x \<Rightarrow> snd x = 0)
        \<or> (steady \<and> (\<exists>i x. jget (oc_timers s) i = Some x \<and> ft_key x = key \<and> \<not> ft_renews x))" if "claims_of key s = {}"
  proof -
    have "withdrawn_key key s" using inv(2) that count by (simp add: key_settled_def jhas_def)
    moreover have steady if "leaving key r i due s" for r i due using inv(2) that by (auto simp: key_settled_def leaving_def)
    moreover have "\<exists>i x. jget (oc_timers s) i = Some x \<and> ft_key x = key \<and> \<not> ft_renews x" if "leaving key r i due s" for r i due
      using that unfolding leaving_def timer_set_def by (intro exI [of _ i] exI [of _ "\<lparr>ft_due = due, ft_renews = False, ft_key = key, ft_row = fr_id r\<rparr>"]) simp
    ultimately show ?thesis unfolding withdrawn_iff by blast
  qed
  ultimately show ?thesis using inv(1) count by blast
qed

text \<open>A fetch of one and a half seconds, whose renewal was half a second late.\<close>

definition oc_claimed :: origin_claims where "oc_claimed = claim_apply 24 True 0 (Claim True ''k'') new_claims"

definition oc_renewed :: origin_claims where "oc_renewed = claim_apply 24 True 1500 (Fires 1) oc_claimed"

lemma oc_claimed_timers: "oc_timers oc_claimed = [(1, \<lparr>ft_due = 1000, ft_renews = True, ft_key = ''k'', ft_row = 0\<rparr>)]"
  by code_simp

theorem claims_announced_witness:
  "\<exists>ts. last_sent ''k'' (oc_sent oc_renewed) = Some (ts, 2000) \<and> 1500 < ts + 2000"
proof -
  have "claim_run 24 True 0 oc_claimed"
    unfolding oc_claimed_def by (rule claim_run.step [OF claim_run.start [of _ _ 0]]) (simp_all add: new_claims_def)
  then have "claim_run 24 True 1500 oc_renewed"
    unfolding oc_renewed_def by (rule claim_run.step) (simp_all add: oc_claimed_timers jget_Cons)
  moreover have "oc_claims oc_renewed = [(2, ''k'')]" "\<not> oc_stopped oc_renewed" by code_simp+
  moreover from this(1) have "2 \<in> claims_of ''k'' oc_renewed" by (simp add: claims_of_def jget_Cons)
  ultimately show ?thesis using claims_announced [of 24 True 1500 oc_renewed "''k''"] by auto
qed

text \<open>The leases that are not believed for a while are at most 64.\<close>

lemma cool_leases_bounded:
  assumes "length m \<le> 64"
  shows "length (cool_leases t ps m) \<le> 64"
proof -
  have one: "length (cool_lease till p m) \<le> 64" if "length m \<le> 64" for till p and m :: "(string \<times> int) list"
  proof -
    let ?m = "jdel p m"
    have "length ?m \<le> 64" by (rule order_trans [OF length_jdel_le that])
    then have "length (if length ?m \<ge> 64 then jdel_oldest ?m else ?m) < 64"
      using length_jdel_oldest [of ?m] by (cases "?m = []") auto
    then show ?thesis unfolding cool_lease_def Let_def by (intro order_trans [OF length_jset_le] Suc_leI)
  qed
  have "length (fold (cool_lease till) ps m) \<le> 64" if "length m \<le> 64" for till and m :: "(string \<times> int) list"
    using that by (induction ps arbitrary: m) (simp_all add: one)
  then show ?thesis using assms order_trans [OF length_filter_le assms] by (simp add: cool_leases_def)
qed

end
