(* ===== verification/Spec2Isabelle.thy ===== *)
theory Spec2Isabelle
  imports Account_Claims Object_Transfer_Claims Peer_Link_Claims Relay_Session_Claims Neighbour_Discovery_Claims
    Swarm_Rotation Upload_Pacing_Claims Swarm_Serving_Claims Swarm_Membership_Claims
    Segment_Commitment_Claims Stream_Discovery_Claims Upload_Allowance_Claims Admission_Claims Demo_Relay_Claims Media_Catalogue_Claims
    Peer_Selection_Claims Policy_Renewal_Claims Account_Client_Claims Peer_First_Claims Origin_Coordination_Claims
begin

text \<open>
  RelaySwarm, a verification of its core.

  RelaySwarm lets viewers of a live HLS stream fetch segments from each other.  A swarm meets over
  Nostr relays (\<open>src/relay-session.mjs\<close>), exchanges segments over WebRTC data channels
  (\<open>src/browser/peer-link.mjs\<close>), fetches whole objects over authenticated streams
  (\<open>src/object-transfer.mjs\<close>), and charges what every viewer uploads to an account
  (\<open>src/account-upload-budget.mjs\<close>).

  Theories and what they model:

  \<^item> \<open>Js_Prelude\<close>, \<open>Json\<close>, \<open>Bytes\<close>: what the sources use of JavaScript: maps in insertion order,
    safe integers, strings, parsed values, \<open>JSON.parse\<close> and \<open>JSON.stringify\<close>, UTF-8, big-endian words.
  \<^item> \<open>Chunked\<close>, \<open>Bounded_Map\<close>: the interfaces that several components share, as locales: incremental
    decoders that cannot see how their input is cut, and memo tables of bounded size.
  \<^item> \<open>Account_Ledger\<close> to \<open>Account_Claims\<close>: the durable ledger of upload accounts, the operations of
    \<open>AccountUploadBudget\<close>, and the loop that stores the ledger before it settles outcomes.
  \<^item> \<open>Object_Transfer\<close> to \<open>Object_Transfer_Claims\<close>: frames, the incremental decoder, the receiver,
    the request and the serving side.
  \<^item> \<open>Peer_Link\<close> to \<open>Peer_Link_Claims\<close>: one \<open>PeerLink\<close>: announcements, requests and uploads.
  \<^item> \<open>Relay_Session\<close>, \<open>Relay_Session_Claims\<close>: \<open>RelayPool\<close> and \<open>RelaySwarmSession\<close>.
  \<^item> \<open>Neighbour_Discovery\<close>, \<open>Neighbour_Discovery_Claims\<close>: \<open>NeighbourDiscovery\<close>, the advisory state by which a
    viewer looks for a neighbour that holds what it demands.
  \<^item> \<open>Swarm_Rotation\<close>: which link of \<open>HlsSwarm\<close> gives way to a newcomer, and how long a refused one waits.
  \<^item> \<open>Swarm_Membership\<close>, \<open>Swarm_Signalling\<close>, \<open>Swarm_Membership_Claims\<close>: whom \<open>HlsSwarm\<close> dials, answers, admits,
    refuses and drops: its state between awaits, its handlers, and what it keeps over any events.
  \<^item> \<open>Peer_Selection\<close>, \<open>Peer_Selection_Claims\<close>: which neighbour is asked for a segment, and what a transfer's
    verified pieces tell about the link.
  \<^item> \<open>Peer_First\<close>, \<open>Peer_First_Claims\<close>: the peer-first loader: one segment asked of the neighbours before the
    origin, cut at its awaits.
  \<^item> \<open>Origin_Coordination\<close>, \<open>Origin_Coordination_Claims\<close>: which of the viewers that miss a segment fetches it, and
    what it announces while it does.
  \<^item> \<open>Upload_Pacing\<close>, \<open>Upload_Pacing_Claims\<close>: the upload pacer and the token bucket under it.
  \<^item> \<open>Swarm_Serving\<close>, \<open>Swarm_Serving_Claims\<close>: the segments that \<open>HlsSwarm\<close> holds for others and serves.
  \<^item> \<open>Segment_Commitment\<close>, \<open>Publisher_State\<close>, \<open>Segment_Commitment_Claims\<close>: signed commitments to segments, the
    delegations and revocations of their author, and the publisher that issues them.
  \<^item> \<open>Stream_Discovery\<close>, \<open>Publisher_Advertisement\<close>, \<open>Stream_Discovery_Claims\<close>: how a viewer finds a live stream
    under its host's policy, and how the publisher advertises and ends it.
  \<^item> \<open>Upload_Allowance\<close>, \<open>Upload_Allowance_Claims\<close>, \<open>Admission\<close>, \<open>Admission_Claims\<close>: the demo origin's persistent upload
    allowance and its admission tickets.
  \<^item> \<open>Demo_Relay\<close>, \<open>Demo_Relay_Claims\<close>: the demo origin's rendezvous relay.
  \<^item> \<open>Policy_Renewal\<close>, \<open>Policy_Renewal_Claims\<close>: how a page of the demo keeps the operator's policy.
  \<^item> \<open>Account_Client\<close>, \<open>Account_Client_Claims\<close>: the page's side of an account allowance: the owner's actions,
    reservations, renewals and the grant that the page holds.
  \<^item> \<open>Media_Catalogue\<close>, \<open>Media_Catalogue_Claims\<close>: which parts of a local HLS playlist may be published.

  Strings are strings of Latin-1 characters, numbers are integers (the code checks that those it
  computes with are safe integers; the scores of \<open>Peer_Selection\<close> are rational numbers), and the clock, random
  draws, cryptography and the outside world are arguments of the operations or events of the step relations.  A throw or
  a rejected promise is \<open>Inl\<close> or \<open>None\<close>.  An asynchronous function is cut at its awaits: between two of them it is
  one step, and other steps come in between.

  How the parts interact.  \<open>HlsSwarm\<close> (membership, signalling, rotation, serving, peer-first loading, origin coordination)
  learns of others through the session, dials and answers them, and keeps one \<open>PeerLink\<close> per neighbour; a load asks
  \<open>Peer_Selection\<close> for a holder, checks what arrives against a commitment of \<open>Segment_Commitment\<close>, and tells
  \<open>Neighbour_Discovery\<close> what it found; an upload takes from \<open>Upload_Pacing\<close> and from the allowance, which is the page's
  \<open>Upload_Allowance\<close> or the account's ledger through \<open>Account_Client\<close>.

  What the groups of lemmas show.
  \<^item> Accounts: what a reservation charges and to whom, that authorising and linking keep total spending, that links,
    settings and disconnecting end the grants they should; that the durable ledger is sound in every reachable state, and
    that outcomes wait for the write they depend on, the first change of a batch included.  On the page: a
    reservation is answered true at once only where no grant is required, and otherwise only by an acceptance of
    exactly its bytes under the live grant.
  \<^item> Transfers and links: encoding and decoding are inverse however a stream is cut; a receiver and a link stay in
    their bounds whatever arrives; a segment arrives whole; an abandoned request drains whatever was under way.
  \<^item> Swarm: tables and links stay bounded, descriptions are sent only when admitted, one of several viewers fetches,
    announcements match claims, uploads keep to quota and rate, loads hand out only what verified and wait only as
    long as the buffer allows.
  \<^item> Selection and discovery: exploration, sampling, rotation and replacement rates; the query for streams settles
    and keeps the newest.
  \<^item> Signatures and operator services: remembered verdicts are true ones, revocation is final, tickets are earned,
    policy authority is fresh, the relay serves standing subscriptions only, and the stored allowance fails closed.

  Bounds and fuel.  \<open>json_parse\<close> runs its parser with fuel of twice the length of the text and two more, which the round
  trip in \<open>Json\<close> proves enough for every printed value.  All other loops are structural, or have a
  termination proof by a measure; the query of \<open>Stream_Discovery\<close> runs over an endless source, and that it settles is
  one of its theorems.  Table sizes and limits are those of the code.

  Not modelled: the opt-in extensions of the media side of \<open>HlsSwarm\<close> and \<open>warm-ahead.mjs\<close>, off by default; the bridges to the
  Rust core, whose decisions are not in JavaScript; connection set-up over WebRTC, werift and Hyperswarm, the broadcaster's
  processes and the stores' files, which are input and output; the command line, HTTP routing and page elements of the demo; and
  \<open>parseHlsMaster\<close>, whose frame rates are fractions.
\<close>

end
